(* ===== verification/Zeq_Prelude.thy ===== *)
theory Zeq_Prelude
  imports Main "HOL-Library.Word"
begin

text \<open>
  Shared vocabulary of the development: the machine integer types of the C code, the error
  codes of \<open>src/enum_err.h\<close>, and the generic facts on words and lists that several components
  use. Unsigned C integers are words of their width, so that \<open>+\<close>, \<open>-\<close> and \<open>*\<close> wrap around
  as in C; a C \<open>int\<close> is an \<open>int\<close> where no overflow can happen and a signed reading of a word
  where it can.
\<close>

type_synonym u8 = "8 word"
type_synonym u16 = "16 word"
type_synonym u32 = "32 word"
type_synonym u64 = "64 word"

unbundle bit_operations_syntax

named_theorems zeq_word_simps "rewriting of words to natural numbers"

section \<open>Error codes\<close>

datatype zerr =
    ERR_None
  | ERR_Generic
  | ERR_CouldNotInit
  | ERR_CouldNotOpen
  | ERR_Invalid
  | ERR_OutOfMemory
  | ERR_OutOfSpace
  | ERR_Timeout
  | ERR_IO
  | ERR_Again
  | ERR_NotInitialized
  | ERR_CouldNotCreate
  | ERR_Semaphore
  | ERR_FileOperation
  | ERR_Fatal
  | ERR_WouldBlock
  | ERR_OutOfBounds
  | ERR_Compression
  | ERR_Library
  | ERR_Lua
  | ERR_EndOfFile
  | ERR_NotFound
  | ERR_Mismatch
  | ERR_Cancel

text \<open>The position of a code in the enumeration is its integer value.\<close>

fun err_code :: "zerr \<Rightarrow> nat" where
  "err_code ERR_None = 0"
| "err_code ERR_Generic = 1"
| "err_code ERR_CouldNotInit = 2"
| "err_code ERR_CouldNotOpen = 3"
| "err_code ERR_Invalid = 4"
| "err_code ERR_OutOfMemory = 5"
| "err_code ERR_OutOfSpace = 6"
| "err_code ERR_Timeout = 7"
| "err_code ERR_IO = 8"
| "err_code ERR_Again = 9"
| "err_code ERR_NotInitialized = 10"
| "err_code ERR_CouldNotCreate = 11"
| "err_code ERR_Semaphore = 12"
| "err_code ERR_FileOperation = 13"
| "err_code ERR_Fatal = 14"
| "err_code ERR_WouldBlock = 15"
| "err_code ERR_OutOfBounds = 16"
| "err_code ERR_Compression = 17"
| "err_code ERR_Library = 18"
| "err_code ERR_Lua = 19"
| "err_code ERR_EndOfFile = 20"
| "err_code ERR_NotFound = 21"
| "err_code ERR_Mismatch = 22"
| "err_code ERR_Cancel = 23"

lemma err_code_inj: "err_code a = err_code b \<Longrightarrow> a = b"
  by (cases a; cases b) simp_all

instantiation zerr :: linorder
begin

definition less_eq_zerr :: "zerr \<Rightarrow> zerr \<Rightarrow> bool" where
  "less_eq_zerr a b \<longleftrightarrow> err_code a \<le> err_code b"

definition less_zerr :: "zerr \<Rightarrow> zerr \<Rightarrow> bool" where
  "less_zerr a b \<longleftrightarrow> err_code a < err_code b"

instance
  by intro_classes (auto simp: less_eq_zerr_def less_zerr_def dest: err_code_inj)

end

section \<open>Words\<close>

text \<open>The mask idiom of the code, \<open>x & (capacity - 1)\<close> with a power of two capacity.\<close>

lemma unat_and_mask: "unat ((w :: 'a::len word) AND mask k) = unat w mod 2 ^ k"
  by (metis take_bit_eq_mask take_bit_eq_mod unsigned_take_bit_eq)

lemma unat_and_mask_lt [simp]: "unat ((w :: 'a::len word) AND mask k) < 2 ^ k"
  by (simp add: unat_and_mask)

lemma pow2_le_unat_imp_less: "2 ^ k \<le> unat (w :: 'a::len word) \<Longrightarrow> k < LENGTH('a)"
  using order_le_less_trans [OF _ unsigned_less [of w], of "2 ^ k :: nat"]
  by (simp add: power_strict_increasing_iff)

lemma unat_of_nat_small: "n < 2 ^ LENGTH('a) \<Longrightarrow> unat (of_nat n :: 'a::len word) = n"
  by (simp add: unat_of_nat)

lemma unat_pow2 [zeq_word_simps]: "k < LENGTH('a) \<Longrightarrow> unat (2 ^ k :: 'a::len word) = 2 ^ k"
  using unat_of_nat_small [of "2 ^ k", where 'a = 'a] by simp

lemma unat_eq_pow2_iff: "k < LENGTH('a) \<Longrightarrow> unat (w :: 'a::len word) = 2 ^ k \<longleftrightarrow> w = 2 ^ k"
  by (metis unat_pow2 unsigned_word_eqI)

lemma unat_pred: "0 < unat (w :: 'a::len word) \<Longrightarrow> unat (w - 1) = unat w - 1"
  by (simp add: unat_sub word_le_nat_alt Suc_le_eq)

lemma of_nat_pow2_minus_1: "(of_nat (2 ^ k) - 1 :: 'a::len word) = mask k"
  by (simp add: mask_eq_exp_minus_1)

lemma sint_add_no_overflow:
  fixes a b :: "'a::len word"
  assumes "- (2 ^ (LENGTH('a) - 1)) \<le> sint a + sint b" and "sint a + sint b < 2 ^ (LENGTH('a) - 1)"
  shows "sint (a + b) = sint a + sint b"
  using assms by (simp add: sint_word_ariths(1) signed_take_bit_int_eq_self)

lemma bit_imp_unat_ge:
  assumes "bit (w :: 'a::len word) j"
  shows "2 ^ j \<le> unat w"
proof -
  have "bit (unat w) j" using assms by (auto simp: bit_unsigned_iff dest: bit_imp_le_length)
  then have "odd (unat w div 2 ^ j)" by (simp only: bit_iff_odd) simp
  then show ?thesis by (cases "unat w < 2 ^ j") auto
qed

end
