(* ===== verification/Zeq_Bits.thy ===== *)
theory Zeq_Bits
  imports Zeq_Prelude
begin

text \<open>
  \<open>src/bit.h\<close>, \<open>src/bit.c\<close> and \<open>src/hash.c\<close>: the power-of-two helpers that size every growing
  array of the server, and the two hash functions behind \<open>src/util_hash_tbl.c\<close>. All of it is
  arithmetic on \<open>uint32_t\<close> and \<open>uint64_t\<close>, kept at its width.
\<close>

section \<open>Power of two helpers\<close>

definition bit_is_pow2 :: "u32 \<Rightarrow> bool" where
  "bit_is_pow2 n \<longleftrightarrow> n \<noteq> 0 \<and> (n AND (n - 1)) = 0"

definition bit_is_pow2_or_zero :: "u32 \<Rightarrow> bool" where
  "bit_is_pow2_or_zero n \<longleftrightarrow> n = 0 \<or> (n AND (n - 1)) = 0"

definition bit_rotate :: "u32 \<Rightarrow> nat \<Rightarrow> u32" where
  "bit_rotate x n = (push_bit n x OR drop_bit (unat (- word_of_nat n AND (31 :: u32))) x)"

definition bit_next_pow2_u32 :: "u32 \<Rightarrow> u32" where
  "bit_next_pow2_u32 n0 =
     (let n = n0 - 1;
          n = n OR drop_bit 1 n;
          n = n OR drop_bit 2 n;
          n = n OR drop_bit 4 n;
          n = n OR drop_bit 8 n;
          n = n OR drop_bit 16 n
      in n + 1)"

definition bit_pow2_greater_than_u32 :: "u32 \<Rightarrow> u32" where
  "bit_pow2_greater_than_u32 n = (if bit_is_pow2 n then push_bit 1 n else bit_next_pow2_u32 n)"

definition bit_pow2_greater_or_equal_u32 :: "u32 \<Rightarrow> u32" where
  "bit_pow2_greater_or_equal_u32 n = (if bit_is_pow2 n then n else bit_next_pow2_u32 n)"

text \<open>The 64-bit flag helpers the timer pool uses.\<close>

definition bit_mask64 :: "nat \<Rightarrow> u64" where
  "bit_mask64 n = push_bit n 1 - 1"

definition bit_get64 :: "u64 \<Rightarrow> nat \<Rightarrow> u64" where
  "bit_get64 v n = v AND push_bit n 1"

definition bit_set64 :: "u64 \<Rightarrow> nat \<Rightarrow> u64" where
  "bit_set64 v n = v OR push_bit n 1"

section \<open>Hash functions\<close>

definition hash_int64_impl :: "u32 \<Rightarrow> u32 \<Rightarrow> u32" where
  "hash_int64_impl lo0 hi0 =
     (let lo = lo0 XOR hi0;
          hi = bit_rotate hi0 14;
          lo = lo - hi;
          hi = bit_rotate hi 5;
          hi = hi XOR lo;
          hi = hi - bit_rotate lo 13
      in hi)"

text \<open>The mask of the low half has six hexadecimal digits, as in the source.\<close>

definition hash_int64 :: "u64 \<Rightarrow> u32" where
  "hash_int64 key0 =
     (let key = key0 + 1
      in hash_int64_impl (ucast (key AND 0xffffff))
                         (ucast (drop_bit 32 (key AND 0xffffffff00000000))))"

text \<open>
  The loop of \<open>hash_str\<close> runs its index down from \<open>len\<close> in strides of \<open>step\<close>. A \<open>char\<close> is
  signed on the platforms the build supports, so \<open>key[i - 1]\<close> is sign-extended before it is
  added.
\<close>

function hash_str_loop :: "u8 list \<Rightarrow> nat \<Rightarrow> nat \<Rightarrow> u32 \<Rightarrow> u32" where
  "hash_str_loop key step i h =
     (if step \<le> i \<and> 0 < step
      then hash_str_loop key step (i - step)
             (h XOR (push_bit 5 h + drop_bit 2 h + scast (key ! (i - 1))))
      else h)"
  by pat_completeness auto
termination
  by (relation "measure (\<lambda>(key, step, i, h). i)") auto

declare hash_str_loop.simps [simp del]

definition hash_str :: "u8 list \<Rightarrow> u32 \<Rightarrow> u32" where
  "hash_str key len = hash_str_loop key (unat (drop_bit 5 len) + 1) (unat len) len"

section \<open>Correctness of the power of two helpers\<close>

lemma bit_at_top:
  fixes x :: nat
  assumes "2 ^ k \<le> x" and "x < 2 ^ Suc k"
  shows "bit x k"
proof -
  have "x div 2 ^ k = 1"
    using assms by (intro div_nat_eqI) auto
  then show ?thesis by (simp add: bit_iff_odd)
qed

lemma ex_top_bit: "0 < (x :: nat) \<Longrightarrow> \<exists>k. 2 ^ k \<le> x \<and> x < 2 ^ Suc k"
  using ex_power_ivl1 [of 2 x] by auto

lemma bit_is_pow2_iff: "bit_is_pow2 n \<longleftrightarrow> (\<exists>k < 32. unat n = 2 ^ k)"
proof
  assume a: "bit_is_pow2 n"
  then have n0: "0 < unat n" by (simp add: bit_is_pow2_def unat_gt_0)
  then obtain k where k: "2 ^ k \<le> unat n" "unat n < 2 ^ Suc k"
    using ex_top_bit by blast
  have k32: "k < 32" using pow2_le_unat_imp_less [OF k(1)] by simp
  have "unat n = 2 ^ k"
  proof (rule ccontr)
    assume "unat n \<noteq> 2 ^ k"
    then have lt: "2 ^ k \<le> unat n - 1" "unat n - 1 < 2 ^ Suc k" using k by auto
    have pred: "unat (n - 1) = unat n - 1"
      using n0 by (rule unat_pred)
    have "bit n k" using bit_at_top [OF k] by (simp add: bit_unsigned_iff)
    moreover have "bit (n - 1) k"
      using bit_at_top [OF lt] unfolding pred [symmetric] by (simp add: bit_unsigned_iff)
    ultimately    have "bit (n AND (n - 1)) k" by (simp add: bit_and_iff)
    with a show False by (simp add: bit_is_pow2_def)
  qed
  with k32 show "\<exists>k < 32. unat n = 2 ^ k" by blast
next
  assume "\<exists>k < 32. unat n = 2 ^ k"
  then obtain k where k: "k < 32" "unat n = 2 ^ k" by blast
  then have n: "n = 2 ^ k" by (simp add: unat_eq_pow2_iff)
  have "n - 1 = mask k" by (simp add: n mask_eq_exp_minus_1)
  moreover have "(2 ^ k AND mask k :: u32) = 0"
    by (simp add: take_bit_eq_mask [symmetric] take_bit_eq_mod)
  moreover have "n \<noteq> 0" using k(2) by auto
  ultimately show "bit_is_pow2 n" by (simp add: bit_is_pow2_def n)
qed

text \<open>
  Smearing: after the five shift-or steps bit \<open>i\<close> is set exactly when some bit at or above
  \<open>i\<close> was. Each step doubles the reach.
\<close>

definition smeared :: "u32 \<Rightarrow> nat \<Rightarrow> u32 \<Rightarrow> bool" where
  "smeared x m y \<longleftrightarrow> (\<forall>i. bit y i \<longleftrightarrow> (\<exists>j < m. bit x (i + j)))"

lemma smeared_start: "smeared x 1 x"
  by (simp add: smeared_def)

lemma smeared_step: "smeared x m y \<Longrightarrow> smeared x (2 * m) (y OR drop_bit m y)"
  unfolding smeared_def
proof (intro allI)
  fix i
  assume a: "\<forall>i. bit y i = (\<exists>j<m. bit x (i + j))"
  have "bit (y OR drop_bit m y) i \<longleftrightarrow> (\<exists>j<m. bit x (i + j)) \<or> (\<exists>j<m. bit x (m + i + j))"
    by (simp add: a bit_or_iff bit_drop_bit_eq add.assoc)
  also have "\<dots> \<longleftrightarrow> (\<exists>j<2*m. bit x (i + j))"
  proof
    assume "(\<exists>j<m. bit x (i + j)) \<or> (\<exists>j<m. bit x (m + i + j))"
    then show "\<exists>j<2*m. bit x (i + j)"
    proof
      assume "\<exists>j<m. bit x (i + j)"
      then obtain j where "j < m" "bit x (i + j)" by blast
      then show ?thesis by (intro exI [of _ j]) simp
    next
      assume "\<exists>j<m. bit x (m + i + j)"
      then obtain j where "j < m" "bit x (m + i + j)" by blast
      then show ?thesis by (intro exI [of _ "m + j"]) (simp add: ac_simps)
    qed
  next
    assume "\<exists>j<2*m. bit x (i + j)"
    then obtain j where j: "j < 2 * m" "bit x (i + j)" by blast
    show "(\<exists>j<m. bit x (i + j)) \<or> (\<exists>j<m. bit x (m + i + j))"
    proof (cases "j < m")
      case True
      then show ?thesis using j by blast
    next
      case False
      then have "m + i + (j - m) = i + j" "j - m < m" using j by auto
      then show ?thesis using j by metis
    qed
  qed
  finally show "bit (y OR drop_bit m y) i = (\<exists>j<2 * m. bit x (i + j))" .
qed

lemma smeared_32_is_mask:
  assumes "smeared x 32 y" and k: "2 ^ k \<le> unat x" "unat x < 2 ^ Suc k"
  shows "y = mask (Suc k)"
proof (rule bit_word_eqI)
  fix i assume "i < LENGTH(32)"
  have k32: "k < 32" using pow2_le_unat_imp_less [OF k(1)] by simp
  have above: "\<not> bit x j" if "k < j" for j
  proof
    assume "bit x j"
    then have "2 ^ j \<le> unat x" by (rule bit_imp_unat_ge)
    moreover have "(2 :: nat) ^ Suc k \<le> 2 ^ j" using that by (intro power_increasing) auto
    ultimately show False using k(2) by linarith
  qed
  have at: "bit x k"
    using bit_at_top [OF k] by (simp add: bit_unsigned_iff)
  have "bit y i \<longleftrightarrow> (\<exists>j<32. bit x (i + j))" using assms(1) by (simp add: smeared_def)
  also have "\<dots> \<longleftrightarrow> i \<le> k"
  proof
    assume "\<exists>j<32. bit x (i + j)"
    then show "i \<le> k" using above by (metis leI not_add_less1 order_less_le_trans le_add1)
  next
    assume "i \<le> k"
    then show "\<exists>j<32. bit x (i + j)" using at k32 by (intro exI [of _ "k - i"]) auto
  qed
  finally show "bit y i = bit (mask (Suc k) :: u32) i"
    using \<open>i < LENGTH(32)\<close> by (simp add: bit_mask_iff less_Suc_eq_le)
qed

lemma bit_next_pow2_u32_eq:
  assumes "2 ^ k \<le> unat (n - 1)" "unat (n - 1) < 2 ^ Suc k"
  shows "bit_next_pow2_u32 n = 2 ^ Suc k"
proof -
  define x1 where "x1 = (n - 1) OR drop_bit 1 (n - 1)"
  define x2 where "x2 = x1 OR drop_bit 2 x1"
  define x3 where "x3 = x2 OR drop_bit 4 x2"
  define x4 where "x4 = x3 OR drop_bit 8 x3"
  define x5 where "x5 = x4 OR drop_bit 16 x4"
  have "smeared (n - 1) 32 x5"
    using smeared_step [OF smeared_step [OF smeared_step [OF smeared_step
            [OF smeared_step [OF smeared_start [of "n - 1"]]]]]]
    by (simp add: x5_def x4_def x3_def x2_def x1_def)
  then have "x5 = mask (Suc k)" using assms by (rule smeared_32_is_mask)
  then have "x5 + 1 = 2 ^ Suc k" by (simp add: mask_eq_exp_minus_1)
  then show ?thesis
    by (simp add: bit_next_pow2_u32_def Let_def x5_def x4_def x3_def x2_def x1_def)
qed

lemma bit_next_pow2_u32_spec:
  assumes "1 < unat n" "unat n \<le> 2 ^ 31"
  shows "\<exists>k \<le> 31. unat (bit_next_pow2_u32 n) = 2 ^ k \<and> unat n \<le> 2 ^ k \<and> 2 ^ k < 2 * unat n"
proof -
  have pred: "unat (n - 1) = unat n - 1"
    using assms by (intro unat_pred) simp
  then obtain k where k: "2 ^ k \<le> unat (n - 1)" "unat (n - 1) < 2 ^ Suc k"
    using ex_top_bit [of "unat (n - 1)"] assms by auto
  have "2 ^ k < (2 :: nat) ^ 31" using k pred assms by linarith
  then have k31: "k < 31" by (rule power_less_imp_less_exp [rotated]) simp
  have "unat (bit_next_pow2_u32 n) = 2 ^ Suc k"
    using k31 unat_pow2 [of "Suc k", where 'a = 32] by (simp only: bit_next_pow2_u32_eq [OF k]) simp
  then show ?thesis using k k31 pred assms
    by (intro exI [of _ "Suc k"]) auto
qed

lemma pow2_least:
  "(2 :: nat) ^ k < 2 * m \<Longrightarrow> m \<le> 2 ^ j \<Longrightarrow> (2 :: nat) ^ k \<le> 2 ^ j"
proof -
  assume "(2 :: nat) ^ k < 2 * m" "m \<le> 2 ^ j"
  then have "(2 :: nat) ^ k < 2 ^ Suc j" by simp
  then have "k < Suc j" by (rule power_less_imp_less_exp [rotated]) simp
  then show ?thesis by (intro power_increasing) auto
qed

lemma not_pow2_gt_1: "\<not> bit_is_pow2 n \<Longrightarrow> 0 < unat n \<Longrightarrow> 1 < unat n"
proof (rule ccontr)
  assume a: "\<not> bit_is_pow2 n" "0 < unat n" "\<not> 1 < unat n"
  then have "unat n = 2 ^ 0" by simp
  then have "bit_is_pow2 n" unfolding bit_is_pow2_iff by (intro exI [of _ 0]) simp
  with a show False by simp
qed

text \<open>
  \<open>bit_pow2_greater_or_equal_u32\<close>, which sizes every \<open>StaticBuffer\<close> and
  \<open>DynamicBuffer\<close> allocation, returns the least power of two that is at least its argument,
  for every argument from 1 to \<open>2 ^ 31\<close>.
\<close>

theorem bit_pow2_greater_or_equal_least:
  assumes "0 < unat n" and "unat n \<le> 2 ^ 31"
  shows "(\<exists>k \<le> 31. unat (bit_pow2_greater_or_equal_u32 n) = 2 ^ k)
    \<and> unat n \<le> unat (bit_pow2_greater_or_equal_u32 n)
    \<and> (\<forall>j. unat n \<le> 2 ^ j \<longrightarrow> unat (bit_pow2_greater_or_equal_u32 n) \<le> 2 ^ j)"
proof (cases "bit_is_pow2 n")
  case True
  then obtain k where "k < 32" "unat n = 2 ^ k" by (auto simp: bit_is_pow2_iff)
  with True show ?thesis by (auto simp: bit_pow2_greater_or_equal_u32_def intro!: exI [of _ k])
next
  case False
  with bit_next_pow2_u32_spec [OF not_pow2_gt_1 [OF False assms(1)] assms(2)] show ?thesis
    by (auto simp: bit_pow2_greater_or_equal_u32_def dest: pow2_least)
qed

theorem bit_pow2_greater_or_equal_least_witness:
  "unat (bit_pow2_greater_or_equal_u32 100) = 128
   \<and> (\<exists>k \<le> 31. unat (bit_pow2_greater_or_equal_u32 100) = 2 ^ k)"
  using bit_pow2_greater_or_equal_least [of 100]
  by (simp add: bit_pow2_greater_or_equal_u32_def bit_is_pow2_def bit_next_pow2_u32_def Let_def)

lemma bit_pow2_greater_than_spec:
  assumes "0 < unat n" and "unat n < 2 ^ 31"
  shows "(\<exists>k \<le> 31. unat (bit_pow2_greater_than_u32 n) = 2 ^ k)
    \<and> unat n < unat (bit_pow2_greater_than_u32 n)
    \<and> unat (bit_pow2_greater_than_u32 n) \<le> 2 * unat n"
proof (cases "bit_is_pow2 n")
  case True
  then obtain k where k: "k < 32" "unat n = 2 ^ k" by (auto simp: bit_is_pow2_iff)
  then have n: "n = 2 ^ k" by (simp add: unat_eq_pow2_iff)
  have "(2 :: nat) ^ k < 2 ^ 31" using k assms by simp
  then have k31: "k < 31" by (rule power_less_imp_less_exp [rotated]) simp
  have "bit_pow2_greater_than_u32 n = 2 ^ Suc k"
    using True by (simp add: bit_pow2_greater_than_u32_def n push_bit_eq_mult)
  then have "unat (bit_pow2_greater_than_u32 n) = 2 ^ Suc k"
    using k31 unat_pow2 [of "Suc k", where 'a = 32] by simp
  with k k31 show ?thesis by (auto intro!: exI [of _ "Suc k"])
next
  case False
  from bit_next_pow2_u32_spec [OF not_pow2_gt_1 [OF False assms(1)]] assms(2)
  obtain k where k: "k \<le> 31" "unat (bit_next_pow2_u32 n) = 2 ^ k" "unat n \<le> 2 ^ k" "2 ^ k < 2 * unat n"
    by auto
  have "unat n \<noteq> 2 ^ k" using False k(1) by (auto simp: bit_is_pow2_iff)
  with False k show ?thesis by (auto simp: bit_pow2_greater_than_u32_def)
qed

section \<open>Facts on the hash functions\<close>

text \<open>The hash of key 0 is not 0, so an occupied integer entry is never taken for a free one.\<close>

lemma hash_int64_0_nonzero: "hash_int64 0 \<noteq> 0"
  by code_simp

text \<open>
  \<open>hash_int64\<close> reads only bits 0 to 23 and 32 to 63 of \<open>key + 1\<close>: keys that differ in bits 24
  to 31 of it always collide.
\<close>

lemma hash_int64_collides:
  assumes "(k1 + 1) AND 0xffffffff00ffffff = (k2 + 1) AND 0xffffffff00ffffff"
  shows "hash_int64 k1 = hash_int64 k2"
proof -
  have lo: "(k + 1) AND 0xffffff = ((k + 1) AND 0xffffffff00ffffff) AND 0xffffff" for k :: u64
    by (simp add: and.assoc)
  have hi: "(k + 1) AND 0xffffffff00000000 = ((k + 1) AND 0xffffffff00ffffff) AND 0xffffffff00000000"
    for k :: u64
    by (simp add: and.assoc)
  show ?thesis unfolding hash_int64_def Let_def by (subst (1 2) lo, subst (1 2) hi) (simp only: assms)
qed

lemma hash_int64_collision_example: "hash_int64 0 = hash_int64 0x1000000"
  by (rule hash_int64_collides) simp

end
