(* ===== verification/Zeq_Buffer.thy ===== *)
theory Zeq_Buffer
  imports Zeq_Bits
begin

text \<open>
  \<open>src/buffer.c\<close>: reference-counted immutable byte strings (\<open>StaticBuffer\<close>) and growing byte
  buffers (\<open>DynamicBuffer\<close>).

  A \<open>StaticBuffer*\<close> is a 64-bit address into an explicit heap of live buffers; 0 is \<open>NULL\<close>.
  Freed buffers leave the heap, so a dangling address maps to \<open>None\<close>. Dereferencing one is
  undefined in C; the accessors below then return 0 or the empty string, and no property relies
  on it. \<open>malloc\<close> is the environment: the address it returns (0 for failure) and the previous
  contents of the block are arguments.
\<close>

section \<open>Static buffers\<close>

record sbuf =
  sb_refCount :: u32
  sb_len :: u32
  sb_bytes :: "u8 list"

type_synonym sheap = "u64 \<Rightarrow> sbuf option"

definition sbuf_create :: "sheap \<Rightarrow> u64 \<Rightarrow> u8 list \<Rightarrow> u8 list option \<Rightarrow> u32 \<Rightarrow> sheap \<times> u64" where
  "sbuf_create h addr block data len =
     (if addr = 0 then (h, 0)
      else (h(addr \<mapsto> \<lparr>sb_refCount = 0, sb_len = len,
               sb_bytes = take (unat len) (case data of Some d \<Rightarrow> d | None \<Rightarrow> block)\<rparr>), addr))"

definition sbuf_grab :: "sheap \<Rightarrow> u64 \<Rightarrow> sheap" where
  "sbuf_grab h p =
     (if p = 0 then h
      else case h p of
        None \<Rightarrow> h
      | Some b \<Rightarrow> h(p \<mapsto> b\<lparr>sb_refCount := sb_refCount b + 1\<rparr>))"

text \<open>
  The count is an \<open>int32_t\<close>: the test \<open>atomic32_sub(..) <= 1\<close> compares the old count as a
  signed number. The function always returns \<open>NULL\<close>, which the callers store back.
\<close>

definition sbuf_drop :: "sheap \<Rightarrow> u64 \<Rightarrow> sheap" where
  "sbuf_drop h p =
     (if p = 0 then h
      else case h p of
        None \<Rightarrow> h
      | Some b \<Rightarrow>
          if sint (sb_refCount b) \<le> 1 then h(p := None)
          else h(p \<mapsto> b\<lparr>sb_refCount := sb_refCount b - 1\<rparr>))"

definition sbuf_length :: "sheap \<Rightarrow> u64 \<Rightarrow> u32" where
  "sbuf_length h p = (case h p of None \<Rightarrow> 0 | Some b \<Rightarrow> sb_len b)"

definition sbuf_str :: "sheap \<Rightarrow> u64 \<Rightarrow> u8 list" where
  "sbuf_str h p = (case h p of None \<Rightarrow> [] | Some b \<Rightarrow> sb_bytes b)"

definition sbuf_str_or_empty_string :: "sheap \<Rightarrow> u64 \<Rightarrow> u8 list" where
  "sbuf_str_or_empty_string h p = (if p \<noteq> 0 then sbuf_str h p else [])"

definition sbuf_zero_fill :: "sheap \<Rightarrow> u64 \<Rightarrow> sheap" where
  "sbuf_zero_fill h p =
     (if p = 0 then h
      else case h p of
        None \<Rightarrow> h
      | Some b \<Rightarrow> h(p \<mapsto> b\<lparr>sb_bytes := replicate (unat (sb_len b)) 0\<rparr>))"

text \<open>
  \<open>strncmp(a, b, n) == 0\<close>: the comparison stops at the first \<open>NUL\<close>. Every buffer has a
  terminating \<open>NUL\<close> after its bytes, so the end of a list reads as 0.
\<close>

fun strncmp_eq :: "u8 list \<Rightarrow> u8 list \<Rightarrow> nat \<Rightarrow> bool" where
  "strncmp_eq a b 0 = True"
| "strncmp_eq [] [] (Suc n) = True"
| "strncmp_eq [] (y # ys) (Suc n) = (y = 0)"
| "strncmp_eq (x # xs) [] (Suc n) = (x = 0)"
| "strncmp_eq (x # xs) (y # ys) (Suc n) = (x = y \<and> (x = 0 \<or> strncmp_eq xs ys n))"

lemma strncmp_eq_iff:
  "0 \<notin> set a \<Longrightarrow> 0 \<notin> set b \<Longrightarrow> length a = n \<Longrightarrow> length b = n \<Longrightarrow> strncmp_eq a b n \<longleftrightarrow> a = b"
  by (induction a b n rule: strncmp_eq.induct) auto

text \<open>Grabbing and dropping never change the contents of a live buffer.\<close>

lemma sbuf_grab_reads [simp]:
  "sbuf_length (sbuf_grab h p) q = sbuf_length h q" "sbuf_str (sbuf_grab h p) q = sbuf_str h q"
  by (auto simp: sbuf_grab_def sbuf_length_def sbuf_str_def split: option.splits)

lemma sbuf_grab_drop:
  assumes "h p = Some b" and "p \<noteq> 0" and "1 \<le> sint (sb_refCount b)" and "sint (sb_refCount b) < 2 ^ 31 - 1"
  shows "sbuf_drop (sbuf_grab h p) p = h"
proof -
  have "sint (sb_refCount b + 1) = sint (sb_refCount b) + 1"
    using assms(3,4) by (subst sint_add_no_overflow) simp_all
  then have "\<not> sint (sb_refCount b + 1) \<le> 1" using assms(3) by simp
  then show ?thesis using assms(1,2)
    by (auto simp: sbuf_grab_def sbuf_drop_def fun_eq_iff)
qed

end
