(* ===== verification/Zeq_HashTbl.thy ===== *)
theory Zeq_HashTbl
  imports Zeq_Buffer
begin

text \<open>
  The model of \<open>src/util_hash_tbl.c\<close>, the hash table behind every lookup of the server: a
  power-of-two array whose collision chains run through the array itself, an entry displaced
  from its main position by a newcomer whose main position it is, as in Lua's tables.

  The entry keeps the C layout: the key is the 64-bit union \<open>keyInt\<close>/\<open>keyStr\<close>, bit 31 of \<open>next\<close>
  flags integer keys, and an entry is free when its key and its hash are both 0. The value is
  polymorphic: \<open>None\<close> stands for bytes nobody has written since the array was zeroed, and a
  \<open>NULL\<close> value argument is \<open>None\<close>. A \<open>NULL\<close> data pointer is the empty list of entries, and array
  indices of the model are the byte offsets of the source divided by \<open>entSize\<close>. Loops that
  follow chains are \<^theory_text>\<open>partial_function (option)\<close>: \<open>None\<close> means the C loop
  does not end. \<open>malloc\<close> is the argument \<open>alloc\<close>, which says of a size in bytes whether the
  request succeeds.
\<close>

section \<open>Entries\<close>

record 'v hent =
  ent_key :: u64
  ent_hash :: u32
  ent_nextw :: u32
  ent_data :: "'v option"

definition MIN_CAPACITY :: nat where "MIN_CAPACITY = 4"

definition NEXT_INVALID :: u32 where "NEXT_INVALID = 0x7fffffff"

definition FREE_INDEX_INVALID :: u32 where "FREE_INDEX_INVALID = 0x7fffffff"

definition ent_is_empty :: "'v hent \<Rightarrow> bool" where
  "ent_is_empty e \<longleftrightarrow> ent_key e = 0 \<and> ent_hash e = 0"

definition ent_is_int_key :: "'v hent \<Rightarrow> bool" where
  "ent_is_int_key e \<longleftrightarrow> drop_bit 31 (ent_nextw e AND 0x80000000) = 1"

definition ent_set_int_key :: "'v hent \<Rightarrow> 'v hent" where
  "ent_set_int_key e = e\<lparr>ent_nextw := ent_nextw e OR 0x80000000\<rparr>"

definition ent_set_str_key :: "'v hent \<Rightarrow> 'v hent" where
  "ent_set_str_key e = e\<lparr>ent_nextw := ent_nextw e AND 0x7fffffff\<rparr>"

definition ent_set_next :: "'v hent \<Rightarrow> u32 \<Rightarrow> 'v hent" where
  "ent_set_next e nx = e\<lparr>ent_nextw := nx OR (ent_nextw e AND 0x80000000)\<rparr>"

definition ent_get_next :: "'v hent \<Rightarrow> u32" where
  "ent_get_next e = ent_nextw e AND 0x7fffffff"

definition ent_has_next :: "'v hent \<Rightarrow> bool" where
  "ent_has_next e \<longleftrightarrow> ent_get_next e \<noteq> NEXT_INVALID"

text \<open>A zeroed entry whose link has been set, as after \<open>memset\<close> and the loop that follows it.\<close>

definition ent_init :: "'v hent" where
  "ent_init = \<lparr>ent_key = 0, ent_hash = 0, ent_nextw = NEXT_INVALID, ent_data = None\<rparr>"

section \<open>The table\<close>

record 'v hashtbl =
  tbl_capacity :: u32
  tbl_elemSize :: u32
  tbl_freeIndex :: u32
  tbl_entSize :: u32
  tbl_data :: "'v hent list"

text \<open>\<open>sizeof(HashTblEnt)\<close> is 16: the 8-byte key and two 4-byte words.\<close>

definition tbl_init_size :: "u32 \<Rightarrow> 'v hashtbl" where
  "tbl_init_size elemSize =
     (let entSize = elemSize + 16;
          entSize = (if entSize mod 8 \<noteq> 0 then entSize + (8 - entSize mod 8) else entSize)
      in \<lparr>tbl_capacity = 0, tbl_elemSize = elemSize, tbl_freeIndex = 0, tbl_entSize = entSize,
          tbl_data = []\<rparr>)"

definition tbl_for_each :: "('v option \<Rightarrow> 's \<Rightarrow> 'v option \<times> 's) \<Rightarrow> 'v hashtbl \<Rightarrow> 's \<Rightarrow> 'v hashtbl \<times> 's" where
  "tbl_for_each func t s =
     (let (es, s') = fold (\<lambda>e (done, s).
            if \<not> ent_is_empty e
            then (let (d, s') = func (ent_data e) s in (done @ [e\<lparr>ent_data := d\<rparr>], s'))
            else (done @ [e], s)) (tbl_data t) ([], s)
      in (t\<lparr>tbl_data := es\<rparr>, s'))"

text \<open>
  The variant that passes the table to the callback, which may change it but must not make it
  grow: the array pointer and the capacity are read once, before the loop.
\<close>

definition tbl_for_each_with_tbl ::
    "('v hashtbl \<Rightarrow> nat \<Rightarrow> 's \<Rightarrow> 'v hashtbl \<times> 's) \<Rightarrow> 'v hashtbl \<Rightarrow> 's \<Rightarrow> 'v hashtbl \<times> 's" where
  "tbl_for_each_with_tbl func t s =
     fold (\<lambda>i (t, s). if \<not> ent_is_empty (tbl_data t ! i) then func t i s else (t, s))
       [0..<length (tbl_data t)] (t, s)"

definition tbl_free_keys :: "sheap \<Rightarrow> 'v hashtbl \<Rightarrow> sheap \<times> 'v hashtbl" where
  "tbl_free_keys h t =
     (let (h', es) = fold (\<lambda>e (h, done).
            if \<not> ent_is_empty e \<and> \<not> ent_is_int_key e
            then (sbuf_drop h (ent_key e), done @ [e\<lparr>ent_key := 0\<rparr>])
            else (h, done @ [e])) (tbl_data t) (h, [])
      in (h', t\<lparr>tbl_data := es\<rparr>))"

definition tbl_deinit :: "sheap \<Rightarrow> 'v hashtbl \<Rightarrow> ('v option \<Rightarrow> 's \<Rightarrow> 'v option \<times> 's) option \<Rightarrow> 's
    \<Rightarrow> sheap \<times> 'v hashtbl \<times> 's" where
  "tbl_deinit h t dtor s =
     (if tbl_data t \<noteq> []
      then let (t1, s1) = (case dtor of Some f \<Rightarrow> tbl_for_each f t s | None \<Rightarrow> (t, s));
               (h2, t2) = tbl_free_keys h t1
           in (h2, t2\<lparr>tbl_capacity := 0, tbl_freeIndex := 0, tbl_data := []\<rparr>, s1)
      else (h, t, s))"

section \<open>Allocation and insertion\<close>

function tbl_next_free :: "'v hent list \<Rightarrow> nat \<Rightarrow> nat option" where
  "tbl_next_free es i =
     (if i < length es then (if ent_is_empty (es ! i) then Some i else tbl_next_free es (Suc i))
      else None)"
  by pat_completeness auto
termination
  by (relation "measure (\<lambda>(es, i). length es - i)") auto

declare tbl_next_free.simps [simp del]

definition tbl_advance_free_index :: "'v hashtbl \<Rightarrow> 'v hashtbl" where
  "tbl_advance_free_index t =
     t\<lparr>tbl_freeIndex := (case tbl_next_free (tbl_data t) (Suc (unat (tbl_freeIndex t))) of
         Some i \<Rightarrow> of_nat i
       | None \<Rightarrow> FREE_INDEX_INVALID)\<rparr>"

definition tbl_alloc_default :: "(u32 \<Rightarrow> bool) \<Rightarrow> 'v hashtbl \<Rightarrow> 'v hashtbl option" where
  "tbl_alloc_default alloc t =
     (if \<not> alloc (tbl_entSize t * of_nat MIN_CAPACITY) then None
      else Some (t\<lparr>tbl_capacity := of_nat MIN_CAPACITY,
                   tbl_data := replicate MIN_CAPACITY ent_init\<rparr>))"

definition tbl_ent_insert ::
    "sheap \<Rightarrow> 'v hent \<Rightarrow> u64 \<Rightarrow> bool \<Rightarrow> 'v option \<Rightarrow> u32 \<Rightarrow> u32 \<Rightarrow> sheap \<times> 'v hent" where
  "tbl_ent_insert h ent key isIntKey value hash elemSize =
     (let (h', ent') =
            (if isIntKey then (h, ent_set_int_key (ent\<lparr>ent_key := key\<rparr>))
             else (sbuf_grab h key, ent_set_str_key (ent\<lparr>ent_key := key\<rparr>)));
          ent' = ent'\<lparr>ent_hash := hash\<rparr>
      in (h', if value \<noteq> None \<and> elemSize \<noteq> 0 then ent'\<lparr>ent_data := value\<rparr> else ent'))"

definition tbl_ent_copy :: "'v hent \<Rightarrow> 'v hent \<Rightarrow> u32 \<Rightarrow> 'v hent" where
  "tbl_ent_copy newEnt oldEnt elemSize =
     (let e = newEnt\<lparr>ent_key := ent_key oldEnt, ent_hash := ent_hash oldEnt\<rparr>;
          e = (if elemSize \<noteq> 0 then e\<lparr>ent_data := ent_data oldEnt\<rparr> else e)
      in if ent_is_int_key oldEnt then ent_set_int_key e else ent_set_str_key e)"

text \<open>
  The two chain walks: from the main entry to the one that links to \<open>pos\<close>, and from an entry
  to the end of its chain.
\<close>

partial_function (option) tbl_find_prev :: "'v hent list \<Rightarrow> nat \<Rightarrow> nat \<Rightarrow> nat option" where
  "tbl_find_prev es pos i =
     (if unat (ent_get_next (es ! i)) \<noteq> pos then tbl_find_prev es pos (unat (ent_get_next (es ! i)))
      else Some i)"

partial_function (option) tbl_find_last :: "'v hent list \<Rightarrow> nat \<Rightarrow> nat option" where
  "tbl_find_last es i =
     (if ent_has_next (es ! i) then tbl_find_last es (unat (ent_get_next (es ! i))) else Some i)"

section \<open>Growing\<close>

definition upd_ent :: "'v hent list \<Rightarrow> nat \<Rightarrow> ('v hent \<Rightarrow> 'v hent) \<Rightarrow> 'v hent list" where
  "upd_ent es i f = es[i := f (es ! i)]"

text \<open>
  One iteration of the rehashing loop: \<open>msk\<close> is \<open>newCap - 1\<close> and \<open>nfree\<close> the new free index.
  The result is the new array and the new free index, or \<open>None\<close> where a chain walk does not end.
\<close>

definition tbl_realloc_advance :: "'v hent list \<Rightarrow> nat \<Rightarrow> nat" where
  "tbl_realloc_advance es nfree =
     (case tbl_next_free es (Suc nfree) of Some i \<Rightarrow> i | None \<Rightarrow> length es)"

definition tbl_realloc_step ::
    "u32 \<Rightarrow> u32 \<Rightarrow> 'v hent \<Rightarrow> 'v hent list \<Rightarrow> nat \<Rightarrow> ('v hent list \<times> nat) option" where
  "tbl_realloc_step msk elemSize oldEnt es nfree =
     (let pos = unat (ent_hash oldEnt AND msk);
          newEnt = es ! pos
      in if ent_is_empty newEnt then
           let es = es[pos := tbl_ent_copy newEnt oldEnt elemSize]
           in Some (es, if pos \<noteq> nfree then nfree else tbl_realloc_advance es nfree)
         else
           let mainPos = unat (ent_hash newEnt AND msk)
           in if mainPos \<noteq> pos then
                let es = es[nfree := newEnt]
                in Option.bind (tbl_find_prev es pos mainPos) (\<lambda>m.
                     let es = upd_ent es m (\<lambda>e. ent_set_next e (of_nat nfree));
                         es = upd_ent es pos (\<lambda>e. ent_set_next (tbl_ent_copy e oldEnt elemSize) FREE_INDEX_INVALID)
                     in Some (es, tbl_realloc_advance es nfree))
              else
                Option.bind (tbl_find_last es pos) (\<lambda>l.
                  let es = upd_ent es l (\<lambda>e. ent_set_next e (of_nat nfree));
                      es = upd_ent es nfree (\<lambda>e. tbl_ent_copy e oldEnt elemSize)
                  in Some (es, tbl_realloc_advance es nfree)))"

fun tbl_realloc_loop ::
    "u32 \<Rightarrow> u32 \<Rightarrow> 'v hent list \<Rightarrow> 'v hent list \<Rightarrow> nat \<Rightarrow> ('v hent list \<times> nat) option" where
  "tbl_realloc_loop msk elemSize [] es nfree = Some (es, nfree)"
| "tbl_realloc_loop msk elemSize (oldEnt # olds) es nfree =
     (case tbl_realloc_step msk elemSize oldEnt es nfree of
        None \<Rightarrow> None
      | Some (es', nfree') \<Rightarrow> tbl_realloc_loop msk elemSize olds es' nfree')"

text \<open>
  The outer option is termination, the inner one the success of \<open>malloc\<close>. Entries are reached by their
  number; the source computes byte offsets in 32 bits, which agree while all entries take less than 4 GiB.
\<close>

definition tbl_realloc :: "(u32 \<Rightarrow> bool) \<Rightarrow> 'v hashtbl \<Rightarrow> 'v hashtbl option option" where
  "tbl_realloc alloc t =
     (let newCap = tbl_capacity t * 2
      in if \<not> alloc (tbl_entSize t * newCap) then Some None
         else case tbl_realloc_loop (newCap - 1) (tbl_elemSize t) (tbl_data t)
                     (replicate (unat newCap) ent_init) 0 of
             None \<Rightarrow> None
           | Some (es, nfree) \<Rightarrow>
               Some (Some (t\<lparr>tbl_capacity := newCap, tbl_freeIndex := of_nat nfree, tbl_data := es\<rparr>)))"

section \<open>Setting and updating\<close>

text \<open>
  The scan of a chain for an entry that matches: \<open>ChainFound i\<close> stops at entry \<open>i\<close>,
  \<open>ChainEnd i\<close> ran to the last entry of the chain without a match.
\<close>

datatype chain_result = ChainFound nat | ChainEnd nat

partial_function (option) tbl_chain_scan ::
    "('v hent \<Rightarrow> bool) \<Rightarrow> 'v hent list \<Rightarrow> nat \<Rightarrow> chain_result option" where
  "tbl_chain_scan match es i =
     (if match (es ! i) then Some (ChainFound i)
      else if ent_has_next (es ! i) then tbl_chain_scan match es (unat (ent_get_next (es ! i)))
      else Some (ChainEnd i))"

text \<open>
  The test of \<open>tbl_set_impl\<close> on an entry of the chain. String keys are compared by pointer
  first, then by length and \<open>strncmp\<close>.
\<close>

definition set_key_matches :: "sheap \<Rightarrow> u64 \<Rightarrow> bool \<Rightarrow> u32 \<Rightarrow> 'v hent \<Rightarrow> bool" where
  "set_key_matches h key isIntKey hash ent \<longleftrightarrow>
     ent_hash ent = hash \<and> ent_is_int_key ent = isIntKey \<and>
     (if isIntKey then ent_key ent = key
      else ent_key ent = key \<or>
           (let len = sbuf_length h key
            in sbuf_length h (ent_key ent) = len \<and>
               strncmp_eq (sbuf_str h (ent_key ent)) (sbuf_str h key) (unat len)))"

text \<open>What happens at a match: \<open>ERR_Again\<close>, or the update in place.\<close>

definition tbl_set_found ::
    "sheap \<Rightarrow> 'v hashtbl \<Rightarrow> nat \<Rightarrow> u64 \<Rightarrow> bool \<Rightarrow> 'v option \<Rightarrow> bool \<Rightarrow> zerr \<times> sheap \<times> 'v hashtbl" where
  "tbl_set_found h t i key isIntKey value updateInPlace =
     (if \<not> updateInPlace then (ERR_Again, h, t)
      else
        let ent = tbl_data t ! i;
            (h, ent) =
              (if isIntKey \<or> ent_key ent = key then (h, ent)
               else (sbuf_grab (sbuf_drop h (ent_key ent)) key, ent\<lparr>ent_key := 0\<rparr>));
            ent = (if value \<noteq> None \<and> tbl_elemSize t \<noteq> 0 then ent\<lparr>ent_data := value\<rparr> else ent)
        in (ERR_None, h, t\<lparr>tbl_data := (tbl_data t)[i := ent]\<rparr>))"

text \<open>
  The main entry of the slot belongs to another chain: it moves to the free slot, its chain is
  relinked, and the new pair takes the slot.
\<close>

definition tbl_set_evict ::
    "sheap \<Rightarrow> 'v hashtbl \<Rightarrow> nat \<Rightarrow> nat \<Rightarrow> u64 \<Rightarrow> bool \<Rightarrow> 'v option \<Rightarrow> u32
      \<Rightarrow> (zerr \<times> sheap \<times> 'v hashtbl) option" where
  "tbl_set_evict h t pos mainPos key isIntKey value hash =
     (let freeIndex = tbl_freeIndex t;
          es = (tbl_data t)[unat freeIndex := tbl_data t ! pos]
      in Option.bind (tbl_find_prev es pos mainPos) (\<lambda>m.
           let es = upd_ent es m (\<lambda>e. ent_set_next e freeIndex);
               t = tbl_advance_free_index (t\<lparr>tbl_data := es\<rparr>);
               (h, ent) = tbl_ent_insert h (tbl_data t ! pos) key isIntKey value hash (tbl_elemSize t);
               ent = ent_set_next ent FREE_INDEX_INVALID
           in Some (ERR_None, h, t\<lparr>tbl_data := (tbl_data t)[pos := ent]\<rparr>)))"

definition tbl_set_append ::
    "sheap \<Rightarrow> 'v hashtbl \<Rightarrow> nat \<Rightarrow> u64 \<Rightarrow> bool \<Rightarrow> 'v option \<Rightarrow> u32 \<Rightarrow> zerr \<times> sheap \<times> 'v hashtbl" where
  "tbl_set_append h t lst key isIntKey value hash =
     (let freeIndex = tbl_freeIndex t;
          t = tbl_advance_free_index
                (t\<lparr>tbl_data := upd_ent (tbl_data t) lst (\<lambda>e. ent_set_next e freeIndex)\<rparr>);
          (h, ent) = tbl_ent_insert h (tbl_data t ! unat freeIndex) key isIntKey value hash (tbl_elemSize t)
      in (ERR_None, h, t\<lparr>tbl_data := (tbl_data t)[unat freeIndex := ent]\<rparr>))"

partial_function (option) tbl_set_impl ::
    "(u32 \<Rightarrow> bool) \<Rightarrow> sheap \<Rightarrow> 'v hashtbl \<Rightarrow> u64 \<Rightarrow> bool \<Rightarrow> 'v option \<Rightarrow> u32 \<Rightarrow> bool
      \<Rightarrow> (zerr \<times> sheap \<times> 'v hashtbl) option" where
  "tbl_set_impl alloc h t0 key isIntKey value hash updateInPlace =
     (case (if tbl_data t0 = [] then tbl_alloc_default alloc t0 else Some t0) of
        None \<Rightarrow> Some (ERR_OutOfMemory, h, t0)
      | Some t \<Rightarrow>
          let freeIndex = tbl_freeIndex t;
              capMinusOne = tbl_capacity t - 1;
              pos = unat (hash AND capMinusOne);
              ent = tbl_data t ! pos
          in if ent_is_empty ent then
               let t = (if pos = unat freeIndex then tbl_advance_free_index t else t);
                   (h, ent) = tbl_ent_insert h ent key isIntKey value hash (tbl_elemSize t)
               in Some (ERR_None, h, t\<lparr>tbl_data := (tbl_data t)[pos := ent]\<rparr>)
             else if freeIndex \<noteq> FREE_INDEX_INVALID then
               let mainPos = unat (ent_hash ent AND capMinusOne)
               in if mainPos \<noteq> pos then tbl_set_evict h t pos mainPos key isIntKey value hash
                  else
                    Option.bind (tbl_chain_scan (set_key_matches h key isIntKey hash) (tbl_data t) pos)
                      (\<lambda>r. case r of
                         ChainFound i \<Rightarrow> Some (tbl_set_found h t i key isIntKey value updateInPlace)
                       | ChainEnd i \<Rightarrow> Some (tbl_set_append h t i key isIntKey value hash))
             else
               Option.bind (tbl_realloc alloc t)
                 (\<lambda>r. case r of
                    None \<Rightarrow> Some (ERR_OutOfMemory, h, t)
                  | Some t' \<Rightarrow> tbl_set_impl alloc h t' key isIntKey value hash updateInPlace))"

definition tbl_do_set_int where
  "tbl_do_set_int alloc h t key value update =
     tbl_set_impl alloc h t key True value (hash_int64 key) update"

definition tbl_set_int where
  "tbl_set_int alloc h t key value = tbl_do_set_int alloc h t key value False"

definition tbl_update_int where
  "tbl_update_int alloc h t key value = tbl_do_set_int alloc h t key value True"

definition tbl_set_sbuf where
  "tbl_set_sbuf alloc h t key value =
     tbl_set_impl alloc h t key False value (hash_str (sbuf_str h key) (sbuf_length h key)) False"

definition tbl_update_sbuf where
  "tbl_update_sbuf alloc h t key value =
     tbl_set_impl alloc h t key False value (hash_str (sbuf_str h key) (sbuf_length h key)) True"

text \<open>
  The string entry points copy the key into a new buffer; \<open>addr\<close> is the address \<open>malloc\<close> gives
  it. A length of 0 means the length of the \<open>NUL\<close>-terminated key, and \<open>None\<close> is a \<open>NULL\<close> key.
\<close>

definition str_key_len :: "u8 list \<Rightarrow> u32 \<Rightarrow> u32" where
  "str_key_len key len = (if len = 0 then of_nat (length (takeWhile (\<lambda>c. c \<noteq> 0) key)) else len)"

definition tbl_do_set_str where
  "tbl_do_set_str alloc addr h t key len0 value update =
     (case key of
        None \<Rightarrow> Some (ERR_Invalid, h, t)
      | Some k \<Rightarrow>
          let len = str_key_len k len0;
              hash = hash_str k len;
              (h, bkey) = sbuf_create h addr [] (Some k) len;
              h = sbuf_grab h bkey
          in if bkey = 0 then Some (ERR_OutOfMemory, h, t)
             else Option.bind (tbl_set_impl alloc h t bkey False value hash update)
                    (\<lambda>(rc, h, t). Some (rc, sbuf_drop h bkey, t)))"

definition tbl_set_str where
  "tbl_set_str alloc addr h t key len value = tbl_do_set_str alloc addr h t key len value False"

definition tbl_update_str where
  "tbl_update_str alloc addr h t key len value = tbl_do_set_str alloc addr h t key len value True"

section \<open>Lookup\<close>

text \<open>A key to look up: the \<open>key\<close>/\<open>len\<close>/\<open>isIntKey\<close> arguments of the source.\<close>

datatype lookup_key = KeyInt u64 | KeyStr "u8 list" u32

fun key_is_int :: "lookup_key \<Rightarrow> bool" where
  "key_is_int (KeyInt k) = True"
| "key_is_int (KeyStr k len) = False"

fun key_eq :: "sheap \<Rightarrow> lookup_key \<Rightarrow> 'v hent \<Rightarrow> bool" where
  "key_eq h (KeyInt k) ent = (ent_key ent = k)"
| "key_eq h (KeyStr k len) ent =
     (sbuf_length h (ent_key ent) = len \<and> strncmp_eq (sbuf_str h (ent_key ent)) k (unat len))"

definition key_matches :: "sheap \<Rightarrow> lookup_key \<Rightarrow> u32 \<Rightarrow> 'v hent \<Rightarrow> bool" where
  "key_matches h key hash ent \<longleftrightarrow>
     ent_hash ent = hash \<and> ent_is_int_key ent = key_is_int key \<and> key_eq h key ent"

text \<open>The index of the entry found, if any: the outer option is termination.\<close>

definition tbl_lookup :: "sheap \<Rightarrow> 'v hashtbl \<Rightarrow> lookup_key \<Rightarrow> u32 \<Rightarrow> nat option option" where
  "tbl_lookup h t key hash =
     (let capMinusOne = tbl_capacity t - 1;
          pos = unat (hash AND capMinusOne)
      in if tbl_data t = [] then Some None
         else
           let ent = tbl_data t ! pos
           in if ent_is_empty ent then Some None
              else if unat (ent_hash ent AND capMinusOne) \<noteq> pos then Some None
              else map_option (\<lambda>r. case r of ChainFound i \<Rightarrow> Some i | ChainEnd i \<Rightarrow> None)
                     (tbl_chain_scan (key_matches h key hash) (tbl_data t) pos))"

text \<open>\<open>tbl_get_impl\<close> returns a pointer to the value, here the value read through it.\<close>

definition tbl_get_impl :: "sheap \<Rightarrow> 'v hashtbl \<Rightarrow> lookup_key \<Rightarrow> u32 \<Rightarrow> 'v option option option" where
  "tbl_get_impl h t key hash =
     map_option (map_option (\<lambda>i. ent_data (tbl_data t ! i))) (tbl_lookup h t key hash)"

definition tbl_get_int_raw :: "sheap \<Rightarrow> 'v hashtbl \<Rightarrow> u64 \<Rightarrow> 'v option option option" where
  "tbl_get_int_raw h t key = tbl_get_impl h t (KeyInt key) (hash_int64 key)"

definition tbl_get_str_raw :: "sheap \<Rightarrow> 'v hashtbl \<Rightarrow> u8 list option \<Rightarrow> u32 \<Rightarrow> 'v option option option" where
  "tbl_get_str_raw h t key len0 =
     (case key of
        None \<Rightarrow> Some None
      | Some k \<Rightarrow> let len = str_key_len k len0 in tbl_get_impl h t (KeyStr k len) (hash_str k len))"

definition tbl_get_key_str :: "sheap \<Rightarrow> 'v hashtbl \<Rightarrow> u8 list \<Rightarrow> u32 \<Rightarrow> u64 option" where
  "tbl_get_key_str h t key len =
     map_option (\<lambda>r. case r of Some i \<Rightarrow> ent_key (tbl_data t ! i) | None \<Rightarrow> 0)
       (tbl_lookup h t (KeyStr key len) (hash_str key len))"

section \<open>Removal\<close>

text \<open>
  The entry to remove is found: \<open>prev\<close> is its predecessor in the chain, \<open>None\<close> for the head. A
  removed head takes over its successor, whose slot is then the one that is cleared.
\<close>

definition ent_clear :: "'v hent \<Rightarrow> 'v hent" where
  "ent_clear e = ent_set_next (e\<lparr>ent_key := 0, ent_hash := 0\<rparr>) NEXT_INVALID"

definition tbl_remove_found :: "sheap \<Rightarrow> 'v hashtbl \<Rightarrow> bool \<Rightarrow> nat option \<Rightarrow> nat \<Rightarrow> zerr \<times> sheap \<times> 'v hashtbl" where
  "tbl_remove_found h t isIntKey prev i =
     (let freeIndex = tbl_freeIndex t;
          (h, es) = (if \<not> isIntKey
                     then (sbuf_drop h (ent_key (tbl_data t ! i)), upd_ent (tbl_data t) i (\<lambda>e. e\<lparr>ent_key := 0\<rparr>))
                     else (h, tbl_data t));
          (es, dead, fi) =
            (case prev of
               Some p \<Rightarrow>
                 (let cur = ent_get_next (es ! p)
                  in (upd_ent es p (\<lambda>e. ent_set_next e (ent_get_next (es ! i))), i,
                      if freeIndex > cur then cur else freeIndex))
             | None \<Rightarrow>
                 (let next = ent_get_next (es ! i)
                  in if next \<noteq> NEXT_INVALID
                     then (es[i := es ! unat next], unat next,
                           if freeIndex > next then next else freeIndex)
                     else (es, i, freeIndex)))
      in (ERR_None, h, t\<lparr>tbl_freeIndex := fi, tbl_data := upd_ent es dead ent_clear\<rparr>))"

text \<open>
  The loop of \<open>tbl_remove_impl\<close>. The \<open>continue\<close> of the source repeats the iteration with the
  same entry: the recursive call of the third line has the arguments of the caller.
\<close>

partial_function (option) tbl_remove_loop ::
    "sheap \<Rightarrow> 'v hashtbl \<Rightarrow> lookup_key \<Rightarrow> u32 \<Rightarrow> nat option \<Rightarrow> nat \<Rightarrow> (zerr \<times> sheap \<times> 'v hashtbl) option" where
  "tbl_remove_loop h t key hash prev i =
     (let ent = tbl_data t ! i
      in if ent_hash ent = hash \<and> ent_is_int_key ent = key_is_int key then
           (if \<not> key_eq h key ent then tbl_remove_loop h t key hash prev i
            else Some (tbl_remove_found h t (key_is_int key) prev i))
         else if ent_has_next ent then tbl_remove_loop h t key hash (Some i) (unat (ent_get_next ent))
         else Some (ERR_NotFound, h, t))"

definition tbl_remove_impl ::
    "sheap \<Rightarrow> 'v hashtbl \<Rightarrow> lookup_key \<Rightarrow> u32 \<Rightarrow> (zerr \<times> sheap \<times> 'v hashtbl) option" where
  "tbl_remove_impl h t key hash =
     (let capMinusOne = tbl_capacity t - 1;
          pos = unat (hash AND capMinusOne)
      in if tbl_data t = [] then Some (ERR_NotFound, h, t)
         else
           let ent = tbl_data t ! pos
           in if ent_is_empty ent then Some (ERR_NotFound, h, t)
              else if unat (ent_hash ent AND capMinusOne) \<noteq> pos then Some (ERR_NotFound, h, t)
              else tbl_remove_loop h t key hash None pos)"

definition tbl_remove_int :: "sheap \<Rightarrow> 'v hashtbl \<Rightarrow> u64 \<Rightarrow> (zerr \<times> sheap \<times> 'v hashtbl) option" where
  "tbl_remove_int h t key = tbl_remove_impl h t (KeyInt key) (hash_int64 key)"

definition tbl_remove_str ::
    "sheap \<Rightarrow> 'v hashtbl \<Rightarrow> u8 list option \<Rightarrow> u32 \<Rightarrow> (zerr \<times> sheap \<times> 'v hashtbl) option" where
  "tbl_remove_str h t key len0 =
     (case key of
        None \<Rightarrow> Some (ERR_Invalid, h, t)
      | Some k \<Rightarrow> let len = str_key_len k len0 in tbl_remove_impl h t (KeyStr k len) (hash_str k len))"

text \<open>The chain walks and the operations over them are executable.\<close>

declare tbl_find_prev.simps [code] tbl_find_last.simps [code] tbl_chain_scan.simps [code]
  tbl_set_impl.simps [code] tbl_remove_loop.simps [code]

end
