(* ===== verification/Zeq_Chains.thy ===== *)
theory Zeq_Chains
  imports Zeq_HashTbl "HOL-Library.Multiset"
begin

text \<open>
  The collision chains of the hash table: facts on the link word of an entry, chains as
  segments of the \<open>next\<close> function, what the three chain walks of the code return on a segment,
  and how a chain structure changes when an entry is added, displaced or removed.
\<close>

section \<open>The link word\<close>

lemma mask31: "(0x7fffffff :: u32) = mask 31"
  by (simp add: mask_eq_exp_minus_1)

lemma bit_flag: "bit (0x80000000 :: u32) i \<longleftrightarrow> i = 31"
proof -
  have "(0x80000000 :: u32) = 2 ^ 31" by simp
  then show ?thesis by (simp only: bit_exp_iff) auto
qed

lemma bit_low: "bit (0x7fffffff :: u32) i \<longleftrightarrow> i < 31"
  unfolding mask31 bit_mask_iff by auto

lemma ent_is_int_key_bit: "ent_is_int_key e \<longleftrightarrow> bit (ent_nextw e) 31"
proof -
  have "drop_bit 31 (ent_nextw e AND 0x80000000) = (if bit (ent_nextw e) 31 then 1 else (0 :: u32))"
  proof (rule bit_word_eqI)
    fix n assume "n < LENGTH(32)"
    show "bit (drop_bit 31 (ent_nextw e AND 0x80000000)) n =
          bit (if bit (ent_nextw e) 31 then 1 else (0 :: u32)) n"
      by (cases n) (auto simp: bit_drop_bit_eq bit_and_iff bit_flag bit_1_iff)
  qed
  then show ?thesis by (simp add: ent_is_int_key_def)
qed

lemma no_flag_bit: "unat (nx :: u32) < 2 ^ 31 \<Longrightarrow> \<not> bit nx 31"
  using bit_imp_unat_ge [of nx 31] by auto

lemma ent_get_next_set_next [simp]:
  assumes "unat nx < 2 ^ 31"
  shows "ent_get_next (ent_set_next e nx) = nx"
  unfolding ent_get_next_def ent_set_next_def
proof (rule bit_word_eqI)
  fix n assume "n < LENGTH(32)"
  then show "bit (ent_nextw (e\<lparr>ent_nextw := nx OR ent_nextw e AND 0x80000000\<rparr>) AND 0x7fffffff) n = bit nx n"
    using no_flag_bit [OF assms] by (auto simp: bit_and_iff bit_or_iff bit_flag bit_low less_Suc_eq numeral_eq_Suc)
qed

lemma ent_is_int_key_set_next [simp]:
  "unat nx < 2 ^ 31 \<Longrightarrow> ent_is_int_key (ent_set_next e nx) = ent_is_int_key e"
  using no_flag_bit [of nx]
  by (auto simp: ent_is_int_key_bit ent_set_next_def bit_or_iff bit_and_iff bit_flag)

lemma ent_get_next_lt: "unat (ent_get_next e) < 2 ^ 31"
  unfolding ent_get_next_def mask31 by (rule unat_and_mask_lt)

lemma ent_set_next_fields [simp]:
  "ent_key (ent_set_next e nx) = ent_key e" "ent_hash (ent_set_next e nx) = ent_hash e"
  "ent_data (ent_set_next e nx) = ent_data e"
  by (simp_all add: ent_set_next_def)

lemma ent_set_int_key_fields [simp]:
  "ent_key (ent_set_int_key e) = ent_key e" "ent_hash (ent_set_int_key e) = ent_hash e"
  "ent_data (ent_set_int_key e) = ent_data e"
  by (simp_all add: ent_set_int_key_def)

lemma ent_set_str_key_fields [simp]:
  "ent_key (ent_set_str_key e) = ent_key e" "ent_hash (ent_set_str_key e) = ent_hash e"
  "ent_data (ent_set_str_key e) = ent_data e"
  by (simp_all add: ent_set_str_key_def)

lemma ent_is_int_key_set_key [simp]:
  "ent_is_int_key (ent_set_int_key e)" "\<not> ent_is_int_key (ent_set_str_key e)"
  by (simp_all add: ent_is_int_key_bit ent_set_int_key_def ent_set_str_key_def bit_or_iff bit_and_iff
      bit_flag bit_low)

lemma or_flag_and_low: "((w :: u32) OR 0x80000000) AND 0x7fffffff = w AND 0x7fffffff"
proof (rule bit_word_eqI)
  fix n assume "n < LENGTH(32)"
  show "bit ((w OR 0x80000000) AND 0x7fffffff) n = bit (w AND 0x7fffffff) n"
    unfolding bit_and_iff bit_or_iff bit_flag bit_low by auto
qed

lemma ent_get_next_set_key [simp]:
  "ent_get_next (ent_set_int_key e) = ent_get_next e" "ent_get_next (ent_set_str_key e) = ent_get_next e"
  by (simp_all add: ent_get_next_def ent_set_int_key_def ent_set_str_key_def or_flag_and_low and.assoc)

lemma ent_upd_simps [simp]:
  "ent_get_next (e\<lparr>ent_key := k\<rparr>) = ent_get_next e" "ent_get_next (e\<lparr>ent_hash := w\<rparr>) = ent_get_next e"
  "ent_get_next (e\<lparr>ent_data := d\<rparr>) = ent_get_next e"
  "ent_is_int_key (e\<lparr>ent_key := k\<rparr>) = ent_is_int_key e" "ent_is_int_key (e\<lparr>ent_hash := w\<rparr>) = ent_is_int_key e"
  "ent_is_int_key (e\<lparr>ent_data := d\<rparr>) = ent_is_int_key e"
  by (simp_all add: ent_get_next_def ent_is_int_key_def)

lemma NEXT_INVALID_simps [simp]:
  "unat NEXT_INVALID = 2147483647" "unat FREE_INDEX_INVALID = 2147483647"
  by (simp_all add: NEXT_INVALID_def FREE_INDEX_INVALID_def)

lemma FREE_INDEX_INVALID_eq: "FREE_INDEX_INVALID = NEXT_INVALID"
  by (simp add: NEXT_INVALID_def FREE_INDEX_INVALID_def)

lemma ent_has_next_unat: "ent_has_next e \<longleftrightarrow> unat (ent_get_next e) \<noteq> 2147483647"
  unfolding ent_has_next_def by (metis NEXT_INVALID_simps(1) unsigned_word_eqI)

section \<open>Segments\<close>

text \<open>\<open>seg f xs z\<close>: following \<open>f\<close> from each element of \<open>xs\<close> leads to the next one, and from the last to \<open>z\<close>.\<close>

primrec seg :: "(nat \<Rightarrow> nat) \<Rightarrow> nat list \<Rightarrow> nat \<Rightarrow> bool" where
  "seg f [] z = True"
| "seg f (x # xs) z = (f x = hd (xs @ [z]) \<and> seg f xs z)"

lemma seg_append [simp]: "seg f (xs @ y # ys) z \<longleftrightarrow> seg f xs y \<and> seg f (y # ys) z"
proof (induction xs)
  case (Cons x xs)
  then show ?case by (cases xs) auto
qed simp

lemma seg_cong: "(\<And>x. x \<in> set xs \<Longrightarrow> f x = g x) \<Longrightarrow> seg f xs z = seg g xs z"
  by (induction xs) auto

lemma seg_upd_notin [simp]: "a \<notin> set xs \<Longrightarrow> seg (f(a := v)) xs z = seg f xs z"
  by (rule seg_cong) auto

definition nxt :: "'v hent list \<Rightarrow> nat \<Rightarrow> nat" where
  "nxt es i = unat (ent_get_next (es ! i))"

lemma tbl_find_prev_seg:
  assumes "seg (nxt es) (xs @ [m]) pos" and "pos \<notin> set (xs @ [m])"
  shows "tbl_find_prev es pos (hd (xs @ [m])) = Some m"
  using assms
proof (induction xs)
  case Nil
  then show ?case by (subst tbl_find_prev.simps) (simp add: nxt_def)
next
  case (Cons x xs)
  then have "nxt es x = hd (xs @ [m])" by (cases xs) auto
  moreover have "hd (xs @ [m]) \<noteq> pos" using Cons.prems(2) by (cases xs) auto
  ultimately show ?case using Cons by (subst tbl_find_prev.simps) (simp add: nxt_def)
qed

lemma tbl_find_last_seg:
  assumes "seg (nxt es) (xs @ [l]) 2147483647" and "2147483647 \<notin> set (xs @ [l])"
  shows "tbl_find_last es (hd (xs @ [l])) = Some l"
  using assms
proof (induction xs)
  case Nil
  then show ?case by (subst tbl_find_last.simps) (simp add: nxt_def ent_has_next_unat)
next
  case (Cons x xs)
  then have "nxt es x = hd (xs @ [l])" by (cases xs) auto
  moreover have "hd (xs @ [l]) \<noteq> 2147483647" using Cons.prems(2) by (cases xs) auto
  ultimately show ?case using Cons by (subst tbl_find_last.simps) (simp add: nxt_def ent_has_next_unat)
qed

lemma tbl_chain_scan_seg:
  assumes "seg (nxt es) xs 2147483647" and "2147483647 \<notin> set xs" and "xs \<noteq> []"
  shows "tbl_chain_scan match es (hd xs) =
    Some (case find (\<lambda>i. match (es ! i)) xs of Some i \<Rightarrow> ChainFound i | None \<Rightarrow> ChainEnd (last xs))"
  using assms
proof (induction xs)
  case (Cons x xs)
  show ?case
  proof (cases "xs = []")
    case True
    with Cons.prems show ?thesis
      by (subst tbl_chain_scan.simps) (simp add: nxt_def ent_has_next_unat)
  next
    case False
    then have hd: "hd (xs @ [z]) = hd xs" for z by (cases xs) auto
    with Cons.prems have nx: "nxt es x = hd xs" by simp
    moreover have "hd xs \<noteq> 2147483647" using Cons.prems(2) False by (cases xs) auto
    ultimately have "ent_has_next (es ! x)" by (simp add: nxt_def ent_has_next_unat)
    then show ?thesis
      using Cons False nx by (subst tbl_chain_scan.simps) (simp add: nxt_def split: option.split)
  qed
qed simp

section \<open>Chain structures\<close>

text \<open>
  \<open>chn N oc mp nx C\<close>: of \<open>N\<close> slots, those in \<open>oc\<close> are occupied, slot \<open>i\<close> has main position
  \<open>mp i\<close> and link \<open>nx i\<close>, and \<open>C p\<close> lists the chain of main position \<open>p\<close> in order. Every occupied
  slot is on the chain of its main position, and a non-empty chain starts at its main position.
\<close>

definition chain_at :: "nat \<Rightarrow> (nat \<Rightarrow> bool) \<Rightarrow> (nat \<Rightarrow> nat) \<Rightarrow> (nat \<Rightarrow> nat) \<Rightarrow> nat \<Rightarrow> nat list \<Rightarrow> bool" where
  "chain_at N oc mp nx p xs \<longleftrightarrow>
     seg nx xs 2147483647 \<and> distinct xs \<and> (xs \<noteq> [] \<longrightarrow> hd xs = p)
       \<and> (\<forall>i \<in> set xs. i < N \<and> oc i \<and> mp i = p)"

definition chn :: "nat \<Rightarrow> (nat \<Rightarrow> bool) \<Rightarrow> (nat \<Rightarrow> nat) \<Rightarrow> (nat \<Rightarrow> nat) \<Rightarrow> (nat \<Rightarrow> nat list) \<Rightarrow> bool" where
  "chn N oc mp nx C \<longleftrightarrow>
     (\<forall>p < N. chain_at N oc mp nx p (C p)) \<and> (\<forall>i < N. oc i \<longrightarrow> mp i < N \<and> i \<in> set (C (mp i)))"

lemma chnI:
  assumes "\<And>q. q < N \<Longrightarrow> chain_at N oc mp nx q (C q)"
    and "\<And>i. i < N \<Longrightarrow> oc i \<Longrightarrow> mp i < N \<and> i \<in> set (C (mp i))"
  shows "chn N oc mp nx C"
  using assms unfolding chn_def by blast

lemma chnD:
  assumes "chn N oc mp nx C" and "p < N"
  shows "seg nx (C p) 2147483647" "distinct (C p)" "C p \<noteq> [] \<Longrightarrow> hd (C p) = p"
    "i \<in> set (C p) \<Longrightarrow> i < N" "i \<in> set (C p) \<Longrightarrow> oc i" "i \<in> set (C p) \<Longrightarrow> mp i = p"
  using assms unfolding chn_def chain_at_def by blast+

lemma chn_occ:
  assumes "chn N oc mp nx C" and "i < N" and "oc i"
  shows "mp i < N" "i \<in> set (C (mp i))"
  using assms unfolding chn_def by blast+

text \<open>A chain that none of the changed slots belongs to is unaffected.\<close>

lemma chain_at_frame:
  assumes "chn N oc mp nx C" and "q < N"
    and "\<And>i. i \<in> set (C q) \<Longrightarrow> oc' i = oc i \<and> mp' i = mp i \<and> nx' i = nx i"
  shows "chain_at N oc' mp' nx' q (C q)"
proof -
  have "chain_at N oc mp nx q (C q)" using assms(1,2) by (simp add: chn_def)
  moreover have "seg nx' (C q) 2147483647 = seg nx (C q) 2147483647"
    using assms(3) by (intro seg_cong) blast
  ultimately show ?thesis using assms(3) unfolding chain_at_def by auto
qed

text \<open>A free slot takes an entry whose main position it is.\<close>

lemma chn_main:
  assumes c: "chn N oc mp nx C" and p: "p < N" "\<not> oc p"
  shows "chn N (oc(p := True)) (mp(p := p)) (nx(p := 2147483647)) (C(p := [p]))" (is "chn N ?oc ?mp ?nx ?C")
proof (rule chnI)
  have n: "p \<notin> set (C q)" if "q < N" for q using chnD(5) [OF c that] p by blast
  fix q assume q: "q < N"
  show "chain_at N ?oc ?mp ?nx q (?C q)"
  proof (cases "q = p")
    case True
    then show ?thesis using p by (simp add: chain_at_def)
  next
    case False
    have "chain_at N ?oc ?mp ?nx q (C q)" using n [OF q] by (intro chain_at_frame [OF c q]) auto
    with False show ?thesis by simp
  qed
next
  fix i assume i: "i < N" "?oc i"
  have "p \<notin> set (C p)" using chnD(5) [OF c p(1)] p by blast
  then have C: "C p = []" using chnD(3) [OF c p(1)] by (cases "C p") auto
  show "?mp i < N \<and> i \<in> set (?C (?mp i))"
    using chn_occ [OF c i(1)] i p C by (cases "i = p"; cases "mp i = p") auto
qed

text \<open>The newcomer is appended to its chain through the free slot \<open>f\<close>.\<close>

lemma chn_append:
  assumes c: "chn N oc mp nx C" and p: "p < N" "C p = xs @ [l]" and f: "f < N" "\<not> oc f"
  shows "chn N (oc(f := True)) (mp(f := p)) (nx(l := f, f := 2147483647)) (C(p := xs @ [l, f]))"
    (is "chn N ?oc ?mp ?nx ?C")
proof (rule chnI)
  have fn: "f \<notin> set (C q)" if "q < N" for q using chnD(5) [OF c that] f by blast
  have mpl: "mp l = p" using chnD(6) [OF c p(1), of l] p by simp
  have ln: "l \<notin> set (C q)" if "q < N" "q \<noteq> p" for q using chnD(6) [OF c that(1)] mpl that(2) by blast
  have lf: "l \<noteq> f" "f \<notin> set xs" "l \<notin> set xs" "distinct xs" using fn [OF p(1)] chnD(2) [OF c p(1)] p by auto
  fix q assume q: "q < N"
  show "chain_at N ?oc ?mp ?nx q (?C q)"
  proof (cases "q = p")
    case True
    have "seg ?nx (xs @ [l, f]) 2147483647" using chnD(1) [OF c p(1)] p lf by simp
    moreover have "hd (xs @ [l, f]) = p" using chnD(3) [OF c p(1)] p by (cases xs) auto
    moreover have "\<forall>i \<in> set (xs @ [l, f]). i < N \<and> ?oc i \<and> ?mp i = p"
      using chnD(4-6) [OF c p(1)] p f by auto
    ultimately show ?thesis using True lf by (auto simp: chain_at_def)
  next
    case False
    have "chain_at N ?oc ?mp ?nx q (C q)" using fn [OF q] ln [OF q False] by (intro chain_at_frame [OF c q]) auto
    with False show ?thesis by simp
  qed
next
  fix i assume i: "i < N" "?oc i"
  then show "?mp i < N \<and> i \<in> set (?C (?mp i))"
    using chn_occ [OF c i(1)] p f by (cases "i = f"; cases "mp i = p") auto
qed

text \<open>The entry of slot \<open>p\<close>, a member of the chain of \<open>m\<close>, moves to the free slot \<open>f\<close>.\<close>

lemma chn_evict:
  assumes c: "chn N oc mp nx C" and p: "p < N" and m: "m < N" "m \<noteq> p" "C m = xs @ a # p # ys"
    and f: "f < N" "\<not> oc f"
  shows "chn N (oc(f := True)) (mp(f := m, p := p)) (nx(f := nx p, a := f, p := 2147483647))
           (C(m := xs @ a # f # ys, p := [p]))" (is "chn N ?oc ?mp ?nx ?C")
proof (rule chnI)
  have fn: "f \<notin> set (C q)" if "q < N" for q using chnD(5) [OF c that] f by blast
  have mp: "mp p = m" "mp a = m" "oc p" using chnD(5,6) [OF c m(1)] m(3) by auto
  have pn: "p \<notin> set (C q)" "a \<notin> set (C q)" if "q < N" "q \<noteq> m" for q
    using chnD(6) [OF c that(1)] mp that by auto
  have dm: "distinct (xs @ a # p # ys)" using chnD(2) [OF c m(1)] m by simp
  have fm: "f \<notin> set (xs @ a # p # ys)" using fn [OF m(1)] m by simp
  fix q assume q: "q < N"
  consider "q = p" | "q = m" | "q \<noteq> p" "q \<noteq> m" by blast
  then show "chain_at N ?oc ?mp ?nx q (?C q)"
  proof cases
    case 1
    then show ?thesis using p mp f by (auto simp: chain_at_def)
  next
    case 2
    have "seg ?nx (xs @ a # f # ys) 2147483647" using chnD(1) [OF c m(1)] m dm fm by auto
    moreover have "hd (xs @ a # f # ys) = m" using chnD(3) [OF c m(1)] m by (cases xs) auto
    moreover have "\<forall>i \<in> set (xs @ a # f # ys). i < N \<and> ?oc i \<and> ?mp i = m"
      using chnD(4-6) [OF c m(1)] m f dm fm by auto
    ultimately show ?thesis using 2 m dm fm by (auto simp: chain_at_def)
  next
    case 3
    have "chain_at N ?oc ?mp ?nx q (C q)"
      using fn [OF q] pn [OF q 3(2)] by (intro chain_at_frame [OF c q]) auto
    with 3 show ?thesis by simp
  qed
next
  fix i assume i: "i < N" "?oc i"
  have mp: "mp p = m" "oc p" using chnD(5,6) [OF c m(1)] m(3) by auto
  have "C p = []"
    using chnD(3) [OF c p] chnD(6) [OF c p, of p] mp m(2) by (cases "C p") auto
  then show "?mp i < N \<and> i \<in> set (?C (?mp i))"
    using chn_occ [OF c i(1)] i p m f mp by (cases "i = p"; cases "i = f"; cases "mp i = m"; cases "mp i = p") auto
qed

text \<open>An entry that follows \<open>a\<close> in its chain leaves; a removed head takes over its successor.\<close>

lemma chn_unlink:
  assumes c: "chn N oc mp nx C" and p: "p < N" "C p = xs @ a # b # ys"
  shows "chn N (oc(b := False)) (mp(b := z)) (nx(a := nx b, b := 2147483647)) (C(p := xs @ a # ys))"
    (is "chn N ?oc ?mp ?nx ?C")
proof (rule chnI)
  have mp: "mp a = p" "mp b = p" "b < N" using chnD(4,6) [OF c p(1)] p(2) by auto
  have n: "a \<notin> set (C q)" "b \<notin> set (C q)" if "q < N" "q \<noteq> p" for q
    using chnD(6) [OF c that(1)] mp that by auto
  have d: "distinct (xs @ a # b # ys)" using chnD(2) [OF c p(1)] p by simp
  fix q assume q: "q < N"
  show "chain_at N ?oc ?mp ?nx q (?C q)"
  proof (cases "q = p")
    case True
    have "seg ?nx (xs @ a # ys) 2147483647" using chnD(1) [OF c p(1)] p d by (cases ys) auto
    moreover have "hd (xs @ a # ys) = p" using chnD(3) [OF c p(1)] p by (cases xs) auto
    moreover have "\<forall>i \<in> set (xs @ a # ys). i < N \<and> ?oc i \<and> ?mp i = p"
      using chnD(4-6) [OF c p(1)] p d by auto
    ultimately show ?thesis using True d by (auto simp: chain_at_def)
  next
    case False
    have "chain_at N ?oc ?mp ?nx q (C q)" using n [OF q False] by (intro chain_at_frame [OF c q]) auto
    with False show ?thesis by simp
  qed
next
  fix i assume i: "i < N" "?oc i"
  then have "i \<noteq> b" "oc i" by (auto split: if_splits)
  then show "?mp i < N \<and> i \<in> set (?C (?mp i))"
    using chn_occ [OF c i(1)] p by (cases "mp i = p") auto
qed

lemma chn_singleton:
  assumes c: "chn N oc mp nx C" and p: "p < N" "C p = [p]"
  shows "chn N (oc(p := False)) (mp(p := z)) (nx(p := 2147483647)) (C(p := []))"
    (is "chn N ?oc ?mp ?nx ?C")
proof (rule chnI)
  have mp: "mp p = p" using chnD(6) [OF c p(1)] p(2) by simp
  then have n: "p \<notin> set (C q)" if "q < N" "q \<noteq> p" for q using chnD(6) [OF c that(1)] that by auto
  fix q assume q: "q < N"
  show "chain_at N ?oc ?mp ?nx q (?C q)"
  proof (cases "q = p")
    case True
    then show ?thesis by (simp add: chain_at_def)
  next
    case False
    have "chain_at N ?oc ?mp ?nx q (C q)" using n [OF q False] by (intro chain_at_frame [OF c q]) auto
    with False show ?thesis by simp
  qed
next
  fix i assume i: "i < N" "?oc i"
  then have "i \<noteq> p" "oc i" by (auto split: if_splits)
  then show "?mp i < N \<and> i \<in> set (?C (?mp i))"
    using chn_occ [OF c i(1)] p by (cases "mp i = p") auto
qed

section \<open>The chain structure of an array of entries\<close>

definition occ :: "'v hent list \<Rightarrow> nat \<Rightarrow> bool" where
  "occ es i \<longleftrightarrow> \<not> ent_is_empty (es ! i)"

definition mpos :: "'v hent list \<Rightarrow> nat \<Rightarrow> nat" where
  "mpos es i = unat (ent_hash (es ! i)) mod length es"

definition chains :: "'v hent list \<Rightarrow> (nat \<Rightarrow> nat list) \<Rightarrow> bool" where
  "chains es C \<longleftrightarrow> chn (length es) (occ es) (mpos es) (nxt es) C"

lemma view_upd:
  assumes "i < length es"
  shows "occ (es[i := e]) = (occ es)(i := \<not> ent_is_empty e)"
    "mpos (es[i := e]) = (mpos es)(i := unat (ent_hash e) mod length es)"
    "nxt (es[i := e]) = (nxt es)(i := unat (ent_get_next e))"
  using assms by (auto simp: fun_eq_iff occ_def mpos_def nxt_def)

text \<open>Free slots are not linked anywhere.\<close>

definition free_unlinked :: "'v hent list \<Rightarrow> bool" where
  "free_unlinked es \<longleftrightarrow> (\<forall>i < length es. \<not> occ es i \<longrightarrow> nxt es i = 2147483647)"

definition arr_ok :: "'v hent list \<Rightarrow> bool" where
  "arr_ok es \<longleftrightarrow> (\<exists>k. 2 \<le> k \<and> k \<le> 30 \<and> length es = 2 ^ k) \<and> free_unlinked es \<and> (\<exists>C. chains es C)"

text \<open>The stored entries as a multiset, links erased.\<close>

definition stored :: "'v hent list \<Rightarrow> 'v hent multiset" where
  "stored es = mset (map (\<lambda>e. ent_set_next e 0) (filter (\<lambda>e. \<not> ent_is_empty e) es))"

definition stored1 :: "'v hent \<Rightarrow> 'v hent multiset" where
  "stored1 e = (if ent_is_empty e then {#} else {#ent_set_next e 0#})"

lemma stored_upd:
  assumes "i < length es"
  shows "stored (es[i := e]) + stored1 (es ! i) = stored es + stored1 e"
proof -
  obtain M where M: "mset es = add_mset (es ! i) M"
    using assms by (metis insert_DiffM nth_mem_mset)
  then have "mset (es[i := e]) = add_mset e M" using assms by (simp add: mset_update)
  with M show ?thesis by (simp add: stored_def stored1_def mset_filter)
qed

lemma ent_is_empty_set_next [simp]: "ent_is_empty (ent_set_next e nx) = ent_is_empty e"
  by (simp add: ent_is_empty_def)

lemma ent_set_next_twice [simp]:
  "unat nx < 2 ^ 31 \<Longrightarrow> ent_set_next (ent_set_next e nx) ny = ent_set_next e ny"
proof -
  assume a: "unat nx < 2 ^ 31"
  have "ny OR ((nx OR (ent_nextw e AND 0x80000000)) AND 0x80000000) = ny OR (ent_nextw e AND 0x80000000)"
  proof (rule bit_word_eqI)
    fix n assume "n < LENGTH(32)"
    show "bit (ny OR ((nx OR (ent_nextw e AND 0x80000000)) AND 0x80000000)) n =
      bit (ny OR (ent_nextw e AND 0x80000000)) n"
      using no_flag_bit [OF a] unfolding bit_or_iff bit_and_iff bit_flag by auto
  qed
  then show ?thesis by (simp add: ent_set_next_def)
qed

lemma stored1_set_next [simp]: "unat nx < 2 ^ 31 \<Longrightarrow> stored1 (ent_set_next e nx) = stored1 e"
  by (simp add: stored1_def)

section \<open>Array-level insertions\<close>

text \<open>The outcome of an insertion that occupies slot \<open>s\<close> and stores entry \<open>e\<close>.\<close>

definition inserted :: "'v hent list \<Rightarrow> 'v hent \<Rightarrow> nat \<Rightarrow> 'v hent list \<Rightarrow> bool" where
  "inserted es e s es' \<longleftrightarrow> arr_ok es' \<and> length es' = length es
     \<and> stored es' = add_mset (ent_set_next e 0) (stored es) \<and> occ es' = (occ es)(s := True)"

lemma arr_len:
  assumes "arr_ok es" and "i < length es"
  shows "i < 2147483647" "unat (of_nat i :: u32) = i" "length es \<le> 2 ^ 30"
proof -
  obtain k where k: "k \<le> 30" "length es = 2 ^ k" using assms by (auto simp: arr_ok_def)
  then have "(2 :: nat) ^ k \<le> 2 ^ 30" by (intro power_increasing) auto
  then show "length es \<le> 2 ^ 30" "i < 2147483647" using k assms(2) by auto
  then show "unat (of_nat i :: u32) = i" by (intro unat_of_nat_small) simp
qed

lemma insert_main:
  assumes ok: "arr_ok es" and p: "p < length es" "\<not> occ es p"
    and e: "\<not> ent_is_empty e" "unat (ent_hash e) mod length es = p" "unat (ent_get_next e) = 2147483647"
  shows "inserted es e p (es[p := e])"
proof -
  obtain C where "chains es C" using ok by (auto simp: arr_ok_def)
  then have "chains (es[p := e]) (C(p := [p]))"
    using chn_main [of "length es" "occ es" "mpos es" "nxt es" C p] p e
    by (simp add: chains_def view_upd)
  moreover have "free_unlinked (es[p := e])"
    using ok p e by (auto simp: arr_ok_def free_unlinked_def view_upd)
  moreover have "stored (es[p := e]) = add_mset (ent_set_next e 0) (stored es)"
    using stored_upd [OF p(1), of e] p(2) e(1) by (simp add: stored1_def occ_def)
  ultimately show ?thesis using ok p e by (auto simp: inserted_def arr_ok_def view_upd)
qed

lemma insert_append:
  assumes ok: "arr_ok es" and C: "chains es C" and p: "p < length es" "C p = xs @ [l]"
    and f: "f < length es" "\<not> occ es f"
    and e: "\<not> ent_is_empty e" "unat (ent_hash e) mod length es = p" "unat (ent_get_next e) = 2147483647"
  shows "inserted es e f ((upd_ent es l (\<lambda>x. ent_set_next x (of_nat f)))[f := e])"
proof -
  have c: "chn (length es) (occ es) (mpos es) (nxt es) C" using C by (simp add: chains_def)
  have l: "l < length es" "occ es l" using chnD(4,5) [OF c p(1), of l] p(2) by auto
  then have lf: "l \<noteq> f" using f by auto
  have uf: "unat (of_nat f :: u32) = f" "f < 2147483648" using arr_len [OF ok f(1)] by auto
  let ?es = "(upd_ent es l (\<lambda>x. ent_set_next x (of_nat f)))[f := e]"
  have mpl: "mpos es l = p" using chnD(6) [OF c p(1), of l] p(2) by simp
  have views: "occ ?es = (occ es)(f := True)" "mpos ?es = (mpos es)(f := p)"
    "nxt ?es = (nxt es)(l := f, f := 2147483647)"
    using l f e uf lf mpl by (auto simp: upd_ent_def view_upd fun_eq_iff occ_def mpos_def)
  have "chains ?es (C(p := xs @ [l, f]))"
    using chn_append [OF c p f] views by (simp add: chains_def upd_ent_def)
  moreover have "free_unlinked ?es"
    using ok l(2) by (auto simp: arr_ok_def free_unlinked_def views) (simp_all add: upd_ent_def)
  moreover have "stored ?es = add_mset (ent_set_next e 0) (stored es)"
    using stored_upd [of f "es[l := ent_set_next (es ! l) (of_nat f)]" e]
      stored_upd [OF l(1), of "ent_set_next (es ! l) (of_nat f)"] f l lf uf e
    by (simp add: upd_ent_def stored1_def occ_def)
  ultimately show ?thesis using ok views by (auto simp: inserted_def arr_ok_def upd_ent_def)
qed

lemma insert_evict:
  fixes es :: "'v hent list"
  assumes ok: "arr_ok es" and p: "p < length es" "occ es p" "mpos es p = m" "m \<noteq> p"
    and f: "f < length es" "\<not> occ es f"
  obtains a where "tbl_find_prev (es[f := es ! p]) p m = Some a" "a \<noteq> p" "a \<noteq> f" "a < length es"
    and "\<And>e. \<not> ent_is_empty e \<Longrightarrow> unat (ent_hash e) mod length es = p \<Longrightarrow>
           unat (ent_get_next e) = 2147483647 \<Longrightarrow>
           inserted es e f ((upd_ent (es[f := es ! p]) a (\<lambda>x. ent_set_next x (of_nat f)))[p := e])"
proof -
  obtain C where C: "chains es C" using ok by (auto simp: arr_ok_def)
  then have c: "chn (length es) (occ es) (mpos es) (nxt es) C" by (simp add: chains_def)
  have m: "m < length es" "p \<in> set (C m)" using chn_occ [OF c p(1,2)] p(3) by auto
  obtain us ys where us: "C m = us @ p # ys" using m(2) by (auto simp: in_set_conv_decomp)
  have "us \<noteq> []" using chnD(3) [OF c m(1)] us p(4) by auto
  then obtain xs a where xs: "us = xs @ [a]" by (metis rev_exhaust)
  have Cm: "C m = xs @ a # p # ys" using us xs by simp
  have a: "a < length es" "occ es a" "mpos es a = m" using chnD(4-6) [OF c m(1), of a] Cm by auto
  have d: "p \<notin> set (xs @ [a])" using chnD(2) [OF c m(1)] Cm by auto
  have fp: "f \<noteq> p" "f \<noteq> a" "a \<noteq> p" using p f a d by auto
  have uf: "unat (of_nat f :: u32) = f" "f < 2147483648" using arr_len [OF ok f(1)] by auto
  have nf: "f \<notin> set (xs @ [a])" using chnD(5) [OF c m(1), of f] f Cm by auto
  have "seg (nxt (es[f := es ! p])) (xs @ [a]) p"
    using chnD(1) [OF c m(1)] Cm nf f by (simp add: view_upd)
  moreover have "hd (xs @ [a]) = m" using chnD(3) [OF c m(1)] Cm by (cases xs) auto
  ultimately have prev: "tbl_find_prev (es[f := es ! p]) p m = Some a"
    using tbl_find_prev_seg [of "es[f := es ! p]" xs a p] d by simp
  show ?thesis
  proof (rule that [OF prev fp(3) fp(2) [symmetric] a(1)])
    fix e :: "'v hent"
    assume e: "\<not> ent_is_empty e" "unat (ent_hash e) mod length es = p"
      "unat (ent_get_next e) = 2147483647"
    let ?es = "(upd_ent (es[f := es ! p]) a (\<lambda>x. ent_set_next x (of_nat f)))[p := e]"
    have views: "occ ?es = (occ es)(f := True)" "mpos ?es = (mpos es)(f := m, p := p)"
      "nxt ?es = (nxt es)(f := nxt es p, a := f, p := 2147483647)"
      using p a f e uf fp
      by (auto simp: upd_ent_def view_upd fun_eq_iff occ_def mpos_def nxt_def)
    have "chains ?es (C(m := xs @ a # f # ys, p := [p]))"
      using chn_evict [OF c p(1) m(1) p(4) Cm f] views by (simp add: chains_def upd_ent_def)
    moreover have "free_unlinked ?es"
      using ok p(2) a(2) by (auto simp: arr_ok_def free_unlinked_def views) (simp_all add: upd_ent_def)
    moreover have "stored ?es = add_mset (ent_set_next e 0) (stored es)"
      using stored_upd [of p "es[f := es ! p, a := ent_set_next (es ! a) (of_nat f)]" e]
        stored_upd [of a "es[f := es ! p]" "ent_set_next (es ! a) (of_nat f)"]
        stored_upd [OF f(1), of "es ! p"] p a f fp uf e
      by (simp add: upd_ent_def stored1_def occ_def)
    ultimately show "inserted es e f ?es"
      using ok views by (auto simp: inserted_def arr_ok_def upd_ent_def)
  qed
qed

end
