(* ===== verification/Zeq_HashTbl_Struct.thy ===== *)
theory Zeq_HashTbl_Struct
  imports Zeq_Chains
begin

text \<open>
  Structural correctness of the hash table operations: the well-formedness of a table, and what
  rehashing, setting and scanning do to the multiset of stored entries. Keys and values are not
  interpreted here; that is the next theory.
\<close>

definition tbl_ok :: "'v hashtbl \<Rightarrow> bool" where
  "tbl_ok t \<longleftrightarrow>
     (if tbl_data t = [] then tbl_capacity t = 0 \<and> tbl_freeIndex t = 0
      else arr_ok (tbl_data t) \<and> tbl_capacity t = of_nat (length (tbl_data t)) \<and>
           (tbl_freeIndex t = FREE_INDEX_INVALID \<or>
            unat (tbl_freeIndex t) < length (tbl_data t) \<and> \<not> occ (tbl_data t) (unat (tbl_freeIndex t))))"

text \<open>
  The free index is invalid only when every slot is taken. \<open>tbl_realloc\<close> assumes it: it
  rehashes every slot of the old array, free ones included.
\<close>

definition no_lost_slot :: "'v hashtbl \<Rightarrow> bool" where
  "no_lost_slot t \<longleftrightarrow>
     (tbl_freeIndex t = FREE_INDEX_INVALID \<longrightarrow> (\<forall>i < length (tbl_data t). occ (tbl_data t) i))"

text \<open>
  The free index is the least free slot. Every operation but the removal of an entry that is
  alone on its chain keeps it so.
\<close>

definition free_exact :: "'v hashtbl \<Rightarrow> bool" where
  "free_exact t \<longleftrightarrow>
     (\<forall>i < length (tbl_data t). \<not> occ (tbl_data t) i \<longrightarrow> unat (tbl_freeIndex t) \<le> i)"

definition may_grow :: "'v hashtbl \<Rightarrow> bool" where
  "may_grow t \<longleftrightarrow> length (tbl_data t) < 2 ^ 30"

lemma cap_mask:
  assumes "length es = 2 ^ k" and "k < 32"
  shows "unat ((w :: u32) AND (of_nat (length es) - 1)) = unat w mod length es"
  using assms by (simp add: of_nat_pow2_minus_1 unat_and_mask del: of_nat_power)

lemma arr_mask: "arr_ok es \<Longrightarrow> unat ((w :: u32) AND (of_nat (length es) - 1)) = unat w mod length es"
  unfolding arr_ok_def using cap_mask [of es] by fastforce

lemma arr_pos: "arr_ok es \<Longrightarrow> 0 < length es"
  by (auto simp: arr_ok_def)

section \<open>The search for a free slot\<close>

lemma tbl_next_free_Some:
  "tbl_next_free es i = Some j \<Longrightarrow> i \<le> j \<and> j < length es \<and> \<not> occ es j \<and> (\<forall>k. i \<le> k \<and> k < j \<longrightarrow> occ es k)"
proof (induction es i rule: tbl_next_free.induct)
  case (1 es i)
  show ?case
  proof (cases "i < length es \<and> occ es i")
    case True
    with 1 have "Suc i \<le> j \<and> j < length es \<and> \<not> occ es j \<and> (\<forall>k. Suc i \<le> k \<and> k < j \<longrightarrow> occ es k)"
      by (subst (asm) (2) tbl_next_free.simps) (simp add: occ_def)
    with True show ?thesis by (metis Suc_leD le_eq_less_or_eq Suc_leI)
  next
    case False
    with "1.prems" show ?thesis
      by (subst (asm) tbl_next_free.simps) (auto simp: occ_def split: if_splits)
  qed
qed

lemma tbl_next_free_None: "tbl_next_free es i = None \<Longrightarrow> i \<le> k \<Longrightarrow> k < length es \<Longrightarrow> occ es k"
proof (induction es i rule: tbl_next_free.induct)
  case (1 es i)
  then have i: "i < length es" by simp
  with "1.prems" have o: "occ es i" "tbl_next_free es (Suc i) = None"
    by (auto simp: tbl_next_free.simps [of es i] occ_def split: if_splits)
  with 1 i show ?case by (cases "i = k") (auto simp: occ_def)
qed

lemma size_stored_full:
  assumes "\<forall>i < length es. occ es i"
  shows "size (stored es) = length es"
proof -
  have "filter (\<lambda>e. \<not> ent_is_empty e) es = es"
    using assms by (simp add: filter_id_conv occ_def all_set_conv_all_nth)
  then show ?thesis by (simp add: stored_def)
qed

lemma tbl_next_free_exists:
  assumes "size (stored es) < length es" and "\<forall>j < i. j < length es \<longrightarrow> occ es j"
  obtains j where "tbl_next_free es i = Some j" "j < length es" "\<not> occ es j" "\<forall>k < j. occ es k"
proof (cases "tbl_next_free es i")
  case None
  have "occ es k" if "k < length es" for k
    using that assms(2) tbl_next_free_None [OF None] by (cases "k < i") auto
  then show ?thesis using size_stored_full [of es] assms(1) by simp
next
  case (Some j)
  from tbl_next_free_Some [OF Some] have j: "i \<le> j" "j < length es" "\<not> occ es j"
    and between: "\<And>k. i \<le> k \<Longrightarrow> k < j \<Longrightarrow> occ es k" by auto
  have "\<forall>k < j. occ es k" using between assms(2) j(2) by (metis leI order_less_trans)
  with j show ?thesis by (intro that [OF Some])
qed

text \<open>Advancing the free index keeps a table well formed after the free slot was used.\<close>

lemma advance_free_index_ok:
  assumes "arr_ok es" "tbl_data t = es" "tbl_capacity t = of_nat (length es)"
  shows "tbl_ok (tbl_advance_free_index t)"
  using assms arr_len [OF assms(1)] arr_pos [OF assms(1)]
  by (auto simp: tbl_ok_def tbl_advance_free_index_def dest!: tbl_next_free_Some split: option.splits)

lemma unat_neq_free_invalid: "i < 2147483647 \<Longrightarrow> of_nat i \<noteq> FREE_INDEX_INVALID"
proof
  assume i: "i < 2147483647" "of_nat i = FREE_INDEX_INVALID"
  have "unat (of_nat i :: u32) = i" using i(1) by (intro unat_of_nat_small) simp
  with i show False by simp
qed

lemma advance_free_exact:
  assumes "arr_ok es" "tbl_data t = es"
    and below: "\<And>i. i < length es \<Longrightarrow> \<not> occ es i \<Longrightarrow> unat (tbl_freeIndex t) < i"
  shows "free_exact (tbl_advance_free_index t)"
proof (cases "tbl_next_free es (Suc (unat (tbl_freeIndex t)))")
  case None
  then show ?thesis
    using below tbl_next_free_None [OF None] assms(2)
    by (auto simp: free_exact_def tbl_advance_free_index_def Suc_le_eq)
next
  case (Some j)
  from tbl_next_free_Some [OF Some] have j: "j < length es"
    and between: "\<And>k. unat (tbl_freeIndex t) < k \<Longrightarrow> k < j \<Longrightarrow> occ es k" by (auto simp: Suc_le_eq)
  have "j \<le> i" if "i < length es" "\<not> occ es i" for i
    using between [OF below [OF that]] that(2) by (rule_tac ccontr) simp
  with Some assms(2) arr_len(2) [OF assms(1) j(1)] show ?thesis
    by (simp add: free_exact_def tbl_advance_free_index_def)
qed

lemma free_exact_no_lost: "tbl_ok t \<Longrightarrow> free_exact t \<Longrightarrow> no_lost_slot t"
  using arr_len(1) by (fastforce simp: tbl_ok_def free_exact_def no_lost_slot_def split: if_splits)

section \<open>Rehashing\<close>

lemma flag_eq: "(w :: u32) AND 0x80000000 = (if bit w 31 then 0x80000000 else 0)"
proof (rule bit_word_eqI)
  fix n assume "n < LENGTH(32)"
  show "bit (w AND 0x80000000) n = bit (if bit w 31 then 0x80000000 else 0 :: u32) n"
    by (cases "bit w 31") (auto simp del: bit_numeral_word_iff simp add: bit_and_iff bit_flag)
qed

text \<open>What is stored of an entry is its key, its kind, its hash and its value.\<close>

lemma stored_entry_eqI:
  fixes e e' :: "'v hent"
  assumes "ent_key e = ent_key e'" "ent_hash e = ent_hash e'" "ent_data e = ent_data e'"
    "ent_is_int_key e = ent_is_int_key e'"
  shows "ent_set_next e 0 = ent_set_next e' 0"
  using assms by (simp add: ent_set_next_def ent_is_int_key_bit flag_eq)

lemma tbl_ent_copy_fields [simp]:
  "ent_key (tbl_ent_copy e old sz) = ent_key old" "ent_hash (tbl_ent_copy e old sz) = ent_hash old"
  "ent_is_int_key (tbl_ent_copy e old sz) = ent_is_int_key old"
  "ent_get_next (tbl_ent_copy e old sz) = ent_get_next e"
  "sz \<noteq> 0 \<Longrightarrow> ent_data (tbl_ent_copy e old sz) = ent_data old"
  by (simp_all add: tbl_ent_copy_def Let_def)

lemma tbl_ent_copy_empty [simp]: "ent_is_empty (tbl_ent_copy e old sz) = ent_is_empty old"
  by (simp add: ent_is_empty_def)

lemma tbl_ent_copy_stored [simp]:
  "sz \<noteq> 0 \<Longrightarrow> ent_set_next (tbl_ent_copy e old sz) 0 = ent_set_next old 0"
  by (rule stored_entry_eqI) simp_all

definition rehash_inv :: "'v hent list \<Rightarrow> nat \<Rightarrow> bool" where
  "rehash_inv es nfree \<longleftrightarrow> arr_ok es \<and> nfree < length es \<and> \<not> occ es nfree \<and> (\<forall>j < nfree. occ es j)"

lemma rehash_advance:
  assumes "arr_ok es'" "size (stored es') < length es'" "\<forall>j \<le> nfree. occ es' j"
  shows "rehash_inv es' (tbl_realloc_advance es' nfree)"
proof -
  have "\<forall>j < Suc nfree. j < length es' \<longrightarrow> occ es' j" using assms(3) by (simp add: less_Suc_eq_le)
  from tbl_next_free_exists [OF assms(2) this] obtain j where
    "tbl_next_free es' (Suc nfree) = Some j" "j < length es'" "\<not> occ es' j" "\<forall>k < j. occ es' k" .
  with assms(1) show ?thesis by (simp add: rehash_inv_def tbl_realloc_advance_def)
qed

lemma free_slot_unlinked: "arr_ok es \<Longrightarrow> i < length es \<Longrightarrow> \<not> occ es i \<Longrightarrow> unat (ent_get_next (es ! i)) = 2147483647"
  by (auto simp: arr_ok_def free_unlinked_def nxt_def)

lemma tbl_realloc_step_ok:
  assumes inv: "rehash_inv es nfree" and old: "\<not> ent_is_empty oldEnt" and sz: "elemSize \<noteq> 0"
    and room: "Suc (size (stored es)) < length es"
  obtains es' nfree' where
    "tbl_realloc_step (of_nat (length es) - 1) elemSize oldEnt es nfree = Some (es', nfree')"
    "rehash_inv es' nfree'" "length es' = length es"
    "stored es' = add_mset (ent_set_next oldEnt 0) (stored es)"
proof -
  note done_with = that
  have ok: "arr_ok es" and f: "nfree < length es" "\<not> occ es nfree" "\<forall>j < nfree. occ es j"
    using inv by (auto simp: rehash_inv_def)
  define p where "p = unat (ent_hash oldEnt) mod length es"
  have p: "p < length es" using arr_pos [OF ok] by (simp add: p_def)
  have main_of: "unat (ent_hash (es ! p) AND (of_nat (length es) - 1)) = mpos es p"
    using arr_mask [OF ok] by (simp add: mpos_def)
  have pos: "unat (ent_hash oldEnt AND (of_nat (length es) - 1)) = p"
    using arr_mask [OF ok] by (simp add: p_def)
  have fin: ?thesis if step: "tbl_realloc_step (of_nat (length es) - 1) elemSize oldEnt es nfree =
      Some (es', tbl_realloc_advance es' nfree)" and ins: "inserted es e nfree es'"
      and e: "ent_set_next e 0 = ent_set_next oldEnt 0" for e es'
  proof -
    have "\<forall>j \<le> nfree. occ es' j" using ins f by (auto simp: inserted_def order_le_less)
    then have "rehash_inv es' (tbl_realloc_advance es' nfree)"
      using ins room by (intro rehash_advance) (auto simp: inserted_def)
    with step ins e show ?thesis by (intro done_with [of es' "tbl_realloc_advance es' nfree"]) (auto simp: inserted_def)
  qed
  show ?thesis
  proof (cases "occ es p")
    case False
    let ?e = "tbl_ent_copy (es ! p) oldEnt elemSize"
    have ins: "inserted es ?e p (es[p := ?e])"
      using insert_main [OF ok p False, of ?e] old free_slot_unlinked [OF ok p False] by (simp add: p_def)
    show ?thesis
    proof (cases "p = nfree")
      case True
      with ins False pos sz show ?thesis
        by (intro fin [of "es[p := ?e]" ?e]) (auto simp: tbl_realloc_step_def Let_def occ_def)
    next
      case neq: False
      have "rehash_inv (es[p := ?e]) nfree"
        using ins f neq by (auto simp: inserted_def rehash_inv_def)
      with ins False pos neq sz show ?thesis
        by (intro done_with [of "es[p := ?e]" nfree]) (auto simp: tbl_realloc_step_def Let_def occ_def inserted_def)
    qed
  next
    case True
    show ?thesis
    proof (cases "mpos es p = p")
      case False
      obtain a where a: "tbl_find_prev (es[nfree := es ! p]) p (mpos es p) = Some a" "a \<noteq> p" "a < length es"
        and ins: "\<And>e. \<not> ent_is_empty e \<Longrightarrow> unat (ent_hash e) mod length es = p \<Longrightarrow>
           unat (ent_get_next e) = 2147483647 \<Longrightarrow>
           inserted es e nfree ((upd_ent (es[nfree := es ! p]) a (\<lambda>x. ent_set_next x (of_nat nfree)))[p := e])"
        using insert_evict [OF ok p True refl False f(1,2)] by blast
      let ?e = "ent_set_next (tbl_ent_copy (es ! p) oldEnt elemSize) FREE_INDEX_INVALID"
      have pn: "p \<noteq> nfree" using True f by auto
      let ?es = "(upd_ent (es[nfree := es ! p]) a (\<lambda>x. ent_set_next x (of_nat nfree)))[p := ?e]"
      have step: "tbl_realloc_step (of_nat (length es) - 1) elemSize oldEnt es nfree =
        Some (?es, tbl_realloc_advance ?es nfree)"
        using True False pos a pn p f main_of
        by (simp add: tbl_realloc_step_def Let_def occ_def upd_ent_def)
      have "inserted es ?e nfree ?es" using old by (intro ins) (simp_all add: p_def)
      then show ?thesis by (rule fin [OF step]) (use sz in simp)
    next
      case main: True
      obtain C where C: "chains es C" using ok by (auto simp: arr_ok_def)
      then have c: "chn (length es) (occ es) (mpos es) (nxt es) C" by (simp add: chains_def)
      have "p \<in> set (C p)" using chn_occ(2) [OF c p True] main by simp
      then obtain xs l where Cp: "C p = xs @ [l]" by (metis empty_iff empty_set rev_exhaust)
      have "2147483647 \<notin> set (C p)" using chnD(4) [OF c p] arr_len(1) [OF ok] by blast
      moreover have "hd (xs @ [l]) = p" using chnD(3) [OF c p] Cp by simp
      ultimately have lst: "tbl_find_last es p = Some l"
        using tbl_find_last_seg [of es xs l] chnD(1) [OF c p] Cp by simp
      have l: "l < length es" "l \<noteq> nfree" using chnD(4,5) [OF c p, of l] Cp f by auto
      let ?e = "tbl_ent_copy (es ! nfree) oldEnt elemSize"
      let ?es = "(upd_ent es l (\<lambda>x. ent_set_next x (of_nat nfree)))[nfree := ?e]"
      have step: "tbl_realloc_step (of_nat (length es) - 1) elemSize oldEnt es nfree =
        Some (?es, tbl_realloc_advance ?es nfree)"
        using True main pos lst l p f main_of
        by (simp add: tbl_realloc_step_def Let_def occ_def upd_ent_def)
      have "inserted es ?e nfree ?es"
        using old free_slot_unlinked [OF ok f(1,2)]
        by (intro insert_append [OF ok C p Cp f(1,2)]) (simp_all add: p_def)
      then show ?thesis by (rule fin [OF step]) (use sz in simp)
    qed
  qed
qed

lemma stored_Cons: "stored (e # es) = stored1 e + stored es"
  by (simp add: stored_def stored1_def)

lemma tbl_realloc_loop_ok:
  assumes "rehash_inv es nfree" "\<forall>e \<in> set olds. \<not> ent_is_empty e" "elemSize \<noteq> 0"
    and "size (stored es) + length olds < length es"
  obtains es' nfree' where
    "tbl_realloc_loop (of_nat (length es) - 1) elemSize olds es nfree = Some (es', nfree')"
    "rehash_inv es' nfree'" "length es' = length es" "stored es' = stored olds + stored es"
proof -
  have "\<exists>es' nfree'. tbl_realloc_loop (of_nat (length es) - 1) elemSize olds es nfree = Some (es', nfree')
      \<and> rehash_inv es' nfree' \<and> length es' = length es \<and> stored es' = stored olds + stored es"
    using assms
  proof (induction olds arbitrary: es nfree)
    case Nil
    then show ?case by (simp add: stored_def)
  next
    case (Cons old olds)
    from Cons.prems obtain es1 nf1 where 1:
      "tbl_realloc_step (of_nat (length es) - 1) elemSize old es nfree = Some (es1, nf1)"
      "rehash_inv es1 nf1" "length es1 = length es" "stored es1 = add_mset (ent_set_next old 0) (stored es)"
      using tbl_realloc_step_ok [of es nfree old elemSize] by auto
    have "size (stored es1) + length olds < length es1" using Cons.prems(4) 1 by simp
    with Cons.IH [OF 1(2)] Cons.prems obtain es' nf' where
      "tbl_realloc_loop (of_nat (length es1) - 1) elemSize olds es1 nf1 = Some (es', nf')"
      "rehash_inv es' nf'" "length es' = length es1" "stored es' = stored olds + stored es1" by auto
    with 1 Cons.prems(2) show ?case by (simp add: stored_Cons stored1_def)
  qed
  then show ?thesis using that by blast
qed

lemma ent_init_simps [simp]: "ent_is_empty ent_init" "unat (ent_get_next ent_init) = 2147483647"
  by (simp_all add: ent_is_empty_def ent_init_def ent_get_next_def NEXT_INVALID_def)

lemma rehash_inv_init:
  assumes "N = 2 ^ k" "2 \<le> k" "k \<le> 30"
  shows "rehash_inv (replicate N ent_init) 0" "stored (replicate N ent_init) = {#}"
    "arr_ok (replicate N ent_init)"
proof -
  have N: "0 < N" using assms by simp
  have "chains (replicate N ent_init) (\<lambda>_. [])"
    by (auto simp: chains_def chn_def chain_at_def occ_def)
  then show ok: "arr_ok (replicate N ent_init)"
    using assms by (auto simp: arr_ok_def free_unlinked_def nxt_def)
  show "stored (replicate N ent_init) = {#}" by (simp add: stored_def)
  show "rehash_inv (replicate N ent_init) 0" using ok N by (simp add: rehash_inv_def occ_def)
qed

lemma tbl_realloc_ok:
  fixes t :: "'a hashtbl"
  assumes ok: "tbl_ok t" "no_lost_slot t" "tbl_freeIndex t = FREE_INDEX_INVALID" "may_grow t"
    and sz: "tbl_elemSize t \<noteq> 0" and mem: "alloc (tbl_entSize t * (tbl_capacity t * 2))"
  obtains t' where "tbl_realloc alloc t = Some (Some t')" "tbl_ok t'" "free_exact t'"
    "tbl_freeIndex t' \<noteq> FREE_INDEX_INVALID" "tbl_data t' \<noteq> []"
    "stored (tbl_data t') = stored (tbl_data t)" "length (tbl_data t') = 2 * length (tbl_data t)"
    "tbl_elemSize t' = tbl_elemSize t" "tbl_entSize t' = tbl_entSize t"
proof -
  have nn: "tbl_data t \<noteq> []" using ok(1,3) by (auto simp: tbl_ok_def FREE_INDEX_INVALID_def)
  then have arr: "arr_ok (tbl_data t)" and cap: "tbl_capacity t = of_nat (length (tbl_data t))"
    using ok(1) by (auto simp: tbl_ok_def)
  obtain k where k: "2 \<le> k" "k \<le> 30" "length (tbl_data t) = 2 ^ k" using arr by (auto simp: arr_ok_def)
  have "(2 :: nat) ^ k < 2 ^ 30" using ok(4) k by (simp add: may_grow_def)
  then have k30: "k < 30" by (rule power_less_imp_less_exp [rotated]) simp
  define N where "N = (2 :: nat) ^ Suc k"
  have newCap: "tbl_capacity t * 2 = of_nat N" using cap k by (simp add: N_def)
  have uN: "unat (of_nat N :: u32) = N"
  proof (rule unat_of_nat_small)
    have "N \<le> 2 ^ 30" unfolding N_def using k30 by (intro power_increasing) auto
    then show "N < 2 ^ LENGTH(32)" by simp
  qed
  have full: "\<forall>e \<in> set (tbl_data t). \<not> ent_is_empty e"
    using ok(2,3) by (auto simp: no_lost_slot_def occ_def all_set_conv_all_nth)
  have init: "rehash_inv (replicate N (ent_init :: 'a hent)) 0" "stored (replicate N (ent_init :: 'a hent)) = {#}"
    using rehash_inv_init [of N "Suc k"] k k30 by (auto simp: N_def)
  have "size (stored (replicate N (ent_init :: 'a hent))) + length (tbl_data t) < length (replicate N (ent_init :: 'a hent))"
    using init(2) k by (simp add: N_def)
  from tbl_realloc_loop_ok [OF init(1) full sz this] obtain es nf where r:
    "tbl_realloc_loop (of_nat N - 1) (tbl_elemSize t) (tbl_data t) (replicate N ent_init) 0 = Some (es, nf)"
    "rehash_inv es nf" "length es = N" "stored es = stored (tbl_data t)"
    using init(2) by auto
  have arr': "arr_ok es" "nf < length es" "\<not> occ es nf" "\<forall>j < nf. occ es j"
    using r(2) by (auto simp: rehash_inv_def)
  have unf: "unat (of_nat nf :: u32) = nf" "of_nat nf \<noteq> FREE_INDEX_INVALID"
    using arr_len [OF arr'(1,2)] unat_neq_free_invalid by auto
  let ?t = "t\<lparr>tbl_capacity := of_nat N, tbl_freeIndex := of_nat nf, tbl_data := es\<rparr>"
  show ?thesis
  proof (rule that [of ?t])
    show "tbl_realloc alloc t = Some (Some ?t)"
      using mem r(1) by (simp add: tbl_realloc_def Let_def newCap uN)
    show "free_exact ?t"
    proof -
      have "nf \<le> i" if "i < length es" "\<not> occ es i" for i using arr'(4) that(2) by (rule_tac ccontr) simp
      then show ?thesis using unf by (simp add: free_exact_def)
    qed
    show "tbl_ok ?t" "tbl_data ?t \<noteq> []"
      using arr' r(3) unf arr_pos [OF arr'(1)] by (auto simp: tbl_ok_def)
  qed (use unf r(3,4) k in \<open>simp_all add: N_def\<close>)
qed

section \<open>Setting\<close>

lemma tbl_next_free_cong:
  "length es' = length es \<Longrightarrow> (\<And>j. i \<le> j \<Longrightarrow> j < length es \<Longrightarrow> occ es j = occ es' j) \<Longrightarrow>
   tbl_next_free es i = tbl_next_free es' i"
proof (induction es i rule: tbl_next_free.induct)
  case (1 es i)
  show ?case
  proof (cases "i < length es \<and> occ es i")
    case True
    then have "tbl_next_free es (Suc i) = tbl_next_free es' (Suc i)" using 1 by (intro "1.IH") (auto simp: occ_def)
    moreover have "occ es' i" using True 1(3) [of i] by simp
    ultimately show ?thesis using True 1(2)
      by (simp add: tbl_next_free.simps [of es i] tbl_next_free.simps [of es' i] occ_def)
  next
    case False
    with 1(2,3) show ?thesis
      by (auto simp: tbl_next_free.simps [of es i] tbl_next_free.simps [of es' i] occ_def)
  qed
qed

lemma advance_data:
  assumes "length es' = length (tbl_data t)"
    and "\<And>j. unat (tbl_freeIndex t) < j \<Longrightarrow> j < length es' \<Longrightarrow> occ (tbl_data t) j = occ es' j"
  shows "(tbl_advance_free_index t)\<lparr>tbl_data := es'\<rparr> = tbl_advance_free_index (t\<lparr>tbl_data := es'\<rparr>)"
  using tbl_next_free_cong [of es' "tbl_data t" "Suc (unat (tbl_freeIndex t))"] assms
  by (simp add: tbl_advance_free_index_def Suc_le_eq)

lemma advance_fields [simp]:
  "tbl_data (tbl_advance_free_index t) = tbl_data t" "tbl_capacity (tbl_advance_free_index t) = tbl_capacity t"
  "tbl_elemSize (tbl_advance_free_index t) = tbl_elemSize t"
  "tbl_entSize (tbl_advance_free_index t) = tbl_entSize t"
  by (simp_all add: tbl_advance_free_index_def)

lemma finish_insert:
  assumes ok: "tbl_ok t" "tbl_data t \<noteq> []" and ins: "inserted (tbl_data t) e (unat (tbl_freeIndex t)) es'"
    and upd: "\<And>j. unat (tbl_freeIndex t) < j \<Longrightarrow> j < length es' \<Longrightarrow> occ es0 j = occ es' j"
      "length es0 = length es'"
  shows "tbl_ok ((tbl_advance_free_index (t\<lparr>tbl_data := es0\<rparr>))\<lparr>tbl_data := es'\<rparr>)"
    "free_exact t \<Longrightarrow> free_exact ((tbl_advance_free_index (t\<lparr>tbl_data := es0\<rparr>))\<lparr>tbl_data := es'\<rparr>)"
proof -
  have eq: "(tbl_advance_free_index (t\<lparr>tbl_data := es0\<rparr>))\<lparr>tbl_data := es'\<rparr> =
      tbl_advance_free_index (t\<lparr>tbl_data := es'\<rparr>)"
    using advance_data [of es' "t\<lparr>tbl_data := es0\<rparr>"] upd by simp
  have arr: "arr_ok es'" and len: "length es' = length (tbl_data t)"
    and oc: "occ es' = (occ (tbl_data t))(unat (tbl_freeIndex t) := True)"
    using ins by (auto simp: inserted_def)
  show "tbl_ok ((tbl_advance_free_index (t\<lparr>tbl_data := es0\<rparr>))\<lparr>tbl_data := es'\<rparr>)"
    unfolding eq using ok len by (intro advance_free_index_ok [OF arr]) (auto simp: tbl_ok_def)
  show "free_exact ((tbl_advance_free_index (t\<lparr>tbl_data := es0\<rparr>))\<lparr>tbl_data := es'\<rparr>)" if "free_exact t"
    unfolding eq
  proof (rule advance_free_exact [OF arr])
    fix i assume "i < length es'" "\<not> occ es' i"
    with that oc len have "unat (tbl_freeIndex t) \<le> i" "i \<noteq> unat (tbl_freeIndex t)"
      by (auto simp: free_exact_def split: if_splits)
    then show "unat (tbl_freeIndex (t\<lparr>tbl_data := es'\<rparr>)) < i" by simp
  qed simp
qed

text \<open>The entry \<open>tbl_ent_insert\<close> writes, and the matching of keys, ignore links.\<close>

lemma tbl_ent_insert_fields:
  assumes "tbl_ent_insert h ent key isInt value hash sz = (h', e)"
  shows "ent_key e = key" "ent_hash e = hash" "ent_is_int_key e = isInt" "ent_get_next e = ent_get_next ent"
    "value \<noteq> None \<Longrightarrow> sz \<noteq> 0 \<Longrightarrow> ent_data e = value" "h' = (if isInt then h else sbuf_grab h key)"
  using assms by (auto simp: tbl_ent_insert_def Let_def split: if_splits)

lemma set_key_matches_link [simp]:
  "unat nx < 2 ^ 31 \<Longrightarrow> set_key_matches h key isInt hash (ent_set_next e nx) = set_key_matches h key isInt hash e"
  by (simp add: set_key_matches_def)

lemma in_stored: "x \<in># stored es \<longleftrightarrow> (\<exists>i < length es. occ es i \<and> x = ent_set_next (es ! i) 0)"
  by (auto simp: stored_def occ_def in_set_conv_nth)

text \<open>An entry with the hash looked for can only be on the chain of that hash.\<close>

lemma match_on_chain:
  assumes c: "chn (length es) (occ es) (mpos es) (nxt es) C"
    and i: "i < length es" "occ es i" "ent_hash (es ! i) = hash"
  shows "i \<in> set (C (unat hash mod length es))"
  using chn_occ(2) [OF c i(1,2)] i(3) by (simp add: mpos_def)

text \<open>What a successful insertion does, seen from the stored entries.\<close>

definition set_inserted ::
    "sheap \<Rightarrow> 'v hashtbl \<Rightarrow> u64 \<Rightarrow> bool \<Rightarrow> 'v option \<Rightarrow> u32 \<Rightarrow> sheap \<times> 'v hashtbl \<Rightarrow> bool" where
  "set_inserted h t key isInt value hash r \<longleftrightarrow>
     (\<forall>x \<in># stored (tbl_data t). \<not> set_key_matches h key isInt hash x)
     \<and> fst r = (if isInt then h else sbuf_grab h key)
     \<and> tbl_ok (snd r) \<and> (free_exact t \<longrightarrow> free_exact (snd r))
     \<and> tbl_elemSize (snd r) = tbl_elemSize t
     \<and> (\<exists>e. ent_key e = key \<and> ent_hash e = hash \<and> ent_is_int_key e = isInt
            \<and> (value \<noteq> None \<longrightarrow> ent_data e = value)
            \<and> stored (tbl_data (snd r)) = add_mset (ent_set_next e 0) (stored (tbl_data t)))"

text \<open>What a match does: the table may have grown before the match was seen.\<close>

definition set_matched ::
    "sheap \<Rightarrow> 'v hashtbl \<Rightarrow> u64 \<Rightarrow> bool \<Rightarrow> 'v option \<Rightarrow> u32 \<Rightarrow> bool \<Rightarrow> zerr \<times> sheap \<times> 'v hashtbl \<Rightarrow> bool" where
  "set_matched h t key isInt value hash upd r \<longleftrightarrow>
     (\<exists>t1 i. tbl_ok t1 \<and> (free_exact t \<longrightarrow> free_exact t1) \<and> tbl_elemSize t1 = tbl_elemSize t
        \<and> stored (tbl_data t1) = stored (tbl_data t) \<and> i < length (tbl_data t1) \<and> occ (tbl_data t1) i
        \<and> set_key_matches h key isInt hash (tbl_data t1 ! i)
        \<and> r = tbl_set_found h t1 i key isInt value upd)"

lemma tbl_set_impl_free_slot:
  assumes "tbl_data t \<noteq> []" and "unat (hash AND (tbl_capacity t - 1)) = p"
  shows "ent_is_empty (tbl_data t ! p) \<Longrightarrow> tbl_set_impl alloc h t key isInt value hash upd =
    (let t1 = (if p = unat (tbl_freeIndex t) then tbl_advance_free_index t else t);
         (h', e) = tbl_ent_insert h (tbl_data t ! p) key isInt value hash (tbl_elemSize t1)
     in Some (ERR_None, h', t1\<lparr>tbl_data := (tbl_data t1)[p := e]\<rparr>))"
  using assms by (subst tbl_set_impl.simps) (simp add: Let_def)

text \<open>The set operation on a table that need not grow.\<close>

lemma tbl_set_place:
  fixes t :: "'v hashtbl"
  assumes ok: "tbl_ok t" "tbl_data t \<noteq> []" and sz: "tbl_elemSize t \<noteq> 0"
    and key: "key \<noteq> 0 \<or> hash \<noteq> 0"
    and room: "tbl_freeIndex t \<noteq> FREE_INDEX_INVALID \<or>
      \<not> occ (tbl_data t) (unat hash mod length (tbl_data t))"
  shows "(\<exists>h' t'. tbl_set_impl alloc h t key isInt value hash upd = Some (ERR_None, h', t')
            \<and> set_inserted h t key isInt value hash (h', t'))
       \<or> (\<exists>r. tbl_set_impl alloc h t key isInt value hash upd = Some r
            \<and> set_matched h t key isInt value hash upd r)"
proof -
  let ?es = "tbl_data t"
  let ?f = "unat (tbl_freeIndex t)"
  have arr: "arr_ok ?es" and cap: "tbl_capacity t = of_nat (length ?es)" using ok by (auto simp: tbl_ok_def)
  obtain C where C: "chains ?es C" using arr by (auto simp: arr_ok_def)
  then have c: "chn (length ?es) (occ ?es) (mpos ?es) (nxt ?es) C" by (simp add: chains_def)
  define p where "p = unat hash mod length ?es"
  have p: "p < length ?es" using arr_pos [OF arr] by (simp add: p_def)
  have pos: "unat (hash AND (tbl_capacity t - 1)) = p" using arr_mask [OF arr] cap by (simp add: p_def)
  have mainp: "unat (ent_hash (?es ! p) AND (tbl_capacity t - 1)) = mpos ?es p"
    using arr_mask [OF arr] cap by (simp add: mpos_def)
  have nomatch: "\<forall>x \<in># stored ?es. \<not> set_key_matches h key isInt hash x"
    if none: "\<And>i. i \<in> set (C p) \<Longrightarrow> \<not> set_key_matches h key isInt hash (?es ! i)"
  proof
    fix x assume "x \<in># stored ?es"
    then obtain i where i: "i < length ?es" "occ ?es i" "x = ent_set_next (?es ! i) 0"
      by (auto simp: in_stored)
    show "\<not> set_key_matches h key isInt hash x"
    proof
      assume "set_key_matches h key isInt hash x"
      then have m: "set_key_matches h key isInt hash (?es ! i)" using i(3) by simp
      then have "ent_hash (?es ! i) = hash" by (simp add: set_key_matches_def)
      then have "i \<in> set (C p)" using match_on_chain [OF c i(1,2)] by (simp add: p_def)
      with none m show False by blast
    qed
  qed
  have link: "of_nat ?f = tbl_freeIndex t" by simp
  show ?thesis
  proof (cases "occ ?es p")
    case False
    then have Cp: "C p = []" using chnD(3,5) [OF c p] by (metis hd_in_set)
    obtain h' e where ins: "tbl_ent_insert h (?es ! p) key isInt value hash (tbl_elemSize t) = (h', e)"
      by fastforce
    note e = tbl_ent_insert_fields [OF ins]
    have ne: "\<not> ent_is_empty e" using key e by (simp add: ent_is_empty_def)
    have i: "inserted ?es e p (?es[p := e])"
      using insert_main [OF arr p False ne] e free_slot_unlinked [OF arr p False] by (simp add: p_def)
    let ?t1 = "if p = ?f then tbl_advance_free_index t else t"
    let ?t' = "?t1\<lparr>tbl_data := ?es[p := e]\<rparr>"
    have t1: "tbl_data ?t1 = ?es" "tbl_elemSize ?t1 = tbl_elemSize t" by simp_all
    have res: "tbl_set_impl alloc h t key isInt value hash upd = Some (ERR_None, h', ?t')"
      using tbl_set_impl_free_slot [OF ok(2) pos, of alloc h key isInt "value" upd] False
      by (simp only: occ_def not_not t1 ins prod.case Let_def)
    have "tbl_ok ?t' \<and> (free_exact t \<longrightarrow> free_exact ?t')"
    proof (cases "p = ?f")
      case True
      have o: "occ ?es j = occ (?es[p := e]) j" if "?f < j" for j using that True p by (simp add: view_upd)
      have i': "inserted ?es e ?f (?es[p := e])" using i True by (simp only:)
      have eq: "?t' = (tbl_advance_free_index (t\<lparr>tbl_data := ?es\<rparr>))\<lparr>tbl_data := ?es[p := e]\<rparr>"
        using True by (simp only: if_True simp_thms) simp
      have len: "length ?es = length (?es[p := e])" by simp
      show ?thesis unfolding eq
        using finish_insert(1) [OF ok i' o len] finish_insert(2) [OF ok i' o len] by blast
    next
      case neq: False
      have "tbl_ok ?t'" using ok i neq by (auto simp: tbl_ok_def inserted_def)
      moreover have "free_exact t \<longrightarrow> free_exact ?t'"
        using i neq by (auto simp: free_exact_def inserted_def)
      ultimately show ?thesis by blast
    qed
    then have "set_inserted h t key isInt value hash (h', ?t')"
      using nomatch Cp e sz i by (auto simp: set_inserted_def inserted_def intro!: exI [of _ e])
    with res show ?thesis by blast
  next
    case True
    then have fi: "tbl_freeIndex t \<noteq> FREE_INDEX_INVALID" "?f < length ?es" "\<not> occ ?es ?f"
      using room ok by (auto simp: tbl_ok_def p_def)
    show ?thesis
    proof (cases "mpos ?es p = p")
      case False
      then have Cp: "C p = []" using chnD(3,6) [OF c p] by (metis hd_in_set)
      obtain a where a: "tbl_find_prev (?es[?f := ?es ! p]) p (mpos ?es p) = Some a" "a \<noteq> p" "a \<noteq> ?f" "a < length ?es"
        and insd: "\<And>e. \<not> ent_is_empty e \<Longrightarrow> unat (ent_hash e) mod length ?es = p \<Longrightarrow>
           unat (ent_get_next e) = 2147483647 \<Longrightarrow>
           inserted ?es e ?f ((upd_ent (?es[?f := ?es ! p]) a (\<lambda>x. ent_set_next x (of_nat ?f)))[p := e])"
        using insert_evict [OF arr p True refl False fi(2,3)] by blast
      let ?es1 = "upd_ent (?es[?f := ?es ! p]) a (\<lambda>x. ent_set_next x (tbl_freeIndex t))"
      have es1p: "?es1 ! p = ?es ! p" using a p fi True by (cases "p = ?f") (auto simp: upd_ent_def)
      obtain h' e where ins: "tbl_ent_insert h (?es ! p) key isInt value hash (tbl_elemSize t) = (h', e)"
        by fastforce
      note e = tbl_ent_insert_fields [OF ins]
      let ?e = "ent_set_next e FREE_INDEX_INVALID"
      have ne: "\<not> ent_is_empty ?e" using key e by (simp add: ent_is_empty_def)
      have i: "inserted ?es ?e ?f (?es1[p := ?e])"
        using insd [of ?e] ne e by (simp add: p_def)
      let ?t' = "(tbl_advance_free_index (t\<lparr>tbl_data := ?es1\<rparr>))\<lparr>tbl_data := ?es1[p := ?e]\<rparr>"
      have res: "tbl_set_impl alloc h t key isInt value hash upd = Some (ERR_None, h', ?t')"
        using ok(2) True False ins pos mainp fi a(1) es1p
        by (subst tbl_set_impl.simps) (simp add: Let_def occ_def tbl_set_evict_def)
      have len1: "length ?es1 = length ?es" by (simp add: upd_ent_def)
      have "occ ?es1 p" using es1p True by (simp add: occ_def)
      then have o: "occ ?es1 j = occ (?es1[p := ?e]) j" for j
        using p len1 ne by (simp add: view_upd)
      have "set_inserted h t key isInt value hash (h', ?t')"
        using nomatch Cp e sz i finish_insert [OF ok i, of ?es1] o len1
        by (auto simp: set_inserted_def inserted_def intro!: exI [of _ e])
      with res show ?thesis by blast
    next
      case main: True
      have "p \<in> set (C p)" using chn_occ(2) [OF c p True] main by simp
      then have Cne: "C p \<noteq> []" by auto
      then have hd: "hd (C p) = p" using chnD(3) [OF c p] by blast
      have ninv: "2147483647 \<notin> set (C p)" using chnD(4) [OF c p] arr_len(1) [OF arr] by blast
      let ?m = "set_key_matches h key isInt hash"
      have scan: "tbl_chain_scan ?m ?es p =
          Some (case find (\<lambda>i. ?m (?es ! i)) (C p) of Some i \<Rightarrow> ChainFound i | None \<Rightarrow> ChainEnd (last (C p)))"
        using tbl_chain_scan_seg [OF chnD(1) [OF c p] ninv Cne, of ?m] hd by simp
      show ?thesis
      proof (cases "find (\<lambda>i. ?m (?es ! i)) (C p)")
        case (Some i)
        then have i: "i \<in> set (C p)" "?m (?es ! i)" by (auto simp: find_Some_iff)
        have "tbl_set_impl alloc h t key isInt value hash upd =
            Some (tbl_set_found h t i key isInt value upd)"
          using ok(2) True main pos mainp fi scan Some
          by (subst tbl_set_impl.simps) (simp add: Let_def occ_def)
        moreover have "set_matched h t key isInt value hash upd (tbl_set_found h t i key isInt value upd)"
          unfolding set_matched_def using ok(1) i chnD(4,5) [OF c p i(1)] by blast
        ultimately show ?thesis by blast
      next
        case None
        then have nm: "\<And>i. i \<in> set (C p) \<Longrightarrow> \<not> ?m (?es ! i)" by (simp add: find_None_iff)
        obtain xs l where Cp: "C p = xs @ [l]" using Cne by (metis rev_exhaust)
        have l: "l < length ?es" "l \<noteq> ?f" "occ ?es l" using chnD(4,5) [OF c p, of l] Cp fi by auto
        let ?es1 = "upd_ent ?es l (\<lambda>x. ent_set_next x (tbl_freeIndex t))"
        have es1f: "?es1 ! ?f = ?es ! ?f" using l by (simp add: upd_ent_def)
        obtain h' e where ins: "tbl_ent_insert h (?es ! ?f) key isInt value hash (tbl_elemSize t) = (h', e)"
          by fastforce
        note e = tbl_ent_insert_fields [OF ins]
        have ne: "\<not> ent_is_empty e" using key e by (simp add: ent_is_empty_def)
        have i: "inserted ?es e ?f (?es1[?f := e])"
          using insert_append [OF arr C p Cp fi(2,3) ne] e free_slot_unlinked [OF arr fi(2,3)] link
          by (simp add: p_def)
        let ?t' = "(tbl_advance_free_index (t\<lparr>tbl_data := ?es1\<rparr>))\<lparr>tbl_data := ?es1[?f := e]\<rparr>"
        have res: "tbl_set_impl alloc h t key isInt value hash upd = Some (ERR_None, h', ?t')"
          using ok(2) True main pos mainp fi scan None Cp ins es1f
          by (subst tbl_set_impl.simps) (simp add: Let_def occ_def tbl_set_append_def)
        have len1: "length ?es1 = length ?es" by (simp add: upd_ent_def)
        have o: "occ ?es1 j = occ (?es1[?f := e]) j" if "?f < j" for j
          using fi(2) len1 that by (simp add: view_upd)
        have "set_inserted h t key isInt value hash (h', ?t')"
          using nomatch nm e sz i finish_insert [OF ok i, of ?es1] o len1
          by (auto simp: set_inserted_def inserted_def intro!: exI [of _ e])
        with res show ?thesis by blast
      qed
    qed
  qed
qed

text \<open>A fresh table allocates its four slots first.\<close>

lemma tbl_alloc_default_ok:
  assumes "tbl_ok t" "tbl_data t = []" "tbl_alloc_default alloc t = Some t'"
  shows "tbl_ok t'" "free_exact t'" "tbl_data t' \<noteq> []" "stored (tbl_data t') = {#}"
    "tbl_elemSize t' = tbl_elemSize t" "tbl_freeIndex t' \<noteq> FREE_INDEX_INVALID"
    "length (tbl_data t') = 4"
proof -
  have t': "t' = t\<lparr>tbl_capacity := 4, tbl_data := replicate 4 ent_init\<rparr>"
    using assms(3) by (auto simp: tbl_alloc_default_def MIN_CAPACITY_def split: if_splits)
  have f: "tbl_freeIndex t = 0" using assms(1,2) by (simp add: tbl_ok_def)
  have "arr_ok (replicate 4 (ent_init :: 'a hent))" "stored (replicate 4 (ent_init :: 'a hent)) = {#}"
    using rehash_inv_init [of 4 2] by simp_all
  with t' f show "tbl_ok t'" "free_exact t'" "tbl_data t' \<noteq> []" "stored (tbl_data t') = {#}"
    "tbl_elemSize t' = tbl_elemSize t" "tbl_freeIndex t' \<noteq> FREE_INDEX_INVALID" "length (tbl_data t') = 4"
    by (auto simp: tbl_ok_def free_exact_def occ_def FREE_INDEX_INVALID_def)
qed

lemma set_inserted_mono:
  assumes "set_inserted h t1 key isInt value hash r" "stored (tbl_data t1) = stored (tbl_data t)"
    "tbl_elemSize t1 = tbl_elemSize t" "free_exact t1"
  shows "set_inserted h t key isInt value hash r"
  using assms unfolding set_inserted_def by simp

lemma set_matched_mono:
  assumes "set_matched h t1 key isInt value hash upd r" "stored (tbl_data t1) = stored (tbl_data t)"
    "tbl_elemSize t1 = tbl_elemSize t" "free_exact t1"
  shows "set_matched h t key isInt value hash upd r"
  using assms unfolding set_matched_def by metis

text \<open>
  \<open>tbl_set_impl\<close> always returns: it stores a new entry, or acts on the entry that matches, or
  reports that an allocation it needed was refused and leaves the table as it was.
\<close>

lemma tbl_set_impl_ok:
  fixes t :: "'v hashtbl"
  assumes ok: "tbl_ok t" "no_lost_slot t" "may_grow t" and sz: "tbl_elemSize t \<noteq> 0"
    and key: "key \<noteq> 0 \<or> hash \<noteq> 0"
  obtains (inserted) h' t' where
      "tbl_set_impl alloc h t key isInt value hash upd = Some (ERR_None, h', t')"
      "set_inserted h t key isInt value hash (h', t')"
  | (matched) r where "tbl_set_impl alloc h t key isInt value hash upd = Some r"
      "set_matched h t key isInt value hash upd r"
  | (oom) "tbl_set_impl alloc h t key isInt value hash upd = Some (ERR_OutOfMemory, h, t)"
      "\<exists>n. \<not> alloc n"
proof -
  consider (empty) "tbl_data t = []"
    | (place) "tbl_data t \<noteq> []" "tbl_freeIndex t \<noteq> FREE_INDEX_INVALID \<or>
        \<not> occ (tbl_data t) (unat hash mod length (tbl_data t))"
    | (grow) "tbl_data t \<noteq> []" "tbl_freeIndex t = FREE_INDEX_INVALID"
        "occ (tbl_data t) (unat hash mod length (tbl_data t))" by blast
  then show thesis
  proof cases
    case place
    from tbl_set_place [OF ok(1) place(1) sz key place(2)] show ?thesis
      by (metis inserted matched)
  next
    case empty
    show ?thesis
    proof (cases "tbl_alloc_default alloc t")
      case None
      then have "\<exists>n. \<not> alloc n" by (auto simp: tbl_alloc_default_def split: if_splits)
      moreover have "tbl_set_impl alloc h t key isInt value hash upd = Some (ERR_OutOfMemory, h, t)"
        using empty None by (subst tbl_set_impl.simps) simp
      ultimately show ?thesis by (rule oom [rotated])
    next
      case (Some t1)
      note a = tbl_alloc_default_ok [OF ok(1) empty Some]
      have eq: "tbl_set_impl alloc h t key isInt value hash upd = tbl_set_impl alloc h t1 key isInt value hash upd"
        using empty Some a(3) by (subst (1 2) tbl_set_impl.simps) simp
      have st: "stored (tbl_data t1) = stored (tbl_data t)" using a(4) empty by (simp add: stored_def)
      have sz1: "tbl_elemSize t1 \<noteq> 0" using a(5) sz by simp
      from tbl_set_place [OF a(1,3) sz1 key, of alloc h isInt "value" upd] a(6)
      show ?thesis unfolding eq
        by (metis inserted matched eq set_inserted_mono set_matched_mono st a(2,5))
    qed
  next
    case grow
    have arr: "arr_ok (tbl_data t)" and cap: "tbl_capacity t = of_nat (length (tbl_data t))"
      using ok(1) grow(1) by (auto simp: tbl_ok_def)
    have pos: "unat (hash AND (tbl_capacity t - 1)) = unat hash mod length (tbl_data t)"
      using arr_mask [OF arr] cap by simp
    show ?thesis
    proof (cases "alloc (tbl_entSize t * (tbl_capacity t * 2))")
      case False
      then have "tbl_realloc alloc t = Some None" by (simp add: tbl_realloc_def Let_def)
      then have "tbl_set_impl alloc h t key isInt value hash upd = Some (ERR_OutOfMemory, h, t)"
        using grow pos by (subst tbl_set_impl.simps) (simp add: Let_def occ_def)
      then show ?thesis using False by (intro oom) blast+
    next
      case True
      obtain t1 where r: "tbl_realloc alloc t = Some (Some t1)" "tbl_ok t1" "free_exact t1"
        "tbl_freeIndex t1 \<noteq> FREE_INDEX_INVALID" "tbl_data t1 \<noteq> []"
        "stored (tbl_data t1) = stored (tbl_data t)" "tbl_elemSize t1 = tbl_elemSize t"
        using tbl_realloc_ok [of t alloc] ok grow(2) sz True by metis
      have eq: "tbl_set_impl alloc h t key isInt value hash upd = tbl_set_impl alloc h t1 key isInt value hash upd"
        using grow pos r(1) by (subst tbl_set_impl.simps) (simp add: Let_def occ_def)
      have sz1: "tbl_elemSize t1 \<noteq> 0" using r(7) sz by simp
      from tbl_set_place [OF r(2,5) sz1 key, of alloc h isInt "value" upd] r(4)
      show ?thesis
        by (metis inserted matched eq set_inserted_mono set_matched_mono r(3,6,7))
    qed
  qed
qed

end
