(* ===== verification/Zeq_HashTbl_Remove.thy ===== *)
theory Zeq_HashTbl_Remove
  imports Zeq_HashTbl_Struct
begin

text \<open>
  Structural correctness of removal and of the update in place, and the lookup of an entry. The
  removal loop is followed along a chain: it stops at the first entry whose hash and key kind
  agree, and there it either removes the entry or, when the key differs, repeats the same
  iteration for ever.
\<close>

section \<open>The removal loop\<close>

definition same_hash :: "lookup_key \<Rightarrow> u32 \<Rightarrow> 'v hent \<Rightarrow> bool" where
  "same_hash key hash e \<longleftrightarrow> ent_hash e = hash \<and> ent_is_int_key e = key_is_int key"

lemma key_matches_same_hash: "key_matches h key hash e \<longleftrightarrow> same_hash key hash e \<and> key_eq h key e"
  by (auto simp: key_matches_def same_hash_def)

lemma remove_loop_next:
  assumes "\<not> same_hash key hash (tbl_data t ! i)"
  shows "tbl_remove_loop h t key hash prev i =
    (if ent_has_next (tbl_data t ! i)
     then tbl_remove_loop h t key hash (Some i) (nxt (tbl_data t) i)
     else Some (ERR_NotFound, h, t))"
  using assms by (subst tbl_remove_loop.simps) (auto simp: same_hash_def nxt_def Let_def)

lemma remove_loop_hit:
  assumes "same_hash key hash (tbl_data t ! i)" "key_eq h key (tbl_data t ! i)"
  shows "tbl_remove_loop h t key hash prev i = Some (tbl_remove_found h t (key_is_int key) prev i)"
  using assms by (subst tbl_remove_loop.simps) (auto simp: same_hash_def Let_def)

text \<open>The \<open>continue\<close>: the iteration repeats itself, so the loop has no result.\<close>

lemma remove_loop_stuck:
  assumes "same_hash key hash (tbl_data t ! i)" "\<not> key_eq h key (tbl_data t ! i)"
  shows "tbl_remove_loop h t key hash prev i = None"
proof (rule ccontr)
  assume "tbl_remove_loop h t key hash prev i \<noteq> None"
  then obtain r where r: "tbl_remove_loop h t key hash prev i = Some r" by blast
  have "\<not> (same_hash key hash (tbl_data t ! i) \<and> \<not> key_eq h key (tbl_data t ! i))"
  proof (rule tbl_remove_loop.raw_induct
      [where P = "\<lambda>h t key hash prev i r. \<not> (same_hash key hash (tbl_data t ! i) \<and> \<not> key_eq h key (tbl_data t ! i))",
        OF _ r])
    fix f h and t :: "'a hashtbl" and key hash prev i r
    assume IH: "\<And>h (t :: 'a hashtbl) key hash prev i r. f h t key hash prev i = Some r \<Longrightarrow>
        \<not> (same_hash key hash (tbl_data t ! i) \<and> \<not> key_eq h key (tbl_data t ! i))"
      and eq: "(let ent = tbl_data t ! i
         in if ent_hash ent = hash \<and> ent_is_int_key ent = key_is_int key then
              if \<not> key_eq h key ent then f h t key hash prev i
              else Some (tbl_remove_found h t (key_is_int key) prev i)
            else if ent_has_next ent then f h t key hash (Some i) (unat (ent_get_next ent))
            else Some (ERR_NotFound, h, t)) = Some r"
    show "\<not> (same_hash key hash (tbl_data t ! i) \<and> \<not> key_eq h key (tbl_data t ! i))"
    proof
      assume a: "same_hash key hash (tbl_data t ! i) \<and> \<not> key_eq h key (tbl_data t ! i)"
      then have "f h t key hash prev i = Some r" using eq by (simp add: same_hash_def Let_def)
      with IH a show False by blast
    qed
  qed
  with assms show False by blast
qed

lemma remove_loop_skip:
  assumes "seg (nxt (tbl_data t)) (us @ i # ws) 2147483647" "2147483647 \<notin> set (us @ i # ws)"
    and "\<forall>j \<in> set us. \<not> same_hash key hash (tbl_data t ! j)"
  shows "tbl_remove_loop h t key hash prev (hd (us @ [i])) =
    tbl_remove_loop h t key hash (if us = [] then prev else Some (last us)) i"
  using assms
proof (induction us arbitrary: prev)
  case (Cons x us)
  have nx: "nxt (tbl_data t) x = hd (us @ [i])" using Cons.prems(1) by (cases us) auto
  have "hd (us @ [i]) \<noteq> 2147483647" using Cons.prems(2) by (cases us) auto
  then have "ent_has_next (tbl_data t ! x)" using nx by (simp add: nxt_def ent_has_next_unat)
  then show ?case using Cons nx by (subst remove_loop_next) auto
qed simp

lemma remove_loop_miss:
  assumes "seg (nxt (tbl_data t)) xs 2147483647" "2147483647 \<notin> set xs" "xs \<noteq> []"
    and "\<forall>j \<in> set xs. \<not> same_hash key hash (tbl_data t ! j)"
  shows "tbl_remove_loop h t key hash prev (hd xs) = Some (ERR_NotFound, h, t)"
proof -
  obtain us i where xs: "xs = us @ [i]" using assms(3) by (metis rev_exhaust)
  have "\<not> ent_has_next (tbl_data t ! i)" using assms(1) by (simp add: xs nxt_def ent_has_next_unat)
  then show ?thesis
    using remove_loop_skip [of t us i "[]" key hash h prev] assms xs
    by (simp add: remove_loop_next)
qed

section \<open>Removing an entry\<close>

lemma ent_clear_simps [simp]:
  "ent_is_empty (ent_clear e)" "unat (ent_get_next (ent_clear e)) = 2147483647"
  by (simp_all add: ent_clear_def ent_is_empty_def)

text \<open>Dropping a string key writes \<open>NULL\<close> into an entry that is overwritten or cleared anyway.\<close>

definition removed_array :: "'v hent list \<Rightarrow> nat option \<Rightarrow> nat \<Rightarrow> 'v hent list \<times> nat" where
  "removed_array es prev i =
     (case prev of
        Some p \<Rightarrow> ((upd_ent es p (\<lambda>e. ent_set_next e (ent_get_next (es ! i))))[i := ent_clear (es ! i)], i)
      | None \<Rightarrow> if ent_has_next (es ! i)
                then (es[i := es ! nxt es i, nxt es i := ent_clear (es ! nxt es i)], nxt es i)
                else (es[i := ent_clear (es ! i)], i))"

lemma ent_clear_key [simp]: "ent_clear (e\<lparr>ent_key := k\<rparr>) = ent_clear e"
  by (simp add: ent_clear_def ent_set_next_def)

lemma list_update_twice_swap: "p \<noteq> i \<Longrightarrow> xs[i := a, p := b, i := c] = xs[p := b, i := c]"
  by (simp add: list_update_swap)

lemma tbl_remove_found_eq:
  assumes "i < length (tbl_data t)" "nxt (tbl_data t) i \<noteq> i" "prev \<noteq> Some i"
    and "ent_has_next (tbl_data t ! i) \<Longrightarrow> nxt (tbl_data t) i < length (tbl_data t)"
    and "\<And>p. prev = Some p \<Longrightarrow> p < length (tbl_data t) \<and> nxt (tbl_data t) p = i"
  shows "\<exists>fi. tbl_remove_found h t isInt prev i =
     (ERR_None, if isInt then h else sbuf_drop h (ent_key (tbl_data t ! i)),
      t\<lparr>tbl_freeIndex := fi, tbl_data := fst (removed_array (tbl_data t) prev i)\<rparr>)
     \<and> (if ent_has_next (tbl_data t ! i) \<or> prev \<noteq> None
        then unat fi = min (unat (tbl_freeIndex t)) (snd (removed_array (tbl_data t) prev i))
        else fi = tbl_freeIndex t)"
proof (cases prev)
  case (Some p)
  then have p: "p < length (tbl_data t)" "nxt (tbl_data t) p = i" "p \<noteq> i" using assms(3,5) by auto
  let ?fi = "if tbl_freeIndex t > ent_get_next (tbl_data t ! p) then ent_get_next (tbl_data t ! p) else tbl_freeIndex t"
  have "unat ?fi = min (unat (tbl_freeIndex t)) i"
    using p(2) by (auto simp: nxt_def word_less_nat_alt)
  with Some p assms(1) show ?thesis
    by (intro exI [of _ ?fi])
      (auto simp: tbl_remove_found_def removed_array_def upd_ent_def Let_def list_update_twice_swap)
next
  case None
  show ?thesis
  proof (cases "ent_has_next (tbl_data t ! i)")
    case True
    let ?n = "ent_get_next (tbl_data t ! i)"
    let ?fi = "if tbl_freeIndex t > ?n then ?n else tbl_freeIndex t"
    have "?n \<noteq> NEXT_INVALID" "unat ?n = nxt (tbl_data t) i" using True by (auto simp: ent_has_next_def nxt_def)
    moreover have "unat ?fi = min (unat (tbl_freeIndex t)) (unat ?n)" by (auto simp: word_less_nat_alt)
    ultimately show ?thesis using None True assms(1,2)
      by (intro exI [of _ ?fi])
        (auto simp: tbl_remove_found_def removed_array_def upd_ent_def Let_def nxt_def)
  next
    case False
    with None assms(1) show ?thesis
      by (intro exI [of _ "tbl_freeIndex t"])
        (auto simp: tbl_remove_found_def removed_array_def upd_ent_def Let_def ent_has_next_def)
  qed
qed

lemma ent_clear_stored1 [simp]: "stored1 (ent_clear e) = {#}"
  by (simp add: stored1_def)

lemma free_unlinked_upd:
  "i < length es \<Longrightarrow> (\<And>j. j < length es \<Longrightarrow> j \<noteq> i \<Longrightarrow> \<not> occ es j \<Longrightarrow> nxt es j = 2147483647) \<Longrightarrow>
   (ent_is_empty e \<Longrightarrow> unat (ent_get_next e) = 2147483647) \<Longrightarrow> free_unlinked (es[i := e])"
  by (auto simp: free_unlinked_def view_upd)

lemma add_mset_swap: "add_mset a X = add_mset b Y \<Longrightarrow> add_mset b Z = X \<Longrightarrow> add_mset a Z = Y"
  by (metis add_mset_commute add_mset_remove_trivial)

text \<open>The slot that is cleared is the only one whose occupation changes.\<close>

lemma removed_array_ok:
  fixes es :: "'v hent list"
  assumes ok: "arr_ok es" and C: "chains es C" and q: "q < length es" "C q = xs @ i # ys"
    and prev: "prev = (if xs = [] then None else Some (last xs))"
  shows "arr_ok (fst (removed_array es prev i)) \<and> length (fst (removed_array es prev i)) = length es
    \<and> snd (removed_array es prev i) < length es
    \<and> occ (fst (removed_array es prev i)) = (occ es)(snd (removed_array es prev i) := False)
    \<and> add_mset (ent_set_next (es ! i) 0) (stored (fst (removed_array es prev i))) = stored es"
proof -
  have c: "chn (length es) (occ es) (mpos es) (nxt es) C" using C by (simp add: chains_def)
  note D = chnD [OF c q(1), unfolded q(2)]
  have i: "i < length es" "occ es i" "mpos es i = q" using D(4-6) by auto
  have e: "stored1 (es ! i) = {#ent_set_next (es ! i) 0#}" using i(2) by (simp add: stored1_def occ_def)
  have fu: "nxt es j = 2147483647" if "j < length es" "\<not> occ es j" for j
    using ok that by (auto simp: arr_ok_def free_unlinked_def)
  show ?thesis
  proof (cases "xs = []")
    case False
    then obtain us p where xs: "xs = us @ [p]" by (metis rev_exhaust)
    let ?es = "(upd_ent es p (\<lambda>e. ent_set_next e (ent_get_next (es ! i))))"
    have r: "removed_array es prev i = (?es[i := ent_clear (es ! i)], i)"
      using prev xs by (simp add: removed_array_def)
    have p: "p < length es" "occ es p" "p \<noteq> i" using D(2,4,5) xs by auto
    have n: "unat (ent_get_next (es ! i)) < 2147483648" using ent_get_next_lt [of "es ! i"] by simp
    have vw: "occ ?es = occ es" "mpos ?es = mpos es" "nxt ?es = (nxt es)(p := nxt es i)" "length ?es = length es"
      using p n by (simp_all add: upd_ent_def view_upd) (auto simp: fun_eq_iff occ_def mpos_def nxt_def)
    have "chains (?es[i := ent_clear (es ! i)]) (C(q := us @ p # ys))"
      using chn_unlink [OF c q(1), of us p i ys] q(2) xs p i
      by (simp add: chains_def view_upd vw)
    moreover have "free_unlinked (?es[i := ent_clear (es ! i)])"
      using i p fu by (intro free_unlinked_upd) (auto simp: upd_ent_def view_upd occ_def)
    moreover have "stored ?es = stored es"
      using stored_upd [OF p(1), of "ent_set_next (es ! p) (ent_get_next (es ! i))"] n
      by (simp add: upd_ent_def)
    then have "add_mset (ent_set_next (es ! i) 0) (stored (?es[i := ent_clear (es ! i)])) = stored es"
      using stored_upd [of i ?es "ent_clear (es ! i)"] i p e by (simp add: upd_ent_def)
    moreover have "occ (?es[i := ent_clear (es ! i)]) = (occ es)(i := False)"
      using i p vw by (simp add: view_upd)
    ultimately show ?thesis using r i ok vw(4) by (auto simp: arr_ok_def)
  next
    case True
    then have iq: "i = q" using D(3) by simp
    show ?thesis
    proof (cases ys)
      case Nil
      have nn: "\<not> ent_has_next (es ! i)" using D(1) True Nil by (simp add: ent_has_next_unat nxt_def)
      then have r: "removed_array es prev i = (es[i := ent_clear (es ! i)], i)"
        using prev True by (simp add: removed_array_def)
      have "chains (es[i := ent_clear (es ! i)]) (C(q := []))"
        using chn_singleton [OF c q(1)] q(2) True Nil i iq by (simp add: chains_def view_upd)
      moreover have "free_unlinked (es[i := ent_clear (es ! i)])"
        using i fu by (intro free_unlinked_upd) auto
      moreover have "add_mset (ent_set_next (es ! i) 0) (stored (es[i := ent_clear (es ! i)])) = stored es"
        using stored_upd [OF i(1), of "ent_clear (es ! i)"] e by simp
      ultimately show ?thesis using r i ok by (auto simp: arr_ok_def view_upd)
    next
      case (Cons n zs)
      have n: "nxt es i = n" "n < length es" "occ es n" "n \<noteq> i" "mpos es n = q" "n \<noteq> 2147483647"
        using D Cons True arr_len(1) [OF ok, of n] by auto
      let ?es = "es[i := es ! n]"
      have hn: "ent_has_next (es ! i)" using n(1,6) by (simp add: ent_has_next_unat nxt_def)
      then have r: "removed_array es prev i = (?es[n := ent_clear (es ! n)], n)"
        using prev True n(1) by (simp add: removed_array_def)
      have vw: "nxt (?es[n := ent_clear (es ! n)]) = (nxt es)(i := nxt es n, n := 2147483647)"
        "mpos (?es[n := ent_clear (es ! n)]) = (mpos es)(n := unat (ent_hash (ent_clear (es ! n))) mod length es)"
        "occ (?es[n := ent_clear (es ! n)]) = (occ es)(n := False)"
        using i n by (auto simp: view_upd nxt_def [symmetric] fun_eq_iff) (simp_all add: occ_def mpos_def)
      have "chains (?es[n := ent_clear (es ! n)]) (C(q := i # zs))"
        using chn_unlink [OF c q(1), of "[]" i n zs] q(2) Cons True vw by (simp add: chains_def)
      moreover have "free_unlinked (?es[n := ent_clear (es ! n)])"
        using i n fu by (auto simp: free_unlinked_def vw)
      moreover have "add_mset (ent_set_next (es ! i) 0) (stored (?es[n := ent_clear (es ! n)])) = stored es"
      proof (rule add_mset_swap)
        have en: "stored1 (es ! n) = {#ent_set_next (es ! n) 0#}" using n(3) by (simp add: stored1_def occ_def)
        show "add_mset (ent_set_next (es ! i) 0) (stored ?es) = add_mset (ent_set_next (es ! n) 0) (stored es)"
          using stored_upd [OF i(1), of "es ! n"] unfolding e en by simp
        have "n < length ?es" "?es ! n = es ! n" using n(2,4) by simp_all
        with stored_upd [of n ?es "ent_clear (es ! n)"]
        show "add_mset (ent_set_next (es ! n) 0) (stored (?es[n := ent_clear (es ! n)])) = stored ?es"
          by (simp add: en)
      qed
      ultimately show ?thesis using r i n ok vw(3) by (auto simp: arr_ok_def)
    qed
  qed
qed

text \<open>The clause of the free index: only an entry that is alone on its chain leaves it behind.\<close>

definition tbl_removed ::
    "sheap \<Rightarrow> 'v hashtbl \<Rightarrow> bool \<Rightarrow> nat \<Rightarrow> zerr \<times> sheap \<times> 'v hashtbl \<Rightarrow> bool" where
  "tbl_removed h t isInt i r \<longleftrightarrow>
     fst r = ERR_None \<and> fst (snd r) = (if isInt then h else sbuf_drop h (ent_key (tbl_data t ! i)))
     \<and> tbl_ok (snd (snd r)) \<and> tbl_elemSize (snd (snd r)) = tbl_elemSize t
     \<and> length (tbl_data (snd (snd r))) = length (tbl_data t)
     \<and> add_mset (ent_set_next (tbl_data t ! i) 0) (stored (tbl_data (snd (snd r)))) = stored (tbl_data t)"

lemma tbl_remove_found_ok:
  fixes t :: "'v hashtbl"
  assumes ok: "tbl_ok t" "tbl_data t \<noteq> []" and C: "chains (tbl_data t) C"
    and q: "q < length (tbl_data t)" "C q = xs @ i # ys"
    and prev: "prev = (if xs = [] then None else Some (last xs))"
  shows "tbl_removed h t isInt i (tbl_remove_found h t isInt prev i)
    \<and> (free_exact t \<longrightarrow> (xs \<noteq> [] \<or> ys \<noteq> [] \<or> unat (tbl_freeIndex t) \<le> i) \<longrightarrow>
       free_exact (snd (snd (tbl_remove_found h t isInt prev i))))"
proof -
  let ?es = "tbl_data t"
  have arr: "arr_ok ?es" and cap: "tbl_capacity t = of_nat (length ?es)" using ok by (auto simp: tbl_ok_def)
  have c: "chn (length ?es) (occ ?es) (mpos ?es) (nxt ?es) C" using C by (simp add: chains_def)
  note D = chnD [OF c q(1), unfolded q(2)]
  have i: "i < length ?es" using D(4) by simp
  have next_i: "nxt ?es i = (if ys = [] then 2147483647 else hd ys)" using D(1) by (cases ys) auto
  have hn: "ent_has_next (?es ! i) \<longleftrightarrow> ys \<noteq> []"
    using next_i D(4) [of "hd ys"] arr_len(1) [OF arr, of "hd ys"]
    by (auto simp: ent_has_next_unat nxt_def [symmetric] neq_Nil_conv)
  have pn: "prev \<noteq> None \<longleftrightarrow> xs \<noteq> []" using prev by simp
  have "\<exists>fi. tbl_remove_found h t isInt prev i =
     (ERR_None, if isInt then h else sbuf_drop h (ent_key (?es ! i)),
      t\<lparr>tbl_freeIndex := fi, tbl_data := fst (removed_array ?es prev i)\<rparr>)
     \<and> (if ent_has_next (?es ! i) \<or> prev \<noteq> None
        then unat fi = min (unat (tbl_freeIndex t)) (snd (removed_array ?es prev i))
        else fi = tbl_freeIndex t)"
  proof (rule tbl_remove_found_eq [OF i])
    show "nxt ?es i \<noteq> i" using next_i D(2) arr_len(1) [OF arr i] by (cases ys) auto
    show "prev \<noteq> Some i" using prev D(2) by auto
    show "nxt ?es i < length ?es" if "ent_has_next (?es ! i)"
      using that hn next_i D(4) [of "hd ys"] by (auto simp: neq_Nil_conv)
    show "p < length ?es \<and> nxt ?es p = i" if "prev = Some p" for p
    proof -
      have "xs \<noteq> []" using that prev by (auto split: if_splits)
      moreover from this have "last xs = p" using that prev by simp
      ultimately obtain us where us: "xs = us @ [p]" by (metis append_butlast_last_id)
      have "p < length ?es" using D(4) [of p] us by simp
      moreover have "nxt ?es p = i" using D(1) us by simp
      ultimately show ?thesis ..
    qed
  qed
  then obtain fi where r: "tbl_remove_found h t isInt prev i =
     (ERR_None, if isInt then h else sbuf_drop h (ent_key (?es ! i)),
      t\<lparr>tbl_freeIndex := fi, tbl_data := fst (removed_array ?es prev i)\<rparr>)"
    and fi: "if ys \<noteq> [] \<or> xs \<noteq> []
        then unat fi = min (unat (tbl_freeIndex t)) (snd (removed_array ?es prev i))
        else fi = tbl_freeIndex t" unfolding hn pn by blast
  let ?d = "snd (removed_array ?es prev i)" and ?es' = "fst (removed_array ?es prev i)"
  have a: "arr_ok ?es'" "length ?es' = length ?es" "?d < length ?es" "occ ?es' = (occ ?es)(?d := False)"
    "add_mset (ent_set_next (?es ! i) 0) (stored ?es') = stored ?es"
    using removed_array_ok [OF arr C q prev] by auto
  have ne: "?es' \<noteq> []" using a(2) ok(2) by auto
  have di: "xs = [] \<Longrightarrow> ys = [] \<Longrightarrow> ?d = i" using prev hn by (simp add: removed_array_def)
  have "fi = FREE_INDEX_INVALID \<or> unat fi < length ?es \<and> \<not> occ ?es' (unat fi)"
  proof (cases "fi = tbl_freeIndex t")
    case True
    then show ?thesis using ok a(4) by (auto simp: tbl_ok_def)
  next
    case False
    then have "unat fi = ?d" using fi by (auto simp: min_def unsigned_word_eqI split: if_splits)
    then show ?thesis using a(3,4) by simp
  qed
  then have ok': "tbl_ok (t\<lparr>tbl_freeIndex := fi, tbl_data := ?es'\<rparr>)"
    using a cap ne by (simp add: tbl_ok_def)
  have le: "unat fi \<le> unat (tbl_freeIndex t)" using fi by (auto split: if_splits)
  have "free_exact (t\<lparr>tbl_freeIndex := fi, tbl_data := ?es'\<rparr>)"
    if "free_exact t" "xs \<noteq> [] \<or> ys \<noteq> [] \<or> unat (tbl_freeIndex t) \<le> i"
  proof -
    have d: "unat fi \<le> ?d" using that(2) fi di by (cases "xs = [] \<and> ys = []") auto
    have "unat fi \<le> j" if j: "j < length ?es" "\<not> occ ?es' j" for j
    proof (cases "j = ?d")
      case False
      with j a(4) have "\<not> occ ?es j" by simp
      with \<open>free_exact t\<close> j(1) have "unat (tbl_freeIndex t) \<le> j" by (simp add: free_exact_def)
      with le show ?thesis by simp
    qed (simp add: d)
    then show ?thesis using a(2) by (simp add: free_exact_def)
  qed
  then show ?thesis using r ok' a by (auto simp: tbl_removed_def)
qed

section \<open>The chain a hash belongs to\<close>

text \<open>
  The two guards of the lookup and the removal, an empty main slot and a main slot that another
  chain occupies, hold exactly when the chain of the hash is empty.
\<close>

lemma chain_of_hash:
  fixes t :: "'v hashtbl"
  assumes ok: "tbl_ok t" "tbl_data t \<noteq> []"
  obtains C p where "chains (tbl_data t) C" "p = unat (hash AND (tbl_capacity t - 1))" "p < length (tbl_data t)"
    and "p = unat hash mod length (tbl_data t)"
    and "ent_is_empty (tbl_data t ! p) \<or> unat (ent_hash (tbl_data t ! p) AND (tbl_capacity t - 1)) \<noteq> p
          \<longleftrightarrow> C p = []"
    and "C p \<noteq> [] \<Longrightarrow> hd (C p) = p" "seg (nxt (tbl_data t)) (C p) 2147483647" "2147483647 \<notin> set (C p)"
    and "\<And>j. j \<in> set (C p) \<longleftrightarrow> j < length (tbl_data t) \<and> occ (tbl_data t) j \<and> mpos (tbl_data t) j = p"
proof -
  let ?es = "tbl_data t" let ?p = "unat hash mod length ?es"
  have arr: "arr_ok ?es" and cap: "tbl_capacity t = of_nat (length ?es)" using ok by (auto simp: tbl_ok_def)
  obtain C where C: "chains ?es C" using arr by (auto simp: arr_ok_def)
  then have c: "chn (length ?es) (occ ?es) (mpos ?es) (nxt ?es) C" by (simp add: chains_def)
  have p: "?p < length ?es" using arr_pos [OF arr] by simp
  note D = chnD [OF c p]
  have mem: "j \<in> set (C ?p) \<longleftrightarrow> j < length ?es \<and> occ ?es j \<and> mpos ?es j = ?p" for j
    using D(4-6) chn_occ(2) [OF c] by metis
  have "unat (ent_hash (?es ! ?p) AND (tbl_capacity t - 1)) = mpos ?es ?p"
    using cap arr_mask [OF arr] by (simp add: mpos_def)
  then have "ent_is_empty (?es ! ?p) \<or> unat (ent_hash (?es ! ?p) AND (tbl_capacity t - 1)) \<noteq> ?p \<longleftrightarrow> ?p \<notin> set (C ?p)"
    using mem [of ?p] p by (auto simp: occ_def)
  also have "\<dots> \<longleftrightarrow> C ?p = []" using D(3) by (metis list.set_sel(1) list.set(1) empty_iff)
  finally show ?thesis
    using that [of C ?p] C p D(1,3) mem cap arr_mask [OF arr] arr_len(1) [OF arr] by auto
qed

lemma tbl_lookup_cases:
  fixes t :: "'v hashtbl"
  assumes ok: "tbl_ok t"
  obtains (miss) "tbl_lookup h t key hash = Some None"
      "\<And>i. i < length (tbl_data t) \<Longrightarrow> occ (tbl_data t) i \<Longrightarrow> \<not> key_matches h key hash (tbl_data t ! i)"
  | (hit) i where "tbl_lookup h t key hash = Some (Some i)" "i < length (tbl_data t)" "occ (tbl_data t) i"
      "key_matches h key hash (tbl_data t ! i)"
proof (cases "tbl_data t = []")
  case True
  then show ?thesis using miss by (simp add: tbl_lookup_def Let_def)
next
  case False
  let ?es = "tbl_data t"
  obtain C p where C: "chains ?es C" "p = unat (hash AND (tbl_capacity t - 1))" "p < length ?es"
    "p = unat hash mod length ?es"
    "ent_is_empty (?es ! p) \<or> unat (ent_hash (?es ! p) AND (tbl_capacity t - 1)) \<noteq> p \<longleftrightarrow> C p = []"
    "C p \<noteq> [] \<Longrightarrow> hd (C p) = p" "seg (nxt ?es) (C p) 2147483647" "2147483647 \<notin> set (C p)"
    "\<And>j. j \<in> set (C p) \<longleftrightarrow> j < length ?es \<and> occ ?es j \<and> mpos ?es j = p"
    using chain_of_hash [OF ok False, of hash] by blast
  have on: "i \<in> set (C p)" if "i < length ?es" "occ ?es i" "key_matches h key hash (?es ! i)" for i
    using that C(4,9) by (simp add: key_matches_def mpos_def)
  show ?thesis
  proof (cases "C p = []")
    case True
    then have "tbl_lookup h t key hash = Some None"
      using C(2,5) False by (auto simp: tbl_lookup_def Let_def)
    then show ?thesis using on True by (intro miss) auto
  next
    case ne: False
    then have lk: "tbl_lookup h t key hash =
      map_option (\<lambda>r. case r of ChainFound i \<Rightarrow> Some i | ChainEnd i \<Rightarrow> None)
        (tbl_chain_scan (key_matches h key hash) ?es (hd (C p)))"
      using C(2,5,6) False by (auto simp: tbl_lookup_def Let_def)
    note scan = lk [unfolded tbl_chain_scan_seg [OF C(7,8) ne]]
    show ?thesis
    proof (cases "find (\<lambda>i. key_matches h key hash (?es ! i)) (C p)")
      case None
      then have "\<forall>i \<in> set (C p). \<not> key_matches h key hash (?es ! i)" by (simp add: find_None_iff)
      then show ?thesis using scan None on by (intro miss) auto
    next
      case (Some i)
      then have i: "i \<in> set (C p)" "key_matches h key hash (?es ! i)" by (auto simp: find_Some_iff)
      then have "i < length ?es" "occ ?es i" using C(9) [of i] by simp_all
      then show ?thesis using scan Some i(2) by (intro hit [of i]) auto
    qed
  qed
qed

text \<open>
  Removal acts on the first entry of the chain with the hash and the kind of the key. When that
  entry holds another key, the call does not return.
\<close>

lemma tbl_remove_impl_cases:
  fixes t :: "'v hashtbl"
  assumes ok: "tbl_ok t"
  obtains (miss) "tbl_remove_impl h t key hash = Some (ERR_NotFound, h, t)"
      "\<And>i. i < length (tbl_data t) \<Longrightarrow> occ (tbl_data t) i \<Longrightarrow> \<not> same_hash key hash (tbl_data t ! i)"
  | (hit) i r where "tbl_remove_impl h t key hash = Some r" "i < length (tbl_data t)" "occ (tbl_data t) i"
      "key_matches h key hash (tbl_data t ! i)" "tbl_removed h t (key_is_int key) i r"
      "free_exact t \<Longrightarrow> unat (tbl_freeIndex t) \<le> i \<or>
         (\<exists>j < length (tbl_data t). occ (tbl_data t) j \<and> j \<noteq> i \<and> mpos (tbl_data t) j = mpos (tbl_data t) i) \<Longrightarrow>
         free_exact (snd (snd r))"
  | (stuck) i where "tbl_remove_impl h t key hash = None" "i < length (tbl_data t)" "occ (tbl_data t) i"
      "same_hash key hash (tbl_data t ! i)" "\<not> key_eq h key (tbl_data t ! i)"
proof (cases "tbl_data t = []")
  case True
  then show ?thesis using miss by (simp add: tbl_remove_impl_def Let_def)
next
  case False
  let ?es = "tbl_data t"
  obtain C p where C: "chains ?es C" "p = unat (hash AND (tbl_capacity t - 1))" "p < length ?es"
    "p = unat hash mod length ?es"
    "ent_is_empty (?es ! p) \<or> unat (ent_hash (?es ! p) AND (tbl_capacity t - 1)) \<noteq> p \<longleftrightarrow> C p = []"
    "C p \<noteq> [] \<Longrightarrow> hd (C p) = p" "seg (nxt ?es) (C p) 2147483647" "2147483647 \<notin> set (C p)"
    "\<And>j. j \<in> set (C p) \<longleftrightarrow> j < length ?es \<and> occ ?es j \<and> mpos ?es j = p"
    using chain_of_hash [OF ok False, of hash] by blast
  have on: "i \<in> set (C p)" if "i < length ?es" "occ ?es i" "same_hash key hash (?es ! i)" for i
    using that C(4,9) by (simp add: same_hash_def mpos_def)
  show ?thesis
  proof (cases "C p = []")
    case True
    then have "tbl_remove_impl h t key hash = Some (ERR_NotFound, h, t)"
      using C(2,5) False by (auto simp: tbl_remove_impl_def Let_def)
    then show ?thesis using on True by (intro miss) auto
  next
    case ne: False
    then have rm: "tbl_remove_impl h t key hash = tbl_remove_loop h t key hash None (hd (C p))"
      using C(2,5,6) False by (auto simp: tbl_remove_impl_def Let_def)
    show ?thesis
    proof (cases "\<exists>i \<in> set (C p). same_hash key hash (?es ! i)")
      case no: False
      then show ?thesis using rm remove_loop_miss [OF C(7,8) ne] on by (intro miss) auto
    next
      case True
      then obtain xs i ys where split: "C p = xs @ i # ys" "same_hash key hash (?es ! i)"
        "\<forall>j \<in> set xs. \<not> same_hash key hash (?es ! j)"
        using split_list_first_prop [of "C p" "\<lambda>i. same_hash key hash (?es ! i)"] by auto
      have i: "i < length ?es" "occ ?es i" "mpos ?es i = p" using C(9) [of i] split(1) by auto
      have "hd (C p) = hd (xs @ [i])" using split(1) by (cases xs) auto
      then have rm': "tbl_remove_impl h t key hash =
          tbl_remove_loop h t key hash (if xs = [] then None else Some (last xs)) i"
        using rm remove_loop_skip [of t xs i ys key hash h None] C(7,8) split by simp
      show ?thesis
      proof (cases "key_eq h key (?es ! i)")
        case False
        then show ?thesis using rm' remove_loop_stuck [OF split(2) False] i split(2) by (intro stuck [of i]) auto
      next
        case True
        let ?r = "tbl_remove_found h t (key_is_int key) (if xs = [] then None else Some (last xs)) i"
        have f: "tbl_removed h t (key_is_int key) i ?r" "free_exact t \<Longrightarrow>
            (xs \<noteq> [] \<or> ys \<noteq> [] \<or> unat (tbl_freeIndex t) \<le> i) \<Longrightarrow> free_exact (snd (snd ?r))"
          using tbl_remove_found_ok [OF ok False C(1,3) split(1) refl] by auto
        have alone: "xs \<noteq> [] \<or> ys \<noteq> []" if "j < length ?es" "occ ?es j" "j \<noteq> i" "mpos ?es j = mpos ?es i" for j
          using that C(9) [of j] i(3) split(1) by auto
        show ?thesis
          by (rule hit [of ?r i])
            (use rm' remove_loop_hit [OF split(2) True] i True split(2) f alone in
              \<open>auto simp: key_matches_same_hash\<close>)
      qed
    qed
  qed
qed

end
