(* ===== verification/Zeq_HashTbl_Map.thy ===== *)
theory Zeq_HashTbl_Map
  imports Zeq_HashTbl_Remove
begin

text \<open>
  The table as a finite map. \<open>tbl_map kv t\<close> reads the stored entries as a map from keys to
  values, \<open>kv\<close> being the view of an entry as a key; \<open>tbl_inv\<close> is the invariant under which the
  view is faithful. The locale \<open>table_keys\<close> is the contract between the table and a kind of key;
  it is interpreted for integer keys and for string keys, and its lemmas say that the operations
  of the table implement insertion, update, lookup and removal of the map.
\<close>

section \<open>Contents of a table\<close>

definition tbl_pairs :: "('v hent \<Rightarrow> 'k) \<Rightarrow> 'v hashtbl \<Rightarrow> ('k \<times> 'v) list" where
  "tbl_pairs kv t = map (\<lambda>e. (kv e, the (ent_data e))) (filter (\<lambda>e. \<not> ent_is_empty e) (tbl_data t))"

definition tbl_map :: "('v hent \<Rightarrow> 'k) \<Rightarrow> 'v hashtbl \<Rightarrow> 'k \<Rightarrow> 'v option" where
  "tbl_map kv t = map_of (tbl_pairs kv t)"

definition tbl_inv :: "('v hent \<Rightarrow> bool) \<Rightarrow> ('v hent \<Rightarrow> 'k) \<Rightarrow> 'v hashtbl \<Rightarrow> bool" where
  "tbl_inv good kv t \<longleftrightarrow> tbl_ok t \<and> tbl_elemSize t \<noteq> 0
     \<and> list_all (\<lambda>e. ent_is_empty e \<or> good e \<and> ent_data e \<noteq> None) (tbl_data t)
     \<and> distinct (map fst (tbl_pairs kv t))"

text \<open>Both are functions of the multiset of stored entries when links do not matter.\<close>

definition link_free :: "('v hent \<Rightarrow> 'a) \<Rightarrow> bool" where
  "link_free f \<longleftrightarrow> (\<forall>e nx. unat nx < 2 ^ 31 \<longrightarrow> f (ent_set_next e nx) = f e)"

lemma link_free_zero: "link_free f \<Longrightarrow> f (ent_set_next e 0) = f e"
  by (simp add: link_free_def)

lemma mset_pairs:
  assumes "link_free kv"
  shows "mset (tbl_pairs kv t) = image_mset (\<lambda>e. (kv e, the (ent_data e))) (stored (tbl_data t))"
  using assms by (simp add: stored_def tbl_pairs_def multiset.map_comp o_def link_free_zero)

lemma list_all_stored:
  assumes "link_free good"
  shows "list_all (\<lambda>e. ent_is_empty e \<or> good e \<and> ent_data e \<noteq> None) es \<longleftrightarrow>
    (\<forall>e \<in># stored es. good e \<and> ent_data e \<noteq> None)"
  using assms by (auto simp: stored_def list_all_iff link_free_zero)

text \<open>Two lists of pairs that are permutations of each other, the keys distinct, are the same map.\<close>

lemma map_of_mset:
  assumes "mset xs = mset ys" "distinct (map fst ys)"
  shows "distinct (map fst xs)" "map_of xs = map_of ys"
proof -
  have "mset (map fst xs) = mset (map fst ys)" using assms(1) by simp
  then show "distinct (map fst xs)" using assms(2) mset_eq_imp_distinct_iff by blast
  then show "map_of xs = map_of ys"
    using assms map_of_inject_set [of xs ys] mset_eq_setD by blast
qed

lemma map_of_add:
  assumes "mset xs = add_mset (k, v) (mset ys)" "distinct (map fst ys)" "map_of ys k = None"
  shows "distinct (map fst xs)" "map_of xs = (map_of ys)(k \<mapsto> v)"
proof -
  have "mset xs = mset ((k, v) # ys)" "distinct (map fst ((k, v) # ys))"
    using assms by (auto simp: map_of_eq_None_iff)
  from map_of_mset [OF this] show "distinct (map fst xs)" "map_of xs = (map_of ys)(k \<mapsto> v)" by simp_all
qed

lemma map_of_del:
  assumes "add_mset (k, v) (mset xs) = mset ys" "distinct (map fst ys)"
  shows "distinct (map fst xs)" "map_of xs = (map_of ys)(k := None)" "map_of ys k = Some v"
proof -
  have "mset ((k, v) # xs) = mset ys" using assms(1) by simp
  from map_of_mset [OF this assms(2)]
  have d: "distinct (map fst ((k, v) # xs))" "map_of ((k, v) # xs) = map_of ys" by auto
  then show "distinct (map fst xs)" by simp
  show "map_of ys k = Some v" using d(2) [symmetric] by simp
  have "map_of xs k = None" using d(1) by (simp add: map_of_eq_None_iff)
  then show "map_of xs = (map_of ys)(k := None)" using d(2) [symmetric] by (auto simp: fun_eq_iff)
qed

lemma stored_map:
  assumes "link_free kv" "distinct (map fst (tbl_pairs kv t))"
    and "\<forall>e \<in># stored (tbl_data t). ent_data e \<noteq> None"
  shows "tbl_map kv t k = Some v \<longleftrightarrow> (\<exists>e \<in># stored (tbl_data t). kv e = k \<and> ent_data e = Some v)"
proof -
  have "tbl_map kv t k = Some v \<longleftrightarrow> (k, v) \<in># mset (tbl_pairs kv t)"
    using assms(2) by (simp add: tbl_map_def)
  also have "\<dots> \<longleftrightarrow> (\<exists>e \<in># stored (tbl_data t). kv e = k \<and> the (ent_data e) = v)"
    unfolding mset_pairs [OF assms(1)] by auto
  also have "\<dots> \<longleftrightarrow> (\<exists>e \<in># stored (tbl_data t). kv e = k \<and> ent_data e = Some v)"
    using assms(3) by fastforce
  finally show ?thesis .
qed

section \<open>The contract of a kind of key\<close>

text \<open>
  \<open>good\<close> says that an entry is well formed for this kind, \<open>raw k key\<close> that the 64-bit word
  \<open>key\<close> passed to the table represents the key \<open>k\<close>, and \<open>H\<close> is the hash the entry points compute.
\<close>

locale table_keys =
  fixes h :: sheap and isInt :: bool and good :: "'v hent \<Rightarrow> bool" and kv :: "'v hent \<Rightarrow> 'k"
    and look :: "'k \<Rightarrow> lookup_key" and hash :: "'k \<Rightarrow> u32" and raw :: "'k \<Rightarrow> u64 \<Rightarrow> bool"
    and valid :: "'k \<Rightarrow> bool"
  assumes good_link: "link_free good" and kv_link: "link_free kv"
    and look_int: "valid k \<Longrightarrow> key_is_int (look k) = isInt"
    and good_hash: "good e \<Longrightarrow> ent_hash e = hash (kv e)" and good_int: "good e \<Longrightarrow> ent_is_int_key e = isInt"
    and look_eq: "good e \<Longrightarrow> valid k \<Longrightarrow> ent_hash e = hash k \<Longrightarrow> key_eq h (look k) e \<longleftrightarrow> kv e = k"
    and set_match: "good e \<Longrightarrow> raw k key \<Longrightarrow> set_key_matches h key isInt (hash k) e \<longleftrightarrow> kv e = k"
    and made: "raw k key \<Longrightarrow> ent_key e = key \<Longrightarrow> ent_hash e = hash k \<Longrightarrow> ent_is_int_key e = isInt \<Longrightarrow>
      good e \<and> kv e = k"
    and nonempty: "raw k key \<Longrightarrow> key \<noteq> 0 \<or> hash k \<noteq> 0"
begin

lemma inv_stored: "tbl_inv good kv t \<longleftrightarrow> tbl_ok t \<and> tbl_elemSize t \<noteq> 0
     \<and> (\<forall>e \<in># stored (tbl_data t). good e \<and> ent_data e \<noteq> None) \<and> distinct (map fst (tbl_pairs kv t))"
  unfolding tbl_inv_def list_all_stored [OF good_link] ..

lemma map_stored:
  assumes "tbl_inv good kv t"
  shows "tbl_map kv t k = Some v \<longleftrightarrow> (\<exists>e \<in># stored (tbl_data t). kv e = k \<and> ent_data e = Some v)"
  using assms stored_map [OF kv_link] by (auto simp: inv_stored)

lemma map_slot:
  assumes "tbl_inv good kv t" "i < length (tbl_data t)" "occ (tbl_data t) i"
  shows "good (tbl_data t ! i)" "\<exists>v. ent_data (tbl_data t ! i) = Some v \<and> tbl_map kv t (kv (tbl_data t ! i)) = Some v"
proof -
  let ?e = "ent_set_next (tbl_data t ! i) 0"
  have e: "?e \<in># stored (tbl_data t)" using assms(2,3) by (auto simp: in_stored)
  then show "good (tbl_data t ! i)" using assms(1) link_free_zero [OF good_link] by (auto simp: inv_stored)
  from e obtain v where v: "ent_data ?e = Some v" using assms(1) by (auto simp: inv_stored)
  then have "tbl_map kv t (kv ?e) = Some v" using e map_stored [OF assms(1)] by blast
  then show "\<exists>v. ent_data (tbl_data t ! i) = Some v \<and> tbl_map kv t (kv (tbl_data t ! i)) = Some v"
    using v link_free_zero [OF kv_link] by auto
qed

lemma map_None:
  assumes "tbl_inv good kv t"
  shows "tbl_map kv t k = None \<longleftrightarrow> (\<forall>e \<in># stored (tbl_data t). kv e \<noteq> k)"
proof -
  have "\<forall>e \<in># stored (tbl_data t). \<exists>v. ent_data e = Some v" using assms by (auto simp: inv_stored)
  then show ?thesis using map_stored [OF assms, of k] by (cases "tbl_map kv t k") auto
qed

text \<open>A lookup computes the map.\<close>

lemma get_map:
  assumes "tbl_inv good kv t" "valid k"
  shows "tbl_get_impl h t (look k) (hash k) = Some (map_option Some (tbl_map kv t k))"
proof -
  have ok: "tbl_ok t" using assms(1) by (simp add: inv_stored)
  have match: "key_matches h (look k) (hash k) e \<longleftrightarrow> kv e = k" if "good e" for e
    using that look_eq good_hash good_int look_int assms(2) by (auto simp: key_matches_def)
  show ?thesis
  proof (rule tbl_lookup_cases [OF ok, of h "look k" "hash k"])
    assume m: "tbl_lookup h t (look k) (hash k) = Some None"
      "\<And>i. i < length (tbl_data t) \<Longrightarrow> occ (tbl_data t) i \<Longrightarrow> \<not> key_matches h (look k) (hash k) (tbl_data t ! i)"
    have "kv e \<noteq> k" if e: "e \<in># stored (tbl_data t)" for e
    proof -
      obtain i where i: "i < length (tbl_data t)" "occ (tbl_data t) i" "e = ent_set_next (tbl_data t ! i) 0"
        using e by (auto simp: in_stored)
      then show ?thesis using m(2) [OF i(1,2)] match map_slot(1) [OF assms(1) i(1,2)] link_free_zero [OF kv_link] by auto
    qed
    then have "tbl_map kv t k = None" using map_None [OF assms(1)] by blast
    then show ?thesis using m(1) by (simp add: tbl_get_impl_def)
  next
    fix i assume i: "tbl_lookup h t (look k) (hash k) = Some (Some i)" "i < length (tbl_data t)" "occ (tbl_data t) i"
      "key_matches h (look k) (hash k) (tbl_data t ! i)"
    then show ?thesis using map_slot [OF assms(1) i(2,3)] match by (auto simp: tbl_get_impl_def)
  qed
qed

text \<open>Insertion and update, from what the structural theory says of them.\<close>

lemma inserted_map:
  assumes inv: "tbl_inv good kv t" and k: "raw k key"
    and ins: "set_inserted h t key isInt (Some v) (hash k) (h', t')"
  shows "tbl_map kv t k = None" "tbl_inv good kv t'" "tbl_map kv t' = (tbl_map kv t)(k \<mapsto> v)"
proof -
  obtain e where e: "ent_key e = key" "ent_hash e = hash k" "ent_is_int_key e = isInt" "ent_data e = Some v"
    and st: "stored (tbl_data t') = add_mset (ent_set_next e 0) (stored (tbl_data t))"
    and no: "\<forall>x \<in># stored (tbl_data t). \<not> set_key_matches h key isInt (hash k) x"
    and ok: "tbl_ok t'" "tbl_elemSize t' = tbl_elemSize t"
    using ins by (auto simp: set_inserted_def)
  have g: "good e" "kv e = k" using made [OF k e(1-3)] by auto
  have g0: "good (ent_set_next e 0)" "kv (ent_set_next e 0) = k"
    using g link_free_zero [OF good_link] link_free_zero [OF kv_link] by auto
  show none: "tbl_map kv t k = None"
    using no inv set_match [OF _ k] by (auto simp: map_None [OF inv] inv_stored)
  have ps: "mset (tbl_pairs kv t') = add_mset (k, v) (mset (tbl_pairs kv t))"
    using e(4) g0(2) by (simp add: mset_pairs [OF kv_link] st)
  note ad = map_of_add [OF ps, folded tbl_map_def, OF _ none]
  show "tbl_inv good kv t'" "tbl_map kv t' = (tbl_map kv t)(k \<mapsto> v)"
    using ad inv ok st e(4) g0(1) by (simp_all add: inv_stored)
qed

lemma matched_slot:
  assumes inv: "tbl_inv good kv t" and k: "raw k key" and st: "stored (tbl_data t1) = stored (tbl_data t)"
    and ok: "tbl_ok t1" "tbl_elemSize t1 = tbl_elemSize t"
  shows "tbl_inv good kv t1" "tbl_map kv t1 = tbl_map kv t"
proof -
  have "mset (tbl_pairs kv t1) = mset (tbl_pairs kv t)" by (simp add: mset_pairs [OF kv_link] st)
  from map_of_mset [OF this] show "tbl_inv good kv t1" "tbl_map kv t1 = tbl_map kv t"
    using inv ok st by (auto simp: inv_stored tbl_map_def)
qed

lemma update_slot:
  assumes inv: "tbl_inv good kv t" and i: "i < length (tbl_data t)" "occ (tbl_data t) i"
    and k: "kv (tbl_data t ! i) = k" and e: "e = (tbl_data t ! i)\<lparr>ent_data := Some v\<rparr>"
    and good: "good e" "kv e = k"
  shows "tbl_inv good kv (t\<lparr>tbl_data := (tbl_data t)[i := e]\<rparr>)"
    "tbl_map kv (t\<lparr>tbl_data := (tbl_data t)[i := e]\<rparr>) = (tbl_map kv t)(k \<mapsto> v)"
proof -
  let ?es = "tbl_data t" let ?e = "?es ! i" let ?t = "t\<lparr>tbl_data := ?es[i := e]\<rparr>"
  have ne: "\<not> ent_is_empty e" "\<not> ent_is_empty ?e" using i(2) e by (auto simp: occ_def ent_is_empty_def)
  have vw: "occ (?es[i := e]) = occ ?es" "mpos (?es[i := e]) = mpos ?es" "nxt (?es[i := e]) = nxt ?es"
    using i e ne by (auto simp: view_upd fun_eq_iff occ_def mpos_def nxt_def)
  have "tbl_ok ?t" using inv i vw
    by (auto simp: inv_stored tbl_ok_def arr_ok_def chains_def free_unlinked_def)
  moreover have st: "add_mset (ent_set_next ?e 0) (stored (?es[i := e])) = add_mset (ent_set_next e 0) (stored ?es)"
    using stored_upd [OF i(1), of e] ne by (simp add: stored1_def)
  obtain v0 where v0: "ent_data ?e = Some v0" "tbl_map kv t k = Some v0" using map_slot(2) [OF inv i] k by auto
  have "image_mset (\<lambda>e. (kv e, the (ent_data e))) (add_mset (ent_set_next ?e 0) (stored (?es[i := e]))) =
        image_mset (\<lambda>e. (kv e, the (ent_data e))) (add_mset (ent_set_next e 0) (stored ?es))"
    using st by simp
  then have ps: "add_mset (k, v0) (mset (tbl_pairs kv ?t)) = add_mset (k, v) (mset (tbl_pairs kv t))"
    using v0 e good(2) k link_free_zero [OF kv_link] by (simp add: mset_pairs [OF kv_link])
  have dist: "distinct (map fst (tbl_pairs kv t))" using inv by (simp add: inv_stored)
  have "(k, v0) \<in> set (tbl_pairs kv t)" using v0(2) by (simp add: tbl_map_def map_of_SomeD)
  then obtain M where M: "mset (tbl_pairs kv t) = add_mset (k, v0) M"
    by (metis insert_DiffM set_mset_mset)
  obtain ys where ys: "mset ys = M" using ex_mset by blast
  have del: "add_mset (k, v0) (mset ys) = mset (tbl_pairs kv t)" using M ys by simp
  note d = map_of_del [OF del dist]
  have "mset (tbl_pairs kv ?t) = add_mset (k, v) (mset ys)"
    using ps M ys by (metis add_mset_commute add_mset_add_mset_same_iff)
  note ad = map_of_add [OF this d(1)]
  have "\<forall>x \<in># stored (?es[i := e]). good x \<and> ent_data x \<noteq> None"
  proof
    fix x assume "x \<in># stored (?es[i := e])"
    then have "x \<in># add_mset (ent_set_next e 0) (stored ?es)" using st by (metis union_iff add_mset_add_single)
    then show "good x \<and> ent_data x \<noteq> None"
      using inv good(1) e link_free_zero [OF good_link] by (auto simp: inv_stored)
  qed
  ultimately show "tbl_inv good kv ?t" "tbl_map kv ?t = (tbl_map kv t)(k \<mapsto> v)"
    using ad d(2) inv by (auto simp: inv_stored tbl_map_def)
qed

text \<open>Removal, when no other key on the chain shares the hash.\<close>

lemma removed_map:
  assumes inv: "tbl_inv good kv t" and i: "i < length (tbl_data t)" "occ (tbl_data t) i"
    and r: "tbl_removed h t isInt i (rc, h', t')"
  shows "tbl_inv good kv t'" "tbl_map kv t' = (tbl_map kv t)(kv (tbl_data t ! i) := None)"
proof -
  have st: "add_mset (ent_set_next (tbl_data t ! i) 0) (stored (tbl_data t')) = stored (tbl_data t)"
    and ok: "tbl_ok t'" "tbl_elemSize t' = tbl_elemSize t" using r by (auto simp: tbl_removed_def)
  obtain v where v: "ent_data (tbl_data t ! i) = Some v" using map_slot(2) [OF inv i] by auto
  have ps: "add_mset (kv (tbl_data t ! i), v) (mset (tbl_pairs kv t')) = mset (tbl_pairs kv t)"
    using v link_free_zero [OF kv_link] by (simp add: mset_pairs [OF kv_link] flip: st)
  have "distinct (map fst (tbl_pairs kv t))" using inv by (simp add: inv_stored)
  note d = map_of_del [OF ps this]
  have "\<forall>x \<in># stored (tbl_data t'). x \<in># stored (tbl_data t)" by (simp flip: st)
  then show "tbl_inv good kv t'" "tbl_map kv t' = (tbl_map kv t)(kv (tbl_data t ! i) := None)"
    using d inv ok by (auto simp: inv_stored tbl_map_def)
qed

text \<open>The whole of \<open>tbl_set_impl\<close>, for a set that does not overwrite.\<close>

lemma set_map:
  assumes inv: "tbl_inv good kv t" "no_lost_slot t" "may_grow t" and k: "raw k key"
  obtains (oom) "tbl_set_impl alloc h t key isInt (Some v) (hash k) False = Some (ERR_OutOfMemory, h, t)"
      "\<exists>n. \<not> alloc n"
  | (absent) t' where "tbl_map kv t k = None" "tbl_set_impl alloc h t key isInt (Some v) (hash k) False =
        Some (ERR_None, if isInt then h else sbuf_grab h key, t')"
      "tbl_inv good kv t'" "free_exact t \<Longrightarrow> free_exact t'" "tbl_map kv t' = (tbl_map kv t)(k \<mapsto> v)"
  | (present) t' where "tbl_map kv t k \<noteq> None"
      "tbl_set_impl alloc h t key isInt (Some v) (hash k) False = Some (ERR_Again, h, t')"
      "tbl_inv good kv t'" "free_exact t \<Longrightarrow> free_exact t'" "tbl_map kv t' = tbl_map kv t"
      "stored (tbl_data t') = stored (tbl_data t)"
proof -
  have ok: "tbl_ok t" "tbl_elemSize t \<noteq> 0" using inv(1) by (auto simp: inv_stored)
  show ?thesis
  proof (rule tbl_set_impl_ok [OF ok(1) inv(2,3) ok(2) nonempty [OF k],
        of alloc h isInt "Some v" False])
    fix h' t' assume r: "tbl_set_impl alloc h t key isInt (Some v) (hash k) False = Some (ERR_None, h', t')"
      and ins: "set_inserted h t key isInt (Some v) (hash k) (h', t')"
    have "h' = (if isInt then h else sbuf_grab h key)" "free_exact t \<Longrightarrow> free_exact t'"
      using ins by (auto simp: set_inserted_def)
    then show ?thesis using inserted_map [OF inv(1) k ins] r absent by blast
  next
    fix r assume r: "tbl_set_impl alloc h t key isInt (Some v) (hash k) False = Some r"
      and m: "set_matched h t key isInt (Some v) (hash k) False r"
    then obtain t1 i where t1: "tbl_ok t1" "free_exact t \<longrightarrow> free_exact t1" "tbl_elemSize t1 = tbl_elemSize t"
      "stored (tbl_data t1) = stored (tbl_data t)" "i < length (tbl_data t1)" "occ (tbl_data t1) i"
      "set_key_matches h key isInt (hash k) (tbl_data t1 ! i)" "r = tbl_set_found h t1 i key isInt (Some v) False"
      unfolding set_matched_def by blast
    note s = matched_slot [OF inv(1) k t1(4,1,3)]
    have "kv (tbl_data t1 ! i) = k" using set_match [OF _ k] map_slot(1) [OF s(1) t1(5,6)] t1(7) by blast
    then have "tbl_map kv t k \<noteq> None" using map_slot(2) [OF s(1) t1(5,6)] s(2) by auto
    then show ?thesis using present [of t1] r t1(2,4,8) s by (simp add: tbl_set_found_def)
  qed (rule oom)
qed

text \<open>The update in place of a key whose entry needs no new key pointer.\<close>

lemma update_map:
  assumes inv: "tbl_inv good kv t" "no_lost_slot t" "may_grow t" and k: "raw k key"
    and inplace: "isInt \<or> (\<forall>e \<in># stored (tbl_data t). kv e = k \<longrightarrow> ent_key e = key)"
    and data: "\<And>e d. good (e\<lparr>ent_data := d\<rparr>) = good e \<and> kv (e\<lparr>ent_data := d\<rparr>) = kv e"
  obtains (oom) "tbl_set_impl alloc h t key isInt (Some v) (hash k) True = Some (ERR_OutOfMemory, h, t)"
      "\<exists>n. \<not> alloc n"
  | (updated) t' where "tbl_set_impl alloc h t key isInt (Some v) (hash k) True = Some (ERR_None,
        if isInt \<or> tbl_map kv t k \<noteq> None then h else sbuf_grab h key, t')"
      "tbl_inv good kv t'" "tbl_map kv t' = (tbl_map kv t)(k \<mapsto> v)"
proof -
  note finished = updated
  have ok: "tbl_ok t" "tbl_elemSize t \<noteq> 0" using inv(1) by (auto simp: inv_stored)
  show ?thesis
  proof (rule tbl_set_impl_ok [OF ok(1) inv(2,3) ok(2) nonempty [OF k],
        of alloc h isInt "Some v" True])
    fix h' t' assume r: "tbl_set_impl alloc h t key isInt (Some v) (hash k) True = Some (ERR_None, h', t')"
      and ins: "set_inserted h t key isInt (Some v) (hash k) (h', t')"
    have "h' = (if isInt then h else sbuf_grab h key)" using ins by (auto simp: set_inserted_def)
    then show ?thesis using inserted_map [OF inv(1) k ins] r by (intro finished [of t']) simp_all
  next
    fix r assume r: "tbl_set_impl alloc h t key isInt (Some v) (hash k) True = Some r"
      and m: "set_matched h t key isInt (Some v) (hash k) True r"
    then obtain t1 i where t1: "tbl_ok t1" "tbl_elemSize t1 = tbl_elemSize t"
      "stored (tbl_data t1) = stored (tbl_data t)" "i < length (tbl_data t1)" "occ (tbl_data t1) i"
      "set_key_matches h key isInt (hash k) (tbl_data t1 ! i)" "r = tbl_set_found h t1 i key isInt (Some v) True"
      unfolding set_matched_def by blast
    note s = matched_slot [OF inv(1) k t1(3,1,2)]
    let ?e = "tbl_data t1 ! i"
    have g: "good ?e" "kv ?e = k" using set_match [OF _ k] map_slot(1) [OF s(1) t1(4,5)] t1(6) by blast+
    have "ent_set_next ?e 0 \<in># stored (tbl_data t)" using t1(3-5) in_stored by metis
    then have key: "isInt \<or> ent_key ?e = key" using inplace g(2) link_free_zero [OF kv_link] by force
    let ?t' = "t1\<lparr>tbl_data := (tbl_data t1)[i := ?e\<lparr>ent_data := Some v\<rparr>]\<rparr>"
    have "r = (ERR_None, h, ?t')" using t1(2,7) ok(2) key by (auto simp: tbl_set_found_def)
    moreover have "tbl_map kv t k \<noteq> None" using map_slot(2) [OF s(1) t1(4,5)] g(2) s(2) by auto
    ultimately show ?thesis
      using update_slot [OF s(1) t1(4,5) g(2) refl, of v] data [where e = ?e] g s(2) r by (intro finished [of ?t']) auto
  qed (rule oom)
qed

text \<open>Removal, under the hypothesis that no other key of the table has the hash of the removed one.\<close>

lemma remove_map:
  assumes inv: "tbl_inv good kv t" and k: "valid k"
    and alone: "\<And>k'. tbl_map kv t k' \<noteq> None \<Longrightarrow> hash k' = hash k \<Longrightarrow> k' = k"
  obtains (absent) "tbl_map kv t k = None" "tbl_remove_impl h t (look k) (hash k) = Some (ERR_NotFound, h, t)"
  | (present) h' t' where "tbl_map kv t k \<noteq> None"
      "tbl_remove_impl h t (look k) (hash k) = Some (ERR_None, h', t')"
      "\<exists>e \<in># stored (tbl_data t). kv e = k \<and> h' = (if isInt then h else sbuf_drop h (ent_key e))"
      "tbl_inv good kv t'" "tbl_map kv t' = (tbl_map kv t)(k := None)"
proof -
  have ok: "tbl_ok t" using inv by (simp add: inv_stored)
  have same: "same_hash (look k) (hash k) e \<longleftrightarrow> hash (kv e) = hash k" if "good e" for e
    using that good_hash good_int look_int [OF k] by (auto simp: same_hash_def)
  have uniq: "kv (tbl_data t ! i) = k"
    if "i < length (tbl_data t)" "occ (tbl_data t) i" "same_hash (look k) (hash k) (tbl_data t ! i)" for i
    using that map_slot [OF inv that(1,2)] same alone by auto
  show ?thesis
  proof (rule tbl_remove_impl_cases [OF ok, of h "look k" "hash k"])
    assume m: "tbl_remove_impl h t (look k) (hash k) = Some (ERR_NotFound, h, t)"
      "\<And>i. i < length (tbl_data t) \<Longrightarrow> occ (tbl_data t) i \<Longrightarrow> \<not> same_hash (look k) (hash k) (tbl_data t ! i)"
    have "kv e \<noteq> k" if e: "e \<in># stored (tbl_data t)" for e
    proof -
      obtain i where i: "i < length (tbl_data t)" "occ (tbl_data t) i" "e = ent_set_next (tbl_data t ! i) 0"
        using e by (auto simp: in_stored)
      then show ?thesis using m(2) [OF i(1,2)] same map_slot(1) [OF inv i(1,2)] link_free_zero [OF kv_link] by auto
    qed
    then show ?thesis using m(1) map_None [OF inv] by (intro absent) auto
  next
    fix i r assume i: "tbl_remove_impl h t (look k) (hash k) = Some r" "i < length (tbl_data t)" "occ (tbl_data t) i"
      "key_matches h (look k) (hash k) (tbl_data t ! i)" "tbl_removed h t (key_is_int (look k)) i r"
    obtain rc h' t' where r: "r = (rc, h', t')" by (cases r) auto
    have rc: "rc = ERR_None" "h' = (if isInt then h else sbuf_drop h (ent_key (tbl_data t ! i)))"
      using i(5) r look_int [OF k] by (auto simp: tbl_removed_def)
    have kk: "kv (tbl_data t ! i) = k" using uniq i by (auto simp: key_matches_same_hash)
    have "ent_set_next (tbl_data t ! i) 0 \<in># stored (tbl_data t)" using i(2,3) by (auto simp: in_stored)
    then have ex: "\<exists>e \<in># stored (tbl_data t). kv e = k \<and> h' = (if isInt then h else sbuf_drop h (ent_key e))"
      using kk rc(2) link_free_zero [OF kv_link] ent_set_next_fields(1) by metis
    have "tbl_removed h t isInt i (rc, h', t')" using i(5) r look_int [OF k] by simp
    from removed_map [OF inv i(2,3) this] show ?thesis
      using i(1) r rc(1) kk ex map_slot(2) [OF inv i(2,3)] by (intro present [of h' t']) auto
  next
    fix i assume i: "i < length (tbl_data t)" "occ (tbl_data t) i"
      "same_hash (look k) (hash k) (tbl_data t ! i)" "\<not> key_eq h (look k) (tbl_data t ! i)"
    have "key_eq h (look k) (tbl_data t ! i)"
      using look_eq [OF map_slot(1) [OF inv i(1,2)] k] uniq [OF i(1-3)] i(3) by (auto simp: same_hash_def)
    with i(4) show ?thesis by blast
  qed
qed

text \<open>
  When another stored key has the hash of a key that is not stored, or that follows it on the
  chain, the removal may loop for ever: it does so for every absent key.
\<close>

lemma remove_diverges:
  assumes inv: "tbl_inv good kv t" and k: "valid k" "tbl_map kv t k = None"
    and other: "tbl_map kv t k' \<noteq> None" "hash k' = hash k"
  shows "tbl_remove_impl h t (look k) (hash k) = None"
proof -
  have ok: "tbl_ok t" using inv by (simp add: inv_stored)
  obtain e where e: "e \<in># stored (tbl_data t)" "kv e = k'" using other(1) map_None [OF inv, of k'] by auto
  then obtain i where i: "i < length (tbl_data t)" "occ (tbl_data t) i" "e = ent_set_next (tbl_data t ! i) 0"
    by (auto simp: in_stored)
  have ki: "kv (tbl_data t ! i) = k'" using e(2) i(3) link_free_zero [OF kv_link] by simp
  have sh: "same_hash (look k) (hash k) (tbl_data t ! i)"
    using good_hash good_int look_int [OF k(1)] map_slot(1) [OF inv i(1,2)] ki other(2)
    by (auto simp: same_hash_def)
  show ?thesis
  proof (rule tbl_remove_impl_cases [OF ok, of h "look k" "hash k"])
    assume "\<And>i. i < length (tbl_data t) \<Longrightarrow> occ (tbl_data t) i \<Longrightarrow> \<not> same_hash (look k) (hash k) (tbl_data t ! i)"
    with sh i show ?thesis by blast
  next
    fix j r assume j: "j < length (tbl_data t)" "occ (tbl_data t) j" "key_matches h (look k) (hash k) (tbl_data t ! j)"
    then have "kv (tbl_data t ! j) = k"
      using look_eq [OF map_slot(1) [OF inv j(1,2)] k(1)] by (auto simp: key_matches_def)
    with k(2) map_slot(2) [OF inv j(1,2)] show ?thesis by auto
  qed
qed

end

end
