(* ===== verification/Zeq_HashTbl_Keys.thy ===== *)
theory Zeq_HashTbl_Keys
  imports Zeq_HashTbl_Map
begin

text \<open>
  The two kinds of key of the table: 64-bit integers, and reference-counted strings. Each
  interprets the contract \<open>table_keys\<close>, and the properties of the table follow from it.
\<close>

section \<open>Integer keys\<close>

definition int_good :: "'v hent \<Rightarrow> bool" where
  "int_good e \<longleftrightarrow> ent_is_int_key e \<and> ent_hash e = hash_int64 (ent_key e)"

interpretation int_keys: table_keys h True int_good ent_key KeyInt hash_int64 "(=)" "\<lambda>_. True" for h
proof unfold_locales
  fix k key :: u64 assume "k = key"
  then show "key \<noteq> 0 \<or> hash_int64 k \<noteq> 0" using hash_int64_0_nonzero by auto
qed (auto simp: link_free_def int_good_def set_key_matches_def)

abbreviation tbl_int_inv :: "'v hashtbl \<Rightarrow> bool" where
  "tbl_int_inv t \<equiv> tbl_inv int_good ent_key t"

abbreviation tbl_int_map :: "'v hashtbl \<Rightarrow> u64 \<Rightarrow> 'v option" where
  "tbl_int_map t \<equiv> tbl_map ent_key t"

text \<open>An empty table, which is what every table starts as.\<close>

lemma tbl_init_ok [simp]:
  "elemSize \<noteq> 0 \<Longrightarrow> tbl_inv good kv (tbl_init_size elemSize)" "tbl_map kv (tbl_init_size elemSize) = Map.empty"
  "free_exact (tbl_init_size elemSize)" "may_grow (tbl_init_size elemSize)"
  by (auto simp: tbl_inv_def tbl_ok_def tbl_init_size_def Let_def tbl_pairs_def tbl_map_def free_exact_def
      may_grow_def)

lemma inv_tbl_ok: "tbl_inv good kv t \<Longrightarrow> tbl_ok t"
  by (simp add: tbl_inv_def)

text \<open>The first insertion into a new table.\<close>

lemma tbl_set_int_init:
  "\<exists>t. tbl_set_int (\<lambda>_. True) h (tbl_init_size 8 :: 'v hashtbl) k (Some v) = Some (ERR_None, h, t)
     \<and> tbl_int_inv t \<and> free_exact t \<and> tbl_int_map t = [k \<mapsto> v]"
proof -
  let ?t = "tbl_init_size 8 :: 'v hashtbl"
  have e: "tbl_int_inv ?t" "no_lost_slot ?t" "may_grow ?t" "tbl_int_map ?t = Map.empty" "free_exact ?t"
    using free_exact_no_lost [OF inv_tbl_ok, of int_good ent_key ?t] by auto
  show ?thesis unfolding tbl_set_int_def tbl_do_set_int_def
    by (rule int_keys.set_map [OF e(1-3) refl, where alloc = "\<lambda>_. True" and h = h and v = v and k = k])
      (use e(4,5) in auto)
qed

text \<open>\<open>tbl_get_int\<close> on any table that satisfies the invariant terminates and returns the value
  of the map the table stores, and nothing for a key that is not in it.\<close>

theorem tbl_get_int_map:
  assumes "tbl_int_inv t"
  shows "tbl_get_int_raw h t k = Some (map_option Some (tbl_int_map t k))"
  unfolding tbl_get_int_raw_def using int_keys.get_map [OF assms, where k = k] by simp

theorem tbl_get_int_map_witness:
  "tbl_get_int_raw (\<lambda>_. None) (tbl_init_size 8 :: nat hashtbl) 7 = Some None"
  using tbl_get_int_map [of "tbl_init_size 8 :: nat hashtbl" "\<lambda>_. None" 7] by simp

text \<open>C8. \<open>tbl_set_int\<close> implements insertion without overwriting: it always returns, it reports
  \<open>ERR_Again\<close> and keeps the map when the key is present, it adds the pair and reports
  \<open>ERR_None\<close> when the key is absent, growing the table as needed, and when an allocation is
  refused it reports \<open>ERR_OutOfMemory\<close> and leaves the table as it was. The invariant and the
  exactness of the free index are kept. That exactness (\<open>free_exact\<close>) is a condition: removing an entry
  that was alone on its chain breaks it, and \<open>tbl_lost_key\<close> below shows what may follow.\<close>

theorem tbl_set_int_map:
  assumes "tbl_int_inv t" "free_exact t" "may_grow t"
  shows "\<exists>rc t'. tbl_set_int alloc h t k (Some v) = Some (rc, h, t') \<and>
    (if rc = ERR_OutOfMemory then t' = t \<and> (\<exists>n. \<not> alloc n)
     else tbl_int_inv t' \<and> free_exact t'
        \<and> rc = (if tbl_int_map t k = None then ERR_None else ERR_Again)
        \<and> tbl_int_map t' = (if tbl_int_map t k = None then (tbl_int_map t)(k \<mapsto> v) else tbl_int_map t))"
  unfolding tbl_set_int_def tbl_do_set_int_def
  by (rule int_keys.set_map [OF assms(1) free_exact_no_lost [OF inv_tbl_ok [OF assms(1)] assms(2)] assms(3) refl,
        where alloc = alloc and h = h and v = v]) (use assms(2) in auto)

theorem tbl_set_int_map_witness:
  "\<exists>rc t'. tbl_set_int (\<lambda>_. True) (\<lambda>_. None) (tbl_init_size 8 :: nat hashtbl) 7 (Some 5) = Some (rc, \<lambda>_. None, t')
     \<and> tbl_int_map t' 7 = Some 5"
  using tbl_set_int_map [of "tbl_init_size 8 :: nat hashtbl" "\<lambda>_. True" "\<lambda>_. None" 7 5]
  by (auto split: if_splits)

text \<open>\<open>tbl_update_int\<close> implements the update of the map: it always returns, and unless an
  allocation is refused the pair is in the table afterwards and every other key is as before.\<close>

theorem tbl_update_int_map:
  assumes "tbl_int_inv t" "free_exact t" "may_grow t"
  shows "\<exists>rc t'. tbl_update_int alloc h t k (Some v) = Some (rc, h, t') \<and>
    (rc = ERR_OutOfMemory \<and> t' = t \<and> (\<exists>n. \<not> alloc n) \<or>
     rc = ERR_None \<and> tbl_int_inv t' \<and> tbl_int_map t' = (tbl_int_map t)(k \<mapsto> v))"
  unfolding tbl_update_int_def tbl_do_set_int_def
  by (rule int_keys.update_map [OF assms(1) free_exact_no_lost [OF inv_tbl_ok [OF assms(1)] assms(2)] assms(3) refl,
        where alloc = alloc and h = h and v = v]) (auto simp: int_good_def)

theorem tbl_update_int_map_witness:
  "\<exists>rc t'. tbl_update_int (\<lambda>_. True) (\<lambda>_. None) (tbl_init_size 8 :: nat hashtbl) 7 (Some 5) = Some (rc, \<lambda>_. None, t')
     \<and> tbl_int_map t' 7 = Some 5"
  using tbl_update_int_map [of "tbl_init_size 8 :: nat hashtbl" "\<lambda>_. True" "\<lambda>_. None" 7 5] by auto

text \<open>C9. \<open>tbl_remove_int\<close> implements removal from the map when no other key of the table has the
  hash of the removed key: it returns, reports whether the key was there, and removes exactly
  that key.\<close>

theorem tbl_remove_int_map:
  assumes "tbl_int_inv t"
    and "\<And>k'. tbl_int_map t k' \<noteq> None \<Longrightarrow> hash_int64 k' = hash_int64 k \<Longrightarrow> k' = k"
  shows "\<exists>t'. tbl_remove_int h t k = Some (if tbl_int_map t k = None then ERR_NotFound else ERR_None, h, t')
    \<and> tbl_int_inv t' \<and> tbl_int_map t' = (tbl_int_map t)(k := None)"
  unfolding tbl_remove_int_def
  by (rule int_keys.remove_map [OF assms(1) TrueI assms(2), where h = h])
    (use assms(1) in \<open>auto simp: fun_eq_iff\<close>)

theorem tbl_remove_int_map_witness:
  "\<exists>t t'. tbl_set_int (\<lambda>_. True) (\<lambda>_. None) (tbl_init_size 8 :: nat hashtbl) 7 (Some 5) = Some (ERR_None, \<lambda>_. None, t)
     \<and> tbl_remove_int (\<lambda>_. None) t 7 = Some (ERR_None, \<lambda>_. None, t') \<and> tbl_int_map t' 7 = None"
proof -
  obtain t where t: "tbl_set_int (\<lambda>_. True) (\<lambda>_. None) (tbl_init_size 8 :: nat hashtbl) 7 (Some 5) = Some (ERR_None, \<lambda>_. None, t)"
    "tbl_int_inv t" "tbl_int_map t = [7 \<mapsto> 5]"
    using tbl_set_int_init [where h = "\<lambda>_. None" and k = 7 and v = "5 :: nat"] by (elim exE conjE)
  have c: "k' = 7" if "tbl_int_map t k' \<noteq> None" "hash_int64 k' = hash_int64 7" for k'
    using that(1) t(3) by (auto split: if_splits)
  obtain t' where "tbl_remove_int (\<lambda>_. None) t 7 =
      Some (if tbl_int_map t 7 = None then ERR_NotFound else ERR_None, \<lambda>_. None, t')"
    "tbl_int_map t' = (tbl_int_map t)(7 := None)"
    using tbl_remove_int_map [OF t(2) c, of "\<lambda>_. None"] by blast
  then have "tbl_remove_int (\<lambda>_. None) t 7 = Some (ERR_None, \<lambda>_. None, t') \<and> tbl_int_map t' 7 = None"
    using t(3) by simp
  then show ?thesis using t(1) by blast
qed

text \<open>C10. Removing a key that is not in the table while another key with the same hash is: the loop
  of \<open>tbl_remove_impl\<close> repeats the same iteration, and the call never returns. Such pairs
  of keys exist, since the hash ignores bits 24 to 31 of \<open>key + 1\<close>.\<close>

theorem tbl_remove_int_diverges:
  assumes "tbl_int_inv t" "tbl_int_map t k = None"
    and "tbl_int_map t k' \<noteq> None" "hash_int64 k' = hash_int64 k"
  shows "tbl_remove_int h t k = None"
  unfolding tbl_remove_int_def using int_keys.remove_diverges [OF assms(1) TrueI assms(2-4)] .

theorem tbl_remove_int_diverges_witness:
  "\<exists>t. tbl_set_int (\<lambda>_. True) (\<lambda>_. None) (tbl_init_size 8 :: nat hashtbl) 0 (Some 5) = Some (ERR_None, \<lambda>_. None, t)
     \<and> tbl_remove_int (\<lambda>_. None) t 0x1000000 = None"
proof -
  obtain t where t: "tbl_set_int (\<lambda>_. True) (\<lambda>_. None) (tbl_init_size 8 :: nat hashtbl) 0 (Some 5) = Some (ERR_None, \<lambda>_. None, t)"
    "tbl_int_inv t" "tbl_int_map t = [0 \<mapsto> 5]"
    using tbl_set_int_init [where h = "\<lambda>_. None" and k = 0 and v = "5 :: nat"] by (elim exE conjE)
  have "tbl_int_map t 0x1000000 = None" "tbl_int_map t 0 \<noteq> None" by (simp_all add: t(3))
  from tbl_remove_int_diverges [OF t(2) this hash_int64_collision_example]
  have "tbl_remove_int (\<lambda>_. None) t 0x1000000 = None" .
  then show ?thesis using t(1) by blast
qed

section \<open>String keys\<close>

text \<open>
  A string key is a live, non-\<open>NULL\<close> buffer that holds its bytes and no \<open>NUL\<close>. The bytes
  themselves are the key of the map.
\<close>

definition str_valid :: "u8 list \<Rightarrow> bool" where
  "str_valid bs \<longleftrightarrow> length bs < 2 ^ 32 \<and> 0 \<notin> set bs"

definition str_raw :: "sheap \<Rightarrow> u8 list \<Rightarrow> u64 \<Rightarrow> bool" where
  "str_raw h bs p \<longleftrightarrow> p \<noteq> 0 \<and> str_valid bs \<and>
     (\<exists>b. h p = Some b \<and> sb_bytes b = bs \<and> sb_len b = of_nat (length bs))"

definition str_hash :: "u8 list \<Rightarrow> u32" where
  "str_hash bs = hash_str bs (of_nat (length bs))"

definition str_look :: "u8 list \<Rightarrow> lookup_key" where
  "str_look bs = KeyStr bs (of_nat (length bs))"

definition str_kv :: "sheap \<Rightarrow> 'v hent \<Rightarrow> u8 list" where
  "str_kv h e = sbuf_str h (ent_key e)"

definition str_good :: "sheap \<Rightarrow> 'v hent \<Rightarrow> bool" where
  "str_good h e \<longleftrightarrow> \<not> ent_is_int_key e \<and> str_raw h (str_kv h e) (ent_key e) \<and> ent_hash e = str_hash (str_kv h e)"

lemma str_raw_reads:
  assumes "str_raw h bs p"
  shows "sbuf_str h p = bs" "sbuf_length h p = of_nat (length bs)"
  using assms by (auto simp: str_raw_def sbuf_str_def sbuf_length_def)

lemma str_valid_eq:
  assumes "str_valid a" "str_valid b"
  shows "(of_nat (length a) :: u32) = of_nat (length b) \<and> strncmp_eq a b (unat (of_nat (length b) :: u32)) \<longleftrightarrow> a = b"
proof -
  have u: "unat (of_nat (length a) :: u32) = length a" "unat (of_nat (length b) :: u32) = length b"
    using assms by (auto simp: str_valid_def intro!: unat_of_nat_small)
  have "(of_nat (length a) :: u32) = of_nat (length b) \<longleftrightarrow> length a = length b" using u by metis
  then show ?thesis using u assms strncmp_eq_iff [of a b "length b"]
    by (auto simp: str_valid_def)
qed

lemma str_key_eq:
  assumes "str_raw h a p" "str_valid b"
  shows "sbuf_length h p = of_nat (length b) \<and> strncmp_eq (sbuf_str h p) b (unat (of_nat (length b) :: u32)) \<longleftrightarrow> a = b"
  using str_valid_eq [of a b] assms str_raw_reads [OF assms(1)] by (auto simp: str_raw_def)

interpretation str_keys: table_keys h False "str_good h" "str_kv h" str_look str_hash "str_raw h" str_valid for h
proof unfold_locales
  show "link_free (str_good h)" "link_free (str_kv h)"
    by (auto simp: link_free_def str_good_def str_kv_def)
next
  fix e :: "'v hent" and k key
  show "key_is_int (str_look k) = False" by (simp add: str_look_def)
  assume g: "str_good h e"
  then show "ent_hash e = str_hash (str_kv h e)" "ent_is_int_key e = False" by (auto simp: str_good_def)
  show "key_eq h (str_look k) e = (str_kv h e = k)" if "str_valid k"
    using g str_key_eq [OF _ that] by (auto simp: str_look_def str_good_def)
  show "set_key_matches h key False (str_hash k) e = (str_kv h e = k)" if r: "str_raw h k key"
  proof -
    have v: "str_valid k" using r by (simp add: str_raw_def)
    have "set_key_matches h key False (str_hash k) e \<longleftrightarrow> str_hash (str_kv h e) = str_hash k
        \<and> (ent_key e = key \<or> str_kv h e = k)"
      using g str_key_eq [OF _ v, of h "str_kv h e" "ent_key e"]
      by (auto simp: set_key_matches_def str_good_def str_raw_reads [OF r] Let_def)
    also have "\<dots> \<longleftrightarrow> str_kv h e = k" using str_raw_reads(1) [OF r] by (auto simp: str_kv_def)
    finally show ?thesis .
  qed
next
  fix k key assume r: "str_raw h k key"
  then show "key \<noteq> 0 \<or> str_hash k \<noteq> 0" by (simp add: str_raw_def)
  fix e :: "'v hent"
  assume "ent_key e = key" "ent_hash e = str_hash k" "ent_is_int_key e = False"
  then show "str_good h e \<and> str_kv h e = k" using r str_raw_reads(1) [OF r] by (auto simp: str_good_def str_kv_def)
qed

text \<open>The invariant and the map of a table of string keys, relative to the heap of buffers.\<close>

abbreviation tbl_str_inv :: "sheap \<Rightarrow> 'v hashtbl \<Rightarrow> bool" where
  "tbl_str_inv h t \<equiv> tbl_inv (str_good h) (str_kv h) t"

abbreviation tbl_str_map :: "sheap \<Rightarrow> 'v hashtbl \<Rightarrow> u8 list \<Rightarrow> 'v option" where
  "tbl_str_map h t \<equiv> tbl_map (str_kv h) t"

text \<open>A heap in which the buffers of the stored keys read as before gives the same map.\<close>

lemma str_heap_change:
  assumes "\<forall>e \<in># stored (tbl_data t). str_good h e \<longrightarrow>
      str_good h' (e :: 'v hent) \<and> sbuf_str h' (ent_key e) = sbuf_str h (ent_key e)"
    and inv: "tbl_str_inv h t"
  shows "tbl_str_inv h' t \<and> tbl_str_map h' t = tbl_str_map h t"
proof -
  have good: "\<forall>e \<in># stored (tbl_data t). str_good h e" using inv str_keys.inv_stored by blast
  have "\<forall>e \<in> set (filter (\<lambda>e. \<not> ent_is_empty e) (tbl_data t)). sbuf_str h' (ent_key e) = sbuf_str h (ent_key e)"
    using assms(1) good by (auto simp: stored_def)
  then have p: "tbl_pairs (str_kv h') t = tbl_pairs (str_kv h) t"
    by (auto simp: tbl_pairs_def str_kv_def)
  then show ?thesis
    using assms(1) good inv unfolding str_keys.inv_stored tbl_map_def by auto
qed

lemma str_good_fresh:
  assumes "\<And>q. q \<noteq> p \<Longrightarrow> h' q = h q" "ent_key e \<noteq> p"
  shows "str_good h' e = str_good h e" "sbuf_str h' (ent_key e) = sbuf_str h (ent_key e)"
  using assms by (auto simp: str_good_def str_kv_def str_raw_def sbuf_str_def)

text \<open>Allocating or freeing a buffer that holds no key of the table.\<close>

lemma str_heap_fresh:
  assumes "tbl_str_inv h t" "\<And>q. q \<noteq> p \<Longrightarrow> h' q = h q"
    and "\<forall>e \<in># stored (tbl_data (t :: 'v hashtbl)). ent_key e \<noteq> p"
  shows "tbl_str_inv h' t" "tbl_str_map h' t = tbl_str_map h t"
proof -
  have "str_good h' e = str_good h e \<and> sbuf_str h' (ent_key e) = sbuf_str h (ent_key e)"
    if "e \<in># stored (tbl_data t)" for e
    using str_good_fresh [of p h' h e, OF assms(2)] assms(3) that by simp
  then show "tbl_str_inv h' t" "tbl_str_map h' t = tbl_str_map h t"
    using str_heap_change [OF _ assms(1), of h'] by blast+
qed

lemma str_good_live: "str_good h e \<Longrightarrow> h (ent_key e) \<noteq> None"
  by (auto simp: str_good_def str_raw_def)

lemma str_key_len_valid:
  assumes "str_valid bs"
  shows "str_key_len bs 0 = of_nat (length bs)"
proof -
  have "takeWhile (\<lambda>c. c \<noteq> 0) bs = bs" using assms by (auto simp: str_valid_def takeWhile_eq_all_conv)
  then have "length (takeWhile (\<lambda>c. c \<noteq> 0) bs) = length bs" by (rule arg_cong)
  then show ?thesis by (simp add: str_key_len_def)
qed

lemma tbl_set_str_eq:
  assumes "str_valid bs" "addr \<noteq> 0"
  shows "tbl_set_str alloc addr h t (Some bs) 0 (Some v) =
    Option.bind (tbl_set_impl alloc (h(addr \<mapsto> \<lparr>sb_refCount = 1, sb_len = of_nat (length bs), sb_bytes = bs\<rparr>)) t addr
        False (Some v) (str_hash bs) False)
      (\<lambda>(rc, h, t). Some (rc, sbuf_drop h addr, t))"
proof -
  have "unat (of_nat (length bs) :: u32) = length bs"
    using assms(1) by (intro unat_of_nat_small) (simp add: str_valid_def)
  then show ?thesis using assms(2)
    by (simp add: tbl_set_str_def tbl_do_set_str_def str_key_len_valid [OF assms(1)] sbuf_create_def
        sbuf_grab_def str_hash_def Let_def)
qed

lemma set_str_ok:
  assumes "tbl_str_inv h t" "free_exact t" "may_grow t" "str_valid bs" "addr \<noteq> 0" "h addr = None"
  shows "\<exists>rc h' t'. tbl_set_str alloc addr h t (Some bs) 0 (Some v) = Some (rc, h', t') \<and>
    (if rc = ERR_OutOfMemory then t' = t \<and> h' = h \<and> (\<exists>n. \<not> alloc n)
     else tbl_str_inv h' t' \<and> free_exact t'
        \<and> rc = (if tbl_str_map h t bs = None then ERR_None else ERR_Again)
        \<and> h' = (if tbl_str_map h t bs = None
               then h(addr \<mapsto> \<lparr>sb_refCount = 1, sb_len = of_nat (length bs), sb_bytes = bs\<rparr>) else h)
        \<and> tbl_str_map h' t' =
            (if tbl_str_map h t bs = None then (tbl_str_map h t)(bs \<mapsto> v) else tbl_str_map h t))"
proof -
  let ?b = "\<lparr>sb_refCount = 1, sb_len = of_nat (length bs), sb_bytes = bs\<rparr>"
  let ?h = "h(addr \<mapsto> ?b)"
  note eq = tbl_set_str_eq [OF assms(4,5), of alloc h t v]
  have dr: "sbuf_drop ?h addr = h" using assms(5,6) by (auto simp: sbuf_drop_def fun_eq_iff)
  have gr: "sbuf_drop (sbuf_grab ?h addr) addr = ?h"
    using assms(5) by (intro sbuf_grab_drop [where b = ?b]) simp_all
  have away: "\<forall>e \<in># stored (tbl_data t). ent_key e \<noteq> addr"
    using assms(1,6) str_good_live unfolding str_keys.inv_stored by blast
  have inv: "tbl_str_inv ?h t" "tbl_str_map ?h t = tbl_str_map h t"
    using str_heap_fresh [OF assms(1), of addr ?h] away by auto
  have raw: "str_raw ?h bs addr" using assms(4,5) by (simp add: str_raw_def)
  note nl = free_exact_no_lost [OF inv_tbl_ok [OF assms(1)] assms(2)]
  show ?thesis
  proof (rule str_keys.set_map [OF inv(1) nl assms(3) raw, where alloc = alloc and v = v])
    assume "tbl_set_impl alloc ?h t addr False (Some v) (str_hash bs) False = Some (ERR_OutOfMemory, ?h, t)"
      "\<exists>n. \<not> alloc n"
    then show ?thesis using eq dr by simp
  next
    fix t' assume a: "tbl_str_map ?h t bs = None"
      "tbl_set_impl alloc ?h t addr False (Some v) (str_hash bs) False =
        Some (ERR_None, if False then ?h else sbuf_grab ?h addr, t')"
      "tbl_str_inv ?h t'" "free_exact t \<Longrightarrow> free_exact t'" "tbl_str_map ?h t' = (tbl_str_map ?h t)(bs \<mapsto> v)"
    have "tbl_set_str alloc addr h t (Some bs) 0 (Some v) = Some (ERR_None, ?h, t')" using eq a(2) gr by simp
    then show ?thesis using a assms(2) inv(2) by (intro exI [of _ ERR_None] exI [of _ ?h] exI [of _ t']) simp
  next
    fix t' assume a: "tbl_str_map ?h t bs \<noteq> None"
      "tbl_set_impl alloc ?h t addr False (Some v) (str_hash bs) False = Some (ERR_Again, ?h, t')"
      "tbl_str_inv ?h t'" "free_exact t \<Longrightarrow> free_exact t'" "tbl_str_map ?h t' = tbl_str_map ?h t"
      "stored (tbl_data t') = stored (tbl_data t)"
    have "tbl_set_str alloc addr h t (Some bs) 0 (Some v) = Some (ERR_Again, h, t')" using eq a(2) dr by simp
    moreover have "tbl_str_inv h t'" "tbl_str_map h t' = tbl_str_map ?h t'"
      using str_heap_fresh [OF a(3), of addr h] away a(6) by auto
    ultimately show ?thesis using a assms(2) inv(2)
      by (intro exI [of _ ERR_Again] exI [of _ h] exI [of _ t']) auto
  qed
qed

text \<open>C11. \<open>tbl_set_str\<close> with a new key copies the key into a buffer of its own that the table alone
  keeps alive; with a key that is present it reports \<open>ERR_Again\<close> and frees the copy; the
  strings of the other keys are untouched. The map of byte strings to values changes exactly
  as insertion without overwriting does. As in C8 the free index has to be exact, which the removal of an
  entry that was alone on its chain breaks.\<close>

theorem tbl_set_str_map:
  assumes "tbl_str_inv h t" "free_exact t" "may_grow t" "str_valid bs" "addr \<noteq> 0" "h addr = None"
  shows "\<exists>rc h' t'. tbl_set_str alloc addr h t (Some bs) 0 (Some v) = Some (rc, h', t') \<and>
    (if rc = ERR_OutOfMemory then t' = t \<and> h' = h \<and> (\<exists>n. \<not> alloc n)
     else tbl_str_inv h' t' \<and> free_exact t'
        \<and> rc = (if tbl_str_map h t bs = None then ERR_None else ERR_Again)
        \<and> h' = (if tbl_str_map h t bs = None
               then h(addr \<mapsto> \<lparr>sb_refCount = 1, sb_len = of_nat (length bs), sb_bytes = bs\<rparr>) else h)
        \<and> tbl_str_map h' t' =
            (if tbl_str_map h t bs = None then (tbl_str_map h t)(bs \<mapsto> v) else tbl_str_map h t))"
  using set_str_ok [OF assms] .

theorem tbl_set_str_map_witness:
  "\<exists>rc h' t'. tbl_set_str (\<lambda>_. True) 64 (\<lambda>_. None) (tbl_init_size 8 :: nat hashtbl) (Some [97, 98]) 0 (Some 5) =
      Some (rc, h', t') \<and> tbl_str_map h' t' [97, 98] = Some 5"
proof -
  let ?t = "tbl_init_size 8 :: nat hashtbl" and ?h = "\<lambda>_. None"
  have "tbl_str_inv ?h ?t" "free_exact ?t" "may_grow ?t" "str_valid [97, 98]" "(64 :: u64) \<noteq> 0" "tbl_str_map ?h ?t = Map.empty"
    by (simp_all add: str_valid_def)
  note p = this
  show ?thesis using tbl_set_str_map [OF p(1-5) refl, of "\<lambda>_. True" 5] p(6) by (auto split: if_splits)
qed

lemma get_str_ok:
  assumes "tbl_str_inv h t" "str_valid bs"
  shows "tbl_get_str_raw h t (Some bs) 0 = Some (map_option Some (tbl_str_map h t bs))"
  using str_keys.get_map [OF assms]
  by (simp add: tbl_get_str_raw_def str_key_len_valid [OF assms(2)] str_look_def str_hash_def Let_def)

text \<open>\<open>tbl_get_str\<close> finds a key by its contents, whatever buffer holds it: it terminates and
  returns the value of the map.\<close>

theorem tbl_get_str_map:
  assumes "tbl_str_inv h t" "str_valid bs"
  shows "tbl_get_str_raw h t (Some bs) 0 = Some (map_option Some (tbl_str_map h t bs))"
  using get_str_ok [OF assms] .

theorem tbl_get_str_map_witness:
  "tbl_get_str_raw (\<lambda>_. None) (tbl_init_size 8 :: nat hashtbl) (Some [97]) 0 = Some None"
  using tbl_get_str_map [of "\<lambda>_. None" "tbl_init_size 8 :: nat hashtbl" "[97]"] by (simp add: str_valid_def)

text \<open>C12. \<open>tbl_remove_str\<close>, provided that no other key of the table has the hash of the one to be removed
  (without that the call may never return, as it does for the keys of C10): it returns, and reports whether
  the key was there. If it was, exactly that key is removed, its buffer loses the reference of the table,
  and the other keys keep their strings even when that frees the buffer; if not, nothing changes.\<close>

theorem tbl_remove_str_map:
  fixes t :: "'v hashtbl"
  assumes "tbl_str_inv h t" "str_valid bs"
    and "\<And>k'. tbl_str_map h t k' \<noteq> None \<Longrightarrow> str_hash k' = str_hash bs \<Longrightarrow> k' = bs"
  shows "\<exists>h' t'. tbl_remove_str h t (Some bs) 0 =
      Some (if tbl_str_map h t bs = None then ERR_NotFound else ERR_None, h', t')
    \<and> (if tbl_str_map h t bs = None then h' = h \<and> t' = t
       else \<exists>e \<in># stored (tbl_data t). sbuf_str h (ent_key e) = bs \<and> h' = sbuf_drop h (ent_key e))
    \<and> tbl_str_inv h' t' \<and> tbl_str_map h' t' = (tbl_str_map h t)(bs := None)"
proof -
  have eq: "tbl_remove_str h t (Some bs) 0 = tbl_remove_impl h t (str_look bs) (str_hash bs)"
    by (simp add: tbl_remove_str_def str_key_len_valid [OF assms(2)] str_look_def str_hash_def Let_def)
  show ?thesis
  proof (rule str_keys.remove_map [OF assms])
    assume "tbl_str_map h t bs = None" "tbl_remove_impl h t (str_look bs) (str_hash bs) = Some (ERR_NotFound, h, t)"
    then show ?thesis using eq assms(1) by (auto simp: fun_eq_iff)
  next
    fix h' t' assume a: "tbl_str_map h t bs \<noteq> None"
      "tbl_remove_impl h t (str_look bs) (str_hash bs) = Some (ERR_None, h', t')"
      "\<exists>e \<in># stored (tbl_data t). str_kv h e = bs \<and> h' = (if False then h else sbuf_drop h (ent_key e))"
      "tbl_str_inv h t'" "tbl_str_map h t' = (tbl_str_map h t)(bs := None)"
    from a(3) obtain e :: "'v hent" where e: "e \<in># stored (tbl_data t)" "str_kv h e = bs" "h' = sbuf_drop h (ent_key e)"
      unfolding if_False by blast
    have none: "\<forall>x \<in># stored (tbl_data t'). str_kv h x \<noteq> bs"
      using str_keys.map_None [OF a(4), of bs] a(5) by simp
    have away: "\<forall>x \<in># stored (tbl_data t'). ent_key x \<noteq> ent_key e"
      using none e(2) unfolding str_kv_def by metis
    have "\<And>q. q \<noteq> ent_key e \<Longrightarrow> h' q = h q" by (auto simp: e(3) sbuf_drop_def split: option.splits)
    note f = str_heap_fresh [OF a(4) this away]
    have "\<exists>e \<in># stored (tbl_data t). sbuf_str h (ent_key e) = bs \<and> h' = sbuf_drop h (ent_key e)"
      using e unfolding str_kv_def by blast
    then show ?thesis using a(1,2,5) eq f by auto
  qed
qed

text \<open>Two strings are inserted, and the first is removed again: its buffer at 64 is freed.\<close>

definition demo_buffer :: "u8 list \<Rightarrow> sbuf" where
  "demo_buffer bs = \<lparr>sb_refCount = 1, sb_len = of_nat (length bs), sb_bytes = bs\<rparr>"

lemma demo_strings:
  obtains t1 t2 where
    "tbl_set_str (\<lambda>_. True) 64 (\<lambda>_. None) (tbl_init_size 8 :: nat hashtbl) (Some [97, 98]) 0 (Some 5) =
      Some (ERR_None, [64 \<mapsto> demo_buffer [97, 98]], t1)"
    "tbl_set_str (\<lambda>_. True) 128 [64 \<mapsto> demo_buffer [97, 98]] t1 (Some [99]) 0 (Some 6) =
      Some (ERR_None, [64 \<mapsto> demo_buffer [97, 98], 128 \<mapsto> demo_buffer [99]], t2)"
    "tbl_str_inv [64 \<mapsto> demo_buffer [97, 98], 128 \<mapsto> demo_buffer [99]] t2"
    "tbl_str_map [64 \<mapsto> demo_buffer [97, 98], 128 \<mapsto> demo_buffer [99]] t2 = [[97, 98] \<mapsto> 5, [99] \<mapsto> 6]"
proof -
  let ?t = "tbl_init_size 8 :: nat hashtbl" and ?h = "\<lambda>_ :: u64. None :: sbuf option" and ?h1 = "[64 :: u64 \<mapsto> demo_buffer [97, 98]]"
  have v: "str_valid [97, 98]" "str_valid [99]" "(64 :: u64) \<noteq> 0" "(128 :: u64) \<noteq> 0" by (simp_all add: str_valid_def)
  have e: "tbl_str_inv ?h ?t" "free_exact ?t" "may_grow ?t" "tbl_str_map ?h ?t = Map.empty" by simp_all
  obtain t1 where t1: "tbl_set_str (\<lambda>_. True) 64 ?h ?t (Some [97, 98]) 0 (Some 5) = Some (ERR_None, ?h1, t1)"
    "tbl_str_inv ?h1 t1" "free_exact t1" "tbl_str_map ?h1 t1 = [[97, 98] \<mapsto> 5]"
    using set_str_ok [OF e(1-3) v(1,3) refl, where alloc = "\<lambda>_. True" and v = 5, folded demo_buffer_def] e(4)
    by (auto split: if_splits)
  have "map_option (\<lambda>(rc, h, t). length (tbl_data t)) (tbl_set_str (\<lambda>_. True) 64 ?h ?t (Some [97, 98]) 0 (Some 5)) = Some 4"
    by code_simp
  then have g: "may_grow t1" by (simp add: t1(1) may_grow_def)
  obtain t2 where "tbl_set_str (\<lambda>_. True) 128 ?h1 t1 (Some [99]) 0 (Some 6) = Some (ERR_None, ?h1(128 \<mapsto> demo_buffer [99]), t2)"
    "tbl_str_inv (?h1(128 \<mapsto> demo_buffer [99])) t2" "tbl_str_map (?h1(128 \<mapsto> demo_buffer [99])) t2 = [[97, 98] \<mapsto> 5, [99] \<mapsto> 6]"
    using set_str_ok [OF t1(2,3) g v(2,4), where alloc = "\<lambda>_. True" and v = 6, folded demo_buffer_def] t1(4)
    by (auto split: if_splits)
  then show ?thesis using that t1(1) by blast
qed

theorem tbl_remove_str_map_witness:
  "\<exists>t1 t2 h3 t3. tbl_set_str (\<lambda>_. True) 64 (\<lambda>_. None) (tbl_init_size 8 :: nat hashtbl) (Some [97, 98]) 0 (Some 5) =
      Some (ERR_None, [64 \<mapsto> demo_buffer [97, 98]], t1)
    \<and> tbl_set_str (\<lambda>_. True) 128 [64 \<mapsto> demo_buffer [97, 98]] t1 (Some [99]) 0 (Some 6) =
      Some (ERR_None, [64 \<mapsto> demo_buffer [97, 98], 128 \<mapsto> demo_buffer [99]], t2)
    \<and> tbl_remove_str [64 \<mapsto> demo_buffer [97, 98], 128 \<mapsto> demo_buffer [99]] t2 (Some [97, 98]) 0 = Some (ERR_None, h3, t3)
    \<and> h3 = [128 \<mapsto> demo_buffer [99]] \<and> tbl_str_map h3 t3 = [[99] \<mapsto> 6]"
proof (rule demo_strings)
  fix t1 t2
  let ?h = "[64 :: u64 \<mapsto> demo_buffer [97, 98], 128 \<mapsto> demo_buffer [99]]"
  assume t: "tbl_set_str (\<lambda>_. True) 64 (\<lambda>_. None) (tbl_init_size 8 :: nat hashtbl) (Some [97, 98]) 0 (Some 5) =
      Some (ERR_None, [64 \<mapsto> demo_buffer [97, 98]], t1)"
    "tbl_set_str (\<lambda>_. True) 128 [64 \<mapsto> demo_buffer [97, 98]] t1 (Some [99]) 0 (Some 6) = Some (ERR_None, ?h, t2)"
    "tbl_str_inv ?h t2" "tbl_str_map ?h t2 = [[97, 98] \<mapsto> 5, [99] \<mapsto> 6]"
  have "str_hash [99] \<noteq> str_hash [97, 98]" by code_simp
  then have c: "k' = [97, 98]" if "tbl_str_map ?h t2 k' \<noteq> None" "str_hash k' = str_hash [97, 98]" for k'
    using that unfolding t(4) by (auto split: if_splits)
  have v: "str_valid [97, 98]" by (simp add: str_valid_def)
  obtain h3 t3 e where r: "tbl_remove_str ?h t2 (Some [97, 98]) 0 = Some (ERR_None, h3, t3)"
    "sbuf_str ?h (ent_key e) = [97, 98]" "h3 = sbuf_drop ?h (ent_key (e :: nat hent))" "tbl_str_map h3 t3 = (tbl_str_map ?h t2)([97, 98] := None)"
    using tbl_remove_str_map [OF t(3) v c] by (auto simp: t(4))
  have "ent_key e = 64" using r(2) by (auto simp: sbuf_str_def demo_buffer_def split: if_splits option.splits)
  then have "h3 = [128 \<mapsto> demo_buffer [99]]" by (auto simp: r(3) sbuf_drop_def demo_buffer_def fun_eq_iff)
  moreover have "tbl_str_map h3 t3 = [[99] \<mapsto> 6]" unfolding r(4) t(4) by (auto simp: fun_eq_iff)
  ultimately show ?thesis using t(1,2) r(1) by blast
qed

section \<open>A key lost by growing\<close>

text \<open>
  A removed entry that was alone on its chain does not move the free index. When the table was
  full, the index still says so, the next insertion into an occupied slot grows the table, and
  the rehashing copies the freed slot as if it held a key. The zeroed entry may then become part
  of a chain that a later removal rebuilds around it: here key 39 is inserted, key 7 removed, and
  key 39 is not found any more.
\<close>

datatype tbl_op = PutInt u64 | RemInt u64

fun run_ops :: "tbl_op list \<Rightarrow> nat hashtbl \<Rightarrow> nat hashtbl option" where
  "run_ops [] t = Some t"
| "run_ops (PutInt k # xs) t =
     Option.bind (tbl_set_int (\<lambda>_. True) Map.empty t k (Some 1)) (\<lambda>(_, _, t'). run_ops xs t')"
| "run_ops (RemInt k # xs) t = Option.bind (tbl_remove_int Map.empty t k) (\<lambda>(_, _, t'). run_ops xs t')"

lemma tbl_lost_key:
  "map_option (\<lambda>t. tbl_get_int_raw Map.empty t 39)
     (run_ops [PutInt 29, PutInt 35, PutInt 7, PutInt 3, RemInt 29, PutInt 39] (tbl_init_size 8)) = Some (Some (Some (Some 1)))"
  "map_option (\<lambda>t. tbl_get_int_raw Map.empty t 39)
     (run_ops [PutInt 29, PutInt 35, PutInt 7, PutInt 3, RemInt 29, PutInt 39, RemInt 7] (tbl_init_size 8)) = Some (Some None)"
  by code_simp+

end
