(* ===== verification/Zeq_Crc.thy ===== *)
theory Zeq_Crc
  imports Zeq_Prelude
begin

text \<open>
  \<open>src/crc.c\<close>: the table-driven CRC-32 that protects every packet of the game protocol. The
  table is the literal of the source; the lemmas show that it is the reflected polynomial
  \<open>0xEDB88320\<close>, and that the byte-wise loop computes the bit-wise division.
\<close>

section \<open>The table and the loop\<close>

definition s_CrcTable :: "u32 list" where
  "s_CrcTable = [
    0x00000000, 0x77073096, 0xEE0E612C, 0x990951BA, 0x076DC419, 0x706AF48F, 0xE963A535, 0x9E6495A3,
    0x0EDB8832, 0x79DCB8A4, 0xE0D5E91E, 0x97D2D988, 0x09B64C2B, 0x7EB17CBD, 0xE7B82D07, 0x90BF1D91,
    0x1DB71064, 0x6AB020F2, 0xF3B97148, 0x84BE41DE, 0x1ADAD47D, 0x6DDDE4EB, 0xF4D4B551, 0x83D385C7,
    0x136C9856, 0x646BA8C0, 0xFD62F97A, 0x8A65C9EC, 0x14015C4F, 0x63066CD9, 0xFA0F3D63, 0x8D080DF5,
    0x3B6E20C8, 0x4C69105E, 0xD56041E4, 0xA2677172, 0x3C03E4D1, 0x4B04D447, 0xD20D85FD, 0xA50AB56B,
    0x35B5A8FA, 0x42B2986C, 0xDBBBC9D6, 0xACBCF940, 0x32D86CE3, 0x45DF5C75, 0xDCD60DCF, 0xABD13D59,
    0x26D930AC, 0x51DE003A, 0xC8D75180, 0xBFD06116, 0x21B4F4B5, 0x56B3C423, 0xCFBA9599, 0xB8BDA50F,
    0x2802B89E, 0x5F058808, 0xC60CD9B2, 0xB10BE924, 0x2F6F7C87, 0x58684C11, 0xC1611DAB, 0xB6662D3D,
    0x76DC4190, 0x01DB7106, 0x98D220BC, 0xEFD5102A, 0x71B18589, 0x06B6B51F, 0x9FBFE4A5, 0xE8B8D433,
    0x7807C9A2, 0x0F00F934, 0x9609A88E, 0xE10E9818, 0x7F6A0DBB, 0x086D3D2D, 0x91646C97, 0xE6635C01,
    0x6B6B51F4, 0x1C6C6162, 0x856530D8, 0xF262004E, 0x6C0695ED, 0x1B01A57B, 0x8208F4C1, 0xF50FC457,
    0x65B0D9C6, 0x12B7E950, 0x8BBEB8EA, 0xFCB9887C, 0x62DD1DDF, 0x15DA2D49, 0x8CD37CF3, 0xFBD44C65,
    0x4DB26158, 0x3AB551CE, 0xA3BC0074, 0xD4BB30E2, 0x4ADFA541, 0x3DD895D7, 0xA4D1C46D, 0xD3D6F4FB,
    0x4369E96A, 0x346ED9FC, 0xAD678846, 0xDA60B8D0, 0x44042D73, 0x33031DE5, 0xAA0A4C5F, 0xDD0D7CC9,
    0x5005713C, 0x270241AA, 0xBE0B1010, 0xC90C2086, 0x5768B525, 0x206F85B3, 0xB966D409, 0xCE61E49F,
    0x5EDEF90E, 0x29D9C998, 0xB0D09822, 0xC7D7A8B4, 0x59B33D17, 0x2EB40D81, 0xB7BD5C3B, 0xC0BA6CAD,
    0xEDB88320, 0x9ABFB3B6, 0x03B6E20C, 0x74B1D29A, 0xEAD54739, 0x9DD277AF, 0x04DB2615, 0x73DC1683,
    0xE3630B12, 0x94643B84, 0x0D6D6A3E, 0x7A6A5AA8, 0xE40ECF0B, 0x9309FF9D, 0x0A00AE27, 0x7D079EB1,
    0xF00F9344, 0x8708A3D2, 0x1E01F268, 0x6906C2FE, 0xF762575D, 0x806567CB, 0x196C3671, 0x6E6B06E7,
    0xFED41B76, 0x89D32BE0, 0x10DA7A5A, 0x67DD4ACC, 0xF9B9DF6F, 0x8EBEEFF9, 0x17B7BE43, 0x60B08ED5,
    0xD6D6A3E8, 0xA1D1937E, 0x38D8C2C4, 0x4FDFF252, 0xD1BB67F1, 0xA6BC5767, 0x3FB506DD, 0x48B2364B,
    0xD80D2BDA, 0xAF0A1B4C, 0x36034AF6, 0x41047A60, 0xDF60EFC3, 0xA867DF55, 0x316E8EEF, 0x4669BE79,
    0xCB61B38C, 0xBC66831A, 0x256FD2A0, 0x5268E236, 0xCC0C7795, 0xBB0B4703, 0x220216B9, 0x5505262F,
    0xC5BA3BBE, 0xB2BD0B28, 0x2BB45A92, 0x5CB36A04, 0xC2D7FFA7, 0xB5D0CF31, 0x2CD99E8B, 0x5BDEAE1D,
    0x9B64C2B0, 0xEC63F226, 0x756AA39C, 0x026D930A, 0x9C0906A9, 0xEB0E363F, 0x72076785, 0x05005713,
    0x95BF4A82, 0xE2B87A14, 0x7BB12BAE, 0x0CB61B38, 0x92D28E9B, 0xE5D5BE0D, 0x7CDCEFB7, 0x0BDBDF21,
    0x86D3D2D4, 0xF1D4E242, 0x68DDB3F8, 0x1FDA836E, 0x81BE16CD, 0xF6B9265B, 0x6FB077E1, 0x18B74777,
    0x88085AE6, 0xFF0F6A70, 0x66063BCA, 0x11010B5C, 0x8F659EFF, 0xF862AE69, 0x616BFFD3, 0x166CCF45,
    0xA00AE278, 0xD70DD2EE, 0x4E048354, 0x3903B3C2, 0xA7672661, 0xD06016F7, 0x4969474D, 0x3E6E77DB,
    0xAED16A4A, 0xD9D65ADC, 0x40DF0B66, 0x37D83BF0, 0xA9BCAE53, 0xDEBB9EC5, 0x47B2CF7F, 0x30B5FFE9,
    0xBDBDF21C, 0xCABAC28A, 0x53B39330, 0x24B4A3A6, 0xBAD03605, 0xCDD70693, 0x54DE5729, 0x23D967BF,
    0xB3667A2E, 0xC4614AB8, 0x5D681B02, 0x2A6F2B94, 0xB40BBE37, 0xC30C8EA1, 0x5A05DF1B, 0x2D02EF8D]"

definition crc_step :: "u32 \<Rightarrow> u8 \<Rightarrow> u32" where
  "crc_step crc b = drop_bit 8 crc XOR s_CrcTable ! unat (ucast b XOR (crc AND 0xff))"

definition crc_update :: "u8 list \<Rightarrow> u32 \<Rightarrow> u32" where
  "crc_update data crc = foldl crc_step crc data"

text \<open>The bytes of the key as they lie in memory on the little-endian targets of the build.\<close>

definition key_bytes :: "u32 \<Rightarrow> u8 list" where
  "key_bytes key = [ucast key, ucast (drop_bit 8 key), ucast (drop_bit 16 key), ucast (drop_bit 24 key)]"

definition crc_calc16 :: "u8 list \<Rightarrow> u32 \<Rightarrow> u16" where
  "crc_calc16 data key =
     (if key = 0 then 0
      else let crc = crc_update (key_bytes key) 0xffffffff;
               crc = crc_update data crc
           in ucast (NOT crc AND 0xffff))"

text \<open>\<open>htons\<close> and \<open>htonl\<close> on those targets.\<close>

definition to_network_uint16 :: "u16 \<Rightarrow> u16" where
  "to_network_uint16 v = push_bit 8 v OR drop_bit 8 v"

definition to_network_uint32 :: "u32 \<Rightarrow> u32" where
  "to_network_uint32 v =
     push_bit 24 v OR (push_bit 8 v AND 0xff0000) OR (drop_bit 8 v AND 0xff00) OR drop_bit 24 v"

definition crc_calc16_network :: "u8 list \<Rightarrow> u32 \<Rightarrow> u16" where
  "crc_calc16_network data key = to_network_uint16 (crc_calc16 data key)"

definition crc_calc32 :: "u8 list \<Rightarrow> u32" where
  "crc_calc32 data = NOT (crc_update data 0xffffffff)"

definition crc_calc32_network :: "u8 list \<Rightarrow> u32" where
  "crc_calc32_network data = to_network_uint32 (crc_calc32 data)"

section \<open>The polynomial\<close>

text \<open>One bit of the division by the reflected polynomial, and a byte of it.\<close>

definition crc_bit :: "u32 \<Rightarrow> u32" where
  "crc_bit c = (if bit c 0 then drop_bit 1 c XOR 0xEDB88320 else drop_bit 1 c)"

definition crc_poly_step :: "u32 \<Rightarrow> u8 \<Rightarrow> u32" where
  "crc_poly_step crc b = (crc_bit ^^ 8) (crc XOR ucast b)"

text \<open>The division is linear, so a byte of it splits into the low and the high bits.\<close>

lemma crc_bit_xor: "crc_bit (x XOR y) = crc_bit x XOR crc_bit y"
  by (simp add: crc_bit_def drop_bit_xor bit_xor_iff ac_simps)

lemma crc_bit_pow_xor: "(crc_bit ^^ n) (x XOR y) = (crc_bit ^^ n) x XOR (crc_bit ^^ n) y"
  by (induction n) (simp_all add: crc_bit_xor)

lemma crc_bit_pow_high: "(\<forall>i < n. \<not> bit x i) \<Longrightarrow> (crc_bit ^^ n) x = drop_bit n x"
proof (induction n arbitrary: x)
  case (Suc n)
  have "crc_bit x = drop_bit 1 x" using Suc.prems by (simp add: crc_bit_def)
  moreover have "\<forall>i < n. \<not> bit (drop_bit 1 x) i" using Suc.prems by (simp add: bit_drop_bit_eq)
  ultimately show ?case using Suc.IH [of "drop_bit 1 x"] by (simp add: funpow_Suc_right del: funpow.simps)
qed simp

text \<open>
  The table is the division of every byte: by linearity it is enough to check the eight powers
  of two and that every other entry is the exclusive or of two earlier ones.
\<close>

lemma s_CrcTable_powers:
  "map (\<lambda>k. s_CrcTable ! (2 ^ k)) [0..<8] = map (\<lambda>k. (crc_bit ^^ 8) (2 ^ k)) [0..<8]"
  by code_simp

lemma s_CrcTable_xor:
  "list_all (\<lambda>k. take (2 ^ k) (drop (2 ^ k) s_CrcTable) =
     map (\<lambda>x. x XOR s_CrcTable ! (2 ^ k)) (take (2 ^ k) s_CrcTable)) [0..<8]"
  by code_simp

lemma s_CrcTable_length: "length s_CrcTable = 256" "s_CrcTable ! 0 = 0"
  by (simp_all add: s_CrcTable_def)

lemma s_CrcTable_nth:
  assumes "i < 2 ^ k" "k \<le> 8"
  shows "s_CrcTable ! i = (crc_bit ^^ 8) (of_nat i)"
  using assms
proof (induction k arbitrary: i)
  case 0
  then show ?case by (simp add: s_CrcTable_length(2) crc_bit_pow_high)
next
  case (Suc k)
  then have k: "k < 8" by simp
  show ?case
  proof (cases "i < 2 ^ k")
    case True
    then show ?thesis using Suc by simp
  next
    case False
    define j where "j = i - 2 ^ k"
    have i: "i = 2 ^ k + j" and j: "j < 2 ^ k" using False Suc.prems(1) by (auto simp: j_def)
    have "(2 :: nat) ^ Suc k \<le> 2 ^ 8" using k by (intro power_increasing) auto
    then have le: "2 ^ k + j < length s_CrcTable" "(2 :: nat) ^ k \<le> length s_CrcTable"
      using j by (auto simp: s_CrcTable_length)
    have "take (2 ^ k) (drop (2 ^ k) s_CrcTable) =
        map (\<lambda>x. x XOR s_CrcTable ! (2 ^ k)) (take (2 ^ k) s_CrcTable)"
      using s_CrcTable_xor k by (simp add: list_all_iff)
    then have "take (2 ^ k) (drop (2 ^ k) s_CrcTable) ! j =
        map (\<lambda>x. x XOR s_CrcTable ! (2 ^ k)) (take (2 ^ k) s_CrcTable) ! j" by simp
    then have "s_CrcTable ! i = s_CrcTable ! j XOR s_CrcTable ! (2 ^ k)" using j le i by simp
    also have "s_CrcTable ! (2 ^ k) = (crc_bit ^^ 8) (2 ^ k)"
      using arg_cong [OF s_CrcTable_powers, of "\<lambda>xs. xs ! k"] k by simp
    also have "s_CrcTable ! j = (crc_bit ^^ 8) (of_nat j)" using Suc.IH [OF j] k by simp
    also have "(crc_bit ^^ 8) (of_nat j) XOR (crc_bit ^^ 8) (2 ^ k) = (crc_bit ^^ 8) (of_nat j XOR 2 ^ k)"
      by (simp only: crc_bit_pow_xor)
    also have "(of_nat j XOR 2 ^ k :: u32) = of_nat i"
    proof -
      have "(of_nat j :: u32) AND 2 ^ k = 0"
      proof (rule bit_word_eqI)
        fix n assume "n < LENGTH(32)"
        have "\<not> bit (of_nat j :: u32) k"
        proof
          assume "bit (of_nat j :: u32) k"
          from bit_imp_unat_ge [OF this] have "2 ^ k \<le> unat (of_nat j :: u32)" .
          moreover have "unat (of_nat j :: u32) = j"
            using j le(1) s_CrcTable_length(1) by (intro unat_of_nat_small) simp
          ultimately show False using j by simp
        qed
        then show "bit ((of_nat j :: u32) AND 2 ^ k) n = bit (0 :: u32) n"
          by (auto simp: bit_and_iff bit_exp_iff)
      qed
      then have "of_nat j XOR 2 ^ k = (of_nat j + 2 ^ k :: u32)" by (simp add: disjunctive_xor_eq_or disjunctive_add_eq_or)
      then show ?thesis by (simp add: i)
    qed
    finally show ?thesis .
  qed
qed

lemma bit_255: "bit (0xff :: u32) i \<longleftrightarrow> i < 8"
proof -
  have "(0xff :: u32) = mask 8" by (simp add: mask_eq_exp_minus_1)
  then show ?thesis by (simp only: bit_mask_iff) auto
qed

lemma crc_step_poly: "crc_step crc b = crc_poly_step crc b"
proof -
  let ?x = "crc XOR ucast b"
  let ?hi = "push_bit 8 (drop_bit 8 crc)"
  let ?lo = "ucast b XOR (crc AND 0xff)"
  have lo8: "\<not> bit (ucast b :: u32) i" if "8 \<le> i" for i
  proof
    assume "bit (ucast b :: u32) i"
    then have "bit b i" by (simp add: bit_ucast_iff)
    then show False using bit_imp_le_length [of b i] that by simp
  qed
  have split: "?x = ?hi XOR ?lo"
  proof (rule bit_word_eqI)
    fix i assume "i < LENGTH(32)"
    then show "bit ?x i = bit (?hi XOR ?lo) i"
      using lo8 [of i] unfolding bit_xor_iff bit_and_iff bit_255
      by (cases "i < 8") (auto simp: bit_push_bit_iff bit_drop_bit_eq)
  qed
  have low: "?lo AND 0xff = ?lo"
  proof (rule bit_word_eqI)
    fix i assume "i < LENGTH(32)"
    show "bit (?lo AND 0xff) i = bit ?lo i"
      using lo8 [of i] unfolding bit_xor_iff bit_and_iff bit_255 by (cases "i < 8") auto
  qed
  have "unat (?lo AND mask 8) < 2 ^ 8" by (rule unat_and_mask_lt)
  then have lt: "unat ?lo < 2 ^ 8" using low by (simp add: mask_eq_exp_minus_1)
  have "(crc_bit ^^ 8) ?hi = drop_bit 8 ?hi"
    by (rule crc_bit_pow_high) (auto simp: bit_push_bit_iff)
  also have "\<dots> = drop_bit 8 crc"
    by (rule bit_word_eqI) (auto simp: bit_push_bit_iff bit_drop_bit_eq dest: bit_imp_le_length)
  finally show ?thesis
    unfolding crc_step_def crc_poly_step_def split crc_bit_pow_xor [of 8 ?hi ?lo]
      s_CrcTable_nth [OF lt order_refl] by simp
qed

text \<open>C20. The table-driven loop computes the bit-wise CRC-32 of the data: \<open>crc_calc32\<close> is the
  complement of the division of the message by the polynomial \<open>0xEDB88320\<close>, bit by bit, from the
  initial value \<open>0xffffffff\<close>.\<close>

theorem crc_calc32_polynomial:
  "crc_calc32 data = NOT (foldl crc_poly_step 0xffffffff data)"
  by (simp add: crc_calc32_def crc_update_def crc_step_poly [abs_def])

text \<open>The published check value of CRC-32, on the bytes of \<open>123456789\<close>.\<close>

lemma crc_calc32_check: "crc_calc32 [0x31, 0x32, 0x33, 0x34, 0x35, 0x36, 0x37, 0x38, 0x39] = 0xCBF43926"
  by code_simp

lemma crc_update_append: "crc_update (xs @ ys) crc = crc_update ys (crc_update xs crc)"
  by (simp add: crc_update_def)

section \<open>Error detection\<close>

lemma word_xor_cancel: "(x :: 'a::len word) XOR z = y XOR z \<Longrightarrow> x = y"
proof (rule bit_word_eqI)
  fix n assume "x XOR z = y XOR z"
  then have "bit (x XOR z) n = bit (y XOR z) n" by simp
  then show "bit x n = bit y n" unfolding bit_xor_iff by blast
qed

lemma crc_bit_inj: "crc_bit a = crc_bit b \<Longrightarrow> a = b"
proof -
  assume eq: "crc_bit a = crc_bit b"
  have top: "bit (crc_bit c) 31 \<longleftrightarrow> bit c 0" for c
    by (auto simp: crc_bit_def bit_xor_iff bit_drop_bit_eq dest: bit_imp_le_length)
  then have b0: "bit a 0 \<longleftrightarrow> bit b 0" using eq by metis
  then have "drop_bit 1 a = drop_bit 1 b"
    using eq word_xor_cancel [of "drop_bit 1 a" _ "drop_bit 1 b"] by (cases "bit b 0") (simp_all add: crc_bit_def)
  then have "bit a (Suc n) = bit b (Suc n)" for n by (metis bit_drop_bit_eq plus_1_eq_Suc comp_apply)
  then show "a = b" using b0 by (intro bit_word_eqI) (metis old.nat.exhaust)
qed

lemma crc_bit_pow_inj: "(crc_bit ^^ n) a = (crc_bit ^^ n) b \<Longrightarrow> a = b"
  by (induction n) (auto dest: crc_bit_inj)

lemma crc_update_inj: "crc_update data a = crc_update data b \<Longrightarrow> a = b"
proof (induction data arbitrary: a b)
  case (Cons x xs)
  then have "crc_step a x = crc_step b x" by (auto simp: crc_update_def)
  then have "a XOR ucast x = b XOR ucast x"
    unfolding crc_step_poly crc_poly_step_def by (rule crc_bit_pow_inj)
  then show "a = b" by (rule word_xor_cancel)
qed (simp add: crc_update_def)

text \<open>C21. \<open>crc_calc32\<close> detects every corruption of a single byte: two messages that agree except
  at one position have the same checksum only when they are equal.\<close>

theorem crc_calc32_detects_byte:
  "crc_calc32 (xs @ b # ys) = crc_calc32 (xs @ c # ys) \<longleftrightarrow> b = c"
proof
  assume eq: "crc_calc32 (xs @ b # ys) = crc_calc32 (xs @ c # ys)"
  let ?s = "crc_update xs 0xffffffff"
  have "crc_update ys (crc_step ?s b) = crc_update ys (crc_step ?s c)"
    using eq by (simp add: crc_calc32_def crc_update_def)
  then have "crc_step ?s b = crc_step ?s c" by (rule crc_update_inj)
  then have "?s XOR ucast b = ?s XOR ucast c"
    unfolding crc_step_poly crc_poly_step_def by (rule crc_bit_pow_inj)
  then have "(ucast b :: u32) = ucast c" unfolding xor.commute [of ?s] by (rule word_xor_cancel)
  then have eqn: "bit (ucast b :: u32) n = bit (ucast c :: u32) n" for n by (rule arg_cong)
  have up: "bit (ucast d :: u32) n \<longleftrightarrow> bit d n" if "n < 8" for d :: u8 and n
    using that unfolding bit_ucast_iff by simp
  have "bit b n = bit c n" if "n < 8" for n using eqn [of n] unfolding up [OF that] .
  then show "b = c" by (intro bit_word_eqI) simp
qed simp

end
