(* ===== verification/Zeq_Util.thy ===== *)
theory Zeq_Util
  imports Zeq_Prelude
begin

text \<open>
  The small helpers of the server: \<open>src/util_str.c\<close>, \<open>src/util_ipv4.c\<close> and
  \<open>src/util_cap.c\<close>. A C string is the list of its bytes up to where memory may be read; the end
  of the list reads as \<open>NUL\<close>.
\<close>

section \<open>Bounded string lengths\<close>

function str_len_bounded_loop :: "u8 list \<Rightarrow> int \<Rightarrow> int \<Rightarrow> int" where
  "str_len_bounded_loop str mx i =
     (if i < mx then
        case str of
          [] \<Rightarrow> i
        | c # cs \<Rightarrow> if c = 0 then i else str_len_bounded_loop cs mx (i + 1)
      else i)"
  by pat_completeness auto
termination
  by (relation "measure (\<lambda>(str, mx, i). length str)") auto

declare str_len_bounded_loop.simps [simp del]

definition str_len_bounded :: "u8 list \<Rightarrow> int \<Rightarrow> int" where
  "str_len_bounded str mx = str_len_bounded_loop str mx 0"

function str_len_overflow_loop :: "u8 list \<Rightarrow> int \<Rightarrow> int \<Rightarrow> int" where
  "str_len_overflow_loop str mx i =
     (if i < mx then
        case str of
          [] \<Rightarrow> i
        | c # cs \<Rightarrow> if c = 0 then i else str_len_overflow_loop cs mx (i + 1)
      else -1)"
  by pat_completeness auto
termination
  by (relation "measure (\<lambda>(str, mx, i). length str)") auto

declare str_len_overflow_loop.simps [simp del]

definition str_len_overflow :: "u8 list \<Rightarrow> int \<Rightarrow> int" where
  "str_len_overflow str mx = str_len_overflow_loop str mx 0"

text \<open>The C string a list of bytes starts with.\<close>

abbreviation cstr :: "u8 list \<Rightarrow> u8 list" where
  "cstr bs \<equiv> takeWhile (\<lambda>c. c \<noteq> 0) bs"

lemma str_len_bounded_loop_eq:
  "0 \<le> i \<Longrightarrow> str_len_bounded_loop str mx i = (if i < mx then min (i + int (length (cstr str))) mx else i)"
proof (induction str mx i rule: str_len_bounded_loop.induct)
  case (1 str mx i)
  then show ?case
    by (subst str_len_bounded_loop.simps) (cases str; auto)
qed

lemma str_len_overflow_loop_eq:
  "0 \<le> i \<Longrightarrow> str_len_overflow_loop str mx i =
     (if i + int (length (cstr str)) < mx then i + int (length (cstr str)) else -1)"
proof (induction str mx i rule: str_len_overflow_loop.induct)
  case (1 str mx i)
  then show ?case
    by (subst str_len_overflow_loop.simps) (cases str; auto)
qed

lemma str_len_bounded_eq: "0 \<le> mx \<Longrightarrow> str_len_bounded str mx = min (int (length (cstr str))) mx"
  by (auto simp: str_len_bounded_def str_len_bounded_loop_eq)

text \<open>The two agree exactly when the string ends inside the field.\<close>

lemma str_len_overflow_eq:
  "0 \<le> mx \<Longrightarrow> str_len_overflow str mx =
     (if str_len_bounded str mx < mx then str_len_bounded str mx else -1)"
  by (auto simp: str_len_overflow_def str_len_overflow_loop_eq str_len_bounded_eq)

section \<open>Local addresses\<close>

text \<open>Addresses are in network order, the first octet in the low byte.\<close>

definition make_ip :: "u32 \<Rightarrow> u32 \<Rightarrow> u32 \<Rightarrow> u32 \<Rightarrow> u32" where
  "make_ip a b c d =
     (push_bit 0 a AND 0xff) OR (push_bit 8 b AND 0xff00) OR (push_bit 16 c AND 0xff0000)
       OR (push_bit 24 d AND 0xff000000)"

definition ip_is_local :: "u32 \<Rightarrow> bool" where
  "ip_is_local ip \<longleftrightarrow>
     (if ip = make_ip 127 0 0 1 then True
      else if ip AND 0x0000ffff = make_ip 192 168 0 0 then True
      else if ip AND 0x000000ff = make_ip 10 0 0 0 then True
      else if ip AND 0x0000f0ff = make_ip 172 16 0 0 then True
      else False)"

section \<open>Capping\<close>

definition cap_int8 :: "int \<Rightarrow> int" where
  "cap_int8 v = (if v > 127 then 127 else if v < - 128 then - 128 else v)"

definition cap_uint8 :: "int \<Rightarrow> int" where
  "cap_uint8 v = (if v > 255 then 255 else if v < 0 then 0 else v)"

definition cap_min_max :: "int \<Rightarrow> int \<Rightarrow> int \<Rightarrow> int" where
  "cap_min_max v vMin vMax = (if v > vMax then vMax else if v < vMin then vMin else v)"

definition cap_max :: "int \<Rightarrow> int \<Rightarrow> int" where
  "cap_max v vMax = (if v > vMax then vMax else v)"

lemma cap_bounds [simp]:
  "- 128 \<le> cap_int8 v" "cap_int8 v \<le> 127" "0 \<le> cap_uint8 v" "cap_uint8 v \<le> 255"
  by (simp_all add: cap_int8_def cap_uint8_def)

lemma cap_int8_id: "- 128 \<le> v \<Longrightarrow> v \<le> 127 \<Longrightarrow> cap_int8 v = v"
  by (simp add: cap_int8_def)

lemma cap_min_max_bounds: "vMin \<le> vMax \<Longrightarrow> vMin \<le> cap_min_max v vMin vMax \<and> cap_min_max v vMin vMax \<le> vMax"
  by (simp add: cap_min_max_def)

end
