(* ===== verification/Zeq_Aligned.thy ===== *)
theory Zeq_Aligned
  imports Zeq_Util
begin

text \<open>
  \<open>src/aligned.c\<close>: the cursor over a byte buffer through which every packet is read and written.
  The buffer is the list of its bytes. An \<open>assert\<close> that fails is \<open>None\<close>, as in the builds that
  keep assertions; the cursor arithmetic wraps at 32 bits as in C. A \<open>float\<close> is its 32-bit
  pattern, which is all the functions look at.
\<close>

section \<open>The cursor\<close>

record aligned =
  al_cursor :: u32
  al_length :: u32
  al_buffer :: "u8 list"

definition aligned_init :: "u8 list \<Rightarrow> u32 \<Rightarrow> aligned" where
  "aligned_init ptr len = \<lparr>al_cursor = 0, al_length = len, al_buffer = ptr\<rparr>"

definition aligned_init_cursor_at :: "u8 list \<Rightarrow> u32 \<Rightarrow> u32 \<Rightarrow> aligned" where
  "aligned_init_cursor_at ptr len cursor = \<lparr>al_cursor = cursor, al_length = len, al_buffer = ptr\<rparr>"

definition aligned_init_copy :: "aligned \<Rightarrow> aligned" where
  "aligned_init_copy src = src"

text \<open>The old cursor and the advanced state.\<close>

definition aligned_advance_by :: "aligned \<Rightarrow> u32 \<Rightarrow> (u32 \<times> aligned) option" where
  "aligned_advance_by a len =
     (let c = al_cursor a;
          a' = a\<lparr>al_cursor := c + len\<rparr>
      in if al_cursor a' \<le> al_length a' then Some (c, a') else None)"

definition aligned_reverse_by :: "aligned \<Rightarrow> u32 \<Rightarrow> (u32 \<times> aligned) option" where
  "aligned_reverse_by a len =
     (let c = al_cursor a;
          a' = a\<lparr>al_cursor := c - len\<rparr>
      in if al_cursor a' < al_length a' then Some (c, a') else None)"

definition aligned_check_bounds :: "aligned \<Rightarrow> u32 \<Rightarrow> bool" where
  "aligned_check_bounds a len = (let c = al_cursor a + len in c \<le> al_length a)"

definition aligned_remaining_space :: "aligned \<Rightarrow> u32" where
  "aligned_remaining_space a = al_length a - al_cursor a"

definition aligned_reset_cursor :: "aligned \<Rightarrow> aligned" where
  "aligned_reset_cursor a = a\<lparr>al_cursor := 0\<rparr>"

definition aligned_reset_cursor_to :: "aligned \<Rightarrow> u32 \<Rightarrow> aligned" where
  "aligned_reset_cursor_to a offset = a\<lparr>al_cursor := offset\<rparr>"

definition aligned_set_length :: "aligned \<Rightarrow> u32 \<Rightarrow> aligned" where
  "aligned_set_length a len = a\<lparr>al_length := len\<rparr>"

definition aligned_reduce_size_by :: "aligned \<Rightarrow> u32 \<Rightarrow> aligned" where
  "aligned_reduce_size_by a n = a\<lparr>al_length := al_length a - n\<rparr>"

lemma cursor_inc_less: "(c :: u32) < l \<Longrightarrow> unat l - unat (c + 1) < unat l - unat c"
proof -
  assume cl: "c < l"
  then have "unat c < unat l" by (simp add: word_less_nat_alt)
  moreover have "unat l < 2 ^ 32" using unsigned_less [of l] by simp
  then have "unat c + 1 < 2 ^ 32" using cl by (simp add: word_less_nat_alt)
  then have "unat (c + 1) = unat c + 1" by (simp add: unat_word_ariths)
  ultimately show ?thesis by simp
qed

function aligned_past_null_loop :: "aligned \<Rightarrow> int \<Rightarrow> int \<times> aligned" where
  "aligned_past_null_loop a len =
     (if al_cursor a < al_length a then
        let c = al_buffer a ! unat (al_cursor a);
            a' = a\<lparr>al_cursor := al_cursor a + 1\<rparr>
        in if c = 0 then (len, a') else aligned_past_null_loop a' (len + 1)
      else (-1, a))"
  by pat_completeness auto

termination
  by (relation "measure (\<lambda>(a, len). unat (al_length a) - unat (al_cursor a))")
    (auto intro: cursor_inc_less)

declare aligned_past_null_loop.simps [simp del]

definition aligned_advance_past_null_terminator :: "aligned \<Rightarrow> int \<times> aligned" where
  "aligned_advance_past_null_terminator a = aligned_past_null_loop a 0"

section \<open>Bytes of the buffer\<close>

text \<open>Stores of consecutive bytes from index \<open>c\<close> on, and the loads.\<close>

definition al_put :: "aligned \<Rightarrow> nat \<Rightarrow> u8 list \<Rightarrow> aligned" where
  "al_put a c bs = a\<lparr>al_buffer := take c (al_buffer a) @ bs @ drop (c + length bs) (al_buffer a)\<rparr>"

definition al_get :: "aligned \<Rightarrow> nat \<Rightarrow> nat \<Rightarrow> u8 list" where
  "al_get a c n = take n (drop c (al_buffer a))"

section \<open>Reading\<close>

definition aligned_read_uint8 :: "aligned \<Rightarrow> (u8 \<times> aligned) option" where
  "aligned_read_uint8 a =
     map_option (\<lambda>(c, a'). (al_buffer a' ! unat c, a')) (aligned_advance_by a 1)"

definition aligned_read_uint16 :: "aligned \<Rightarrow> (u16 \<times> aligned) option" where
  "aligned_read_uint16 a =
     map_option (\<lambda>(c, a').
        let b = (\<lambda>i. ucast (al_buffer a' ! (unat c + i)))
        in (push_bit 0 (b 0) OR push_bit 8 (b 1), a')) (aligned_advance_by a 2)"

definition aligned_read_uint32 :: "aligned \<Rightarrow> (u32 \<times> aligned) option" where
  "aligned_read_uint32 a =
     map_option (\<lambda>(c, a').
        let b = (\<lambda>i. ucast (al_buffer a' ! (unat c + i)))
        in (push_bit 0 (b 0) OR push_bit 8 (b 1) OR push_bit 16 (b 2) OR push_bit 24 (b 3), a'))
       (aligned_advance_by a 4)"

definition aligned_read_uint64 :: "aligned \<Rightarrow> (u64 \<times> aligned) option" where
  "aligned_read_uint64 a =
     map_option (\<lambda>(c, a').
        let b = (\<lambda>i. ucast (al_buffer a' ! (unat c + i)))
        in (push_bit 0 (b 0) OR push_bit 8 (b 1) OR push_bit 16 (b 2) OR push_bit 24 (b 3)
            OR push_bit 32 (b 4) OR push_bit 40 (b 5) OR push_bit 48 (b 6) OR push_bit 56 (b 7), a'))
       (aligned_advance_by a 8)"

definition aligned_read_float :: "aligned \<Rightarrow> (u32 \<times> aligned) option" where
  "aligned_read_float a = aligned_read_uint32 a"

definition aligned_read_buffer :: "aligned \<Rightarrow> u32 \<Rightarrow> (u8 list \<times> aligned) option" where
  "aligned_read_buffer a len =
     map_option (\<lambda>(c, a'). (map (\<lambda>i. al_buffer a' ! (unat c + i)) [0..<unat len], a'))
       (aligned_advance_by a len)"

text \<open>The string, from its start to the end of the buffer, and its length.\<close>

definition aligned_read_string_bounded :: "aligned \<Rightarrow> u32 \<Rightarrow> (u8 list \<times> int \<times> aligned) option" where
  "aligned_read_string_bounded a fieldLen =
     map_option (\<lambda>(c, a').
        let str = drop (unat c) (al_buffer a')
        in (str, str_len_bounded str (sint fieldLen), a')) (aligned_advance_by a fieldLen)"

definition aligned_peek_uint8 :: "aligned \<Rightarrow> u8" where
  "aligned_peek_uint8 a = (if aligned_check_bounds a 1 then al_buffer a ! unat (al_cursor a) else 0)"

section \<open>Writing\<close>

definition aligned_write_memset :: "aligned \<Rightarrow> u8 \<Rightarrow> u32 \<Rightarrow> aligned option" where
  "aligned_write_memset a val len =
     map_option (\<lambda>(c, a'). al_put a' (unat c) (replicate (unat len) val)) (aligned_advance_by a len)"

definition aligned_write_uint8 :: "aligned \<Rightarrow> u8 \<Rightarrow> aligned option" where
  "aligned_write_uint8 a v =
     map_option (\<lambda>(c, a'). al_put a' (unat c) [v]) (aligned_advance_by a 1)"

definition aligned_write_uint16 :: "aligned \<Rightarrow> u16 \<Rightarrow> aligned option" where
  "aligned_write_uint16 a v =
     map_option (\<lambda>(c, a'). al_put a' (unat c)
         [ucast (drop_bit 0 (v AND 0x00ff)), ucast (drop_bit 8 (v AND 0xff00))])
       (aligned_advance_by a 2)"

definition aligned_write_uint32 :: "aligned \<Rightarrow> u32 \<Rightarrow> aligned option" where
  "aligned_write_uint32 a v =
     map_option (\<lambda>(c, a'). al_put a' (unat c)
         [ucast (drop_bit 0 (v AND 0x000000ff)), ucast (drop_bit 8 (v AND 0x0000ff00)),
          ucast (drop_bit 16 (v AND 0x00ff0000)), ucast (drop_bit 24 (v AND 0xff000000))])
       (aligned_advance_by a 4)"

definition aligned_write_uint64 :: "aligned \<Rightarrow> u64 \<Rightarrow> aligned option" where
  "aligned_write_uint64 a v =
     map_option (\<lambda>(c, a'). al_put a' (unat c)
         [ucast (drop_bit 0 (v AND 0x00000000000000ff)), ucast (drop_bit 8 (v AND 0x000000000000ff00)),
          ucast (drop_bit 16 (v AND 0x0000000000ff0000)), ucast (drop_bit 24 (v AND 0x00000000ff000000)),
          ucast (drop_bit 32 (v AND 0x000000ff00000000)), ucast (drop_bit 40 (v AND 0x0000ff0000000000)),
          ucast (drop_bit 48 (v AND 0x00ff000000000000)), ucast (drop_bit 56 (v AND 0xff00000000000000))])
       (aligned_advance_by a 8)"

definition aligned_write_float :: "aligned \<Rightarrow> u32 \<Rightarrow> aligned option" where
  "aligned_write_float a v = aligned_write_uint32 a v"

definition aligned_write_buffer :: "aligned \<Rightarrow> u8 list \<Rightarrow> u32 \<Rightarrow> aligned option" where
  "aligned_write_buffer a data len =
     map_option (\<lambda>(c, a'). al_put a' (unat c) (take (unat len) data)) (aligned_advance_by a len)"

text \<open>\<open>rnd\<close> stands for the bytes \<open>random_bytes\<close> delivers.\<close>

definition aligned_write_random :: "aligned \<Rightarrow> u8 list \<Rightarrow> u32 \<Rightarrow> aligned option" where
  "aligned_write_random a rnd bytes =
     map_option (\<lambda>(c, a'). al_put a' (unat c) (take (unat bytes) rnd)) (aligned_advance_by a bytes)"

definition aligned_write_zeroes :: "aligned \<Rightarrow> u32 \<Rightarrow> aligned option" where
  "aligned_write_zeroes a count =
     map_option (\<lambda>(c, a'). al_put a' (unat c) (replicate (unat count) 0)) (aligned_advance_by a count)"

text \<open>\<open>out\<close> is the formatted text: \<open>vsnprintf\<close> writes at most \<open>n - 1\<close> bytes of it and a \<open>NUL\<close>.\<close>

definition aligned_write_snprintf_and_advance_by :: "aligned \<Rightarrow> u32 \<Rightarrow> u8 list \<Rightarrow> aligned option" where
  "aligned_write_snprintf_and_advance_by a n out =
     map_option (\<lambda>(c, a').
        if n = 0 then a' else al_put a' (unat c) (take (unat n - 1) out @ [0])) (aligned_advance_by a n)"

definition aligned_write_reverse_uint8 :: "aligned \<Rightarrow> u8 \<Rightarrow> aligned option" where
  "aligned_write_reverse_uint8 a v =
     map_option (\<lambda>(c, a'). al_put a' (unat (c - 1)) [v]) (aligned_reverse_by a 1)"

definition aligned_write_reverse_uint16 :: "aligned \<Rightarrow> u16 \<Rightarrow> aligned option" where
  "aligned_write_reverse_uint16 a v =
     map_option (\<lambda>(c, a'). al_put a' (unat (c - 2))
         [ucast (drop_bit 0 (v AND 0x00ff)), ucast (drop_bit 8 (v AND 0xff00))])
       (aligned_reverse_by a 2)"

section \<open>Little-endian bytes\<close>

text \<open>A byte masked out, shifted down and back up again keeps the eight bits it came from.\<close>

definition le_byte :: "'a::len word \<Rightarrow> nat \<Rightarrow> u8" where
  "le_byte v k = ucast (drop_bit k (v AND push_bit k 0xff))"

lemma bit_le_byte: "bit (le_byte (v :: 'a::len word) k) n \<longleftrightarrow> n < 8 \<and> bit v (k + n)"
proof -
  have ff: "bit (0xff :: 'a word) i \<longleftrightarrow> i < 8 \<and> i < LENGTH('a)" for i
  proof -
    have "(0xff :: 'a word) = mask 8" by (simp add: mask_eq_exp_minus_1)
    then show ?thesis by (simp only: bit_mask_iff) auto
  qed
  show ?thesis
    unfolding le_byte_def bit_ucast_iff bit_drop_bit_eq o_def bit_and_iff bit_push_bit_iff ff
    by (auto dest: bit_imp_le_length)
qed

lemma bit_push_le_byte:
  "bit (push_bit k (ucast (le_byte v k)) :: 'a::len word) n \<longleftrightarrow> k \<le> n \<and> n < k + 8 \<and> bit (v :: 'a word) n"
  "bit (ucast (le_byte v 0) :: 'a::len word) n \<longleftrightarrow> n < 8 \<and> bit (v :: 'a word) n"
  by (auto simp: bit_push_bit_iff bit_ucast_iff bit_le_byte dest: bit_imp_le_length)

definition le16 :: "u16 \<Rightarrow> u8 list" where
  "le16 v = [ucast (drop_bit 0 (v AND 0x00ff)), ucast (drop_bit 8 (v AND 0xff00))]"

definition le32 :: "u32 \<Rightarrow> u8 list" where
  "le32 v = [ucast (drop_bit 0 (v AND 0x000000ff)), ucast (drop_bit 8 (v AND 0x0000ff00)),
     ucast (drop_bit 16 (v AND 0x00ff0000)), ucast (drop_bit 24 (v AND 0xff000000))]"

definition le64 :: "u64 \<Rightarrow> u8 list" where
  "le64 v = [ucast (drop_bit 0 (v AND 0x00000000000000ff)), ucast (drop_bit 8 (v AND 0x000000000000ff00)),
     ucast (drop_bit 16 (v AND 0x0000000000ff0000)), ucast (drop_bit 24 (v AND 0x00000000ff000000)),
     ucast (drop_bit 32 (v AND 0x000000ff00000000)), ucast (drop_bit 40 (v AND 0x0000ff0000000000)),
     ucast (drop_bit 48 (v AND 0x00ff000000000000)), ucast (drop_bit 56 (v AND 0xff00000000000000))]"

definition of_le16 :: "u8 list \<Rightarrow> u16" where
  "of_le16 b = push_bit 0 (ucast (b ! 0)) OR push_bit 8 (ucast (b ! 1))"

definition of_le32 :: "u8 list \<Rightarrow> u32" where
  "of_le32 b = push_bit 0 (ucast (b ! 0)) OR push_bit 8 (ucast (b ! 1)) OR push_bit 16 (ucast (b ! 2))
     OR push_bit 24 (ucast (b ! 3))"

definition of_le64 :: "u8 list \<Rightarrow> u64" where
  "of_le64 b = push_bit 0 (ucast (b ! 0)) OR push_bit 8 (ucast (b ! 1)) OR push_bit 16 (ucast (b ! 2))
     OR push_bit 24 (ucast (b ! 3)) OR push_bit 32 (ucast (b ! 4)) OR push_bit 40 (ucast (b ! 5))
     OR push_bit 48 (ucast (b ! 6)) OR push_bit 56 (ucast (b ! 7))"

lemma le_bytes:
  "le16 v = [le_byte v 0, le_byte v 8]"
  "le32 w = [le_byte w 0, le_byte w 8, le_byte w 16, le_byte w 24]"
  "le64 x = [le_byte x 0, le_byte x 8, le_byte x 16, le_byte x 24, le_byte x 32, le_byte x 40,
     le_byte x 48, le_byte x 56]"
  by (simp_all add: le16_def le32_def le64_def le_byte_def push_bit_eq_mult)

lemma of_le16_le16: "of_le16 (le16 v) = v"
proof (rule bit_word_eqI)
  fix n assume "n < LENGTH(16)"
  then show "bit (of_le16 (le16 v)) n = bit v n"
    unfolding of_le16_def le_bytes by (simp add: bit_or_iff bit_push_le_byte) arith
qed

lemma of_le32_le32: "of_le32 (le32 v) = v"
proof (rule bit_word_eqI)
  fix n assume "n < LENGTH(32)"
  then show "bit (of_le32 (le32 v)) n = bit v n"
    unfolding of_le32_def le_bytes by (simp add: bit_or_iff bit_push_le_byte) arith
qed

lemma of_le64_le64: "of_le64 (le64 v) = v"
proof (rule bit_word_eqI)
  fix n assume "n < LENGTH(64)"
  then show "bit (of_le64 (le64 v)) n = bit v n"
    unfolding of_le64_def le_bytes by (simp add: bit_or_iff bit_push_le_byte) arith
qed

section \<open>The cursor invariant\<close>

definition al_ok :: "aligned \<Rightarrow> bool" where
  "al_ok a \<longleftrightarrow> al_cursor a \<le> al_length a \<and> unat (al_length a) \<le> length (al_buffer a)"

text \<open>\<open>n\<close> bytes starting at the cursor do not wrap around the 32-bit cursor.\<close>

definition al_no_wrap :: "aligned \<Rightarrow> nat \<Rightarrow> bool" where
  "al_no_wrap a n \<longleftrightarrow> unat (al_cursor a) + n < 2 ^ 32"

definition al_room :: "aligned \<Rightarrow> nat \<Rightarrow> bool" where
  "al_room a n \<longleftrightarrow> unat (al_cursor a) + n \<le> unat (al_length a)"

lemma al_room_no_wrap: "al_room a n \<Longrightarrow> al_no_wrap a n"
  using unsigned_less [of "al_length a", where 'a = nat] by (simp add: al_room_def al_no_wrap_def)

lemma unat_add_cursor:
  assumes "unat (c :: u32) + n < 2 ^ 32"
  shows "unat (c + of_nat n) = unat c + n"
proof -
  have "unat (of_nat n :: u32) = n" using assms by (intro unat_of_nat_small) simp
  then show ?thesis using assms by (simp add: unat_word_ariths)
qed

lemma advance_by:
  assumes "al_no_wrap a n"
  shows "aligned_advance_by a (of_nat n) =
    (if al_room a n then Some (al_cursor a, a\<lparr>al_cursor := al_cursor a + of_nat n\<rparr>) else None)"
  using unat_add_cursor [of "al_cursor a" n] assms
  by (simp add: aligned_advance_by_def al_room_def al_no_wrap_def word_le_nat_alt Let_def)

lemma check_bounds:
  assumes "al_no_wrap a n"
  shows "aligned_check_bounds a (of_nat n) = al_room a n"
  using unat_add_cursor [of "al_cursor a" n] assms
  by (simp add: aligned_check_bounds_def al_room_def al_no_wrap_def word_le_nat_alt)

text \<open>The state after \<open>bs\<close> has been written at the cursor.\<close>

definition al_written :: "aligned \<Rightarrow> u8 list \<Rightarrow> aligned" where
  "al_written a bs = al_put (a\<lparr>al_cursor := al_cursor a + of_nat (length bs)\<rparr>) (unat (al_cursor a)) bs"

lemma al_written_simps:
  assumes "al_ok a" "al_room a (length bs)"
  shows "al_ok (al_written a bs)" "unat (al_cursor (al_written a bs)) = unat (al_cursor a) + length bs"
    "al_length (al_written a bs) = al_length a" "length (al_buffer (al_written a bs)) = length (al_buffer a)"
    "al_get (al_written a bs) (unat (al_cursor a)) (length bs) = bs"
    "take (unat (al_cursor a)) (al_buffer (al_written a bs)) = take (unat (al_cursor a)) (al_buffer a)"
  using assms unat_add_cursor [of "al_cursor a" "length bs"] al_room_no_wrap [OF assms(2)]
  by (auto simp: al_ok_def al_room_def al_no_wrap_def al_written_def al_put_def al_get_def word_le_nat_alt)

section \<open>The contract of a scalar field\<close>

text \<open>
  A scalar of \<open>n\<close> bytes: \<open>enc\<close> and \<open>dec\<close> are its bytes in the buffer, \<open>wr\<close> and \<open>rd\<close> the two
  functions of the source.
\<close>

locale codec =
  fixes n :: nat and enc :: "'a \<Rightarrow> u8 list" and dec :: "u8 list \<Rightarrow> 'a"
    and wr :: "aligned \<Rightarrow> 'a \<Rightarrow> aligned option" and rd :: "aligned \<Rightarrow> ('a \<times> aligned) option"
  assumes enc_length: "length (enc v) = n" and dec_enc: "dec (enc v) = v" and pos: "0 < n"
    and write_is: "wr a v = map_option (\<lambda>(c, a'). al_put a' (unat c) (enc v)) (aligned_advance_by a (of_nat n))"
    and read_is: "al_ok a \<Longrightarrow> al_room a n \<Longrightarrow>
      rd a = map_option (\<lambda>(c, a'). (dec (al_get a' (unat c) n), a')) (aligned_advance_by a (of_nat n))"
    and read_fails: "aligned_advance_by a (of_nat n) = None \<Longrightarrow> rd a = None"
begin

lemma write_eq:
  assumes "al_no_wrap a n"
  shows "wr a v = (if al_room a n then Some (al_written a (enc v)) else None)"
  by (simp add: write_is advance_by [OF assms] al_written_def enc_length)

lemma read_eq:
  assumes "al_ok a" "al_no_wrap a n"
  shows "rd a = (if al_room a n
     then Some (dec (al_get a (unat (al_cursor a)) n), a\<lparr>al_cursor := al_cursor a + of_nat n\<rparr>) else None)"
  using assms read_fails [of a] by (simp add: read_is advance_by al_get_def)

lemma write_then_read:
  assumes "al_ok a" "al_room a n"
  shows "\<exists>a'. wr a v = Some a' \<and> al_ok a' \<and> unat (al_cursor a') = unat (al_cursor a) + n
    \<and> rd (a'\<lparr>al_cursor := al_cursor a\<rparr>) = Some (v, a')"
proof -
  let ?a' = "al_written a (enc v)"
  note w = al_written_simps [of a "enc v", unfolded enc_length, OF assms]
  have ok: "al_ok (?a'\<lparr>al_cursor := al_cursor a\<rparr>)" "al_room (?a'\<lparr>al_cursor := al_cursor a\<rparr>) n"
    using assms w by (auto simp: al_ok_def al_room_def)
  have g: "al_get (?a'\<lparr>al_cursor := al_cursor a\<rparr>) (unat (al_cursor a)) n = enc v"
    using w(5) by (simp add: al_get_def)
  have "al_cursor ?a' = al_cursor a + of_nat n" by (simp add: al_written_def al_put_def enc_length)
  then have "rd (?a'\<lparr>al_cursor := al_cursor a\<rparr>) = Some (v, ?a')"
    using read_eq [OF ok(1) al_room_no_wrap [OF ok(2)]] ok(2) g dec_enc by simp
  then show ?thesis using write_eq [OF al_room_no_wrap [OF assms(2)], of v] assms(2) w by auto
qed

end

lemma nth_al_get: "i < n \<Longrightarrow> c + n \<le> length (al_buffer a) \<Longrightarrow> al_get a c n ! i = al_buffer a ! (c + i)"
  by (simp add: al_get_def)

lemma al_get_map: "c + n \<le> length (al_buffer a) \<Longrightarrow> al_get a c n = map (\<lambda>i. al_buffer a ! (c + i)) [0..<n]"
  by (auto simp: al_get_def intro!: nth_equalityI)

lemma room_bytes: "al_ok a \<Longrightarrow> al_room a n \<Longrightarrow> unat (al_cursor a) + n \<le> length (al_buffer a)"
  by (simp add: al_ok_def al_room_def)

lemmas read_defs = aligned_read_uint8_def aligned_read_uint16_def aligned_read_uint32_def aligned_read_uint64_def
lemmas write_defs = aligned_write_uint8_def aligned_write_uint16_def aligned_write_uint32_def aligned_write_uint64_def

lemma advance_by_data: "aligned_advance_by a n = Some (c, a') \<Longrightarrow> al_buffer a' = al_buffer a \<and> c = al_cursor a"
  by (auto simp: aligned_advance_by_def Let_def split: if_splits)

interpretation u8_codec: codec 1 "\<lambda>v. [v]" "\<lambda>bs. bs ! 0" aligned_write_uint8 aligned_read_uint8
  by unfold_locales
    (auto simp: read_defs write_defs nth_al_get dest!: room_bytes advance_by_data intro!: map_option_cong)

lemma le_lengths [simp]: "length (le16 v) = 2" "length (le32 w) = 4" "length (le64 x) = 8"
  by (simp_all add: le16_def le32_def le64_def)

lemma write_le:
  "aligned_write_uint16 a v = map_option (\<lambda>(c, a'). al_put a' (unat c) (le16 v)) (aligned_advance_by a 2)"
  "aligned_write_uint32 a w = map_option (\<lambda>(c, a'). al_put a' (unat c) (le32 w)) (aligned_advance_by a 4)"
  "aligned_write_uint64 a x = map_option (\<lambda>(c, a'). al_put a' (unat c) (le64 x)) (aligned_advance_by a 8)"
  by (simp_all only: write_defs le16_def le32_def le64_def)

lemma read_le:
  "al_ok a \<Longrightarrow> al_room a 2 \<Longrightarrow> aligned_read_uint16 a =
     map_option (\<lambda>(c, a'). (of_le16 (al_get a' (unat c) 2), a')) (aligned_advance_by a 2)"
  "al_ok a \<Longrightarrow> al_room a 4 \<Longrightarrow> aligned_read_uint32 a =
     map_option (\<lambda>(c, a'). (of_le32 (al_get a' (unat c) 4), a')) (aligned_advance_by a 4)"
  "al_ok a \<Longrightarrow> al_room a 8 \<Longrightarrow> aligned_read_uint64 a =
     map_option (\<lambda>(c, a'). (of_le64 (al_get a' (unat c) 8), a')) (aligned_advance_by a 8)"
  by (auto simp: read_defs of_le16_def of_le32_def of_le64_def nth_al_get Let_def
      dest!: room_bytes advance_by_data intro!: map_option_cong)

interpretation u16_codec: codec 2 le16 of_le16 aligned_write_uint16 aligned_read_uint16
  by unfold_locales (simp_all add: of_le16_le16 write_le read_le, simp add: read_defs)

interpretation u32_codec: codec 4 le32 of_le32 aligned_write_uint32 aligned_read_uint32
  by unfold_locales (simp_all add: of_le32_le32 write_le read_le, simp add: read_defs)

interpretation u64_codec: codec 8 le64 of_le64 aligned_write_uint64 aligned_read_uint64
  by unfold_locales (simp_all add: of_le64_le64 write_le read_le, simp add: read_defs)

section \<open>Messages\<close>

text \<open>
  A message is a sequence of fields, written and read one after the other, as the packet code
  does. The shape of a message is what the reader knows: the kinds of its fields and the lengths
  of its byte fields.
\<close>

datatype field = FU8 u8 | FU16 u16 | FU32 u32 | FU64 u64 | FBuf "u8 list"

fun field_size :: "field \<Rightarrow> nat" where
  "field_size (FU8 v) = 1" | "field_size (FU16 v) = 2" | "field_size (FU32 v) = 4" | "field_size (FU64 v) = 8"
| "field_size (FBuf bs) = length bs"

fun write_field :: "field \<Rightarrow> aligned \<Rightarrow> aligned option" where
  "write_field (FU8 v) a = aligned_write_uint8 a v"
| "write_field (FU16 v) a = aligned_write_uint16 a v"
| "write_field (FU32 v) a = aligned_write_uint32 a v"
| "write_field (FU64 v) a = aligned_write_uint64 a v"
| "write_field (FBuf bs) a = aligned_write_buffer a bs (of_nat (length bs))"

text \<open>The value of the first argument is ignored, its shape says what to read.\<close>

fun read_field :: "field \<Rightarrow> aligned \<Rightarrow> (field \<times> aligned) option" where
  "read_field (FU8 _) a = map_option (apfst FU8) (aligned_read_uint8 a)"
| "read_field (FU16 _) a = map_option (apfst FU16) (aligned_read_uint16 a)"
| "read_field (FU32 _) a = map_option (apfst FU32) (aligned_read_uint32 a)"
| "read_field (FU64 _) a = map_option (apfst FU64) (aligned_read_uint64 a)"
| "read_field (FBuf bs) a = map_option (apfst FBuf) (aligned_read_buffer a (of_nat (length bs)))"

fun write_fields :: "field list \<Rightarrow> aligned \<Rightarrow> aligned option" where
  "write_fields [] a = Some a"
| "write_fields (f # fs) a = Option.bind (write_field f a) (write_fields fs)"

fun read_fields :: "field list \<Rightarrow> aligned \<Rightarrow> (field list \<times> aligned) option" where
  "read_fields [] a = Some ([], a)"
| "read_fields (f # fs) a = Option.bind (read_field f a)
     (\<lambda>(v, a'). map_option (apfst (Cons v)) (read_fields fs a'))"

fun field_bytes :: "field \<Rightarrow> u8 list" where
  "field_bytes (FU8 v) = [v]" | "field_bytes (FU16 v) = le16 v" | "field_bytes (FU32 v) = le32 v"
| "field_bytes (FU64 v) = le64 v" | "field_bytes (FBuf bs) = bs"

lemma field_bytes_length [simp]: "length (field_bytes f) = field_size f"
  by (cases f) simp_all

lemma write_field_eq:
  assumes "al_room a (field_size f)"
  shows "write_field f a = Some (al_written a (field_bytes f))"
proof (cases f)
  case (FBuf bs)
  have "unat (of_nat (length bs) :: u32) = length bs"
    using al_room_no_wrap [OF assms] FBuf by (intro unat_of_nat_small) (simp add: al_no_wrap_def)
  then show ?thesis using assms FBuf advance_by [OF al_room_no_wrap [OF assms]]
    by (simp add: aligned_write_buffer_def al_written_def)
qed (use assms al_room_no_wrap [OF assms] in
    \<open>simp_all add: u8_codec.write_eq u16_codec.write_eq u32_codec.write_eq u64_codec.write_eq\<close>)

text \<open>Reading a field whose bytes stand at the cursor.\<close>

lemma read_field_eq:
  assumes "al_ok a" "al_room a (field_size f)" "al_get a (unat (al_cursor a)) (field_size f) = field_bytes f"
  shows "read_field f a = Some (f, a\<lparr>al_cursor := al_cursor a + of_nat (field_size f)\<rparr>)"
proof (cases f)
  case (FBuf bs)
  have "unat (of_nat (length bs) :: u32) = length bs"
    using al_room_no_wrap [OF assms(2)] FBuf by (intro unat_of_nat_small) (simp add: al_no_wrap_def)
  moreover have "map (\<lambda>i. al_buffer a ! (unat (al_cursor a) + i)) [0..<length bs] = bs"
    using assms(3) al_get_map [OF room_bytes [OF assms(1,2)]] FBuf by simp
  ultimately show ?thesis using assms FBuf advance_by [OF al_room_no_wrap [OF assms(2)]]
    by (simp add: aligned_read_buffer_def)
qed (use assms al_room_no_wrap [OF assms(2)] in
    \<open>simp_all add: u8_codec.read_eq u16_codec.read_eq u32_codec.read_eq u64_codec.read_eq
       of_le16_le16 of_le32_le32 of_le64_le64\<close>)

abbreviation message_bytes :: "field list \<Rightarrow> u8 list" where
  "message_bytes fs \<equiv> concat (map field_bytes fs)"

abbreviation message_size :: "field list \<Rightarrow> nat" where
  "message_size fs \<equiv> length (message_bytes fs)"

lemma al_written_Nil [simp]: "al_written a [] = a"
  by (simp add: al_written_def al_put_def)

lemma al_written_append:
  assumes "al_ok a" "al_room a (length xs + length ys)"
  shows "al_written (al_written a xs) ys = al_written a (xs @ ys)"
proof -
  have r: "al_room a (length xs)" using assms(2) by (simp add: al_room_def)
  have c: "unat (al_cursor (al_written a xs)) = unat (al_cursor a) + length xs"
    by (rule al_written_simps(2) [OF assms(1) r])
  have "unat (al_cursor a) + (length xs + length ys) \<le> length (al_buffer a)"
    by (rule room_bytes [OF assms])
  then show ?thesis
    using c by (simp add: al_written_def al_put_def add.assoc) (simp add: ac_simps)
qed

lemma write_fields_eq:
  "al_ok a \<Longrightarrow> al_room a (message_size fs) \<Longrightarrow> write_fields fs a = Some (al_written a (message_bytes fs))"
proof (induction fs arbitrary: a)
  case (Cons f fs)
  have r: "al_room a (field_size f)" using Cons.prems(2) by (simp add: al_room_def)
  have r': "al_room a (length (field_bytes f))" using r by simp
  note w = al_written_simps [OF Cons.prems(1) r']
  have "al_room (al_written a (field_bytes f)) (message_size fs)"
    using Cons.prems(2) w(2,3) by (simp add: al_room_def)
  then show ?case
    using Cons write_field_eq [OF r] w(1) al_written_append [of a "field_bytes f" "message_bytes fs"] by simp
qed simp

lemma write_fields_fail:
  "al_ok a \<Longrightarrow> al_no_wrap a (message_size fs) \<Longrightarrow> \<not> al_room a (message_size fs) \<Longrightarrow> write_fields fs a = None"
proof (induction fs arbitrary: a)
  case (Cons f fs)
  have nw: "al_no_wrap a (field_size f)" using Cons.prems(2) by (simp add: al_no_wrap_def)
  show ?case
  proof (cases "al_room a (field_size f)")
    case True
    then have "al_room a (length (field_bytes f))" by simp
    note w = al_written_simps [OF Cons.prems(1) this]
    have "write_fields fs (al_written a (field_bytes f)) = None"
      using Cons.prems(2,3) w by (intro Cons.IH) (auto simp: al_no_wrap_def al_room_def)
    then show ?thesis using write_field_eq [OF True] by simp
  next
    case False
    have "write_field f a = None"
    proof (cases f)
      case (FBuf bs)
      then show ?thesis using False advance_by [OF nw] by (simp add: aligned_write_buffer_def)
    qed (use False nw in \<open>simp_all add: u8_codec.write_eq u16_codec.write_eq u32_codec.write_eq u64_codec.write_eq\<close>)
    then show ?thesis by simp
  qed
qed (simp add: al_ok_def al_room_def word_le_nat_alt)

lemma al_get_append:
  assumes "al_get a c (n + m) = xs @ ys" "length xs = n"
  shows "al_get a c n = xs" "al_get a (c + n) m = ys"
proof -
  let ?X = "drop c (al_buffer a)"
  have "take n (take (n + m) ?X) = take n (xs @ ys)" "drop n (take (n + m) ?X) = drop n (xs @ ys)"
    using assms(1) by (simp_all add: al_get_def)
  then show "al_get a c n = xs" "al_get a (c + n) m = ys"
    using assms(2) by (simp_all add: al_get_def drop_take add.commute min_def)
qed

lemma read_fields_eq:
  "al_ok a \<Longrightarrow> al_room a (message_size fs) \<Longrightarrow>
   al_get a (unat (al_cursor a)) (message_size fs) = message_bytes fs \<Longrightarrow>
   read_fields fs a = Some (fs, a\<lparr>al_cursor := al_cursor a + of_nat (message_size fs)\<rparr>)"
proof (induction fs arbitrary: a)
  case (Cons f fs)
  have r: "al_room a (field_size f)" using Cons.prems(2) by (simp add: al_room_def)
  let ?a = "a\<lparr>al_cursor := al_cursor a + of_nat (field_size f)\<rparr>"
  have c: "unat (al_cursor ?a) = unat (al_cursor a) + field_size f"
    using unat_add_cursor al_room_no_wrap [OF r] by (simp add: al_no_wrap_def)
  have g: "al_get a (unat (al_cursor a)) (field_size f) = field_bytes f"
    "al_get a (unat (al_cursor a) + field_size f) (message_size fs) = message_bytes fs"
    using al_get_append [of a "unat (al_cursor a)" "field_size f" "message_size fs" "field_bytes f"] Cons.prems(3)
    by simp_all
  have "read_fields fs ?a = Some (fs, ?a\<lparr>al_cursor := al_cursor ?a + of_nat (message_size fs)\<rparr>)"
  proof (rule Cons.IH)
    show "al_ok ?a" "al_room ?a (message_size fs)"
      using Cons.prems(1,2) c by (auto simp: al_ok_def al_room_def word_le_nat_alt)
    show "al_get ?a (unat (al_cursor ?a)) (message_size fs) = message_bytes fs"
      using g(2) c by (simp add: al_get_def)
  qed
  then show ?case using read_field_eq [OF Cons.prems(1) r g(1)] by (simp add: add.assoc)
qed simp

text \<open>C18. A message written with the \<open>aligned_write\<close> functions is read back by the
  \<open>aligned_read\<close> functions: when the fields fit into the space left, every write succeeds, the
  cursor ends behind the last field, bytes in front of the message are untouched, and reading the
  same shape from where the message started yields the same values and the same cursor.\<close>

theorem aligned_message_roundtrip:
  assumes "al_ok a" "al_room a (message_size fs)"
  shows "\<exists>a'. write_fields fs a = Some a' \<and> al_ok a'
    \<and> unat (al_cursor a') = unat (al_cursor a) + message_size fs
    \<and> take (unat (al_cursor a)) (al_buffer a') = take (unat (al_cursor a)) (al_buffer a)
    \<and> read_fields fs (a'\<lparr>al_cursor := al_cursor a\<rparr>) = Some (fs, a')"
proof -
  let ?a' = "al_written a (message_bytes fs)"
  note w = al_written_simps [OF assms]
  have c: "al_cursor ?a' = al_cursor a + of_nat (message_size fs)" by (simp add: al_written_def al_put_def)
  have "read_fields fs (?a'\<lparr>al_cursor := al_cursor a\<rparr>) =
    Some (fs, ?a'\<lparr>al_cursor := al_cursor a + of_nat (message_size fs)\<rparr>)"
    using read_fields_eq [of "?a'\<lparr>al_cursor := al_cursor a\<rparr>" fs] assms w
    by (simp add: al_ok_def al_room_def al_get_def)
  then show ?thesis using write_fields_eq [OF assms] w by (simp flip: c)
qed

theorem aligned_message_roundtrip_witness:
  "\<exists>a'. write_fields [FU16 0x1234, FU32 7, FBuf [1, 2]] (aligned_init (replicate 8 0) 8) = Some a'
    \<and> read_fields [FU16 0x1234, FU32 7, FBuf [1, 2]] (a'\<lparr>al_cursor := 0\<rparr>) = Some ([FU16 0x1234, FU32 7, FBuf [1, 2]], a')"
  using aligned_message_roundtrip [of "aligned_init (replicate 8 0) 8" "[FU16 0x1234, FU32 7, FBuf [1, 2]]"]
  by (auto simp: al_ok_def al_room_def aligned_init_def)

text \<open>C19. The bounds check of the cursor: a message that does not fit into the space left makes one
  of the writes fail its assertion, so no byte is ever stored behind the end of the buffer. The
  hypothesis excludes cursor arithmetic that wraps around 32 bits, which the assertion would
  miss.\<close>

theorem aligned_message_overflow:
  assumes "al_ok a" "al_no_wrap a (message_size fs)" "\<not> al_room a (message_size fs)"
  shows "write_fields fs a = None"
  using assms by (rule write_fields_fail)

theorem aligned_message_overflow_witness:
  "write_fields [FU32 1, FU8 2] (aligned_init (replicate 4 0) 4) = None"
  using aligned_message_overflow [of "aligned_init (replicate 4 0) 4" "[FU32 1, FU8 2]"]
  by (simp add: al_ok_def al_room_def al_no_wrap_def aligned_init_def)

end
