(* ===== verification/Zeq_RingBuf.thy ===== *)
theory Zeq_RingBuf
  imports Zeq_Prelude
begin

text \<open>
  \<open>src/ringbuf.c\<close>: the bounded queue through which the threads of the server send each other
  messages. The model executes one call at a time: a compare-and-exchange then succeeds, and the
  retry loops around \<open>writeEnd\<close> and \<open>readEnd\<close> run once. The loops that advance over finished
  blocks are \<^theory_text>\<open>partial_function (option)\<close>. The indices are \<open>int16_t\<close> and the
  slot count is at most \<open>SHRT_MAX\<close>, so they are natural numbers here. The payload of
  \<open>dataSize\<close> bytes is polymorphic, and a \<open>NULL\<close> payload is \<open>None\<close>.
\<close>

section \<open>State\<close>

record 'd ringblock =
  rk_nextIndex :: nat
  rk_hasBeenRead :: bool
  rk_hasBeenWritten :: bool
  rk_opcode :: int
  rk_data :: 'd

record 'd ringbuf =
  rb_readStart :: nat
  rb_readEnd :: nat
  rb_writeStart :: nat
  rb_writeEnd :: nat
  rb_semaphore :: nat
  rb_blocks :: "'d ringblock list"

definition RINGBUF_MIN_PACKETS :: nat where "RINGBUF_MIN_PACKETS = 2"

definition RINGBUF_MAX_PACKETS :: nat where "RINGBUF_MAX_PACKETS = 32767"

text \<open>\<open>blank\<close> is what the fresh allocation holds as payload, the opcode is as arbitrary.\<close>

definition ringbuf_init_block :: "'d \<Rightarrow> nat \<Rightarrow> 'd ringblock" where
  "ringbuf_init_block blank nx =
     \<lparr>rk_nextIndex = nx, rk_hasBeenRead = False, rk_hasBeenWritten = False, rk_opcode = 0, rk_data = blank\<rparr>"

definition ringbuf_init :: "'d \<Rightarrow> nat \<Rightarrow> 'd ringbuf" where
  "ringbuf_init blank slotCount =
     (let n = slotCount - 1
      in \<lparr>rb_readStart = 0, rb_readEnd = 0, rb_writeStart = 0, rb_writeEnd = 0, rb_semaphore = 0,
          rb_blocks = [ringbuf_init_block blank 1]
            @ map (\<lambda>i. ringbuf_init_block blank (i + 1)) [1..<n]
            @ [ringbuf_init_block blank 0]\<rparr>)"

text \<open>The \<open>assert\<close> on the slot count, and the allocation and the semaphore succeeding or not.\<close>

definition ringbuf_create :: "bool \<Rightarrow> bool \<Rightarrow> 'd \<Rightarrow> nat \<Rightarrow> 'd ringbuf option option" where
  "ringbuf_create alloc_ok sem_ok blank slotCount =
     (if \<not> (RINGBUF_MIN_PACKETS \<le> slotCount \<and> slotCount \<le> RINGBUF_MAX_PACKETS) then None
      else if \<not> alloc_ok then Some None
      else if \<not> sem_ok then Some None
      else Some (Some (ringbuf_init blank slotCount)))"

section \<open>Semaphore\<close>

text \<open>
  \<open>sem_wait\<close> on a count of 0 blocks: the outer option of \<open>ringbuf_wait\<close>. Its error, which gives
  \<open>ERR_Semaphore\<close>, is left out: POSIX has it for a call interrupted by a signal and for an invalid semaphore.
\<close>

definition ringbuf_wait :: "'d ringbuf \<Rightarrow> (zerr \<times> 'd ringbuf) option" where
  "ringbuf_wait rb =
     (if rb_semaphore rb = 0 then None else Some (ERR_None, rb\<lparr>rb_semaphore := rb_semaphore rb - 1\<rparr>))"

definition ringbuf_try_wait :: "'d ringbuf \<Rightarrow> zerr \<times> 'd ringbuf" where
  "ringbuf_try_wait rb =
     (if rb_semaphore rb = 0 then (ERR_WouldBlock, rb) else (ERR_None, rb\<lparr>rb_semaphore := rb_semaphore rb - 1\<rparr>))"

definition ringbuf_signal :: "'d ringbuf \<Rightarrow> zerr \<times> 'd ringbuf" where
  "ringbuf_signal rb = (ERR_None, rb\<lparr>rb_semaphore := rb_semaphore rb + 1\<rparr>)"

section \<open>Pushing\<close>

definition rb_upd :: "'d ringbuf \<Rightarrow> nat \<Rightarrow> ('d ringblock \<Rightarrow> 'd ringblock) \<Rightarrow> 'd ringbuf" where
  "rb_upd rb i f = rb\<lparr>rb_blocks := (rb_blocks rb)[i := f (rb_blocks rb ! i)]\<rparr>"

partial_function (option) ringbuf_advance_write :: "'d ringbuf \<Rightarrow> 'd ringbuf option" where
  "ringbuf_advance_write rb =
     (let index = rb_writeStart rb;
          block = rb_blocks rb ! index
      in if \<not> rk_hasBeenWritten block then Some rb
         else ringbuf_advance_write
           ((rb_upd rb index (\<lambda>b. b\<lparr>rk_hasBeenWritten := False\<rparr>))\<lparr>rb_writeStart := rk_nextIndex block\<rparr>))"

definition ringbuf_push_impl :: "'d ringbuf \<Rightarrow> nat \<Rightarrow> int \<Rightarrow> 'd option \<Rightarrow> 'd ringbuf option" where
  "ringbuf_push_impl rb index opcode p =
     (let rb = rb_upd rb index (\<lambda>b. b\<lparr>rk_opcode := opcode\<rparr>);
          rb = (case p of Some d \<Rightarrow> rb_upd rb index (\<lambda>b. b\<lparr>rk_data := d\<rparr>) | None \<Rightarrow> rb);
          rb = rb_upd rb index (\<lambda>b. b\<lparr>rk_hasBeenWritten := True\<rparr>)
      in ringbuf_advance_write rb)"

definition ringbuf_push :: "'d ringbuf \<Rightarrow> int \<Rightarrow> 'd option \<Rightarrow> (zerr \<times> 'd ringbuf) option" where
  "ringbuf_push rb opcode p =
     (let index = rb_writeEnd rb;
          block = rb_blocks rb ! index
      in if rk_nextIndex block = rb_readStart rb then Some (ERR_OutOfSpace, rb)
         else map_option ringbuf_signal
                (ringbuf_push_impl (rb\<lparr>rb_writeEnd := rk_nextIndex block\<rparr>) index opcode p))"

section \<open>Popping\<close>

partial_function (option) ringbuf_advance_read :: "'d ringbuf \<Rightarrow> 'd ringbuf option" where
  "ringbuf_advance_read rb =
     (let index = rb_readStart rb;
          block = rb_blocks rb ! index
      in if \<not> rk_hasBeenRead block then Some rb
         else ringbuf_advance_read
           ((rb_upd rb index (\<lambda>b. b\<lparr>rk_hasBeenRead := False\<rparr>))\<lparr>rb_readStart := rk_nextIndex block\<rparr>))"

text \<open>The opcode and the payload of the block are what the caller may copy out.\<close>

definition ringbuf_pop_impl :: "'d ringbuf \<Rightarrow> nat \<Rightarrow> ((int \<times> 'd) \<times> 'd ringbuf) option" where
  "ringbuf_pop_impl rb index =
     (let block = rb_blocks rb ! index;
          out = (rk_opcode block, rk_data block)
      in map_option (Pair out) (ringbuf_advance_read (rb_upd rb index (\<lambda>b. b\<lparr>rk_hasBeenRead := True\<rparr>))))"

definition ringbuf_pop :: "'d ringbuf \<Rightarrow> (zerr \<times> (int \<times> 'd) option \<times> 'd ringbuf) option" where
  "ringbuf_pop rb =
     (let index = rb_readEnd rb;
          block = rb_blocks rb ! index
      in if index = rb_writeStart rb then Some (ERR_Again, None, rb)
         else map_option (\<lambda>(out, rb). (ERR_None, Some out, rb))
                (ringbuf_pop_impl (rb\<lparr>rb_readEnd := rk_nextIndex block\<rparr>) index))"

partial_function (option) ringbuf_wait_for_packet ::
    "'d ringbuf \<Rightarrow> (zerr \<times> (int \<times> 'd) option \<times> 'd ringbuf) option" where
  "ringbuf_wait_for_packet rb =
     (case ringbuf_wait rb of
        None \<Rightarrow> None
      | Some (rc, rb) \<Rightarrow>
          if rc \<noteq> ERR_None then Some (rc, None, rb)
          else case ringbuf_pop rb of
            None \<Rightarrow> None
          | Some (rc, out, rb) \<Rightarrow>
              if rc \<noteq> ERR_Again then Some (rc, out, rb) else ringbuf_wait_for_packet rb)"

text \<open>
  The polling variant: \<open>clock\<close> lists the values \<open>clock_milliseconds\<close> returns at the end of each
  iteration, and the list running out means that the loop has not ended yet.
\<close>

fun ringbuf_poll :: "'d ringbuf \<Rightarrow> nat \<Rightarrow> nat list \<Rightarrow> (zerr \<times> (int \<times> 'd) option \<times> 'd ringbuf) option" where
  "ringbuf_poll rb timestamp [] = None"
| "ringbuf_poll rb timestamp (now # clock) =
     (let (rc, rb) = ringbuf_try_wait rb
      in if rc = ERR_None
         then case ringbuf_pop rb of
                None \<Rightarrow> None
              | Some (rc, out, rb) \<Rightarrow>
                  if rc \<noteq> ERR_Again then Some (rc, out, rb)
                  else if now \<ge> timestamp then Some (rc, None, rb)
                  else ringbuf_poll rb timestamp clock
         else if now \<ge> timestamp then Some (rc, None, rb)
         else ringbuf_poll rb timestamp clock)"

definition ringbuf_wait_for_packet_with_timeout ::
    "'d ringbuf \<Rightarrow> nat \<Rightarrow> nat \<Rightarrow> nat list \<Rightarrow> (zerr \<times> (int \<times> 'd) option \<times> 'd ringbuf) option" where
  "ringbuf_wait_for_packet_with_timeout rb start timeoutMs clock = ringbuf_poll rb (start + timeoutMs) clock"

declare ringbuf_advance_write.simps [code] ringbuf_advance_read.simps [code] ringbuf_wait_for_packet.simps [code]

section \<open>The contract of a bounded queue\<close>

text \<open>
  What the threads rely on. A push says whether it was accepted, a pop returns the oldest element
  or nothing. The lemma of the locale lifts the two laws to whole runs: the answers of any
  sequence of operations are those of a list.
\<close>

datatype 'e queue_op = Push 'e | Pop

fun list_run :: "nat \<Rightarrow> 'e list \<Rightarrow> 'e queue_op list \<Rightarrow> (bool \<times> 'e option) list \<times> 'e list" where
  "list_run cap xs [] = ([], xs)"
| "list_run cap xs (Push x # ops) =
     (if length xs < cap then apfst (Cons (True, None)) (list_run cap (xs @ [x]) ops)
      else apfst (Cons (False, None)) (list_run cap xs ops))"
| "list_run cap [] (Pop # ops) = apfst (Cons (False, None)) (list_run cap [] ops)"
| "list_run cap (x # xs) (Pop # ops) = apfst (Cons (True, Some x)) (list_run cap xs ops)"

fun queue_run ::
    "('q \<Rightarrow> 'e \<Rightarrow> (bool \<times> 'q) option) \<Rightarrow> ('q \<Rightarrow> ('e option \<times> 'q) option) \<Rightarrow> 'q \<Rightarrow> 'e queue_op list
      \<Rightarrow> ((bool \<times> 'e option) list \<times> 'q) option" where
  "queue_run push pop q [] = Some ([], q)"
| "queue_run push pop q (Push x # ops) =
     Option.bind (push q x) (\<lambda>(ok, q'). map_option (apfst (Cons (ok, None))) (queue_run push pop q' ops))"
| "queue_run push pop q (Pop # ops) =
     Option.bind (pop q) (\<lambda>(r, q'). map_option (apfst (Cons (r \<noteq> None, r))) (queue_run push pop q' ops))"

locale bounded_queue =
  fixes inv :: "'q \<Rightarrow> bool" and contents :: "'q \<Rightarrow> 'e list" and cap :: "'q \<Rightarrow> nat"
    and push :: "'q \<Rightarrow> 'e \<Rightarrow> (bool \<times> 'q) option" and pop :: "'q \<Rightarrow> ('e option \<times> 'q) option"
  assumes push_law: "inv q \<Longrightarrow>
      \<exists>q'. push q x = Some (length (contents q) < cap q, q') \<and> inv q' \<and> cap q' = cap q
        \<and> contents q' = (if length (contents q) < cap q then contents q @ [x] else contents q)"
    and pop_law: "inv q \<Longrightarrow>
      \<exists>q'. pop q = Some (if contents q = [] then None else Some (hd (contents q)), q') \<and> inv q' \<and> cap q' = cap q
        \<and> contents q' = tl (contents q)"
begin

lemma run_refines:
  "inv q \<Longrightarrow> \<exists>q'. queue_run push pop q ops = Some (fst (list_run (cap q) (contents q) ops), q')
     \<and> inv q' \<and> contents q' = snd (list_run (cap q) (contents q) ops)"
proof (induction ops arbitrary: q)
  case (Cons a ops)
  show ?case
  proof (cases a)
    case (Push x)
    from push_law [OF Cons.prems, of x] obtain q' where
      q': "push q x = Some (length (contents q) < cap q, q')" "inv q'" "cap q' = cap q"
      "contents q' = (if length (contents q) < cap q then contents q @ [x] else contents q)" by blast
    from Cons.IH [OF q'(2)] show ?thesis using q' Push by (auto split: if_splits)
  next
    case Pop
    from pop_law [OF Cons.prems] obtain q' where
      q': "pop q = Some (if contents q = [] then None else Some (hd (contents q)), q')" "inv q'" "cap q' = cap q"
      "contents q' = tl (contents q)" by blast
    from Cons.IH [OF q'(2)] show ?thesis using q' Pop by (cases "contents q") auto
  qed
qed simp

end

section \<open>The ring as a queue\<close>

definition rb_inv :: "'d ringbuf \<Rightarrow> bool" where
  "rb_inv rb \<longleftrightarrow> (let n = length (rb_blocks rb) in
     2 \<le> n \<and> n \<le> RINGBUF_MAX_PACKETS
     \<and> rb_readStart rb = rb_readEnd rb \<and> rb_readEnd rb < n
     \<and> rb_writeStart rb = rb_writeEnd rb \<and> rb_writeEnd rb < n
     \<and> (\<forall>i < n. rk_nextIndex (rb_blocks rb ! i) = Suc i mod n
          \<and> \<not> rk_hasBeenRead (rb_blocks rb ! i) \<and> \<not> rk_hasBeenWritten (rb_blocks rb ! i)))"

definition rb_count :: "'d ringbuf \<Rightarrow> nat" where
  "rb_count rb = (rb_writeEnd rb + length (rb_blocks rb) - rb_readEnd rb) mod length (rb_blocks rb)"

definition rb_contents :: "'d ringbuf \<Rightarrow> (int \<times> 'd) list" where
  "rb_contents rb = map (\<lambda>k. let b = rb_blocks rb ! ((rb_readEnd rb + k) mod length (rb_blocks rb))
     in (rk_opcode b, rk_data b)) [0..<rb_count rb]"

definition rb_capacity :: "'d ringbuf \<Rightarrow> nat" where
  "rb_capacity rb = length (rb_blocks rb) - 1"

lemma mod_add_lt: "r < (n :: nat) \<Longrightarrow> k \<le> n \<Longrightarrow> (r + k) mod n = (if r + k < n then r + k else r + k - n)"
  by (auto simp: le_mod_geq not_less)

lemma mod_sub_lt: "r < (n :: nat) \<Longrightarrow> w < n \<Longrightarrow> (w + n - r) mod n = (if r \<le> w then w - r else w + n - r)"
  by (auto simp: le_mod_geq not_le)

lemma mod_Suc_lt: "r < n \<Longrightarrow> Suc r mod n = (if Suc r = n then 0 else Suc r)"
  by auto

lemma rb_contents_length [simp]: "length (rb_contents rb) = rb_count rb"
  by (simp add: rb_contents_def)

lemma rb_upd_simps [simp]:
  "rb_blocks (rb_upd rb i f) = (rb_blocks rb)[i := f (rb_blocks rb ! i)]"
  "rb_readStart (rb_upd rb i f) = rb_readStart rb" "rb_readEnd (rb_upd rb i f) = rb_readEnd rb"
  "rb_writeStart (rb_upd rb i f) = rb_writeStart rb" "rb_writeEnd (rb_upd rb i f) = rb_writeEnd rb"
  "rb_semaphore (rb_upd rb i f) = rb_semaphore rb"
  by (simp_all add: rb_upd_def)

lemma ringbuf_init_inv:
  assumes "2 \<le> n" "n \<le> RINGBUF_MAX_PACKETS"
  shows "rb_inv (ringbuf_init blank n)" "rb_contents (ringbuf_init blank n) = []"
    "rb_capacity (ringbuf_init blank n) = n - 1"
proof -
  have len: "length (rb_blocks (ringbuf_init blank n)) = n" using assms by (simp add: ringbuf_init_def Let_def)
  have nth: "rb_blocks (ringbuf_init blank n) ! i = ringbuf_init_block blank (Suc i mod n)" if i: "i < n" for i
  proof -
    consider "i = 0" | "0 < i" "i < n - 1" | "i = n - 1"
      using i by linarith
    then show ?thesis
      using assms by cases (auto simp: ringbuf_init_def Let_def nth_append nth_Cons')
  qed
  show "rb_inv (ringbuf_init blank n)"
    using assms nth len by (simp add: rb_inv_def Let_def ringbuf_init_block_def) (simp add: ringbuf_init_def Let_def)
  show "rb_contents (ringbuf_init blank n) = []" using len
    by (simp add: rb_contents_def rb_count_def) (simp add: ringbuf_init_def Let_def)
  show "rb_capacity (ringbuf_init blank n) = n - 1" using len by (simp add: rb_capacity_def)
qed

lemma advance_write_stop:
  "\<not> rk_hasBeenWritten (rb_blocks rb ! rb_writeStart rb) \<Longrightarrow> ringbuf_advance_write rb = Some rb"
  by (subst ringbuf_advance_write.simps) (simp add: Let_def)

lemma advance_write_step:
  "rk_hasBeenWritten (rb_blocks rb ! rb_writeStart rb) \<Longrightarrow> ringbuf_advance_write rb = ringbuf_advance_write
     ((rb_upd rb (rb_writeStart rb) (\<lambda>b. b\<lparr>rk_hasBeenWritten := False\<rparr>))
        \<lparr>rb_writeStart := rk_nextIndex (rb_blocks rb ! rb_writeStart rb)\<rparr>)"
  by (subst ringbuf_advance_write.simps) (simp add: Let_def)

lemma advance_read_stop:
  "\<not> rk_hasBeenRead (rb_blocks rb ! rb_readStart rb) \<Longrightarrow> ringbuf_advance_read rb = Some rb"
  by (subst ringbuf_advance_read.simps) (simp add: Let_def)

lemma advance_read_step:
  "rk_hasBeenRead (rb_blocks rb ! rb_readStart rb) \<Longrightarrow> ringbuf_advance_read rb = ringbuf_advance_read
     ((rb_upd rb (rb_readStart rb) (\<lambda>b. b\<lparr>rk_hasBeenRead := False\<rparr>))
        \<lparr>rb_readStart := rk_nextIndex (rb_blocks rb ! rb_readStart rb)\<rparr>)"
  by (subst ringbuf_advance_read.simps) (simp add: Let_def)

text \<open>A call that stores one element and advances over it.\<close>

lemma ringbuf_push_ok:
  fixes rb :: "'d ringbuf"
  assumes inv: "rb_inv rb"
  obtains (full) "rb_count rb = rb_capacity rb" "ringbuf_push rb opcode (Some d) = Some (ERR_OutOfSpace, rb)"
  | (stored) rb' where "rb_count rb < rb_capacity rb" "ringbuf_push rb opcode (Some d) = Some (ERR_None, rb')"
      "rb_inv rb'" "rb_capacity rb' = rb_capacity rb" "rb_contents rb' = rb_contents rb @ [(opcode, d)]"
proof -
  let ?n = "length (rb_blocks rb)" let ?w = "rb_writeEnd rb" let ?r = "rb_readEnd rb" let ?b = "rb_blocks rb ! ?w"
  have I: "2 \<le> ?n" "rb_readStart rb = ?r" "rb_writeStart rb = ?w" "?w < ?n" "?r < ?n"
    "\<forall>i < ?n. rk_nextIndex (rb_blocks rb ! i) = Suc i mod ?n
      \<and> \<not> rk_hasBeenRead (rb_blocks rb ! i) \<and> \<not> rk_hasBeenWritten (rb_blocks rb ! i)"
    using inv by (auto simp: rb_inv_def Let_def)
  have cnt: "rb_count rb = (if ?r \<le> ?w then ?w - ?r else ?w + ?n - ?r)"
    using mod_sub_lt [OF I(5,4)] by (simp add: rb_count_def)
  show ?thesis
  proof (cases "Suc ?w mod ?n = ?r")
    case True
    then have "rb_count rb = rb_capacity rb" using I cnt by (auto simp: rb_capacity_def mod_Suc_lt split: if_splits)
    then show ?thesis using full I True by (simp add: ringbuf_push_def Let_def)
  next
    case False
    let ?b' = "?b\<lparr>rk_opcode := opcode, rk_data := d, rk_hasBeenWritten := False\<rparr>"
    let ?rb' = "rb\<lparr>rb_writeEnd := Suc ?w mod ?n, rb_blocks := (rb_blocks rb)[?w := ?b'],
      rb_writeStart := Suc ?w mod ?n, rb_semaphore := Suc (rb_semaphore rb)\<rparr>"
    have nw: "\<not> rk_hasBeenWritten (if Suc ?w = ?n then rb_blocks rb ! 0 else rb_blocks rb ! Suc ?w)"
    proof (cases "Suc ?w = ?n")
      case True
      have "0 < ?n" using I(1) by linarith
      then show ?thesis using True I(6) by simp
    next
      case no: False
      then have "Suc ?w < ?n" using I(4) by simp
      then show ?thesis using no I(6) by simp
    qed
    have ne: "?w \<noteq> (if Suc ?w = ?n then 0 else Suc ?w)" using I(1,4) by auto
    let ?nx = "Suc ?w mod ?n"
    have push: "ringbuf_push rb opcode (Some d) = map_option ringbuf_signal (ringbuf_advance_write
        (rb\<lparr>rb_writeEnd := ?nx, rb_blocks := (rb_blocks rb)[?w := ?b\<lparr>rk_opcode := opcode, rk_data := d, rk_hasBeenWritten := True\<rparr>]\<rparr>))"
      using I False by (simp add: ringbuf_push_def ringbuf_push_impl_def Let_def rb_upd_def)
    have "ringbuf_advance_write
        (rb\<lparr>rb_writeEnd := ?nx, rb_blocks := (rb_blocks rb)[?w := ?b\<lparr>rk_opcode := opcode, rk_data := d, rk_hasBeenWritten := True\<rparr>]\<rparr>) =
      ringbuf_advance_write
        (rb\<lparr>rb_writeEnd := ?nx, rb_blocks := (rb_blocks rb)[?w := ?b'], rb_writeStart := ?nx\<rparr>)"
      using I by (subst advance_write_step) (simp_all add: rb_upd_def)
    also have "\<dots> = Some (rb\<lparr>rb_writeEnd := ?nx, rb_blocks := (rb_blocks rb)[?w := ?b'], rb_writeStart := ?nx\<rparr>)"
      using nw ne I(4) by (intro advance_write_stop) (simp add: mod_Suc_lt split: if_splits)
    finally have "ringbuf_push rb opcode (Some d) = Some (ERR_None, ?rb')"
      by (simp add: push ringbuf_signal_def)
    moreover have "rb_inv ?rb'"
    proof -
      have "Suc ?w mod ?n < ?n" using I(1) by (intro mod_less_divisor) linarith
      then show ?thesis using inv I by (auto simp: rb_inv_def Let_def nth_list_update)
    qed
    moreover have lt: "rb_count rb < rb_capacity rb" using I cnt False by (auto simp: rb_capacity_def mod_Suc_lt split: if_splits)
    moreover have cnt': "rb_count ?rb' = Suc (rb_count rb)"
      using I cnt False mod_sub_lt [OF I(5), of "Suc ?w mod ?n"] by (auto simp: rb_count_def mod_Suc_lt split: if_splits)
    have "rb_contents ?rb' = rb_contents rb @ [(opcode, d)]"
    proof (rule nth_equalityI)
      fix k assume "k < length (rb_contents ?rb')"
      then have k: "k \<le> rb_count rb" using cnt' by simp
      have kn: "k < ?n" using k lt by (simp add: rb_capacity_def)
      have pos: "(?r + k) mod ?n = ?w \<longleftrightarrow> k = rb_count rb"
        using mod_add_lt [OF I(5), of k] kn k cnt I(4,5) by (auto split: if_splits)
      show "rb_contents ?rb' ! k = (rb_contents rb @ [(opcode, d)]) ! k"
        using k pos I(4) by (auto simp: rb_contents_def cnt' nth_append Let_def simp del: upt_Suc)
    qed (use cnt' in simp)
    ultimately show ?thesis using stored [of ?rb'] by (simp add: rb_capacity_def)
  qed
qed

lemma rb_contents_Cons:
  assumes "rb_inv rb" "rb_readEnd rb \<noteq> rb_writeEnd rb"
  shows "rb_contents rb = (let b = rb_blocks rb ! rb_readEnd rb in (rk_opcode b, rk_data b)) #
    map (\<lambda>k. let b = rb_blocks rb ! ((Suc (rb_readEnd rb) mod length (rb_blocks rb) + k) mod length (rb_blocks rb))
      in (rk_opcode b, rk_data b)) [0..<rb_count rb - 1]"
proof -
  let ?n = "length (rb_blocks rb)"
  have I: "rb_writeEnd rb < ?n" "rb_readEnd rb < ?n" using assms(1) by (auto simp: rb_inv_def Let_def)
  have "0 < rb_count rb" using mod_sub_lt [OF I(2,1)] assms(2) I by (auto simp: rb_count_def)
  then have "[0..<rb_count rb] = 0 # map Suc [0..<rb_count rb - 1]" by (simp add: upt_conv_Cons map_Suc_upt)
  moreover have "(Suc (rb_readEnd rb) mod ?n + k) mod ?n = (rb_readEnd rb + Suc k) mod ?n" for k
    by (metis add_Suc_shift mod_add_left_eq)
  ultimately show ?thesis using I(2) by (simp add: rb_contents_def)
qed

lemma ringbuf_pop_ok:
  fixes rb :: "'d ringbuf"
  assumes inv: "rb_inv rb"
  obtains (empty) "rb_contents rb = []" "ringbuf_pop rb = Some (ERR_Again, None, rb)"
  | (taken) x rb' where "ringbuf_pop rb = Some (ERR_None, Some x, rb')" "rb_contents rb = x # rb_contents rb'"
      "rb_inv rb'" "rb_capacity rb' = rb_capacity rb" "rb_semaphore rb' = rb_semaphore rb"
proof -
  let ?n = "length (rb_blocks rb)" let ?w = "rb_writeEnd rb" let ?r = "rb_readEnd rb" let ?b = "rb_blocks rb ! ?r"
  have I: "2 \<le> ?n" "rb_readStart rb = ?r" "rb_writeStart rb = ?w" "?w < ?n" "?r < ?n"
    "\<forall>i < ?n. rk_nextIndex (rb_blocks rb ! i) = Suc i mod ?n
      \<and> \<not> rk_hasBeenRead (rb_blocks rb ! i) \<and> \<not> rk_hasBeenWritten (rb_blocks rb ! i)"
    using inv by (auto simp: rb_inv_def Let_def)
  show ?thesis
  proof (cases "?r = ?w")
    case True
    then have "rb_count rb = 0" using mod_sub_lt [OF I(5,4)] by (simp add: rb_count_def)
    then have "rb_contents rb = []" by (simp add: rb_contents_def)
    then show ?thesis using empty I(3) True by (simp add: ringbuf_pop_def Let_def)
  next
    case False
    let ?nx = "Suc ?r mod ?n" let ?b' = "?b\<lparr>rk_hasBeenRead := False\<rparr>"
    let ?rb' = "rb\<lparr>rb_readEnd := ?nx, rb_blocks := (rb_blocks rb)[?r := ?b'], rb_readStart := ?nx\<rparr>"
    have nx: "?nx < ?n" "?nx \<noteq> ?r" using I(1,5) by (auto simp: mod_Suc_lt)
    have b': "?b' = ?b" using I(5,6) by simp
    have pop: "ringbuf_pop rb = map_option (\<lambda>(out, rb). (ERR_None, Some out, rb))
        (map_option (Pair (rk_opcode ?b, rk_data ?b)) (ringbuf_advance_read
           (rb\<lparr>rb_readEnd := ?nx, rb_blocks := (rb_blocks rb)[?r := ?b\<lparr>rk_hasBeenRead := True\<rparr>]\<rparr>)))"
      using I False by (simp add: ringbuf_pop_def ringbuf_pop_impl_def Let_def rb_upd_def)
    have "ringbuf_advance_read
        (rb\<lparr>rb_readEnd := ?nx, rb_blocks := (rb_blocks rb)[?r := ?b\<lparr>rk_hasBeenRead := True\<rparr>]\<rparr>) = ringbuf_advance_read ?rb'"
      using I by (subst advance_read_step) (simp_all add: rb_upd_def)
    also have "\<dots> = Some ?rb'"
      using nx I(6) by (intro advance_read_stop) simp
    finally have "ringbuf_pop rb = Some (ERR_None, Some (rk_opcode ?b, rk_data ?b), ?rb')" by (simp add: pop)
    moreover have same: "(rb_blocks rb)[?r := ?b'] = rb_blocks rb" unfolding b' by simp
    have "rb_inv ?rb'" using inv nx I(2) unfolding same by (auto simp: rb_inv_def Let_def)
    moreover have "rb_count ?rb' = rb_count rb - 1"
      using I False mod_sub_lt [OF nx(1) I(4)] mod_sub_lt [OF I(5,4)]
      by (auto simp: rb_count_def mod_Suc_lt split: if_splits)
    then have "rb_contents rb = (rk_opcode ?b, rk_data ?b) # rb_contents ?rb'"
      unfolding rb_contents_Cons [OF inv False] unfolding rb_contents_def same
      by (simp add: Let_def b')
    ultimately show ?thesis using taken [of _ ?rb'] by (simp add: rb_capacity_def)
  qed
qed

section \<open>The queue of the server\<close>

text \<open>The two operations in the form of the contract, and the interpretation.\<close>

definition rb_put :: "'d ringbuf \<Rightarrow> int \<times> 'd \<Rightarrow> (bool \<times> 'd ringbuf) option" where
  "rb_put rb x = map_option (apfst (\<lambda>rc. rc = ERR_None)) (ringbuf_push rb (fst x) (Some (snd x)))"

definition rb_take :: "'d ringbuf \<Rightarrow> ((int \<times> 'd) option \<times> 'd ringbuf) option" where
  "rb_take rb = map_option snd (ringbuf_pop rb)"

interpretation ring: bounded_queue rb_inv rb_contents rb_capacity rb_put rb_take
proof
  fix q :: "'d ringbuf" and x :: "int \<times> 'd"
  assume inv: "rb_inv q"
  show "\<exists>q'. rb_put q x = Some (length (rb_contents q) < rb_capacity q, q') \<and> rb_inv q' \<and> rb_capacity q' = rb_capacity q
      \<and> rb_contents q' = (if length (rb_contents q) < rb_capacity q then rb_contents q @ [x] else rb_contents q)"
    by (rule ringbuf_push_ok [OF inv, of "fst x" "snd x"]) (use inv in \<open>auto simp: rb_put_def\<close>)
  show "\<exists>q'. rb_take q = Some (if rb_contents q = [] then None else Some (hd (rb_contents q)), q') \<and> rb_inv q'
      \<and> rb_capacity q' = rb_capacity q \<and> rb_contents q' = tl (rb_contents q)"
    by (rule ringbuf_pop_ok [OF inv]) (use inv in \<open>auto simp: rb_take_def\<close>)
qed

text \<open>C14. \<open>ringbuf_push\<close> and \<open>ringbuf_pop\<close>, called one after the other in any order on a ring
  that \<open>ringbuf_create\<close> made, answer exactly as a first-in first-out queue of at most
  \<open>slotCount - 1\<close> elements: every call returns, a push is refused exactly when that many elements
  wait, and a pop delivers the elements in the order of the pushes.\<close>

theorem ringbuf_fifo:
  assumes "RINGBUF_MIN_PACKETS \<le> n" "n \<le> RINGBUF_MAX_PACKETS"
  shows "\<exists>rb rb'. ringbuf_create True True blank n = Some (Some rb)
    \<and> queue_run rb_put rb_take rb ops = Some (fst (list_run (n - 1) [] ops), rb')
    \<and> rb_contents rb' = snd (list_run (n - 1) [] ops)"
proof -
  have n: "2 \<le> n" "n \<le> RINGBUF_MAX_PACKETS" using assms by (simp_all add: RINGBUF_MIN_PACKETS_def)
  note i = ringbuf_init_inv [OF n, of blank]
  from ring.run_refines [OF i(1), of ops] i(2,3) show ?thesis
    using assms by (auto simp: ringbuf_create_def)
qed

theorem ringbuf_fifo_witness:
  "\<exists>rb rb'. ringbuf_create True True (0 :: nat) 3 = Some (Some rb)
    \<and> queue_run rb_put rb_take rb [Push (1, 10), Push (2, 20), Push (3, 30), Pop, Pop, Pop] =
        Some ([(True, None), (True, None), (False, None), (True, Some (1, 10)), (True, Some (2, 20)), (False, None)], rb')"
  using ringbuf_fifo [of 3 "0 :: nat" "[Push (1, 10), Push (2, 20), Push (3, 30), Pop, Pop, Pop]"]
  by (auto simp: RINGBUF_MIN_PACKETS_def RINGBUF_MAX_PACKETS_def)

text \<open>The advance loop leaves the semaphore alone, so an accepted push signals once.\<close>

lemma advance_write_semaphore: "ringbuf_advance_write rb = Some rb' \<Longrightarrow> rb_semaphore rb' = rb_semaphore rb"
proof (rule ringbuf_advance_write.raw_induct [where P = "\<lambda>rb rb'. rb_semaphore rb' = rb_semaphore rb"])
  fix f and rb rb' :: "'d ringbuf"
  assume IH: "\<And>rb rb' :: 'd ringbuf. f rb = Some rb' \<Longrightarrow> rb_semaphore rb' = rb_semaphore rb"
    and eq: "(let index = rb_writeStart rb; block = rb_blocks rb ! index
      in if \<not> rk_hasBeenWritten block then Some rb
         else f ((rb_upd rb index (\<lambda>b. b\<lparr>rk_hasBeenWritten := False\<rparr>))\<lparr>rb_writeStart := rk_nextIndex block\<rparr>)) = Some rb'"
  from eq show "rb_semaphore rb' = rb_semaphore rb" by (auto simp: Let_def dest: IH split: if_splits)
qed

lemma ringbuf_push_signals:
  "ringbuf_push rb opcode p = Some (ERR_None, rb') \<Longrightarrow> rb_semaphore rb' = Suc (rb_semaphore rb)"
  by (auto simp: ringbuf_push_def ringbuf_push_impl_def ringbuf_signal_def Let_def
      dest!: advance_write_semaphore split: if_splits option.splits)

text \<open>C15. A thread in \<open>ringbuf_wait_for_packet\<close> gets the oldest message as soon as the semaphore
  has been signalled, and consumes one signal. Every push that is accepted signals once, so on
  a ring whose semaphore counts its elements the call never blocks while a message waits, and
  the count stays equal.\<close>

theorem ringbuf_wait_for_packet_delivers:
  assumes "rb_inv rb" "rb_semaphore rb = length (rb_contents rb)" "rb_contents rb = x # xs"
  shows "\<exists>rb'. ringbuf_wait_for_packet rb = Some (ERR_None, Some x, rb') \<and> rb_inv rb'
    \<and> rb_contents rb' = xs \<and> rb_semaphore rb' = length (rb_contents rb')"
proof -
  let ?rb = "rb\<lparr>rb_semaphore := rb_semaphore rb - 1\<rparr>"
  have w: "ringbuf_wait rb = Some (ERR_None, ?rb)" using assms(2,3) by (simp add: ringbuf_wait_def)
  have inv: "rb_inv ?rb" and c: "rb_contents ?rb = rb_contents rb"
    using assms(1) by (simp_all add: rb_inv_def rb_contents_def rb_count_def)
  show ?thesis
  proof (rule ringbuf_pop_ok [OF inv])
    assume "rb_contents ?rb = []"
    then show ?thesis using c assms(3) by simp
  next
    fix y rb' assume r: "ringbuf_pop ?rb = Some (ERR_None, Some y, rb')" "rb_contents ?rb = y # rb_contents rb'"
      "rb_inv rb'" "rb_semaphore rb' = rb_semaphore ?rb"
    then have "ringbuf_wait_for_packet rb = Some (ERR_None, Some y, rb')"
      using w by (subst ringbuf_wait_for_packet.simps) simp
    then show ?thesis using r c assms(2,3) by auto
  qed
qed

theorem ringbuf_wait_for_packet_delivers_witness:
  "\<exists>rb rb'. ringbuf_push (ringbuf_init (0 :: nat) 2) 7 (Some 5) = Some (ERR_None, rb)
    \<and> ringbuf_wait_for_packet rb = Some (ERR_None, Some (7, 5), rb')"
proof -
  have n: "(2 :: nat) \<le> 2" "(2 :: nat) \<le> RINGBUF_MAX_PACKETS" by (simp_all add: RINGBUF_MAX_PACKETS_def)
  note i = ringbuf_init_inv [OF n, of "0 :: nat"]
  show ?thesis
  proof (rule ringbuf_push_ok [OF i(1), of 7 5])
    assume "rb_count (ringbuf_init (0 :: nat) 2) = rb_capacity (ringbuf_init (0 :: nat) 2)"
    then show ?thesis using i by (simp flip: rb_contents_length)
  next
    fix rb' assume r: "ringbuf_push (ringbuf_init (0 :: nat) 2) 7 (Some 5) = Some (ERR_None, rb')" "rb_inv rb'"
      "rb_contents rb' = rb_contents (ringbuf_init (0 :: nat) 2) @ [(7, 5)]"
    have "rb_semaphore rb' = 1" using r(1) ringbuf_push_signals [OF r(1)] by (simp add: ringbuf_init_def Let_def)
    then show ?thesis using r i(2) ringbuf_wait_for_packet_delivers [OF r(2), of "(7, 5)" "[]"] by auto
  qed
qed

end
