(* ===== verification/Zeq_SwapPop.thy ===== *)
theory Zeq_SwapPop
  imports Zeq_Prelude "HOL-Library.Multiset"
begin

text \<open>
  The server removes an entry of an unordered array by moving the last one into its place. As a list
  with multiplicities, nothing but the entry goes; entries before it stay where they are.
\<close>

section \<open>Removing by moving the last element\<close>

lemma mset_swap_pop:
  assumes "i < length xs"
  shows "add_mset (xs ! i) (mset (butlast (xs[i := last xs]))) = mset xs"
proof -
  obtain ys z where xs: "xs = ys @ [z]" using assms by (metis length_0_conv not_less_zero rev_exhaust)
  show ?thesis
  proof (cases "i = length ys")
    case False
    then have i: "i < length ys" using assms xs by simp
    then obtain M where "mset ys = add_mset (ys ! i) M" by (metis insert_DiffM nth_mem_mset)
    then show ?thesis using i xs by (simp add: list_update_append nth_append mset_update)
  qed (simp add: xs)
qed

lemma take_butlast_swap:
  assumes "i < length xs" "j < i"
  shows "butlast (xs[i := last xs]) ! j = xs ! j"
  using assms by (simp add: nth_butlast)

lemma take_swap_pop:
  assumes "i < k" "k \<le> length xs"
  shows "take (k - 1) (xs[i := xs ! (k - 1)]) = butlast ((take k xs)[i := last (take k xs)])"
proof -
  have "last (take k xs) = xs ! (k - 1)" using assms by (subst last_conv_nth) auto
  then show ?thesis using assms by (simp add: butlast_conv_take take_update_swap min_def)
qed

end
