(* ===== verification/Zeq_Timer.thy ===== *)
theory Zeq_Timer
  imports Zeq_Bits Zeq_SwapPop
begin

text \<open>
  \<open>src/timer.c\<close>: the timer pools of the main thread and of each zone thread. A \<open>Timer*\<close> is a
  64-bit address into an explicit heap of live timers; an address that has been freed maps to
  \<open>None\<close>, and a write through it, undefined in C, is then no effect. The three arrays of a pool
  are lists of their capacity, fresh slots holding 0; counts are natural numbers, far below
  \<open>2 ^ 32\<close>. \<open>realloc\<close> is the argument \<open>alloc\<close>, which says of an element count whether the
  request succeeds, and \<open>now\<close> is what \<open>clock_milliseconds\<close> returns.
\<close>

section \<open>State\<close>

record timer =
  tm_poolIndex :: u32
  tm_periodMs :: u32
  tm_luaIndex :: int
  tm_callback :: "nat option"
  tm_userdata :: u64

type_synonym theap = "u64 \<Rightarrow> timer option"

record timer_pool =
  tp_timerCount :: nat
  tp_triggeredCount :: nat
  tp_triggeredCap :: nat
  tp_triggerTimes :: "u64 list"
  tp_timerObjects :: "u64 list"
  tp_triggeredIndices :: "nat list"

definition TIMER_POOL_INVALID_INDEX :: u32 where "TIMER_POOL_INVALID_INDEX = 0xffffffff"

text \<open>The triggered count is not assigned: it keeps what the memory of the pool held.\<close>

definition timer_pool_init :: "timer_pool \<Rightarrow> timer_pool" where
  "timer_pool_init pool =
     pool\<lparr>tp_timerCount := 0, tp_triggeredCap := 0, tp_triggerTimes := [], tp_timerObjects := [],
          tp_triggeredIndices := []\<rparr>"

definition timer_pool_deinit :: "timer_pool \<Rightarrow> timer_pool" where
  "timer_pool_deinit pool =
     pool\<lparr>tp_timerCount := 0, tp_triggeredCap := 0, tp_triggerTimes := [], tp_timerObjects := [],
          tp_triggeredIndices := []\<rparr>"

definition upd_timer :: "theap \<Rightarrow> u64 \<Rightarrow> (timer \<Rightarrow> timer) \<Rightarrow> theap" where
  "upd_timer h p f = (case h p of None \<Rightarrow> h | Some t \<Rightarrow> h(p \<mapsto> f t))"

section \<open>Removing and collecting\<close>

definition timer_pool_swap_and_pop :: "theap \<Rightarrow> timer_pool \<Rightarrow> nat \<Rightarrow> theap \<times> timer_pool" where
  "timer_pool_swap_and_pop h pool index =
     (let back = tp_timerCount pool - 1;
          pool = pool\<lparr>tp_timerCount := back\<rparr>
      in if back \<noteq> index
         then let timer = tp_timerObjects pool ! back
              in (upd_timer h timer (\<lambda>t. t\<lparr>tm_poolIndex := of_nat index\<rparr>),
                  pool\<lparr>tp_timerObjects := (tp_timerObjects pool)[index := timer],
                       tp_triggerTimes := (tp_triggerTimes pool)[index := tp_triggerTimes pool ! back]\<rparr>)
         else (h, pool))"

definition grow_array :: "'a \<Rightarrow> 'a list \<Rightarrow> nat \<Rightarrow> 'a list" where
  "grow_array blank xs n = take n xs @ replicate (n - length xs) blank"

definition timer_pool_add_trigger_index :: "(nat \<Rightarrow> bool) \<Rightarrow> timer_pool \<Rightarrow> nat \<Rightarrow> timer_pool option" where
  "timer_pool_add_trigger_index alloc pool index =
     (let count = tp_triggeredCount pool;
          cap = tp_triggeredCap pool;
          grown = (if count \<ge> cap
                   then let cap = (if cap = 0 then 1 else cap * 2)
                        in if \<not> alloc cap then None
                           else Some (pool\<lparr>tp_triggeredCap := cap,
                                           tp_triggeredIndices := grow_array 0 (tp_triggeredIndices pool) cap\<rparr>)
                   else Some pool)
      in case grown of
           None \<Rightarrow> None
         | Some pool \<Rightarrow> Some (pool\<lparr>tp_triggeredIndices := (tp_triggeredIndices pool)[count := index],
                                   tp_triggeredCount := count + 1\<rparr>))"

text \<open>
  The first loop of \<open>timer_pool_execute_callbacks\<close>: dead entries leave the pool, entries whose
  time has come are noted.
\<close>

function timer_pool_collect ::
    "(nat \<Rightarrow> bool) \<Rightarrow> u64 \<Rightarrow> theap \<Rightarrow> timer_pool \<Rightarrow> nat \<Rightarrow> nat \<Rightarrow> zerr \<times> theap \<times> timer_pool" where
  "timer_pool_collect alloc now h pool i n =
     (if i < n then
        let triggerTime = tp_triggerTimes pool ! i
        in if bit_get64 triggerTime 63 \<noteq> 0
           then let (h, pool) = timer_pool_swap_and_pop h pool i
                in timer_pool_collect alloc now h pool i (n - 1)
           else if now \<ge> (triggerTime AND bit_mask64 63)
                then case timer_pool_add_trigger_index alloc pool i of
                       None \<Rightarrow> (ERR_OutOfMemory, h, pool)
                     | Some pool \<Rightarrow> timer_pool_collect alloc now h pool (i + 1) n
                else timer_pool_collect alloc now h pool (i + 1) n
      else (ERR_None, h, pool))"
  by pat_completeness auto
termination
  by (relation "measure (\<lambda>(alloc, now, h, pool, i, n). n - i)") auto

declare timer_pool_collect.simps [simp del]

text \<open>
  The second loop: the trigger time of slot \<open>i\<close> is advanced by the period of the timer in slot
  \<open>triggered[i]\<close>, as in the source. \<open>cb\<close> is the effect of the callbacks on the pool, the heap
  of timers and the rest of the state.
\<close>

type_synonym 's callback = "u64 \<Rightarrow> timer_pool \<Rightarrow> theap \<Rightarrow> 's \<Rightarrow> timer_pool \<times> theap \<times> 's"

fun timer_pool_fire ::
    "'s callback \<Rightarrow> nat list \<Rightarrow> nat \<Rightarrow> timer_pool \<Rightarrow> theap \<Rightarrow> 's \<Rightarrow> timer_pool \<times> theap \<times> 's" where
  "timer_pool_fire cb [] i pool h s = (pool, h, s)"
| "timer_pool_fire cb (t # triggered) i pool h s =
     (let timer = tp_timerObjects pool ! t;
          period = (case h timer of Some tm \<Rightarrow> tm_periodMs tm | None \<Rightarrow> 0);
          pool = pool\<lparr>tp_triggerTimes := (tp_triggerTimes pool)[i := tp_triggerTimes pool ! i + ucast period]\<rparr>;
          (pool, h, s) =
            (case h timer of
               Some tm \<Rightarrow> if tm_callback tm \<noteq> None then cb timer pool h s else (pool, h, s)
             | None \<Rightarrow> (pool, h, s))
      in timer_pool_fire cb triggered (i + 1) pool h s)"

definition timer_pool_execute_callbacks ::
    "(nat \<Rightarrow> bool) \<Rightarrow> u64 \<Rightarrow> 's callback \<Rightarrow> timer_pool \<Rightarrow> theap \<Rightarrow> 's \<Rightarrow> zerr \<times> timer_pool \<times> theap \<times> 's" where
  "timer_pool_execute_callbacks alloc now cb pool h s =
     (let (rc, h, pool) = timer_pool_collect alloc now h pool 0 (tp_timerCount pool)
      in if rc \<noteq> ERR_None then (rc, pool, h, s)
         else let n = tp_triggeredCount pool;
                  pool = pool\<lparr>tp_triggeredCount := 0\<rparr>
              in (ERR_None, timer_pool_fire cb (take n (tp_triggeredIndices pool)) 0 pool h s))"

section \<open>Timers\<close>

definition timer_pool_start_timer ::
    "(nat \<Rightarrow> bool) \<Rightarrow> u64 \<Rightarrow> theap \<Rightarrow> timer_pool \<Rightarrow> u64 \<Rightarrow> zerr \<times> theap \<times> timer_pool" where
  "timer_pool_start_timer alloc now h pool p =
     (let index = tp_timerCount pool;
          cap = (if index = 0 then 1 else index * 2);
          room = bit_is_pow2_or_zero (of_nat index)
      in if room \<and> \<not> alloc cap then (ERR_OutOfMemory, h, pool)
         else
           let pool = (if room then pool\<lparr>tp_triggerTimes := grow_array 0 (tp_triggerTimes pool) cap,
                                         tp_timerObjects := grow_array 0 (tp_timerObjects pool) cap\<rparr>
                       else pool);
               period = (case h p of Some t \<Rightarrow> tm_periodMs t | None \<Rightarrow> 0)
           in (ERR_None, upd_timer h p (\<lambda>t. t\<lparr>tm_poolIndex := of_nat index\<rparr>),
               pool\<lparr>tp_timerCount := index + 1,
                    tp_timerObjects := (tp_timerObjects pool)[index := p],
                    tp_triggerTimes := (tp_triggerTimes pool)[index := now + ucast period]\<rparr>))"

definition timer_restart ::
    "(nat \<Rightarrow> bool) \<Rightarrow> u64 \<Rightarrow> theap \<Rightarrow> timer_pool \<Rightarrow> u64 \<Rightarrow> zerr \<times> theap \<times> timer_pool" where
  "timer_restart alloc now h pool p =
     (case h p of
        None \<Rightarrow> (ERR_None, h, pool)
      | Some t \<Rightarrow>
          let index = tm_poolIndex t
          in if index = TIMER_POOL_INVALID_INDEX then timer_pool_start_timer alloc now h pool p
             else (ERR_None, h, pool\<lparr>tp_triggerTimes :=
                     (tp_triggerTimes pool)[unat index := now + ucast (tm_periodMs t)]\<rparr>))"

definition timer_stop :: "theap \<Rightarrow> timer_pool \<Rightarrow> u64 \<Rightarrow> zerr \<times> theap \<times> timer_pool" where
  "timer_stop h pool p =
     (case h p of
        None \<Rightarrow> (ERR_Invalid, h, pool)
      | Some t \<Rightarrow>
          let index = tm_poolIndex t
          in if index \<noteq> TIMER_POOL_INVALID_INDEX
             then (ERR_None, h(p \<mapsto> t\<lparr>tm_poolIndex := TIMER_POOL_INVALID_INDEX\<rparr>),
                   pool\<lparr>tp_triggerTimes :=
                     (tp_triggerTimes pool)[unat index := bit_set64 (tp_triggerTimes pool ! unat index) 63]\<rparr>)
             else (ERR_Invalid, h, pool))"

text \<open>\<open>addr\<close> is the address \<open>malloc\<close> returns, 0 when it fails.\<close>

definition timer_new ::
    "(nat \<Rightarrow> bool) \<Rightarrow> u64 \<Rightarrow> u64 \<Rightarrow> theap \<Rightarrow> timer_pool \<Rightarrow> u32 \<Rightarrow> nat option \<Rightarrow> u64 \<Rightarrow> bool
      \<Rightarrow> u64 \<times> theap \<times> timer_pool" where
  "timer_new alloc addr now h pool periodMs callback userdata start =
     (if addr = 0 then (0, h, pool)
      else
        let h = h(addr \<mapsto> \<lparr>tm_poolIndex = TIMER_POOL_INVALID_INDEX, tm_periodMs = periodMs, tm_luaIndex = 0,
                  tm_callback = callback, tm_userdata = userdata\<rparr>);
            (rc, h', pool') = (if start then timer_restart alloc now h pool addr else (ERR_None, h, pool))
        in if rc \<noteq> ERR_None then (0, h'(addr := None), pool') else (addr, h', pool'))"

definition timer_destroy :: "theap \<Rightarrow> timer_pool \<Rightarrow> u64 \<Rightarrow> u64 \<times> theap \<times> timer_pool" where
  "timer_destroy h pool p =
     (if p = 0 then (0, h, pool)
      else let (_, h, pool) = timer_stop h pool p in (0, h(p := None), pool))"

definition timer_userdata :: "theap \<Rightarrow> u64 \<Rightarrow> u64" where
  "timer_userdata h p = (case h p of Some t \<Rightarrow> tm_userdata t | None \<Rightarrow> 0)"

definition timer_set_lua_index :: "theap \<Rightarrow> u64 \<Rightarrow> int \<Rightarrow> theap" where
  "timer_set_lua_index h p luaIndex = upd_timer h p (\<lambda>t. t\<lparr>tm_luaIndex := luaIndex\<rparr>)"

definition timer_lua_index :: "theap \<Rightarrow> u64 \<Rightarrow> int" where
  "timer_lua_index h p = (case h p of Some t \<Rightarrow> tm_luaIndex t | None \<Rightarrow> 0)"

section \<open>The pool as a list of entries\<close>

text \<open>An entry is the address of a timer and its trigger time; it is dead when bit 63 is set.\<close>

type_synonym timer_entry = "u64 \<times> u64"

definition tp_entries :: "timer_pool \<Rightarrow> timer_entry list" where
  "tp_entries pool =
     zip (take (tp_timerCount pool) (tp_timerObjects pool)) (take (tp_timerCount pool) (tp_triggerTimes pool))"

definition entry_live :: "timer_entry \<Rightarrow> bool" where
  "entry_live e \<longleftrightarrow> bit_get64 (snd e) 63 = 0"

definition entry_due :: "u64 \<Rightarrow> timer_entry \<Rightarrow> bool" where
  "entry_due now e \<longleftrightarrow> (snd e AND bit_mask64 63) \<le> now"

definition pool_wf :: "timer_pool \<Rightarrow> bool" where
  "pool_wf pool \<longleftrightarrow> tp_timerCount pool \<le> length (tp_timerObjects pool)
     \<and> length (tp_triggerTimes pool) = length (tp_timerObjects pool)
     \<and> tp_triggeredCap pool = length (tp_triggeredIndices pool)
     \<and> tp_triggeredCount pool \<le> tp_triggeredCap pool"

lemma entries_length [simp]: "pool_wf pool \<Longrightarrow> length (tp_entries pool) = tp_timerCount pool"
  by (simp add: tp_entries_def pool_wf_def)

lemma entries_nth:
  "pool_wf pool \<Longrightarrow> i < tp_timerCount pool \<Longrightarrow>
   tp_entries pool ! i = (tp_timerObjects pool ! i, tp_triggerTimes pool ! i)"
  by (simp add: tp_entries_def pool_wf_def)

text \<open>Removing an entry puts the last one in its place.\<close>

lemma swap_and_pop_entries:
  assumes wf: "pool_wf pool" and i: "i < tp_timerCount pool" and r: "timer_pool_swap_and_pop h pool i = (h', pool')"
  shows "pool_wf pool'" "tp_timerCount pool' = tp_timerCount pool - 1"
    "tp_entries pool' = butlast ((tp_entries pool)[i := last (tp_entries pool)])"
    "tp_triggeredCount pool' = tp_triggeredCount pool" "tp_triggeredIndices pool' = tp_triggeredIndices pool"
    "tp_triggeredCap pool' = tp_triggeredCap pool"
proof -
  show wf': "pool_wf pool'" and c: "tp_timerCount pool' = tp_timerCount pool - 1"
    and "tp_triggeredCount pool' = tp_triggeredCount pool" "tp_triggeredIndices pool' = tp_triggeredIndices pool"
      "tp_triggeredCap pool' = tp_triggeredCap pool"
    using r wf by (auto simp: timer_pool_swap_and_pop_def pool_wf_def Let_def split: if_splits)
  have ne: "tp_entries pool \<noteq> []" using i wf by (metis entries_length length_0_conv not_less_zero)
  have last: "last (tp_entries pool) = tp_entries pool ! (tp_timerCount pool - 1)"
    using ne wf by (simp add: last_conv_nth)
  show "tp_entries pool' = butlast ((tp_entries pool)[i := last (tp_entries pool)])"
  proof (rule nth_equalityI)
    fix j assume "j < length (tp_entries pool')"
    then have j: "j < tp_timerCount pool - 1" using wf' c by simp
    have o: "tp_timerObjects pool' ! j = (if j = i then tp_timerObjects pool ! (tp_timerCount pool - 1) else tp_timerObjects pool ! j)"
      "tp_triggerTimes pool' ! j = (if j = i then tp_triggerTimes pool ! (tp_timerCount pool - 1) else tp_triggerTimes pool ! j)"
      using r wf j by (auto simp: timer_pool_swap_and_pop_def pool_wf_def Let_def nth_list_update split: if_splits)
    show "tp_entries pool' ! j = butlast ((tp_entries pool)[i := last (tp_entries pool)]) ! j"
      using j i o c wf entries_nth [OF wf', of j] entries_nth [OF wf] last
      by (auto simp: nth_butlast nth_list_update)
  qed (use wf wf' c in simp)
qed

lemma add_trigger_index_ok:
  assumes "pool_wf pool"
  obtains pool' where "timer_pool_add_trigger_index (\<lambda>_. True) pool i = Some pool'" "pool_wf pool'"
    "tp_entries pool' = tp_entries pool" "tp_timerCount pool' = tp_timerCount pool"
    "tp_timerObjects pool' = tp_timerObjects pool" "tp_triggerTimes pool' = tp_triggerTimes pool"
    "take (tp_triggeredCount pool') (tp_triggeredIndices pool') =
       take (tp_triggeredCount pool) (tp_triggeredIndices pool) @ [i]"
proof -
  let ?c = "tp_triggeredCount pool" and ?cap = "tp_triggeredCap pool"
  have w: "?cap = length (tp_triggeredIndices pool)" "?c \<le> ?cap" using assms by (auto simp: pool_wf_def)
  let ?idx = "if ?c \<ge> ?cap then grow_array 0 (tp_triggeredIndices pool) (if ?cap = 0 then 1 else ?cap * 2)
    else tp_triggeredIndices pool"
  have l: "?c < length ?idx" "take ?c ?idx = take ?c (tp_triggeredIndices pool)"
    using w by (auto simp: grow_array_def)
  let ?p = "pool\<lparr>tp_triggeredCap := length ?idx, tp_triggeredIndices := ?idx[?c := i], tp_triggeredCount := ?c + 1\<rparr>"
  have "timer_pool_add_trigger_index (\<lambda>_. True) pool i = Some ?p"
    using w by (auto simp: timer_pool_add_trigger_index_def Let_def grow_array_def)
  moreover have "take (?c + 1) (?idx[?c := i]) = take ?c (tp_triggeredIndices pool) @ [i]"
    using l by (simp add: take_Suc_conv_app_nth)
  moreover have "pool_wf ?p" using assms l(1) by (auto simp: pool_wf_def)
  ultimately show ?thesis by (intro that [of ?p]) (simp_all add: tp_entries_def)
qed

section \<open>What one round collects\<close>

definition collected :: "u64 \<Rightarrow> timer_pool \<Rightarrow> bool" where
  "collected now pool \<longleftrightarrow> pool_wf pool \<and> list_all entry_live (tp_entries pool)
     \<and> take (tp_triggeredCount pool) (tp_triggeredIndices pool) =
         filter (\<lambda>j. entry_due now (tp_entries pool ! j)) [0..<tp_timerCount pool]"

text \<open>Every live entry names a timer that knows its slot.\<close>

definition pool_linked :: "theap \<Rightarrow> timer_pool \<Rightarrow> bool" where
  "pool_linked h pool \<longleftrightarrow> distinct (map fst (tp_entries pool)) \<and>
     (\<forall>i < tp_timerCount pool. entry_live (tp_entries pool ! i) \<longrightarrow>
        (\<exists>t. h (fst (tp_entries pool ! i)) = Some t \<and> tm_poolIndex t = of_nat i))"

text \<open>Timers apart from their pool index.\<close>

definition same_timers :: "theap \<Rightarrow> theap \<Rightarrow> bool" where
  "same_timers h h' \<longleftrightarrow> (\<forall>p. map_option (\<lambda>t. t\<lparr>tm_poolIndex := 0\<rparr>) (h p) =
     map_option (\<lambda>t. t\<lparr>tm_poolIndex := 0\<rparr>) (h' p))"

lemma same_timers_upd: "same_timers h (upd_timer h p (\<lambda>t. t\<lparr>tm_poolIndex := i\<rparr>))"
  by (auto simp: same_timers_def upd_timer_def split: option.splits)

lemma swap_and_pop_heap:
  assumes wf: "pool_wf pool" and i: "i < tp_timerCount pool" and r: "timer_pool_swap_and_pop h pool i = (h', pool')"
  shows "same_timers h h'" "pool_linked h pool \<Longrightarrow> pool_linked h' pool'"
proof -
  let ?E = "tp_entries pool" let ?n = "tp_timerCount pool"
  note s = swap_and_pop_entries [OF wf i r]
  have h': "h' = (if ?n - 1 \<noteq> i then upd_timer h (fst (?E ! (?n - 1))) (\<lambda>t. t\<lparr>tm_poolIndex := of_nat i\<rparr>) else h)"
    using r i entries_nth [OF wf, of "?n - 1"] by (auto simp: timer_pool_swap_and_pop_def Let_def split: if_splits)
  then show "same_timers h h'" using same_timers_upd by (auto simp: same_timers_def)
  assume l: "pool_linked h pool"
  have len: "length ?E = ?n" using wf by simp
  have ne: "?E \<noteq> []" using i len by auto
  have last: "last ?E = ?E ! (?n - 1)" using ne len by (simp add: last_conv_nth)
  have nth: "tp_entries pool' ! j = (if j = i then ?E ! (?n - 1) else ?E ! j)" if "j < ?n - 1" for j
    using that i len last unfolding s(3) by (simp add: nth_butlast nth_list_update)
  have "add_mset (fst (?E ! i)) (mset (map fst (tp_entries pool'))) = mset (map fst ?E)"
    using arg_cong [OF mset_swap_pop [of i ?E], of "image_mset fst"] i len unfolding s(3) by simp
  then have "mset (fst (?E ! i) # map fst (tp_entries pool')) = mset (map fst ?E)" by simp
  then have d: "distinct (map fst (tp_entries pool'))"
    using l mset_eq_imp_distinct_iff unfolding pool_linked_def by (metis distinct.simps(2))
  have dist: "fst (?E ! j) \<noteq> fst (?E ! k)" if "j < ?n" "k < ?n" "j \<noteq> k" for j k
    using l that len nth_eq_iff_index_eq [of "map fst ?E" j k] by (simp add: pool_linked_def)
  have "\<exists>t. h' (fst (tp_entries pool' ! j)) = Some t \<and> tm_poolIndex t = of_nat j"
    if j: "j < ?n - 1" "entry_live (tp_entries pool' ! j)" for j
  proof (cases "j = i")
    case True
    then have "entry_live (?E ! (?n - 1))" and ni: "?n - 1 \<noteq> i" using j nth by auto
    moreover have "?n - 1 < ?n" using i by simp
    ultimately obtain t where "h (fst (?E ! (?n - 1))) = Some t" using l unfolding pool_linked_def by blast
    then show ?thesis using True j nth ni by (simp add: h' upd_timer_def)
  next
    case False
    then have e: "tp_entries pool' ! j = ?E ! j" using j nth by simp
    have jn: "j < ?n" using j(1) by simp
    obtain t where "h (fst (?E ! j)) = Some t" "tm_poolIndex t = of_nat j"
      using l jn j(2) e unfolding pool_linked_def by metis
    moreover have "fst (?E ! j) \<noteq> fst (?E ! (?n - 1))" using dist [of j "?n - 1"] j by simp
    ultimately show ?thesis using e by (auto simp: h' upd_timer_def split: option.splits)
  qed
  then show "pool_linked h' pool'" using d s(2) by (simp add: pool_linked_def)
qed

lemma collect_ok:
  assumes "pool_wf pool" "n = tp_timerCount pool" "i \<le> n" "alloc = (\<lambda>_. True)"
    and "\<forall>j < i. entry_live (tp_entries pool ! j)"
    and "take (tp_triggeredCount pool) (tp_triggeredIndices pool) =
      filter (\<lambda>j. entry_due now (tp_entries pool ! j)) [0..<i]"
  shows "\<exists>h' pool'. timer_pool_collect alloc now h pool i n = (ERR_None, h', pool') \<and> collected now pool'
     \<and> mset (tp_entries pool') = filter_mset entry_live (mset (tp_entries pool))
     \<and> same_timers h h' \<and> (pool_linked h pool \<longrightarrow> pool_linked h' pool')"
  using assms
proof (induction alloc now h pool i n rule: timer_pool_collect.induct)
  case (1 alloc now h pool i n)
  note wf = "1.prems"(1) and n = "1.prems"(2) and al = "1.prems"(4) and pre = "1.prems"(5,6)
  show ?case
  proof (cases "i < n")
    case False
    then have i: "i = n" using "1.prems"(3) by simp
    then have "timer_pool_collect alloc now h pool i n = (ERR_None, h, pool)"
      by (simp add: timer_pool_collect.simps)
    moreover have live: "list_all entry_live (tp_entries pool)"
      using pre(1) i n wf by (simp add: list_all_length)
    moreover have "filter_mset entry_live (mset (tp_entries pool)) = mset (tp_entries pool)"
      using live by (simp add: list_all_iff filter_mset_eq_conv flip: mset_filter)
    ultimately show ?thesis using pre(2) i n wf by (simp add: collected_def same_timers_def)
  next
    case True
    let ?t = "tp_triggerTimes pool ! i"
    have e: "tp_entries pool ! i = (tp_timerObjects pool ! i, ?t)" using entries_nth [OF wf] True n by simp
    show ?thesis
    proof (cases "bit_get64 ?t 63 \<noteq> 0")
      case dead: True
      obtain h1 pool1 where r: "timer_pool_swap_and_pop h pool i = (h1, pool1)" by fastforce
      note s = swap_and_pop_entries [OF wf True [unfolded n] r]
      have li: "i < length (tp_entries pool)" using True n wf by simp
      have eq: "timer_pool_collect alloc now h pool i n = timer_pool_collect alloc now h1 pool1 i (n - 1)"
        using True dead r by (subst timer_pool_collect.simps) simp
      have same: "tp_entries pool1 ! j = tp_entries pool ! j" if "j < i" for j
        using take_butlast_swap [OF li that] by (simp add: s(3))
      have idx: "take (tp_triggeredCount pool1) (tp_triggeredIndices pool1) =
          filter (\<lambda>j. entry_due now (tp_entries pool1 ! j)) [0..<i]"
        unfolding s(4,5) pre(2) by (rule filter_cong) (simp_all add: same)
      have le: "i \<le> n - 1" using True by simp
      obtain h' pool' where IH: "timer_pool_collect alloc now h1 pool1 i (n - 1) = (ERR_None, h', pool')"
        "collected now pool'" "mset (tp_entries pool') = filter_mset entry_live (mset (tp_entries pool1))"
        "same_timers h1 h'" "pool_linked h1 pool1 \<longrightarrow> pool_linked h' pool'"
        using "1.IH"(1) [OF True refl dead r [symmetric] refl s(1) _ le al _ idx] s(2) n pre(1) same by auto
      have "\<not> entry_live (tp_entries pool ! i)" using dead e by (simp add: entry_live_def)
      then have "filter_mset entry_live (mset (tp_entries pool1)) = filter_mset entry_live (mset (tp_entries pool))"
        using arg_cong [OF mset_swap_pop [OF li], of "filter_mset entry_live"] unfolding s(3) by simp
      moreover have "same_timers h h'" using swap_and_pop_heap(1) [OF wf True [unfolded n] r] IH(4)
        by (simp add: same_timers_def)
      ultimately show ?thesis using eq IH swap_and_pop_heap(2) [OF wf True [unfolded n] r] by auto
    next
      case alive: False
      then have live: "entry_live (tp_entries pool ! i)" using e by (simp add: entry_live_def)
      have pre': "\<forall>j < i + 1. entry_live (tp_entries pool ! j)" using pre(1) live by (auto simp: less_Suc_eq)
      show ?thesis
      proof (cases "now \<ge> (?t AND bit_mask64 63)")
        case due: True
        then have d: "entry_due now (tp_entries pool ! i)" using e by (simp add: entry_due_def)
        obtain pool1 where p1: "timer_pool_add_trigger_index alloc pool i = Some pool1" "pool_wf pool1"
          "tp_entries pool1 = tp_entries pool" "tp_timerCount pool1 = tp_timerCount pool"
          "take (tp_triggeredCount pool1) (tp_triggeredIndices pool1) =
             take (tp_triggeredCount pool) (tp_triggeredIndices pool) @ [i]"
          using add_trigger_index_ok [OF wf, of i] al by metis
        have eq: "timer_pool_collect alloc now h pool i n = timer_pool_collect alloc now h pool1 (i + 1) n"
          using True alive due p1(1) by (subst timer_pool_collect.simps) simp
        have l: "pool_linked h pool1 = pool_linked h pool" by (simp add: pool_linked_def p1(3,4))
        show ?thesis unfolding eq
          using "1.IH"(2) [OF True refl alive due p1(1) p1(2)] p1 n True al pre' pre(2) d l by auto
      next
        case early: False
        then have d: "\<not> entry_due now (tp_entries pool ! i)" using e by (simp add: entry_due_def)
        have eq: "timer_pool_collect alloc now h pool i n = timer_pool_collect alloc now h pool (i + 1) n"
          using True alive early by (subst timer_pool_collect.simps) simp
        show ?thesis unfolding eq
          using "1.IH"(3) [OF True refl alive early wf n _ al pre'] True pre(2) d by simp
      qed
    qed
  qed
qed

section \<open>One round of callbacks\<close>

text \<open>The callback that only records which timer fired.\<close>

definition record_fired :: "u64 list callback" where
  "record_fired p pool h fired = (pool, h, fired @ [p])"

text \<open>Every live entry names a live timer with a callback.\<close>

definition pool_callbacks :: "theap \<Rightarrow> timer_pool \<Rightarrow> bool" where
  "pool_callbacks h pool \<longleftrightarrow> (\<forall>e \<in> set (tp_entries pool). entry_live e \<longrightarrow>
     (\<exists>t. h (fst e) = Some t \<and> tm_callback t \<noteq> None))"

lemma fire_records:
  assumes "\<forall>t \<in> set ts. \<exists>tm. h (tp_timerObjects pool ! t) = Some tm \<and> tm_callback tm \<noteq> None"
  shows "\<exists>times. timer_pool_fire record_fired ts i pool h s =
    (pool\<lparr>tp_triggerTimes := times\<rparr>, h, s @ map (\<lambda>t. tp_timerObjects pool ! t) ts)
    \<and> length times = length (tp_triggerTimes pool)"
  using assms
proof (induction ts arbitrary: i pool s)
  case Nil
  then show ?case by (intro exI [of _ "tp_triggerTimes pool"]) simp
next
  case (Cons t ts)
  then obtain tm where tm: "h (tp_timerObjects pool ! t) = Some tm" "tm_callback tm \<noteq> None" by auto
  let ?pool = "pool\<lparr>tp_triggerTimes := (tp_triggerTimes pool)[i := tp_triggerTimes pool ! i + ucast (tm_periodMs tm)]\<rparr>"
  have "\<forall>t \<in> set ts. \<exists>tm. h (tp_timerObjects ?pool ! t) = Some tm \<and> tm_callback tm \<noteq> None"
    using Cons.prems by simp
  from Cons.IH [OF this, of "i + 1" "s @ [tp_timerObjects pool ! t]"] show ?case
    using tm by (auto simp: record_fired_def)
qed

lemma same_timers_callback:
  "same_timers h h' \<Longrightarrow> h p = Some t \<Longrightarrow> tm_callback t \<noteq> None \<Longrightarrow> \<exists>t'. h' p = Some t' \<and> tm_callback t' \<noteq> None"
proof -
  assume a: "same_timers h h'" "h p = Some t" "tm_callback t \<noteq> None"
  then have eq: "Some (t\<lparr>tm_poolIndex := 0\<rparr>) = map_option (\<lambda>t. t\<lparr>tm_poolIndex := 0\<rparr>) (h' p)"
    unfolding same_timers_def by (metis option.map(2))
  then obtain t' where t': "h' p = Some t'" "t'\<lparr>tm_poolIndex := 0\<rparr> = t\<lparr>tm_poolIndex := 0\<rparr>"
    by (cases "h' p") auto
  have "tm_callback (t'\<lparr>tm_poolIndex := 0\<rparr>) = tm_callback (t\<lparr>tm_poolIndex := 0\<rparr>)" by (simp only: t'(2))
  then show ?thesis using t'(1) a(3) by simp
qed

lemma execute_round:
  assumes "pool_wf pool" "tp_triggeredCount pool = 0" "pool_callbacks h pool"
  shows "\<exists>pool' h' fired. timer_pool_execute_callbacks (\<lambda>_. True) now record_fired pool h [] = (ERR_None, pool', h', fired)
    \<and> mset fired = image_mset fst (filter_mset (\<lambda>e. entry_live e \<and> entry_due now e) (mset (tp_entries pool)))
    \<and> mset (map fst (tp_entries pool')) = image_mset fst (filter_mset entry_live (mset (tp_entries pool)))
    \<and> (pool_linked h pool \<longrightarrow> pool_linked h' pool')"
proof -
  obtain h' pool1 where c: "timer_pool_collect (\<lambda>_. True) now h pool 0 (tp_timerCount pool) = (ERR_None, h', pool1)"
    "collected now pool1" "mset (tp_entries pool1) = filter_mset entry_live (mset (tp_entries pool))" "same_timers h h'"
    "pool_linked h pool \<longrightarrow> pool_linked h' pool1"
    using collect_ok [OF assms(1) refl le0 refl, of now h] assms(2) by auto
  let ?ts = "filter (\<lambda>j. entry_due now (tp_entries pool1 ! j)) [0..<tp_timerCount pool1]"
  let ?pool = "pool1\<lparr>tp_triggeredCount := 0\<rparr>"
  have wf: "pool_wf pool1" and ts: "take (tp_triggeredCount pool1) (tp_triggeredIndices pool1) = ?ts"
    using c(2) by (auto simp: collected_def)
  have obj: "tp_timerObjects pool1 ! j = fst (tp_entries pool1 ! j)" if "j < tp_timerCount pool1" for j
    using entries_nth [OF wf that] by simp
  have cb: "\<exists>tm. h' (tp_timerObjects ?pool ! t) = Some tm \<and> tm_callback tm \<noteq> None" if "t \<in> set ?ts" for t
  proof -
    have t: "t < tp_timerCount pool1" using that by simp
    then have "tp_entries pool1 ! t \<in># mset (tp_entries pool1)" using wf by simp
    then have "tp_entries pool1 ! t \<in> set (tp_entries pool)" "entry_live (tp_entries pool1 ! t)"
      unfolding c(3) by simp_all
    then show ?thesis using assms(3) obj [OF t] same_timers_callback [OF c(4)] unfolding pool_callbacks_def by auto
  qed
  obtain times where f: "timer_pool_fire record_fired ?ts 0 ?pool h' [] =
      (?pool\<lparr>tp_triggerTimes := times\<rparr>, h', map (\<lambda>t. tp_timerObjects pool1 ! t) ?ts)"
    "length times = length (tp_triggerTimes pool1)"
    using fire_records [of ?ts h' ?pool 0 "[]"] cb by auto
  let ?fired = "map (\<lambda>t. tp_timerObjects pool1 ! t) ?ts"
  have ex: "timer_pool_execute_callbacks (\<lambda>_. True) now record_fired pool h [] =
      (ERR_None, ?pool\<lparr>tp_triggerTimes := times\<rparr>, h', ?fired)"
    by (simp add: timer_pool_execute_callbacks_def c(1) ts f(1))
  have E: "tp_entries pool1 = map (\<lambda>j. tp_entries pool1 ! j) [0..<tp_timerCount pool1]"
    using map_nth [of "tp_entries pool1"] wf by simp
  have "?fired = map fst (filter (entry_due now) (tp_entries pool1))"
    using obj by (subst E) (simp add: filter_map o_def)
  then have "mset ?fired = image_mset fst (filter_mset (entry_due now) (mset (tp_entries pool1)))"
    by (simp add: mset_filter)
  then have m: "mset ?fired = image_mset fst (filter_mset (\<lambda>e. entry_live e \<and> entry_due now e) (mset (tp_entries pool)))"
    by (simp add: c(3) filter_filter_mset conj_commute)
  have len: "tp_timerCount pool1 \<le> length times" "tp_timerCount pool1 \<le> length (tp_timerObjects pool1)"
    "length (tp_triggerTimes pool1) = length (tp_timerObjects pool1)"
    using wf f(2) by (auto simp: pool_wf_def)
  have "map fst (tp_entries (?pool\<lparr>tp_triggerTimes := times\<rparr>)) = map fst (tp_entries pool1)"
    using len by (simp add: tp_entries_def)
  then have "mset (map fst (tp_entries (?pool\<lparr>tp_triggerTimes := times\<rparr>))) =
      image_mset fst (filter_mset entry_live (mset (tp_entries pool)))" by (simp add: c(3))
  moreover have "pool_linked h' (?pool\<lparr>tp_triggerTimes := times\<rparr>)" if "pool_linked h pool"
  proof -
    have "map fst (tp_entries (?pool\<lparr>tp_triggerTimes := times\<rparr>)) ! j = map fst (tp_entries pool1) ! j"
      if "j < tp_timerCount pool1" for j using len that by (simp add: tp_entries_def)
    moreover have "\<forall>i < tp_timerCount pool1. entry_live (tp_entries pool1 ! i)"
      using c(2) wf by (simp add: collected_def list_all_length)
    moreover have "distinct (map fst (tp_entries (?pool\<lparr>tp_triggerTimes := times\<rparr>)))"
      using c(5) that len by (simp add: pool_linked_def tp_entries_def)
    ultimately show ?thesis using c(5) that len wf unfolding pool_linked_def by (simp add: tp_entries_def)
  qed
  ultimately show ?thesis using ex m by blast
qed

text \<open>C16. One round of \<open>timer_pool_execute_callbacks\<close>, for callbacks that leave the pool alone:
  it terminates, it fires exactly the timers that are neither stopped nor early, each of them
  once, it drops the stopped ones from the pool and keeps every other entry.\<close>

theorem timer_pool_execute_fires_due:
  assumes "pool_wf pool" "tp_triggeredCount pool = 0" "pool_callbacks h pool"
  shows "\<exists>pool' h' fired. timer_pool_execute_callbacks (\<lambda>_. True) now record_fired pool h [] = (ERR_None, pool', h', fired)
    \<and> mset fired = image_mset fst (filter_mset (\<lambda>e. entry_live e \<and> entry_due now e) (mset (tp_entries pool)))
    \<and> mset (map fst (tp_entries pool')) = image_mset fst (filter_mset entry_live (mset (tp_entries pool)))"
  using execute_round [OF assms] by blast

text \<open>Two timers at the addresses 8 and 16, the second one due.\<close>

definition demo_timer :: "u32 \<Rightarrow> u32 \<Rightarrow> timer" where
  "demo_timer index period =
     \<lparr>tm_poolIndex = index, tm_periodMs = period, tm_luaIndex = 0, tm_callback = Some 1, tm_userdata = 0\<rparr>"

definition demo_heap :: theap where
  "demo_heap = [8 \<mapsto> demo_timer 0 1000, 16 \<mapsto> demo_timer 1 1000]"

definition demo_pool :: timer_pool where
  "demo_pool = \<lparr>tp_timerCount = 2, tp_triggeredCount = 0, tp_triggeredCap = 0, tp_triggerTimes = [100, 10],
     tp_timerObjects = [8, 16], tp_triggeredIndices = []\<rparr>"

lemma demo_ok:
  "pool_wf demo_pool" "tp_triggeredCount demo_pool = 0" "pool_callbacks demo_heap demo_pool"
  "pool_linked demo_heap demo_pool" "tp_entries demo_pool = [(8, 100), (16, 10)]" "tp_timerCount demo_pool = 2"
  by (auto simp: pool_wf_def demo_pool_def demo_heap_def pool_callbacks_def tp_entries_def demo_timer_def
      pool_linked_def less_2_cases_iff)

theorem timer_pool_execute_fires_due_witness:
  "\<exists>pool' h' fired. timer_pool_execute_callbacks (\<lambda>_. True) 50 record_fired demo_pool demo_heap [] =
     (ERR_None, pool', h', fired) \<and> mset fired = {#16#}"
  using timer_pool_execute_fires_due [OF demo_ok(1-3), of 50]
  by (auto simp: demo_ok(5) entry_live_def entry_due_def bit_get64_def bit_mask64_def)

text \<open>Setting bit 63 marks an entry dead.\<close>

lemma entry_dead: "\<not> entry_live (p, bit_set64 v 63)"
proof -
  have "bit (bit_get64 (bit_set64 v 63) 63) 63"
    unfolding bit_get64_def bit_set64_def by (simp add: bit_and_iff bit_or_iff bit_push_bit_iff bit_1_iff)
  then have "bit_get64 (bit_set64 v 63) 63 \<noteq> 0" by (metis bit_0_eq bot_apply bot_bool_def)
  then show ?thesis by (simp add: entry_live_def)
qed

text \<open>What \<open>timer_stop\<close> does to a linked pool: one entry is marked dead, and no live entry of the
  timer is left.\<close>

lemma timer_stop_entry:
  assumes "pool_wf pool" "pool_linked h pool" "i < tp_timerCount pool" "i < 2 ^ 32 - 1"
    "entry_live (tp_entries pool ! i)" "fst (tp_entries pool ! i) = p"
  obtains t pool1 where "timer_stop h pool p = (ERR_None, h(p \<mapsto> t), pool1)" "pool_wf pool1"
    "tp_triggeredCount pool1 = tp_triggeredCount pool"
    "\<forall>e \<in> set (tp_entries pool1). entry_live e \<longrightarrow> e \<in> set (tp_entries pool) \<and> fst e \<noteq> p"
proof -
  let ?E = "tp_entries pool"
  obtain t where t: "h p = Some t" "tm_poolIndex t = of_nat i"
    using assms(2,3,5,6) by (auto simp: pool_linked_def)
  have u: "unat (of_nat i :: u32) = i" using assms(4) by (intro unat_of_nat_small) simp
  have valid: "(of_nat i :: u32) \<noteq> TIMER_POOL_INVALID_INDEX"
    using u assms(4) by (auto simp: TIMER_POOL_INVALID_INDEX_def)
  let ?v = "bit_set64 (tp_triggerTimes pool ! i) 63"
  let ?pool1 = "pool\<lparr>tp_triggerTimes := (tp_triggerTimes pool)[i := ?v]\<rparr>"
  have E1: "tp_entries ?pool1 = ?E[i := (p, ?v)]"
  proof (rule nth_equalityI)
    fix j assume "j < length (tp_entries ?pool1)"
    then show "tp_entries ?pool1 ! j = ?E[i := (p, ?v)] ! j"
      using assms(1,3,6) by (cases "j = i") (auto simp: tp_entries_def pool_wf_def)
  qed (simp add: tp_entries_def)
  have len: "length ?E = tp_timerCount pool" using assms(1) by simp
  have live: "e \<in> set ?E \<and> fst e \<noteq> p" if e: "e \<in> set (tp_entries ?pool1)" "entry_live e" for e
  proof -
    obtain j where j: "j < tp_timerCount pool" "e = tp_entries ?pool1 ! j"
      using e(1) len by (auto simp: in_set_conv_nth E1)
    then have "j \<noteq> i" using e(2) entry_dead len by (auto simp: E1)
    then show ?thesis
      using j assms(2,3,6) len nth_eq_iff_index_eq [of "map fst ?E" j i] by (simp add: E1 pool_linked_def)
  qed
  show ?thesis
    by (rule that [of "t\<lparr>tm_poolIndex := TIMER_POOL_INVALID_INDEX\<rparr>" ?pool1])
      (use t u valid live assms(1) in \<open>auto simp: timer_stop_def pool_wf_def\<close>)
qed

text \<open>Stopping a timer works: when every entry of the pool names another timer and the timers
  know their slots, \<open>timer_stop\<close> succeeds on a timer of the pool and the next round does not
  fire it, however late it is.\<close>

theorem timer_stop_prevents_firing:
  assumes "pool_wf pool" "tp_triggeredCount pool = 0" "pool_callbacks h pool" "pool_linked h pool"
    and "i < tp_timerCount pool" "i < 2 ^ 32 - 1" "entry_live (tp_entries pool ! i)" "fst (tp_entries pool ! i) = p"
  shows "\<exists>h1 pool1 pool' h' fired. timer_stop h pool p = (ERR_None, h1, pool1)
    \<and> timer_pool_execute_callbacks (\<lambda>_. True) now record_fired pool1 h1 [] = (ERR_None, pool', h', fired)
    \<and> p \<notin> set fired"
proof -
  obtain t pool1 where stop: "timer_stop h pool p = (ERR_None, h(p \<mapsto> t), pool1)" "pool_wf pool1"
    "tp_triggeredCount pool1 = tp_triggeredCount pool"
    and live: "\<forall>e \<in> set (tp_entries pool1). entry_live e \<longrightarrow> e \<in> set (tp_entries pool) \<and> fst e \<noteq> p"
    by (rule timer_stop_entry [OF assms(1,4-8)])
  have cb: "pool_callbacks (h(p \<mapsto> t)) pool1" using assms(3) live by (simp add: pool_callbacks_def)
  have "tp_triggeredCount pool1 = 0" using stop(3) assms(2) by simp
  from execute_round [OF stop(2) this cb, of now] obtain pool' h' fired where r:
    "timer_pool_execute_callbacks (\<lambda>_. True) now record_fired pool1 (h(p \<mapsto> t)) [] = (ERR_None, pool', h', fired)"
    "mset fired = image_mset fst (filter_mset (\<lambda>e. entry_live e \<and> entry_due now e) (mset (tp_entries pool1)))"
    by (elim exE conjE)
  have "p \<notin># mset fired" unfolding r(2) using live by auto
  then have "p \<notin> set fired" by simp
  with stop(1) r(1) show ?thesis by blast
qed

theorem timer_stop_prevents_firing_witness:
  "\<exists>h1 pool1 pool' h' fired. timer_stop demo_heap demo_pool 16 = (ERR_None, h1, pool1)
    \<and> timer_pool_execute_callbacks (\<lambda>_. True) 50 record_fired pool1 h1 [] = (ERR_None, pool', h', fired)
    \<and> 16 \<notin> set fired"
  using timer_stop_prevents_firing [OF demo_ok(1-4), of 1 16 50]
  by (simp add: demo_ok(5,6) entry_live_def bit_get64_def)

text \<open>C17. A round keeps the links between the pool and its timers: the timers that stay in the pool
  are pairwise different and each of them knows the slot it was moved to.\<close>

theorem timer_pool_execute_keeps_links:
  assumes "pool_wf pool" "tp_triggeredCount pool = 0" "pool_callbacks h pool" "pool_linked h pool"
  shows "\<exists>pool' h' fired. timer_pool_execute_callbacks (\<lambda>_. True) now record_fired pool h [] = (ERR_None, pool', h', fired)
    \<and> pool_linked h' pool'"
  using execute_round [OF assms(1-3), of now] assms(4) by blast

theorem timer_pool_execute_keeps_links_witness:
  "\<exists>pool' h' fired. timer_pool_execute_callbacks (\<lambda>_. True) 50 record_fired demo_pool demo_heap [] =
     (ERR_None, pool', h', fired) \<and> pool_linked h' pool'"
  using timer_pool_execute_keeps_links [OF demo_ok(1-4), of 50] .

section \<open>Where the pool goes wrong\<close>

text \<open>
  The second loop adds the period to slot \<open>i\<close> instead of slot \<open>triggered[i]\<close>: in the demo pool the
  timer in slot 1 fires, slot 0 is postponed, and the timer in slot 1 stays due.
\<close>

lemma timer_wrong_slot_advanced:
  "(let (rc, pool', h', fired) = timer_pool_execute_callbacks (\<lambda>_. True) 50 record_fired demo_pool demo_heap []
    in (fired, tp_triggerTimes pool')) = ([16], [1100, 10])"
  by code_simp

text \<open>
  A timer that is stopped and restarted in the same round as two others are stopped has a dead
  and a live entry. Removing the dead entries moves its dead entry and overwrites its slot number,
  after which \<open>timer_stop\<close> marks a slot outside the pool and the timer goes on firing.
\<close>

definition demo_restart :: "theap \<times> timer_pool" where
  "demo_restart =
     (let h = [8 \<mapsto> demo_timer 0 10, 16 \<mapsto> demo_timer 1 10, 24 \<mapsto> demo_timer 2 10];
          pool = \<lparr>tp_timerCount = 3, tp_triggeredCount = 0, tp_triggeredCap = 0, tp_triggerTimes = [10, 10, 10, 0],
            tp_timerObjects = [8, 16, 24, 0], tp_triggeredIndices = []\<rparr>;
          (_, h, pool) = timer_stop h pool 8;
          (_, h, pool) = timer_stop h pool 16;
          (_, h, pool) = timer_stop h pool 24;
          (_, h, pool) = timer_restart (\<lambda>_. True) 0 h pool 24;
          (_, pool, h, _) = timer_pool_execute_callbacks (\<lambda>_. True) 1 record_fired pool h []
      in (h, pool))"

lemma timer_stopped_still_fires:
  "(let (h, pool) = demo_restart;
        (rc, h, pool) = timer_stop h pool 24;
        (_, _, _, fired) = timer_pool_execute_callbacks (\<lambda>_. True) 50 record_fired pool h []
    in (rc, fired)) = (ERR_None, [24])"
  by code_simp

end
