(* ===== verification/Zeq_Packet.thy ===== *)
theory Zeq_Packet
  imports Zeq_Prelude
begin

text \<open>
  \<open>src/tlg_packet.c\<close>: outgoing packets and their fragments. A packet is one allocation: a gap
  for the largest header, the payload, and room to spread the fragments of a long payload out in
  place, each with its own gap for the header and for the checksum. The offsets \<open>src\<close> and
  \<open>dst\<close> of the copying loop are integers here; they stay within the buffer whenever the loop
  runs, so the wrap-around of the C types is not reached.
\<close>

section \<open>State\<close>

text \<open>\<open>sizeof(uint16_t) * 9\<close>, the payload of one fragment with its opcode, and the checksum.\<close>

definition TLG_PACKET_HEADER_SIZE :: nat where "TLG_PACKET_HEADER_SIZE = 18"
definition TLG_PACKET_DATA_OFFSET :: nat where "TLG_PACKET_DATA_OFFSET = TLG_PACKET_HEADER_SIZE"
definition TLG_PACKET_DATA_SPACE :: nat where "TLG_PACKET_DATA_SPACE = 512"
definition TLG_PACKET_CRC_SIZE :: nat where "TLG_PACKET_CRC_SIZE = 4"

text \<open>\<open>sizeof(TlgPacket)\<close>: two 16-bit fields, a padded \<open>bool\<close> and two 32-bit fields.\<close>

definition sizeof_TlgPacket :: nat where "sizeof_TlgPacket = 16"

record tlg_packet =
  pk_opcode :: u16
  pk_fragCount :: u16
  pk_isFragmentized :: bool
  pk_dataLength :: u32
  pk_refCount :: u32
  pk_data :: "u8 list"

text \<open>The header bits of the protocol.\<close>

definition TLG_PACKET_HasAckRequest :: u16 where "TLG_PACKET_HasAckRequest = 0x0002"
definition TLG_PACKET_IsClosing :: u16 where "TLG_PACKET_IsClosing = 0x0004"
definition TLG_PACKET_IsFragment :: u16 where "TLG_PACKET_IsFragment = 0x0008"
definition TLG_PACKET_HasAckCounter :: u16 where "TLG_PACKET_HasAckCounter = 0x0010"
definition TLG_PACKET_IsFirstPacket :: u16 where "TLG_PACKET_IsFirstPacket = 0x0020"
definition TLG_PACKET_IsClosing2 :: u16 where "TLG_PACKET_IsClosing2 = 0x0040"
definition TLG_PACKET_HasAckResponse :: u16 where "TLG_PACKET_HasAckResponse = 0x0400"
definition TLG_PACKET_UnknownBit11 :: u16 where "TLG_PACKET_UnknownBit11 = 0x0800"
definition TLG_PACKET_UnknownBit12 :: u16 where "TLG_PACKET_UnknownBit12 = 0x1000"
definition TLG_PACKET_UnknownBit13 :: u16 where "TLG_PACKET_UnknownBit13 = 0x2000"
definition TLG_PACKET_UnknownBit14 :: u16 where "TLG_PACKET_UnknownBit14 = 0x4000"
definition TLG_PACKET_UnknownBit15 :: u16 where "TLG_PACKET_UnknownBit15 = 0x8000"

section \<open>Operations\<close>

text \<open>
  The length of the allocation and the fragment count. The count is stored in 16 bits. The lengths are
  \<open>uint32_t\<close> in the source; they do not wrap for payloads below 4 * 10^9 bytes.
\<close>

definition packet_calc_length_and_frag_count :: "nat \<Rightarrow> nat \<times> u16" where
  "packet_calc_length_and_frag_count len =
     (if len \<le> TLG_PACKET_DATA_SPACE
      then (sizeof_TlgPacket + TLG_PACKET_HEADER_SIZE + len + TLG_PACKET_CRC_SIZE, 0)
      else let count = len div TLG_PACKET_DATA_SPACE;
               rem = len mod TLG_PACKET_DATA_SPACE;
               count = (if rem \<noteq> 0 then count + 1 else count)
           in (sizeof_TlgPacket + (TLG_PACKET_HEADER_SIZE + TLG_PACKET_CRC_SIZE) * count + len, of_nat (count - 1)))"

text \<open>\<open>block\<close> is what the allocated bytes behind the fields hold, \<open>None\<close> a failed allocation.\<close>

definition packet_create :: "u8 list option \<Rightarrow> u16 \<Rightarrow> u32 \<Rightarrow> tlg_packet option" where
  "packet_create block opcode len =
     (let (allocLength, fragCount) = packet_calc_length_and_frag_count (unat len)
      in case block of
           None \<Rightarrow> None
         | Some b \<Rightarrow> Some \<lparr>pk_opcode = opcode, pk_fragCount = fragCount, pk_isFragmentized = False,
             pk_dataLength = len, pk_refCount = 0, pk_data = take (allocLength - sizeof_TlgPacket) b\<rparr>)"

text \<open>Dropping the last reference frees the packet: \<open>None\<close>.\<close>

definition packet_drop :: "tlg_packet \<Rightarrow> tlg_packet option" where
  "packet_drop p =
     (if sint (pk_refCount p) \<le> 1 then None else Some (p\<lparr>pk_refCount := pk_refCount p - 1\<rparr>))"

definition packet_grab :: "tlg_packet \<Rightarrow> tlg_packet" where
  "packet_grab p = p\<lparr>pk_refCount := pk_refCount p + 1\<rparr>"

definition packet_opcode :: "tlg_packet \<Rightarrow> u16" where "packet_opcode p = pk_opcode p"

definition packet_length :: "tlg_packet \<Rightarrow> u32" where "packet_length p = pk_dataLength p"

definition packet_frag_count :: "tlg_packet \<Rightarrow> u32" where "packet_frag_count p = ucast (pk_fragCount p)"

definition packet_already_fragmentized :: "tlg_packet \<Rightarrow> bool" where
  "packet_already_fragmentized p = pk_isFragmentized p"

definition packet_buffer_raw_length :: "tlg_packet \<Rightarrow> nat" where
  "packet_buffer_raw_length p =
     unat (pk_dataLength p) + (TLG_PACKET_DATA_OFFSET + TLG_PACKET_CRC_SIZE) * (unat (pk_fragCount p) + 1)"

text \<open>\<open>packet_data\<close> is where the payload is written; here the packet with its payload filled in.\<close>

definition packet_fill :: "tlg_packet \<Rightarrow> u8 list \<Rightarrow> tlg_packet" where
  "packet_fill p payload =
     p\<lparr>pk_data := take TLG_PACKET_DATA_OFFSET (pk_data p) @ payload
         @ drop (TLG_PACKET_DATA_OFFSET + length payload) (pk_data p)\<rparr>"

text \<open>\<open>data[dst--] = data[src--]\<close>, \<open>n\<close> times.\<close>

fun copy_down :: "u8 list \<Rightarrow> int \<Rightarrow> int \<Rightarrow> nat \<Rightarrow> u8 list \<times> int \<times> int" where
  "copy_down data dst src 0 = (data, dst, src)"
| "copy_down data dst src (Suc n) = copy_down (data[nat dst := data ! nat src]) (dst - 1) (src - 1) n"

text \<open>The outer loop: \<open>n\<close> fragments, the first of them (the last of the packet) of the given length.\<close>

fun spread_fragments :: "u8 list \<Rightarrow> int \<Rightarrow> int \<Rightarrow> nat \<Rightarrow> nat \<Rightarrow> u8 list" where
  "spread_fragments data dst src len 0 = data"
| "spread_fragments data dst src len (Suc n) =
     (let (data, dst, src) = copy_down data dst src len
      in spread_fragments data (dst - int (TLG_PACKET_DATA_OFFSET + TLG_PACKET_CRC_SIZE)) src TLG_PACKET_DATA_SPACE n)"

definition packet_fragmentize :: "tlg_packet \<Rightarrow> tlg_packet" where
  "packet_fragmentize p =
     (let p = p\<lparr>pk_isFragmentized := True\<rparr>;
          n = unat (pk_fragCount p)
      in if n = 0 then p
         else let dataLength = unat (pk_dataLength p);
                  src = int dataLength + int TLG_PACKET_DATA_OFFSET - 1;
                  dst = int (packet_buffer_raw_length p) - int TLG_PACKET_CRC_SIZE - 1;
                  dataLength = (dataLength + 2) mod TLG_PACKET_DATA_SPACE;
                  dataLength = (if dataLength = 0 then TLG_PACKET_DATA_SPACE else dataLength)
              in p\<lparr>pk_data := spread_fragments (pk_data p) dst src dataLength n\<rparr>)"

section \<open>What is sent\<close>

text \<open>
  The sending loop of \<open>ack_send_queued_packets\<close> on a packet that has not been sent yet: where the
  payload of each fragment starts in the buffer, and how long it is. The first fragment carries
  the opcode, so it has two bytes less.
\<close>

fun fragment_spans :: "nat \<Rightarrow> nat \<Rightarrow> nat \<Rightarrow> nat \<Rightarrow> (nat \<times> nat) list" where
  "fragment_spans pos dataLength fragIndex 0 = []"
| "fragment_spans pos dataLength fragIndex (Suc n) =
     (let space = (if fragIndex = 0 then TLG_PACKET_DATA_SPACE - 2 else TLG_PACKET_DATA_SPACE);
          pos = pos + TLG_PACKET_DATA_OFFSET;
          len = (if dataLength > space then space else dataLength)
      in (pos, len) # fragment_spans (pos + len + TLG_PACKET_CRC_SIZE) (dataLength - space) (fragIndex + 1) n)"

definition packet_fragments :: "tlg_packet \<Rightarrow> u8 list list" where
  "packet_fragments p =
     map (\<lambda>(pos, len). take len (drop pos (pk_data p)))
       (fragment_spans 0 (unat (pk_dataLength p)) 0 (unat (pk_fragCount p) + 1))"

section \<open>Correctness of the fragments\<close>

lemmas packet_sizes = TLG_PACKET_HEADER_SIZE_def TLG_PACKET_DATA_OFFSET_def TLG_PACKET_DATA_SPACE_def
  TLG_PACKET_CRC_SIZE_def sizeof_TlgPacket_def

text \<open>
  Copying \<open>n\<close> bytes downwards to higher addresses moves the block, and leaves the bytes below it
  and above it alone.
\<close>

lemma copy_down_eq:
  assumes "s \<le> d" "d + n \<le> length data"
  shows "copy_down data (int (d + n) - 1) (int (s + n) - 1) n =
    (take d data @ take n (drop s data) @ drop (d + n) data, int d - 1, int s - 1)"
  using assms
proof (induction n arbitrary: data)
  case (Suc n)
  have idx: "nat (int (d + Suc n) - 1) = d + n" "nat (int (s + Suc n) - 1) = s + n" by simp_all
  let ?data = "data[d + n := data ! (s + n)]"
  have "copy_down data (int (d + Suc n) - 1) (int (s + Suc n) - 1) (Suc n) =
      copy_down ?data (int (d + n) - 1) (int (s + n) - 1) n"
    by (simp add: idx[simplified])
  also have "\<dots> = (take d ?data @ take n (drop s ?data) @ drop (d + n) ?data, int d - 1, int s - 1)"
    using Suc.prems by (intro Suc.IH) auto
  also have "take d ?data = take d data" by simp
  also have "take n (drop s ?data) = take n (drop s data)"
    using Suc.prems by (intro nth_equalityI) auto
  also have "drop (d + n) ?data = data ! (s + n) # drop (d + Suc n) data"
    using Suc.prems by (simp add: drop_update_swap Cons_nth_drop_Suc [symmetric] list_update_append)
  also have "take n (drop s data) @ data ! (s + n) # drop (d + Suc n) data =
      take (Suc n) (drop s data) @ drop (d + Suc n) data"
    using Suc.prems by (simp add: take_Suc_conv_app_nth)
  finally show ?case by simp
qed simp

text \<open>
  Where the \<open>k\<close>-th of the moved fragments comes from and goes to: the first fragment stays in
  place behind the first gap, each later one is shifted by one more gap.
\<close>

definition frag_src :: "nat \<Rightarrow> nat" where "frag_src k = 528 + 512 * k"
definition frag_dst :: "nat \<Rightarrow> nat" where "frag_dst k = 550 + 534 * k"

definition spread_ok :: "u8 list \<Rightarrow> nat \<Rightarrow> nat \<Rightarrow> u8 list \<Rightarrow> bool" where
  "spread_ok data len n R \<longleftrightarrow> length R = length data \<and> take 550 R = take 550 data
     \<and> (\<forall>k < n - 1. take 512 (drop (frag_dst k) R) = take 512 (drop (frag_src k) data))
     \<and> take len (drop (frag_dst (n - 1)) R) = take len (drop (frag_src (n - 1)) data)
     \<and> drop (frag_dst (n - 1) + len) R = drop (frag_dst (n - 1) + len) data"

lemma take_drop_agree:
  assumes "take m xs = take m ys" "a + l \<le> m"
  shows "take l (drop a xs) = take l (drop a ys)"
proof -
  have "take l (drop a zs) = drop a (take (a + l) (take m zs))" for zs :: "'a list"
    using assms(2) by (simp add: take_drop add.commute min_def)
  then show ?thesis using assms(1) by metis
qed

lemma drop_agree: "drop a xs = drop a ys \<Longrightarrow> a \<le> b \<Longrightarrow> drop b xs = drop b ys"
  using drop_drop [of "b - a" a xs] drop_drop [of "b - a" a ys] by simp

lemma spread_fragments_ok:
  "0 < n \<Longrightarrow> len \<le> 512 \<Longrightarrow> frag_dst (n - 1) + len \<le> length data \<Longrightarrow>
   spread_ok data len n
     (spread_fragments data (int (frag_dst (n - 1) + len) - 1) (int (frag_src (n - 1) + len) - 1) len n)"
proof (induction n arbitrary: data len)
  case (Suc n)
  let ?d = "frag_dst n" and ?s = "frag_src n"
  let ?data = "take ?d data @ take len (drop ?s data) @ drop (?d + len) data"
  have sd: "?s \<le> ?d" by (simp add: frag_src_def frag_dst_def)
  have cp: "copy_down data (int (?d + len) - 1) (int (?s + len) - 1) len = (?data, int ?d - 1, int ?s - 1)"
    using Suc.prems(3) sd by (intro copy_down_eq) auto
  have bl: "length (take len (drop ?s data)) = len" "length (take ?d data) = ?d" using Suc.prems(3) sd by auto
  then have len: "length ?data = length data" using Suc.prems(3) by simp
  have blk: "take len (drop ?d ?data) = take len (drop ?s data)"
    "drop (?d + len) ?data = drop (?d + len) data" "take ?d ?data = take ?d data"
    using bl by simp_all
  show ?case
  proof (cases "n = 0")
    case True
    have "take 550 ?data = take 550 data" using blk(3) True by (simp add: frag_dst_def)
    then show ?thesis using cp blk len True by (simp add: spread_ok_def)
  next
    case False
    then obtain m where m: "n = Suc m" by (cases n) auto
    have step: "frag_dst m + 512 + 22 = ?d" "frag_src m + 512 = ?s"
      by (simp_all add: m frag_dst_def frag_src_def)
    let ?R = "spread_fragments ?data (int (frag_dst m + 512) - 1) (int (frag_src m + 512) - 1) 512 n"
    have n1: "n - 1 = m" "0 < n" by (simp_all add: m)
    have "frag_dst (n - 1) + 512 \<le> length ?data"
      unfolding len n1 using step(1) Suc.prems(3) by simp
    from Suc.IH [OF n1(2) order_refl this] have ok: "spread_ok ?data 512 n ?R" unfolding n1 .
    note ok = ok [unfolded spread_ok_def n1 len]
    have IH: "length ?R = length data" "take 550 ?R = take 550 ?data"
      "drop (frag_dst m + 512) ?R = drop (frag_dst m + 512) ?data"
      using ok by blast+
    have IH3: "take 512 (drop (frag_dst k) ?R) = take 512 (drop (frag_src k) ?data)" if "k < n" for k
    proof (cases "k = m")
      case True
      then show ?thesis using ok by blast
    next
      case False
      then have "k < m" using that m by simp
      then show ?thesis using ok by blast
    qed
    have "int ?d - 1 - int (TLG_PACKET_DATA_OFFSET + TLG_PACKET_CRC_SIZE) = int (frag_dst m + 512) - 1"
      "int ?s - 1 = int (frag_src m + 512) - 1"
      using step by (simp_all add: packet_sizes)
    then have eq: "spread_fragments data (int (?d + len) - 1) (int (?s + len) - 1) len (Suc n) = ?R"
      unfolding spread_fragments.simps cp by (simp only: Let_def prod.case TLG_PACKET_DATA_SPACE_def)
    have src: "take 512 (drop (frag_src k) ?data) = take 512 (drop (frag_src k) data)" if "k < n" for k
    proof (rule take_drop_agree [OF blk(3)])
      have "frag_src k + 512 \<le> ?s" using that by (simp add: frag_src_def)
      then show "frag_src k + 512 \<le> ?d" using sd by simp
    qed
    have t: "take 550 ?data = take 550 data"
      using take_drop_agree [OF blk(3), of 0 550] by (simp add: frag_dst_def)
    have up: "drop ?d ?R = drop ?d ?data" "drop (?d + len) ?R = drop (?d + len) ?data"
      by (rule drop_agree [OF IH(3)], use step(1) in linarith)+
    have new: "take len (drop ?d ?R) = take len (drop ?s data)" unfolding up(1) by (rule blk(1))
    have above: "drop (?d + len) ?R = drop (?d + len) data" unfolding up(2) by (rule blk(2))
    have below: "\<And>k. k < n \<Longrightarrow> take 512 (drop (frag_dst k) ?R) = take 512 (drop (frag_src k) data)"
      using IH3 src by metis
    have "take 550 ?R = take 550 data" using IH(2) t by metis
    then show ?thesis unfolding eq spread_ok_def diff_Suc_1 using IH(1) new above below by blast
  qed
qed simp

text \<open>The spans of the sending loop are the destinations of the copying loop.\<close>

lemma fragment_spans_tail:
  "0 < n \<Longrightarrow> 0 < i \<Longrightarrow> 512 * (n - 1) \<le> D \<Longrightarrow>
   fragment_spans (frag_dst k - 18) D i n =
     map (\<lambda>j. (frag_dst (k + j), if j < n - 1 then 512 else min 512 (D - 512 * (n - 1)))) [0..<n]"
proof (induction n arbitrary: k D i)
  case (Suc n)
  have d: "frag_dst k - 18 + TLG_PACKET_DATA_OFFSET = frag_dst k" by (simp add: frag_dst_def packet_sizes)
  show ?case
  proof (cases "n = 0")
    case True
    then show ?thesis using Suc.prems d by (simp add: TLG_PACKET_DATA_SPACE_def min_def)
  next
    case False
    then obtain m where m: "n = Suc m" by (cases n) auto
    then have D: "512 \<le> D" using Suc.prems(3) by simp
    have nx: "frag_dst k + 512 + TLG_PACKET_CRC_SIZE = frag_dst (Suc k) - 18"
      by (simp add: frag_dst_def packet_sizes)
    have "fragment_spans (frag_dst (Suc k) - 18) (D - 512) (i + 1) n =
      map (\<lambda>j. (frag_dst (Suc k + j), if j < n - 1 then 512 else min 512 (D - 512 - 512 * (n - 1)))) [0..<n]"
      using Suc.prems False by (intro Suc.IH) auto
    also have "\<dots> = map (\<lambda>j. (frag_dst (k + j), if j < n then 512 else min 512 (D - 512 * n))) (map Suc [0..<n])"
      using m by (auto simp: algebra_simps)
    also have "map Suc [0..<n] = [1..<Suc n]" by (simp add: map_Suc_upt)
    finally have tl: "fragment_spans (frag_dst (Suc k) - 18) (D - 512) (i + 1) n =
      map (\<lambda>j. (frag_dst (k + j), if j < n then 512 else min 512 (D - 512 * n))) [1..<Suc n]" .
    have "fragment_spans (frag_dst k - 18) D i (Suc n) =
      (frag_dst k, 512) # fragment_spans (frag_dst (Suc k) - 18) (D - 512) (i + 1) n"
      using Suc.prems(2) D d nx by (auto simp: TLG_PACKET_DATA_SPACE_def Let_def)
    then show ?thesis unfolding tl using False by (simp add: upt_conv_Cons del: upt_Suc)
  qed
qed simp

lemma concat_chunks:
  "concat (map (\<lambda>k. take c (drop (a + c * k) xs)) [0..<m]) = take (c * m) (drop a xs)"
proof (induction m)
  case (Suc m)
  have "take (c * m + c) (drop a xs) = take (c * m) (drop a xs) @ take c (drop (c * m) (drop a xs))" by (rule take_add)
  then show ?case using Suc by (simp add: add.commute)
qed simp

section \<open>Fragments carry the payload\<close>

text \<open>The number of fragments minus one, as \<open>packet_create\<close> computes it.\<close>

definition frag_count :: "nat \<Rightarrow> nat" where
  "frag_count len = (if len \<le> 512 then 0 else (len - 1) div 512)"

lemma frag_split:
  assumes "512 < len"
  obtains q r where "len = 512 * q + (r + 1)" "r < 512" "frag_count len = q" "0 < q"
proof -
  have "len - 1 = 512 * ((len - 1) div 512) + (len - 1) mod 512" by simp
  then have "len = 512 * ((len - 1) div 512) + ((len - 1) mod 512 + 1)" using assms by linarith
  moreover have "0 < (len - 1) div 512" using assms by (simp add: div_greater_zero_iff)
  ultimately show ?thesis using that [of "(len - 1) div 512" "(len - 1) mod 512"] assms
    by (simp add: frag_count_def)
qed

lemma div_mod_shift: "(512 * q + x) div 512 = q + x div 512" "(512 * q + x) mod 512 = x mod (512 :: nat)"
  by simp_all

lemma packet_calc_eq:
  "packet_calc_length_and_frag_count len =
     (sizeof_TlgPacket + 22 * (frag_count len + 1) + len, of_nat (frag_count len))"
proof (cases "len \<le> 512")
  case False
  then obtain q r where r: "len = 512 * q + (r + 1)" "r < 512" "frag_count len = q" "0 < q"
    using frag_split [of len] by auto
  have "(if len mod 512 \<noteq> 0 then len div 512 + 1 else len div 512) = q + 1"
  proof (cases "r = 511")
    case True
    have "(512 * q + 512) div 512 = q + 1" by simp
    then show ?thesis by (simp add: r(1) True)
  next
    case no: False
    then have "(r + 1) mod 512 = r + 1" "(r + 1) div 512 = 0" using r(2) by simp_all
    then show ?thesis unfolding r(1) div_mod_shift by simp
  qed
  note cnt = this
  show ?thesis unfolding packet_calc_length_and_frag_count_def packet_sizes Let_def r(3)
    by (simp only: False if_False cnt) simp
qed (simp add: packet_calc_length_and_frag_count_def packet_sizes frag_count_def)

lemma frag_count_bounds:
  assumes "512 < len"
  shows "0 < frag_count len" "512 * frag_count len < len" "len \<le> 512 * frag_count len + 512"
proof -
  obtain q r where "len = 512 * q + (r + 1)" "r < 512" "frag_count len = q" "0 < q"
    using frag_split [OF assms] by blast
  then show "0 < frag_count len" "512 * frag_count len < len" "len \<le> 512 * frag_count len + 512" by simp_all
qed

text \<open>A packet with its payload filled in, as the packet builders leave it.\<close>

definition filled_packet :: "u16 \<Rightarrow> u8 list \<Rightarrow> u8 list \<Rightarrow> tlg_packet option" where
  "filled_packet opcode payload block =
     map_option (\<lambda>p. packet_fill p payload) (packet_create (Some block) opcode (of_nat (length payload)))"

lemma filled_packet_eq:
  assumes "length payload < 2 ^ 25" "sizeof_TlgPacket + length block \<ge> fst (packet_calc_length_and_frag_count (length payload))"
  obtains p gap rest where "filled_packet opcode payload block = Some p" "pk_data p = gap @ payload @ rest"
    "length gap = 18" "length (pk_data p) = length payload + 22 * (frag_count (length payload) + 1)"
    "unat (pk_fragCount p) = frag_count (length payload)" "unat (pk_dataLength p) = length payload"
proof -
  let ?L = "length payload" and ?n = "frag_count (length payload)"
  have L: "unat (of_nat ?L :: u32) = ?L" using assms(1) by (intro unat_of_nat_small) simp
  have "?n < 2 ^ 16" using assms(1) unfolding frag_count_def by (auto simp: less_mult_imp_div_less)
  then have n: "unat (of_nat ?n :: u16) = ?n" by (intro unat_of_nat_small) simp
  let ?b = "take (?L + 22 * (?n + 1)) block"
  have lb: "length ?b = ?L + 22 * (?n + 1)" using assms(2) by (simp add: packet_calc_eq)
  let ?p = "\<lparr>pk_opcode = opcode, pk_fragCount = of_nat ?n, pk_isFragmentized = False, pk_dataLength = of_nat ?L,
    pk_refCount = 0, pk_data = take 18 ?b @ payload @ drop (18 + ?L) ?b\<rparr>"
  have "filled_packet opcode payload block = Some ?p"
    by (simp add: filled_packet_def packet_create_def packet_calc_eq L packet_fill_def packet_sizes ac_simps)
  moreover have "length (take 18 ?b) = 18" "length (pk_data ?p) = ?L + 22 * (?n + 1)" using lb by auto
  ultimately show ?thesis using that [of ?p "take 18 ?b" "drop (18 + ?L) ?b"] n L by simp
qed

lemma fragment_spans_eq:
  assumes "512 < len"
  shows "fragment_spans 0 len 0 (frag_count len + 1) = (18, 510) #
    map (\<lambda>j. (frag_dst j, if j < frag_count len - 1 then 512
        else min 512 (len - 510 - 512 * (frag_count len - 1)))) [0..<frag_count len]"
proof -
  note b = frag_count_bounds [OF assms]
  have e: "18 + 510 + TLG_PACKET_CRC_SIZE = frag_dst 0 - 18" by (simp add: frag_dst_def packet_sizes)
  have "fragment_spans (frag_dst 0 - 18) (len - 510) 1 (frag_count len) =
    map (\<lambda>j. (frag_dst (0 + j), if j < frag_count len - 1 then 512
        else min 512 (len - 510 - 512 * (frag_count len - 1)))) [0..<frag_count len]"
    using b by (intro fragment_spans_tail) auto
  then show ?thesis using assms e by (simp add: TLG_PACKET_DATA_SPACE_def TLG_PACKET_DATA_OFFSET_def
        TLG_PACKET_HEADER_SIZE_def Let_def)
qed

lemma long_split:
  assumes "512 < len" "len mod 512 \<notin> {0, 511}"
  obtains m l where "len = 510 + 512 * m + l" "0 < l" "l \<le> 512" "frag_count len = Suc m"
    "(len + 2) mod 512 = (if l = 512 then 0 else l)"
proof -
  obtain d r where d: "len = 512 * d + (r + 1)" "r < 512" "frag_count len = d" "0 < d" using frag_split [OF assms(1)] by blast
  have "len mod 512 = (r + 1) mod 512" unfolding d(1) by (rule div_mod_shift)
  then have r: "r < 510" using assms(2) d(2) by (cases "r = 510"; cases "r = 511") auto
  have "len + 2 = 512 * d + (r + 3)" using d(1) by simp
  then have "(len + 2) mod 512 = (r + 3) mod 512" using div_mod_shift(2) [of d "r + 3"] by metis
  moreover obtain m where "d = Suc m" using d(4) by (cases d) auto
  ultimately show ?thesis using that [of m "r + 3"] d r by auto
qed

lemma packet_fragmentize_eq:
  assumes n: "unat (pk_fragCount p) = n" "0 < n"
    and L: "unat (pk_dataLength p) = L"
    and dst: "int (packet_buffer_raw_length p) - int TLG_PACKET_CRC_SIZE - 1 = dst"
    and src: "int L + int TLG_PACKET_DATA_OFFSET - 1 = src"
    and l: "(if (L + 2) mod 512 = 0 then 512 else (L + 2) mod 512) = l"
  shows "packet_fragmentize p = p\<lparr>pk_isFragmentized := True, pk_data := spread_fragments (pk_data p) dst src l n\<rparr>"
proof -
  have sel: "packet_buffer_raw_length (p\<lparr>pk_isFragmentized := True\<rparr>) = packet_buffer_raw_length p"
    "pk_fragCount (p\<lparr>pk_isFragmentized := True\<rparr>) = pk_fragCount p"
    "pk_dataLength (p\<lparr>pk_isFragmentized := True\<rparr>) = pk_dataLength p"
    "pk_data (p\<lparr>pk_isFragmentized := True\<rparr>) = pk_data p"
    by (simp_all add: packet_buffer_raw_length_def)
  have n0: "n \<noteq> 0" using n(2) by simp
  show ?thesis unfolding packet_fragmentize_def Let_def TLG_PACKET_DATA_SPACE_def sel n(1) L dst src l
    using n0 by (simp only: if_False)
qed

lemma packet_fragments_data:
  "packet_fragments (p\<lparr>pk_isFragmentized := True, pk_data := R\<rparr>) =
     map (\<lambda>(pos, len). take len (drop pos R))
       (fragment_spans 0 (unat (pk_dataLength p)) 0 (unat (pk_fragCount p) + 1))"
  by (simp add: packet_fragments_def)

lemma fragments_of_long:
  assumes "length payload < 2 ^ 25" "512 < length payload" "length payload mod 512 \<notin> {0, 511}"
    "sizeof_TlgPacket + length block \<ge> fst (packet_calc_length_and_frag_count (length payload))"
    and p: "filled_packet opcode payload block = Some p"
  shows "concat (packet_fragments (packet_fragmentize p)) = payload"
proof -
  obtain m l where L: "length payload = 510 + 512 * m + l" "0 < l" "l \<le> 512" "frag_count (length payload) = Suc m"
    "(length payload + 2) mod 512 = (if l = 512 then 0 else l)" using long_split [OF assms(2,3)] by blast
  obtain q gap rest where q: "filled_packet opcode payload block = Some q" "pk_data q = gap @ payload @ rest"
    "length gap = 18" "length (pk_data q) = length payload + 22 * (frag_count (length payload) + 1)"
    "unat (pk_fragCount q) = frag_count (length payload)" "unat (pk_dataLength q) = length payload"
    by (rule filled_packet_eq [OF assms(1,4), of opcode])
  have pq: "p = q" using p q(1) by simp
  have len: "length (pk_data p) = 510 + 512 * m + l + 22 * (Suc m + 1)" "unat (pk_fragCount p) = Suc m"
    "unat (pk_dataLength p) = 510 + 512 * m + l"
    using q(4-6) L(1,4) pq by simp_all
  let ?R = "spread_fragments (pk_data p) (int (frag_dst m + l) - 1) (int (frag_src m + l) - 1) l (Suc m)"
  have md: "(510 + 512 * m + l + 2) mod 512 = (if l = 512 then 0 else l)" using L(1,5) by simp
  have ends: "int (packet_buffer_raw_length p) - int TLG_PACKET_CRC_SIZE - 1 = int (frag_dst m + l) - 1"
    "int (510 + 512 * m + l) + int TLG_PACKET_DATA_OFFSET - 1 = int (frag_src m + l) - 1"
    unfolding packet_buffer_raw_length_def len packet_sizes frag_dst_def frag_src_def by simp_all
  have fr: "packet_fragmentize p = p\<lparr>pk_isFragmentized := True, pk_data := ?R\<rparr>"
    using L(2) by (intro packet_fragmentize_eq [OF len(2) _ len(3) ends]) (auto simp only: md split: if_splits)
  have ok: "spread_ok (pk_data p) l (Suc m) ?R"
    using spread_fragments_ok [of "Suc m" l "pk_data p"] L(3) len(1) by (simp add: frag_dst_def)
  have src: "take k (drop (18 + a) (pk_data p)) = take k (drop a payload)" if "a + k \<le> length payload" for a k
    using that q(2,3) pq by simp
  have f0: "take 510 (drop 18 ?R) = take 510 payload"
  proof -
    have "take 510 (drop 18 ?R) = take 510 (drop 18 (pk_data p))"
      using ok unfolding spread_ok_def by (intro take_drop_agree [of 550]) simp_all
    then show ?thesis using src [of 0 510] L(1) by simp
  qed
  have fk: "take 512 (drop (frag_dst k) ?R) = take 512 (drop (510 + 512 * k) payload)" if "k < m" for k
  proof -
    have "take 512 (drop (frag_dst k) ?R) = take 512 (drop (frag_src k) (pk_data p))"
      using ok that unfolding spread_ok_def by (simp only: diff_Suc_1)
    moreover have "frag_src k = 18 + (510 + 512 * k)" "510 + 512 * k + 512 \<le> length payload"
      using that L(1) by (simp_all add: frag_src_def)
    ultimately show ?thesis using src [of "510 + 512 * k" 512] by (simp only:)
  qed
  have fl: "take l (drop (frag_dst m) ?R) = drop (510 + 512 * m) payload"
  proof -
    have "take l (drop (frag_dst m) ?R) = take l (drop (frag_src m) (pk_data p))"
      using ok unfolding spread_ok_def by (simp only: diff_Suc_1)
    moreover have "frag_src m = 18 + (510 + 512 * m)" by (simp add: frag_src_def)
    moreover have "take l (drop (510 + 512 * m) payload) = drop (510 + 512 * m) payload" using L(1) by simp
    ultimately show ?thesis using src [of "510 + 512 * m" l] L(1) by (simp only: order_refl)
  qed
  have sp: "fragment_spans 0 (510 + 512 * m + l) 0 (Suc m + 1) = (18, 510) #
    map (\<lambda>j. (frag_dst j, 512)) [0..<m] @ [(frag_dst m, l)]"
    using fragment_spans_eq [OF assms(2)] L(3) unfolding L(4) unfolding L(1) by (simp add: min_def)
  have "packet_fragments (packet_fragmentize p) = take 510 (drop 18 ?R) #
      map (\<lambda>k. take 512 (drop (frag_dst k) ?R)) [0..<m] @ [take l (drop (frag_dst m) ?R)]"
    unfolding fr packet_fragments_data len sp by (simp only: list.map prod.case map_append map_map o_def)
  also have "\<dots> = take 510 payload # map (\<lambda>k. take 512 (drop (510 + 512 * k) payload)) [0..<m]
      @ [drop (510 + 512 * m) payload]"
    unfolding f0 fl using fk by simp
  also have "concat \<dots> = take 510 payload @ take (512 * m) (drop 510 payload) @ drop (510 + 512 * m) payload"
    by (simp add: concat_chunks)
  also have "\<dots> = payload" by (metis append.assoc append_take_drop_id take_add)
  finally show ?thesis .
qed

lemma fragments_of_short:
  assumes "length payload \<le> 510"
    "sizeof_TlgPacket + length block \<ge> fst (packet_calc_length_and_frag_count (length payload))"
    and p: "filled_packet opcode payload block = Some p"
  shows "concat (packet_fragments (packet_fragmentize p)) = payload"
proof -
  obtain q gap rest where q: "filled_packet opcode payload block = Some q" "pk_data q = gap @ payload @ rest"
    "length gap = 18" "length (pk_data q) = length payload + 22 * (frag_count (length payload) + 1)"
    "unat (pk_fragCount q) = frag_count (length payload)" "unat (pk_dataLength q) = length payload"
    using filled_packet_eq [OF _ assms(2), of opcode] assms(1) by auto
  then have [simp]: "p = q" using p by simp
  have "frag_count (length payload) = 0" using assms(1) by (simp add: frag_count_def)
  then show ?thesis using q assms(1)
    by (simp add: packet_fragmentize_def packet_fragments_def packet_sizes Let_def)
qed

text \<open>
  C13. The fragments a packet is sent in carry its payload: for a payload of at most 510 bytes, or a
  longer one below 32 MB whose length is neither 0 nor 511 modulo 512, the pieces that the sending
  loop cuts out of the buffer after the in-place \<open>packet_fragmentize\<close> concatenate to exactly the
  bytes written behind the first header gap.
\<close>

theorem packet_fragments_carry_payload:
  assumes "length payload \<le> 510 \<or> 512 < length payload \<and> length payload < 2 ^ 25 \<and> length payload mod 512 \<notin> {0, 511}"
    and "fst (packet_calc_length_and_frag_count (length payload)) \<le> sizeof_TlgPacket + length block"
    and "filled_packet opcode payload block = Some p"
  shows "concat (packet_fragments (packet_fragmentize p)) = payload"
  using assms(1)
proof (elim disjE conjE)
  assume "length payload \<le> 510"
  from fragments_of_short [OF this assms(2,3)] show ?thesis .
next
  assume "512 < length payload" "length payload < 2 ^ 25" "length payload mod 512 \<notin> {0, 511}"
  from fragments_of_long [OF this(2,1,3) assms(2,3)] show ?thesis .
qed

lemma packet_fragments_carry_payload_witness:
  "concat (packet_fragments (packet_fragmentize (packet_fill (the (packet_create (Some (replicate 644 0)) 7 600)) (replicate 600 5))))
     = replicate 600 5"
proof (rule packet_fragments_carry_payload [where block = "replicate 644 0" and opcode = 7])
  show "length (replicate 600 (5 :: u8)) \<le> 510 \<or> 512 < length (replicate 600 (5 :: u8)) \<and>
    length (replicate 600 (5 :: u8)) < 2 ^ 25 \<and> length (replicate 600 (5 :: u8)) mod 512 \<notin> {0, 511}" by simp
  show "fst (packet_calc_length_and_frag_count (length (replicate 600 (5 :: u8)))) \<le> sizeof_TlgPacket + length (replicate 644 (0 :: u8))"
    by (simp add: packet_calc_eq packet_sizes frag_count_def)
  show "filled_packet 7 (replicate 600 5) (replicate 644 0) =
    Some (packet_fill (the (packet_create (Some (replicate 644 0)) 7 600)) (replicate 600 5))"
    by (simp add: filled_packet_def packet_create_def case_prod_beta)
qed

text \<open>
  The fragment count does not include the two bytes of the opcode. A payload of 511 or 512 bytes is
  one fragment, which has room for 510.
\<close>

lemma packet_loses_opcode_bytes:
  assumes "length payload \<in> {511, 512}"
    "fst (packet_calc_length_and_frag_count (length payload)) \<le> sizeof_TlgPacket + length block"
    and "filled_packet opcode payload block = Some p"
  shows "concat (packet_fragments (packet_fragmentize p)) = take 510 payload"
proof -
  have "length payload < 2 ^ 25" using assms(1) by auto
  then obtain q gap rest where q: "filled_packet opcode payload block = Some q" "pk_data q = gap @ payload @ rest"
    "length gap = 18" "length (pk_data q) = length payload + 22 * (frag_count (length payload) + 1)"
    "unat (pk_fragCount q) = frag_count (length payload)" "unat (pk_dataLength q) = length payload"
    using filled_packet_eq [OF _ assms(2), of opcode] by auto
  then have [simp]: "p = q" using assms(3) by simp
  have "frag_count (length payload) = 0" using assms(1) by (auto simp: frag_count_def)
  then show ?thesis using q assms(1)
    by (auto simp: packet_fragmentize_def packet_fragments_def packet_sizes Let_def)
qed

end
