(* ===== verification/Zeq_AckMgr.thy ===== *)
theory Zeq_AckMgr
  imports Zeq_Packet Zeq_Aligned Zeq_RingBuf Zeq_Bits Zeq_Crc
begin

text \<open>
  \<open>src/ack_mgr.c\<close>, the reliable layer over UDP: sequencing and reassembling what the client sends,
  and queueing what is sent to the client until it is acknowledged. The part of
  \<open>src/udp_client.c\<close> that hands a complete message to the server is here too, since the two files
  call each other. Outgoing packets are shared between clients, so they live on a heap and the
  queue holds their addresses. An access outside an array, or through \<open>NULL\<close>, is \<open>None\<close>.
  \<open>malloc\<close> and \<open>realloc\<close> are the argument \<open>alloc\<close>, which says of a size whether it is granted.
\<close>

section \<open>State\<close>

record to_server_packet =
  sp_ackRequest :: u16
  sp_fragCount :: u16
  sp_opcode :: u16
  sp_length :: u32
  sp_data :: "u8 list option"

record ack_to_server =
  ts_nextAckRequestExpected :: u16
  ts_lastAckSent :: u16
  ts_lastAckReceived :: u16
  ts_lowestAckInQueue :: u16
  ts_count :: u16
  ts_capacity :: u16
  ts_packetQueue :: "to_server_packet list"

record to_client_packet =
  cp_header :: u16
  cp_ackRequest :: u16
  cp_fragGroup :: u16
  cp_fragCount :: u16
  cp_ackCounterAlwaysOne :: u8
  cp_ackCounterRequest :: u8
  cp_ackTimestamp :: u64
  cp_packet :: u64

text \<open>The count of the queue to the client is the length of the list, slots behind it are never read.\<close>

record ack_to_client =
  tc_nextSeqToSend :: u16
  tc_nextAckToRequest :: u16
  tc_nextFragGroup :: u16
  tc_ackCounterAlwaysOne :: u8
  tc_ackCounterRequest :: u8
  tc_sendFromIndex :: nat
  tc_packetQueue :: "to_client_packet list"

record ack_mgr =
  am_toServer :: ack_to_server
  am_toClient :: ack_to_client

text \<open>
  The messages of the UDP thread to the server. A client object is an address. \<open>uc_sent\<close> and
  \<open>uc_ackFlags\<close> record the effects on the outside: the datagrams handed to \<open>sendto\<close> and the indices
  for which \<open>udp_thread_update_ack_timestamp\<close> was called.
\<close>

datatype zpacket =
    ZToServerPacket u16 u32 u64 "u8 list option"
  | ZClientDisconnect u64
  | ZReplaceClientObject u32 u16 u64
  | ZNewClient u32 u16 u64

definition ZOP_UDP_NewClient :: int where "ZOP_UDP_NewClient = 3"
definition ZOP_UDP_ToServerPacket :: int where "ZOP_UDP_ToServerPacket = 5"
definition ZOP_UDP_ClientDisconnect :: int where "ZOP_UDP_ClientDisconnect = 8"
definition ZOP_UDP_ClientLinkdead :: int where "ZOP_UDP_ClientLinkdead = 9"
definition ZOP_UDP_ReplaceClientObject :: int where "ZOP_UDP_ReplaceClientObject = 10"

record udp_client =
  uc_ip :: u32
  uc_port :: u16
  uc_accountId :: u32
  uc_udpIndex :: int
  uc_clientObject :: u64
  uc_toServerQueue :: "zpacket ringbuf"
  uc_ackMgr :: ack_mgr
  uc_sent :: "u8 list list"
  uc_ackFlags :: "nat list"

type_synonym pheap = "u64 \<Rightarrow> tlg_packet option"

definition ACK_RESEND_PACKET_MILLISECONDS_WITHOUT_ACK :: u64 where
  "ACK_RESEND_PACKET_MILLISECONDS_WITHOUT_ACK = 250"

definition ACK_CMP_WINDOW_HALF_SIZE :: int where "ACK_CMP_WINDOW_HALF_SIZE = 1024"

datatype ack_comparison = ACK_Past | ACK_Present | ACK_Future

text \<open>The operands are promoted to \<open>int\<close>, so the bounds of the window do not wrap.\<close>

definition ack_cmp :: "u16 \<Rightarrow> u16 \<Rightarrow> ack_comparison" where
  "ack_cmp got expected =
     (if got = expected then ACK_Present
      else if (got > expected \<and> uint got < uint expected + ACK_CMP_WINDOW_HALF_SIZE)
           \<or> uint got < uint expected - ACK_CMP_WINDOW_HALF_SIZE then ACK_Future
      else ACK_Past)"

text \<open>\<open>ack_init\<close> does not assign \<open>lowestAckInQueue\<close>: it stays \<open>junk\<close>.\<close>

definition ack_init :: "u16 \<Rightarrow> ack_mgr" where
  "ack_init junk =
     \<lparr>am_toServer = \<lparr>ts_nextAckRequestExpected = 0, ts_lastAckSent = 0, ts_lastAckReceived = 0,
        ts_lowestAckInQueue = junk, ts_count = 0, ts_capacity = 0, ts_packetQueue = []\<rparr>,
      am_toClient = \<lparr>tc_nextSeqToSend = 0, tc_nextAckToRequest = 0, tc_nextFragGroup = 0,
        tc_ackCounterAlwaysOne = 1, tc_ackCounterRequest = 0, tc_sendFromIndex = 0, tc_packetQueue = []\<rparr>\<rparr>"

definition pheap_drop :: "pheap \<Rightarrow> u64 \<Rightarrow> pheap" where
  "pheap_drop h p = (case h p of None \<Rightarrow> h | Some packet \<Rightarrow> h(p := packet_drop packet))"

definition ack_deinit :: "pheap \<Rightarrow> ack_mgr \<Rightarrow> pheap \<times> ack_mgr" where
  "ack_deinit h am =
     (fold (\<lambda>w h. pheap_drop h (cp_packet w)) (tc_packetQueue (am_toClient am)) h,
      am\<lparr>am_toServer := (am_toServer am)\<lparr>ts_packetQueue := []\<rparr>,
         am_toClient := (am_toClient am)\<lparr>tc_packetQueue := []\<rparr>\<rparr>)"

section \<open>To the client\<close>

definition sizeof_to_client_packet :: nat where "sizeof_to_client_packet = 32"
definition sizeof_to_server_packet :: nat where "sizeof_to_server_packet = 24"

definition ack_queue_to_client_packet ::
    "(nat \<Rightarrow> bool) \<Rightarrow> pheap \<Rightarrow> ack_mgr \<Rightarrow> to_client_packet \<Rightarrow> pheap \<times> ack_mgr" where
  "ack_queue_to_client_packet alloc h am wrapper =
     (let index = length (tc_packetQueue (am_toClient am));
          cap = (if index = 0 then 1 else index * 2)
      in if bit_is_pow2_or_zero (of_nat index) \<and> \<not> alloc (cap * sizeof_to_client_packet)
         then (pheap_drop h (cp_packet wrapper), am)
         else (h, am\<lparr>am_toClient := (am_toClient am)
                 \<lparr>tc_packetQueue := tc_packetQueue (am_toClient am) @ [wrapper]\<rparr>\<rparr>))"

text \<open>The local \<open>wrapper\<close> is not initialised: \<open>junk\<close> gives the fields that are not assigned.\<close>

definition ack_schedule_packet ::
    "(nat \<Rightarrow> bool) \<Rightarrow> to_client_packet \<Rightarrow> pheap \<Rightarrow> ack_mgr \<Rightarrow> u64 \<Rightarrow> bool \<Rightarrow> (pheap \<times> ack_mgr) option" where
  "ack_schedule_packet alloc junk h am packet hasAckRequest =
     map_option (\<lambda>pk.
       let fragCount = ucast (packet_frag_count pk) :: u16;
           hasAckRequest = (if fragCount \<noteq> 0 then True else hasAckRequest);
           fragCount = fragCount + 1;
           wrapper = junk\<lparr>cp_fragCount := fragCount, cp_packet := packet\<rparr>;
           tc = am_toClient am;
           (tc, wrapper, header) =
             (if hasAckRequest then
                let tc = (if tc_nextAckToRequest tc = 0 then tc\<lparr>tc_nextAckToRequest := 1\<rparr> else tc);
                    wrapper = wrapper\<lparr>cp_ackRequest := tc_nextAckToRequest tc\<rparr>;
                    tc = tc\<lparr>tc_nextAckToRequest := tc_nextAckToRequest tc + fragCount\<rparr>;
                    wrapper = wrapper\<lparr>cp_ackCounterAlwaysOne := tc_ackCounterAlwaysOne tc,
                                      cp_ackCounterRequest := tc_ackCounterRequest tc\<rparr>;
                    tc = tc\<lparr>tc_ackCounterRequest := tc_ackCounterRequest tc + 1\<rparr>;
                    header = 0 OR (TLG_PACKET_HasAckRequest OR TLG_PACKET_HasAckCounter)
                in if fragCount > 1
                   then (tc\<lparr>tc_nextFragGroup := tc_nextFragGroup tc + 1\<rparr>,
                         wrapper\<lparr>cp_fragGroup := tc_nextFragGroup tc\<rparr>, header OR TLG_PACKET_IsFragment)
                   else (tc, wrapper, header)
              else (tc, wrapper, 0));
           wrapper = wrapper\<lparr>cp_header := header\<rparr>
       in ack_queue_to_client_packet alloc h (am\<lparr>am_toClient := tc\<rparr>) wrapper)
     (h packet)"

text \<open>The loop of \<open>ack_recv_ack_response\<close>: the number of packets acknowledged.\<close>

fun ack_count_acked :: "to_client_packet list \<Rightarrow> u16 \<Rightarrow> nat" where
  "ack_count_acked [] ack = 0"
| "ack_count_acked (w # ws) ack =
     (if ack_cmp (cp_ackRequest w + (cp_fragCount w - 1)) ack = ACK_Future then 0
      else Suc (ack_count_acked ws ack))"

definition ack_recv_ack_response :: "pheap \<Rightarrow> ack_mgr \<Rightarrow> u16 \<Rightarrow> pheap \<times> ack_mgr" where
  "ack_recv_ack_response h am ack0 =
     (let ack = to_network_uint16 ack0;
          am = am\<lparr>am_toServer := (am_toServer am)\<lparr>ts_lastAckReceived := ack\<rparr>\<rparr>;
          packets = tc_packetQueue (am_toClient am);
          i = ack_count_acked packets ack;
          h = fold (\<lambda>w h. pheap_drop h (cp_packet w)) (take i packets) h
      in if i > 0
         then (h, am\<lparr>am_toClient := (am_toClient am)\<lparr>tc_packetQueue := drop i packets, tc_sendFromIndex := 0\<rparr>\<rparr>)
         else (h, am))"

definition ack_recv_sync :: "ack_mgr \<Rightarrow> u16 \<Rightarrow> ack_mgr" where
  "ack_recv_sync am ackRequest =
     am\<lparr>am_toServer := (am_toServer am)\<lparr>ts_lastAckSent := ackRequest - 1, ts_nextAckRequestExpected := ackRequest\<rparr>\<rparr>"

definition ack_get_next_seq_to_send_and_increment :: "ack_mgr \<Rightarrow> u16 \<times> ack_mgr" where
  "ack_get_next_seq_to_send_and_increment am =
     (to_network_uint16 (tc_nextSeqToSend (am_toClient am)),
      am\<lparr>am_toClient := (am_toClient am)\<lparr>tc_nextSeqToSend := tc_nextSeqToSend (am_toClient am) + 1\<rparr>\<rparr>)"

definition ack_get_keep_alive_ack :: "ack_mgr \<Rightarrow> u16 \<times> ack_mgr" where
  "ack_get_keep_alive_ack am =
     (let nextAck = ts_nextAckRequestExpected (am_toServer am) - 1;
          ackToSend = ts_lastAckSent (am_toServer am)
      in if ackToSend \<noteq> nextAck
         then (to_network_uint16 nextAck, am\<lparr>am_toServer := (am_toServer am)\<lparr>ts_lastAckSent := nextAck\<rparr>\<rparr>)
         else (to_network_uint16 ackToSend, am))"

section \<open>Complete messages\<close>

text \<open>
  \<open>udpc_recv_packet_no_copy\<close>: the cursor it is given is at the start of \<open>data\<close>, whose length is all
  that remains. A message that does not fit into the queue is freed.
\<close>

definition udpc_recv_packet_no_copy :: "udp_client \<Rightarrow> u8 list option \<Rightarrow> u32 \<Rightarrow> u16 \<Rightarrow> udp_client option" where
  "udpc_recv_packet_no_copy udpc data len opcode =
     (if opcode = 0 then Some udpc
      else map_option (\<lambda>(rc, rb). udpc\<lparr>uc_toServerQueue := rb\<rparr>)
             (ringbuf_push (uc_toServerQueue udpc) ZOP_UDP_ToServerPacket
                (Some (ZToServerPacket opcode len (uc_clientObject udpc) data))))"

text \<open>The bytes behind the cursor.\<close>

definition aligned_rest :: "aligned \<Rightarrow> u8 list" where
  "aligned_rest a = take (unat (aligned_remaining_space a)) (drop (unat (al_cursor a)) (al_buffer a))"

definition udpc_recv_packet :: "(nat \<Rightarrow> bool) \<Rightarrow> udp_client \<Rightarrow> aligned \<Rightarrow> u16 \<Rightarrow> udp_client option" where
  "udpc_recv_packet alloc udpc a opcode =
     (if opcode = 0 then Some udpc
      else let len = aligned_remaining_space a
           in if len \<noteq> 0
              then if \<not> alloc (unat len) then Some udpc
                   else udpc_recv_packet_no_copy udpc (Some (aligned_rest a)) len opcode
              else udpc_recv_packet_no_copy udpc None len opcode)"

section \<open>From the client\<close>

definition ack_complete_packet :: "udp_client \<Rightarrow> to_server_packet \<Rightarrow> udp_client option" where
  "ack_complete_packet udpc packet = udpc_recv_packet_no_copy udpc (sp_data packet) (sp_length packet) (sp_opcode packet)"

text \<open>
  The fragments written one after the other. \<open>memcpy\<close> of no bytes from \<open>NULL\<close> does nothing, of more
  is undefined. The fresh buffer is overwritten completely, so it may as well hold zeroes.
\<close>

fun ack_write_fragments :: "to_server_packet list \<Rightarrow> aligned \<Rightarrow> aligned option" where
  "ack_write_fragments [] a = Some a"
| "ack_write_fragments (p # ps) a =
     (case sp_data p of
        Some d \<Rightarrow> Option.bind (aligned_write_buffer a d (sp_length p)) (ack_write_fragments ps)
      | None \<Rightarrow> if sp_length p = 0 then ack_write_fragments ps a else None)"

definition ack_complete_fragments ::
    "(nat \<Rightarrow> bool) \<Rightarrow> udp_client \<Rightarrow> to_server_packet list \<Rightarrow> u32 \<Rightarrow> nat \<Rightarrow> nat
      \<Rightarrow> (udp_client \<times> to_server_packet list) option" where
  "ack_complete_fragments alloc udpc array len i n =
     (let opcode = sp_opcode (array ! i)
      in if \<not> alloc (unat len) then Some (udpc, array)
         else let frags = take (n + 1 - i) (drop i array)
              in Option.bind (ack_write_fragments frags (aligned_init (replicate (unat len) 0) len))
                   (\<lambda>a. map_option (\<lambda>udpc. (udpc,
                       take i array @ map (\<lambda>p. p\<lparr>sp_data := None\<rparr>) frags @ drop (n + 1) array))
                     (udpc_recv_packet_no_copy udpc (Some (al_buffer (aligned_reset_cursor a))) len opcode)))"

text \<open>The locals of the loop in \<open>ack_recv_packet\<close>, and the field \<open>lowestAckInQueue\<close> it assigns.\<close>

record recv_loop =
  rl_queue :: "to_server_packet list"
  rl_udpc :: udp_client
  rl_nextAck :: u16
  rl_lowest :: u16
  rl_diff :: nat
  rl_length :: u32
  rl_frags :: nat

function ack_drive :: "(nat \<Rightarrow> bool) \<Rightarrow> nat \<Rightarrow> nat \<Rightarrow> recv_loop \<Rightarrow> recv_loop option" where
  "ack_drive alloc n i l =
     (if \<not> i < n then Some l
      else if \<not> i < length (rl_queue l) then None
      else let packet = rl_queue l ! i; fragCount = sp_fragCount packet
           in if sp_ackRequest packet = 0 then Some l
              else if fragCount = 0 then
                Option.bind (ack_complete_packet (rl_udpc l) packet)
                  (\<lambda>udpc. ack_drive alloc n (i + 1) (l\<lparr>rl_udpc := udpc, rl_nextAck := sp_ackRequest packet,
                      rl_lowest := sp_ackRequest packet + 1, rl_diff := rl_diff l + 1\<rparr>))
              else if unat fragCount > n then Some l
              else let len = rl_length l + sp_length packet;
                       frags = rl_frags l + 1;
                       nextAck = sp_ackRequest packet
                   in if frags = unat fragCount then
                        Option.bind (ack_complete_fragments alloc (rl_udpc l) (rl_queue l) len (i - (frags - 1)) i)
                          (\<lambda>(udpc, queue). ack_drive alloc n (i + 1) (l\<lparr>rl_queue := queue, rl_udpc := udpc,
                             rl_nextAck := nextAck, rl_lowest := nextAck + 1, rl_diff := rl_diff l + frags,
                             rl_length := 0, rl_frags := 0\<rparr>))
                      else ack_drive alloc n (i + 1) (l\<lparr>rl_nextAck := nextAck, rl_length := len, rl_frags := frags\<rparr>))"
  by pat_completeness auto
termination
  by (relation "measure (\<lambda>(alloc, n, i, l). n - i)") auto

declare ack_drive.simps [simp del]

definition empty_slot :: to_server_packet where
  "empty_slot = \<lparr>sp_ackRequest = 0, sp_fragCount = 0, sp_opcode = 0, sp_length = 0, sp_data = None\<rparr>"

text \<open>
  Growing the array. A capacity of 0, for a distance of at least \<open>2 ^ 31\<close>, frees it, so that is
  undefined. The new array is cleared from index \<open>count\<close> on. \<open>Some None\<close> is a refused allocation.
\<close>

definition ack_expand :: "(nat \<Rightarrow> bool) \<Rightarrow> ack_to_server \<Rightarrow> u32 \<Rightarrow> ack_to_server option option" where
  "ack_expand alloc ts diff =
     (if diff \<ge> ucast (ts_capacity ts) then
        let n = unat (ts_count ts);
            d = (if diff = 0 then 1 else diff);
            cap = bit_pow2_greater_than_u32 d
        in if cap = 0 then None
           else if \<not> alloc (unat cap * sizeof_to_server_packet) then Some None
           else if \<not> n \<le> length (ts_packetQueue ts) \<or> \<not> n \<le> unat cap then None
           else Some (Some (ts\<lparr>ts_packetQueue := take n (ts_packetQueue ts) @ replicate (unat cap - n) empty_slot,
                               ts_capacity := ucast cap\<rparr>))
      else Some (Some ts))"

definition set_toServer :: "udp_client \<Rightarrow> ack_to_server \<Rightarrow> udp_client" where
  "set_toServer udpc ts = udpc\<lparr>uc_ackMgr := (uc_ackMgr udpc)\<lparr>am_toServer := ts\<rparr>\<rparr>"

text \<open>Driving the queue forward after a packet was stored.\<close>

definition ack_process_queue :: "(nat \<Rightarrow> bool) \<Rightarrow> udp_client \<Rightarrow> u16 \<Rightarrow> udp_client option" where
  "ack_process_queue alloc udpc nextAck =
     (let ts = am_toServer (uc_ackMgr udpc);
          n = unat (ts_count ts) + 1
      in Option.bind (ack_drive alloc n 0 \<lparr>rl_queue = ts_packetQueue ts, rl_udpc = udpc, rl_nextAck = nextAck,
             rl_lowest = ts_lowestAckInQueue ts, rl_diff = 0, rl_length = 0, rl_frags = 0\<rparr>)
           (\<lambda>l. let ts = ts\<lparr>ts_lowestAckInQueue := rl_lowest l, ts_packetQueue := rl_queue l\<rparr>;
                    diff = rl_diff l
                in map_option (\<lambda>ts. set_toServer (rl_udpc l)
                                      (ts\<lparr>ts_nextAckRequestExpected := rl_nextAck l + 1\<rparr>))
                     (if diff > 0 then
                        if \<not> n \<le> length (rl_queue l) then None
                        else Some (ts\<lparr>ts_count := of_nat (n - diff),
                               ts_packetQueue := drop diff (take n (rl_queue l)) @ replicate diff empty_slot
                                                 @ drop n (rl_queue l)\<rparr>)
                      else Some (ts\<lparr>ts_count := of_nat n\<rparr>))))"

definition ack_recv_packet ::
    "(nat \<Rightarrow> bool) \<Rightarrow> udp_client \<Rightarrow> aligned \<Rightarrow> u16 \<Rightarrow> u16 \<Rightarrow> u16 \<Rightarrow> udp_client option" where
  "ack_recv_packet alloc udpc a opcode ackRequest fragCount =
     (let ts = am_toServer (uc_ackMgr udpc);
          nextAck = ts_nextAckRequestExpected ts
      in if ackRequest = nextAck \<and> fragCount = 0 then
           let nextAck = nextAck + 1
           in udpc_recv_packet alloc
                (set_toServer udpc (ts\<lparr>ts_nextAckRequestExpected := nextAck, ts_lowestAckInQueue := nextAck\<rparr>)) a opcode
         else if ack_cmp ackRequest nextAck = ACK_Past then Some udpc
         else let diff = ucast ackRequest - ucast (ts_lowestAckInQueue ts) :: u32
              in Option.bind (ack_expand alloc ts diff)
                   (\<lambda>r. case r of
                      None \<Rightarrow> Some udpc
                    | Some ts \<Rightarrow>
                        if \<not> unat diff < length (ts_packetQueue ts) then None
                        else let ptr = ts_packetQueue ts ! unat diff
                             in if sp_ackRequest ptr \<noteq> 0 then Some (set_toServer udpc ts)
                                else let len = aligned_remaining_space a;
                                         granted = alloc (unat len);
                                         ptr = \<lparr>sp_ackRequest = ackRequest, sp_fragCount = fragCount, sp_opcode = opcode,
                                                sp_length = len,
                                                sp_data = (if len \<noteq> 0 \<and> granted then Some (aligned_rest a) else None)\<rparr>;
                                         udpc = set_toServer udpc
                                           (ts\<lparr>ts_packetQueue := (ts_packetQueue ts)[unat diff := ptr]\<rparr>)
                                     in if len \<noteq> 0 \<and> \<not> granted then Some udpc
                                        else ack_process_queue alloc udpc nextAck))"

end
