(* ===== verification/Zeq_UdpClient.thy ===== *)
theory Zeq_UdpClient
  imports Zeq_AckMgr "HOL-Library.Monad_Syntax"
begin

text \<open>
  \<open>src/udp_client.c\<close>, the protocol of one client connection, and the sending half of
  \<open>src/ack_mgr.c\<close>. Datagrams handed to \<open>sendto\<close> are appended to \<open>uc_sent\<close>; whether the system call
  succeeds is not looked at by any caller. Log messages are left out.
\<close>

section \<open>Effects\<close>

definition udpc_init :: "u16 \<Rightarrow> u32 \<Rightarrow> u16 \<Rightarrow> zpacket ringbuf \<Rightarrow> udp_client" where
  "udpc_init junk ip port toServerQueue =
     \<lparr>uc_ip = ip, uc_port = port, uc_accountId = 0, uc_udpIndex = -1, uc_clientObject = 0,
      uc_toServerQueue = toServerQueue, uc_ackMgr = ack_init junk, uc_sent = [], uc_ackFlags = []\<rparr>"

definition udpc_deinit :: "pheap \<Rightarrow> udp_client \<Rightarrow> pheap \<times> udp_client" where
  "udpc_deinit h udpc = (let (h, am) = ack_deinit h (uc_ackMgr udpc) in (h, udpc\<lparr>uc_ackMgr := am\<rparr>))"

definition udpc_set_index :: "udp_client \<Rightarrow> nat \<Rightarrow> udp_client" where
  "udpc_set_index udpc i = udpc\<lparr>uc_udpIndex := int i\<rparr>"

definition udpc_push :: "udp_client \<Rightarrow> int \<Rightarrow> zpacket \<Rightarrow> udp_client option" where
  "udpc_push udpc zop z =
     map_option (\<lambda>(rc, rb). udpc\<lparr>uc_toServerQueue := rb\<rparr>) (ringbuf_push (uc_toServerQueue udpc) zop (Some z))"

definition udpc_report_disconnect :: "udp_client \<Rightarrow> int \<Rightarrow> udp_client option" where
  "udpc_report_disconnect udpc zop = udpc_push udpc zop (ZClientDisconnect (uc_clientObject udpc))"

definition udpc_linkdead :: "udp_client \<Rightarrow> udp_client option" where
  "udpc_linkdead udpc = udpc_report_disconnect udpc ZOP_UDP_ClientLinkdead"

definition udpc_send_immediate :: "udp_client \<Rightarrow> u8 list \<Rightarrow> u32 \<Rightarrow> udp_client" where
  "udpc_send_immediate udpc data len = udpc\<lparr>uc_sent := uc_sent udpc @ [take (unat len) data]\<rparr>"

definition udpc_flag_last_ack :: "udp_client \<Rightarrow> udp_client" where
  "udpc_flag_last_ack udpc =
     (let index = uc_udpIndex udpc
      in if index \<ge> 0 then udpc\<lparr>uc_ackFlags := uc_ackFlags udpc @ [nat index]\<rparr> else udpc)"

definition udpc_schedule_packet ::
    "(nat \<Rightarrow> bool) \<Rightarrow> to_client_packet \<Rightarrow> pheap \<Rightarrow> udp_client \<Rightarrow> u64 \<Rightarrow> bool \<Rightarrow> (pheap \<times> udp_client) option" where
  "udpc_schedule_packet alloc junk h udpc packet hasAckRequest =
     map_option (\<lambda>(h, am). (h, udpc\<lparr>uc_ackMgr := am\<rparr>))
       (ack_schedule_packet alloc junk h (uc_ackMgr udpc) packet hasAckRequest)"

definition udpc_replace_client_object :: "udp_client \<Rightarrow> u64 \<Rightarrow> udp_client option" where
  "udpc_replace_client_object udpc clientObject =
     (let cur = uc_clientObject udpc;
          udpc = udpc\<lparr>uc_clientObject := clientObject\<rparr>
      in udpc_push udpc ZOP_UDP_ReplaceClientObject (ZReplaceClientObject (uc_ip udpc) (uc_port udpc) cur))"

definition udpc_next_seq :: "udp_client \<Rightarrow> u16 \<times> udp_client" where
  "udpc_next_seq udpc =
     (let (seq, am) = ack_get_next_seq_to_send_and_increment (uc_ackMgr udpc) in (seq, udpc\<lparr>uc_ackMgr := am\<rparr>))"

text \<open>The struct has no padding. Its checksum covers all 8 bytes, the last 4 of which are \<open>junk\<close> then.\<close>

definition udpc_send_disconnect :: "u8 list \<Rightarrow> udp_client \<Rightarrow> udp_client option" where
  "udpc_send_disconnect junk udpc =
     (let header = TLG_PACKET_IsClosing OR TLG_PACKET_IsClosing2;
          (seq, udpc) = udpc_next_seq udpc;
          dis = le16 header @ le16 seq;
          crc = crc_calc32_network (dis @ take 4 junk)
      in map_option (\<lambda>udpc. udpc_send_immediate udpc (dis @ le32 crc) 8)
           (udpc_report_disconnect udpc ZOP_UDP_ClientDisconnect))"

definition udpc_send_ack :: "udp_client \<Rightarrow> u16 \<Rightarrow> udp_client option" where
  "udpc_send_ack udpc ackNetworkByteOrder =
     do {
       let a = aligned_init (replicate 10 0) 10;
       a \<leftarrow> aligned_write_uint16 a TLG_PACKET_HasAckResponse;
       let (seq, udpc) = udpc_next_seq udpc;
       a \<leftarrow> aligned_write_uint16 a seq;
       a \<leftarrow> aligned_write_uint16 a ackNetworkByteOrder;
       a \<leftarrow> aligned_write_uint32 a (crc_calc32_network (take 6 (al_buffer a)));
       Some (udpc_send_immediate udpc (al_buffer a) 10)
     }"

definition udpc_send_pure_ack :: "udp_client \<Rightarrow> u16 \<Rightarrow> udp_client option" where
  "udpc_send_pure_ack udpc ackNetworkByteOrder = udpc_send_ack (udpc_flag_last_ack udpc) ackNetworkByteOrder"

definition udpc_send_keep_alive_ack :: "udp_client \<Rightarrow> udp_client option" where
  "udpc_send_keep_alive_ack udpc =
     (let (ack, am) = ack_get_keep_alive_ack (uc_ackMgr udpc) in udpc_send_ack (udpc\<lparr>uc_ackMgr := am\<rparr>) ack)"

section \<open>Sending queued packets\<close>

text \<open>The header of a fragment is written backwards into the gap before its payload.\<close>

definition ack_send_fragment ::
    "udp_client \<Rightarrow> to_client_packet \<Rightarrow> aligned \<Rightarrow> u32 \<Rightarrow> u16 \<Rightarrow> bool \<Rightarrow> u16 \<Rightarrow> u16 \<Rightarrow> (udp_client \<times> aligned) option" where
  "ack_send_fragment udpc wrapper a dataLength opcode hasAckResponse ackResponse fragIndex =
     do {
       let orig = al_cursor a;
       let header = cp_header wrapper;
       let ackRequest = header AND TLG_PACKET_HasAckRequest \<noteq> 0;
       a \<leftarrow> (if fragIndex = 0 \<and> opcode \<noteq> 0 then aligned_write_reverse_uint16 a opcode else Some a);
       a \<leftarrow> (if ackRequest then aligned_write_reverse_uint8 a (cp_ackCounterRequest wrapper + ucast fragIndex) else Some a);
       a \<leftarrow> (if ackRequest then aligned_write_reverse_uint8 a (cp_ackCounterAlwaysOne wrapper) else Some a);
       let fragment = header AND TLG_PACKET_IsFragment \<noteq> 0;
       a \<leftarrow> (if fragment then aligned_write_reverse_uint16 a (to_network_uint16 (cp_fragCount wrapper)) else Some a);
       a \<leftarrow> (if fragment then aligned_write_reverse_uint16 a (to_network_uint16 fragIndex) else Some a);
       a \<leftarrow> (if fragment then aligned_write_reverse_uint16 a (to_network_uint16 (cp_fragGroup wrapper)) else Some a);
       a \<leftarrow> (if ackRequest then aligned_write_reverse_uint16 a (to_network_uint16 (cp_ackRequest wrapper + fragIndex)) else Some a);
       let header = (if hasAckResponse then header OR TLG_PACKET_HasAckResponse else header);
       a \<leftarrow> (if hasAckResponse then aligned_write_reverse_uint16 a ackResponse else Some a);
       let (seq, udpc) = udpc_next_seq udpc;
       a \<leftarrow> aligned_write_reverse_uint16 a seq;
       a \<leftarrow> aligned_write_reverse_uint16 a header;
       let pos = al_cursor a;
       let dataLength = dataLength + (orig - pos);
       (_, a) \<leftarrow> aligned_advance_by a dataLength;
       a \<leftarrow> aligned_write_uint32 a (crc_calc32_network (take (unat dataLength) (drop (unat pos) (al_buffer a))));
       Some (udpc_send_immediate udpc (drop (unat pos) (al_buffer a)) (dataLength + 4), a)
     }"

text \<open>Finding where to resume a packet that was acknowledged in part.\<close>

function ack_skip_acked :: "u16 \<Rightarrow> u16 \<Rightarrow> nat \<Rightarrow> nat \<Rightarrow> aligned \<Rightarrow> (nat \<times> aligned) option" where
  "ack_skip_acked ackReceived ack fragIndex fragCount a =
     (if ack_cmp ackReceived ack \<noteq> ACK_Past \<and> fragIndex < fragCount then
        do {
          (_, a) \<leftarrow> aligned_advance_by a (of_nat (TLG_PACKET_DATA_OFFSET + TLG_PACKET_DATA_SPACE - 2 + 4));
          (_, a) \<leftarrow> (if fragIndex > 0 then aligned_advance_by a 2 else Some (0, a));
          ack_skip_acked ackReceived (ack + 1) (fragIndex + 1) fragCount a
        }
      else Some (fragIndex, a))"
  by pat_completeness auto
termination
  by (relation "measure (\<lambda>(r, ack, i, n, a). n - i)") auto

declare ack_skip_acked.simps [simp del]

text \<open>
  The locals of \<open>ack_send_queued_packets\<close>: the state, how the pending ack response stands (0 none,
  1 to be sent, 2 sent) and how often this function has read the clock. \<open>clock k\<close> is its \<open>k\<close>-th reading.
\<close>

record send_loop =
  sl_udpc :: udp_client
  sl_hasAckResponse :: nat
  sl_clock :: nat

text \<open>Sending the fragments \<open>fragIndex\<close> ... of a packet.\<close>

function ack_send_fragments ::
    "(nat \<Rightarrow> u64) \<Rightarrow> u16 \<Rightarrow> u16 \<Rightarrow> nat \<Rightarrow> to_client_packet \<Rightarrow> u32 \<Rightarrow> nat \<Rightarrow> aligned \<Rightarrow> send_loop
      \<Rightarrow> (to_client_packet \<times> aligned \<times> send_loop) option" where
  "ack_send_fragments clock ackResponse opcode fragIndex wrapper dataLength fragCount a l =
     (if fragIndex < fragCount then
        do {
          let space = (if fragIndex = 0 then of_nat TLG_PACKET_DATA_SPACE - 2 else of_nat TLG_PACKET_DATA_SPACE);
          let hasAck = sl_hasAckResponse l = 1;
          (_, a) \<leftarrow> aligned_advance_by a (of_nat TLG_PACKET_DATA_OFFSET);
          (udpc, a) \<leftarrow> ack_send_fragment (sl_udpc l) wrapper a (if dataLength > space then space else dataLength)
                        opcode hasAck ackResponse (of_nat fragIndex);
          let wrapper = wrapper\<lparr>cp_ackTimestamp := clock (sl_clock l)\<rparr>;
          let l = l\<lparr>sl_udpc := (if hasAck then udpc_flag_last_ack udpc else udpc),
                    sl_hasAckResponse := (if hasAck then 2 else sl_hasAckResponse l), sl_clock := sl_clock l + 1\<rparr>;
          ack_send_fragments clock ackResponse opcode (fragIndex + 1) wrapper (dataLength - space) fragCount a l
        }
      else Some (wrapper, a, l))"
  by pat_completeness auto
termination
  by (relation "measure (\<lambda>(c, r, op, i, w, d, n, a, l). n - i)") auto

declare ack_send_fragments.simps [simp del]

text \<open>One packet of the queue, at index \<open>i\<close>; the buffer of the packet keeps what was written into it.\<close>

definition ack_send_packet ::
    "(nat \<Rightarrow> u64) \<Rightarrow> u64 \<Rightarrow> u16 \<Rightarrow> u16 \<Rightarrow> nat \<Rightarrow> nat \<Rightarrow> pheap \<Rightarrow> send_loop \<Rightarrow> (pheap \<times> send_loop) option" where
  "ack_send_packet clock time ackReceived ackResponse sendFromIndex i h l =
     do {
       let wrapper = tc_packetQueue (am_toClient (uc_ackMgr (sl_udpc l))) ! i;
       packet \<leftarrow> h (cp_packet wrapper);
       let dataLength = packet_length packet;
       let opcode = packet_opcode packet;
       let fragCount = unat (cp_fragCount wrapper);
       let a = aligned_init (pk_data packet) (of_nat (packet_buffer_raw_length packet));
       if i < sendFromIndex \<and> time - cp_ackTimestamp wrapper < ACK_RESEND_PACKET_MILLISECONDS_WITHOUT_ACK
       then Some (h, l)
       else do {
         (fragIndex, a) \<leftarrow> (if i < sendFromIndex \<and> fragCount > 1
                            then ack_skip_acked ackReceived (cp_ackRequest wrapper) 0 fragCount a else Some (0, a));
         (wrapper, a, l) \<leftarrow> ack_send_fragments clock ackResponse opcode fragIndex wrapper dataLength fragCount a l;
         let udpc = sl_udpc l;
         let tc = am_toClient (uc_ackMgr udpc);
         let udpc = udpc\<lparr>uc_ackMgr := (uc_ackMgr udpc)\<lparr>am_toClient :=
               tc\<lparr>tc_packetQueue := (tc_packetQueue tc)[i := wrapper]\<rparr>\<rparr>\<rparr>;
         Some (h(cp_packet wrapper \<mapsto> packet\<lparr>pk_data := al_buffer a\<rparr>), l\<lparr>sl_udpc := udpc\<rparr>)
       }
     }"

fun ack_send_packets ::
    "(nat \<Rightarrow> u64) \<Rightarrow> u64 \<Rightarrow> u16 \<Rightarrow> u16 \<Rightarrow> nat \<Rightarrow> nat list \<Rightarrow> pheap \<Rightarrow> send_loop \<Rightarrow> (pheap \<times> send_loop) option" where
  "ack_send_packets clock time ackReceived ackResponse sendFromIndex [] h l = Some (h, l)"
| "ack_send_packets clock time ackReceived ackResponse sendFromIndex (i # is) h l =
     do {
       (h, l) \<leftarrow> ack_send_packet clock time ackReceived ackResponse sendFromIndex i h l;
       ack_send_packets clock time ackReceived ackResponse sendFromIndex is h l
     }"

definition ack_send_queued_packets :: "(nat \<Rightarrow> u64) \<Rightarrow> pheap \<Rightarrow> udp_client \<Rightarrow> (pheap \<times> udp_client) option" where
  "ack_send_queued_packets clock h udpc =
     do {
       let am = uc_ackMgr udpc;
       let n = length (tc_packetQueue (am_toClient am));
       let nextAck = ts_nextAckRequestExpected (am_toServer am) - 1;
       let ackReceived = ts_lastAckReceived (am_toServer am);
       let sendFromIndex = tc_sendFromIndex (am_toClient am);
       let time = clock 0;
       let hasAckResponse = (if ts_lastAckSent (am_toServer am) \<noteq> nextAck then 1 else 0);
       let ackResponse = (if hasAckResponse = 1 then to_network_uint16 nextAck else 0);
       (h, l) \<leftarrow> ack_send_packets clock time ackReceived ackResponse sendFromIndex [0..<n] h
                  \<lparr>sl_udpc = udpc, sl_hasAckResponse = hasAckResponse, sl_clock = 1\<rparr>;
       udpc \<leftarrow> (if sl_hasAckResponse l = 1 then udpc_send_pure_ack (sl_udpc l) ackResponse else Some (sl_udpc l));
       let am = uc_ackMgr udpc;
       let ts = (if sl_hasAckResponse l \<noteq> 0 then (am_toServer am)\<lparr>ts_lastAckSent := nextAck\<rparr> else am_toServer am);
       Some (h, udpc\<lparr>uc_ackMgr := am\<lparr>am_toServer := ts, am_toClient := (am_toClient am)\<lparr>tc_sendFromIndex := n\<rparr>\<rparr>\<rparr>)
     }"

definition udpc_send_queued_packets :: "(nat \<Rightarrow> u64) \<Rightarrow> pheap \<Rightarrow> udp_client \<Rightarrow> (pheap \<times> udp_client) option" where
  "udpc_send_queued_packets clock h udpc = ack_send_queued_packets clock h udpc"

section \<open>Receiving a datagram\<close>

text \<open>A step of the parser fails an assertion, finds too few bytes, or goes on.\<close>

datatype 'a parsed = Crashed | Rejected | Parsed 'a

primrec pbind :: "'a parsed \<Rightarrow> ('a \<Rightarrow> 'b parsed) \<Rightarrow> 'b parsed" where
  "pbind Crashed f = Crashed"
| "pbind Rejected f = Rejected"
| "pbind (Parsed x) f = f x"

definition asserted :: "'a option \<Rightarrow> 'a parsed" where
  "asserted r = (case r of None \<Rightarrow> Crashed | Some x \<Rightarrow> Parsed x)"

definition has_bit :: "u16 \<Rightarrow> u16 \<Rightarrow> bool" where
  "has_bit header b \<longleftrightarrow> header AND b \<noteq> 0"

text \<open>A field that is skipped when its bit is set.\<close>

definition skip_field :: "bool \<Rightarrow> u32 \<Rightarrow> aligned \<Rightarrow> aligned parsed" where
  "skip_field present n a =
     (if present then
        if aligned_remaining_space a < n then Rejected
        else asserted (map_option snd (aligned_advance_by a n))
      else Parsed a)"

definition recv_skip_rare :: "u16 \<Rightarrow> aligned \<Rightarrow> aligned parsed" where
  "recv_skip_rare header a =
     pbind (skip_field (has_bit header TLG_PACKET_UnknownBit11) 2 a) (\<lambda>a.
     pbind (skip_field (has_bit header TLG_PACKET_UnknownBit12) 1 a) (\<lambda>a.
     pbind (skip_field (has_bit header TLG_PACKET_UnknownBit13) 2 a) (\<lambda>a.
     pbind (skip_field (has_bit header TLG_PACKET_UnknownBit14) 4 a) (\<lambda>a.
     skip_field (has_bit header TLG_PACKET_UnknownBit15) 8 a))))"

definition recv_ack_request :: "u16 \<Rightarrow> aligned \<Rightarrow> (u16 \<times> aligned) parsed" where
  "recv_ack_request header a =
     (if has_bit header TLG_PACKET_HasAckRequest then
        if aligned_remaining_space a < 2 then Rejected
        else asserted (map_option (apfst to_network_uint16) (aligned_read_uint16 a))
      else Parsed (0, a))"

text \<open>The index and the number of fragments.\<close>

definition recv_fragment_info :: "u16 \<Rightarrow> aligned \<Rightarrow> (u16 \<times> u16 \<times> aligned) parsed" where
  "recv_fragment_info header a =
     (if has_bit header TLG_PACKET_IsFragment then
        if aligned_remaining_space a < 2 * 3 then Rejected
        else asserted (do {
          (_, a) \<leftarrow> aligned_advance_by a 2;
          (fragIndex, a) \<leftarrow> aligned_read_uint16 a;
          (fragCount, a) \<leftarrow> aligned_read_uint16 a;
          Some (to_network_uint16 fragIndex, to_network_uint16 fragCount, a)
        })
      else Parsed (0, 0, a))"

definition recv_skip_counters :: "u16 \<Rightarrow> aligned \<Rightarrow> aligned parsed" where
  "recv_skip_counters header a =
     skip_field (has_bit header TLG_PACKET_HasAckCounter)
       (if has_bit header TLG_PACKET_HasAckRequest then 2 else 1) a"

definition recv_opcode :: "u16 \<Rightarrow> aligned \<Rightarrow> (u16 \<times> aligned) parsed" where
  "recv_opcode fragIndex a =
     (if fragIndex = 0 \<and> aligned_remaining_space a \<ge> 2 then asserted (aligned_read_uint16 a) else Parsed (0, a))"

text \<open>After the ack request: everything up to the payload.\<close>

definition recv_to_payload :: "u16 \<Rightarrow> aligned \<Rightarrow> (u16 \<times> u16 \<times> aligned) parsed" where
  "recv_to_payload header a =
     pbind (recv_fragment_info header a) (\<lambda>(fragIndex, fragCount, a).
     pbind (recv_skip_counters header a) (\<lambda>a.
     pbind (recv_opcode fragIndex a) (\<lambda>(opcode, a). Parsed (opcode, fragCount, a))))"

definition udpc_deliver ::
    "(nat \<Rightarrow> bool) \<Rightarrow> udp_client \<Rightarrow> aligned \<Rightarrow> u16 \<Rightarrow> u16 \<Rightarrow> u16 \<Rightarrow> bool \<Rightarrow> udp_client option" where
  "udpc_deliver alloc udpc a opcode ackRequest fragCount suppressRecv =
     (if suppressRecv then Some udpc
      else if ackRequest \<noteq> 0 then ack_recv_packet alloc udpc a opcode ackRequest fragCount
      else if opcode \<noteq> 0 then udpc_recv_packet alloc udpc a opcode
      else Some udpc)"

text \<open>What follows the ack response.\<close>

definition udpc_recv_rest ::
    "(nat \<Rightarrow> bool) \<Rightarrow> udp_client \<Rightarrow> u16 \<Rightarrow> aligned \<Rightarrow> bool \<Rightarrow> (bool \<times> udp_client) option" where
  "udpc_recv_rest alloc udpc header a suppressRecv =
     (case pbind (recv_skip_rare header a) (recv_ack_request header) of
        Crashed \<Rightarrow> None
      | Rejected \<Rightarrow> Some (False, udpc)
      | Parsed (ackRequest, a) \<Rightarrow>
          let udpc = (if has_bit header TLG_PACKET_HasAckRequest \<and> has_bit header TLG_PACKET_IsFirstPacket
                      then udpc\<lparr>uc_ackMgr := ack_recv_sync (uc_ackMgr udpc) ackRequest\<rparr> else udpc)
          in if has_bit header (TLG_PACKET_IsClosing OR TLG_PACKET_IsClosing2)
             then map_option (Pair False) (udpc_send_pure_ack udpc (to_network_uint16 ackRequest))
             else case recv_to_payload header a of
                    Crashed \<Rightarrow> None
                  | Rejected \<Rightarrow> Some (False, udpc)
                  | Parsed (opcode, fragCount, a) \<Rightarrow>
                      map_option (Pair True) (udpc_deliver alloc udpc a opcode ackRequest fragCount suppressRecv))"

text \<open>A datagram whose checksum is right, without the checksum.\<close>

definition udpc_recv_checked ::
    "(nat \<Rightarrow> bool) \<Rightarrow> pheap \<Rightarrow> udp_client \<Rightarrow> aligned \<Rightarrow> bool \<Rightarrow> (bool \<times> pheap \<times> udp_client) option" where
  "udpc_recv_checked alloc h udpc a suppressRecv =
     do {
       (header, a) \<leftarrow> aligned_read_uint16 a;
       (_, a) \<leftarrow> aligned_advance_by a 2;
       if has_bit header TLG_PACKET_HasAckResponse then do {
         (ackResponse, a) \<leftarrow> aligned_read_uint16 a;
         let (h, am) = ack_recv_ack_response h (uc_ackMgr udpc) ackResponse;
         let udpc = udpc\<lparr>uc_ackMgr := am\<rparr>;
         if aligned_remaining_space a = 0 then Some (True, h, udpc)
         else map_option (\<lambda>(r, u). (r, h, u)) (udpc_recv_rest alloc udpc header a suppressRecv)
       }
       else map_option (\<lambda>(r, u). (r, h, u)) (udpc_recv_rest alloc udpc header a suppressRecv)
     }"

definition udpc_recv_protocol ::
    "(nat \<Rightarrow> bool) \<Rightarrow> pheap \<Rightarrow> udp_client \<Rightarrow> u8 list \<Rightarrow> u32 \<Rightarrow> bool \<Rightarrow> (bool \<times> pheap \<times> udp_client) option" where
  "udpc_recv_protocol alloc h udpc data len0 suppressRecv =
     do {
       let a = aligned_init data len0;
       let len = len0 - of_nat TLG_PACKET_CRC_SIZE;
       (_, a) \<leftarrow> aligned_advance_by a len;
       (crc, a) \<leftarrow> aligned_read_uint32 a;
       if crc_calc32_network (take (unat len) data) \<noteq> crc then Some (False, h, udpc)
       else udpc_recv_checked alloc h udpc (aligned_set_length (aligned_reset_cursor a) len) suppressRecv
     }"

end
