(* ===== verification/Zeq_AckRecv.thy ===== *)
theory Zeq_AckRecv
  imports Zeq_AckMgr
begin

text \<open>
  What the receiving side of \<open>src/ack_mgr.c\<close> promises: the window comparison of ack numbers, and the
  reassembly of fragmented messages from a stream in which old packets are repeated.
\<close>

section \<open>The window of ack numbers\<close>

lemma mod_once: "0 \<le> x + (65536 :: int) \<Longrightarrow> x < 0 \<Longrightarrow> x mod 65536 = x + 65536"
  "65536 \<le> x \<Longrightarrow> x < 2 * 65536 \<Longrightarrow> x mod 65536 = x - (65536 :: int)"
  using mod_pos_pos_trivial [of "x + 65536" 65536] mod_pos_pos_trivial [of "x - 65536" 65536]
  by (simp_all add: mod_diff_right_eq)

lemma ack_number_shift:
  assumes "d \<le> 1024"
  shows "uint (e - of_nat d :: u16) = (if int d \<le> uint e then uint e - int d else uint e - int d + 65536)"
    "uint (e + of_nat d :: u16) = (if uint e + int d < 65536 then uint e + int d else uint e + int d - 65536)"
proof -
  have d: "uint (of_nat d :: u16) = int d" using assms by (simp add: unsigned_of_nat take_bit_nat_eq_self)
  have e: "0 \<le> uint e" "uint e < 65536" "int d \<le> 1024" using uint_bounded [of e] assms by auto
  show "uint (e - of_nat d :: u16) = (if int d \<le> uint e then uint e - int d else uint e - int d + 65536)"
  proof (cases "int d \<le> uint e")
    case False
    have "0 \<le> uint e - int d + 65536" "uint e - int d < 0" using e False by linarith+
    from mod_once(1) [OF this] show ?thesis using d False by (simp add: uint_word_ariths(2))
  qed (use e d mod_pos_pos_trivial [of "uint e - int d" 65536] in \<open>simp add: uint_word_ariths(2)\<close>)
  show "uint (e + of_nat d :: u16) = (if uint e + int d < 65536 then uint e + int d else uint e + int d - 65536)"
    using e d assms mod_once(2) [of "uint e + int d"] mod_pos_pos_trivial [of "uint e + int d" 65536]
    by (auto simp: uint_word_ariths(1))
qed

lemma ack_cmp_future: "0 < d \<Longrightarrow> d < 1024 \<Longrightarrow> ack_cmp (e + of_nat d) e = ACK_Future"
proof -
  assume d: "0 < d" "d < 1024"
  have e: "0 \<le> uint e" "uint e < 65536" using uint_bounded [of e] by auto
  have "e + of_nat d \<noteq> e" using d ack_number_shift(2) [of d e] by (auto split: if_splits)
  then show ?thesis using d ack_number_shift(2) [of d e] e
    by (simp add: ack_cmp_def ACK_CMP_WINDOW_HALF_SIZE_def word_less_def split: if_splits)
qed

lemma ack_cmp_past: "0 < d \<Longrightarrow> d \<le> 1024 \<Longrightarrow> ack_cmp (e - of_nat d) e = ACK_Past"
proof -
  assume d: "0 < d" "d \<le> 1024"
  have e: "0 \<le> uint e" "uint e < 65536" using uint_bounded [of e] by auto
  have "e - of_nat d \<noteq> e" using d e ack_number_shift(1) [of d e] by (auto split: if_splits)
  then show ?thesis using d ack_number_shift(1) [of d e] e
    by (simp add: ack_cmp_def ACK_CMP_WINDOW_HALF_SIZE_def word_less_def split: if_splits)
qed

text \<open>C22. \<open>ack_cmp\<close> orders the numbers around the expected one, also where they wrap around: the next
  1023 of them are in the future, the last 1024 are in the past.\<close>

theorem ack_cmp_window:
  "ack_cmp e e = ACK_Present
   \<and> (\<forall>d \<in> {0<..<1024}. ack_cmp (e + of_nat d) e = ACK_Future)
   \<and> (\<forall>d \<in> {0<..1024}. ack_cmp (e - of_nat d) e = ACK_Past)"
  by (auto simp: ack_cmp_future ack_cmp_past) (simp add: ack_cmp_def)

theorem ack_cmp_window_witness: "ack_cmp 65535 65530 = ACK_Future \<and> ack_cmp 65530 65535 = ACK_Past"
  using ack_cmp_window [of 65530, THEN conjunct2, THEN conjunct1, THEN bspec, of 5]
    ack_cmp_window [of 65535, THEN conjunct2, THEN conjunct2, THEN bspec, of 5] by simp

text \<open>The same on natural numbers that do not wrap around.\<close>

lemma ack_cmp_near:
  assumes "a < 65536" "b < 65536" "a < b + 1024" "b \<le> a + 1024"
  shows "ack_cmp (of_nat a) (of_nat b) = (if a = b then ACK_Present else if b < a then ACK_Future else ACK_Past)"
proof -
  have u: "uint (of_nat a :: u16) = int a" "uint (of_nat b :: u16) = int b"
    using assms by (simp_all add: unsigned_of_nat take_bit_nat_eq_self)
  then have "(of_nat a :: u16) = of_nat b \<longleftrightarrow> a = b" by (metis of_nat_eq_iff)
  then show ?thesis using u assms by (auto simp: ack_cmp_def ACK_CMP_WINDOW_HALF_SIZE_def word_less_def)
qed

section \<open>Joining fragments\<close>

definition frag_bytes :: "to_server_packet \<Rightarrow> u8 list" where
  "frag_bytes p = (case sp_data p of None \<Rightarrow> [] | Some d \<Rightarrow> d)"

definition frag_ok :: "to_server_packet \<Rightarrow> bool" where
  "frag_ok p \<longleftrightarrow> sp_length p = of_nat (length (frag_bytes p)) \<and> (sp_data p = None \<longrightarrow> sp_length p = 0)"

lemma ack_write_fragments_eq:
  "list_all frag_ok ps \<Longrightarrow> al_ok a \<Longrightarrow> al_room a (length (concat (map frag_bytes ps))) \<Longrightarrow>
   ack_write_fragments ps a = Some (al_written a (concat (map frag_bytes ps)))"
proof (induction ps arbitrary: a)
  case (Cons p ps)
  let ?d = "frag_bytes p"
  show ?case
  proof (cases "sp_data p")
    case None
    then show ?thesis using Cons by (simp add: frag_ok_def frag_bytes_def)
  next
    case (Some d)
    have r: "al_room a (length ?d)" using Cons.prems(3) by (simp add: al_room_def)
    have w: "aligned_write_buffer a d (sp_length p) = Some (al_written a ?d)"
      using write_field_eq [of a "FBuf ?d"] r Cons.prems(1) Some by (simp add: frag_ok_def frag_bytes_def)
    note s = al_written_simps [OF Cons.prems(2) r]
    have "al_room (al_written a ?d) (length (concat (map frag_bytes ps)))"
      using Cons.prems(3) s by (simp add: al_room_def)
    then have "ack_write_fragments ps (al_written a ?d) = Some (al_written (al_written a ?d) (concat (map frag_bytes ps)))"
      using Cons.prems(1) s(1) by (intro Cons.IH) simp_all
    moreover have "al_written (al_written a ?d) (concat (map frag_bytes ps)) = al_written a (concat (map frag_bytes (p # ps)))"
      using al_written_append [OF Cons.prems(2), of ?d "concat (map frag_bytes ps)"] Cons.prems(3) by simp
    ultimately show ?thesis using w Some by simp
  qed
qed simp

lemma ack_write_all:
  assumes "list_all frag_ok ps" "length (concat (map frag_bytes ps)) < 2 ^ 32"
  defines "len \<equiv> of_nat (length (concat (map frag_bytes ps))) :: u32"
  obtains a where "ack_write_fragments ps (aligned_init (replicate (unat len) 0) len) = Some a"
    "al_buffer (aligned_reset_cursor a) = concat (map frag_bytes ps)"
proof -
  let ?bs = "concat (map frag_bytes ps)" let ?a = "aligned_init (replicate (unat len) 0) len"
  have u: "unat len = length ?bs" unfolding len_def using assms(2) by (intro unat_of_nat_small) simp
  have ok: "al_ok ?a" "al_room ?a (length ?bs)"
    using u by (simp_all add: al_ok_def al_room_def aligned_init_def)
  have "al_buffer (al_written ?a ?bs) = ?bs" using u by (simp add: al_written_def al_put_def aligned_init_def)
  then show ?thesis using that ack_write_fragments_eq [OF assms(1) ok] by (simp add: aligned_reset_cursor_def)
qed

text \<open>A message is handed over when the queue has room for it.\<close>

definition delivered :: "udp_client \<Rightarrow> u16 \<Rightarrow> u32 \<Rightarrow> u8 list option \<Rightarrow> int \<times> zpacket" where
  "delivered udpc opcode len data = (ZOP_UDP_ToServerPacket, ZToServerPacket opcode len (uc_clientObject udpc) data)"

definition rb_room :: "udp_client \<Rightarrow> nat \<Rightarrow> bool" where
  "rb_room udpc k \<longleftrightarrow> rb_inv (uc_toServerQueue udpc)
     \<and> rb_count (uc_toServerQueue udpc) + k \<le> rb_capacity (uc_toServerQueue udpc)"

lemma recv_no_copy_ok:
  assumes "rb_room udpc (Suc k)" "opcode \<noteq> 0"
  obtains rb where "udpc_recv_packet_no_copy udpc data len opcode = Some (udpc\<lparr>uc_toServerQueue := rb\<rparr>)"
    "rb_room (udpc\<lparr>uc_toServerQueue := rb\<rparr>) k"
    "rb_contents rb = rb_contents (uc_toServerQueue udpc) @ [delivered udpc opcode len data]"
proof -
  have inv: "rb_inv (uc_toServerQueue udpc)" using assms(1) by (simp add: rb_room_def)
  show ?thesis
  proof (rule ringbuf_push_ok [OF inv, of ZOP_UDP_ToServerPacket "ZToServerPacket opcode len (uc_clientObject udpc) data"])
    assume "rb_count (uc_toServerQueue udpc) = rb_capacity (uc_toServerQueue udpc)"
    then show ?thesis using assms(1) by (simp add: rb_room_def)
  next
    fix rb assume r: "ringbuf_push (uc_toServerQueue udpc) ZOP_UDP_ToServerPacket
        (Some (ZToServerPacket opcode len (uc_clientObject udpc) data)) = Some (ERR_None, rb)"
      "rb_inv rb" "rb_capacity rb = rb_capacity (uc_toServerQueue udpc)"
      "rb_contents rb = rb_contents (uc_toServerQueue udpc)
         @ [(ZOP_UDP_ToServerPacket, ZToServerPacket opcode len (uc_clientObject udpc) data)]"
    have "rb_count rb = Suc (rb_count (uc_toServerQueue udpc))" using r(4) rb_contents_length by (metis length_append_singleton)
    then show ?thesis using that [of rb] r assms
      by (simp add: udpc_recv_packet_no_copy_def delivered_def rb_room_def)
  qed
qed

section \<open>Driving the queue\<close>

text \<open>The fragments \<open>e\<close>, \<open>e + 1\<close>, ... of a message of \<open>k\<close> fragments, as they are stored.\<close>

definition fragments_of :: "nat \<Rightarrow> nat \<Rightarrow> to_server_packet list \<Rightarrow> bool" where
  "fragments_of e k ps \<longleftrightarrow> list_all frag_ok ps
     \<and> (\<forall>j < length ps. sp_ackRequest (ps ! j) = of_nat (e + j) \<and> sp_fragCount (ps ! j) = of_nat k)"

lemma ack_number_nonzero: "0 < n \<Longrightarrow> n < 65536 \<Longrightarrow> (of_nat n :: u16) \<noteq> 0"
  by (simp add: word_of_nat_eq_0_iff nat_dvd_not_less)

lemma unat_u16: "n < 65536 \<Longrightarrow> unat (of_nat n :: u16) = n"
  by (intro unat_of_nat_small) simp

lemma drive_partial:
  assumes "fragments_of e k ps" "ps \<noteq> []" "rl_queue l = ps @ rest" "length ps < k" "k < 65536" "0 < e" "e < 65536"
  shows "ack_drive alloc (length ps) 0 l = Some l"
proof -
  have "rl_queue l ! 0 = ps ! 0" using assms(2,3) by (simp add: nth_append)
  then have "sp_ackRequest (rl_queue l ! 0) \<noteq> 0" "sp_fragCount (rl_queue l ! 0) = of_nat k"
    using assms ack_number_nonzero [of e] by (auto simp: fragments_of_def)
  moreover have "(of_nat k :: u16) \<noteq> 0" using assms(4,5) by (intro ack_number_nonzero) simp_all
  ultimately show ?thesis
    using assms unat_u16 [of k] by (subst ack_drive.simps) (simp add: Let_def)
qed

text \<open>The complete message: the loop collects the lengths and joins the fragments at the last one.\<close>

lemma drive_complete:
  fixes l :: recv_loop
  assumes f: "fragments_of e k ps" "length ps = k" "1 < k" "k < 65536" "0 < e" "e + k < 65536"
    and len: "length (concat (map frag_bytes ps)) < 2 ^ 32" and room: "rb_room (rl_udpc l) (Suc m)"
    and op: "sp_opcode (ps ! 0) \<noteq> 0"
    and udpc: "udpc_recv_packet_no_copy (rl_udpc l) (Some (concat (map frag_bytes ps)))
      (of_nat (length (concat (map frag_bytes ps)))) (sp_opcode (ps ! 0)) = Some udpc'"
  shows "i + Suc d = k \<Longrightarrow> rl_queue l = ps @ rest \<Longrightarrow> rl_frags l = i \<Longrightarrow> rl_diff l = 0 \<Longrightarrow>
    rl_length l = of_nat (length (concat (map frag_bytes (take i ps)))) \<Longrightarrow>
    ack_drive (\<lambda>_. True) k i l = Some (l\<lparr>rl_queue := map (\<lambda>p. p\<lparr>sp_data := None\<rparr>) ps @ rest, rl_udpc := udpc',
      rl_nextAck := of_nat (e + k - 1), rl_lowest := of_nat (e + k), rl_diff := k, rl_length := 0, rl_frags := 0\<rparr>)"
  using room op udpc
proof (induction d arbitrary: i l)
  case 0
  then have i: "i = k - 1" "i < length ps" "Suc i = k" using f(2,3) by simp_all
  have q: "rl_queue l ! i = ps ! i" using 0 i by (simp add: nth_append)
  have p: "sp_ackRequest (ps ! i) = of_nat (e + i)" "sp_fragCount (ps ! i) = of_nat k" "frag_ok (ps ! i)"
    using f(1) i by (auto simp: fragments_of_def list_all_length)
  have nz: "(of_nat (e + i) :: u16) \<noteq> 0" "(of_nat k :: u16) \<noteq> 0" "unat (of_nat k :: u16) = k"
    by (rule ack_number_nonzero unat_u16; use f i in linarith)+
  let ?bs = "concat (map frag_bytes ps)"
  have tk: "take (Suc i) ps = take i ps @ [ps ! i]" by (rule take_Suc_conv_app_nth [OF i(2)])
  have tk': "ps = take i ps @ [ps ! i]" using tk i(3) f(2) by (metis take_all order_refl)
  have bs: "?bs = concat (map frag_bytes (take i ps)) @ frag_bytes (ps ! i)"
    using arg_cong [OF tk', of "\<lambda>x. concat (map frag_bytes x)"]
    by (simp only: map_append concat_append list.map concat.simps append_Nil2)
  have ln: "rl_length l + sp_length (ps ! i) = of_nat (length ?bs)"
    using 0 p(3) by (simp add: bs frag_ok_def)
  obtain a where a: "ack_write_fragments ps (aligned_init (replicate (unat (of_nat (length ?bs) :: u32)) 0) (of_nat (length ?bs))) = Some a"
    "al_buffer (aligned_reset_cursor a) = ?bs"
    using ack_write_all [OF _ len] f(1) by (auto simp: fragments_of_def)
  have cf: "ack_complete_fragments (\<lambda>_. True) (rl_udpc l) (rl_queue l) (of_nat (length ?bs)) 0 i =
      Some (udpc', map (\<lambda>p. p\<lparr>sp_data := None\<rparr>) ps @ rest)"
    using 0 a i f(2,3) by (simp add: ack_complete_fragments_def nth_append)
  have st: "ack_drive (\<lambda>_. True) k (Suc i) l' = Some l'" for l' using i by (subst ack_drive.simps) simp
  have last: "(of_nat (e + i) :: u16) = of_nat (e + k - 1)" "(of_nat (e + i) :: u16) + 1 = of_nat (e + k)"
    using i(3) by (auto simp flip: i(3))
  show ?case
    using 0 i q p nz ln cf st last f(2,3)
    by (subst ack_drive.simps) (simp add: Let_def)
next
  case (Suc d)
  then have i: "i < length ps" "i < k" "Suc i \<noteq> k" "Suc i + Suc d = k" using f(2) by simp_all
  have q: "rl_queue l ! i = ps ! i" using Suc.prems i by (simp add: nth_append)
  have p: "sp_ackRequest (ps ! i) = of_nat (e + i)" "sp_fragCount (ps ! i) = of_nat k" "frag_ok (ps ! i)"
    using f(1) i by (auto simp: fragments_of_def list_all_length)
  have nz: "(of_nat (e + i) :: u16) \<noteq> 0" "(of_nat k :: u16) \<noteq> 0" "unat (of_nat k :: u16) = k"
    by (rule ack_number_nonzero unat_u16; use f i in linarith)+
  have tk: "take (Suc i) ps = take i ps @ [ps ! i]" using i by (simp add: take_Suc_conv_app_nth)
  let ?l = "l\<lparr>rl_nextAck := of_nat (e + i), rl_length := rl_length l + sp_length (ps ! i), rl_frags := Suc i\<rparr>"
  have "ack_drive (\<lambda>_. True) k i l = ack_drive (\<lambda>_. True) k (Suc i) ?l"
    using Suc.prems i q p nz f(2) by (subst ack_drive.simps) (simp add: Let_def)
  also have "\<dots> = Some (?l\<lparr>rl_queue := map (\<lambda>p. p\<lparr>sp_data := None\<rparr>) ps @ rest, rl_udpc := udpc',
      rl_nextAck := of_nat (e + k - 1), rl_lowest := of_nat (e + k), rl_diff := k, rl_length := 0, rl_frags := 0\<rparr>)"
    using Suc.prems i p(3) tk by (intro Suc.IH) (auto simp: frag_ok_def)
  finally show ?case by simp
qed

section \<open>One packet\<close>

abbreviation to_server :: "udp_client \<Rightarrow> ack_to_server" where
  "to_server udpc \<equiv> am_toServer (uc_ackMgr udpc)"

text \<open>
  Between two packets in order: the number of the next message starts the queue, the fragments of
  it that have arrived are at the front, and the other slots are empty.
\<close>

definition ack_stage :: "udp_client \<Rightarrow> nat \<Rightarrow> to_server_packet list \<Rightarrow> bool" where
  "ack_stage udpc e ps \<longleftrightarrow> (\<exists>rest. ts_packetQueue (to_server udpc) = ps @ rest \<and> (\<forall>p \<in> set rest. sp_ackRequest p = 0))
     \<and> ts_count (to_server udpc) = of_nat (length ps)
     \<and> unat (ts_capacity (to_server udpc)) = length (ts_packetQueue (to_server udpc))
     \<and> ts_lowestAckInQueue (to_server udpc) = of_nat e
     \<and> ts_nextAckRequestExpected (to_server udpc) = of_nat (e + length ps)"

definition recv_slot :: "aligned \<Rightarrow> u16 \<Rightarrow> u16 \<Rightarrow> u16 \<Rightarrow> to_server_packet" where
  "recv_slot a opcode ackRequest fragCount =
     \<lparr>sp_ackRequest = ackRequest, sp_fragCount = fragCount, sp_opcode = opcode, sp_length = aligned_remaining_space a,
      sp_data = (if aligned_remaining_space a \<noteq> 0 then Some (aligned_rest a) else None)\<rparr>"

lemma remaining_space: "al_ok a \<Longrightarrow> unat (aligned_remaining_space a) = unat (al_length a) - unat (al_cursor a)"
  by (simp add: aligned_remaining_space_def al_ok_def unat_sub)

lemma aligned_rest_length: "al_ok a \<Longrightarrow> length (aligned_rest a) = unat (aligned_remaining_space a)"
  using remaining_space [of a] by (simp add: aligned_rest_def al_ok_def word_le_nat_alt) linarith

lemma recv_slot_ok:
  assumes "al_ok a"
  shows "frag_ok (recv_slot a opcode n k)" "frag_bytes (recv_slot a opcode n k) = aligned_rest a"
proof -
  have "aligned_remaining_space a = 0 \<Longrightarrow> aligned_rest a = []" by (simp add: aligned_rest_def)
  then show "frag_bytes (recv_slot a opcode n k) = aligned_rest a" by (simp add: frag_bytes_def recv_slot_def)
  then show "frag_ok (recv_slot a opcode n k)"
    using aligned_rest_length [OF assms] by (simp add: frag_ok_def recv_slot_def)
qed

lemma unat_ucast_u16: "unat (ucast (x :: u16) :: u32) = unat x"
  by (simp add: unsigned_ucast_eq unsigned_less take_bit_nat_eq_self less_trans [OF unsigned_less])

lemma unat_ucast_u32: "unat (w :: u32) < 65536 \<Longrightarrow> unat (ucast w :: u16) = unat w"
  by (simp add: unsigned_ucast_eq take_bit_nat_eq_self)

lemma ucast_u16_of_nat: "n < 65536 \<Longrightarrow> (ucast (of_nat n :: u16) :: u32) = of_nat n"
  by (simp add: word_unat_eq_iff unat_ucast_u16 unat_u16 unat_of_nat_small)

lemma expand_stage:
  assumes "ack_stage udpc e ps" "length ps < 2 ^ 15"
  obtains slot rest cap where "ack_expand (\<lambda>_. True) (to_server udpc) (of_nat (length ps)) =
      Some (Some ((to_server udpc)\<lparr>ts_packetQueue := ps @ slot # rest, ts_capacity := cap\<rparr>))"
    "sp_ackRequest slot = 0" "\<forall>p \<in> set rest. sp_ackRequest p = 0" "unat cap = length ps + 1 + length rest"
proof -
  let ?ts = "to_server udpc" and ?j = "length ps"
  obtain rest where q: "ts_packetQueue ?ts = ps @ rest" "\<forall>p \<in> set rest. sp_ackRequest p = 0"
    using assms(1) by (auto simp: ack_stage_def)
  have s: "ts_count ?ts = of_nat ?j" "unat (ts_capacity ?ts) = ?j + length rest"
    using assms(1) q(1) by (auto simp: ack_stage_def)
  have u: "unat (of_nat ?j :: u32) = ?j" using assms(2) by (intro unat_of_nat_small) simp
  show ?thesis
  proof (cases "rest = []")
    case False
    then obtain p r where r: "rest = p # r" by (cases rest) auto
    have "\<not> of_nat ?j \<ge> (ucast (ts_capacity ?ts) :: u32)"
      using u s(2) r by (simp add: word_le_nat_alt unat_ucast_u16)
    then have "ack_expand (\<lambda>_. True) ?ts (of_nat ?j) = Some (Some ?ts)" by (simp add: ack_expand_def)
    then show ?thesis using that [where slot = p and rest = r and cap = "ts_capacity ?ts"] q r s by simp
  next
    case True
    let ?d = "if (of_nat ?j :: u32) = 0 then 1 else of_nat ?j :: u32" let ?cap = "bit_pow2_greater_than_u32 ?d"
    have "(of_nat ?j :: u32) = 0 \<longleftrightarrow> ?j = 0" using u by (cases "?j = 0") auto
    then have d: "0 < unat ?d" "unat ?d = max 1 ?j"
      using u by (cases ps; auto)+
    have c: "max 1 ?j < unat ?cap" "unat ?cap \<le> 2 * max 1 ?j"
      using bit_pow2_greater_than_spec [of ?d] d assms(2) by auto
    then have cap: "unat (ucast ?cap :: u16) = unat ?cap" "?cap \<noteq> 0" "?j \<le> unat ?cap"
      using assms(2) by (auto simp: unat_ucast_u32)
    have j: "unat (of_nat ?j :: u16) = ?j" using assms(2) by (intro unat_u16) simp
    have ge: "(of_nat ?j :: u32) \<ge> ucast (ts_capacity ?ts)"
      using u s(2) True by (simp add: word_le_nat_alt unat_ucast_u16)
    have "replicate (unat ?cap - ?j) empty_slot = empty_slot # replicate (unat ?cap - ?j - 1) empty_slot"
      using c by (cases "unat ?cap - ?j") auto
    then have "ack_expand (\<lambda>_. True) ?ts (of_nat ?j) = Some (Some (?ts\<lparr>ts_packetQueue :=
        ps @ empty_slot # replicate (unat ?cap - ?j - 1) empty_slot, ts_capacity := ucast ?cap\<rparr>))"
      using ge cap j q(1) True s(1) by (simp add: ack_expand_def Let_def)
    then show ?thesis
      using that [where slot = empty_slot and rest = "replicate (unat ?cap - ?j - 1) empty_slot" and cap = "ucast ?cap"] cap c
      by (simp add: empty_slot_def)
  qed
qed


text \<open>A fragment whose number is the expected one is stored behind the ones before it.\<close>

lemma recv_fragment_stored:
  assumes st: "ack_stage udpc e ps" and "length ps < 2 ^ 15" "0 < k" "k < 65536" "e + length ps < 65536"
  obtains ts rest where
    "ack_recv_packet (\<lambda>_. True) udpc a opcode (of_nat (e + length ps)) (of_nat k) =
       ack_process_queue (\<lambda>_. True) (set_toServer udpc ts) (of_nat (e + length ps))"
    "ts_packetQueue ts = (ps @ [recv_slot a opcode (of_nat (e + length ps)) (of_nat k)]) @ rest"
    "\<forall>p \<in> set rest. sp_ackRequest p = 0" "ts_count ts = of_nat (length ps)"
    "unat (ts_capacity ts) = length (ts_packetQueue ts)" "ts_lowestAckInQueue ts = of_nat e"
proof -
  let ?ts = "to_server udpc" and ?j = "length ps" and ?n = "of_nat (e + length ps) :: u16"
  obtain slot rest cap where x: "ack_expand (\<lambda>_. True) ?ts (of_nat ?j) =
      Some (Some (?ts\<lparr>ts_packetQueue := ps @ slot # rest, ts_capacity := cap\<rparr>))"
    "sp_ackRequest slot = 0" "\<forall>p \<in> set rest. sp_ackRequest p = 0" "unat cap = ?j + 1 + length rest"
    by (rule expand_stage [OF st assms(2)])
  have s: "ts_nextAckRequestExpected ?ts = ?n" "ts_lowestAckInQueue ?ts = of_nat e" "ts_count ?ts = of_nat ?j"
    using st by (auto simp: ack_stage_def)
  have "(ucast ?n :: u32) = of_nat (e + ?j)" "(ucast (of_nat e :: u16) :: u32) = of_nat e"
    by (rule ucast_u16_of_nat; use assms(5) in simp)+
  then have diff: "(ucast ?n - ucast (of_nat e :: u16) :: u32) = of_nat ?j" by simp
  have u: "unat (of_nat ?j :: u32) = ?j" using assms(2) by (intro unat_of_nat_small) simp
  have k: "(of_nat k :: u16) \<noteq> 0" using assms(3,4) by (rule ack_number_nonzero)
  have p: "ack_cmp ?n ?n \<noteq> ACK_Past" by (simp add: ack_cmp_def)
  let ?slot = "recv_slot a opcode ?n (of_nat k)"
  let ?ts' = "?ts\<lparr>ts_capacity := cap, ts_packetQueue := (ps @ [?slot]) @ rest\<rparr>"
  have "ack_recv_packet (\<lambda>_. True) udpc a opcode ?n (of_nat k) =
      ack_process_queue (\<lambda>_. True) (set_toServer udpc ?ts') ?n"
    unfolding ack_recv_packet_def Let_def s diff x(1)
    using k p x(2) u by (simp add: recv_slot_def)
  then show ?thesis using that [of ?ts' rest] x s by simp
qed

lemma set_toServer_simps [simp]:
  "to_server (set_toServer udpc ts) = ts" "uc_toServerQueue (set_toServer udpc ts) = uc_toServerQueue udpc"
  "uc_clientObject (set_toServer udpc ts) = uc_clientObject udpc"
  by (simp_all add: set_toServer_def)

lemma fragments_of_snoc:
  assumes "fragments_of e k ps" "al_ok a"
  shows "fragments_of e k (ps @ [recv_slot a opcode (of_nat (e + length ps)) (of_nat k)])"
  using assms by (auto simp: fragments_of_def recv_slot_ok nth_append less_Suc_eq) (simp_all add: recv_slot_def)

lemma recv_fragment_partial:
  assumes st: "ack_stage udpc e ps" "fragments_of e k ps"
    and k: "Suc (length ps) < k" "k < 2 ^ 15" "0 < e" "e + k < 65536" and a: "al_ok a"
  obtains udpc' where
    "ack_recv_packet (\<lambda>_. True) udpc a opcode (of_nat (e + length ps)) (of_nat k) = Some udpc'"
    "ack_stage udpc' e (ps @ [recv_slot a opcode (of_nat (e + length ps)) (of_nat k)])"
    "uc_toServerQueue udpc' = uc_toServerQueue udpc" "uc_clientObject udpc' = uc_clientObject udpc"
proof -
  let ?ps = "ps @ [recv_slot a opcode (of_nat (e + length ps)) (of_nat k)]"
  obtain ts rest where r: "ack_recv_packet (\<lambda>_. True) udpc a opcode (of_nat (e + length ps)) (of_nat k) =
       ack_process_queue (\<lambda>_. True) (set_toServer udpc ts) (of_nat (e + length ps))"
    "ts_packetQueue ts = ?ps @ rest" "\<forall>p \<in> set rest. sp_ackRequest p = 0" "ts_count ts = of_nat (length ps)"
    "unat (ts_capacity ts) = length (ts_packetQueue ts)" "ts_lowestAckInQueue ts = of_nat e"
    by (rule recv_fragment_stored [OF st(1), of k a opcode]) (use k in auto)
  have n: "unat (of_nat (length ps) :: u16) + 1 = length ?ps" using k by (simp add: unat_u16)
  let ?l = "\<lparr>rl_queue = ts_packetQueue ts, rl_udpc = set_toServer udpc ts, rl_nextAck = of_nat (e + length ps),
             rl_lowest = of_nat e, rl_diff = 0, rl_length = 0, rl_frags = 0\<rparr>"
  have "ack_drive (\<lambda>_. True) (length ?ps) 0 ?l = Some ?l"
    using fragments_of_snoc [OF st(2) a] r(2) k by (intro drive_partial [where e = e and k = k and rest = rest]) simp_all
  then have "ack_process_queue (\<lambda>_. True) (set_toServer udpc ts) (of_nat (e + length ps)) =
      Some (set_toServer (set_toServer udpc ts) (ts\<lparr>ts_lowestAckInQueue := of_nat e, ts_count := of_nat (length ?ps),
        ts_nextAckRequestExpected := of_nat (e + length ps) + 1\<rparr>))"
    unfolding ack_process_queue_def Let_def set_toServer_simps r(4,6) n by (simp add: r(6))
  then show ?thesis using that r by (simp add: ack_stage_def ac_simps)
qed

lemma recv_fragment_last:
  assumes st: "ack_stage udpc e ps" "fragments_of e k ps"
    and k: "Suc (length ps) = k" "1 < k" "k < 2 ^ 15" "0 < e" "e + k < 65536" and a: "al_ok a"
    and data: "data = concat (map frag_bytes ps) @ aligned_rest a" "length data < 2 ^ 32"
    and op: "sp_opcode (hd ps) = opcode" "opcode \<noteq> 0" and room: "rb_room udpc (Suc m)"
  obtains udpc' where
    "ack_recv_packet (\<lambda>_. True) udpc a any (of_nat (e + length ps)) (of_nat k) = Some udpc'"
    "ack_stage udpc' (e + k) []" "rb_room udpc' m" "uc_clientObject udpc' = uc_clientObject udpc"
    "rb_contents (uc_toServerQueue udpc') = rb_contents (uc_toServerQueue udpc)
       @ [delivered udpc opcode (of_nat (length data)) (Some data)]"
proof -
  let ?ps = "ps @ [recv_slot a any (of_nat (e + length ps)) (of_nat k)]"
  obtain ts rest where r: "ack_recv_packet (\<lambda>_. True) udpc a any (of_nat (e + length ps)) (of_nat k) =
       ack_process_queue (\<lambda>_. True) (set_toServer udpc ts) (of_nat (e + length ps))"
    "ts_packetQueue ts = ?ps @ rest" "\<forall>p \<in> set rest. sp_ackRequest p = 0" "ts_count ts = of_nat (length ps)"
    "unat (ts_capacity ts) = length (ts_packetQueue ts)" "ts_lowestAckInQueue ts = of_nat e"
    by (rule recv_fragment_stored [OF st(1), of k a any]) (use k in auto)
  have n: "unat (of_nat (length ps) :: u16) + 1 = k" using k by (simp add: unat_u16)
  have ps: "length ?ps = k" "concat (map frag_bytes ?ps) = data" "sp_opcode (?ps ! 0) = opcode"
    using k data a op by (cases ps; simp add: recv_slot_ok)+
  let ?udpc = "set_toServer udpc ts"
  have "rb_room ?udpc (Suc m)" using room by (simp add: rb_room_def)
  then obtain rb where rb: "udpc_recv_packet_no_copy ?udpc (Some data) (of_nat (length data)) opcode =
      Some (?udpc\<lparr>uc_toServerQueue := rb\<rparr>)" "rb_room (?udpc\<lparr>uc_toServerQueue := rb\<rparr>) m"
    "rb_contents rb = rb_contents (uc_toServerQueue ?udpc)
       @ [delivered ?udpc opcode (of_nat (length data)) (Some data)]"
    using recv_no_copy_ok op(2) by blast
  let ?l = "\<lparr>rl_queue = ts_packetQueue ts, rl_udpc = ?udpc, rl_nextAck = of_nat (e + length ps),
             rl_lowest = of_nat e, rl_diff = 0, rl_length = 0, rl_frags = 0\<rparr>"
  let ?q = "map (\<lambda>p. p\<lparr>sp_data := None\<rparr>) ?ps @ rest"
  have "ack_drive (\<lambda>_. True) k 0 ?l = Some (?l\<lparr>rl_queue := ?q, rl_udpc := ?udpc\<lparr>uc_toServerQueue := rb\<rparr>,
      rl_nextAck := of_nat (e + k - 1), rl_lowest := of_nat (e + k), rl_diff := k, rl_length := 0, rl_frags := 0\<rparr>)"
  proof (rule drive_complete [where ps = ?ps and e = e and d = "k - 1" and rest = rest and m = m])
    show "fragments_of e k ?ps" by (rule fragments_of_snoc [OF st(2) a])
    show "rl_queue ?l = ?ps @ rest" using r(2) by simp
    show "length (concat (map frag_bytes ?ps)) < 2 ^ 32" "sp_opcode (?ps ! 0) \<noteq> 0"
      unfolding ps by (fact data(2) op(2))+
    show "udpc_recv_packet_no_copy (rl_udpc ?l) (Some (concat (map frag_bytes ?ps)))
        (of_nat (length (concat (map frag_bytes ?ps)))) (sp_opcode (?ps ! 0)) = Some (?udpc\<lparr>uc_toServerQueue := rb\<rparr>)"
      unfolding ps using rb(1) by simp
  qed (use ps(1) k room in \<open>simp_all add: rb_room_def\<close>)
  moreover have tl: "drop k ?q = rest"
    by (simp only: drop_append length_map ps(1) drop_all order_refl diff_self_eq_0 drop_0 append_Nil)
  ultimately have "ack_process_queue (\<lambda>_. True) ?udpc (of_nat (e + length ps)) =
      Some (set_toServer (?udpc\<lparr>uc_toServerQueue := rb\<rparr>) (ts\<lparr>ts_lowestAckInQueue := of_nat (e + k),
        ts_count := of_nat 0, ts_packetQueue := replicate k empty_slot @ rest,
        ts_nextAckRequestExpected := of_nat (e + k - 1) + 1\<rparr>))"
    (is "_ = Some ?u")
    unfolding ack_process_queue_def Let_def set_toServer_simps r(4,6) n using ps(1) k(2) by (simp add: r(6))
  moreover have "ack_stage ?u (e + k) []"
    using r(2,3,5) ps(1) k(1,2) by (auto simp: ack_stage_def empty_slot_def in_set_replicate)
  moreover have "rb_room ?u m" "uc_clientObject ?u = uc_clientObject udpc"
    "rb_contents (uc_toServerQueue ?u) = rb_contents (uc_toServerQueue udpc)
       @ [delivered udpc opcode (of_nat (length data)) (Some data)]"
    using rb(2,3) by (simp_all add: rb_room_def delivered_def)
  ultimately show ?thesis using that r(1) by metis
qed

lemma recv_unfragmented:
  assumes st: "ack_stage udpc e []" and e: "0 < e" "Suc e < 65536" and a: "al_ok a"
    and op: "opcode \<noteq> 0" and room: "rb_room udpc (Suc m)"
  obtains udpc' where
    "ack_recv_packet (\<lambda>_. True) udpc a opcode (of_nat e) 0 = Some udpc'"
    "ack_stage udpc' (Suc e) []" "rb_room udpc' m" "uc_clientObject udpc' = uc_clientObject udpc"
    "rb_contents (uc_toServerQueue udpc') = rb_contents (uc_toServerQueue udpc)
       @ [delivered udpc opcode (of_nat (length (aligned_rest a)))
           (if aligned_rest a = [] then None else Some (aligned_rest a))]"
proof -
  let ?ts = "to_server udpc"
  let ?udpc = "set_toServer udpc (?ts\<lparr>ts_nextAckRequestExpected := of_nat e + 1, ts_lowestAckInQueue := of_nat e + 1\<rparr>)"
  let ?len = "aligned_remaining_space a" let ?data = "if aligned_rest a = [] then None else Some (aligned_rest a)"
  have len: "of_nat (length (aligned_rest a)) = ?len" "aligned_rest a = [] \<longleftrightarrow> ?len = 0"
    using aligned_rest_length [OF a] by (simp_all flip: length_0_conv add: unat_eq_0)
  have "rb_room ?udpc (Suc m)" using room by (simp add: rb_room_def)
  then obtain rb where rb: "udpc_recv_packet_no_copy ?udpc ?data ?len opcode =
      Some (?udpc\<lparr>uc_toServerQueue := rb\<rparr>)" "rb_room (?udpc\<lparr>uc_toServerQueue := rb\<rparr>) m"
    "rb_contents rb = rb_contents (uc_toServerQueue ?udpc) @ [delivered ?udpc opcode ?len ?data]"
    using recv_no_copy_ok op by blast
  have "ts_nextAckRequestExpected ?ts = of_nat e" using st by (simp add: ack_stage_def)
  then have "ack_recv_packet (\<lambda>_. True) udpc a opcode (of_nat e) 0 = Some (?udpc\<lparr>uc_toServerQueue := rb\<rparr>)"
    using rb(1) op len by (auto simp: ack_recv_packet_def udpc_recv_packet_def Let_def)
  then show ?thesis using that [of "?udpc\<lparr>uc_toServerQueue := rb\<rparr>"] rb st len
    by (simp add: ack_stage_def delivered_def set_toServer_def)
qed

section \<open>Streams\<close>

text \<open>
  What \<open>udpc_recv_protocol\<close> passes on: the cursor at the payload, the opcode (0 in a fragment that
  is not the first), the ack number and the number of fragments (0 for an unfragmented packet).
\<close>

type_synonym arrival = "aligned \<times> u16 \<times> u16 \<times> u16"

fun ack_recv_arrival :: "udp_client \<Rightarrow> arrival \<Rightarrow> udp_client option" where
  "ack_recv_arrival udpc (a, opcode, ackRequest, fragCount) = ack_recv_packet (\<lambda>_. True) udpc a opcode ackRequest fragCount"

fun ack_recv_stream :: "udp_client \<Rightarrow> arrival list \<Rightarrow> udp_client option" where
  "ack_recv_stream udpc [] = Some udpc"
| "ack_recv_stream udpc (x # xs) = Option.bind (ack_recv_arrival udpc x) (\<lambda>udpc. ack_recv_stream udpc xs)"

text \<open>A message is an opcode and its pieces, numbered from \<open>e\<close> on.\<close>

type_synonym message = "u16 \<times> aligned list"

definition arrivals_of :: "nat \<Rightarrow> message \<Rightarrow> arrival list" where
  "arrivals_of e m = (let as = snd m; k = length as in
     if k = 1 then [(hd as, fst m, of_nat e, 0)]
     else map (\<lambda>j. (as ! j, if j = 0 then fst m else 0, of_nat (e + j), of_nat k)) [0..<k])"

fun stream_of :: "nat \<Rightarrow> message list \<Rightarrow> arrival list" where
  "stream_of e [] = []"
| "stream_of e (m # ms) = arrivals_of e m @ stream_of (e + length (snd m)) ms"

definition message_data :: "message \<Rightarrow> u8 list" where
  "message_data m = concat (map aligned_rest (snd m))"

definition message_ok :: "message \<Rightarrow> bool" where
  "message_ok m \<longleftrightarrow> fst m \<noteq> 0 \<and> snd m \<noteq> [] \<and> length (snd m) < 2 ^ 15 \<and> list_all al_ok (snd m)
     \<and> length (message_data m) < 2 ^ 32"

definition message_delivered :: "udp_client \<Rightarrow> message \<Rightarrow> int \<times> zpacket" where
  "message_delivered udpc m = delivered udpc (fst m) (of_nat (length (message_data m)))
     (if length (snd m) = 1 \<and> message_data m = [] then None else Some (message_data m))"

text \<open>
  A stream as the network delivers it when nothing overtakes: the new packets in order, and between
  them any number of repetitions of numbers from the window of the past, with any contents.
\<close>

inductive with_repeats :: "nat \<Rightarrow> arrival list \<Rightarrow> arrival list \<Rightarrow> bool" where
  ended: "with_repeats e [] []"
| fresh: "with_repeats (Suc e) news s \<Longrightarrow> with_repeats e (x # news) (x # s)"
| repeated: "with_repeats e news s \<Longrightarrow> 0 < d \<Longrightarrow> d \<le> 1024 \<Longrightarrow>
    with_repeats e news ((a, opcode, of_nat e - of_nat d, fragCount) # s)"

text \<open>A run over new packets in which the expected number advances by one at each of them.\<close>

fun in_order_run :: "udp_client \<Rightarrow> nat \<Rightarrow> arrival list \<Rightarrow> udp_client \<Rightarrow> bool" where
  "in_order_run udpc e [] udpc' \<longleftrightarrow> udpc' = udpc \<and> ts_nextAckRequestExpected (to_server udpc) = of_nat e"
| "in_order_run udpc e (x # xs) udpc' \<longleftrightarrow> ts_nextAckRequestExpected (to_server udpc) = of_nat e
     \<and> (\<exists>u. ack_recv_arrival udpc x = Some u \<and> in_order_run u (Suc e) xs udpc')"

lemma in_order_run_append:
  "in_order_run u e xs v \<Longrightarrow> in_order_run v (e + length xs) ys w \<Longrightarrow> in_order_run u e (xs @ ys) w"
  by (induction xs arbitrary: u e) auto

lemma in_order_run_expected: "in_order_run u e xs v \<Longrightarrow> ts_nextAckRequestExpected (to_server u) = of_nat e"
  by (cases xs) auto

lemma repeated_ignored:
  assumes "ts_nextAckRequestExpected (to_server u) = of_nat e" "0 < d" "d \<le> 1024"
  shows "ack_recv_packet alloc u a opcode (of_nat e - of_nat d) fragCount = Some u"
proof -
  have past: "ack_cmp (of_nat e - of_nat d) (of_nat e) = ACK_Past" using assms by (intro ack_cmp_past)
  then have "(of_nat e - of_nat d :: u16) \<noteq> of_nat e" by (auto simp: ack_cmp_def)
  then show ?thesis using past assms(1) by (simp add: ack_recv_packet_def Let_def)
qed

lemma repeats_ignored:
  "with_repeats e news s \<Longrightarrow> in_order_run u e news v \<Longrightarrow> ack_recv_stream u s = Some v"
proof (induction arbitrary: u rule: with_repeats.induct)
  case (repeated e news s d a opcode fragCount)
  have "ack_recv_packet (\<lambda>_. True) u a opcode (of_nat e - of_nat d) fragCount = Some u"
    using in_order_run_expected [OF repeated.prems] repeated.hyps by (intro repeated_ignored)
  then show ?case using repeated.IH [OF repeated.prems] by simp
qed auto

text \<open>A message from its first to its last piece.\<close>

lemma recv_fragments_run:
  assumes k: "1 < k" "k < 2 ^ 15" "0 < e" "e + k < 65536" "length as = k" "list_all al_ok as"
    and op: "opcode \<noteq> 0" and bytes: "length (concat (map aligned_rest as)) < 2 ^ 32"
  shows "j + Suc d = k \<Longrightarrow> ack_stage udpc e ps \<Longrightarrow> fragments_of e k ps \<Longrightarrow> length ps = j \<Longrightarrow>
    map frag_bytes ps = map aligned_rest (take j as) \<Longrightarrow> (ps \<noteq> [] \<longrightarrow> sp_opcode (hd ps) = opcode) \<Longrightarrow>
    rb_room udpc (Suc m) \<Longrightarrow>
    \<exists>udpc'. in_order_run udpc (e + j)
        (map (\<lambda>j. (as ! j, if j = 0 then opcode else 0, of_nat (e + j), of_nat k)) [j..<k]) udpc'
      \<and> ack_stage udpc' (e + k) [] \<and> rb_room udpc' m \<and> uc_clientObject udpc' = uc_clientObject udpc
      \<and> rb_contents (uc_toServerQueue udpc') = rb_contents (uc_toServerQueue udpc)
          @ [delivered udpc opcode (of_nat (length (concat (map aligned_rest as)))) (Some (concat (map aligned_rest as)))]"
proof (induction d arbitrary: j udpc ps)
  case 0
  have as: "as = take j as @ [as ! j]" "al_ok (as ! j)"
    using 0 k(5,6) by (simp_all add: take_Suc_conv_app_nth [symmetric] list_all_length)
  have data: "concat (map aligned_rest as) = concat (map frag_bytes ps) @ aligned_rest (as ! j)"
    using arg_cong [OF as(1), of "\<lambda>x. concat (map aligned_rest x)"] 0(5)
    by (simp only: map_append concat_append list.map concat.simps append_Nil2)
  have ne: "ps \<noteq> []" "j \<noteq> 0" "[j..<k] = [j]" using 0 k(1) by auto
  obtain u where u: "ack_recv_packet (\<lambda>_. True) udpc (as ! j) 0 (of_nat (e + length ps)) (of_nat k) = Some u"
    "ack_stage u (e + k) []" "rb_room u m" "uc_clientObject u = uc_clientObject udpc"
    "rb_contents (uc_toServerQueue u) = rb_contents (uc_toServerQueue udpc)
      @ [delivered udpc opcode (of_nat (length (concat (map aligned_rest as)))) (Some (concat (map aligned_rest as)))]"
    by (rule recv_fragment_last [OF 0(2,3) _ k(1-4) as(2) data bytes _ op 0(7), of 0]) (use 0 ne in auto)
  have "ts_nextAckRequestExpected (to_server udpc) = of_nat (e + j)"
    "ts_nextAckRequestExpected (to_server u) = of_nat (Suc (e + j))"
    using 0 u(2) by (simp_all add: ack_stage_def ac_simps flip: 0(1))
  then show ?case using u ne 0(4) by (intro exI [of _ u]) simp
next
  case (Suc d)
  let ?op = "if j = 0 then opcode else 0" let ?slot = "recv_slot (as ! j) ?op (of_nat (e + length ps)) (of_nat k)"
  have j: "Suc j + Suc d = k" "Suc (length ps) < k" "[j..<k] = j # [Suc j..<k]"
    using Suc.prems(1,4) by (auto simp: upt_conv_Cons)
  have a: "al_ok (as ! j)" "take (Suc j) as = take j as @ [as ! j]"
    using j k(5,6) Suc.prems(4) by (auto simp: list_all_length take_Suc_conv_app_nth)
  obtain u where u: "ack_recv_packet (\<lambda>_. True) udpc (as ! j) ?op (of_nat (e + length ps)) (of_nat k) = Some u"
    "ack_stage u e (ps @ [?slot])" "uc_toServerQueue u = uc_toServerQueue udpc" "uc_clientObject u = uc_clientObject udpc"
    by (rule recv_fragment_partial [OF Suc.prems(2,3) j(2) k(2-4) a(1)])
  have "\<exists>udpc'. in_order_run u (e + Suc j)
        (map (\<lambda>j. (as ! j, if j = 0 then opcode else 0, of_nat (e + j), of_nat k)) [Suc j..<k]) udpc'
      \<and> ack_stage udpc' (e + k) [] \<and> rb_room udpc' m \<and> uc_clientObject udpc' = uc_clientObject u
      \<and> rb_contents (uc_toServerQueue udpc') = rb_contents (uc_toServerQueue u)
          @ [delivered u opcode (of_nat (length (concat (map aligned_rest as)))) (Some (concat (map aligned_rest as)))]"
  proof (rule Suc.IH [OF j(1) u(2) fragments_of_snoc [OF Suc.prems(3) a(1)]])
    show "map frag_bytes (ps @ [?slot]) = map aligned_rest (take (Suc j) as)"
      using Suc.prems(5) a by (simp add: recv_slot_ok)
    show "ps @ [?slot] \<noteq> [] \<longrightarrow> sp_opcode (hd (ps @ [?slot])) = opcode"
      using Suc.prems(4,6) by (cases ps) (auto simp: recv_slot_def)
    show "rb_room u (Suc m)" using Suc.prems(7) u(3) by (simp add: rb_room_def)
  qed (use Suc.prems(4) in simp)
  moreover have "ts_nextAckRequestExpected (to_server udpc) = of_nat (e + j)"
    using Suc.prems(2,4) by (simp add: ack_stage_def)
  ultimately show ?case using u Suc.prems(4) j(3) by (auto simp: delivered_def)
qed

lemma recv_message_run:
  assumes st: "ack_stage udpc e []" and e: "0 < e" "e + length (snd m) < 65536" and m: "message_ok m"
    and room: "rb_room udpc (Suc n)"
  shows "\<exists>u. in_order_run udpc e (arrivals_of e m) u \<and> ack_stage u (e + length (snd m)) [] \<and> rb_room u n
    \<and> uc_clientObject u = uc_clientObject udpc
    \<and> rb_contents (uc_toServerQueue u) = rb_contents (uc_toServerQueue udpc) @ [message_delivered udpc m]"
proof (cases "length (snd m) = 1")
  case True
  then obtain a where a: "snd m = [a]" by (cases "snd m") auto
  have ok: "al_ok a" "fst m \<noteq> 0" "Suc e < 65536" using m a e by (auto simp: message_ok_def)
  obtain u where u: "ack_recv_packet (\<lambda>_. True) udpc a (fst m) (of_nat e) 0 = Some u"
    "ack_stage u (Suc e) []" "rb_room u n" "uc_clientObject u = uc_clientObject udpc"
    "rb_contents (uc_toServerQueue u) = rb_contents (uc_toServerQueue udpc)
       @ [delivered udpc (fst m) (of_nat (length (aligned_rest a))) (if aligned_rest a = [] then None else Some (aligned_rest a))]"
    by (rule recv_unfragmented [OF st e(1) ok(3,1,2) room])
  have "ts_nextAckRequestExpected (to_server udpc) = of_nat e" "ts_nextAckRequestExpected (to_server u) = of_nat (Suc e)"
    using st u(2) by (simp_all add: ack_stage_def)
  then show ?thesis using u a
    by (intro exI [of _ u]) (simp add: arrivals_of_def message_delivered_def message_data_def)
next
  case False
  let ?k = "length (snd m)"
  have k: "1 < ?k" "?k < 2 ^ 15" "list_all al_ok (snd m)" "fst m \<noteq> 0" "length (concat (map aligned_rest (snd m))) < 2 ^ 32"
    using m False by (auto simp: message_ok_def message_data_def Suc_lessI)
  have "\<exists>u. in_order_run udpc (e + 0)
        (map (\<lambda>j. (snd m ! j, if j = 0 then fst m else 0, of_nat (e + j), of_nat ?k)) [0..<?k]) u
      \<and> ack_stage u (e + ?k) [] \<and> rb_room u n \<and> uc_clientObject u = uc_clientObject udpc
      \<and> rb_contents (uc_toServerQueue u) = rb_contents (uc_toServerQueue udpc)
          @ [delivered udpc (fst m) (of_nat (length (concat (map aligned_rest (snd m))))) (Some (concat (map aligned_rest (snd m))))]"
    by (rule recv_fragments_run [OF k(1,2) e refl k(3,4,5), of 0 "?k - 1" udpc "[]"])
      (use k st room in \<open>auto simp: fragments_of_def\<close>)
  then show ?thesis using False by (simp add: arrivals_of_def message_delivered_def message_data_def Let_def)
qed

lemma arrivals_of_length [simp]: "length (arrivals_of e m) = length (snd m)"
  by (simp add: arrivals_of_def Let_def)

lemma recv_stream_run:
  "ack_stage udpc e [] \<Longrightarrow> 0 < e \<Longrightarrow> e + (\<Sum>m\<leftarrow>ms. length (snd m)) < 65536 \<Longrightarrow> list_all message_ok ms \<Longrightarrow>
   rb_room udpc (length ms) \<Longrightarrow>
   \<exists>u. in_order_run udpc e (stream_of e ms) u \<and> ack_stage u (e + (\<Sum>m\<leftarrow>ms. length (snd m))) []
     \<and> rb_contents (uc_toServerQueue u) = rb_contents (uc_toServerQueue udpc) @ map (message_delivered udpc) ms"
proof (induction ms arbitrary: udpc e)
  case Nil
  then show ?case by (auto simp: ack_stage_def)
next
  case (Cons m ms)
  obtain v where v: "in_order_run udpc e (arrivals_of e m) v" "ack_stage v (e + length (snd m)) []" "rb_room v (length ms)"
    "uc_clientObject v = uc_clientObject udpc"
    "rb_contents (uc_toServerQueue v) = rb_contents (uc_toServerQueue udpc) @ [message_delivered udpc m]"
    using recv_message_run [OF Cons.prems(1,2), of m "length ms"] Cons.prems(3-5) by auto
  have d: "message_delivered v = message_delivered udpc"
    using v(4) by (auto simp: message_delivered_def delivered_def fun_eq_iff)
  obtain u where u: "in_order_run v (e + length (snd m)) (stream_of (e + length (snd m)) ms) u"
    "ack_stage u (e + length (snd m) + (\<Sum>m\<leftarrow>ms. length (snd m))) []"
    "rb_contents (uc_toServerQueue u) = rb_contents (uc_toServerQueue v) @ map (message_delivered v) ms"
    using Cons.IH [OF v(2)] Cons.prems v(3) by (auto simp: add.assoc)
  have "in_order_run udpc e (stream_of e (m # ms)) u"
    using in_order_run_append [OF v(1), of "stream_of (e + length (snd m)) ms" u] u(1) by simp
  then show ?case using u v d by (intro exI [of _ u]) (simp add: add.assoc)
qed

text \<open>
  C2. Messages of the client reach the server completely, once and in order. Whatever messages the
  client sends, each in one packet or in consecutively numbered fragments, and whatever packets
  from the window of the past the network repeats in between, \<open>ack_recv_packet\<close> hands every message
  over exactly once, in the order they were sent, with the opcode of its first fragment and the
  concatenation of its pieces, as long as the queue to the server has room. Afterwards it is ready for
  the next message.
\<close>

theorem ack_stream_reassembled:
  assumes "ack_stage udpc e []" "0 < e" "e + (\<Sum>m\<leftarrow>ms. length (snd m)) < 65536" "list_all message_ok ms"
    and "rb_room udpc (length ms)" "with_repeats e (stream_of e ms) s"
  shows "\<exists>u. ack_recv_stream udpc s = Some u \<and> ack_stage u (e + (\<Sum>m\<leftarrow>ms. length (snd m))) []
     \<and> rb_contents (uc_toServerQueue u) = rb_contents (uc_toServerQueue udpc) @ map (message_delivered udpc) ms"
  using recv_stream_run [OF assms(1-5)] repeats_ignored [OF assms(6)] by blast

definition demo_client :: udp_client where
  "demo_client = \<lparr>uc_ip = 0, uc_port = 0, uc_accountId = 0, uc_udpIndex = 0, uc_clientObject = 9,
     uc_toServerQueue = ringbuf_init (ZClientDisconnect 0) 16, uc_ackMgr = ack_recv_sync (ack_init 1) 1,
     uc_sent = [], uc_ackFlags = []\<rparr>"

definition demo_messages :: "message list" where
  "demo_messages = [(7, [aligned_init [1, 2, 3] 3]), (8, [aligned_init [4, 5] 2, aligned_init [6] 1])]"

definition demo_stream :: "arrival list" where
  "demo_stream = [(aligned_init [1, 2, 3] 3, 7, 1, 0), (aligned_init [4, 5] 2, 8, 2, 2), (aligned_init [9] 1, 7, 1, 0),
     (aligned_init [6] 1, 0, 3, 2)]"

lemma demo_client_ok: "ack_stage demo_client 1 []" "rb_room demo_client 2" "uc_clientObject demo_client = 9"
  "rb_contents (uc_toServerQueue demo_client) = []"
proof -
  have n: "2 \<le> (16 :: nat)" "16 \<le> RINGBUF_MAX_PACKETS" by (simp_all add: RINGBUF_MAX_PACKETS_def)
  note r = ringbuf_init_inv [OF n, of "ZClientDisconnect 0"]
  show "ack_stage demo_client 1 []" by (simp add: ack_stage_def demo_client_def ack_init_def ack_recv_sync_def)
  show "rb_room demo_client 2" using r by (simp add: rb_room_def demo_client_def flip: rb_contents_length)
  show "uc_clientObject demo_client = 9" "rb_contents (uc_toServerQueue demo_client) = []"
    using r by (simp_all add: demo_client_def)
qed

lemma demo_stream_ok: "with_repeats 1 (stream_of 1 demo_messages) demo_stream"
proof -
  have "with_repeats 3 [(aligned_init [6] 1, 0, 3, 2)] ((aligned_init [9] 1, 7, of_nat 3 - of_nat 2, 0) # [(aligned_init [6] 1, 0, 3, 2)])"
    by (rule with_repeats.repeated [OF with_repeats.fresh [OF with_repeats.ended]]) simp_all
  then have "with_repeats 3 [(aligned_init [6] 1, 0, 3, 2)]
      [(aligned_init [9] 1, 7, 1, 0), (aligned_init [6] 1, 0, 3, 2)]" by simp
  then have "with_repeats (Suc 1) [(aligned_init [4, 5] 2, 8, 2, 2), (aligned_init [6] 1, 0, 3, 2)]
      [(aligned_init [4, 5] 2, 8, 2, 2), (aligned_init [9] 1, 7, 1, 0), (aligned_init [6] 1, 0, 3, 2)]"
    by (intro with_repeats.fresh) (simp add: eval_nat_numeral)
  then have "with_repeats 1 ((aligned_init [1, 2, 3] 3, 7, 1, 0) # [(aligned_init [4, 5] 2, 8, 2, 2), (aligned_init [6] 1, 0, 3, 2)])
      demo_stream" unfolding demo_stream_def by (rule with_repeats.fresh)
  then show ?thesis by (simp add: demo_messages_def arrivals_of_def Let_def upt_rec)
qed

theorem ack_stream_reassembled_witness:
  "\<exists>u. ack_recv_stream demo_client demo_stream = Some u \<and> rb_contents (uc_toServerQueue u) =
     [(5, ZToServerPacket 7 3 9 (Some [1, 2, 3])), (5, ZToServerPacket 8 3 9 (Some [4, 5, 6]))]"
proof -
  have ok: "list_all message_ok demo_messages" "1 + (\<Sum>m\<leftarrow>demo_messages. length (snd m)) < 65536"
    by (simp_all add: demo_messages_def message_ok_def message_data_def al_ok_def
        aligned_init_def aligned_rest_def aligned_remaining_space_def)
  have "length demo_messages = 2" by (simp add: demo_messages_def)
  then have room: "rb_room demo_client (length demo_messages)" using demo_client_ok(2) by simp
  have "map (message_delivered demo_client) demo_messages =
     [(5, ZToServerPacket 7 3 9 (Some [1, 2, 3])), (5, ZToServerPacket 8 3 9 (Some [4, 5, 6]))]"
    by (simp add: demo_messages_def message_delivered_def message_data_def delivered_def demo_client_ok
        ZOP_UDP_ToServerPacket_def aligned_init_def aligned_rest_def aligned_remaining_space_def)
  then show ?thesis
    using ack_stream_reassembled [OF demo_client_ok(1) zero_less_one ok(2,1) room demo_stream_ok]
    unfolding demo_client_ok(4) by (metis append_Nil)
qed

text \<open>
  A packet that overtakes the one before it is another matter: the expected number advances past the
  missing packet, which is then taken for an old one and never delivered.
\<close>

lemma ack_overtaken_packet_lost:
  "map_option (\<lambda>u. (rb_contents (uc_toServerQueue u), ts_nextAckRequestExpected (to_server u)))
     (ack_recv_stream demo_client [(aligned_init [2] 1, 8, 2, 0), (aligned_init [1] 1, 7, 1, 0)]) = Some ([], 2)"
  by code_simp

end
