(* ===== verification/Zeq_Wire.thy ===== *)
theory Zeq_Wire
  imports Zeq_UdpClient Zeq_AckRecv
begin

text \<open>
  The format of a datagram, which the sending and the receiving side share: what
  \<open>ack_send_fragment\<close> writes around a payload, \<open>udpc_recv_protocol\<close> takes apart again.
\<close>

section \<open>Reading off the front\<close>

text \<open>The cursor stands before the bytes \<open>bs\<close>, which are all that remains.\<close>

definition al_at :: "aligned \<Rightarrow> u8 list \<Rightarrow> bool" where
  "al_at a bs \<longleftrightarrow> al_ok a \<and> aligned_rest a = bs"

lemma al_at_length:
  assumes "al_at a bs"
  shows "aligned_remaining_space a = of_nat (length bs)" "length bs < 2 ^ 32"
    "unat (al_cursor a) + length bs = unat (al_length a)" "unat (aligned_remaining_space a) = length bs"
proof -
  have l: "length bs = unat (aligned_remaining_space a)" using assms aligned_rest_length by (auto simp: al_at_def)
  then show "aligned_remaining_space a = of_nat (length bs)" "length bs < 2 ^ 32"
    "unat (aligned_remaining_space a) = length bs"
    using unsigned_less [of "aligned_remaining_space a", where 'a = nat] by simp_all
  show "unat (al_cursor a) + length bs = unat (al_length a)"
    using l remaining_space [of a] assms by (simp add: al_at_def al_ok_def word_le_nat_alt)
qed

lemma al_at_unfold:
  "al_at a bs \<longleftrightarrow> al_ok a \<and> take (length bs) (drop (unat (al_cursor a)) (al_buffer a)) = bs
     \<and> unat (al_cursor a) + length bs = unat (al_length a)"
proof
  assume a: "al_at a bs"
  have "take (unat (aligned_remaining_space a)) (drop (unat (al_cursor a)) (al_buffer a)) = bs" "al_ok a"
    using a by (simp_all add: al_at_def aligned_rest_def)
  then show "al_ok a \<and> take (length bs) (drop (unat (al_cursor a)) (al_buffer a)) = bs
     \<and> unat (al_cursor a) + length bs = unat (al_length a)"
    using al_at_length(3) [OF a] unfolding al_at_length(4) [OF a] by blast
next
  assume a: "al_ok a \<and> take (length bs) (drop (unat (al_cursor a)) (al_buffer a)) = bs
     \<and> unat (al_cursor a) + length bs = unat (al_length a)"
  then have "unat (aligned_remaining_space a) = length bs" using remaining_space [of a] by linarith
  then show "al_at a bs" using a by (simp add: al_at_def aligned_rest_def)
qed

lemma al_at_advance:
  assumes "al_at a (xs @ bs)" "n = of_nat (length xs)"
  obtains a' where "aligned_advance_by a n = Some (al_cursor a, a')" "al_at a' bs" "al_length a' = al_length a"
    "al_buffer a' = al_buffer a"
proof -
  note l = assms(1) [unfolded al_at_unfold]
  have room: "al_room a (length xs)" using l by (simp add: al_room_def)
  note c = unat_add_cursor [of "al_cursor a" "length xs"]
  have nw: "unat (al_cursor a) + length xs < 2 ^ 32"
    using l unsigned_less [of "al_length a", where 'a = nat] by simp
  let ?a' = "a\<lparr>al_cursor := al_cursor a + of_nat (length xs)\<rparr>"
  have "drop (length xs) (take (length (xs @ bs)) (drop (unat (al_cursor a)) (al_buffer a))) = bs" using l by simp
  then have "take (length bs) (drop (unat (al_cursor a) + length xs) (al_buffer a)) = bs"
    by (simp add: drop_take add.commute)
  then have "al_at ?a' bs"
    unfolding al_at_unfold using l c [OF nw] by (simp add: al_ok_def word_le_nat_alt)
  then show ?thesis
    using that [of ?a'] advance_by [OF al_room_no_wrap [OF room]] room assms(2) by simp
qed

lemma al_at_room: "al_at a (xs @ bs) \<Longrightarrow> al_room a (length xs)"
  by (auto simp: al_at_unfold al_room_def)

lemma al_at_get: "al_at a (xs @ bs) \<Longrightarrow> al_get a (unat (al_cursor a)) (length xs) = xs"
proof -
  assume "al_at a (xs @ bs)"
  then have "take (length xs) (take (length (xs @ bs)) (drop (unat (al_cursor a)) (al_buffer a))) = xs"
    by (simp add: al_at_unfold)
  then show ?thesis by (simp add: al_get_def min_def)
qed

lemma al_at_read16:
  assumes "al_at a (le16 v @ bs)"
  obtains a' where "aligned_read_uint16 a = Some (v, a')" "al_at a' bs" "al_length a' = al_length a" "al_buffer a' = al_buffer a"
proof -
  have ok: "al_ok a" using assms by (simp add: al_at_def)
  obtain a' where a': "aligned_advance_by a 2 = Some (al_cursor a, a')" "al_at a' bs" "al_length a' = al_length a"
    "al_buffer a' = al_buffer a"
    by (rule al_at_advance [OF assms, of 2]) simp_all
  have "al_get a' (unat (al_cursor a)) 2 = le16 v" using al_at_get [OF assms] a'(4) by (simp add: al_get_def)
  then have "aligned_read_uint16 a = Some (v, a')"
    using read_le(1) [OF ok] al_at_room [OF assms] a'(1) by (simp add: of_le16_le16)
  then show ?thesis using that a' by blast
qed

lemma al_at_read32:
  assumes "al_at a (le32 v @ bs)"
  obtains a' where "aligned_read_uint32 a = Some (v, a')" "al_at a' bs" "al_length a' = al_length a" "al_buffer a' = al_buffer a"
proof -
  have ok: "al_ok a" using assms by (simp add: al_at_def)
  obtain a' where a': "aligned_advance_by a 4 = Some (al_cursor a, a')" "al_at a' bs" "al_length a' = al_length a"
    "al_buffer a' = al_buffer a"
    by (rule al_at_advance [OF assms, of 4]) simp_all
  have "al_get a' (unat (al_cursor a)) 4 = le32 v" using al_at_get [OF assms] a'(4) by (simp add: al_get_def)
  then have "aligned_read_uint32 a = Some (v, a')"
    using read_le(2) [OF ok] al_at_room [OF assms] a'(1) by (simp add: of_le32_le32)
  then show ?thesis using that a' by blast
qed

lemma skip_field_at:
  assumes "al_at a (xs @ bs)" "present \<Longrightarrow> n = of_nat (length xs)" "\<not> present \<Longrightarrow> xs = []"
  obtains a' where "skip_field present n a = Parsed a'" "al_at a' bs"
proof (cases present)
  case True
  obtain a' where a': "aligned_advance_by a n = Some (al_cursor a, a')" "al_at a' bs"
    by (rule al_at_advance [OF assms(1) assms(2) [OF True]])
  have "\<not> aligned_remaining_space a < n"
    using al_at_length(2,4) [OF assms(1)] assms(2) [OF True] by (simp add: word_less_nat_alt unat_of_nat_small not_less)
  then show ?thesis using that a' True by (simp add: skip_field_def asserted_def)
qed (use assms that in \<open>simp add: skip_field_def\<close>)

section \<open>Writing in front\<close>

text \<open>The state after \<open>bs\<close> was written backwards in front of the cursor.\<close>

definition al_prepended :: "aligned \<Rightarrow> u8 list \<Rightarrow> aligned" where
  "al_prepended a bs = al_put (a\<lparr>al_cursor := al_cursor a - of_nat (length bs)\<rparr>) (unat (al_cursor a) - length bs) bs"

definition al_gap :: "aligned \<Rightarrow> nat \<Rightarrow> bool" where
  "al_gap a n \<longleftrightarrow> al_ok a \<and> n \<le> unat (al_cursor a)"

lemma unat_sub_small:
  assumes "n \<le> unat (c :: u32)"
  shows "unat (c - of_nat n) = unat c - n"
proof -
  have "unat (of_nat n :: u32) = n" using assms unsigned_less [of c, where 'a = nat] by (intro unat_of_nat_small) simp
  then show ?thesis using assms by (simp add: unat_sub word_le_nat_alt)
qed

lemma al_prepended_fields:
  assumes "al_gap a (length bs)"
  shows "unat (al_cursor (al_prepended a bs)) = unat (al_cursor a) - length bs"
    "al_length (al_prepended a bs) = al_length a" "length (al_buffer (al_prepended a bs)) = length (al_buffer a)"
    "drop (unat (al_cursor a) - length bs) (al_buffer (al_prepended a bs)) = bs @ drop (unat (al_cursor a)) (al_buffer a)"
    "take (unat (al_cursor a) - length bs) (al_buffer (al_prepended a bs)) = take (unat (al_cursor a) - length bs) (al_buffer a)"
  using assms unat_sub_small [of "length bs" "al_cursor a"]
  by (auto simp: al_gap_def al_ok_def word_le_nat_alt al_prepended_def al_put_def)

lemma al_prepended_gap:
  assumes "al_gap a (length bs + n)"
  shows "al_gap (al_prepended a bs) n"
proof -
  have g: "al_gap a (length bs)" using assms by (simp add: al_gap_def)
  show ?thesis using assms al_prepended_fields(1-3) [OF g] by (auto simp: al_gap_def al_ok_def word_le_nat_alt)
qed

lemma al_prepended_append:
  assumes "al_gap a (length xs + length ys)"
  shows "al_prepended (al_prepended a xs) ys = al_prepended a (ys @ xs)"
proof -
  have g: "al_gap a (length xs)" using assms by (simp add: al_gap_def)
  have c: "unat (al_cursor (al_prepended a xs)) = unat (al_cursor a) - length xs" by (rule al_prepended_fields(1) [OF g])
  have l: "length xs + length ys \<le> unat (al_cursor a)" "unat (al_cursor a) \<le> length (al_buffer a)"
    using assms by (auto simp: al_gap_def al_ok_def word_le_nat_alt)
  let ?c = "unat (al_cursor a)"
  have "take (?c - length xs - length ys) (al_buffer (al_prepended a xs)) = take (?c - length xs - length ys) (al_buffer a)"
    using l by (simp add: al_prepended_def al_put_def min_def)
  moreover have "drop (?c - length xs - length ys + length ys) (al_buffer (al_prepended a xs)) = xs @ drop ?c (al_buffer a)"
    using l al_prepended_fields(4) [OF g] by simp
  ultimately show ?thesis
    unfolding al_prepended_def [of "al_prepended a xs"] al_put_def c
    using l by (simp add: al_prepended_def [of a] al_put_def algebra_simps)
qed

lemma write_reverse_eq:
  "al_gap a 2 \<Longrightarrow> aligned_write_reverse_uint16 a v = Some (al_prepended a (le16 v))"
  "al_gap a 1 \<Longrightarrow> aligned_write_reverse_uint8 a w = Some (al_prepended a [w])"
proof -
  have c: "al_cursor a - of_nat n < al_length a" if "al_gap a n" "0 < n" for n
    using that unat_sub_small [of n "al_cursor a"] by (auto simp: al_gap_def al_ok_def word_le_nat_alt word_less_nat_alt)
  show "aligned_write_reverse_uint16 a v = Some (al_prepended a (le16 v))" if "al_gap a 2"
    using c [OF that] that unat_sub_small [of 2 "al_cursor a"]
    unfolding aligned_write_reverse_uint16_def le16_def [symmetric]
    by (simp add: aligned_reverse_by_def al_prepended_def al_gap_def Let_def)
  show "aligned_write_reverse_uint8 a w = Some (al_prepended a [w])" if "al_gap a 1"
    using c [OF that] that unat_sub_small [of 1 "al_cursor a"]
    by (simp add: aligned_write_reverse_uint8_def aligned_reverse_by_def al_prepended_def al_gap_def Let_def)
qed

section \<open>The datagram of a fragment\<close>

text \<open>The header as it lies in the datagram.\<close>

definition wire_header :: "to_client_packet \<Rightarrow> u16 \<Rightarrow> bool \<Rightarrow> u16 \<Rightarrow> u16 \<Rightarrow> u16 \<Rightarrow> u8 list" where
  "wire_header w seq hasAckResponse ackResponse opcode fragIndex =
     le16 (if hasAckResponse then cp_header w OR TLG_PACKET_HasAckResponse else cp_header w)
     @ le16 seq
     @ (if hasAckResponse then le16 ackResponse else [])
     @ (if has_bit (cp_header w) TLG_PACKET_HasAckRequest then le16 (to_network_uint16 (cp_ackRequest w + fragIndex)) else [])
     @ (if has_bit (cp_header w) TLG_PACKET_IsFragment
        then le16 (to_network_uint16 (cp_fragGroup w)) @ le16 (to_network_uint16 fragIndex)
             @ le16 (to_network_uint16 (cp_fragCount w))
        else [])
     @ (if has_bit (cp_header w) TLG_PACKET_HasAckRequest
        then [cp_ackCounterAlwaysOne w, cp_ackCounterRequest w + ucast fragIndex] else [])
     @ (if fragIndex = 0 \<and> opcode \<noteq> 0 then le16 opcode else [])"

definition datagram :: "u8 list \<Rightarrow> u8 list" where
  "datagram bs = bs @ le32 (crc_calc32_network bs)"

lemma wire_header_length: "length (wire_header w seq r ack opcode i) \<le> 18"
  by (simp add: wire_header_def)

lemma al_prepended_Nil [simp]: "al_prepended a [] = a"
  by (simp add: al_prepended_def al_put_def)

lemma prepended_reverse16:
  assumes "al_gap a 18" "length ys + 2 \<le> 18"
  shows "(if p then aligned_write_reverse_uint16 (al_prepended a ys) v else Some (al_prepended a ys)) =
    Some (al_prepended a ((if p then le16 v else []) @ ys))"
  using assms al_prepended_gap [of a ys 2] al_prepended_append [of a ys "le16 v"] write_reverse_eq(1) [of "al_prepended a ys" v]
  by (auto simp: al_gap_def)

lemma prepended_reverse8:
  assumes "al_gap a 18" "length ys + 1 \<le> 18"
  shows "(if p then aligned_write_reverse_uint8 (al_prepended a ys) v else Some (al_prepended a ys)) =
    Some (al_prepended a ((if p then [v] else []) @ ys))"
  using assms al_prepended_gap [of a ys 1] al_prepended_append [of a ys "[v]"] write_reverse_eq(2) [of "al_prepended a ys" v]
  by (auto simp: al_gap_def)

text \<open>Closing a datagram: the checksum behind the payload.\<close>

lemma close_datagram:
  assumes a: "al_gap a (length hdr)" "al_room a (unat len + 4)"
    and bs: "bs = hdr @ take (unat len) (drop (unat (al_cursor a)) (al_buffer a))"
  defines "b \<equiv> al_prepended a hdr"
  obtains c a' where
    "aligned_advance_by b (len + (al_cursor a - al_cursor b)) = Some (al_cursor b, c)"
    "take (unat (len + (al_cursor a - al_cursor b))) (drop (unat (al_cursor b)) (al_buffer c)) = bs"
    "aligned_write_uint32 c (crc_calc32_network bs) = Some a'"
    "take (unat (len + (al_cursor a - al_cursor b) + 4)) (drop (unat (al_cursor b)) (al_buffer a')) = datagram bs"
    "al_ok a'" "al_length a' = al_length a" "unat (al_cursor a') = unat (al_cursor a) + unat len + 4"
    "length (al_buffer a') = length (al_buffer a)"
    "drop (unat (al_cursor a')) (al_buffer a') = drop (unat (al_cursor a')) (al_buffer a)"
proof -
  note f = al_prepended_fields [OF a(1), folded b_def]
  let ?c = "unat (al_cursor a)" let ?n = "length hdr" let ?l = "unat len"
  have A: "al_ok a" "?n \<le> ?c" "?c + ?l + 4 \<le> unat (al_length a)" "unat (al_length a) \<le> length (al_buffer a)"
    using a by (auto simp: al_gap_def al_room_def al_ok_def)
  have small: "unat (al_length a) < 2 ^ 32" using unsigned_less [of "al_length a"] by simp
  have "al_cursor a - al_cursor b = of_nat ?n" by (simp add: b_def al_prepended_def al_put_def)
  then have len: "len + (al_cursor a - al_cursor b) = of_nat (length bs)" and lbs: "length bs = ?n + ?l"
    using A by (simp_all add: bs)
  then have ub: "unat (len + (al_cursor a - al_cursor b)) = length bs"
    using A small by (simp only: len) (intro unat_of_nat_small, simp)
  have ob: "al_ok b" using A f by (auto simp: al_ok_def word_le_nat_alt)
  have rb: "al_room b (length bs)" using A f lbs by (simp add: al_room_def)
  let ?b = "b\<lparr>al_cursor := al_cursor b + of_nat (length bs)\<rparr>"
  have adv: "aligned_advance_by b (len + (al_cursor a - al_cursor b)) = Some (al_cursor b, ?b)"
    using advance_by [OF al_room_no_wrap [OF rb]] rb unfolding len by simp
  have db: "drop (unat (al_cursor b)) (al_buffer b) = hdr @ drop ?c (al_buffer a)" using f by simp
  have tb: "take (length bs) (drop (unat (al_cursor b)) (al_buffer ?b)) = bs"
    using db lbs by (simp add: bs)
  have cb: "unat (al_cursor ?b) = ?c + ?l"
    using unat_add_cursor [of "al_cursor b" "length bs"] f A small lbs by simp
  have okb: "al_ok ?b" using ob cb A f by (simp add: al_ok_def word_le_nat_alt)
  let ?crc = "le32 (crc_calc32_network bs)"
  have room: "al_room ?b (length ?crc)" using cb A f by (simp add: al_room_def)
  let ?a' = "al_written ?b ?crc"
  have wr: "aligned_write_uint32 ?b (crc_calc32_network bs) = Some ?a'"
    using u32_codec.write_eq [OF al_room_no_wrap, of ?b "crc_calc32_network bs"] room by simp
  note w = al_written_simps [OF okb room]
  have ca: "unat (al_cursor ?a') = ?c + ?l + 4" using w(2) cb by simp
  have buf: "al_buffer ?a' = take (?c + ?l) (al_buffer b) @ ?crc @ drop (?c + ?l + 4) (al_buffer b)"
    using cb by (simp add: al_written_def al_put_def)
  have tk: "take (?c + ?l) (al_buffer b) = take (unat (al_cursor b)) (al_buffer b) @ bs"
    using tb take_add [of "unat (al_cursor b)" "length bs" "al_buffer b"] f(1) lbs A by simp
  have "drop (unat (al_cursor b)) (al_buffer ?a') = bs @ ?crc @ drop (?c + ?l + 4) (al_buffer b)"
    unfolding buf tk using f(1,3) A by simp
  moreover have "unat (len + (al_cursor a - al_cursor b) + 4) = length bs + 4"
    using unat_add_cursor [of "of_nat (length bs)" 4] ub A small lbs unfolding len by simp
  ultimately have dg: "take (unat (len + (al_cursor a - al_cursor b) + 4)) (drop (unat (al_cursor b)) (al_buffer ?a')) = datagram bs"
    by (simp add: datagram_def)
  have "drop ?n (drop (?c - ?n) (al_buffer b)) = drop ?c (al_buffer a)" unfolding f(4) by simp
  then have "drop ?c (al_buffer b) = drop ?c (al_buffer a)" using A(2) by simp
  then have "drop (?c + ?l + 4) (al_buffer b) = drop (?c + ?l + 4) (al_buffer a)" by (rule drop_agree) simp
  then have dr: "drop (unat (al_cursor ?a')) (al_buffer ?a') = drop (unat (al_cursor ?a')) (al_buffer a)"
    unfolding ca buf using A f(3) by simp
  show ?thesis
    by (rule that [OF adv _ wr dg w(1)]) (use tb ub ca w f dr in simp_all)
qed

text \<open>What sending a fragment does.\<close>

lemma ack_send_fragment_eq:
  assumes a: "al_gap a 18" "al_room a (unat len + 4)"
    and seq: "udpc_next_seq udpc = (seq, udpc1)"
    and bs: "bs = wire_header w seq resp ack opcode i @ take (unat len) (drop (unat (al_cursor a)) (al_buffer a))"
  obtains a' where
    "ack_send_fragment udpc w a len opcode resp ack i = Some (udpc1\<lparr>uc_sent := uc_sent udpc1 @ [datagram bs]\<rparr>, a')"
    "al_ok a'" "al_length a' = al_length a" "unat (al_cursor a') = unat (al_cursor a) + unat len + 4"
    "length (al_buffer a') = length (al_buffer a)"
    "drop (unat (al_cursor a')) (al_buffer a') = drop (unat (al_cursor a')) (al_buffer a)"
proof -
  let ?hdr = "wire_header w seq resp ack opcode i" let ?b = "al_prepended a ?hdr"
  have g: "al_gap a (length ?hdr)" using a(1) wire_header_length [of w seq resp ack opcode i] by (simp add: al_gap_def)
  obtain c a' where c: "aligned_advance_by ?b (len + (al_cursor a - al_cursor ?b)) = Some (al_cursor ?b, c)"
    "take (unat (len + (al_cursor a - al_cursor ?b))) (drop (unat (al_cursor ?b)) (al_buffer c)) = bs"
    "aligned_write_uint32 c (crc_calc32_network bs) = Some a'"
    "take (unat (len + (al_cursor a - al_cursor ?b) + 4)) (drop (unat (al_cursor ?b)) (al_buffer a')) = datagram bs"
    and post: "al_ok a'" "al_length a' = al_length a" "unat (al_cursor a') = unat (al_cursor a) + unat len + 4"
    "length (al_buffer a') = length (al_buffer a)"
    "drop (unat (al_cursor a')) (al_buffer a') = drop (unat (al_cursor a')) (al_buffer a)"
    by (rule close_datagram [OF g a(2) bs])
  note r16 = prepended_reverse16 [OF a(1)] and r8 = prepended_reverse8 [OF a(1)]
  have start: "(if fi then aligned_write_reverse_uint16 a v else Some a) = Some (al_prepended a ((if fi then le16 v else []) @ []))" for fi v
    using r16 [of "[]" fi v] by (cases fi) simp_all
  have last: "aligned_write_reverse_uint16 (al_prepended a ys) v = Some (al_prepended a (le16 v @ ys))"
    if "length ys + 2 \<le> 18" for ys v
    using r16 [OF that, of True v] by simp
  have hdr: "?hdr = le16 (if resp then cp_header w OR TLG_PACKET_HasAckResponse else cp_header w) @ le16 seq
      @ (if resp then le16 ack else [])
      @ (if has_bit (cp_header w) TLG_PACKET_HasAckRequest then le16 (to_network_uint16 (cp_ackRequest w + i)) else [])
      @ (if has_bit (cp_header w) TLG_PACKET_IsFragment then le16 (to_network_uint16 (cp_fragGroup w)) else [])
      @ (if has_bit (cp_header w) TLG_PACKET_IsFragment then le16 (to_network_uint16 i) else [])
      @ (if has_bit (cp_header w) TLG_PACKET_IsFragment then le16 (to_network_uint16 (cp_fragCount w)) else [])
      @ (if has_bit (cp_header w) TLG_PACKET_HasAckRequest then [cp_ackCounterAlwaysOne w] else [])
      @ (if has_bit (cp_header w) TLG_PACKET_HasAckRequest then [cp_ackCounterRequest w + ucast i] else [])
      @ (if i = 0 \<and> opcode \<noteq> 0 then le16 opcode else []) @ []"
    by (simp add: wire_header_def)
  have "ack_send_fragment udpc w a len opcode resp ack i = Some (udpc1\<lparr>uc_sent := uc_sent udpc1 @ [datagram bs]\<rparr>, a')"
    unfolding ack_send_fragment_def Let_def seq prod.case has_bit_def [symmetric]
    apply (simp only: start bind.bind_lunit)
    apply ((subst r8 | subst r16 | subst last), simp, simp only: bind.bind_lunit)+
    apply (simp only: hdr [symmetric] append_assoc c prod.case bind.bind_lunit udpc_send_immediate_def)
    done
  then show ?thesis using that post by blast
qed

section \<open>Taking a datagram apart\<close>

lemma network_involution [simp]: "to_network_uint16 (to_network_uint16 v) = v"
proof (rule bit_word_eqI)
  fix n assume "n < LENGTH(16)"
  then show "bit (to_network_uint16 (to_network_uint16 v)) n = bit v n"
    unfolding to_network_uint16_def
    by (auto simp: bit_or_iff bit_push_bit_iff bit_drop_bit_eq dest: bit_imp_le_length)
qed

text \<open>The headers \<open>ack_schedule_packet\<close> makes: nothing, an ack request, and an ack request on fragments.\<close>

definition scheduled_header :: "u16 \<Rightarrow> bool" where
  "scheduled_header hdr \<longleftrightarrow> hdr = 0 \<or> hdr = TLG_PACKET_HasAckRequest OR TLG_PACKET_HasAckCounter
     \<or> hdr = (TLG_PACKET_HasAckRequest OR TLG_PACKET_HasAckCounter) OR TLG_PACKET_IsFragment"

lemmas header_bits = TLG_PACKET_HasAckRequest_def TLG_PACKET_IsClosing_def TLG_PACKET_IsFragment_def
  TLG_PACKET_HasAckCounter_def TLG_PACKET_IsFirstPacket_def TLG_PACKET_IsClosing2_def TLG_PACKET_HasAckResponse_def
  TLG_PACKET_UnknownBit11_def TLG_PACKET_UnknownBit12_def TLG_PACKET_UnknownBit13_def TLG_PACKET_UnknownBit14_def
  TLG_PACKET_UnknownBit15_def

lemma scheduled_header_bits:
  fixes resp :: bool
  assumes "scheduled_header hdr"
  defines "hdb \<equiv> (if resp then hdr OR TLG_PACKET_HasAckResponse else hdr)"
  shows "\<not> has_bit hdb TLG_PACKET_UnknownBit11" "\<not> has_bit hdb TLG_PACKET_UnknownBit12"
    "\<not> has_bit hdb TLG_PACKET_UnknownBit13" "\<not> has_bit hdb TLG_PACKET_UnknownBit14"
    "\<not> has_bit hdb TLG_PACKET_UnknownBit15" "\<not> has_bit hdb TLG_PACKET_IsFirstPacket"
    "\<not> has_bit hdb (TLG_PACKET_IsClosing OR TLG_PACKET_IsClosing2)"
    "has_bit hdb TLG_PACKET_HasAckResponse \<longleftrightarrow> resp"
    "has_bit hdb TLG_PACKET_HasAckRequest \<longleftrightarrow> has_bit hdr TLG_PACKET_HasAckRequest"
    "has_bit hdb TLG_PACKET_HasAckCounter \<longleftrightarrow> has_bit hdr TLG_PACKET_HasAckRequest"
    "has_bit hdb TLG_PACKET_IsFragment \<longleftrightarrow> has_bit hdr TLG_PACKET_IsFragment"
    "has_bit hdr TLG_PACKET_IsFragment \<Longrightarrow> has_bit hdr TLG_PACKET_HasAckRequest"
  using assms(1) by (auto simp: hdb_def scheduled_header_def has_bit_def header_bits)

lemma recv_skip_rare_none:
  assumes "\<not> has_bit hdr TLG_PACKET_UnknownBit11" "\<not> has_bit hdr TLG_PACKET_UnknownBit12"
    "\<not> has_bit hdr TLG_PACKET_UnknownBit13" "\<not> has_bit hdr TLG_PACKET_UnknownBit14"
    "\<not> has_bit hdr TLG_PACKET_UnknownBit15"
  shows "recv_skip_rare hdr a = Parsed a"
  using assms by (simp add: recv_skip_rare_def skip_field_def)

lemma recv_ack_request_at:
  assumes "al_at a ((if has_bit hdr TLG_PACKET_HasAckRequest then le16 (to_network_uint16 v) else []) @ bs)"
  obtains a' where "recv_ack_request hdr a = Parsed (if has_bit hdr TLG_PACKET_HasAckRequest then v else 0, a')" "al_at a' bs"
proof (cases "has_bit hdr TLG_PACKET_HasAckRequest")
  case True
  then have at: "al_at a (le16 (to_network_uint16 v) @ bs)" using assms by simp
  have "\<not> aligned_remaining_space a < 2" using al_at_length(4) [OF at] by (simp add: word_less_nat_alt)
  moreover obtain a1 where "aligned_read_uint16 a = Some (to_network_uint16 v, a1)" "al_at a1 bs" by (rule al_at_read16 [OF at])
  ultimately show ?thesis using that True by (simp add: recv_ack_request_def asserted_def)
qed (use assms that in \<open>simp add: recv_ack_request_def\<close>)

lemma recv_fragment_info_at:
  assumes "al_at a ((if has_bit hdr TLG_PACKET_IsFragment
      then le16 g @ le16 (to_network_uint16 i) @ le16 (to_network_uint16 n) else []) @ bs)"
    and "\<not> has_bit hdr TLG_PACKET_IsFragment \<Longrightarrow> i = 0"
  obtains a' where "recv_fragment_info hdr a = Parsed (i, if has_bit hdr TLG_PACKET_IsFragment then n else 0, a')" "al_at a' bs"
proof (cases "has_bit hdr TLG_PACKET_IsFragment")
  case True
  then have at: "al_at a (le16 g @ le16 (to_network_uint16 i) @ le16 (to_network_uint16 n) @ bs)" using assms by simp
  obtain a1 where a1: "aligned_advance_by a 2 = Some (al_cursor a, a1)"
    "al_at a1 (le16 (to_network_uint16 i) @ le16 (to_network_uint16 n) @ bs)"
    by (rule al_at_advance [OF at, of 2]) simp_all
  obtain a2 where a2: "aligned_read_uint16 a1 = Some (to_network_uint16 i, a2)" "al_at a2 (le16 (to_network_uint16 n) @ bs)"
    by (rule al_at_read16 [OF a1(2)])
  obtain a3 where a3: "aligned_read_uint16 a2 = Some (to_network_uint16 n, a3)" "al_at a3 bs"
    by (rule al_at_read16 [OF a2(2)])
  have "\<not> aligned_remaining_space a < 2 * 3" using al_at_length(4) [OF at] by (simp add: word_less_nat_alt)
  then show ?thesis using that a1(1) a2(1) a3 True by (simp add: recv_fragment_info_def asserted_def)
qed (use assms that in \<open>simp add: recv_fragment_info_def\<close>)

lemma recv_opcode_at:
  assumes "al_at a ((if i = 0 then le16 opcode else []) @ bs)"
  obtains a' where "recv_opcode i a = Parsed (if i = 0 then opcode else 0, a')" "al_at a' bs"
proof (cases "i = 0")
  case True
  then have at: "al_at a (le16 opcode @ bs)" using assms by simp
  obtain a1 where a1: "aligned_read_uint16 a = Some (opcode, a1)" "al_at a1 bs" by (rule al_at_read16 [OF at])
  have "2 \<le> aligned_remaining_space a" using al_at_length(4) [OF at] by (simp add: word_le_nat_alt)
  then show ?thesis using that a1 True by (simp add: recv_opcode_def asserted_def)
qed (use assms that in \<open>simp add: recv_opcode_def\<close>)

text \<open>Everything behind the ack response.\<close>

lemma recv_rest_at:
  fixes hdr :: u16
  assumes bits: "\<not> has_bit hdr TLG_PACKET_UnknownBit11" "\<not> has_bit hdr TLG_PACKET_UnknownBit12"
    "\<not> has_bit hdr TLG_PACKET_UnknownBit13" "\<not> has_bit hdr TLG_PACKET_UnknownBit14"
    "\<not> has_bit hdr TLG_PACKET_UnknownBit15" "\<not> has_bit hdr TLG_PACKET_IsFirstPacket"
    "\<not> has_bit hdr (TLG_PACKET_IsClosing OR TLG_PACKET_IsClosing2)"
    "has_bit hdr TLG_PACKET_HasAckCounter = has_bit hdr TLG_PACKET_HasAckRequest"
    and i: "\<not> has_bit hdr TLG_PACKET_IsFragment \<Longrightarrow> i = 0"
    and at: "al_at a ((if has_bit hdr TLG_PACKET_HasAckRequest then le16 (to_network_uint16 v) else [])
      @ (if has_bit hdr TLG_PACKET_IsFragment then le16 g @ le16 (to_network_uint16 i) @ le16 (to_network_uint16 n) else [])
      @ (if has_bit hdr TLG_PACKET_HasAckRequest then [x, y] else []) @ (if i = 0 then le16 opcode else []) @ payload)"
  obtains b where "al_at b payload" "udpc_recv_rest alloc udpc hdr a False =
    map_option (Pair True) (udpc_deliver alloc udpc b (if i = 0 then opcode else 0)
      (if has_bit hdr TLG_PACKET_HasAckRequest then v else 0) (if has_bit hdr TLG_PACKET_IsFragment then n else 0) False)"
proof -
  obtain a1 where a1: "recv_ack_request hdr a = Parsed (if has_bit hdr TLG_PACKET_HasAckRequest then v else 0, a1)"
    "al_at a1 ((if has_bit hdr TLG_PACKET_IsFragment then le16 g @ le16 (to_network_uint16 i) @ le16 (to_network_uint16 n) else [])
      @ (if has_bit hdr TLG_PACKET_HasAckRequest then [x, y] else []) @ (if i = 0 then le16 opcode else []) @ payload)"
    by (rule recv_ack_request_at [OF at])
  obtain a2 where a2: "recv_fragment_info hdr a1 = Parsed (i, if has_bit hdr TLG_PACKET_IsFragment then n else 0, a2)"
    "al_at a2 ((if has_bit hdr TLG_PACKET_HasAckRequest then [x, y] else []) @ (if i = 0 then le16 opcode else []) @ payload)"
    by (rule recv_fragment_info_at [OF a1(2) i])
  obtain a3 where a3: "skip_field (has_bit hdr TLG_PACKET_HasAckCounter) (if has_bit hdr TLG_PACKET_HasAckRequest then 2 else 1) a2
      = Parsed a3" "al_at a3 ((if i = 0 then le16 opcode else []) @ payload)"
    by (rule skip_field_at [OF a2(2), where present = "has_bit hdr TLG_PACKET_HasAckCounter"
          and n = "if has_bit hdr TLG_PACKET_HasAckRequest then 2 else 1"]) (use bits(8) in auto)
  obtain b where b: "recv_opcode i a3 = Parsed (if i = 0 then opcode else 0, b)" "al_at b payload"
    by (rule recv_opcode_at [OF a3(2)])
  have "pbind (recv_skip_rare hdr a) (recv_ack_request hdr) =
      Parsed (if has_bit hdr TLG_PACKET_HasAckRequest then v else 0, a1)"
    using recv_skip_rare_none [OF bits(1-5)] a1(1) by simp
  moreover have "recv_to_payload hdr a1 = Parsed (if i = 0 then opcode else 0, if has_bit hdr TLG_PACKET_IsFragment then n else 0, b)"
    using a2(1) a3(1) b(1) by (simp add: recv_to_payload_def recv_skip_counters_def)
  ultimately show ?thesis using that b(2) bits(6,7) by (simp add: udpc_recv_rest_def Let_def)
qed

text \<open>The checksum.\<close>

lemma recv_protocol_datagram:
  assumes len: "length bs + 4 < 2 ^ 32"
  obtains a where "al_at a bs" "udpc_recv_protocol alloc h peer (datagram bs) (of_nat (length (datagram bs))) suppressRecv =
    udpc_recv_checked alloc h peer a suppressRecv"
proof -
  let ?d = "datagram bs"
  have l: "length ?d = length bs + 4" by (simp add: datagram_def)
  have "unat (of_nat (length ?d) :: u32) = length ?d" "unat (of_nat (length bs) :: u32) = length bs"
    by (rule unat_of_nat_small; use len l in simp)+
  note ud = l this
  have ld: "(of_nat (length ?d) :: u32) - of_nat TLG_PACKET_CRC_SIZE = of_nat (length bs)"
    unfolding ud(1) by (simp add: TLG_PACKET_CRC_SIZE_def)
  have at0: "al_at (aligned_init ?d (of_nat (length ?d))) (bs @ le32 (crc_calc32_network bs))"
    using ud by (simp add: al_at_unfold al_ok_def aligned_init_def) (simp add: datagram_def)
  obtain c where c: "aligned_advance_by (aligned_init ?d (of_nat (length ?d))) (of_nat (length bs)) =
      Some (al_cursor (aligned_init ?d (of_nat (length ?d))), c)"
    "al_at c (le32 (crc_calc32_network bs) @ [])" "al_buffer c = al_buffer (aligned_init ?d (of_nat (length ?d)))"
    by (rule al_at_advance [OF at0 refl]) simp
  obtain e where e: "aligned_read_uint32 c = Some (crc_calc32_network bs, e)" "al_buffer e = al_buffer c"
    by (rule al_at_read32 [OF c(2)])
  have crc: "take (unat (of_nat (length bs) :: u32)) ?d = bs" using ud(3) by (simp add: datagram_def)
  let ?a = "aligned_set_length (aligned_reset_cursor e) (of_nat (length bs))"
  have "al_at ?a bs"
    using ud crc c(3) e(2)
    by (simp add: al_at_unfold al_ok_def aligned_init_def aligned_set_length_def aligned_reset_cursor_def)
  then show ?thesis
    using that unfolding udpc_recv_protocol_def Let_def ld c(1) bind.bind_lunit prod.case e(1) crc by simp
qed

text \<open>The fixed part of the header and the ack response.\<close>

lemma recv_checked_at:
  assumes at: "al_at a (le16 hdr @ le16 seq @ (if resp then le16 ack else []) @ rest)"
    and resp: "has_bit hdr TLG_PACKET_HasAckResponse \<longleftrightarrow> resp" "rest \<noteq> []"
    and am: "(h', am) = (if resp then ack_recv_ack_response h (uc_ackMgr peer) ack else (h, uc_ackMgr peer))"
  obtains b where "al_at b rest" "udpc_recv_checked alloc h peer a suppressRecv =
    map_option (\<lambda>(r, u). (r, h', u)) (udpc_recv_rest alloc (peer\<lparr>uc_ackMgr := am\<rparr>) hdr b suppressRecv)"
proof -
  obtain a1 where a1: "aligned_read_uint16 a = Some (hdr, a1)" "al_at a1 (le16 seq @ (if resp then le16 ack else []) @ rest)"
    by (rule al_at_read16 [OF at])
  obtain a2 where a2: "aligned_advance_by a1 2 = Some (al_cursor a1, a2)" "al_at a2 ((if resp then le16 ack else []) @ rest)"
    by (rule al_at_advance [OF a1(2), of 2]) simp_all
  show ?thesis
  proof (cases resp)
    case False
    then show ?thesis using that [of a2] a1(1) a2 am resp(1) by (simp add: udpc_recv_checked_def)
  next
    case True
    then have at2: "al_at a2 (le16 ack @ rest)" using a2(2) by simp
    obtain a3 where a3: "aligned_read_uint16 a2 = Some (ack, a3)" "al_at a3 rest" by (rule al_at_read16 [OF at2])
    have "aligned_remaining_space a3 \<noteq> 0" using al_at_length(4) [OF a3(2)] resp(2) by fastforce
    moreover have "ack_recv_ack_response h (uc_ackMgr peer) ack = (h', am)" using am True by simp
    ultimately show ?thesis using that [OF a3(2)] a1(1) a2(1) a3(1) True resp(1)
      by (simp add: udpc_recv_checked_def)
  qed
qed

lemma recv_datagram:
  fixes seq :: u16
  assumes w: "scheduled_header (cp_header w)" and i: "\<not> has_bit (cp_header w) TLG_PACKET_IsFragment \<Longrightarrow> i = 0"
    and op: "opcode \<noteq> 0" and len: "length payload < 2 ^ 31"
    and am: "(h', am) = (if resp then ack_recv_ack_response h (uc_ackMgr peer) ack else (h, uc_ackMgr peer))"
  defines "d \<equiv> datagram (wire_header w seq resp ack opcode i @ payload)"
  obtains b where "al_at b payload"
    "udpc_recv_protocol alloc h peer d (of_nat (length d)) False =
      map_option (\<lambda>u. (True, h', u))
        (udpc_deliver alloc (peer\<lparr>uc_ackMgr := am\<rparr>) b (if i = 0 then opcode else 0)
          (if has_bit (cp_header w) TLG_PACKET_HasAckRequest then cp_ackRequest w + i else 0)
          (if has_bit (cp_header w) TLG_PACKET_IsFragment then cp_fragCount w else 0) False)"
proof -
  let ?hdr = "if resp then cp_header w OR TLG_PACKET_HasAckResponse else cp_header w"
  note bits = scheduled_header_bits(1-11) [OF w, of resp]
  let ?rest = "(if has_bit ?hdr TLG_PACKET_HasAckRequest then le16 (to_network_uint16 (cp_ackRequest w + i)) else [])
      @ (if has_bit ?hdr TLG_PACKET_IsFragment then le16 (to_network_uint16 (cp_fragGroup w))
           @ le16 (to_network_uint16 i) @ le16 (to_network_uint16 (cp_fragCount w)) else [])
      @ (if has_bit ?hdr TLG_PACKET_HasAckRequest then [cp_ackCounterAlwaysOne w, cp_ackCounterRequest w + ucast i] else [])
      @ (if i = 0 then le16 opcode else []) @ payload"
  let ?bs = "wire_header w seq resp ack opcode i @ payload"
  have "length ?bs + 4 < 2 ^ 32" using len wire_header_length [of w seq resp ack opcode i] by simp
  then obtain a where a: "al_at a ?bs"
    "udpc_recv_protocol alloc h peer d (of_nat (length d)) False = udpc_recv_checked alloc h peer a False"
    unfolding d_def by (rule recv_protocol_datagram)
  have bs: "?bs = le16 ?hdr @ le16 seq @ (if resp then le16 ack else []) @ ?rest"
    using op by (simp add: wire_header_def bits)
  have hb: "has_bit ?hdr TLG_PACKET_HasAckCounter = has_bit ?hdr TLG_PACKET_HasAckRequest"
    "\<not> has_bit ?hdr TLG_PACKET_IsFragment \<Longrightarrow> i = 0" using bits i by simp_all
  have ne: "?rest \<noteq> []" using hb(2) by (cases "i = 0") (auto simp: le16_def)
  obtain a3 where a3: "al_at a3 ?rest" "udpc_recv_checked alloc h peer a False =
      map_option (\<lambda>(r, u). (r, h', u)) (udpc_recv_rest alloc (peer\<lparr>uc_ackMgr := am\<rparr>) ?hdr a3 False)"
    by (rule recv_checked_at [OF a(1) [unfolded bs] bits(8) ne am])
  obtain b where b: "al_at b payload" "udpc_recv_rest alloc (peer\<lparr>uc_ackMgr := am\<rparr>) ?hdr a3 False =
      map_option (Pair True) (udpc_deliver alloc (peer\<lparr>uc_ackMgr := am\<rparr>) b (if i = 0 then opcode else 0)
        (if has_bit ?hdr TLG_PACKET_HasAckRequest then cp_ackRequest w + i else 0)
        (if has_bit ?hdr TLG_PACKET_IsFragment then cp_fragCount w else 0) False)"
    by (rule recv_rest_at [OF bits(1-7) hb a3(1)])
  show ?thesis
    by (rule that [OF b(1)]) (simp only: a(2) a3(2) b(2) bits(9,11) option.map_comp o_def prod.case)
qed

definition demo_sent :: to_client_packet where
  "demo_sent = \<lparr>cp_header = TLG_PACKET_HasAckRequest OR TLG_PACKET_HasAckCounter, cp_ackRequest = 1, cp_fragGroup = 0,
     cp_fragCount = 0, cp_ackCounterAlwaysOne = 1, cp_ackCounterRequest = 1, cp_ackTimestamp = 0, cp_packet = 1\<rparr>"

text \<open>The second of three fragments, and its payload behind a gap for the header.\<close>

definition demo_fragment :: to_client_packet where
  "demo_fragment = demo_sent\<lparr>cp_header := cp_header demo_sent OR TLG_PACKET_IsFragment, cp_fragGroup := 5, cp_fragCount := 3\<rparr>"

definition demo_gap :: aligned where
  "demo_gap = \<lparr>al_cursor = 18, al_length = 25, al_buffer = replicate 18 0 @ [1, 2, 3, 0, 0, 0, 0]\<rparr>"

text \<open>C3. The two sides of the connection agree on the wire format. Whatever header
  \<open>ack_schedule_packet\<close> gave a packet, \<open>ack_send_fragment\<close> sends exactly one datagram for any of its
  fragments, with or without an ack response in it, from a buffer with a gap of 18 bytes before the
  fragment and room for the checksum behind it; and \<open>udpc_recv_protocol\<close> accepts that datagram: the
  checksum matches, the ack response reaches \<open>ack_recv_ack_response\<close>, and the fragment is handed on with
  exactly the bytes that lay in the buffer, the opcode (in the first fragment), the ack number and the
  number of fragments it was sent with.\<close>

theorem recv_sent_datagram:
  assumes w: "scheduled_header (cp_header w)" and i: "\<not> has_bit (cp_header w) TLG_PACKET_IsFragment \<Longrightarrow> i = 0"
    and op: "opcode \<noteq> 0" and len: "unat len < 2 ^ 31"
    and a: "al_gap a 18" "al_room a (unat len + 4)"
    and am: "(h', am) = (if resp then ack_recv_ack_response h (uc_ackMgr peer) ack else (h, uc_ackMgr peer))"
  shows "\<exists>udpc' a' d b. ack_send_fragment udpc w a len opcode resp ack i = Some (udpc', a')
    \<and> uc_sent udpc' = uc_sent udpc @ [d]
    \<and> al_ok b \<and> aligned_rest b = take (unat len) (drop (unat (al_cursor a)) (al_buffer a))
    \<and> udpc_recv_protocol alloc h peer d (of_nat (length d)) False =
      map_option (\<lambda>u. (True, h', u))
        (udpc_deliver alloc (peer\<lparr>uc_ackMgr := am\<rparr>) b (if i = 0 then opcode else 0)
          (if has_bit (cp_header w) TLG_PACKET_HasAckRequest then cp_ackRequest w + i else 0)
          (if has_bit (cp_header w) TLG_PACKET_IsFragment then cp_fragCount w else 0) False)"
proof -
  obtain seq udpc1 where seq: "udpc_next_seq udpc = (seq, udpc1)" by (cases "udpc_next_seq udpc")
  then have sent: "uc_sent udpc1 = uc_sent udpc" by (auto simp: udpc_next_seq_def case_prod_beta)
  let ?payload = "take (unat len) (drop (unat (al_cursor a)) (al_buffer a))"
  let ?d = "datagram (wire_header w seq resp ack opcode i @ ?payload)"
  obtain a' where s: "ack_send_fragment udpc w a len opcode resp ack i = Some (udpc1\<lparr>uc_sent := uc_sent udpc1 @ [?d]\<rparr>, a')"
    by (rule ack_send_fragment_eq [OF a seq refl])
  have lp: "length ?payload < 2 ^ 31" using len by simp
  obtain b where "al_at b ?payload"
    "udpc_recv_protocol alloc h peer ?d (of_nat (length ?d)) False =
      map_option (\<lambda>u. (True, h', u))
        (udpc_deliver alloc (peer\<lparr>uc_ackMgr := am\<rparr>) b (if i = 0 then opcode else 0)
          (if has_bit (cp_header w) TLG_PACKET_HasAckRequest then cp_ackRequest w + i else 0)
          (if has_bit (cp_header w) TLG_PACKET_IsFragment then cp_fragCount w else 0) False)"
    by (rule recv_datagram [OF w i op lp am])
  then show ?thesis using s sent by (auto simp: al_at_def)
qed

theorem recv_sent_datagram_witness:
  "\<exists>udpc' a' d b. ack_send_fragment demo_client demo_fragment demo_gap 3 7 True 512 1 = Some (udpc', a')
     \<and> uc_sent udpc' = uc_sent demo_client @ [d] \<and> al_ok b \<and> aligned_rest b = [1, 2, 3]
     \<and> udpc_recv_protocol (\<lambda>_. True) (\<lambda>_. None) demo_client d (of_nat (length d)) False =
       map_option (\<lambda>u. (True, fst (ack_recv_ack_response (\<lambda>_. None) (uc_ackMgr demo_client) 512), u))
         (udpc_deliver (\<lambda>_. True)
           (demo_client\<lparr>uc_ackMgr := snd (ack_recv_ack_response (\<lambda>_. None) (uc_ackMgr demo_client) 512)\<rparr>) b 0 2 3 False)"
proof -
  have hdr: "scheduled_header (cp_header demo_fragment)" "has_bit (cp_header demo_fragment) TLG_PACKET_IsFragment"
    "has_bit (cp_header demo_fragment) TLG_PACKET_HasAckRequest" "cp_ackRequest demo_fragment = 1" "cp_fragCount demo_fragment = 3"
    by (simp_all add: demo_fragment_def demo_sent_def scheduled_header_def has_bit_def header_bits)
  have a: "al_gap demo_gap 18" "al_room demo_gap (unat (3 :: u32) + 4)"
    "take (unat (3 :: u32)) (drop (unat (al_cursor demo_gap)) (al_buffer demo_gap)) = [1, 2, 3]"
    by (simp_all add: demo_gap_def al_gap_def al_room_def al_ok_def word_le_nat_alt)
  let ?r = "ack_recv_ack_response (\<lambda>_. None) (uc_ackMgr demo_client) 512"
  have "\<exists>udpc' a' d b. ack_send_fragment demo_client demo_fragment demo_gap 3 7 True 512 1 = Some (udpc', a')
     \<and> uc_sent udpc' = uc_sent demo_client @ [d] \<and> al_ok b
     \<and> aligned_rest b = take (unat (3 :: u32)) (drop (unat (al_cursor demo_gap)) (al_buffer demo_gap))
     \<and> udpc_recv_protocol (\<lambda>_. True) (\<lambda>_. None) demo_client d (of_nat (length d)) False =
       map_option (\<lambda>u. (True, fst ?r, u)) (udpc_deliver (\<lambda>_. True) (demo_client\<lparr>uc_ackMgr := snd ?r\<rparr>) b (if (1 :: u16) = 0 then 7 else 0)
          (if has_bit (cp_header demo_fragment) TLG_PACKET_HasAckRequest then cp_ackRequest demo_fragment + 1 else 0)
          (if has_bit (cp_header demo_fragment) TLG_PACKET_IsFragment then cp_fragCount demo_fragment else 0) False)"
    by (rule recv_sent_datagram [OF hdr(1) _ _ _ a(1,2)]) (simp_all add: hdr(2))
  then show ?thesis unfolding a(3) hdr(4,5) using hdr(2,3) by simp
qed

end
