(* ===== verification/Zeq_EndToEnd.thy ===== *)
theory Zeq_EndToEnd
  imports Zeq_Wire
begin

text \<open>
  The parts of the connection together: a packet that is created, split, scheduled and sent by one
  side arrives at the other side as the message it was made of.
\<close>

section \<open>The datagrams of a packet\<close>

text \<open>One datagram for each piece; only the first of them may carry an ack response.\<close>

fun fragment_datagrams ::
    "to_client_packet \<Rightarrow> u16 \<Rightarrow> bool \<Rightarrow> u16 \<Rightarrow> u16 \<Rightarrow> nat \<Rightarrow> u8 list list \<Rightarrow> u8 list list" where
  "fragment_datagrams w seq resp ack opcode j [] = []"
| "fragment_datagrams w seq resp ack opcode j (p # ps) =
     datagram (wire_header w (to_network_uint16 seq) resp ack opcode (of_nat j) @ p)
       # fragment_datagrams w (seq + 1) False ack opcode (Suc j) ps"

lemma wire_header_timestamp [simp]:
  "wire_header (w\<lparr>cp_ackTimestamp := t\<rparr>) seq resp ack opcode i = wire_header w seq resp ack opcode i"
  by (simp add: wire_header_def)

lemma fragment_datagrams_timestamp [simp]:
  "fragment_datagrams (w\<lparr>cp_ackTimestamp := t\<rparr>) seq resp ack opcode j ps = fragment_datagrams w seq resp ack opcode j ps"
  by (induction ps arbitrary: seq resp j) auto

text \<open>The state of the sender after \<open>n\<close> datagrams have gone out.\<close>

definition sent_state :: "udp_client \<Rightarrow> nat \<Rightarrow> u8 list list \<Rightarrow> nat list \<Rightarrow> udp_client" where
  "sent_state udpc n ds flags = udpc\<lparr>uc_ackMgr := (uc_ackMgr udpc)\<lparr>am_toClient := (am_toClient (uc_ackMgr udpc))
       \<lparr>tc_nextSeqToSend := tc_nextSeqToSend (am_toClient (uc_ackMgr udpc)) + of_nat n\<rparr>\<rparr>,
     uc_sent := uc_sent udpc @ ds, uc_ackFlags := uc_ackFlags udpc @ flags\<rparr>"

lemma sent_state_0 [simp]: "sent_state udpc 0 [] [] = udpc"
  by (simp add: sent_state_def)

lemma sent_state_add: "sent_state (sent_state udpc m ds fs) n es gs = sent_state udpc (m + n) (ds @ es) (fs @ gs)"
  by (simp add: sent_state_def add.assoc)

abbreviation next_seq :: "udp_client \<Rightarrow> u16" where
  "next_seq udpc \<equiv> tc_nextSeqToSend (am_toClient (uc_ackMgr udpc))"

lemma next_seq_sent [simp]: "next_seq (sent_state udpc n ds fs) = next_seq udpc + of_nat n"
  by (simp add: sent_state_def)

lemma flag_last_ack_sent: "\<exists>f. (if b then udpc_flag_last_ack (sent_state u n ds fs) else sent_state u n ds fs) = sent_state u n ds f"
proof (cases "b \<and> uc_udpIndex u \<ge> 0")
  case True
  then have "udpc_flag_last_ack (sent_state u n ds fs) = sent_state u n ds (fs @ [nat (uc_udpIndex u)])"
    by (simp add: udpc_flag_last_ack_def sent_state_def)
  then show ?thesis using True by auto
qed (auto simp: udpc_flag_last_ack_def sent_state_def)

lemma udpc_next_seq_eq:
  "udpc_next_seq udpc = (to_network_uint16 (next_seq udpc), sent_state udpc 1 [] [])"
  by (simp add: udpc_next_seq_def ack_get_next_seq_to_send_and_increment_def sent_state_def)

definition fragment_space :: "nat \<Rightarrow> nat" where
  "fragment_space j = (if j = 0 then 510 else 512)"

lemma fragment_spans_Suc:
  "fragment_spans pos D j (Suc n) = (let len = min D (fragment_space j) in
     (pos + 18, len) # fragment_spans (pos + 18 + len + 4) (D - fragment_space j) (Suc j) n)"
  by (simp add: fragment_space_def packet_sizes Let_def min_def)

definition pieces_of :: "u8 list \<Rightarrow> (nat \<times> nat) list \<Rightarrow> u8 list list" where
  "pieces_of buf spans = map (\<lambda>(pos, len). take len (drop pos buf)) spans"

lemma fragment_spans_ge: "(p, l) \<in> set (fragment_spans pos D j n) \<Longrightarrow> pos \<le> p"
  by (induction pos D j n arbitrary: p l rule: fragment_spans.induct) (fastforce simp: Let_def split: if_splits)+

lemma pieces_of_cong:
  assumes "drop c buf = drop c buf'" "\<forall>(p, l) \<in> set spans. c \<le> p"
  shows "pieces_of buf spans = pieces_of buf' spans"
  using assms by (auto simp: pieces_of_def intro!: arg_cong [of _ _ "take _"] dest: drop_agree)

text \<open>The loop over the fragments.\<close>

lemma ack_send_fragments_eq:
  "j + n = k \<Longrightarrow> k < 2 ^ 16 \<Longrightarrow> al_ok a \<Longrightarrow> unat (al_cursor a) = pos \<Longrightarrow> D < 2 ^ 31 \<Longrightarrow>
   (1 < n \<longrightarrow> fragment_space j + 512 * (n - 2) \<le> D) \<Longrightarrow>
   (\<forall>(p, l) \<in> set (fragment_spans pos D j n). p + l + 4 \<le> unat (al_length a)) \<Longrightarrow>
   \<exists>w' a' l'. ack_send_fragments clock ack opcode j w (of_nat D) k a l = Some (w', a', l')
     \<and> (\<exists>t. w' = w\<lparr>cp_ackTimestamp := t\<rparr>)
     \<and> (\<exists>fs. sl_udpc l' = sent_state (sl_udpc l) n (fragment_datagrams w (next_seq (sl_udpc l)) (sl_hasAckResponse l = 1)
           ack opcode j (pieces_of (al_buffer a) (fragment_spans pos D j n))) fs)
     \<and> sl_hasAckResponse l' = (if n = 0 then sl_hasAckResponse l else if sl_hasAckResponse l = 1 then 2 else sl_hasAckResponse l)"
proof (induction n arbitrary: j a pos D w l)
  case 0
  then show ?case
    by (subst ack_send_fragments.simps) (auto simp: pieces_of_def intro!: exI [of _ "cp_ackTimestamp w"] exI [of _ "[]"])
next
  case (Suc n)
  let ?space = "fragment_space j" let ?len = "min D ?space" let ?l = "of_nat ?len :: u32"
  let ?udpc = "sl_udpc l" let ?has = "sl_hasAckResponse l = 1"
  have j: "j < k" "(of_nat j :: u16) = 0 \<longleftrightarrow> j = 0"
    using Suc.prems(1,2) unat_u16 [of j] by (auto simp: word_of_nat_eq_0_iff dest: dvd_imp_le)
  have u: "unat (of_nat D :: u32) = D" "unat ?l = ?len"
    using Suc.prems(5) by (auto intro!: unat_of_nat_small)
  have sp: "(if j = 0 then of_nat TLG_PACKET_DATA_SPACE - 2 else of_nat TLG_PACKET_DATA_SPACE) = (of_nat ?space :: u32)"
    "unat (of_nat ?space :: u32) = ?space" by (simp_all add: fragment_space_def packet_sizes)
  have mn: "(if (of_nat D :: u32) > of_nat ?space then of_nat ?space else of_nat D) = ?l"
    using u(1) sp(2) by (auto simp: word_less_nat_alt min_def)
  have spans: "fragment_spans pos D j (Suc n) = (pos + 18, ?len) # fragment_spans (pos + 18 + ?len + 4) (D - ?space) (Suc j) n"
    by (simp only: fragment_spans_Suc Let_def)
  have end': "pos + 18 + ?len + 4 \<le> unat (al_length a)"
    and rest: "\<forall>(p, l) \<in> set (fragment_spans (pos + 18 + ?len + 4) (D - ?space) (Suc j) n). p + l + 4 \<le> unat (al_length a)"
    using Suc.prems(7) unfolding spans by auto
  have room18: "al_room a 18" using end' Suc.prems(4) by (simp add: al_room_def)
  let ?a = "a\<lparr>al_cursor := al_cursor a + 18\<rparr>"
  have adv: "aligned_advance_by a (of_nat TLG_PACKET_DATA_OFFSET) = Some (al_cursor a, ?a)"
    using advance_by [OF al_room_no_wrap [OF room18]] room18 by (simp add: packet_sizes)
  have ca: "unat (al_cursor ?a) = pos + 18"
    using unat_add_cursor [of "al_cursor a" 18] end' Suc.prems(4) unsigned_less [of "al_length a", where 'a = nat] by simp
  have gap: "al_gap ?a 18" "al_room ?a (unat ?l + 4)"
    using ca end' Suc.prems(3) u(2) by (auto simp: al_gap_def al_room_def al_ok_def word_le_nat_alt)
  let ?bs = "wire_header w (to_network_uint16 (next_seq ?udpc)) ?has ack opcode (of_nat j)
    @ take ?len (drop (pos + 18) (al_buffer a))"
  obtain a' where s: "ack_send_fragment ?udpc w ?a ?l opcode ?has ack (of_nat j) =
      Some ((sent_state ?udpc 1 [] [])\<lparr>uc_sent := uc_sent (sent_state ?udpc 1 [] []) @ [datagram ?bs]\<rparr>, a')"
    "al_ok a'" "al_length a' = al_length ?a" "unat (al_cursor a') = unat (al_cursor ?a) + unat ?l + 4"
    "length (al_buffer a') = length (al_buffer ?a)"
    "drop (unat (al_cursor a')) (al_buffer a') = drop (unat (al_cursor a')) (al_buffer ?a)"
    by (rule ack_send_fragment_eq [OF gap udpc_next_seq_eq, where bs = ?bs and w = w and resp = ?has and ack = ack
          and opcode = opcode and i = "of_nat j"]) (use ca u(2) in simp)
  have s1: "(sent_state ?udpc 1 [] [])\<lparr>uc_sent := uc_sent (sent_state ?udpc 1 [] []) @ [datagram ?bs]\<rparr> =
      sent_state ?udpc 1 [datagram ?bs] []" by (simp add: sent_state_def)
  obtain f where f: "(if ?has then udpc_flag_last_ack (sent_state ?udpc 1 [datagram ?bs] []) else sent_state ?udpc 1 [datagram ?bs] []) =
      sent_state ?udpc 1 [datagram ?bs] f"
    using flag_last_ack_sent by blast
  let ?w = "w\<lparr>cp_ackTimestamp := clock (sl_clock l)\<rparr>"
  let ?s = "sent_state ?udpc 1 [datagram ?bs] f"
  let ?r = "l\<lparr>sl_udpc := ?s, sl_hasAckResponse := (if ?has then 2 else sl_hasAckResponse l), sl_clock := sl_clock l + 1\<rparr>"
  let ?D = "of_nat D - of_nat ?space :: u32"
  have step: "ack_send_fragments clock ack opcode j w (of_nat D) k a l =
      ack_send_fragments clock ack opcode (Suc j) ?w ?D k a' ?r"
    using s(1) f unfolding s1
    by (subst ack_send_fragments.simps) (simp only: j(1) if_True Let_def sp(1) adv bind.bind_lunit prod.case mn Suc_eq_plus1 One_nat_def [symmetric])
  let ?ps = "pieces_of (al_buffer a') (fragment_spans (pos + 18 + ?len + 4) (D - ?space) (Suc j) n)"
  have cur: "unat (al_cursor a') = pos + 18 + ?len + 4" using s(4) ca u(2) by simp
  have tail: "\<exists>w' b l'. ack_send_fragments clock ack opcode (Suc j) ?w ?D k a' ?r = Some (w', b, l')
     \<and> (\<exists>t. w' = w\<lparr>cp_ackTimestamp := t\<rparr>)
     \<and> (\<exists>fs. sl_udpc l' = sent_state ?s n (fragment_datagrams w (next_seq ?s) False ack opcode (Suc j) ?ps) fs)
     \<and> sl_hasAckResponse l' = sl_hasAckResponse ?r"
  proof (cases "n = 0")
    case True
    then show ?thesis using Suc.prems(1)
      by (subst ack_send_fragments.simps) (auto simp: pieces_of_def intro!: exI [of _ "[]"])
  next
    case False
    then have D: "?space \<le> D" "1 < n \<longrightarrow> fragment_space (Suc j) + 512 * (n - 2) \<le> D - ?space"
      using Suc.prems(6) by (auto simp: fragment_space_def)
    have "?D = of_nat (D - ?space)" using D(1) by simp
    moreover have "sl_hasAckResponse ?r \<noteq> 1" by simp
    ultimately show ?thesis
      using Suc.IH [of "Suc j" a' "pos + 18 + ?len + 4" "D - ?space" ?w ?r] Suc.prems(1,2,5) s(2,3) cur D rest False
      by auto
  qed
  have "?ps = pieces_of (al_buffer a) (fragment_spans (pos + 18 + ?len + 4) (D - ?space) (Suc j) n)"
    using s(6) unfolding cur by (intro pieces_of_cong [of "pos + 18 + ?len + 4"]) (auto dest: fragment_spans_ge)
  then have ps: "pieces_of (al_buffer a) (fragment_spans pos D j (Suc n)) = take ?len (drop (pos + 18) (al_buffer a)) # ?ps"
    unfolding spans by (simp add: pieces_of_def)
  obtain w' b l' fs where t: "ack_send_fragments clock ack opcode (Suc j) ?w ?D k a' ?r = Some (w', b, l')"
    "\<exists>t. w' = w\<lparr>cp_ackTimestamp := t\<rparr>" "sl_hasAckResponse l' = sl_hasAckResponse ?r"
    "sl_udpc l' = sent_state ?s n (fragment_datagrams w (next_seq ?s) False ack opcode (Suc j) ?ps) fs"
    using tail by blast
  have u': "sl_udpc l' = sent_state ?udpc (Suc n) (fragment_datagrams w (next_seq ?udpc) ?has ack opcode j
      (pieces_of (al_buffer a) (fragment_spans pos D j (Suc n)))) (f @ fs)"
    unfolding t(4) ps sent_state_add by simp
  show ?case unfolding step t(1)
    by (rule exI [of _ w'], rule exI [of _ b], rule exI [of _ l'], intro conjI refl t(2) exI [of _ "f @ fs"] u')
      (simp add: t(3))
qed

section \<open>Sending one packet\<close>

lemma fragment_spans_frag_count:
  assumes "L \<le> 510 \<or> 512 < L \<and> L mod 512 \<notin> {0, 511}"
  shows "1 < frag_count L + 1 \<longrightarrow> fragment_space 0 + 512 * (frag_count L + 1 - 2) \<le> L"
    "\<forall>(p, l) \<in> set (fragment_spans 0 L 0 (frag_count L + 1)). p + l + 4 \<le> L + 22 * (frag_count L + 1)"
proof -
  have "(1 < frag_count L + 1 \<longrightarrow> fragment_space 0 + 512 * (frag_count L + 1 - 2) \<le> L)
    \<and> (\<forall>(p, l) \<in> set (fragment_spans 0 L 0 (frag_count L + 1)). p + l + 4 \<le> L + 22 * (frag_count L + 1))"
    using assms
  proof (elim disjE conjE)
    assume L: "L \<le> 510"
    then show ?thesis by (simp add: frag_count_def packet_sizes Let_def)
  next
    assume L: "512 < L" "L mod 512 \<notin> {0, 511}"
    obtain m l where m: "L = 510 + 512 * m + l" "0 < l" "l \<le> 512" "frag_count L = Suc m"
      "(L + 2) mod 512 = (if l = 512 then 0 else l)" using long_split [OF L] by blast
    show ?thesis unfolding fragment_spans_eq [OF L(1)] unfolding m(4) using m(1-3)
      by (intro conjI ballI; (simp add: fragment_space_def; fail)?)
        (auto simp: frag_dst_def simp del: fragment_spans.simps upt_Suc)
  qed
  then show "1 < frag_count L + 1 \<longrightarrow> fragment_space 0 + 512 * (frag_count L + 1 - 2) \<le> L"
    "\<forall>(p, l) \<in> set (fragment_spans 0 L 0 (frag_count L + 1)). p + l + 4 \<le> L + 22 * (frag_count L + 1)" by blast+
qed


lemma copy_down_length: "length (fst (copy_down data dst src n)) = length data"
  by (induction data dst src n rule: copy_down.induct) auto

lemma spread_fragments_length [simp]: "length (spread_fragments data dst src len n) = length data"
proof (induction n arbitrary: data dst src len)
  case (Suc n)
  then show ?case using copy_down_length [of data dst src len] by (simp add: case_prod_beta)
qed simp

lemma fragmentized_packet:
  assumes L: "length payload \<le> 510 \<or> 512 < length payload \<and> length payload < 2 ^ 23 \<and> length payload mod 512 \<notin> {0, 511}"
    and b: "fst (packet_calc_length_and_frag_count (length payload)) \<le> sizeof_TlgPacket + length block"
    and p: "filled_packet opcode payload block = Some p"
  shows "packet_opcode (packet_fragmentize p) = opcode"
    "packet_length (packet_fragmentize p) = of_nat (length payload)"
    "unat (pk_fragCount (packet_fragmentize p)) = frag_count (length payload)"
    "frag_count (length payload) < 2 ^ 14"
    "packet_buffer_raw_length (packet_fragmentize p) = length payload + 22 * (frag_count (length payload) + 1)"
    "length (pk_data (packet_fragmentize p)) = length payload + 22 * (frag_count (length payload) + 1)"
    "packet_fragments (packet_fragmentize p) = pieces_of (pk_data (packet_fragmentize p))
       (fragment_spans 0 (length payload) 0 (frag_count (length payload) + 1))"
proof -
  have small: "length payload < 2 ^ 25" using L by auto
  obtain q gap rest where q: "filled_packet opcode payload block = Some q"
    "length (pk_data q) = length payload + 22 * (frag_count (length payload) + 1)"
    "unat (pk_fragCount q) = frag_count (length payload)" "unat (pk_dataLength q) = length payload"
    by (rule filled_packet_eq [OF small b, of opcode])
  have pq: "p = q" using p q(1) by simp
  have op: "pk_opcode p = opcode" using p by (auto simp: filled_packet_def packet_create_def packet_fill_def case_prod_beta)
  have f: "pk_opcode (packet_fragmentize p) = pk_opcode p" "pk_dataLength (packet_fragmentize p) = pk_dataLength p"
    "pk_fragCount (packet_fragmentize p) = pk_fragCount p"
    by (simp_all add: packet_fragmentize_def Let_def)
  show "packet_opcode (packet_fragmentize p) = opcode" by (simp add: packet_opcode_def f op)
  have len: "pk_dataLength p = of_nat (length payload)" unfolding q(4) [symmetric] pq by simp
  then show "packet_length (packet_fragmentize p) = of_nat (length payload)" by (simp add: packet_length_def f)
  show n: "unat (pk_fragCount (packet_fragmentize p)) = frag_count (length payload)" using q(3) pq f by simp
  show "frag_count (length payload) < 2 ^ 14" using L by (auto simp: frag_count_def less_mult_imp_div_less)
  have d: "unat (pk_dataLength (packet_fragmentize p)) = length payload" using q(4) pq f by simp
  show "packet_buffer_raw_length (packet_fragmentize p) = length payload + 22 * (frag_count (length payload) + 1)"
    by (simp add: packet_buffer_raw_length_def d n packet_sizes)
  show "length (pk_data (packet_fragmentize p)) = length payload + 22 * (frag_count (length payload) + 1)"
    using q(2) pq by (simp add: packet_fragmentize_def Let_def)
  show "packet_fragments (packet_fragmentize p) = pieces_of (pk_data (packet_fragmentize p))
       (fragment_spans 0 (length payload) 0 (frag_count (length payload) + 1))"
    unfolding packet_fragments_def pieces_of_def d n ..
qed


lemma send_queued_one:
  assumes q: "tc_packetQueue (am_toClient (uc_ackMgr u)) = [w]" "tc_sendFromIndex (am_toClient (uc_ackMgr u)) = 0"
      "ts_lastAckSent (to_server u) = ts_nextAckRequestExpected (to_server u) - 1"
    and p: "h (cp_packet w) = Some p" "packet_length p = of_nat D" "D < 2 ^ 31"
      "packet_buffer_raw_length p = length (pk_data p)" "length (pk_data p) < 2 ^ 32"
    and k: "unat (cp_fragCount w) = k" "k < 2 ^ 16"
    and s: "1 < k \<longrightarrow> fragment_space 0 + 512 * (k - 2) \<le> D"
      "\<forall>(p', l) \<in> set (fragment_spans 0 D 0 k). p' + l + 4 \<le> length (pk_data p)"
  obtains h' u' where "udpc_send_queued_packets clock h u = Some (h', u')"
    "uc_sent u' = uc_sent u @ fragment_datagrams w (next_seq u) False 0 (packet_opcode p) 0
       (pieces_of (pk_data p) (fragment_spans 0 D 0 k))"
proof -
  let ?a = "aligned_init (pk_data p) (of_nat (length (pk_data p)))"
  let ?l = "\<lparr>sl_udpc = u, sl_hasAckResponse = 0, sl_clock = 1\<rparr>"
  have len: "unat (of_nat (length (pk_data p)) :: u32) = length (pk_data p)"
    using p(5) by (intro unat_of_nat_small) simp
  have ok: "al_ok ?a" "unat (al_cursor ?a) = 0" "unat (al_length ?a) = length (pk_data p)" "al_buffer ?a = pk_data p"
    using len by (simp_all add: al_ok_def aligned_init_def)
  have s': "\<forall>(p', l) \<in> set (fragment_spans 0 D 0 k). p' + l + 4 \<le> unat (al_length ?a)" using s(2) ok(3) by simp
  obtain w' a' l' where f: "ack_send_fragments clock 0 (packet_opcode p) 0 w (of_nat D) k ?a ?l = Some (w', a', l')"
    "\<exists>t. w' = w\<lparr>cp_ackTimestamp := t\<rparr>"
    "\<exists>fs. sl_udpc l' = sent_state u k (fragment_datagrams w (next_seq u) False 0 (packet_opcode p) 0
       (pieces_of (pk_data p) (fragment_spans 0 D 0 k))) fs"
    "sl_hasAckResponse l' = 0"
    using ack_send_fragments_eq [OF add_0 k(2) ok(1,2) p(3) s(1) s', of clock 0 "packet_opcode p" w ?l]
    unfolding ok(4) by (auto split: if_splits)
  then obtain fs where u': "sl_udpc l' = sent_state u k (fragment_datagrams w (next_seq u) False 0 (packet_opcode p) 0
       (pieces_of (pk_data p) (fragment_spans 0 D 0 k))) fs" by blast
  have pkt: "ack_send_packet clock (clock 0) (ts_lastAckReceived (to_server u)) 0 0 0 h ?l =
      Some (h(cp_packet w' \<mapsto> p\<lparr>pk_data := al_buffer a'\<rparr>), l'\<lparr>sl_udpc := (sl_udpc l')\<lparr>uc_ackMgr := (uc_ackMgr (sl_udpc l'))
        \<lparr>am_toClient := (am_toClient (uc_ackMgr (sl_udpc l')))\<lparr>tc_packetQueue :=
           (tc_packetQueue (am_toClient (uc_ackMgr (sl_udpc l'))))[0 := w']\<rparr>\<rparr>\<rparr>\<rparr>)"
    using f(1) by (simp add: ack_send_packet_def q p k Let_def)
  have snd: "udpc_send_queued_packets clock h u = Some (h'', u'') \<Longrightarrow> uc_sent u'' = uc_sent (sl_udpc l') \<Longrightarrow> thesis" for h'' u''
    using that [of h'' u''] by (simp add: u' sent_state_def)
  have "\<exists>u''. udpc_send_queued_packets clock h u = Some (h(cp_packet w' \<mapsto> p\<lparr>pk_data := al_buffer a'\<rparr>), u'')
      \<and> uc_sent u'' = uc_sent (sl_udpc l')"
    by (simp add: udpc_send_queued_packets_def ack_send_queued_packets_def q pkt [simplified q One_nat_def] f(4) Let_def)
  then show ?thesis using snd by blast
qed


section \<open>Receiving what was sent\<close>

fun udpc_recv_all :: "pheap \<Rightarrow> udp_client \<Rightarrow> u8 list list \<Rightarrow> (pheap \<times> udp_client) option" where
  "udpc_recv_all h peer [] = Some (h, peer)"
| "udpc_recv_all h peer (d # ds) =
     Option.bind (udpc_recv_protocol (\<lambda>_. True) h peer d (of_nat (length d)) False) (\<lambda>(r, h, peer). udpc_recv_all h peer ds)"

text \<open>A piece as a buffer of its own.\<close>

abbreviation piece_buffer :: "u8 list \<Rightarrow> aligned" where
  "piece_buffer p \<equiv> aligned_init p (of_nat (length p))"

lemma piece_buffer_rest:
  assumes "length p < 2 ^ 32"
  shows "al_ok (piece_buffer p)" "aligned_rest (piece_buffer p) = p" "aligned_remaining_space (piece_buffer p) = of_nat (length p)"
  using unat_of_nat_small [of "length p", where 'a = 32] assms
  by (simp_all add: al_ok_def aligned_rest_def aligned_init_def aligned_remaining_space_def)

lemma recv_packet_at:
  assumes "al_at a p"
  shows "ack_recv_packet alloc u a opcode ackRequest n = ack_recv_packet alloc u (piece_buffer p) opcode ackRequest n"
proof -
  note r = piece_buffer_rest [OF al_at_length(2) [OF assms]]
  have "aligned_remaining_space a = aligned_remaining_space (piece_buffer p)" "aligned_rest a = aligned_rest (piece_buffer p)"
    using r al_at_length(1) [OF assms] assms by (simp_all add: al_at_def)
  then show ?thesis by (simp only: ack_recv_packet_def udpc_recv_packet_def)
qed

fun piece_arrivals :: "u16 \<Rightarrow> nat \<Rightarrow> u16 \<Rightarrow> nat \<Rightarrow> u8 list list \<Rightarrow> arrival list" where
  "piece_arrivals opcode e n j [] = []"
| "piece_arrivals opcode e n j (p # ps) =
     (piece_buffer p, if j = 0 then opcode else 0, of_nat (e + j), n) # piece_arrivals opcode e n (Suc j) ps"

lemma recv_all_pieces:
  assumes w: "scheduled_header (cp_header w)" "has_bit (cp_header w) TLG_PACKET_HasAckRequest" "cp_ackRequest w = of_nat e"
    "0 < e" and op: "opcode \<noteq> 0"
    and n: "n = (if has_bit (cp_header w) TLG_PACKET_IsFragment then cp_fragCount w else 0)"
  shows "e + j + length ps < 2 ^ 16 \<Longrightarrow> (\<not> has_bit (cp_header w) TLG_PACKET_IsFragment \<longrightarrow> j + length ps \<le> 1) \<Longrightarrow>
    \<forall>p \<in> set ps. length p < 2 ^ 31 \<Longrightarrow>
    udpc_recv_all h peer (fragment_datagrams w seq False ack opcode j ps) =
      map_option (Pair h) (ack_recv_stream peer (piece_arrivals opcode e n j ps))"
proof (induction ps arbitrary: j peer seq)
  case (Cons p ps)
  have i: "\<not> has_bit (cp_header w) TLG_PACKET_IsFragment \<Longrightarrow> (of_nat j :: u16) = 0" using Cons.prems(2) by simp
  have j: "(of_nat j :: u16) = 0 \<longleftrightarrow> j = 0"
    using Cons.prems(1) by (auto simp: word_of_nat_eq_0_iff dest: dvd_imp_le)
  have ack: "cp_ackRequest w + of_nat j = of_nat (e + j)" by (simp add: w(3))
  have nz: "(of_nat (e + j) :: u16) \<noteq> 0"
    using w(4) Cons.prems(1) by (intro ack_number_nonzero) simp_all
  have lp: "length p < 2 ^ 31" using Cons.prems(3) by simp
  have am: "(h, uc_ackMgr peer) = (if False then ack_recv_ack_response h (uc_ackMgr peer) ack else (h, uc_ackMgr peer))" by simp
  let ?d = "datagram (wire_header w (to_network_uint16 seq) False ack opcode (of_nat j) @ p)"
  obtain b where b: "al_at b p" "udpc_recv_protocol (\<lambda>_. True) h peer ?d (of_nat (length ?d)) False =
      map_option (\<lambda>u. (True, h, u)) (udpc_deliver (\<lambda>_. True) (peer\<lparr>uc_ackMgr := uc_ackMgr peer\<rparr>) b
        (if (of_nat j :: u16) = 0 then opcode else 0)
        (if has_bit (cp_header w) TLG_PACKET_HasAckRequest then cp_ackRequest w + of_nat j else 0)
        (if has_bit (cp_header w) TLG_PACKET_IsFragment then cp_fragCount w else 0) False)"
    by (rule recv_datagram [OF w(1) i op lp am])
  have recv: "udpc_recv_protocol (\<lambda>_. True) h peer ?d (of_nat (length ?d)) False =
      map_option (\<lambda>u. (True, h, u)) (ack_recv_arrival peer (piece_buffer p, if j = 0 then opcode else 0, of_nat (e + j), n))"
    unfolding b(2) j n [symmetric] if_P [OF w(2)] ack ack_recv_arrival.simps recv_packet_at [OF b(1), symmetric]
    using nz by (simp add: udpc_deliver_def)
  have IH: "udpc_recv_all h u (fragment_datagrams w (seq + 1) False ack opcode (Suc j) ps) =
      map_option (Pair h) (ack_recv_stream u (piece_arrivals opcode e n (Suc j) ps))" for u
    using Cons.prems by (intro Cons.IH) auto
  show ?case unfolding fragment_datagrams.simps udpc_recv_all.simps recv piece_arrivals.simps ack_recv_stream.simps
    using IH by (cases "ack_recv_arrival peer (piece_buffer p, if j = 0 then opcode else 0, of_nat (e + j), n)") simp_all
qed simp


lemma piece_arrivals_eq:
  "piece_arrivals opcode e n j ps =
     map (\<lambda>i. (piece_buffer (ps ! i), if j + i = 0 then opcode else 0, of_nat (e + j + i), n)) [0..<length ps]"
proof (induction ps arbitrary: j)
  case (Cons p ps)
  then show ?case by (simp add: map_upt_Suc del: upt_Suc)
qed simp

lemma pieces_are_message:
  assumes "ps \<noteq> []" "n = (if length ps = 1 then 0 else of_nat (length ps))"
  shows "piece_arrivals opcode e n 0 ps = arrivals_of e (opcode, map piece_buffer ps)"
  using assms by (cases "length ps = 1") (auto simp: piece_arrivals_eq arrivals_of_def Let_def length_Suc_conv)

section \<open>From a packet to a message\<close>

text \<open>A connection with nothing queued and no ack response pending, about to use the ack number \<open>e\<close>.\<close>

definition sender_idle :: "udp_client \<Rightarrow> nat \<Rightarrow> bool" where
  "sender_idle u e \<longleftrightarrow> tc_packetQueue (am_toClient (uc_ackMgr u)) = [] \<and> tc_sendFromIndex (am_toClient (uc_ackMgr u)) = 0
     \<and> unat (tc_nextAckToRequest (am_toClient (uc_ackMgr u))) = e
     \<and> ts_lastAckSent (to_server u) = ts_nextAckRequestExpected (to_server u) - 1"

lemma schedule_one:
  assumes u: "sender_idle u e" "0 < e" and h: "h q = Some p" and k: "unat (pk_fragCount p) = k" "k + 1 < 2 ^ 16"
  obtains w u1 where "udpc_schedule_packet (\<lambda>_. True) junk h u q True = Some (h, u1)"
    "tc_packetQueue (am_toClient (uc_ackMgr u1)) = [w]" "tc_sendFromIndex (am_toClient (uc_ackMgr u1)) = 0"
    "to_server u1 = to_server u" "uc_sent u1 = uc_sent u" "cp_packet w = q" "cp_fragCount w = of_nat (k + 1)"
    "cp_ackRequest w = of_nat e" "scheduled_header (cp_header w)" "has_bit (cp_header w) TLG_PACKET_HasAckRequest"
    "has_bit (cp_header w) TLG_PACKET_IsFragment \<longleftrightarrow> 0 < k"
proof -
  have fc: "pk_fragCount p = of_nat k" unfolding k(1) [symmetric] by simp
  have e: "tc_nextAckToRequest (am_toClient (uc_ackMgr u)) = of_nat e" using u(1) by (auto simp: sender_idle_def)
  have "unat (of_nat e :: u16) = e" using u(1) e by (simp add: sender_idle_def)
  then have nz: "(of_nat e :: u16) \<noteq> 0" using u(2) by auto
  have u16: "(of_nat k :: u16) + 1 > 1 \<longleftrightarrow> 0 < k" "(of_nat k :: u16) \<noteq> 0 \<longleftrightarrow> 0 < k"
    using unat_u16 [of "k + 1"] k(2) ack_number_nonzero [of k]
    by (simp add: word_less_nat_alt add.commute, cases "k = 0") auto
  have pf: "ucast (packet_frag_count p) = (of_nat k :: u16)"
    by (simp add: packet_frag_count_def fc ucast_up_ucast_id is_up)
  let ?w = "\<lparr>cp_header = (if k = 0 then TLG_PACKET_HasAckRequest OR TLG_PACKET_HasAckCounter
      else (TLG_PACKET_HasAckRequest OR TLG_PACKET_HasAckCounter) OR TLG_PACKET_IsFragment), cp_ackRequest = of_nat e,
    cp_fragGroup = (if k = 0 then cp_fragGroup junk else tc_nextFragGroup (am_toClient (uc_ackMgr u))),
    cp_fragCount = of_nat k + 1, cp_ackCounterAlwaysOne = tc_ackCounterAlwaysOne (am_toClient (uc_ackMgr u)),
    cp_ackCounterRequest = tc_ackCounterRequest (am_toClient (uc_ackMgr u)), cp_ackTimestamp = cp_ackTimestamp junk,
    cp_packet = q\<rparr>"
  have "\<exists>u1. udpc_schedule_packet (\<lambda>_. True) junk h u q True = Some (h, u1)
      \<and> tc_packetQueue (am_toClient (uc_ackMgr u1)) = [?w] \<and> tc_sendFromIndex (am_toClient (uc_ackMgr u1)) = 0
      \<and> to_server u1 = to_server u \<and> uc_sent u1 = uc_sent u"
    using u(1) nz u16
    by (cases "k = 0") (simp_all add: udpc_schedule_packet_def ack_schedule_packet_def ack_queue_to_client_packet_def h pf e
        Let_def sender_idle_def)
  then obtain u1 where s: "udpc_schedule_packet (\<lambda>_. True) junk h u q True = Some (h, u1)"
    "tc_packetQueue (am_toClient (uc_ackMgr u1)) = [?w]" "tc_sendFromIndex (am_toClient (uc_ackMgr u1)) = 0"
    "to_server u1 = to_server u" "uc_sent u1 = uc_sent u" by blast
  show ?thesis
    by (rule that [OF s]) (simp_all add: scheduled_header_def has_bit_def header_bits)
qed


lemma fragment_spans_length: "length (fragment_spans pos D j n) = n"
  by (induction n arbitrary: pos D j) (simp_all add: Let_def)

lemma piece_length: "x \<in> set ps \<Longrightarrow> length x \<le> length (concat ps)"
  by (induction ps) auto

lemma with_repeats_self: "with_repeats e xs xs"
  by (induction xs arbitrary: e) (auto intro: with_repeats.intros)

lemma pieces_message:
  assumes "ps \<noteq> []" "length ps < 2 ^ 15" "\<forall>x \<in> set ps. length x < 2 ^ 31" "length (concat ps) < 2 ^ 31" "opcode \<noteq> 0"
  shows "message_ok (opcode, map piece_buffer ps)" "message_data (opcode, map piece_buffer ps) = concat ps"
proof -
  have "map aligned_rest (map piece_buffer ps) = ps" "list_all al_ok (map piece_buffer ps)"
    using assms(3) by (auto simp: list_all_iff piece_buffer_rest intro!: map_idI)
  then show "message_data (opcode, map piece_buffer ps) = concat ps" "message_ok (opcode, map piece_buffer ps)"
    using assms by (simp_all add: message_ok_def message_data_def)
qed

lemma sent_packet_delivered:
  assumes L: "length payload \<le> 510 \<or> 512 < length payload \<and> length payload < 2 ^ 23 \<and> length payload mod 512 \<notin> {0, 511}"
    and b: "fst (packet_calc_length_and_frag_count (length payload)) \<le> sizeof_TlgPacket + length block"
    and p: "filled_packet opcode payload block = Some p" "opcode \<noteq> 0" "h q = Some (packet_fragmentize p)"
    and u: "sender_idle u e" "0 < e" "e + frag_count (length payload) + 1 < 2 ^ 16"
    and peer: "ack_stage peer e []" "rb_room peer 1"
  obtains h1 u1 h2 u2 ds v where "udpc_schedule_packet (\<lambda>_. True) junk h u q True = Some (h1, u1)"
    "udpc_send_queued_packets clock h1 u1 = Some (h2, u2)" "uc_sent u2 = uc_sent u @ ds"
    "udpc_recv_all h' peer ds = Some (h', v)"
    "rb_contents (uc_toServerQueue v) = rb_contents (uc_toServerQueue peer)
       @ [delivered peer opcode (of_nat (length payload)) (if payload = [] then None else Some payload)]"
proof -
  let ?p = "packet_fragmentize p" and ?k = "frag_count (length payload)"
  note f = fragmentized_packet [OF L b p(1)]
  let ?ps = "packet_fragments ?p"
  have len: "length ?ps = ?k + 1" by (simp add: packet_fragments_def f(3) fragment_spans_length del: fragment_spans.simps)
  then have ne: "?ps \<noteq> []" by (cases ?ps) auto
  have payload: "concat ?ps = payload"
    using L fragments_of_short [OF _ b p(1)] fragments_of_long [OF _ _ _ b p(1)] by fastforce
  have short: "\<forall>x \<in> set ?ps. length x < 2 ^ 31" "length payload < 2 ^ 31"
    using piece_length [of _ ?ps] L unfolding payload by fastforce+
  obtain w u1 where w: "udpc_schedule_packet (\<lambda>_. True) junk h u q True = Some (h, u1)"
    "tc_packetQueue (am_toClient (uc_ackMgr u1)) = [w]" "tc_sendFromIndex (am_toClient (uc_ackMgr u1)) = 0"
    "to_server u1 = to_server u" "uc_sent u1 = uc_sent u" "cp_packet w = q" "cp_fragCount w = of_nat (?k + 1)"
    "cp_ackRequest w = of_nat e" "scheduled_header (cp_header w)" "has_bit (cp_header w) TLG_PACKET_HasAckRequest"
    "has_bit (cp_header w) TLG_PACKET_IsFragment \<longleftrightarrow> 0 < ?k"
    by (rule schedule_one [where h = h and q = q and junk = junk, OF u(1,2) p(3) f(3)]) (use f(4) in simp)
  let ?ds = "fragment_datagrams w (next_seq u1) False 0 opcode 0 ?ps"
  have idle: "ts_lastAckSent (to_server u1) = ts_nextAckRequestExpected (to_server u1) - 1"
    using u(1) by (simp add: w(4) sender_idle_def)
  have wk: "unat (cp_fragCount w) = ?k + 1" "?k + 1 < 2 ^ 16" unfolding w(7) using f(4) by (simp_all add: unat_u16 del: of_nat_add of_nat_Suc)
  have raw: "packet_buffer_raw_length ?p = length (pk_data ?p)" "length (pk_data ?p) < 2 ^ 32"
    unfolding f(5,6) using short(2) f(4) by auto
  have "length payload \<le> 510 \<or> 512 < length payload \<and> length payload mod 512 \<notin> {0, 511}" using L by argo
  note spans = fragment_spans_frag_count [OF this, folded f(6)]
  have q: "h (cp_packet w) = Some ?p" using p(3) w(6) by simp
  obtain h2 u2 where s: "udpc_send_queued_packets clock h u1 = Some (h2, u2)" "uc_sent u2 = uc_sent u @ ?ds"
    by (rule send_queued_one [where h = h and clock = clock, OF w(2,3) idle q f(2) short(2) raw wk(1,2) spans(1)])
      (rule spans(2), simp only: f(1) f(7) [symmetric] w(5))
  let ?n = "if has_bit (cp_header w) TLG_PACKET_IsFragment then cp_fragCount w else 0"
  have n: "?n = (if length ?ps = 1 then 0 else of_nat (length ?ps))" unfolding w(11) w(7) len by simp
  have "udpc_recv_all h' peer ?ds = map_option (Pair h') (ack_recv_stream peer (piece_arrivals opcode e ?n 0 ?ps))"
    by (rule recv_all_pieces [OF w(9,10,8) u(2) p(2) refl])
      (use u(3) short(1) in \<open>simp_all add: len w(11)\<close>)
  then have recv: "udpc_recv_all h' peer ?ds = map_option (Pair h')
      (ack_recv_stream peer (stream_of e [(opcode, map piece_buffer ?ps)]))"
    unfolding pieces_are_message [OF ne n] by simp
  have m: "message_ok (opcode, map piece_buffer ?ps)" "message_data (opcode, map piece_buffer ?ps) = payload"
    using pieces_message [OF ne _ short(1) _ p(2)] len f(4) short(2) unfolding payload by simp_all
  have "\<exists>v. in_order_run peer e (stream_of e [(opcode, map piece_buffer ?ps)]) v
      \<and> rb_contents (uc_toServerQueue v) = rb_contents (uc_toServerQueue peer)
          @ map (message_delivered peer) [(opcode, map piece_buffer ?ps)]"
    using recv_stream_run [OF peer(1) u(2), of "[(opcode, map piece_buffer ?ps)]"] u(3) m(1) peer(2) len by auto
  then obtain v where v: "ack_recv_stream peer (stream_of e [(opcode, map piece_buffer ?ps)]) = Some v"
    "rb_contents (uc_toServerQueue v) = rb_contents (uc_toServerQueue peer) @ [message_delivered peer (opcode, map piece_buffer ?ps)]"
    using repeats_ignored [OF with_repeats_self] by fastforce
  have "message_delivered peer (opcode, map piece_buffer ?ps) = delivered peer opcode (of_nat (length payload))
      (if payload = [] then None else Some payload)"
    using len by (auto simp: message_delivered_def m(2) frag_count_def)
  then show ?thesis using that [OF w(1) s] recv v by simp
qed

text \<open>C1. From a packet to a message. One side creates a packet, writes the payload into it, splits it with
  \<open>packet_fragmentize\<close>, queues it with \<open>udpc_schedule_packet\<close> and sends its queue; the other side is fed
  the datagrams that went out. Its parser accepts each of them, and reassembly puts exactly one message
  on the queue of its client object: the opcode and the payload that went in, whatever the number of
  fragments. This holds for every payload length that the fragment count accounts for.\<close>

theorem packet_delivered_end_to_end:
  assumes "length payload \<le> 510 \<or> 512 < length payload \<and> length payload < 2 ^ 23 \<and> length payload mod 512 \<notin> {0, 511}"
    and "fst (packet_calc_length_and_frag_count (length payload)) \<le> sizeof_TlgPacket + length block"
    and "filled_packet opcode payload block = Some p" "opcode \<noteq> 0" "h q = Some (packet_fragmentize p)"
    and "sender_idle u e" "0 < e" "e + frag_count (length payload) + 1 < 2 ^ 16"
    and "ack_stage peer e []" "rb_room peer 1"
  shows "\<exists>h1 u1 h2 u2 ds v. udpc_schedule_packet (\<lambda>_. True) junk h u q True = Some (h1, u1)
    \<and> udpc_send_queued_packets clock h1 u1 = Some (h2, u2) \<and> uc_sent u2 = uc_sent u @ ds
    \<and> udpc_recv_all h' peer ds = Some (h', v)
    \<and> rb_contents (uc_toServerQueue v) = rb_contents (uc_toServerQueue peer)
       @ [delivered peer opcode (of_nat (length payload)) (if payload = [] then None else Some payload)]"
  by (rule sent_packet_delivered [where h = h and junk = junk and clock = clock and h' = h', OF assms]) blast

definition demo_sender :: udp_client where
  "demo_sender = demo_client\<lparr>uc_ackMgr := \<lparr>am_toServer = (am_toServer (ack_init 0))\<lparr>ts_lastAckSent := - 1\<rparr>,
     am_toClient = (am_toClient (ack_init 0))\<lparr>tc_nextAckToRequest := 1\<rparr>\<rparr>\<rparr>"

theorem packet_delivered_end_to_end_witness:
  "\<exists>p h1 u1 h2 u2 ds v. filled_packet 7 (replicate 600 5) (replicate 644 0) = Some p
    \<and> udpc_schedule_packet (\<lambda>_. True) demo_sent [5 \<mapsto> packet_fragmentize p] demo_sender 5 True = Some (h1, u1)
    \<and> udpc_send_queued_packets (\<lambda>_. 0) h1 u1 = Some (h2, u2) \<and> uc_sent u2 = uc_sent demo_sender @ ds
    \<and> udpc_recv_all (\<lambda>_. None) demo_client ds = Some (\<lambda>_. None, v)
    \<and> rb_contents (uc_toServerQueue v) = [delivered demo_client 7 600 (Some (replicate 600 5))]"
proof -
  let ?pay = "replicate 600 5 :: u8 list"
  have L: "length ?pay \<le> 510 \<or> 512 < length ?pay \<and> length ?pay < 2 ^ 23 \<and> length ?pay mod 512 \<notin> {0, 511}" by simp
  have b: "fst (packet_calc_length_and_frag_count (length ?pay)) \<le> sizeof_TlgPacket + length (replicate 644 (0 :: u8))"
    by (simp add: packet_calc_eq packet_sizes frag_count_def)
  obtain p where p: "filled_packet 7 ?pay (replicate 644 0) = Some p"
    using packet_calc_eq by (simp add: filled_packet_def packet_create_def case_prod_beta)
  have idle: "sender_idle demo_sender 1" by (simp add: sender_idle_def demo_sender_def ack_init_def)
  have e: "1 + frag_count (length ?pay) + 1 < 2 ^ 16" by (simp add: frag_count_def)
  have room: "rb_room demo_client 1" using demo_client_ok(2) by (simp add: rb_room_def)
  have op: "(7 :: u16) \<noteq> 0" by simp
  let ?h = "[5 \<mapsto> packet_fragmentize p] :: pheap"
  have h: "?h 5 = Some (packet_fragmentize p)" by simp
  show ?thesis
    using packet_delivered_end_to_end [where h = ?h and q = 5 and junk = demo_sent and clock = "\<lambda>_. 0" and h' = "\<lambda>_. None",
        OF L b p op h idle zero_less_one e demo_client_ok(1) room] p demo_client_ok(4) by auto
qed

end
