(* ===== verification/Zeq_UdpThread.thy ===== *)
theory Zeq_UdpThread
  imports Zeq_UdpClient
begin

text \<open>
  \<open>src/udp_thread.c\<close>: the table of the connections and the loop of the UDP thread. The table is a
  group of parallel arrays, of which only the first \<open>clientCount\<close> entries are ever read: each is a
  list of that length. The queues to the server threads are shared by the clients of a socket, so
  they live in a store: \<open>ut_queueOf\<close> says which of them a client points to, and \<open>uc_toServerQueue\<close>
  holds its contents while an operation of the client runs. Log messages are left out.
\<close>

definition UDP_THREAD_BUFFER_SIZE :: nat where "UDP_THREAD_BUFFER_SIZE = 1024"
definition UDP_THREAD_MINIMUM_MEANINGFUL_PACKET_SIZE :: nat where "UDP_THREAD_MINIMUM_MEANINGFUL_PACKET_SIZE = 10"
definition UDP_THREAD_LINKDEAD_TIMEOUT_MS :: u64 where "UDP_THREAD_LINKDEAD_TIMEOUT_MS = 15000"
definition UDP_THREAD_KEEP_ALIVE_ACK_DELAY_MS :: u64 where "UDP_THREAD_KEEP_ALIVE_ACK_DELAY_MS = 500"

definition UDP_FLAG_ReadyToSend :: nat where "UDP_FLAG_ReadyToSend = 0"
definition UDP_FLAG_IgnorePackets :: nat where "UDP_FLAG_IgnorePackets = 1"
definition UDP_FLAG_Dead :: nat where "UDP_FLAG_Dead = 2"

definition ZOP_UDP_OpenPort :: int where "ZOP_UDP_OpenPort = 1"
definition ZOP_UDP_TerminateThread :: int where "ZOP_UDP_TerminateThread = 2"
definition ZOP_UDP_DropClient :: int where "ZOP_UDP_DropClient = 4"
definition ZOP_UDP_ToClientPacketScheduled :: int where "ZOP_UDP_ToClientPacketScheduled = 6"

section \<open>State\<close>

record udp_socket =
  us_sock :: int
  us_clientSize :: u32
  us_queue :: nat

text \<open>The commands to the thread: the fields of the union \<open>UDP_ZPacket\<close> that its handlers read.\<close>

record udp_command =
  cmd_ip :: u32
  cmd_port :: u16
  cmd_packet :: u64
  cmd_object :: u64
  cmd_openPort :: u16
  cmd_clientSize :: u32
  cmd_queue :: nat

record udp_thread =
  ut_sockets :: "udp_socket list"
  ut_addresses :: "(u32 \<times> u16) list"
  ut_clients :: "udp_client list"
  ut_queueOf :: "nat list"
  ut_flags :: "u8 list"
  ut_recvTimestamps :: "u64 list"
  ut_lastAckTimestamps :: "u64 list"
  ut_udpQueue :: "udp_command ringbuf"
  ut_mainQueue :: nat
  ut_queues :: "nat \<Rightarrow> zpacket ringbuf"
  ut_heap :: pheap
  ut_wire :: "(u32 \<times> u16 \<times> u8 list) list"

text \<open>
  What the surroundings answer while one event is handled: allocations, the contents of variables
  that are not initialised, the clock (\<open>ue_clock\<close> inside \<open>ack_send_queued_packets\<close>, \<open>ue_now\<close>
  elsewhere), the new client object, whether the five arrays could be extended, and \<open>socket\<close>,
  \<open>fcntl\<close> and \<open>bind\<close> for a port.
\<close>

record udp_env =
  ue_alloc :: "nat \<Rightarrow> bool"
  ue_wrapper :: to_client_packet
  ue_bytes :: "u8 list"
  ue_lowestAck :: u16
  ue_now :: u64
  ue_clock :: "nat \<Rightarrow> u64"
  ue_object :: "u64 option"
  ue_grow :: "nat \<Rightarrow> bool"
  ue_socket :: "u16 \<Rightarrow> int option"

definition nth_bit :: "nat \<Rightarrow> u8" where "nth_bit n = push_bit n 1"
definition flag_get :: "u8 \<Rightarrow> nat \<Rightarrow> bool" where "flag_get v n \<longleftrightarrow> v AND nth_bit n \<noteq> 0"
definition flag_set :: "u8 \<Rightarrow> nat \<Rightarrow> u8" where "flag_set v n = v OR nth_bit n"
definition flag_unset :: "u8 \<Rightarrow> nat \<Rightarrow> u8" where "flag_unset v n = v AND NOT (nth_bit n)"

definition ut_count :: "udp_thread \<Rightarrow> nat" where "ut_count udp = length (ut_clients udp)"

definition udp_flag :: "nat \<Rightarrow> (u8 \<Rightarrow> u8) \<Rightarrow> udp_thread \<Rightarrow> udp_thread" where
  "udp_flag i f udp = udp\<lparr>ut_flags := (ut_flags udp)[i := f (ut_flags udp ! i)]\<rparr>"

definition udp_thread_update_ack_timestamp :: "udp_thread \<Rightarrow> nat \<Rightarrow> u64 \<Rightarrow> udp_thread option" where
  "udp_thread_update_ack_timestamp udp i now =
     (if i < length (ut_lastAckTimestamps udp)
      then Some (udp\<lparr>ut_lastAckTimestamps := (ut_lastAckTimestamps udp)[i := now]\<rparr>) else None)"

fun udp_update_ack_timestamps :: "nat list \<Rightarrow> u64 \<Rightarrow> udp_thread \<Rightarrow> udp_thread option" where
  "udp_update_ack_timestamps [] now udp = Some udp"
| "udp_update_ack_timestamps (i # is) now udp =
     Option.bind (udp_thread_update_ack_timestamp udp i now) (udp_update_ack_timestamps is now)"

text \<open>An operation \<open>f\<close> of the client \<open>c\<close>, whose queue is \<open>q\<close>, with its effects on the thread.\<close>

type_synonym client_op = "pheap \<Rightarrow> udp_client \<Rightarrow> (bool \<times> pheap \<times> udp_client) option"

definition udp_run :: "u64 \<Rightarrow> client_op \<Rightarrow> udp_client \<Rightarrow> nat \<Rightarrow> udp_thread \<Rightarrow> (bool \<times> udp_client \<times> udp_thread) option" where
  "udp_run now f c q udp =
     do {
       (r, h, c) \<leftarrow> f (ut_heap udp) (c\<lparr>uc_toServerQueue := ut_queues udp q\<rparr>);
       udp \<leftarrow> udp_update_ack_timestamps (uc_ackFlags c) now udp;
       Some (r, c\<lparr>uc_sent := [], uc_ackFlags := []\<rparr>,
         udp\<lparr>ut_queues := (ut_queues udp)(q := uc_toServerQueue c), ut_heap := h,
             ut_wire := ut_wire udp @ map (\<lambda>d. (uc_ip c, uc_port c, d)) (uc_sent c)\<rparr>)
     }"

definition udp_at :: "nat \<Rightarrow> u64 \<Rightarrow> client_op \<Rightarrow> udp_thread \<Rightarrow> (bool \<times> udp_thread) option" where
  "udp_at i now f udp =
     (if i < length (ut_clients udp) \<and> i < length (ut_queueOf udp) then
        map_option (\<lambda>(r, c, udp). (r, udp\<lparr>ut_clients := (ut_clients udp)[i := c]\<rparr>))
          (udp_run now f (ut_clients udp ! i) (ut_queueOf udp ! i) udp)
      else None)"

section \<open>Commands\<close>

definition udp_thread_open_port :: "udp_env \<Rightarrow> udp_thread \<Rightarrow> udp_command \<Rightarrow> udp_thread" where
  "udp_thread_open_port env udp cmd =
     (case ue_socket env (cmd_openPort cmd) of
        None \<Rightarrow> udp
      | Some sock \<Rightarrow>
          let index = length (ut_sockets udp)
          in if bit_is_pow2_or_zero (of_nat index) \<and> \<not> ue_grow env 0 then udp
             else udp\<lparr>ut_sockets := ut_sockets udp
                        @ [\<lparr>us_sock = sock, us_clientSize = cmd_clientSize cmd, us_queue = cmd_queue cmd\<rparr>]\<rparr>)"

fun find_address :: "(u32 \<times> u16) list \<Rightarrow> u32 \<Rightarrow> u16 \<Rightarrow> nat \<Rightarrow> nat option" where
  "find_address [] ip port i = None"
| "find_address ((ip', port') # as) ip port i =
     (if ip' \<noteq> ip \<or> port' \<noteq> port then find_address as ip port (i + 1) else Some i)"

definition udp_thread_get_client_by_ip :: "udp_thread \<Rightarrow> u32 \<Rightarrow> u16 \<Rightarrow> nat option" where
  "udp_thread_get_client_by_ip udp ip port = find_address (ut_addresses udp) ip port 0"

definition udp_thread_handle_client_packet :: "udp_env \<Rightarrow> udp_thread \<Rightarrow> udp_command \<Rightarrow> bool \<Rightarrow> udp_thread option" where
  "udp_thread_handle_client_packet env udp cmd ackRequest =
     (case udp_thread_get_client_by_ip udp (cmd_ip cmd) (cmd_port cmd) of
        None \<Rightarrow> Some udp
      | Some index \<Rightarrow>
          map_option (\<lambda>(r, udp). udp_flag index (\<lambda>v. flag_set v UDP_FLAG_ReadyToSend) udp)
            (udp_at index (ue_now env)
              (\<lambda>h c. map_option (Pair True) (udpc_schedule_packet (ue_alloc env) (ue_wrapper env) h c (cmd_packet cmd) ackRequest))
              udp))"

definition udp_thread_handle_drop_client :: "udp_thread \<Rightarrow> udp_command \<Rightarrow> udp_thread" where
  "udp_thread_handle_drop_client udp cmd =
     (case udp_thread_get_client_by_ip udp (cmd_ip cmd) (cmd_port cmd) of
        None \<Rightarrow> udp
      | Some index \<Rightarrow> udp_flag index (\<lambda>v. flag_set v UDP_FLAG_IgnorePackets) udp)"

definition disconnect_op :: "udp_env \<Rightarrow> client_op" where
  "disconnect_op env h c = map_option (\<lambda>c. (True, h, c)) (udpc_send_disconnect (ue_bytes env) c)"

definition udp_thread_handle_client_disconnect :: "udp_env \<Rightarrow> udp_thread \<Rightarrow> udp_command \<Rightarrow> udp_thread option" where
  "udp_thread_handle_client_disconnect env udp cmd =
     (case udp_thread_get_client_by_ip udp (cmd_ip cmd) (cmd_port cmd) of
        None \<Rightarrow> Some udp
      | Some index \<Rightarrow>
          map_option snd (udp_at index (ue_now env) (disconnect_op env)
            (udp_flag index (\<lambda>v. flag_set v UDP_FLAG_IgnorePackets) udp)))"

definition udp_thread_handle_replace_client_object :: "udp_env \<Rightarrow> udp_thread \<Rightarrow> udp_command \<Rightarrow> udp_thread option" where
  "udp_thread_handle_replace_client_object env udp cmd =
     (case udp_thread_get_client_by_ip udp (cmd_ip cmd) (cmd_port cmd) of
        None \<Rightarrow> Some udp
      | Some index \<Rightarrow>
          map_option snd (udp_at index (ue_now env)
            (\<lambda>h c. map_option (\<lambda>c. (True, h, c)) (udpc_replace_client_object c (cmd_object cmd))) udp))"

text \<open>The branches of the \<open>switch\<close>; an unexpected opcode is only logged.\<close>

definition udp_thread_handle_command :: "udp_env \<Rightarrow> int \<Rightarrow> udp_command \<Rightarrow> udp_thread \<Rightarrow> udp_thread option" where
  "udp_thread_handle_command env zop cmd udp =
     (if zop = ZOP_UDP_OpenPort then Some (udp_thread_open_port env udp cmd)
      else if zop = ZOP_UDP_ToClientPacketScheduled then udp_thread_handle_client_packet env udp cmd True
      else if zop = ZOP_UDP_DropClient then Some (udp_thread_handle_drop_client udp cmd)
      else if zop = ZOP_UDP_ReplaceClientObject then udp_thread_handle_replace_client_object env udp cmd
      else if zop = ZOP_UDP_ClientDisconnect then udp_thread_handle_client_disconnect env udp cmd
      else Some udp)"

text \<open>The loop runs until the queue is empty; \<open>n\<close> bounds its iterations.\<close>

fun udp_thread_process_commands :: "(nat \<Rightarrow> udp_env) \<Rightarrow> nat \<Rightarrow> udp_thread \<Rightarrow> (bool \<times> udp_thread) option" where
  "udp_thread_process_commands env 0 udp = None"
| "udp_thread_process_commands env (Suc n) udp =
     (case ringbuf_pop (ut_udpQueue udp) of
        None \<Rightarrow> None
      | Some (rc, out, rb) \<Rightarrow>
          let udp = udp\<lparr>ut_udpQueue := rb\<rparr>
          in case out of
               None \<Rightarrow> Some (True, udp)
             | Some (zop, cmd) \<Rightarrow>
                 if zop = ZOP_UDP_TerminateThread then Some (False, udp)
                 else Option.bind (udp_thread_handle_command (env n) zop cmd udp) (udp_thread_process_commands env n))"

section \<open>Reading\<close>

definition udp_append_client :: "u64 \<Rightarrow> udp_client \<Rightarrow> nat \<Rightarrow> udp_thread \<Rightarrow> udp_thread" where
  "udp_append_client time c q udp =
     udp\<lparr>ut_addresses := ut_addresses udp @ [(uc_ip c, uc_port c)], ut_clients := ut_clients udp @ [c],
         ut_queueOf := ut_queueOf udp @ [q], ut_flags := ut_flags udp @ [0],
         ut_recvTimestamps := ut_recvTimestamps udp @ [time], ut_lastAckTimestamps := ut_lastAckTimestamps udp @ [time]\<rparr>"

text \<open>
  The new client object, then the five arrays if they are full, then the announcement to the server
  thread; a failure of any of them leaves the table as it was.
\<close>

definition udp_thread_new_client ::
    "udp_env \<Rightarrow> udp_thread \<Rightarrow> udp_client \<Rightarrow> nat \<Rightarrow> (int \<times> udp_thread) option" where
  "udp_thread_new_client env udp toCopy q =
     (case ue_object env of
        None \<Rightarrow> Some (-1, udp)
      | Some clientObject \<Rightarrow>
          let index = ut_count udp
          in if bit_is_pow2_or_zero (of_nat index) \<and> \<not> list_all (ue_grow env) [0..<5] then Some (-1, udp)
             else let toCopy = (udpc_set_index toCopy index)\<lparr>uc_clientObject := clientObject\<rparr>
                  in map_option (\<lambda>(rc, rb).
                       let udp = udp\<lparr>ut_queues := (ut_queues udp)(q := rb)\<rparr>
                       in if rc \<noteq> ERR_None then (-1, udp)
                          else (int index, udp_append_client (ue_now env) toCopy q udp))
                     (ringbuf_push (ut_queues udp q) ZOP_UDP_NewClient
                        (Some (ZNewClient (uc_ip toCopy) (uc_port toCopy) clientObject))))"

definition recv_op :: "udp_env \<Rightarrow> u8 list \<Rightarrow> bool \<Rightarrow> client_op" where
  "recv_op env data suppressRecv h c = udpc_recv_protocol (ue_alloc env) h c data (of_nat (length data)) suppressRecv"

text \<open>One datagram from \<open>recvfrom\<close>, which cuts it off at the size of the buffer.\<close>

definition udp_thread_recv_datagram ::
    "udp_env \<Rightarrow> udp_socket \<Rightarrow> udp_thread \<Rightarrow> u32 \<Rightarrow> u16 \<Rightarrow> u8 list \<Rightarrow> udp_thread option" where
  "udp_thread_recv_datagram env s udp ip port datagram =
     (let data = take UDP_THREAD_BUFFER_SIZE datagram
      in if length data < UDP_THREAD_MINIMUM_MEANINGFUL_PACKET_SIZE then Some udp
         else case udp_thread_get_client_by_ip udp ip port of
                Some index \<Rightarrow>
                  let udp = udp\<lparr>ut_recvTimestamps := (ut_recvTimestamps udp)[index := ue_now env]\<rparr>
                  in if flag_get (ut_flags udp ! index) UDP_FLAG_IgnorePackets then Some udp
                     else map_option (\<lambda>(r, udp).
                            if r then udp_flag index (\<lambda>v. flag_set v UDP_FLAG_ReadyToSend) udp else udp)
                          (udp_at index (ue_now env) (recv_op env data False) udp)
              | None \<Rightarrow>
                  do {
                    (r, newClient, udp) \<leftarrow> udp_run (ue_now env) (recv_op env data True)
                        (udpc_init (ue_lowestAck env) ip port (ut_queues udp (us_queue s))) (us_queue s) udp;
                    if r then do {
                      (index, udp) \<leftarrow> udp_thread_new_client env udp newClient (us_queue s);
                      if index \<noteq> -1 then map_option snd (udp_at (nat index) (ue_now env) (recv_op env data False) udp)
                      else Some udp
                    } else Some udp
                  })"

text \<open>For each socket, the datagrams that \<open>recvfrom\<close> returns until it would block.\<close>

type_synonym udp_arrival = "udp_env \<times> u32 \<times> u16 \<times> u8 list"

fun udp_read_socket :: "udp_socket \<Rightarrow> udp_arrival list \<Rightarrow> udp_thread \<Rightarrow> udp_thread option" where
  "udp_read_socket s [] udp = Some udp"
| "udp_read_socket s ((env, ip, port, datagram) # as) udp =
     Option.bind (udp_thread_recv_datagram env s udp ip port datagram) (udp_read_socket s as)"

fun udp_read_sockets :: "udp_socket list \<Rightarrow> udp_arrival list list \<Rightarrow> udp_thread \<Rightarrow> udp_thread option" where
  "udp_read_sockets (s # ss) (as # ass) udp = Option.bind (udp_read_socket s as udp) (udp_read_sockets ss ass)"
| "udp_read_sockets _ _ udp = Some udp"

definition udp_thread_process_socket_reads :: "udp_arrival list list \<Rightarrow> udp_thread \<Rightarrow> udp_thread option" where
  "udp_thread_process_socket_reads arrivals udp = udp_read_sockets (ut_sockets udp) arrivals udp"

section \<open>The other phases\<close>

fun udp_for :: "(nat \<Rightarrow> udp_thread \<Rightarrow> udp_thread option) \<Rightarrow> nat list \<Rightarrow> udp_thread \<Rightarrow> udp_thread option" where
  "udp_for f [] udp = Some udp"
| "udp_for f (i # is) udp = Option.bind (f i udp) (udp_for f is)"

definition send_op :: "udp_env \<Rightarrow> client_op" where
  "send_op env h c = map_option (Pair True) (udpc_send_queued_packets (ue_clock env) h c)"

definition udp_write_client :: "(nat \<Rightarrow> udp_env) \<Rightarrow> nat \<Rightarrow> udp_thread \<Rightarrow> udp_thread option" where
  "udp_write_client env i udp =
     (if \<not> flag_get (ut_flags udp ! i) UDP_FLAG_ReadyToSend then Some udp
      else map_option snd (udp_at i (ue_now (env i)) (send_op (env i))
             (udp_flag i (\<lambda>v. flag_unset v UDP_FLAG_ReadyToSend) udp)))"

definition udp_thread_process_socket_writes :: "(nat \<Rightarrow> udp_env) \<Rightarrow> udp_thread \<Rightarrow> udp_thread option" where
  "udp_thread_process_socket_writes env udp = udp_for (udp_write_client env) [0..<ut_count udp] udp"

definition linkdead_op :: client_op where
  "linkdead_op h c = map_option (\<lambda>c. (True, h, c)) (udpc_linkdead c)"

definition udp_check_timeout :: "u64 \<Rightarrow> nat \<Rightarrow> udp_thread \<Rightarrow> udp_thread option" where
  "udp_check_timeout time i udp =
     (if time - ut_recvTimestamps udp ! i \<ge> UDP_THREAD_LINKDEAD_TIMEOUT_MS
      then map_option snd (udp_at i time linkdead_op (udp_flag i (\<lambda>v. flag_set v UDP_FLAG_Dead) udp))
      else Some udp)"

definition udp_thread_check_client_timeouts :: "u64 \<Rightarrow> udp_thread \<Rightarrow> udp_thread option" where
  "udp_thread_check_client_timeouts time udp = udp_for (udp_check_timeout time) [0..<ut_count udp] udp"

definition keep_alive_op :: client_op where
  "keep_alive_op h c = map_option (\<lambda>c. (True, h, c)) (udpc_send_keep_alive_ack c)"

definition udp_keep_alive :: "u64 \<Rightarrow> nat \<Rightarrow> udp_thread \<Rightarrow> udp_thread option" where
  "udp_keep_alive time i udp =
     (if time - ut_lastAckTimestamps udp ! i \<ge> UDP_THREAD_KEEP_ALIVE_ACK_DELAY_MS
         \<and> ut_flags udp ! i AND (nth_bit UDP_FLAG_IgnorePackets OR nth_bit UDP_FLAG_Dead) = 0
      then map_option snd (udp_at i time keep_alive_op
             (udp\<lparr>ut_lastAckTimestamps := (ut_lastAckTimestamps udp)[i := time]\<rparr>))
      else Some udp)"

definition udp_thread_send_keep_alive_acks :: "u64 \<Rightarrow> udp_thread \<Rightarrow> udp_thread option" where
  "udp_thread_send_keep_alive_acks time udp = udp_for (udp_keep_alive time) [0..<ut_count udp] udp"

text \<open>The last entry takes the place of a removed one, in every array.\<close>

definition udp_move_entry :: "nat \<Rightarrow> nat \<Rightarrow> udp_thread \<Rightarrow> udp_thread" where
  "udp_move_entry i count udp =
     udp\<lparr>ut_addresses := (ut_addresses udp)[i := ut_addresses udp ! count],
         ut_clients := (ut_clients udp)[i := udpc_set_index (ut_clients udp ! count) i],
         ut_queueOf := (ut_queueOf udp)[i := ut_queueOf udp ! count],
         ut_flags := (ut_flags udp)[i := ut_flags udp ! count],
         ut_recvTimestamps := (ut_recvTimestamps udp)[i := ut_recvTimestamps udp ! count],
         ut_lastAckTimestamps := (ut_lastAckTimestamps udp)[i := ut_lastAckTimestamps udp ! count]\<rparr>"

definition close_op :: "udp_env \<Rightarrow> client_op" where
  "close_op env h c = map_option (\<lambda>c. Pair True (udpc_deinit h c)) (udpc_send_disconnect (ue_bytes env) c)"

function udp_cleanup_from :: "udp_env \<Rightarrow> nat \<Rightarrow> nat \<Rightarrow> udp_thread \<Rightarrow> (nat \<times> udp_thread) option" where
  "udp_cleanup_from env i count udp =
     (if i < count then
        if flag_get (ut_flags udp ! i) UDP_FLAG_Dead then
          Option.bind (udp_at i (ue_now env) (close_op env) udp)
            (\<lambda>(r, udp). udp_cleanup_from env i (count - 1) (udp_move_entry i (count - 1) udp))
        else udp_cleanup_from env (i + 1) count udp
      else Some (count, udp))"
  by pat_completeness auto
termination
  by (relation "measure (\<lambda>(env, i, count, udp). count - i)") auto

declare udp_cleanup_from.simps [simp del]

definition udp_truncate :: "nat \<Rightarrow> udp_thread \<Rightarrow> udp_thread" where
  "udp_truncate count udp =
     udp\<lparr>ut_addresses := take count (ut_addresses udp), ut_clients := take count (ut_clients udp),
         ut_queueOf := take count (ut_queueOf udp), ut_flags := take count (ut_flags udp),
         ut_recvTimestamps := take count (ut_recvTimestamps udp),
         ut_lastAckTimestamps := take count (ut_lastAckTimestamps udp)\<rparr>"

definition udp_thread_cleanup_dead_clients :: "udp_env \<Rightarrow> udp_thread \<Rightarrow> udp_thread option" where
  "udp_thread_cleanup_dead_clients env udp =
     map_option (\<lambda>(count, udp). udp_truncate count udp) (udp_cleanup_from env 0 (ut_count udp) udp)"

section \<open>The loop\<close>

definition udp_thread_on_terminate :: "udp_thread \<Rightarrow> udp_thread option" where
  "udp_thread_on_terminate udp =
     map_option (\<lambda>(rc, rb). udp\<lparr>ut_queues := (ut_queues udp)(ut_mainQueue udp := rb)\<rparr>)
       (ringbuf_push (ut_queues udp (ut_mainQueue udp)) ZOP_UDP_TerminateThread None)"

text \<open>What happens during one turn of the loop.\<close>

record udp_turn =
  tn_arrivals :: "udp_arrival list list"
  tn_commands :: "nat \<Rightarrow> udp_env"
  tn_fuel :: nat
  tn_writes :: "nat \<Rightarrow> udp_env"
  tn_timeouts :: u64
  tn_cleanup :: udp_env
  tn_keepAlive :: u64

definition udp_thread_turn :: "udp_turn \<Rightarrow> udp_thread \<Rightarrow> (bool \<times> udp_thread) option" where
  "udp_thread_turn t udp =
     do {
       udp \<leftarrow> udp_thread_process_socket_reads (tn_arrivals t) udp;
       (go, udp) \<leftarrow> udp_thread_process_commands (tn_commands t) (tn_fuel t) udp;
       if \<not> go then map_option (Pair False) (udp_thread_on_terminate udp)
       else do {
         udp \<leftarrow> udp_thread_process_socket_writes (tn_writes t) udp;
         udp \<leftarrow> udp_thread_check_client_timeouts (tn_timeouts t) udp;
         udp \<leftarrow> udp_thread_cleanup_dead_clients (tn_cleanup t) udp;
         udp \<leftarrow> udp_thread_send_keep_alive_acks (tn_keepAlive t) udp;
         Some (True, udp)
       }
     }"

text \<open>
  The thread among the others. A turn is cut where another thread can come between: after each phase,
  and after each command of the loop over the queue. The other threads push commands
  (\<open>udp_open_port\<close>, \<open>udp_schedule_packet\<close>, the disconnects and replacements of the server threads),
  put messages into the queues that they share with the network thread or take them out, and write and
  release packets; any of this can happen at any time.
\<close>

datatype udp_phase = Reading | Commanded | Writing | Timing_Out | Cleaning_Up | Keeping_Alive | Ended

inductive udp_thread_proc :: "udp_thread \<Rightarrow> udp_phase \<Rightarrow> udp_thread \<Rightarrow> bool" for start where
  entered: "udp_thread_proc start Reading start"
| reads: "udp_thread_proc start Reading udp \<Longrightarrow> udp_thread_process_socket_reads arrivals udp = Some udp' \<Longrightarrow>
    udp_thread_proc start Commanded udp'"
| command: "udp_thread_proc start Commanded udp \<Longrightarrow> ringbuf_pop (ut_udpQueue udp) = Some (rc, Some (zop, cmd), rb) \<Longrightarrow>
    zop \<noteq> ZOP_UDP_TerminateThread \<Longrightarrow> udp_thread_handle_command env zop cmd (udp\<lparr>ut_udpQueue := rb\<rparr>) = Some udp' \<Longrightarrow>
    udp_thread_proc start Commanded udp'"
| terminated: "udp_thread_proc start Commanded udp \<Longrightarrow>
    ringbuf_pop (ut_udpQueue udp) = Some (rc, Some (ZOP_UDP_TerminateThread, cmd), rb) \<Longrightarrow>
    udp_thread_on_terminate (udp\<lparr>ut_udpQueue := rb\<rparr>) = Some udp' \<Longrightarrow> udp_thread_proc start Ended udp'"
| worked_off: "udp_thread_proc start Commanded udp \<Longrightarrow> ringbuf_pop (ut_udpQueue udp) = Some (rc, None, rb) \<Longrightarrow>
    udp_thread_proc start Writing (udp\<lparr>ut_udpQueue := rb\<rparr>)"
| writes: "udp_thread_proc start Writing udp \<Longrightarrow> udp_thread_process_socket_writes envs udp = Some udp' \<Longrightarrow>
    udp_thread_proc start Timing_Out udp'"
| timeouts: "udp_thread_proc start Timing_Out udp \<Longrightarrow> udp_thread_check_client_timeouts time udp = Some udp' \<Longrightarrow>
    udp_thread_proc start Cleaning_Up udp'"
| cleanup: "udp_thread_proc start Cleaning_Up udp \<Longrightarrow> udp_thread_cleanup_dead_clients env udp = Some udp' \<Longrightarrow>
    udp_thread_proc start Keeping_Alive udp'"
| keep_alive: "udp_thread_proc start Keeping_Alive udp \<Longrightarrow> udp_thread_send_keep_alive_acks time udp = Some udp' \<Longrightarrow>
    udp_thread_proc start Reading udp'"
| other_command: "udp_thread_proc start phase udp \<Longrightarrow> ringbuf_push (ut_udpQueue udp) zop p = Some (rc, rb) \<Longrightarrow>
    udp_thread_proc start phase (udp\<lparr>ut_udpQueue := rb\<rparr>)"
| other_push: "udp_thread_proc start phase udp \<Longrightarrow> ringbuf_push (ut_queues udp q) zop m = Some (rc, rb) \<Longrightarrow>
    udp_thread_proc start phase (udp\<lparr>ut_queues := (ut_queues udp)(q := rb)\<rparr>)"
| other_wait: "udp_thread_proc start phase udp \<Longrightarrow> ringbuf_wait (ut_queues udp q) = Some (rc, rb) \<Longrightarrow>
    udp_thread_proc start phase (udp\<lparr>ut_queues := (ut_queues udp)(q := rb)\<rparr>)"
| other_pop: "udp_thread_proc start phase udp \<Longrightarrow> ringbuf_pop (ut_queues udp q) = Some (rc, out, rb) \<Longrightarrow>
    udp_thread_proc start phase (udp\<lparr>ut_queues := (ut_queues udp)(q := rb)\<rparr>)"
| other_packets: "udp_thread_proc start phase udp \<Longrightarrow> udp_thread_proc start phase (udp\<lparr>ut_heap := h\<rparr>)"

text \<open>An undisturbed turn is such a sequence of steps.\<close>

lemma process_commands_steps:
  "udp_thread_proc start Commanded udp \<Longrightarrow> udp_thread_process_commands env n udp = Some (go, udp') \<Longrightarrow>
   if go then udp_thread_proc start Writing udp'
   else \<forall>udp''. udp_thread_on_terminate udp' = Some udp'' \<longrightarrow> udp_thread_proc start Ended udp''"
proof (induction n arbitrary: udp)
  case (Suc n)
  obtain rc out rb where p: "ringbuf_pop (ut_udpQueue udp) = Some (rc, out, rb)"
    using Suc.prems(2) by (auto split: option.splits)
  show ?case
  proof (cases out)
    case None
    then show ?thesis using Suc.prems p by (auto intro: udp_thread_proc.worked_off)
  next
    case (Some x)
    then obtain zop cmd where x: "out = Some (zop, cmd)" by (cases x) auto
    show ?thesis
    proof (cases "zop = ZOP_UDP_TerminateThread")
      case True
      then show ?thesis using Suc.prems p x by (auto intro: udp_thread_proc.terminated)
    next
      case False
      then obtain v where v: "udp_thread_handle_command (env n) zop cmd (udp\<lparr>ut_udpQueue := rb\<rparr>) = Some v"
        "udp_thread_process_commands env n v = Some (go, udp')"
        using Suc.prems(2) p x by (auto simp: bind_eq_Some_conv)
      show ?thesis
        by (rule Suc.IH [OF udp_thread_proc.command [OF Suc.prems(1) p [unfolded x] False v(1)] v(2)])
    qed
  qed
qed simp

lemma turn_steps:
  assumes "udp_thread_proc start Reading udp" "udp_thread_turn t udp = Some (go, udp')"
  shows "udp_thread_proc start (if go then Reading else Ended) udp'"
proof -
  obtain g u1 u2 where u: "udp_thread_process_socket_reads (tn_arrivals t) udp = Some u1"
    "udp_thread_process_commands (tn_commands t) (tn_fuel t) u1 = Some (g, u2)"
    using assms(2) by (auto simp: udp_thread_turn_def bind_eq_Some_conv split: if_splits)
  note c = process_commands_steps [OF udp_thread_proc.reads [OF assms(1) u(1)] u(2)]
  show ?thesis
  proof (cases g)
    case True
    then obtain u3 u4 u5 where v: "udp_thread_process_socket_writes (tn_writes t) u2 = Some u3"
      "udp_thread_check_client_timeouts (tn_timeouts t) u3 = Some u4"
      "udp_thread_cleanup_dead_clients (tn_cleanup t) u4 = Some u5"
      "udp_thread_send_keep_alive_acks (tn_keepAlive t) u5 = Some udp'" "go"
      using assms(2) u by (auto simp: udp_thread_turn_def bind_eq_Some_conv)
    have "udp_thread_proc start Writing u2" using c True by simp
    note udp_thread_proc.writes [OF this v(1)]
    note udp_thread_proc.timeouts [OF this v(2)]
    note udp_thread_proc.cleanup [OF this v(3)]
    note udp_thread_proc.keep_alive [OF this v(4)]
    then show ?thesis using v(5) by simp
  next
    case False
    then show ?thesis using assms(2) u c by (auto simp: udp_thread_turn_def)
  qed
qed

section \<open>Creation, destruction and the interface of the other threads\<close>

definition udp_create :: "bool \<Rightarrow> bool \<Rightarrow> bool \<Rightarrow> bool \<Rightarrow> udp_command \<Rightarrow> (nat \<Rightarrow> zpacket ringbuf) \<Rightarrow> nat \<Rightarrow> pheap \<Rightarrow> udp_thread option" where
  "udp_create alloc_ok log_ok queue_ok thread_ok blank queues mainQueue h =
     (if alloc_ok \<and> log_ok \<and> queue_ok \<and> thread_ok
      then Some \<lparr>ut_sockets = [], ut_addresses = [], ut_clients = [], ut_queueOf = [], ut_flags = [],
        ut_recvTimestamps = [], ut_lastAckTimestamps = [], ut_udpQueue = ringbuf_init blank 1024,
        ut_mainQueue = mainQueue, ut_queues = queues, ut_heap = h, ut_wire = []\<rparr>
      else None)"

text \<open>Only the packets outlive the thread.\<close>

definition udp_free_clients :: "udp_thread \<Rightarrow> udp_thread" where
  "udp_free_clients udp =
     udp\<lparr>ut_heap := fold (\<lambda>c h. fst (udpc_deinit h c)) (ut_clients udp) (ut_heap udp), ut_clients := []\<rparr>"

definition udp_free_sockets :: "udp_thread \<Rightarrow> udp_thread" where
  "udp_free_sockets udp = udp\<lparr>ut_sockets := []\<rparr>"

definition udp_destroy :: "udp_thread \<Rightarrow> pheap" where
  "udp_destroy udp = ut_heap (udp_free_clients (udp_free_sockets udp))"

definition udp_open_port :: "udp_command \<Rightarrow> udp_thread \<Rightarrow> u16 \<Rightarrow> u32 \<Rightarrow> nat \<Rightarrow> (zerr \<times> udp_thread) option" where
  "udp_open_port junk udp port clientSize toServerQueue =
     map_option (\<lambda>(rc, rb). (rc, udp\<lparr>ut_udpQueue := rb\<rparr>))
       (ringbuf_push (ut_udpQueue udp) ZOP_UDP_OpenPort
          (Some (junk\<lparr>cmd_openPort := port, cmd_clientSize := clientSize, cmd_queue := toServerQueue\<rparr>)))"

definition udp_schedule_packet ::
    "udp_command \<Rightarrow> udp_thread \<Rightarrow> u32 \<Rightarrow> u16 \<Rightarrow> u64 option \<Rightarrow> (zerr \<times> udp_thread) option" where
  "udp_schedule_packet junk udp ip port packet =
     (case packet of
        None \<Rightarrow> Some (ERR_Invalid, udp)
      | Some q \<Rightarrow>
          do {
            p \<leftarrow> ut_heap udp q;
            let p = packet_grab (if packet_already_fragmentized p then p else packet_fragmentize p);
            (rc, rb) \<leftarrow> ringbuf_push (ut_udpQueue udp) ZOP_UDP_ToClientPacketScheduled
                (Some (junk\<lparr>cmd_ip := ip, cmd_port := port, cmd_packet := q\<rparr>));
            Some (rc, udp\<lparr>ut_udpQueue := rb,
                          ut_heap := (ut_heap udp)(q := if rc \<noteq> ERR_None then packet_drop p else Some p)\<rparr>)
          })"

end
