(* ===== verification/Zeq_UdpTable.thy ===== *)
theory Zeq_UdpTable
  imports Zeq_UdpThread Zeq_SwapPop
begin

text \<open>
  The invariant of the connection table: the parallel arrays agree, no two connections share an
  address, and every client knows its own position. It is what makes the timestamps that
  \<open>udpc_flag_last_ack\<close> writes through the stored index land in the right place.
\<close>

section \<open>What an operation of a client may change\<close>

definition keeps_id :: "udp_client \<Rightarrow> udp_client \<Rightarrow> bool" where
  "keeps_id c c' \<longleftrightarrow> uc_ip c' = uc_ip c \<and> uc_port c' = uc_port c \<and> uc_udpIndex c' = uc_udpIndex c
     \<and> (\<exists>fs. uc_ackFlags c' = uc_ackFlags c @ fs \<and> (\<forall>j \<in> set fs. int j = uc_udpIndex c))
     \<and> (rb_inv (uc_toServerQueue c) \<longrightarrow> rb_inv (uc_toServerQueue c'))"

lemma keeps_id_refl [simp, intro]: "keeps_id c c"
  by (simp add: keeps_id_def)

lemma keeps_id_trans [trans]: "keeps_id a b \<Longrightarrow> keeps_id b c \<Longrightarrow> keeps_id a c"
  unfolding keeps_id_def by (elim conjE exE) auto

lemma keeps_id_simple [simp]:
  "keeps_id c (c\<lparr>uc_ackMgr := am\<rparr>)" "keeps_id c (c\<lparr>uc_sent := ds\<rparr>)" "keeps_id c (c\<lparr>uc_clientObject := ob\<rparr>)"
  "keeps_id c (set_toServer c ts)" "keeps_id c (udpc_send_immediate c d n)"
  by (simp_all add: keeps_id_def set_toServer_def udpc_send_immediate_def)

lemma push_keeps_inv: "rb_inv rb \<Longrightarrow> ringbuf_push rb zop (Some z) = Some (rc, rb') \<Longrightarrow> rb_inv rb'"
  by (rule ringbuf_push_ok [of rb zop z]) auto

lemma keeps_id_push: "ringbuf_push (uc_toServerQueue c) zop (Some z) = Some (rc, rb) \<Longrightarrow> keeps_id c (c\<lparr>uc_toServerQueue := rb\<rparr>)"
  by (auto simp: keeps_id_def intro: push_keeps_inv)

lemma udpc_push_keeps: "udpc_push c zop z = Some c' \<Longrightarrow> keeps_id c c'"
  by (auto simp: udpc_push_def keeps_id_push)

lemma udpc_report_keeps: "udpc_report_disconnect c zop = Some c' \<Longrightarrow> keeps_id c c'"
  by (auto simp: udpc_report_disconnect_def udpc_push_keeps)

lemma udpc_next_seq_keeps: "udpc_next_seq c = (s, c') \<Longrightarrow> keeps_id c c'"
  by (auto simp: udpc_next_seq_def case_prod_beta)

lemma flag_last_ack_keeps: "keeps_id c (udpc_flag_last_ack c)"
  by (auto simp: udpc_flag_last_ack_def keeps_id_def Let_def)

lemma keeps_id_flag: "keeps_id a b \<Longrightarrow> keeps_id (udpc_flag_last_ack b) c \<Longrightarrow> keeps_id a c"
  using keeps_id_trans flag_last_ack_keeps by blast

lemma disconnect_keeps: "udpc_send_disconnect junk c = Some c' \<Longrightarrow> keeps_id c c'"
proof -
  assume a: "udpc_send_disconnect junk c = Some c'"
  obtain s c1 where n: "udpc_next_seq c = (s, c1)" by (cases "udpc_next_seq c") auto
  obtain c2 d where "udpc_report_disconnect c1 ZOP_UDP_ClientDisconnect = Some c2" "c' = udpc_send_immediate c2 d 8"
    using a by (auto simp: udpc_send_disconnect_def n Let_def)
  then show ?thesis
    using udpc_next_seq_keeps [OF n] udpc_report_keeps keeps_id_simple(5) keeps_id_trans by metis
qed

lemma send_ack_keeps: "udpc_send_ack c ack = Some c' \<Longrightarrow> keeps_id c c'"
  by (auto simp: udpc_send_ack_def Let_def case_prod_beta bind_eq_Some_conv intro: keeps_id_trans [OF udpc_next_seq_keeps])
    (metis keeps_id_simple(5) keeps_id_trans prod.collapse udpc_next_seq_keeps)

lemma pure_ack_keeps: "udpc_send_pure_ack c ack = Some c' \<Longrightarrow> keeps_id c c'"
  unfolding udpc_send_pure_ack_def by (rule keeps_id_trans [OF flag_last_ack_keeps send_ack_keeps])

lemma keep_alive_keeps: "udpc_send_keep_alive_ack c = Some c' \<Longrightarrow> keeps_id c c'"
  unfolding udpc_send_keep_alive_ack_def case_prod_beta Let_def
  by (rule keeps_id_trans [OF keeps_id_simple(1) send_ack_keeps])

lemma schedule_keeps: "udpc_schedule_packet alloc w h c p r = Some (h', c') \<Longrightarrow> keeps_id c c'"
  by (auto simp: udpc_schedule_packet_def)

lemma replace_keeps: "udpc_replace_client_object c ob = Some c' \<Longrightarrow> keeps_id c c'"
  unfolding udpc_replace_client_object_def Let_def by (rule keeps_id_trans [OF keeps_id_simple(3) udpc_push_keeps])

lemma linkdead_keeps: "udpc_linkdead c = Some c' \<Longrightarrow> keeps_id c c'"
  by (simp add: udpc_linkdead_def udpc_report_keeps)

lemma deinit_keeps: "udpc_deinit h c = (h', c') \<Longrightarrow> keeps_id c c'"
  by (auto simp: udpc_deinit_def case_prod_beta)

section \<open>Receiving\<close>

lemma no_copy_keeps: "udpc_recv_packet_no_copy c d n opcode = Some c' \<Longrightarrow> keeps_id c c'"
  by (auto simp: udpc_recv_packet_no_copy_def keeps_id_push split: if_splits)

lemma recv_packet_keeps: "udpc_recv_packet alloc c a opcode = Some c' \<Longrightarrow> keeps_id c c'"
  by (auto simp: udpc_recv_packet_def Let_def no_copy_keeps split: if_splits)

lemma complete_keeps:
  "ack_complete_packet c p = Some c' \<Longrightarrow> keeps_id c c'"
  "ack_complete_fragments alloc c array len i n = Some (c', array') \<Longrightarrow> keeps_id c c'"
  by (auto simp: ack_complete_packet_def ack_complete_fragments_def Let_def no_copy_keeps bind_eq_Some_conv split: if_splits)

lemma drive_keeps: "ack_drive alloc n i l = Some l' \<Longrightarrow> keeps_id (rl_udpc l) (rl_udpc l')"
proof (induction "n - i" arbitrary: i l rule: less_induct)
  case less
  show ?case
  proof (cases "i < n")
    case True
    then have IH: "ack_drive alloc n (Suc i) k = Some l' \<Longrightarrow> keeps_id (rl_udpc k) (rl_udpc l')" for k
      using less(1) [of "Suc i" k] by simp
    show ?thesis using less(2) True
      by (subst (asm) ack_drive.simps)
        (auto simp: Let_def bind_eq_Some_conv dest!: complete_keeps IH intro: keeps_id_trans split: if_splits)
  qed (use less(2) in \<open>simp add: ack_drive.simps\<close>)
qed

lemma process_queue_keeps: "ack_process_queue alloc c nextAck = Some c' \<Longrightarrow> keeps_id c c'"
  by (auto simp: ack_process_queue_def Let_def bind_eq_Some_conv dest!: drive_keeps
      intro: keeps_id_trans [OF _ keeps_id_simple(4)] split: if_splits)

lemma ack_recv_packet_keeps: "ack_recv_packet alloc c a opcode r n = Some c' \<Longrightarrow> keeps_id c c'"
  by (auto simp: ack_recv_packet_def Let_def bind_eq_Some_conv dest!: process_queue_keeps recv_packet_keeps
      intro: keeps_id_trans [OF keeps_id_simple(4)] split: if_splits option.splits)

lemma deliver_keeps: "udpc_deliver alloc c a opcode r n s = Some c' \<Longrightarrow> keeps_id c c'"
  by (auto simp: udpc_deliver_def ack_recv_packet_keeps recv_packet_keeps split: if_splits)

lemma recv_rest_keeps: "udpc_recv_rest alloc c hdr a s = Some (r, c') \<Longrightarrow> keeps_id c c'"
  by (auto simp: udpc_recv_rest_def Let_def dest!: pure_ack_keeps deliver_keeps
      intro: keeps_id_trans [OF keeps_id_simple(1)] split: parsed.splits if_splits)

lemma recv_protocol_keeps: "udpc_recv_protocol alloc h c d n s = Some (r, h', c') \<Longrightarrow> keeps_id c c'"
  by (auto simp: udpc_recv_protocol_def udpc_recv_checked_def Let_def bind_eq_Some_conv case_prod_beta dest!: recv_rest_keeps
      intro: keeps_id_trans [OF keeps_id_simple(1)] split: if_splits)

section \<open>Sending\<close>

lemma send_fragment_keeps: "ack_send_fragment c w a n opcode r ack i = Some (c', a') \<Longrightarrow> keeps_id c c'"
  unfolding ack_send_fragment_def Let_def bind_eq_Some_conv case_prod_beta option.inject prod.inject
  by (elim exE conjE) (use keeps_id_trans [OF udpc_next_seq_keeps [OF prod.collapse [symmetric]] keeps_id_simple(5)] in blast)

lemma send_fragments_keeps:
  "ack_send_fragments clock ack opcode i w d n a l = Some (w', a', l') \<Longrightarrow> keeps_id (sl_udpc l) (sl_udpc l')"
proof (induction "n - i" arbitrary: i w d a l rule: less_induct)
  case less
  show ?case
  proof (cases "i < n")
    case True
    then have IH: "ack_send_fragments clock ack opcode j v e n b k = Some (w', a', l') \<Longrightarrow> j = Suc i \<Longrightarrow>
      keeps_id (sl_udpc k) (sl_udpc l')" for j v e b k
      using less(1) [of "Suc i" v e b k] by simp
    show ?thesis using less(2) True
      by (subst (asm) ack_send_fragments.simps)
        (auto simp: Let_def bind_eq_Some_conv dest!: send_fragment_keeps IH intro: keeps_id_trans keeps_id_flag split: if_splits)
  qed (use less(2) in \<open>simp add: ack_send_fragments.simps\<close>)
qed

lemma send_packet_keeps:
  "ack_send_packet clock time r ack from i h l = Some (h', l') \<Longrightarrow> keeps_id (sl_udpc l) (sl_udpc l')"
  by (auto simp: ack_send_packet_def Let_def bind_eq_Some_conv dest!: send_fragments_keeps
      intro: keeps_id_trans [OF _ keeps_id_simple(1)] split: if_splits)

lemma send_packets_keeps:
  "ack_send_packets clock time r ack from is h l = Some (h', l') \<Longrightarrow> keeps_id (sl_udpc l) (sl_udpc l')"
  by (induction "is" arbitrary: h l)
    (auto simp: bind_eq_Some_conv dest!: send_packet_keeps intro: keeps_id_trans)

lemma send_queued_keeps:
  assumes "udpc_send_queued_packets clock h c = Some (h', c')"
  shows "keeps_id c c'"
proof -
  obtain a b d f r k hh l u am where p: "ack_send_packets clock a b d f r h k = Some (hh, l)" "sl_udpc k = c"
    "(if sl_hasAckResponse l = 1 then udpc_send_pure_ack (sl_udpc l) d else Some (sl_udpc l)) = Some u"
    "c' = u\<lparr>uc_ackMgr := am\<rparr>"
    using assms unfolding udpc_send_queued_packets_def ack_send_queued_packets_def Let_def bind_eq_Some_conv case_prod_beta
      option.inject prod.inject by (elim exE conjE) (metis prod.collapse send_loop.select_convs(1))
  have "keeps_id c (sl_udpc l)" using send_packets_keeps [OF p(1)] p(2) by simp
  moreover have "keeps_id (sl_udpc l) u" using p(3) pure_ack_keeps by (auto split: if_splits)
  ultimately show ?thesis unfolding p(4) using keeps_id_trans keeps_id_simple(1) by blast
qed

section \<open>The invariant\<close>

text \<open>The first \<open>k\<close> entries are in order; the removal of clients works on a prefix that shrinks.\<close>

definition same_lengths :: "udp_thread \<Rightarrow> bool" where
  "same_lengths udp \<longleftrightarrow> length (ut_addresses udp) = ut_count udp \<and> length (ut_queueOf udp) = ut_count udp
     \<and> length (ut_flags udp) = ut_count udp \<and> length (ut_recvTimestamps udp) = ut_count udp
     \<and> length (ut_lastAckTimestamps udp) = ut_count udp"

definition entry_ok :: "udp_thread \<Rightarrow> nat \<Rightarrow> bool" where
  "entry_ok udp i \<longleftrightarrow> (let c = ut_clients udp ! i in uc_udpIndex c = int i \<and> ut_addresses udp ! i = (uc_ip c, uc_port c)
     \<and> uc_sent c = [] \<and> uc_ackFlags c = [])"

definition table_ok :: "nat \<Rightarrow> udp_thread \<Rightarrow> bool" where
  "table_ok k udp \<longleftrightarrow> same_lengths udp \<and> k \<le> ut_count udp \<and> (\<forall>i < k. entry_ok udp i)
     \<and> distinct (take k (ut_addresses udp)) \<and> (\<forall>q. rb_inv (ut_queues udp q))"

definition udp_ok :: "udp_thread \<Rightarrow> bool" where
  "udp_ok udp \<longleftrightarrow> table_ok (ut_count udp) udp"

definition op_keeps :: "client_op \<Rightarrow> bool" where
  "op_keeps f \<longleftrightarrow> (\<forall>h c r h' c'. f h c = Some (r, h', c') \<longrightarrow> keeps_id c c')"

lemma ops_keep [simp, intro]:
  "op_keeps (recv_op env d s)" "op_keeps (send_op env)" "op_keeps linkdead_op" "op_keeps keep_alive_op"
  "op_keeps (disconnect_op env)" "op_keeps (close_op env)"
  "op_keeps (\<lambda>h c. map_option (Pair True) (udpc_schedule_packet alloc w h c p r))"
  "op_keeps (\<lambda>h c. map_option (\<lambda>c. (True, h, c)) (udpc_replace_client_object c ob))"
  by (auto simp: op_keeps_def recv_op_def send_op_def linkdead_op_def keep_alive_op_def disconnect_op_def close_op_def
      dest: recv_protocol_keeps send_queued_keeps linkdead_keeps keep_alive_keeps disconnect_keeps schedule_keeps replace_keeps
      intro: keeps_id_trans [OF disconnect_keeps deinit_keeps] dest!: sym [of "(_, _)"])

text \<open>What the thread sees of an operation: effects on the outside, and timestamps at the client's own index.\<close>

definition effects :: "int \<Rightarrow> udp_thread \<Rightarrow> udp_thread \<Rightarrow> bool" where
  "effects i udp udp' \<longleftrightarrow> (\<exists>ts qs h ds. udp' = udp\<lparr>ut_lastAckTimestamps := ts, ut_queues := qs, ut_heap := h, ut_wire := ds\<rparr>
     \<and> length ts = length (ut_lastAckTimestamps udp) \<and> (\<forall>j. int j \<noteq> i \<longrightarrow> ts ! j = ut_lastAckTimestamps udp ! j)
     \<and> (\<forall>q. rb_inv (qs q)))"

lemma effectsI:
  "length ts = length (ut_lastAckTimestamps udp) \<Longrightarrow> (\<And>j. int j \<noteq> i \<Longrightarrow> ts ! j = ut_lastAckTimestamps udp ! j) \<Longrightarrow>
   (\<And>q. rb_inv (qs q)) \<Longrightarrow> effects i udp (udp\<lparr>ut_lastAckTimestamps := ts, ut_queues := qs, ut_heap := h, ut_wire := ds\<rparr>)"
  unfolding effects_def by (intro exI [of _ ts] exI [of _ qs] exI [of _ h] exI [of _ ds]) auto

lemma update_timestamps:
  "udp_update_ack_timestamps fs now udp = Some udp' \<Longrightarrow> \<forall>j \<in> set fs. int j = i \<Longrightarrow>
    \<exists>ts. udp' = udp\<lparr>ut_lastAckTimestamps := ts\<rparr> \<and> length ts = length (ut_lastAckTimestamps udp)
      \<and> (\<forall>j. int j \<noteq> i \<longrightarrow> ts ! j = ut_lastAckTimestamps udp ! j)"
proof (induction fs arbitrary: udp)
  case Nil
  then show ?case by (auto intro!: exI [of _ "ut_lastAckTimestamps udp"])
next
  case (Cons f fs)
  from Cons.prems(1) have "f < length (ut_lastAckTimestamps udp)"
    "udp_update_ack_timestamps fs now (udp\<lparr>ut_lastAckTimestamps := (ut_lastAckTimestamps udp)[f := now]\<rparr>) = Some udp'"
    by (auto simp: udp_thread_update_ack_timestamp_def split: if_splits)
  moreover have f: "int f = i" "\<forall>j \<in> set fs. int j = i" using Cons.prems(2) by simp_all
  ultimately obtain ts where ts: "udp' = udp\<lparr>ut_lastAckTimestamps := (ut_lastAckTimestamps udp)[f := now]\<rparr>\<lparr>ut_lastAckTimestamps := ts\<rparr>"
    "length ts = length ((ut_lastAckTimestamps udp)[f := now])"
    "\<forall>j. int j \<noteq> i \<longrightarrow> ts ! j = (ut_lastAckTimestamps udp)[f := now] ! j"
    using Cons.IH [OF _ f(2)] by force
  show ?case by (rule exI [of _ ts]) (use ts f(1) in \<open>auto simp: nth_list_update\<close>)
qed

lemma udp_run_effects:
  assumes "udp_run now f c q udp = Some (r, c', udp')" "op_keeps f" "uc_ackFlags c = []" "\<forall>q. rb_inv (ut_queues udp q)"
  shows "uc_ip c' = uc_ip c" "uc_port c' = uc_port c" "uc_udpIndex c' = uc_udpIndex c" "uc_sent c' = []" "uc_ackFlags c' = []"
    "effects (uc_udpIndex c) udp udp'"
proof -
  obtain h d udp1 where r: "f (ut_heap udp) (c\<lparr>uc_toServerQueue := ut_queues udp q\<rparr>) = Some (r, h, d)"
    "udp_update_ack_timestamps (uc_ackFlags d) now udp = Some udp1" "c' = d\<lparr>uc_sent := [], uc_ackFlags := []\<rparr>"
    "udp' = udp1\<lparr>ut_queues := (ut_queues udp1)(q := uc_toServerQueue d), ut_heap := h,
       ut_wire := ut_wire udp1 @ map (\<lambda>x. (uc_ip d, uc_port d, x)) (uc_sent d)\<rparr>"
    using assms(1) by (auto simp: udp_run_def bind_eq_Some_conv)
  have k: "keeps_id (c\<lparr>uc_toServerQueue := ut_queues udp q\<rparr>) d" using r(1) assms(2) by (auto simp: op_keeps_def)
  then have d: "uc_ip d = uc_ip c" "uc_port d = uc_port c" "uc_udpIndex d = uc_udpIndex c"
    "\<forall>j \<in> set (uc_ackFlags d). int j = uc_udpIndex c" "rb_inv (uc_toServerQueue d)"
    using assms(3,4) by (auto simp: keeps_id_def)
  then show "uc_ip c' = uc_ip c" "uc_port c' = uc_port c" "uc_udpIndex c' = uc_udpIndex c" "uc_sent c' = []" "uc_ackFlags c' = []"
    using r(3) by simp_all
  obtain ts where "udp1 = udp\<lparr>ut_lastAckTimestamps := ts\<rparr>" "length ts = length (ut_lastAckTimestamps udp)"
    "\<forall>j. int j \<noteq> uc_udpIndex c \<longrightarrow> ts ! j = ut_lastAckTimestamps udp ! j"
    using update_timestamps [OF r(2) d(4)] by blast
  then show "effects (uc_udpIndex c) udp udp'" using r(4) d(5) assms(4) by (auto intro: effectsI)
qed

section \<open>Every operation keeps it\<close>

lemma table_ok_fields [simp]:
  "table_ok k (udp_flag i f udp) = table_ok k udp"
  "table_ok k (udp\<lparr>ut_recvTimestamps := (ut_recvTimestamps udp)[i := t]\<rparr>) = table_ok k udp"
  "table_ok k (udp\<lparr>ut_lastAckTimestamps := (ut_lastAckTimestamps udp)[i := t]\<rparr>) = table_ok k udp"
  "table_ok k (udp\<lparr>ut_sockets := ss\<rparr>) = table_ok k udp"
  "table_ok k (udp\<lparr>ut_udpQueue := rb\<rparr>) = table_ok k udp"
  "ut_count (udp_flag i f udp) = ut_count udp"
  by (simp_all add: table_ok_def same_lengths_def entry_ok_def ut_count_def udp_flag_def)

definition same_rest :: "udp_thread \<Rightarrow> udp_thread \<Rightarrow> bool" where
  "same_rest udp udp' \<longleftrightarrow> ut_sockets udp' = ut_sockets udp \<and> ut_addresses udp' = ut_addresses udp
     \<and> ut_queueOf udp' = ut_queueOf udp \<and> ut_flags udp' = ut_flags udp \<and> ut_recvTimestamps udp' = ut_recvTimestamps udp
     \<and> ut_udpQueue udp' = ut_udpQueue udp \<and> ut_mainQueue udp' = ut_mainQueue udp \<and> ut_count udp' = ut_count udp
     \<and> length (ut_lastAckTimestamps udp') = length (ut_lastAckTimestamps udp)"

lemma effects_rest:
  assumes "effects i udp udp'"
  shows "same_rest udp udp'" "ut_clients udp' = ut_clients udp" "\<forall>q. rb_inv (ut_queues udp' q)"
    "\<forall>j. int j \<noteq> i \<longrightarrow> ut_lastAckTimestamps udp' ! j = ut_lastAckTimestamps udp ! j"
  using assms by (auto simp: effects_def same_rest_def ut_count_def)

lemma table_ok_effects: "effects i udp udp' \<Longrightarrow> table_ok k udp \<Longrightarrow> table_ok k udp'"
  using effects_rest [of i udp udp'] by (simp add: table_ok_def same_lengths_def same_rest_def entry_ok_def)

lemma udp_at_ok:
  assumes "udp_at i now f udp = Some (r, udp')" "op_keeps f" "table_ok k udp" "i < k"
  shows "table_ok k udp'" "same_rest udp udp'" "\<forall>j. j \<noteq> i \<longrightarrow> ut_clients udp' ! j = ut_clients udp ! j"
    "\<forall>j. j \<noteq> i \<longrightarrow> ut_lastAckTimestamps udp' ! j = ut_lastAckTimestamps udp ! j"
proof -
  let ?c = "ut_clients udp ! i"
  obtain c udp1 where c: "udp_run now f ?c (ut_queueOf udp ! i) udp = Some (r, c, udp1)"
    "udp' = udp1\<lparr>ut_clients := (ut_clients udp1)[i := c]\<rparr>" "i < length (ut_clients udp)"
    using assms(1) by (auto simp: udp_at_def split: if_splits)
  have e: "entry_ok udp i" "\<forall>q. rb_inv (ut_queues udp q)" using assms(3,4) by (simp_all add: table_ok_def)
  then have "uc_ackFlags ?c = []" "uc_udpIndex ?c = int i" by (simp_all add: entry_ok_def Let_def)
  note r = udp_run_effects [OF c(1) assms(2) this(1) e(2), unfolded this(2)]
  note f = effects_rest [OF r(6)]
  have "entry_ok udp' j" if "j < k" for j
    using that assms(3) r(1-5) e(1) c(3) f(1,2)
    by (cases "j = i") (simp_all add: table_ok_def entry_ok_def Let_def c(2) same_rest_def)
  then show "table_ok k udp'"
    using assms(3) f by (simp add: c(2) table_ok_def same_lengths_def same_rest_def ut_count_def)
  show "same_rest udp udp'" using f(1,2) by (simp add: c(2) same_rest_def ut_count_def)
  show "\<forall>j. j \<noteq> i \<longrightarrow> ut_clients udp' ! j = ut_clients udp ! j"
    "\<forall>j. j \<noteq> i \<longrightarrow> ut_lastAckTimestamps udp' ! j = ut_lastAckTimestamps udp ! j"
    using f(2,4) by (simp_all add: c(2))
qed

lemma udp_at_keeps:
  assumes "udp_ok udp" "i < ut_count udp" "op_keeps f" "udp_at i now f udp = Some (r, udp')"
  shows "udp_ok udp'" "ut_count udp' = ut_count udp"
  using udp_at_ok [OF assms(4,3) assms(1) [unfolded udp_ok_def] assms(2)] by (auto simp: udp_ok_def same_rest_def)

lemma udp_ok_fields [simp]:
  "udp_ok (udp_flag i f udp) = udp_ok udp"
  "udp_ok (udp\<lparr>ut_recvTimestamps := (ut_recvTimestamps udp)[i := t]\<rparr>) = udp_ok udp"
  "udp_ok (udp\<lparr>ut_lastAckTimestamps := (ut_lastAckTimestamps udp)[i := t]\<rparr>) = udp_ok udp"
  "udp_ok (udp\<lparr>ut_sockets := ss\<rparr>) = udp_ok udp" "udp_ok (udp\<lparr>ut_udpQueue := rb\<rparr>) = udp_ok udp"
  by (simp_all add: udp_ok_def) (simp_all add: ut_count_def)

text \<open>Finding a connection by its address.\<close>

lemma find_address_Some: "find_address as ip port i = Some k \<Longrightarrow> i \<le> k \<and> k < i + length as \<and> as ! (k - i) = (ip, port)"
  by (induction as arbitrary: i) (fastforce simp: nth_Cons' split: if_splits)+

lemma find_address_absent: "(ip, port) \<notin> set as \<Longrightarrow> find_address as ip port i = None"
  by (induction as arbitrary: i) (auto split: if_splits)

lemma find_address_present: "(ip, port) \<in> set as \<Longrightarrow> find_address as ip port i \<noteq> None"
  by (induction as arbitrary: i) auto

lemma find_address_None: "find_address as ip port i = None \<longleftrightarrow> (ip, port) \<notin> set as"
  using find_address_absent find_address_present by blast

lemma get_client_ok:
  assumes "udp_ok udp"
  shows "udp_thread_get_client_by_ip udp ip port = Some i \<Longrightarrow> i < ut_count udp \<and> ut_addresses udp ! i = (ip, port)"
    "udp_thread_get_client_by_ip udp ip port = None \<longleftrightarrow> (ip, port) \<notin> set (ut_addresses udp)"
  using find_address_Some [of "ut_addresses udp" ip port 0 i] assms
  by (auto simp: udp_thread_get_client_by_ip_def find_address_None udp_ok_def table_ok_def same_lengths_def)

lemma handle_command_keeps:
  assumes "udp_ok udp" "udp_thread_handle_command env zop cmd udp = Some udp'"
  shows "udp_ok udp'"
proof -
  note at = get_client_ok(1) [OF assms(1), of "cmd_ip cmd" "cmd_port cmd"]
  have "udp_ok udp'" if "udp_at i now f (udp_flag i g udp) = Some (r, udp')" "op_keeps f"
    "udp_thread_get_client_by_ip udp (cmd_ip cmd) (cmd_port cmd) = Some i" for i now f g r udp'
    using udp_at_keeps(1) [OF _ _ that(2,1)] assms(1) at [OF that(3)] by simp
  moreover have "udp_ok udp'" if "udp_at i now f udp = Some (r, udp')" "op_keeps f"
    "udp_thread_get_client_by_ip udp (cmd_ip cmd) (cmd_port cmd) = Some i" for i now f r udp'
    using udp_at_keeps(1) [OF assms(1) _ that(2,1)] at [OF that(3)] by simp
  ultimately show ?thesis
    using assms by (auto simp: udp_thread_handle_command_def udp_thread_open_port_def udp_thread_handle_client_packet_def
        udp_thread_handle_drop_client_def udp_thread_handle_replace_client_object_def udp_thread_handle_client_disconnect_def
        Let_def split: if_splits option.splits)
qed

lemma process_commands_keeps:
  "udp_ok udp \<Longrightarrow> udp_thread_process_commands env n udp = Some (go, udp') \<Longrightarrow> udp_ok udp'"
proof (induction n arbitrary: udp)
  case (Suc n)
  have step: "udp_ok v" if "udp_thread_handle_command (env n) zop cmd (udp\<lparr>ut_udpQueue := rb\<rparr>) = Some v" for zop cmd rb v
    using handle_command_keeps [OF _ that] Suc.prems(1) by simp
  show ?case using Suc.prems
    by (auto simp: Let_def bind_eq_Some_conv split: option.splits if_splits) (blast intro: Suc.IH step)
qed simp

lemma new_client_keeps:
  assumes "udp_ok udp" "udp_thread_new_client env udp c q = Some (index, udp')"
    and "(uc_ip c, uc_port c) \<notin> set (ut_addresses udp)" "uc_sent c = []" "uc_ackFlags c = []"
  shows "udp_ok udp'" "index = -1 \<or> index = int (ut_count udp) \<and> ut_count udp' = Suc (ut_count udp)"
proof -
  have q: "rb_inv (ut_queues udp q)" using assms(1) by (simp add: udp_ok_def table_ok_def)
  let ?c = "\<lambda>ob. (udpc_set_index c (ut_count udp))\<lparr>uc_clientObject := ob\<rparr>"
  have qs: "udp_ok (udp\<lparr>ut_queues := (ut_queues udp)(q := rb)\<rparr>)" if "rb_inv rb" for rb
    using assms(1) that by (auto simp: udp_ok_def table_ok_def same_lengths_def ut_count_def entry_ok_def)
  have new: "udp_ok (udp_append_client t (?c ob) q v)"
    if "udp_ok v" "ut_addresses v = ut_addresses udp" "ut_count v = ut_count udp" for t ob v
    using that assms(3-5)
    by (auto simp: udp_append_client_def udp_ok_def table_ok_def same_lengths_def ut_count_def entry_ok_def Let_def nth_append
        udpc_set_index_def less_Suc_eq)
  have cnt: "ut_count (udp_append_client t d q (udp\<lparr>ut_queues := qs\<rparr>)) = Suc (ut_count udp)"
    "ut_count (udp\<lparr>ut_queues := qs\<rparr>) = ut_count udp" for t d qs
    by (simp_all add: udp_append_client_def ut_count_def)
  show "udp_ok udp'" "index = -1 \<or> index = int (ut_count udp) \<and> ut_count udp' = Suc (ut_count udp)"
    using assms(1,2) push_keeps_inv [OF q] qs new [OF qs _ cnt(2)]
    by (auto simp: udp_thread_new_client_def Let_def cnt split: option.splits if_splits)
qed

lemma run_temporary_keeps:
  assumes "udp_ok udp" "udp_run now f (udpc_init junk ip port rb) q udp = Some (r, c, udp')" "op_keeps f"
  shows "udp_ok udp'" "ut_addresses udp' = ut_addresses udp" "uc_ip c = ip" "uc_port c = port" "uc_sent c = []" "uc_ackFlags c = []"
proof -
  have q: "\<forall>q. rb_inv (ut_queues udp q)" using assms(1) by (simp add: udp_ok_def table_ok_def)
  note r = udp_run_effects [OF assms(2,3) _ q]
  show "uc_ip c = ip" "uc_port c = port" "uc_sent c = []" "uc_ackFlags c = []" using r by (simp_all add: udpc_init_def)
  have e: "effects (- 1) udp udp'" using r(6) by (simp add: udpc_init_def)
  show "ut_addresses udp' = ut_addresses udp" using effects_rest(1) [OF e] by (simp add: same_rest_def)
  have "ut_count udp' = ut_count udp" using effects_rest(1) [OF e] by (simp add: same_rest_def)
  then show "udp_ok udp'" using table_ok_effects [OF e] assms(1) by (simp add: udp_ok_def)
qed

lemma recv_datagram_keeps:
  assumes "udp_ok udp" "udp_thread_recv_datagram env s udp ip port d = Some udp'"
  shows "udp_ok udp'"
proof (cases "udp_thread_get_client_by_ip udp ip port")
  case (Some i)
  let ?u = "udp\<lparr>ut_recvTimestamps := (ut_recvTimestamps udp)[i := ue_now env]\<rparr>"
  have u: "udp_ok ?u" "i < ut_count ?u" using assms(1) get_client_ok(1) [OF assms(1) Some] by (simp_all add: ut_count_def)
  show ?thesis using assms udp_at_keeps [OF u ops_keep(1)] u(1)
    by (auto simp: udp_thread_recv_datagram_def Let_def Some split: if_splits)
next
  case None
  have new: "udp_ok v' \<and> (index \<noteq> -1 \<longrightarrow> nat index < ut_count v')"
    if "udp_run (ue_now env) (recv_op env data True) (udpc_init junk ip port rb) q udp = Some (r, c, v)"
      "udp_thread_new_client env v c q = Some (index, v')" for data junk rb q r c v index v'
  proof -
    note t = run_temporary_keeps [OF assms(1) that(1) ops_keep(1)]
    have "(uc_ip c, uc_port c) \<notin> set (ut_addresses v)" using None get_client_ok(2) [OF assms(1)] t by simp
    note n = new_client_keeps [OF t(1) that(2) this t(5,6)]
    then show ?thesis by auto
  qed
  have run: "udp_ok v" if "udp_run (ue_now env) (recv_op env data True) (udpc_init junk ip port rb) q udp = Some (r, c, v)"
    for data junk rb q r c v
    using run_temporary_keeps(1) [OF assms(1) that ops_keep(1)] .
  show ?thesis using assms
    by (auto simp: udp_thread_recv_datagram_def Let_def None bind_eq_Some_conv split: if_splits
        dest: new intro: run udp_at_keeps(1) [OF _ _ ops_keep(1)])
qed

lemma read_sockets_keeps:
  "udp_ok udp \<Longrightarrow> udp_read_socket s as udp = Some udp' \<Longrightarrow> udp_ok udp'"
  "udp_ok udp \<Longrightarrow> udp_read_sockets ss ass udp = Some udp' \<Longrightarrow> udp_ok udp'"
proof -
  show one: "udp_ok udp \<Longrightarrow> udp_read_socket s as udp = Some udp' \<Longrightarrow> udp_ok udp'" for s as udp udp'
    by (induction s as udp rule: udp_read_socket.induct) (auto simp: bind_eq_Some_conv dest: recv_datagram_keeps)
  show "udp_ok udp \<Longrightarrow> udp_read_sockets ss ass udp = Some udp' \<Longrightarrow> udp_ok udp'"
    by (induction ss ass udp rule: udp_read_sockets.induct) (auto simp: bind_eq_Some_conv dest: one)
qed

lemma udp_for_keeps:
  assumes "\<And>i v v'. i \<in> set is \<Longrightarrow> udp_ok v \<Longrightarrow> ut_count v = n \<Longrightarrow> f i v = Some v' \<Longrightarrow> udp_ok v' \<and> ut_count v' = n"
  shows "udp_for f is udp = Some udp' \<Longrightarrow> udp_ok udp \<Longrightarrow> ut_count udp = n \<Longrightarrow> udp_ok udp' \<and> ut_count udp' = n"
  using assms
proof (induction "is" arbitrary: udp)
  case (Cons i "is")
  then obtain v where v: "f i udp = Some v" "udp_for f is v = Some udp'" by (auto simp: bind_eq_Some_conv)
  then have "udp_ok v" "ut_count v = n" using Cons.prems by auto
  then show ?case by (rule Cons.IH [OF v(2)]) (use Cons.prems(4) in auto)
qed simp

lemma phases_keep:
  assumes "udp_ok udp"
  shows "udp_thread_process_socket_writes envs udp = Some udp' \<Longrightarrow> udp_ok udp'"
    "udp_thread_check_client_timeouts time udp = Some udp' \<Longrightarrow> udp_ok udp'"
    "udp_thread_send_keep_alive_acks time udp = Some udp' \<Longrightarrow> udp_ok udp'"
proof -
  have at: "udp_ok w \<and> ut_count w = n" if "udp_at i now f v = Some (r, w)" "op_keeps f" "udp_ok v" "ut_count v = n" "i < n"
    for i now f v r w n
    using udp_at_keeps [OF that(3) _ that(2,1)] that(4,5) by simp
  show "udp_ok udp'" if "udp_thread_process_socket_writes envs udp = Some udp'"
    using udp_for_keeps [OF _ that [unfolded udp_thread_process_socket_writes_def] assms refl]
    by (rule conjunct1) (auto simp: udp_write_client_def split: if_splits dest!: at)
  show "udp_ok udp'" if "udp_thread_check_client_timeouts time udp = Some udp'"
    using udp_for_keeps [OF _ that [unfolded udp_thread_check_client_timeouts_def] assms refl]
    by (rule conjunct1) (auto simp: udp_check_timeout_def split: if_splits dest!: at)
  show "udp_ok udp'" if "udp_thread_send_keep_alive_acks time udp = Some udp'"
    using udp_for_keeps [OF _ that [unfolded udp_thread_send_keep_alive_acks_def] assms refl]
    by (rule conjunct1) (auto simp: udp_keep_alive_def ut_count_def split: if_splits dest!: at)
qed

section \<open>Removing the dead\<close>

text \<open>The rows of the table, as far as their order does not matter: address, flags, time of the last datagram.\<close>

type_synonym udp_row = "(u32 \<times> u16) \<times> u8 \<times> u64"

definition table :: "udp_thread \<Rightarrow> udp_row list" where
  "table udp = zip (ut_addresses udp) (zip (ut_flags udp) (ut_recvTimestamps udp))"

abbreviation row_dead :: "udp_row \<Rightarrow> bool" where
  "row_dead r \<equiv> flag_get (fst (snd r)) UDP_FLAG_Dead"

lemma table_length: "same_lengths udp \<Longrightarrow> length (table udp) = ut_count udp"
  by (simp add: same_lengths_def table_def)

lemma table_nth: "same_lengths udp \<Longrightarrow> i < ut_count udp \<Longrightarrow>
    table udp ! i = (ut_addresses udp ! i, ut_flags udp ! i, ut_recvTimestamps udp ! i)"
  by (simp add: same_lengths_def table_def)

lemma table_same_rest: "same_rest udp udp' \<Longrightarrow> table udp' = table udp"
  by (simp add: same_rest_def table_def)

lemma move_entry_ok:
  assumes "table_ok k udp" "i < k"
  shows "table_ok (k - 1) (udp_move_entry i (k - 1) udp)"
    "take (k - 1) (table (udp_move_entry i (k - 1) udp)) = butlast ((take k (table udp))[i := last (take k (table udp))])"
proof -
  let ?m = "udp_move_entry i (k - 1) udp"
  have l: "same_lengths udp" "k \<le> ut_count udp" using assms(1) by (simp_all add: table_ok_def)
  have c: "ut_count ?m = ut_count udp" "same_lengths ?m"
    using l by (simp_all add: same_lengths_def ut_count_def udp_move_entry_def)
  have "table ?m = (table udp)[i := table udp ! (k - 1)]"
    using l assms(2) by (simp add: udp_move_entry_def table_def same_lengths_def update_zip)
  then show "take (k - 1) (table ?m) = butlast ((take k (table udp))[i := last (take k (table udp))])"
    using take_swap_pop [OF assms(2), of "table udp"] l table_length by simp
  have e: "entry_ok ?m j" if "j < k - 1" for j
    using that assms l by (cases "j = i")
      (auto simp: table_ok_def entry_ok_def udp_move_entry_def Let_def udpc_set_index_def same_lengths_def ut_count_def)
  have a: "take (k - 1) (ut_addresses ?m) = butlast ((take k (ut_addresses udp))[i := last (take k (ut_addresses udp))])"
    using take_swap_pop [OF assms(2), of "ut_addresses udp"] l by (simp add: udp_move_entry_def same_lengths_def)
  have "i < length (take k (ut_addresses udp))" using assms(2) l by (simp add: same_lengths_def)
  note s = mset_swap_pop [OF this, folded a]
  then have "mset (take k (ut_addresses udp) ! i # take (k - 1) (ut_addresses ?m)) = mset (take k (ut_addresses udp))" by simp
  moreover have "distinct (take k (ut_addresses udp))" using assms(1) by (simp add: table_ok_def)
  ultimately have "distinct (take k (ut_addresses udp) ! i # take (k - 1) (ut_addresses ?m))"
    using mset_eq_imp_distinct_iff by blast
  then have "distinct (take (k - 1) (ut_addresses ?m))" by simp
  then show "table_ok (k - 1) ?m" using assms(1) l c e by (simp add: table_ok_def) (simp add: udp_move_entry_def)
qed

lemma cleanup_from_ok:
  "udp_cleanup_from env i k udp = Some (k', udp') \<Longrightarrow> table_ok k udp \<Longrightarrow> i \<le> k \<Longrightarrow>
   list_all (\<lambda>r. \<not> row_dead r) (take i (table udp)) \<Longrightarrow>
   table_ok k' udp' \<and> mset (take k' (table udp')) = filter_mset (\<lambda>r. \<not> row_dead r) (mset (take k (table udp)))"
proof (induction "k - i" arbitrary: i k udp rule: less_induct)
  case less
  have l: "same_lengths udp" "k \<le> ut_count udp" using less.prems(2) by (simp_all add: table_ok_def)
  note tl = table_length [OF l(1)]
  show ?case
  proof (cases "i < k")
    case False
    then have "k' = k" "udp' = udp" "i = k" using less.prems(1,3) by (auto simp: udp_cleanup_from.simps)
    then show ?thesis using less.prems(2,4) by (simp add: list_all_iff filter_mset_eq_conv flip: mset_filter)
  next
    case True
    have nth: "table udp ! i = (ut_addresses udp ! i, ut_flags udp ! i, ut_recvTimestamps udp ! i)"
      using table_nth [OF l(1)] True l(2) by simp
    show ?thesis
    proof (cases "row_dead (table udp ! i)")
      case False
      then have s: "udp_cleanup_from env (i + 1) k udp = Some (k', udp')"
        using less.prems(1) True nth by (simp add: udp_cleanup_from.simps [of env i])
      have "take (i + 1) (table udp) = take i (table udp) @ [table udp ! i]"
        using tl l(2) True by (simp add: take_Suc_conv_app_nth)
      then have "list_all (\<lambda>r. \<not> row_dead r) (take (i + 1) (table udp))" using less.prems(4) False by simp
      then show ?thesis using less.hyps [OF _ s less.prems(2)] True by simp
    next
      case dead: True
      obtain r udp1 where u: "udp_at i (ue_now env) (close_op env) udp = Some (r, udp1)"
        "udp_cleanup_from env i (k - 1) (udp_move_entry i (k - 1) udp1) = Some (k', udp')"
        using less.prems(1) True dead nth by (subst (asm) udp_cleanup_from.simps) (auto simp: bind_eq_Some_conv)
      note a = udp_at_ok [OF u(1) ops_keep(6) less.prems(2) True]
      have tab: "table udp1 = table udp" by (rule table_same_rest [OF a(2)])
      let ?m = "udp_move_entry i (k - 1) udp1"
      note m = move_entry_ok [OF a(1) True, unfolded tab]
      have len: "length (take k (table udp)) = k" using tl l(2) by simp
      have pre: "take i (table ?m) = take i (table udp)"
      proof -
        have "take i (take (k - 1) (table ?m)) = take i (take k (table udp))"
          unfolding m(2) using len True by (intro nth_equalityI) (auto simp: nth_butlast)
        then show ?thesis using True by (simp add: min_def split: if_splits)
      qed
      have IH: "table_ok k' udp'" "mset (take k' (table udp')) = filter_mset (\<lambda>r. \<not> row_dead r) (mset (take (k - 1) (table ?m)))"
        using less.hyps [OF _ u(2) m(1)] True less.prems(4) pre by simp_all
      have "mset (take k (table udp)) = add_mset (table udp ! i) (mset (take (k - 1) (table ?m)))"
        unfolding m(2) using mset_swap_pop [of i "take k (table udp)"] len True by simp
      then show ?thesis using IH dead by simp
    qed
  qed
qed

end
