(* ===== verification/Zeq_UdpProps.thy ===== *)
theory Zeq_UdpProps
  imports Zeq_UdpTable Zeq_Wire
begin

text \<open>
  What the loop of the UDP thread guarantees: the table stays consistent in every reachable state, also
  with the other threads at work between its steps, silent connections go and no others, datagrams that
  fail the checksum leave no trace, and the queue of commands is worked off in order up to the first
  order to terminate.
\<close>

section \<open>The table over the life of the thread\<close>

lemma cleanup_keeps:
  assumes "udp_ok udp" "udp_thread_cleanup_dead_clients env udp = Some udp'"
  shows "udp_ok udp'" "mset (table udp') = filter_mset (\<lambda>r. \<not> row_dead r) (mset (table udp))"
proof -
  obtain k u where u: "udp_cleanup_from env 0 (ut_count udp) udp = Some (k, u)" "udp' = udp_truncate k u"
    using assms(2) by (auto simp: udp_thread_cleanup_dead_clients_def)
  have t: "table_ok (ut_count udp) udp" "length (table udp) = ut_count udp"
    using assms(1) table_length by (auto simp: udp_ok_def table_ok_def)
  have c: "table_ok k u" "mset (take k (table u)) = filter_mset (\<lambda>r. \<not> row_dead r) (mset (take (ut_count udp) (table udp)))"
    using cleanup_from_ok [OF u(1) t(1)] by simp_all
  have k: "k \<le> length (ut_clients u)" using c(1) by (simp add: table_ok_def ut_count_def)
  show "udp_ok udp'" using c(1) k unfolding u(2)
    by (auto simp: udp_ok_def table_ok_def same_lengths_def ut_count_def udp_truncate_def entry_ok_def min_def)
  have "table udp' = take k (table u)" by (simp add: u(2) table_def udp_truncate_def take_zip)
  then show "mset (table udp') = filter_mset (\<lambda>r. \<not> row_dead r) (mset (table udp))" using c(2) t(2) by simp
qed

text \<open>The steps of the other threads: the queues stay sound.\<close>

lemma push_none: "ringbuf_push rb zop None = ringbuf_push rb zop (Some (rk_data (rb_blocks rb ! rb_writeEnd rb)))"
  by (cases "rb_writeEnd rb < length (rb_blocks rb)") (simp_all add: ringbuf_push_def ringbuf_push_impl_def rb_upd_def Let_def list_update_beyond)

lemma queue_steps_keep:
  assumes "rb_inv rb"
  shows "ringbuf_push rb zop p = Some (rc, rb') \<Longrightarrow> rb_inv rb'" "ringbuf_wait rb = Some (rc, rb') \<Longrightarrow> rb_inv rb'"
    "ringbuf_pop rb = Some (rc, out, rb') \<Longrightarrow> rb_inv rb'"
proof -
  show "ringbuf_push rb zop p = Some (rc, rb') \<Longrightarrow> rb_inv rb'"
    using push_keeps_inv [OF assms] by (cases p) (auto simp: push_none)
  show "ringbuf_wait rb = Some (rc, rb') \<Longrightarrow> rb_inv rb'"
    using assms by (auto simp: ringbuf_wait_def rb_inv_def Let_def split: if_splits)
  show "ringbuf_pop rb = Some (rc, out, rb') \<Longrightarrow> rb_inv rb'"
    by (rule ringbuf_pop_ok [OF assms]) (use assms in auto)
qed

lemma udp_ok_queues: "udp_ok udp \<Longrightarrow> rb_inv rb \<Longrightarrow> udp_ok (udp\<lparr>ut_queues := (ut_queues udp)(q := rb)\<rparr>)"
  by (auto simp: udp_ok_def table_ok_def same_lengths_def ut_count_def entry_ok_def)

lemma udp_ok_heap [simp]: "udp_ok (udp\<lparr>ut_heap := h\<rparr>) = udp_ok udp"
  by (simp add: udp_ok_def table_ok_def same_lengths_def ut_count_def entry_ok_def)

lemma on_terminate_keeps:
  assumes "udp_ok udp" "udp_thread_on_terminate udp = Some udp'"
  shows "udp_ok udp'"
proof -
  have "rb_inv (ut_queues udp (ut_mainQueue udp))" using assms(1) by (simp add: udp_ok_def table_ok_def)
  then show ?thesis using assms
    by (auto simp: udp_thread_on_terminate_def intro!: udp_ok_queues dest: queue_steps_keep(1))
qed

lemma proc_keeps: "udp_thread_proc start phase udp \<Longrightarrow> udp_ok start \<Longrightarrow> udp_ok udp"
proof (induction rule: udp_thread_proc.induct)
  case (reads udp arrivals udp')
  then show ?case by (auto simp: udp_thread_process_socket_reads_def intro: read_sockets_keeps(2))
next
  case (command udp rc zop cmd rb env udp')
  then show ?case by (intro handle_command_keeps [OF _ command(4)]) simp
next
  case (terminated udp rc cmd rb udp')
  then show ?case by (auto intro: on_terminate_keeps [OF _ terminated(3)])
next
  case (other_push phase udp q zop m rc rb)
  then have "rb_inv (ut_queues udp q)" by (simp add: udp_ok_def table_ok_def)
  then show ?case using other_push by (intro udp_ok_queues queue_steps_keep(1) [OF _ other_push(2)]) auto
next
  case (other_wait phase udp q rc rb)
  then have "rb_inv (ut_queues udp q)" by (simp add: udp_ok_def table_ok_def)
  then show ?case using other_wait by (intro udp_ok_queues queue_steps_keep(2) [OF _ other_wait(2)]) auto
next
  case (other_pop phase udp q rc out rb)
  then have "rb_inv (ut_queues udp q)" by (simp add: udp_ok_def table_ok_def)
  then show ?case using other_pop by (intro udp_ok_queues queue_steps_keep(3) [OF _ other_pop(2)]) auto
qed (auto intro: phases_keep cleanup_keeps(1))

lemma created_ok:
  assumes "udp_create a l q th blank queues mainQueue h = Some udp" "\<forall>q. rb_inv (queues q)"
  shows "udp_ok udp"
  using assms by (auto simp: udp_create_def udp_ok_def table_ok_def same_lengths_def ut_count_def split: if_splits)

section \<open>Timeouts\<close>

definition silent :: "u64 \<Rightarrow> udp_row \<Rightarrow> bool" where
  "silent time r \<longleftrightarrow> time - snd (snd r) \<ge> UDP_THREAD_LINKDEAD_TIMEOUT_MS"

definition kill_silent :: "u64 \<Rightarrow> udp_row \<Rightarrow> udp_row" where
  "kill_silent time r = (if silent time r then (fst r, flag_set (fst (snd r)) UDP_FLAG_Dead, snd (snd r)) else r)"

lemma check_timeout_table:
  assumes "udp_ok udp" "i < ut_count udp" "udp_check_timeout time i udp = Some udp'"
  shows "udp_ok udp'" "ut_count udp' = ut_count udp" "table udp' = (table udp)[i := kill_silent time (table udp ! i)]"
proof -
  have l: "same_lengths udp" using assms(1) by (simp add: udp_ok_def table_ok_def)
  note nth = table_nth [OF l assms(2)]
  let ?u = "udp_flag i (\<lambda>v. flag_set v UDP_FLAG_Dead) udp"
  have tu: "table ?u = (table udp)[i := (fst (table udp ! i), flag_set (fst (snd (table udp ! i))) UDP_FLAG_Dead, snd (snd (table udp ! i)))]"
    using l assms(2) unfolding nth by (simp add: udp_flag_def table_def same_lengths_def update_zip)
  show "udp_ok udp'" "ut_count udp' = ut_count udp" "table udp' = (table udp)[i := kill_silent time (table udp ! i)]"
  proof (atomize (full), cases "silent time (table udp ! i)")
    case True
    then obtain r where r: "udp_at i time linkdead_op ?u = Some (r, udp')"
      using assms(3) by (auto simp: udp_check_timeout_def silent_def nth)
    have "udp_ok ?u" "i < ut_count ?u" using assms(1,2) by simp_all
    note a = udp_at_keeps [OF this ops_keep(3) r]
    have "same_rest ?u udp'" using udp_at_ok(2) [OF r ops_keep(3), of "ut_count udp"] assms(1,2) by (simp add: udp_ok_def)
    then show "udp_ok udp' \<and> ut_count udp' = ut_count udp \<and> table udp' = (table udp)[i := kill_silent time (table udp ! i)]"
      using a table_same_rest tu True by (simp add: kill_silent_def)
  next
    case False
    then have "udp' = udp" using assms(3) by (simp add: udp_check_timeout_def silent_def nth)
    then show "udp_ok udp' \<and> ut_count udp' = ut_count udp \<and> table udp' = (table udp)[i := kill_silent time (table udp ! i)]"
      using assms(1) False by (simp add: kill_silent_def)
  qed
qed

lemma check_timeouts_table:
  "udp_for (udp_check_timeout time) is udp = Some udp' \<Longrightarrow> udp_ok udp \<Longrightarrow> distinct is \<Longrightarrow> \<forall>i \<in> set is. i < ut_count udp \<Longrightarrow>
   udp_ok udp' \<and> ut_count udp' = ut_count udp
   \<and> (\<forall>j < ut_count udp. table udp' ! j = (if j \<in> set is then kill_silent time (table udp ! j) else table udp ! j))"
proof (induction "is" arbitrary: udp)
  case (Cons i "is")
  then obtain v where v: "udp_check_timeout time i udp = Some v" "udp_for (udp_check_timeout time) is v = Some udp'"
    by (auto simp: bind_eq_Some_conv)
  have i: "i < ut_count udp" "i \<notin> set is" "distinct is" using Cons.prems(3,4) by simp_all
  note s = check_timeout_table [OF Cons.prems(2) i(1) v(1)]
  have IH: "udp_ok udp' \<and> ut_count udp' = ut_count v
     \<and> (\<forall>j < ut_count v. table udp' ! j = (if j \<in> set is then kill_silent time (table v ! j) else table v ! j))"
    using s Cons.prems(4) i(3) by (intro Cons.IH [OF v(2)]) simp_all
  moreover have "length (table udp) = ut_count udp" using Cons.prems(2) by (simp add: table_length udp_ok_def table_ok_def)
  ultimately have "table udp' ! j = (if j \<in> set (i # is) then kill_silent time (table udp ! j) else table udp ! j)"
    if "j < ut_count udp" for j using that s i(2) by (cases "j = i") auto
  then show ?case using s IH by simp
qed simp

lemma timeouts_table:
  assumes "udp_ok udp" "udp_thread_check_client_timeouts time udp = Some udp'"
  shows "udp_ok udp'" "table udp' = map (kill_silent time) (table udp)"
proof -
  have c: "udp_ok udp' \<and> ut_count udp' = ut_count udp
   \<and> (\<forall>j < ut_count udp. table udp' ! j = (if j \<in> set [0..<ut_count udp] then kill_silent time (table udp ! j) else table udp ! j))"
    by (rule check_timeouts_table [OF assms(2) [unfolded udp_thread_check_client_timeouts_def] assms(1)]) auto
  then show "udp_ok udp'" by blast
  have "length (table udp) = ut_count udp" "length (table udp') = ut_count udp'"
    using assms(1) c by (simp_all add: table_length udp_ok_def table_ok_def)
  then show "table udp' = map (kill_silent time) (table udp)" using c by (intro nth_equalityI) auto
qed

lemma flag_set_get [simp]: "flag_get (flag_set v UDP_FLAG_Dead) UDP_FLAG_Dead"
proof -
  have "(v OR 4) AND 4 = (4 :: u8)" by (rule bit_eqI) (auto simp: bit_simps)
  then show ?thesis by (simp add: flag_get_def flag_set_def nth_bit_def UDP_FLAG_Dead_def)
qed

lemma timeouts_remove:
  assumes "udp_ok udp" "list_all (\<lambda>r. \<not> row_dead r) (table udp)"
    and "udp_thread_check_client_timeouts time udp = Some udp1" "udp_thread_cleanup_dead_clients env udp1 = Some udp2"
  shows "mset (table udp2) = filter_mset (\<lambda>r. \<not> silent time r) (mset (table udp))"
proof -
  note t = timeouts_table [OF assms(1,3)]
  have d: "row_dead (kill_silent time r) \<longleftrightarrow> silent time r" if "r \<in> set (table udp)" for r
    using assms(2) that by (auto simp: kill_silent_def list_all_iff)
  have "filter (\<lambda>r. \<not> row_dead r) (map (kill_silent time) (table udp)) = map (kill_silent time) (filter (\<lambda>r. \<not> silent time r) (table udp))"
    unfolding filter_map o_def by (rule arg_cong [OF filter_cong [OF refl]]) (simp add: d)
  also have "\<dots> = filter (\<lambda>r. \<not> silent time r) (table udp)" by (auto simp: kill_silent_def intro: map_idI)
  finally have "mset (filter (\<lambda>r. \<not> row_dead r) (map (kill_silent time) (table udp))) = mset (filter (\<lambda>r. \<not> silent time r) (table udp))"
    by simp
  then show ?thesis using cleanup_keeps(2) [OF t(1) assms(4)] by (simp add: t(2))
qed

section \<open>Nothing fails\<close>

definition op_total :: "client_op \<Rightarrow> bool" where
  "op_total f \<longleftrightarrow> (\<forall>h c. rb_inv (uc_toServerQueue c) \<longrightarrow> f h c \<noteq> None)"

lemma push_total: "rb_inv rb \<Longrightarrow> ringbuf_push rb zop (Some z) \<noteq> None"
  by (rule ringbuf_push_ok [of rb zop z]) simp_all

lemma next_seq_queue: "udpc_next_seq c = (s, c') \<Longrightarrow> uc_toServerQueue c' = uc_toServerQueue c"
  by (auto simp: udpc_next_seq_def case_prod_beta)

lemma disconnect_total: "rb_inv (uc_toServerQueue c) \<Longrightarrow> udpc_send_disconnect junk c \<noteq> None"
  using push_total [of "uc_toServerQueue c"]
  by (cases "udpc_next_seq c") (simp add: udpc_send_disconnect_def Let_def udpc_report_disconnect_def udpc_push_def next_seq_queue)

lemma ops_total [simp, intro]:
  "op_total linkdead_op" "op_total (disconnect_op env)" "op_total (close_op env)"
  "op_total (\<lambda>h c. map_option (\<lambda>c. (True, h, c)) (udpc_replace_client_object c ob))"
  using disconnect_total push_total
  by (auto simp: op_total_def linkdead_op_def disconnect_op_def close_op_def udpc_linkdead_def udpc_report_disconnect_def
      udpc_push_def udpc_replace_client_object_def simp del: split_paired_Ex)

lemma update_timestamps_total:
  "\<forall>j \<in> set fs. j < length (ut_lastAckTimestamps udp) \<Longrightarrow> udp_update_ack_timestamps fs now udp \<noteq> None"
  by (induction fs arbitrary: udp) (simp_all add: udp_thread_update_ack_timestamp_def)

lemma udp_at_total:
  assumes "table_ok k udp" "i < k" "op_keeps f"
    and "f (ut_heap udp) ((ut_clients udp ! i)\<lparr>uc_toServerQueue := ut_queues udp (ut_queueOf udp ! i)\<rparr>) \<noteq> None"
  shows "udp_at i now f udp \<noteq> None"
proof -
  let ?c = "(ut_clients udp ! i)\<lparr>uc_toServerQueue := ut_queues udp (ut_queueOf udp ! i)\<rparr>"
  obtain r h d where f: "f (ut_heap udp) ?c = Some (r, h, d)" using assms(4) by auto
  then have "keeps_id ?c d" using assms(3) by (auto simp: op_keeps_def)
  moreover have "entry_ok udp i" "i < length (ut_lastAckTimestamps udp)" "i < length (ut_clients udp)" "i < length (ut_queueOf udp)"
    using assms(1,2) by (auto simp: table_ok_def same_lengths_def ut_count_def)
  ultimately have "\<forall>j \<in> set (uc_ackFlags d). j < length (ut_lastAckTimestamps udp)" "i < length (ut_clients udp)" "i < length (ut_queueOf udp)"
    by (auto simp: keeps_id_def entry_ok_def Let_def)
  then show ?thesis using update_timestamps_total [of "uc_ackFlags d" udp now] f
    by (auto simp: udp_at_def udp_run_def)
qed

lemma udp_at_op_total:
  assumes "table_ok k udp" "i < k" "op_keeps f" "op_total f"
  obtains r udp' where "udp_at i now f udp = Some (r, udp')"
proof -
  have "udp_at i now f udp \<noteq> None"
    using assms by (intro udp_at_total) (auto simp: op_total_def table_ok_def)
  then show ?thesis using that by (cases "udp_at i now f udp") auto
qed

lemma check_timeouts_total:
  "udp_ok udp \<Longrightarrow> \<forall>i \<in> set is. i < ut_count udp \<Longrightarrow> udp_for (udp_check_timeout time) is udp \<noteq> None"
proof (induction "is" arbitrary: udp)
  case (Cons i "is")
  have i: "i < ut_count udp" using Cons.prems(2) by simp
  let ?u = "udp_flag i (\<lambda>v. flag_set v UDP_FLAG_Dead) udp"
  have u: "table_ok (ut_count ?u) ?u" "i < ut_count ?u" using Cons.prems(1) i by (simp_all add: udp_ok_def)
  obtain r v where "udp_at i time linkdead_op ?u = Some (r, v)" by (rule udp_at_op_total [OF u ops_keep(3) ops_total(1)])
  then obtain v where v: "udp_check_timeout time i udp = Some v" by (cases "time - ut_recvTimestamps udp ! i \<ge> UDP_THREAD_LINKDEAD_TIMEOUT_MS") (auto simp: udp_check_timeout_def)
  note s = check_timeout_table [OF Cons.prems(1) i v]
  show ?case using Cons.IH [OF s(1)] Cons.prems(2) s(2) v by simp
qed simp

lemma cleanup_from_total:
  "table_ok k udp \<Longrightarrow> udp_cleanup_from env i k udp \<noteq> None"
proof (induction "k - i" arbitrary: i k udp rule: less_induct)
  case less
  show ?case
  proof (cases "i < k \<and> flag_get (ut_flags udp ! i) UDP_FLAG_Dead")
    case True
    then have i: "i < k" by blast
    obtain r v where v: "udp_at i (ue_now env) (close_op env) udp = Some (r, v)"
      by (rule udp_at_op_total [OF less.prems i ops_keep(6) ops_total(3)])
    have "table_ok (k - 1) (udp_move_entry i (k - 1) v)"
      by (rule move_entry_ok(1) [OF udp_at_ok(1) [OF v ops_keep(6) less.prems i] i])
    from less.hyps [OF _ this] show ?thesis using True v by (subst udp_cleanup_from.simps) auto
  next
    case False
    then show ?thesis using less.hyps [of k "i + 1" udp] less.prems by (subst udp_cleanup_from.simps) auto
  qed
qed

section \<open>Garbage\<close>

lemma recv_bad_checksum:
  assumes "crc \<noteq> crc_calc32_network body" "length body < 2 ^ 31"
  shows "udpc_recv_protocol alloc h c (body @ le32 crc) (of_nat (length (body @ le32 crc))) s = Some (False, h, c)"
proof -
  let ?d = "body @ le32 crc" and ?a = "aligned_init (body @ le32 crc) (of_nat (length (body @ le32 crc)))"
  have n: "unat (of_nat (length ?d) :: u32) = length ?d" using assms(2) by (intro unat_of_nat_small) simp
  have at: "al_at ?a (body @ le32 crc)"
    unfolding al_at_def using n by (simp add: al_ok_def aligned_rest_def aligned_init_def aligned_remaining_space_def)
  have len: "(of_nat (length ?d) - of_nat TLG_PACKET_CRC_SIZE :: u32) = of_nat (length body)" by (simp add: packet_sizes)
  have ub: "unat (of_nat (length body) :: u32) = length body" using assms(2) by (intro unat_of_nat_small) simp
  obtain a1 where a1: "aligned_advance_by ?a (of_nat (length body)) = Some (al_cursor ?a, a1)" "al_at a1 (le32 crc @ [])"
    by (rule al_at_advance [OF at refl]) simp
  obtain a2 where a2: "aligned_read_uint32 a1 = Some (crc, a2)" by (rule al_at_read32 [OF a1(2)])
  show ?thesis unfolding udpc_recv_protocol_def Let_def len a1(1) bind.bind_lunit prod.case a2 ub
    using assms(1) by simp
qed

lemma unknown_garbage_ignored:
  assumes "udp_thread_get_client_by_ip udp ip port = None" "length d < 2 ^ 10 + 1"
    and "length d < 10 \<or> (\<exists>body crc. d = body @ le32 crc \<and> crc \<noteq> crc_calc32_network body)"
  shows "udp_thread_recv_datagram env s udp ip port d = Some udp"
proof (cases "length d < 10")
  case False
  then obtain body crc where d: "d = body @ le32 crc" "crc \<noteq> crc_calc32_network body" using assms(3) by blast
  have t: "take UDP_THREAD_BUFFER_SIZE d = d" using assms(2) by (simp add: UDP_THREAD_BUFFER_SIZE_def)
  have "length body < 2 ^ 31" using assms(2) d by simp
  note bad = recv_bad_checksum [OF d(2) this]
  have "udp_run now (recv_op env d True) (udpc_init junk ip port (ut_queues udp q)) q udp = Some (False, udpc_init junk ip port (ut_queues udp q), udp)"
    for now junk q
    unfolding udp_run_def recv_op_def d(1) bad by (simp add: udpc_init_def)
  then show ?thesis using False
    by (simp add: udp_thread_recv_datagram_def Let_def t assms(1) UDP_THREAD_MINIMUM_MEANINGFUL_PACKET_SIZE_def)
qed (simp add: udp_thread_recv_datagram_def Let_def UDP_THREAD_MINIMUM_MEANINGFUL_PACKET_SIZE_def UDP_THREAD_BUFFER_SIZE_def)

section \<open>The queue of commands\<close>

text \<open>Every packet that is to be scheduled exists.\<close>

definition commands_ok :: "udp_thread \<Rightarrow> bool" where
  "commands_ok udp \<longleftrightarrow> list_all (\<lambda>(zop, cmd). zop = ZOP_UDP_ToClientPacketScheduled \<longrightarrow> ut_heap udp (cmd_packet cmd) \<noteq> None)
     (rb_contents (ut_udpQueue udp))"

lemma run_heap: "udp_run now f c q udp = Some (r, c', udp') \<Longrightarrow> (\<And>h c r h' c'. f h c = Some (r, h', c') \<Longrightarrow> h' = h) \<Longrightarrow>
    ut_heap udp' = ut_heap udp"
  by (auto simp: udp_run_def bind_eq_Some_conv)

lemma at_heap: "udp_at i now f udp = Some (r, udp') \<Longrightarrow> (\<And>h c r h' c'. f h c = Some (r, h', c') \<Longrightarrow> h' = h) \<Longrightarrow>
    ut_heap udp' = ut_heap udp"
  by (auto simp: udp_at_def split: if_splits dest: run_heap)

lemma schedule_heap:
  assumes "udpc_schedule_packet (\<lambda>_. True) w h c p r = Some (h', c')"
  shows "h' = h"
  using assms by (auto simp: udpc_schedule_packet_def ack_schedule_packet_def ack_queue_to_client_packet_def Let_def split: if_splits)

lemma at_command:
  assumes "udp_ok v" "i < ut_count v" "op_keeps f" "op_total f" "\<And>h c r h' c'. f h c = Some (r, h', c') \<Longrightarrow> h' = h"
  shows "\<exists>r w. udp_at i now f v = Some (r, w) \<and> ut_heap w = ut_heap v \<and> ut_udpQueue w = ut_udpQueue v"
proof -
  obtain r w where w: "udp_at i now f v = Some (r, w)"
    by (rule udp_at_op_total [OF assms(1) [unfolded udp_ok_def] assms(2-4)])
  show ?thesis using w at_heap [OF w assms(5)] udp_at_ok(2) [OF w assms(3) assms(1) [unfolded udp_ok_def] assms(2)]
    by (auto simp: same_rest_def)
qed

lemma flag_fields [simp]: "ut_heap (udp_flag i g udp) = ut_heap udp" "ut_udpQueue (udp_flag i g udp) = ut_udpQueue udp"
  "ut_clients (udp_flag i g udp) = ut_clients udp" "ut_addresses (udp_flag i g udp) = ut_addresses udp"
  by (simp_all add: udp_flag_def)

lemma schedule_total:
  assumes "udp_ok udp" "ue_alloc env = (\<lambda>_. True)" "ut_heap udp (cmd_packet cmd) \<noteq> None"
  shows "\<exists>udp'. udp_thread_handle_client_packet env udp cmd ack = Some udp' \<and> ut_heap udp' = ut_heap udp
    \<and> ut_udpQueue udp' = ut_udpQueue udp"
proof (cases "udp_thread_get_client_by_ip udp (cmd_ip cmd) (cmd_port cmd)")
  case (Some i)
  let ?f = "\<lambda>h c. map_option (Pair True) (udpc_schedule_packet (ue_alloc env) (ue_wrapper env) h c (cmd_packet cmd) ack)"
  have i: "i < ut_count udp" using get_client_ok(1) [OF assms(1) Some] by blast
  have "?f (ut_heap udp) c \<noteq> None" for c
    using assms(3) by (auto simp: udpc_schedule_packet_def ack_schedule_packet_def)
  then obtain r w where w: "udp_at i (ue_now env) ?f udp = Some (r, w)"
    using udp_at_total [OF assms(1) [unfolded udp_ok_def] i ops_keep(7)] by fastforce
  have "ut_heap w = ut_heap udp"
    by (rule at_heap [OF w]) (use schedule_heap in \<open>auto simp: assms(2)\<close>)
  moreover have "ut_udpQueue w = ut_udpQueue udp"
    using udp_at_ok(2) [OF w ops_keep(7) assms(1) [unfolded udp_ok_def] i] by (simp add: same_rest_def)
  ultimately show ?thesis using w by (simp add: udp_thread_handle_client_packet_def Some)
qed (simp add: udp_thread_handle_client_packet_def)

lemma handle_command_total:
  assumes "udp_ok udp" "ue_alloc env = (\<lambda>_. True)"
    and "zop = ZOP_UDP_ToClientPacketScheduled \<longrightarrow> ut_heap udp (cmd_packet cmd) \<noteq> None"
  shows "\<exists>udp'. udp_thread_handle_command env zop cmd udp = Some udp' \<and> ut_heap udp' = ut_heap udp
    \<and> ut_udpQueue udp' = ut_udpQueue udp"
proof -
  have i: "i < ut_count udp" if "udp_thread_get_client_by_ip udp (cmd_ip cmd) (cmd_port cmd) = Some i" for i
    using get_client_ok(1) [OF assms(1) that] by blast
  have "\<exists>udp'. udp_thread_handle_client_disconnect env udp cmd = Some udp' \<and> ut_heap udp' = ut_heap udp \<and> ut_udpQueue udp' = ut_udpQueue udp"
    using at_command [OF _ _ ops_keep(5) ops_total(2), of "udp_flag _ _ udp" _ env "ue_now env"] assms(1) i
    by (cases "udp_thread_get_client_by_ip udp (cmd_ip cmd) (cmd_port cmd)")
      (force simp: udp_thread_handle_client_disconnect_def disconnect_op_def)+
  moreover have "\<exists>udp'. udp_thread_handle_replace_client_object env udp cmd = Some udp' \<and> ut_heap udp' = ut_heap udp
      \<and> ut_udpQueue udp' = ut_udpQueue udp"
    using at_command [OF assms(1) _ ops_keep(8) ops_total(4) [where ob = "cmd_object cmd"], where now = "ue_now env"] i
    by (cases "udp_thread_get_client_by_ip udp (cmd_ip cmd) (cmd_port cmd)")
      (fastforce simp: udp_thread_handle_replace_client_object_def)+
  ultimately show ?thesis using schedule_total [OF assms(1,2)] assms(3)
    by (auto simp: udp_thread_handle_command_def udp_thread_open_port_def udp_thread_handle_drop_client_def Let_def
        split: option.splits)
qed

text \<open>The handlers never look at the queue.\<close>

abbreviation with_queue :: "udp_command ringbuf \<Rightarrow> udp_thread \<Rightarrow> udp_thread" where
  "with_queue rb udp \<equiv> udp\<lparr>ut_udpQueue := rb\<rparr>"

lemma with_queue_swap:
  "(with_queue rb udp)\<lparr>ut_clients := cs\<rparr> = with_queue rb (udp\<lparr>ut_clients := cs\<rparr>)"
  "(with_queue rb udp)\<lparr>ut_flags := fs\<rparr> = with_queue rb (udp\<lparr>ut_flags := fs\<rparr>)"
  "(with_queue rb udp)\<lparr>ut_sockets := ss\<rparr> = with_queue rb (udp\<lparr>ut_sockets := ss\<rparr>)"
  "(with_queue rb udp)\<lparr>ut_lastAckTimestamps := ts\<rparr> = with_queue rb (udp\<lparr>ut_lastAckTimestamps := ts\<rparr>)"
  "(with_queue rb udp)\<lparr>ut_queues := qs\<rparr> = with_queue rb (udp\<lparr>ut_queues := qs\<rparr>)"
  "(with_queue rb udp)\<lparr>ut_heap := h\<rparr> = with_queue rb (udp\<lparr>ut_heap := h\<rparr>)"
  "(with_queue rb udp)\<lparr>ut_wire := ds\<rparr> = with_queue rb (udp\<lparr>ut_wire := ds\<rparr>)"
  by (cases udp, simp)+

lemma update_timestamps_queue:
  "udp_update_ack_timestamps is now (with_queue rb udp) = map_option (with_queue rb) (udp_update_ack_timestamps is now udp)"
  by (induction "is" arbitrary: udp) (auto simp: udp_thread_update_ack_timestamp_def with_queue_swap)

lemma udp_at_queue: "udp_at i now f (with_queue rb udp) = map_option (\<lambda>(r, u). (r, with_queue rb u)) (udp_at i now f udp)"
proof -
  have "udp_run now f c q (with_queue rb udp) = map_option (\<lambda>(r, c, u). (r, c, with_queue rb u)) (udp_run now f c q udp)" for c q
    by (auto simp: udp_run_def update_timestamps_queue with_queue_swap split: bind_split option.splits)
  then show ?thesis by (auto simp: udp_at_def option.map_comp o_def case_prod_beta with_queue_swap intro: option.map_cong)
qed

lemma udp_flag_queue: "udp_flag i g (with_queue rb udp) = with_queue rb (udp_flag i g udp)"
  by (simp add: udp_flag_def with_queue_swap)

lemma handle_command_queue:
  "udp_thread_handle_command env zop cmd (with_queue rb udp) = map_option (with_queue rb) (udp_thread_handle_command env zop cmd udp)"
proof -
  have g: "udp_thread_get_client_by_ip (with_queue rb udp) ip port = udp_thread_get_client_by_ip udp ip port" for ip port
    by (simp add: udp_thread_get_client_by_ip_def)
  show ?thesis
    by (simp add: udp_thread_handle_command_def udp_thread_open_port_def udp_thread_handle_client_packet_def g udp_at_queue
        udp_flag_queue udp_thread_handle_drop_client_def udp_thread_handle_replace_client_object_def
        udp_thread_handle_client_disconnect_def Let_def option.map_comp o_def case_prod_beta with_queue_swap split: option.splits)
qed

text \<open>What the commands of a list do, each with what the surroundings answer in its iteration.\<close>

fun handle_all :: "(nat \<Rightarrow> udp_env) \<Rightarrow> nat \<Rightarrow> (int \<times> udp_command) list \<Rightarrow> udp_thread \<Rightarrow> udp_thread option" where
  "handle_all env n [] udp = Some udp"
| "handle_all env n ((zop, cmd) # xs) udp = Option.bind (udp_thread_handle_command (env (n - 1)) zop cmd udp) (handle_all env (n - 1) xs)"

definition runs_on :: "int \<times> udp_command \<Rightarrow> bool" where "runs_on x \<longleftrightarrow> fst x \<noteq> ZOP_UDP_TerminateThread"

lemma handle_all_queue: "handle_all env n xs (with_queue rb udp) = map_option (with_queue rb) (handle_all env n xs udp)"
  by (induction env n xs udp rule: handle_all.induct) (simp_all add: handle_command_queue split: bind_split)

lemma commands_worked_off:
  "udp_ok udp \<Longrightarrow> rb_inv (ut_udpQueue udp) \<Longrightarrow> commands_ok udp \<Longrightarrow> \<forall>k. ue_alloc (env k) = (\<lambda>_. True) \<Longrightarrow>
   rb_count (ut_udpQueue udp) < n \<Longrightarrow>
   \<exists>udp' rb. handle_all env n (takeWhile runs_on (rb_contents (ut_udpQueue udp))) udp = Some udp'
     \<and> udp_thread_process_commands env n udp = Some (list_all runs_on (rb_contents (ut_udpQueue udp)), with_queue rb udp')
     \<and> rb_contents rb = tl (dropWhile runs_on (rb_contents (ut_udpQueue udp)))"
proof (induction n arbitrary: udp)
  case (Suc n)
  show ?case
  proof (rule ringbuf_pop_ok [OF Suc.prems(2)])
    assume "rb_contents (ut_udpQueue udp) = []" "ringbuf_pop (ut_udpQueue udp) = Some (ERR_Again, None, ut_udpQueue udp)"
    then show ?thesis by (auto intro: exI [of _ "ut_udpQueue udp"])
  next
    fix x rb
    assume p: "ringbuf_pop (ut_udpQueue udp) = Some (ERR_None, Some x, rb)" "rb_contents (ut_udpQueue udp) = x # rb_contents rb" "rb_inv rb"
    obtain zop cmd where x: "x = (zop, cmd)" by (cases x)
    show ?thesis
    proof (cases "zop = ZOP_UDP_TerminateThread")
      case True
      then show ?thesis using p x by (auto simp: runs_on_def)
    next
      case False
      have "zop = ZOP_UDP_ToClientPacketScheduled \<longrightarrow> ut_heap udp (cmd_packet cmd) \<noteq> None"
        using Suc.prems(3) p(2) x by (simp add: commands_ok_def)
      then obtain v where v: "udp_thread_handle_command (env n) zop cmd udp = Some v" "ut_heap v = ut_heap udp"
        using handle_command_total [of udp "env n" zop cmd] Suc.prems(1,4) by auto
      let ?v = "with_queue rb v"
      have "udp_ok ?v" using handle_command_keeps [OF Suc.prems(1) v(1)] by simp
      moreover have "commands_ok ?v" using Suc.prems(3) p(2) v(2) by (simp add: commands_ok_def)
      moreover have "rb_count rb < n" using Suc.prems(5) arg_cong [OF p(2), of length] by simp
      ultimately obtain w rb' where w: "handle_all env n (takeWhile runs_on (rb_contents rb)) ?v = Some w"
        "udp_thread_process_commands env n ?v = Some (list_all runs_on (rb_contents rb), with_queue rb' w)"
        "rb_contents rb' = tl (dropWhile runs_on (rb_contents rb))"
        using Suc.IH [of ?v] p(3) Suc.prems(4) by auto
      obtain w' where w': "handle_all env n (takeWhile runs_on (rb_contents rb)) v = Some w'" "w = with_queue rb w'"
        using w(1) by (auto simp: handle_all_queue)
      have r: "runs_on (zop, cmd)" using False by (simp add: runs_on_def)
      have "with_queue rb' w = with_queue rb' w'" by (simp add: w'(2))
      then show ?thesis using p x False r v(1) w(2,3) w'(1) by (auto simp: handle_command_queue)
    qed
  qed
qed simp

section \<open>The properties\<close>

text \<open>Two connections, one of them silent since 1000, in a table at time 20000.\<close>

definition demo_queue :: "nat \<Rightarrow> zpacket ringbuf" where
  "demo_queue = (\<lambda>_. ringbuf_init (ZClientDisconnect 0) 16)"

definition demo_command :: udp_command where
  "demo_command = \<lparr>cmd_ip = 2, cmd_port = 7, cmd_packet = 0, cmd_object = 0, cmd_openPort = 0, cmd_clientSize = 8, cmd_queue = 0\<rparr>"

definition demo_entry :: "nat \<Rightarrow> u32 \<Rightarrow> udp_client" where
  "demo_entry i ip = (udpc_set_index (udpc_init 0 ip 7 (demo_queue 0)) i)\<lparr>uc_clientObject := of_nat i + 50\<rparr>"

definition demo_thread :: udp_thread where
  "demo_thread = \<lparr>ut_sockets = [\<lparr>us_sock = 3, us_clientSize = 8, us_queue = 0\<rparr>], ut_addresses = [(1, 7), (2, 7)],
     ut_clients = [demo_entry 0 1, demo_entry 1 2], ut_queueOf = [0, 0], ut_flags = [0, 1],
     ut_recvTimestamps = [1000, 15000], ut_lastAckTimestamps = [0, 0],
     ut_udpQueue = snd (the (ringbuf_push (ringbuf_init demo_command 16) ZOP_UDP_DropClient (Some demo_command))),
     ut_mainQueue = 1, ut_queues = demo_queue, ut_heap = (\<lambda>_. None), ut_wire = []\<rparr>"

definition demo_env :: udp_env where
  "demo_env = \<lparr>ue_alloc = (\<lambda>_. True), ue_wrapper = demo_sent, ue_bytes = [0, 0, 0, 0], ue_lowestAck = 0, ue_now = 20000,
     ue_clock = (\<lambda>_. 20000), ue_object = Some 99, ue_grow = (\<lambda>_. True), ue_socket = (\<lambda>_. Some 3)\<rparr>"

lemma demo_queue_ok: "rb_inv (demo_queue q)"
proof -
  have n: "2 \<le> (16 :: nat)" "16 \<le> RINGBUF_MAX_PACKETS" by (simp_all add: RINGBUF_MAX_PACKETS_def)
  show ?thesis using ringbuf_init_inv [OF n] by (simp add: demo_queue_def)
qed

lemma demo_thread_ok: "udp_ok demo_thread"
  using demo_queue_ok
  by (simp add: udp_ok_def table_ok_def same_lengths_def ut_count_def demo_thread_def entry_ok_def less_Suc_eq all_conj_distrib
      demo_entry_def udpc_set_index_def udpc_init_def Let_def numeral_2_eq_2)

lemma demo_udpQueue: "rb_inv (ut_udpQueue demo_thread)" "rb_contents (ut_udpQueue demo_thread) = [(ZOP_UDP_DropClient, demo_command)]"
proof -
  have n: "2 \<le> (16 :: nat)" "16 \<le> RINGBUF_MAX_PACKETS" by (simp_all add: RINGBUF_MAX_PACKETS_def)
  note i = ringbuf_init_inv [OF n, of demo_command]
  have c: "rb_count (ringbuf_init demo_command 16) = 0" using i(2) by (simp flip: rb_contents_length)
  show "rb_inv (ut_udpQueue demo_thread)" "rb_contents (ut_udpQueue demo_thread) = [(ZOP_UDP_DropClient, demo_command)]"
    by (rule ringbuf_push_ok [OF i(1), of ZOP_UDP_DropClient demo_command]; use i c in \<open>simp add: demo_thread_def\<close>)+
qed

text \<open>A run of the thread: another thread orders a port, two clients appear on its socket, and after
  19 seconds the first of them is silent, so that the second takes its place in the table.\<close>

definition demo_start :: udp_thread where
  "demo_start = the (udp_create True True True True demo_command demo_queue 1 (\<lambda>_. None))"

definition demo_at :: "u64 \<Rightarrow> udp_env" where "demo_at now = demo_env\<lparr>ue_now := now\<rparr>"

definition demo_hello :: "u8 list" where
  "demo_hello = datagram (wire_header demo_sent 256 False 0 7 0 @ [1, 2, 3])"

definition demo_opened :: "udp_command ringbuf \<Rightarrow> udp_thread" where
  "demo_opened rb = demo_start\<lparr>ut_sockets := [\<lparr>us_sock = 3, us_clientSize = 8, us_queue = 0\<rparr>], ut_udpQueue := rb\<rparr>"

lemma demo_start_eq: "demo_start = \<lparr>ut_sockets = [], ut_addresses = [], ut_clients = [], ut_queueOf = [], ut_flags = [],
    ut_recvTimestamps = [], ut_lastAckTimestamps = [], ut_udpQueue = ringbuf_init demo_command 1024,
    ut_mainQueue = 1, ut_queues = demo_queue, ut_heap = (\<lambda>_. None), ut_wire = []\<rparr>"
  by (simp add: demo_start_def udp_create_def)

lemma demo_opened_eq: "demo_opened rb = \<lparr>ut_sockets = [\<lparr>us_sock = 3, us_clientSize = 8, us_queue = 0\<rparr>],
    ut_addresses = [], ut_clients = [], ut_queueOf = [], ut_flags = [],
    ut_recvTimestamps = [], ut_lastAckTimestamps = [], ut_udpQueue = rb,
    ut_mainQueue = 1, ut_queues = demo_queue, ut_heap = (\<lambda>_. None), ut_wire = []\<rparr>"
  by (simp add: demo_opened_def demo_start_eq)

lemma demo_port_opened:
  obtains rb where "rb_inv rb" "rb_contents rb = []" "udp_thread_proc demo_start Reading (demo_opened rb)"
proof -
  let ?cmd = "demo_command\<lparr>cmd_openPort := 9000, cmd_clientSize := 8, cmd_queue := 0\<rparr>"
  have n: "2 \<le> (1024 :: nat)" "1024 \<le> RINGBUF_MAX_PACKETS" by (simp_all add: RINGBUF_MAX_PACKETS_def)
  note i = ringbuf_init_inv [OF n, of demo_command]
  obtain rb where rb: "ringbuf_push (ringbuf_init demo_command 1024) ZOP_UDP_OpenPort (Some ?cmd) = Some (ERR_None, rb)"
    "rb_inv rb" "rb_contents rb = [(ZOP_UDP_OpenPort, ?cmd)]"
    by (rule ringbuf_push_ok [OF i(1), of ZOP_UDP_OpenPort ?cmd]) (use i(2,3) in \<open>simp_all flip: rb_contents_length\<close>)
  obtain rb' where rb': "ringbuf_pop rb = Some (ERR_None, Some (ZOP_UDP_OpenPort, ?cmd), rb')" "rb_inv rb'" "rb_contents rb' = []"
    by (rule ringbuf_pop_ok [OF rb(2)]) (use rb(3) in auto)
  have e: "ringbuf_pop rb' = Some (ERR_Again, None, rb')"
    by (rule ringbuf_pop_ok [OF rb'(2)]) (use rb'(3) in auto)
  have "udp_thread_open_port demo_env (with_queue rb' demo_start) ?cmd = demo_opened rb'"
    by (simp add: udp_thread_open_port_def demo_opened_def demo_start_eq demo_env_def demo_command_def)
  then have o: "udp_thread_handle_command demo_env ZOP_UDP_OpenPort ?cmd (with_queue rb' (with_queue rb demo_start)) = Some (demo_opened rb')"
    by (simp add: udp_thread_handle_command_def)
  note s = udp_thread_proc.reads [OF udp_thread_proc.entered [of demo_start], of "[]" demo_start]
  have "udp_thread_proc demo_start Commanded (with_queue rb demo_start)"
    by (rule udp_thread_proc.other_command [OF s, of ZOP_UDP_OpenPort "Some ?cmd" ERR_None])
      (use rb(1) in \<open>simp_all add: demo_start_eq udp_thread_process_socket_reads_def\<close>)
  then have "udp_thread_proc demo_start Commanded (demo_opened rb')"
    by (rule udp_thread_proc.command [OF _ _ _ o]) (use rb'(1) in \<open>simp_all add: ZOP_UDP_OpenPort_def ZOP_UDP_TerminateThread_def\<close>)
  note udp_thread_proc.worked_off [OF this, of ERR_Again rb']
  then have "udp_thread_proc demo_start Writing (demo_opened rb')" using e by (simp add: demo_opened_def)
  note udp_thread_proc.writes [OF this, of "\<lambda>_. demo_env" "demo_opened rb'"]
  note udp_thread_proc.timeouts [OF this, of 0 "demo_opened rb'"]
  note udp_thread_proc.cleanup [OF this, of demo_env "demo_opened rb'"]
  note udp_thread_proc.keep_alive [OF this, of 0 "demo_opened rb'"]
  then have "udp_thread_proc demo_start Reading (demo_opened rb')"
    by (simp add: demo_opened_eq udp_thread_process_socket_writes_def udp_thread_check_client_timeouts_def
        udp_thread_cleanup_dead_clients_def udp_thread_send_keep_alive_acks_def ut_count_def udp_cleanup_from.simps udp_truncate_def)
  then show ?thesis using that rb' by blast
qed

lemma demo_clients:
  "map_option (\<lambda>(u1, u4). (ut_udpQueue u1, ut_addresses u4))
    (do {
       u1 \<leftarrow> udp_thread_process_socket_reads [[(demo_at 1000, 1, 7, demo_hello), (demo_at 15000, 2, 7, demo_hello)]] (demo_opened rb);
       u2 \<leftarrow> udp_thread_process_socket_writes (\<lambda>_. demo_env) u1;
       u3 \<leftarrow> udp_thread_check_client_timeouts 20000 u2;
       u4 \<leftarrow> udp_thread_cleanup_dead_clients demo_env u3;
       Some (u1, u4)
     }) = Some (rb, [(2, 7)])"
  unfolding demo_opened_eq by code_simp

lemma demo_reached: "\<exists>udp. udp_thread_proc demo_start Keeping_Alive udp \<and> ut_addresses udp = [(2, 7)]"
proof -
  obtain rb where rb: "rb_inv rb" "rb_contents rb = []" "udp_thread_proc demo_start Reading (demo_opened rb)"
    by (rule demo_port_opened)
  obtain u1 u2 u3 u4 where u:
    "udp_thread_process_socket_reads [[(demo_at 1000, 1, 7, demo_hello), (demo_at 15000, 2, 7, demo_hello)]] (demo_opened rb) = Some u1"
    "udp_thread_process_socket_writes (\<lambda>_. demo_env) u1 = Some u2" "udp_thread_check_client_timeouts 20000 u2 = Some u3"
    "udp_thread_cleanup_dead_clients demo_env u3 = Some u4" "ut_udpQueue u1 = rb" "ut_addresses u4 = [(2, 7)]"
    using demo_clients [of rb] by (auto simp: bind_eq_Some_conv)
  have e: "ringbuf_pop (ut_udpQueue u1) = Some (ERR_Again, None, rb)"
    by (rule ringbuf_pop_ok [OF rb(1)]) (use rb(2) u(5) in auto)
  note udp_thread_proc.reads [OF rb(3) u(1)]
  note udp_thread_proc.worked_off [OF this e]
  then have "udp_thread_proc demo_start Writing u1" using u(5) by (cases u1) simp
  note udp_thread_proc.writes [OF this u(2)]
  note udp_thread_proc.timeouts [OF this u(3)]
  note udp_thread_proc.cleanup [OF this u(4)]
  then show ?thesis using u(6) by blast
qed

text \<open>C4. In every state the UDP thread can reach, between any two of its steps, the connection table is
  consistent: its parallel arrays have one entry for each client, no two connections have the same
  address, and each client's stored index is its position in the table, whatever datagrams arrived,
  whatever commands the other threads pushed and whenever they did, and whichever clients were removed
  and moved. The index is what \<open>udpc_flag_last_ack\<close> uses to write into the timestamps. In the run of
  the witness a port is opened, two clients appear, and the second moves into the place of the first.\<close>

theorem udp_table_consistent:
  assumes "udp_create alloc_ok log_ok queue_ok thread_ok blank queues mainQueue h = Some start" "\<And>q. rb_inv (queues q)"
    and "udp_thread_proc start phase udp"
  shows "same_lengths udp \<and> distinct (ut_addresses udp)
    \<and> (\<forall>i < ut_count udp. uc_udpIndex (ut_clients udp ! i) = int i
         \<and> ut_addresses udp ! i = (uc_ip (ut_clients udp ! i), uc_port (ut_clients udp ! i)))"
  using proc_keeps [OF assms(3) created_ok [OF assms(1)]] assms(2)
  by (auto simp: udp_ok_def table_ok_def entry_ok_def Let_def same_lengths_def)

theorem udp_table_consistent_witness:
  "\<exists>udp. udp_thread_proc demo_start Keeping_Alive udp \<and> ut_addresses udp = [(2, 7)]
     \<and> map (\<lambda>c. (uc_udpIndex c, uc_ip c, uc_port c)) (ut_clients udp) = [(0, 2, 7)]"
proof -
  have c: "udp_create True True True True demo_command demo_queue 1 (\<lambda>_. None) = Some demo_start"
    by (simp add: demo_start_def udp_create_def)
  obtain udp where udp: "udp_thread_proc demo_start Keeping_Alive udp" "ut_addresses udp = [(2, 7)]"
    using demo_reached by blast
  note t = udp_table_consistent [OF c demo_queue_ok udp(1)]
  then have "length (ut_clients udp) = Suc 0" using udp(2) by (simp add: same_lengths_def ut_count_def)
  then obtain x where "ut_clients udp = [x]" by (auto simp: length_Suc_conv)
  then show ?thesis using t udp by (auto simp: ut_count_def)
qed

text \<open>C5. One round of the timeout check followed by the clean-up never fails, and it removes exactly the
  clients that have been silent for \<open>UDP_THREAD_LINKDEAD_TIMEOUT_MS\<close>: the rows that remain are those of
  the others, each as often as before, whatever the order the removal left them in.\<close>

theorem udp_timeouts_remove_silent:
  assumes "udp_ok udp" "\<And>i. i < ut_count udp \<Longrightarrow> \<not> flag_get (ut_flags udp ! i) UDP_FLAG_Dead"
  shows "\<exists>udp1 udp2. udp_thread_check_client_timeouts time udp = Some udp1 \<and> udp_thread_cleanup_dead_clients env udp1 = Some udp2
    \<and> mset (table udp2) = filter_mset (\<lambda>r. time - snd (snd r) < UDP_THREAD_LINKDEAD_TIMEOUT_MS) (mset (table udp))"
proof -
  have l: "same_lengths udp" using assms(1) by (simp add: udp_ok_def table_ok_def)
  obtain udp1 where u1: "udp_thread_check_client_timeouts time udp = Some udp1"
    using check_timeouts_total [OF assms(1), of "[0..<ut_count udp]" time] by (auto simp: udp_thread_check_client_timeouts_def)
  have "table_ok (ut_count udp1) udp1" using timeouts_table(1) [OF assms(1) u1] by (simp add: udp_ok_def)
  then obtain udp2 where u2: "udp_thread_cleanup_dead_clients env udp1 = Some udp2"
    using cleanup_from_total [of "ut_count udp1" udp1 env 0] by (auto simp: udp_thread_cleanup_dead_clients_def)
  have "list_all (\<lambda>r. \<not> row_dead r) (table udp)"
    using assms(2) table_length [OF l] table_nth [OF l] by (simp add: list_all_length)
  from timeouts_remove [OF assms(1) this u1 u2] show ?thesis using u1 u2 by (auto simp: silent_def not_le)
qed

theorem udp_timeouts_remove_silent_witness:
  "\<exists>udp1 udp2. udp_thread_check_client_timeouts 20000 demo_thread = Some udp1
    \<and> udp_thread_cleanup_dead_clients demo_env udp1 = Some udp2 \<and> table udp2 = [((2, 7), 1, 15000)]"
proof -
  have "\<not> flag_get (ut_flags demo_thread ! i) UDP_FLAG_Dead" if "i < ut_count demo_thread" for i
    using that by (auto simp: demo_thread_def ut_count_def less_Suc_eq numeral_2_eq_2 flag_get_def nth_bit_def UDP_FLAG_Dead_def)
  from udp_timeouts_remove_silent [OF demo_thread_ok this, of 20000 demo_env] show ?thesis
    by (simp add: demo_thread_def table_def UDP_THREAD_LINKDEAD_TIMEOUT_MS_def)
qed

text \<open>C6. A datagram from an address that is not in the table, and that is too short or whose checksum is
  wrong, has no effect at all: no client is created, nothing is sent and nothing is put on a queue.\<close>

theorem udp_garbage_ignored:
  assumes "(ip, port) \<notin> set (ut_addresses udp)" "udp_ok udp" "length d \<le> UDP_THREAD_BUFFER_SIZE"
    and "length d < UDP_THREAD_MINIMUM_MEANINGFUL_PACKET_SIZE
      \<or> (\<exists>body crc. d = body @ le32 crc \<and> crc \<noteq> crc_calc32_network body)"
  shows "udp_thread_recv_datagram env s udp ip port d = Some udp"
  using assms get_client_ok(2) [OF assms(2)]
  by (intro unknown_garbage_ignored) (auto simp: UDP_THREAD_BUFFER_SIZE_def UDP_THREAD_MINIMUM_MEANINGFUL_PACKET_SIZE_def)

theorem udp_garbage_ignored_witness:
  "udp_thread_recv_datagram demo_env \<lparr>us_sock = 3, us_clientSize = 8, us_queue = 0\<rparr> demo_thread 9 9 ([0, 0, 0, 0, 0, 0] @ le32 (crc_calc32_network [0, 0, 0, 0, 0, 0] + 1)) =
     Some demo_thread"
  by (rule udp_garbage_ignored [OF _ demo_thread_ok])
    (auto simp: demo_thread_def UDP_THREAD_BUFFER_SIZE_def intro!: exI [of _ "[0, 0, 0, 0, 0, 0]"])

text \<open>C7. The thread works off its queue of commands: if the packets to be scheduled exist and allocations
  succeed, the loop of \<open>udp_thread_process_commands\<close> ends after at most one iteration more than there are
  commands, without a failure. It has then handled every command before the first order to terminate,
  once each and in the order of the queue, and taken that order out; it answers false exactly if there is
  one, and the commands behind it, or none at all, are what the queue still holds.\<close>

theorem udp_commands_terminate:
  assumes "udp_ok udp" "rb_inv (ut_udpQueue udp)" "commands_ok udp" "\<And>k. ue_alloc (env k) = (\<lambda>_. True)"
    and "rb_count (ut_udpQueue udp) < n"
  shows "\<exists>udp' rb. handle_all env n (takeWhile runs_on (rb_contents (ut_udpQueue udp))) udp = Some udp'
    \<and> udp_thread_process_commands env n udp = Some (list_all runs_on (rb_contents (ut_udpQueue udp)), udp'\<lparr>ut_udpQueue := rb\<rparr>)
    \<and> rb_contents rb = tl (dropWhile runs_on (rb_contents (ut_udpQueue udp)))"
  using commands_worked_off [OF assms(1-3) _ assms(5), of env] assms(4) by blast

text \<open>The second connection is dropped, the thread is told to stop, and a disconnect is left over.\<close>

definition demo_told :: udp_thread where
  "demo_told = demo_thread\<lparr>ut_udpQueue := snd (the (Option.bind (ringbuf_push (ut_udpQueue demo_thread) ZOP_UDP_TerminateThread None)
     (\<lambda>(rc, rb). ringbuf_push rb ZOP_UDP_ClientDisconnect (Some demo_command))))\<rparr>"

lemma demo_told_ok: "udp_ok demo_told" "rb_inv (ut_udpQueue demo_told)" "commands_ok demo_told"
  "rb_contents (ut_udpQueue demo_told) =
     [(ZOP_UDP_DropClient, demo_command), (ZOP_UDP_TerminateThread, demo_command), (ZOP_UDP_ClientDisconnect, demo_command)]"
proof -
  show c: "rb_contents (ut_udpQueue demo_told) =
     [(ZOP_UDP_DropClient, demo_command), (ZOP_UDP_TerminateThread, demo_command), (ZOP_UDP_ClientDisconnect, demo_command)]"
    by code_simp
  show "udp_ok demo_told" using demo_thread_ok by (simp add: demo_told_def)
  show "commands_ok demo_told" unfolding commands_ok_def c
    by (simp add: ZOP_UDP_DropClient_def ZOP_UDP_ToClientPacketScheduled_def ZOP_UDP_TerminateThread_def ZOP_UDP_ClientDisconnect_def)
  have "\<exists>rc rc' rb rb'. ringbuf_push (ut_udpQueue demo_thread) ZOP_UDP_TerminateThread None = Some (rc, rb)
     \<and> ringbuf_push rb ZOP_UDP_ClientDisconnect (Some demo_command) = Some (rc', rb') \<and> rb_inv rb \<and> rb_inv rb'"
    using demo_udpQueue(1) push_total push_none queue_steps_keep(1) by (metis option.exhaust surj_pair)
  then show "rb_inv (ut_udpQueue demo_told)" by (auto simp: demo_told_def)
qed

theorem udp_commands_terminate_witness:
  "\<exists>udp' rb. udp_thread_process_commands (\<lambda>_. demo_env) 4 demo_told = Some (False, udp'\<lparr>ut_udpQueue := rb\<rparr>)
     \<and> Some udp' = udp_thread_handle_command demo_env ZOP_UDP_DropClient demo_command demo_told
     \<and> ut_flags udp' = [0, 3] \<and> rb_contents rb = [(ZOP_UDP_ClientDisconnect, demo_command)]"
proof -
  have n: "rb_count (ut_udpQueue demo_told) < 4" using arg_cong [OF demo_told_ok(4), of length] by simp
  have r: "runs_on (ZOP_UDP_DropClient, demo_command)" "\<not> runs_on (ZOP_UDP_TerminateThread, demo_command)"
    by (simp_all add: runs_on_def ZOP_UDP_DropClient_def ZOP_UDP_TerminateThread_def)
  have f: "map_option ut_flags (udp_thread_handle_command demo_env ZOP_UDP_DropClient demo_command demo_told) = Some [0, 3]"
    by code_simp
  from udp_commands_terminate [OF demo_told_ok(1-3) _ n, of "\<lambda>_. demo_env"] show ?thesis
    using f by (auto simp: demo_told_ok(4) r demo_env_def bind_eq_Some_conv)
qed

text \<open>
  A connection that the server closes stays in the table until it times out, and is then reported
  disconnected a second time, with the client object of the first message.
\<close>

lemma udp_disconnect_reported_twice:
  "map_option (\<lambda>udp. rb_contents (ut_queues udp 0))
     (Option.bind (udp_thread_handle_client_disconnect demo_env demo_thread (demo_command\<lparr>cmd_ip := 1\<rparr>)) (\<lambda>udp.
      Option.bind (udp_thread_check_client_timeouts 20000 udp) (udp_thread_cleanup_dead_clients demo_env))) =
   Some [(ZOP_UDP_ClientDisconnect, ZClientDisconnect 50), (ZOP_UDP_ClientLinkdead, ZClientDisconnect 50),
     (ZOP_UDP_ClientDisconnect, ZClientDisconnect 50)]"
  by code_simp

end
