(* ===== verification/Zeq_Skills.thy ===== *)
theory Zeq_Skills
  imports Zeq_Aligned
begin

text \<open>
  \<open>src/skills.c\<close>: the skills and languages of a character, from the tables of its race and class and
  from the database. An access outside the arrays, undefined in C, is \<open>None\<close>.
\<close>

definition SKILL_CAP :: nat where "SKILL_CAP = 250"
definition SKILL_CANT_LEARN :: u8 where "SKILL_CANT_LEARN = 0xff"
definition SKILL_HAVENT_TRAINED_YET :: u8 where "SKILL_HAVENT_TRAINED_YET = 0xfe"
definition LANG_CAP :: u8 where "LANG_CAP = 100"
definition SKILL_LANGUAGE_DB_OFFSET :: nat where "SKILL_LANGUAGE_DB_OFFSET = 100"

definition SKILL_Forage :: nat where "SKILL_Forage = 27"
definition SKILL_Hide :: nat where "SKILL_Hide = 29"
definition SKILL_Sneak :: nat where "SKILL_Sneak = 42"
definition SKILL_Swimming :: nat where "SKILL_Swimming = 50"
definition SKILL_Tinkering :: nat where "SKILL_Tinkering = 57"
definition SKILL_COUNT :: nat where "SKILL_COUNT = 74"
definition LANG_CommonTongue :: nat where "LANG_CommonTongue = 0"
definition LANG_COUNT :: nat where "LANG_COUNT = 24"

definition RACIAL_HIDE_INDEX :: nat where "RACIAL_HIDE_INDEX = 0"
definition RACIAL_SNEAK_INDEX :: nat where "RACIAL_SNEAK_INDEX = 1"
definition RACIAL_FORAGE_INDEX :: nat where "RACIAL_FORAGE_INDEX = 2"
definition RACIAL_SWIMMING_INDEX :: nat where "RACIAL_SWIMMING_INDEX = 3"
definition RACIAL_TINKERING_INDEX :: nat where "RACIAL_TINKERING_INDEX = 4"

record skills =
  sk_skill :: "u8 list"
  sk_language :: "u8 list"

section \<open>The tables\<close>

text \<open>One row for each race, one column for each of the skills a race may start with.\<close>

definition racialSkills :: "u8 list list" where
  "racialSkills = (let CANT = SKILL_CANT_LEARN in
    [[CANT, CANT, CANT, CANT, CANT],
     [CANT, CANT, CANT, CANT, CANT],
     [CANT, CANT, CANT, CANT, CANT],
     [50, CANT, 50, CANT, CANT],
     [CANT, CANT, CANT, CANT, CANT],
     [50, CANT, CANT, CANT, CANT],
     [CANT, CANT, CANT, CANT, CANT],
     [CANT, CANT, CANT, CANT, CANT],
     [CANT, CANT, CANT, CANT, CANT],
     [CANT, CANT, CANT, CANT, CANT],
     [50, 50, CANT, CANT, CANT],
     [CANT, CANT, CANT, CANT, 50],
     [CANT, CANT, 50, 100, CANT]])"

text \<open>One row for each skill, one column for each class.\<close>

definition classLvl1Skills :: "u8 list list" where
  "classLvl1Skills = (let CANT = SKILL_CANT_LEARN; NOTYET = SKILL_HAVENT_TRAINED_YET in
    [[0, 0, 0, 0, 0, 0, 0, 0, 0, 0, 0, 0, 0, 0],
     [0, CANT, 0, 0, 0, 0, CANT, 0, 0, CANT, CANT, CANT, CANT, CANT],
     [0, 0, 0, 0, 0, 0, 0, CANT, CANT, 0, 0, 0, 0, 0],
     [0, CANT, 0, 0, 0, CANT, CANT, CANT, CANT, CANT, CANT, CANT, CANT, CANT],
     [CANT, 0, NOTYET, NOTYET, NOTYET, 0, CANT, CANT, CANT, 0, 0, 0, 0, 0],
     [CANT, 0, NOTYET, NOTYET, NOTYET, 0, CANT, CANT, CANT, 0, 0, 0, 0, 0],
     [CANT, CANT, CANT, CANT, CANT, CANT, CANT, CANT, NOTYET, CANT, CANT, CANT, CANT, CANT],
     [0, CANT, 0, 0, 0, CANT, CANT, CANT, 0, CANT, CANT, CANT, CANT, CANT],
     [CANT, CANT, CANT, CANT, CANT, CANT, CANT, CANT, NOTYET, CANT, CANT, CANT, CANT, CANT],
     [0, 0, 0, 0, 0, 0, 0, 0, 0, 0, 0, 0, 0, 0],
     [0, CANT, 0, CANT, 0, CANT, CANT, CANT, CANT, CANT, CANT, CANT, CANT, CANT],
     [CANT, CANT, CANT, CANT, CANT, CANT, NOTYET, CANT, CANT, CANT, CANT, CANT, CANT, CANT],
     [CANT, CANT, CANT, CANT, CANT, CANT, CANT, 0, CANT, CANT, CANT, CANT, CANT, CANT],
     [CANT, NOTYET, NOTYET, NOTYET, NOTYET, NOTYET, CANT, CANT, CANT, NOTYET, 0, 0, 0, 0],
     [CANT, 0, NOTYET, NOTYET, NOTYET, 0, CANT, CANT, CANT, 0, 0, 0, 0, 0],
     [0, 0, 0, 0, 0, 0, 0, 0, 0, 0, 0, 0, 0, 0],
     [NOTYET, CANT, NOTYET, NOTYET, NOTYET, CANT, NOTYET, CANT, NOTYET, CANT, CANT, CANT, CANT, CANT],
     [CANT, CANT, CANT, CANT, CANT, CANT, CANT, NOTYET, NOTYET, CANT, CANT, CANT, CANT, CANT],
     [CANT, 0, NOTYET, NOTYET, NOTYET, 0, CANT, CANT, CANT, 0, 0, 0, 0, 0],
     [NOTYET, NOTYET, NOTYET, NOTYET, NOTYET, NOTYET, 0, NOTYET, NOTYET, NOTYET, NOTYET, NOTYET, NOTYET, NOTYET],
     [NOTYET, CANT, NOTYET, NOTYET, NOTYET, CANT, NOTYET, CANT, NOTYET, CANT, CANT, CANT, CANT, CANT],
     [CANT, CANT, CANT, CANT, CANT, CANT, NOTYET, CANT, CANT, CANT, CANT, CANT, CANT, CANT],
     [NOTYET, CANT, CANT, NOTYET, CANT, CANT, 0, NOTYET, NOTYET, CANT, CANT, CANT, CANT, CANT],
     [CANT, CANT, CANT, CANT, CANT, CANT, NOTYET, CANT, CANT, CANT, CANT, CANT, CANT, CANT],
     [CANT, 0, NOTYET, NOTYET, NOTYET, 0, CANT, CANT, CANT, 0, 0, 0, 0, 0],
     [CANT, CANT, CANT, CANT, CANT, CANT, NOTYET, CANT, CANT, CANT, CANT, CANT, CANT, CANT],
     [CANT, CANT, CANT, CANT, CANT, CANT, NOTYET, CANT, CANT, CANT, CANT, CANT, CANT, CANT],
     [CANT, CANT, CANT, NOTYET, CANT, NOTYET, CANT, NOTYET, CANT, CANT, CANT, CANT, CANT, CANT],
     [0, 0, 0, 0, 0, 0, 0, 0, 0, 0, 0, 0, 0, 0],
     [CANT, CANT, CANT, NOTYET, NOTYET, CANT, CANT, NOTYET, NOTYET, CANT, CANT, CANT, CANT, CANT],
     [0, CANT, CANT, NOTYET, CANT, CANT, 0, CANT, CANT, CANT, CANT, CANT, CANT, CANT],
     [CANT, NOTYET, NOTYET, NOTYET, NOTYET, NOTYET, CANT, CANT, CANT, NOTYET, NOTYET, NOTYET, NOTYET, NOTYET],
     [CANT, CANT, CANT, CANT, CANT, CANT, 0, CANT, CANT, CANT, CANT, CANT, CANT, CANT],
     [0, 0, 0, 0, 0, 0, 0, 0, 0, 0, 0, 0, 0, 0],
     [NOTYET, CANT, NOTYET, NOTYET, NOTYET, CANT, CANT, NOTYET, NOTYET, CANT, CANT, CANT, CANT, CANT],
     [CANT, CANT, CANT, CANT, CANT, CANT, CANT, NOTYET, NOTYET, CANT, CANT, CANT, CANT, CANT],
     [0, CANT, 0, 0, 0, CANT, CANT, 0, 0, 0, 0, 0, 0, 0],
     [NOTYET, CANT, NOTYET, NOTYET, NOTYET, CANT, NOTYET, NOTYET, NOTYET, CANT, CANT, CANT, CANT, CANT],
     [CANT, CANT, CANT, CANT, CANT, CANT, NOTYET, CANT, CANT, CANT, CANT, CANT, CANT, CANT],
     [CANT, CANT, CANT, CANT, CANT, CANT, NOTYET, NOTYET, NOTYET, CANT, CANT, CANT, CANT, CANT],
     [0, 0, 0, 0, 0, 0, 0, 0, 0, 0, 0, 0, 0, 0],
     [CANT, CANT, CANT, CANT, CANT, CANT, CANT, 0, CANT, CANT, CANT, CANT, CANT, CANT],
     [CANT, CANT, CANT, NOTYET, CANT, CANT, NOTYET, NOTYET, 0, CANT, CANT, CANT, CANT, CANT],
     [CANT, NOTYET, CANT, CANT, CANT, NOTYET, CANT, CANT, CANT, NOTYET, NOTYET, NOTYET, NOTYET, NOTYET],
     [CANT, NOTYET, CANT, CANT, CANT, NOTYET, CANT, CANT, CANT, NOTYET, NOTYET, NOTYET, NOTYET, NOTYET],
     [CANT, NOTYET, CANT, CANT, CANT, NOTYET, CANT, CANT, CANT, NOTYET, NOTYET, NOTYET, NOTYET, NOTYET],
     [CANT, NOTYET, CANT, CANT, CANT, NOTYET, CANT, CANT, CANT, NOTYET, NOTYET, NOTYET, NOTYET, NOTYET],
     [CANT, NOTYET, CANT, CANT, CANT, NOTYET, CANT, CANT, CANT, NOTYET, NOTYET, NOTYET, NOTYET, NOTYET],
     [CANT, CANT, CANT, CANT, CANT, CANT, CANT, CANT, NOTYET, CANT, CANT, CANT, CANT, CANT],
     [CANT, CANT, CANT, CANT, CANT, CANT, CANT, 0, CANT, CANT, CANT, CANT, CANT, CANT],
     [0, 0, 0, 0, 0, 0, 0, 0, 0, 0, 0, 0, 0, 0],
     [0, 0, 0, 0, 0, 0, 0, 0, 0, 0, 0, 0, 0, 0],
     [CANT, CANT, CANT, CANT, CANT, CANT, NOTYET, CANT, CANT, CANT, CANT, CANT, CANT, CANT],
     [CANT, CANT, CANT, 0, CANT, NOTYET, CANT, NOTYET, CANT, CANT, CANT, CANT, CANT, CANT],
     [CANT, CANT, CANT, CANT, CANT, CANT, CANT, 0, CANT, CANT, CANT, CANT, CANT, CANT],
     [0, 0, 0, 0, 0, 0, 0, 0, 0, 0, 0, 0, 0, 0],
     [CANT, CANT, CANT, CANT, CANT, CANT, CANT, CANT, NOTYET, CANT, CANT, CANT, CANT, CANT],
     [CANT, CANT, CANT, CANT, CANT, CANT, CANT, CANT, CANT, CANT, CANT, CANT, CANT, CANT],
     [CANT, CANT, CANT, CANT, CANT, CANT, CANT, CANT, CANT, CANT, NOTYET, NOTYET, NOTYET, NOTYET],
     [CANT, CANT, CANT, CANT, CANT, CANT, CANT, CANT, CANT, NOTYET, CANT, CANT, CANT, CANT],
     [0, 0, 0, 0, 0, 0, 0, 0, 0, 0, 0, 0, 0, 0],
     [0, 0, 0, 0, 0, 0, 0, 0, 0, 0, 0, 0, 0, 0],
     [CANT, CANT, CANT, CANT, CANT, CANT, CANT, NOTYET, NOTYET, CANT, CANT, CANT, CANT, CANT],
     [0, 0, 0, 0, 0, 0, 0, 0, 0, 0, 0, 0, 0, 0],
     [0, 0, 0, 0, 0, 0, 0, 0, 0, 0, 0, 0, 0, 0],
     [0, 0, 0, 0, 0, 0, 0, 0, 0, 0, 0, 0, 0, 0],
     [0, 0, 0, 0, 0, 0, 0, 0, 0, 0, 0, 0, 0, 0],
     [0, 0, 0, 0, 0, 0, 0, 0, 0, 0, 0, 0, 0, 0],
     [0, 0, 0, 0, 0, 0, 0, 0, 0, 0, 0, 0, 0, 0],
     [0, 0, 0, 0, 0, 0, 0, 0, 0, 0, 0, 0, 0, 0],
     [CANT, CANT, CANT, CANT, CANT, CANT, CANT, 0, CANT, CANT, CANT, CANT, CANT, CANT],
     [CANT, CANT, CANT, CANT, CANT, CANT, NOTYET, NOTYET, CANT, CANT, CANT, CANT, CANT, CANT],
     [CANT, CANT, CANT, CANT, CANT, CANT, CANT, CANT, CANT, CANT, CANT, CANT, CANT, CANT],
     [0, CANT, 0, 0, 0, CANT, CANT, CANT, CANT, CANT, CANT, CANT, CANT, CANT]])"

section \<open>Operations\<close>

text \<open>\<open>raceId - 1\<close> is converted to 32 unsigned bits, \<open>classId--\<close> wraps at 8: 0 selects the last row.\<close>

definition skills_init :: "u8 \<Rightarrow> u16 \<Rightarrow> skills" where
  "skills_init classId raceId =
     (let raceIndex = (ucast raceId :: u32) - 1;
          raceIndex = (if raceIndex > 12 then 12 else raceIndex);
          classId = classId - 1;
          classId = (if classId > 13 then 13 else classId);
          racial = racialSkills ! unat raceIndex;
          skill = replicate SKILL_COUNT SKILL_CANT_LEARN;
          language = replicate LANG_COUNT 0;
          skill = skill[SKILL_Hide := racial ! RACIAL_HIDE_INDEX];
          skill = skill[SKILL_Sneak := racial ! RACIAL_SNEAK_INDEX];
          skill = skill[SKILL_Forage := racial ! RACIAL_FORAGE_INDEX];
          skill = skill[SKILL_Swimming := racial ! RACIAL_SWIMMING_INDEX];
          skill = skill[SKILL_Tinkering := racial ! RACIAL_TINKERING_INDEX];
          skill = fold (\<lambda>i skill. if skill ! i = SKILL_CANT_LEARN then skill[i := classLvl1Skills ! i ! unat classId] else skill)
                    [0..<SKILL_COUNT] skill
      in \<lparr>sk_skill = skill, sk_language = language[LANG_CommonTongue := LANG_CAP]\<rparr>)"

definition skills_set_skill :: "skills \<Rightarrow> u32 \<Rightarrow> u32 \<Rightarrow> skills option" where
  "skills_set_skill sk skillId value =
     (let value = (if unat value > SKILL_CAP then of_nat SKILL_CAP else value)
      in if unat skillId < SKILL_COUNT then Some (sk\<lparr>sk_skill := (sk_skill sk)[unat skillId := ucast value]\<rparr>) else None)"

text \<open>After a language has been set the function goes on to the assignment to a skill.\<close>

definition skills_set_from_db :: "skills \<Rightarrow> u32 \<Rightarrow> u32 \<Rightarrow> skills option" where
  "skills_set_from_db sk skillId value =
     (if unat skillId \<ge> SKILL_LANGUAGE_DB_OFFSET then
        let skillId = skillId - of_nat SKILL_LANGUAGE_DB_OFFSET
        in if unat skillId \<ge> LANG_COUNT then Some sk
           else skills_set_skill (sk\<lparr>sk_language := (sk_language sk)[unat skillId := ucast value]\<rparr>) skillId value
      else skills_set_skill sk skillId value)"

definition skills_write_pp :: "skills \<Rightarrow> aligned \<Rightarrow> aligned option" where
  "skills_write_pp sk a = write_fields (map (\<lambda>i. FU8 (sk_skill sk ! i)) [0..<SKILL_COUNT]) a"

definition skills_write_pp_languages :: "skills \<Rightarrow> aligned \<Rightarrow> aligned option" where
  "skills_write_pp_languages sk a = write_fields (map (\<lambda>i. FU8 (sk_language sk ! i)) [0..<LANG_COUNT]) a"

definition skill_get :: "skills \<Rightarrow> int \<Rightarrow> int option" where
  "skill_get sk skillId =
     (let skillId = (if skillId \<ge> int SKILL_COUNT then int SKILL_COUNT - 1 else skillId)
      in if skillId < 0 then None
         else let val = uint (sk_skill sk ! nat skillId)
              in Some (if val > int SKILL_CAP then 0 else val))"

definition skill_get_language :: "skills \<Rightarrow> int \<Rightarrow> int option" where
  "skill_get_language sk langId =
     (let langId = (if langId \<ge> int LANG_COUNT then int LANG_COUNT - 1 else langId)
      in if langId < 0 then None
         else let val = uint (sk_language sk ! nat langId)
              in Some (if val > int SKILL_CAP then 0 else val))"

definition skill_is_learned_value :: "int \<Rightarrow> bool" where
  "skill_is_learned_value skillValue \<longleftrightarrow> skillValue \<le> int SKILL_CAP"

section \<open>The type of a skill array\<close>

text \<open>A value is one of the two markers, or within the cap.\<close>

definition skill_value_ok :: "u8 \<Rightarrow> bool" where
  "skill_value_ok v \<longleftrightarrow> v = SKILL_CANT_LEARN \<or> v = SKILL_HAVENT_TRAINED_YET \<or> unat v \<le> SKILL_CAP"

definition skills_ok :: "skills \<Rightarrow> bool" where
  "skills_ok sk \<longleftrightarrow> length (sk_skill sk) = SKILL_COUNT \<and> length (sk_language sk) = LANG_COUNT
     \<and> list_all skill_value_ok (sk_skill sk)"

lemma table_shapes:
  "length racialSkills = 13" "list_all (\<lambda>r. length r = 5 \<and> list_all skill_value_ok r) racialSkills"
  "length classLvl1Skills = 74" "list_all (\<lambda>r. length r = 14 \<and> list_all skill_value_ok r) classLvl1Skills"
  by (simp_all add: racialSkills_def classLvl1Skills_def skill_value_ok_def SKILL_CANT_LEARN_def SKILL_HAVENT_TRAINED_YET_def
      SKILL_CAP_def)

lemma racial_ok: "i < 13 \<Longrightarrow> j < 5 \<Longrightarrow> skill_value_ok (racialSkills ! i ! j)"
  using table_shapes(1,2) by (simp add: list_all_length)

lemma class_ok: "i < 74 \<Longrightarrow> j < 14 \<Longrightarrow> skill_value_ok (classLvl1Skills ! i ! j)"
  using table_shapes(3,4) by (simp add: list_all_length)

lemma list_all_update: "list_all P xs \<Longrightarrow> P x \<Longrightarrow> list_all P (xs[i := x])"
  by (auto simp: list_all_iff dest!: set_update_subset_insert [THEN subsetD])

text \<open>The loop looks at each index once.\<close>

lemma fold_update_nth:
  assumes "n \<le> length xs" "j < length xs"
  shows "fold (\<lambda>i xs. if P (xs ! i) then xs[i := f i] else xs) [0..<n] xs ! j = (if j < n \<and> P (xs ! j) then f j else xs ! j)"
    "length (fold (\<lambda>i xs. if P (xs ! i) then xs[i := f i] else xs) [0..<n] xs) = length xs"
proof -
  have "length (fold (\<lambda>i xs. if P (xs ! i) then xs[i := f i] else xs) [0..<n] xs) = length xs \<and>
    (\<forall>j < length xs. fold (\<lambda>i xs. if P (xs ! i) then xs[i := f i] else xs) [0..<n] xs ! j =
      (if j < n \<and> P (xs ! j) then f j else xs ! j))"
    using assms(1)
  proof (induction n)
    case (Suc n)
    then have IH: "length (fold (\<lambda>i xs. if P (xs ! i) then xs[i := f i] else xs) [0..<n] xs) = length xs"
      "\<forall>j < length xs. fold (\<lambda>i xs. if P (xs ! i) then xs[i := f i] else xs) [0..<n] xs ! j =
        (if j < n \<and> P (xs ! j) then f j else xs ! j)" by simp_all
    show ?case using IH Suc.prems by (auto simp: nth_list_update less_Suc_eq)
  qed simp
  then show "fold (\<lambda>i xs. if P (xs ! i) then xs[i := f i] else xs) [0..<n] xs ! j = (if j < n \<and> P (xs ! j) then f j else xs ! j)"
    "length (fold (\<lambda>i xs. if P (xs ! i) then xs[i := f i] else xs) [0..<n] xs) = length xs"
    using assms(2) by blast+
qed

definition race_row :: "u16 \<Rightarrow> nat" where
  "race_row raceId = (if 1 \<le> unat raceId \<and> unat raceId \<le> 12 then unat raceId - 1 else 12)"

definition class_column :: "u8 \<Rightarrow> nat" where
  "class_column classId = (if 1 \<le> unat classId \<and> unat classId \<le> 13 then unat classId - 1 else 13)"

lemma race_row_eq:
  "unat (let raceIndex = (ucast raceId :: u32) - 1 in if raceIndex > 12 then 12 else raceIndex) = race_row raceId"
proof (cases "raceId = 0")
  case False
  have "unat (ucast raceId :: u32) = unat raceId"
    using unsigned_less [of raceId, where 'a = nat] by (simp add: unsigned_ucast_eq take_bit_nat_eq_self)
  moreover from this have "unat ((ucast raceId :: u32) - 1) = unat raceId - 1"
    using False unat_pred [of "ucast raceId :: u32"] by (simp add: unat_gt_0)
  moreover have "1 \<le> unat raceId" using False by (metis One_nat_def Suc_leI unat_gt_0)
  ultimately show ?thesis by (auto simp: race_row_def Let_def word_less_nat_alt)
qed (simp add: race_row_def)

lemma class_column_eq: "unat (let classId = classId - 1 in if classId > 13 then 13 else (classId :: u8)) = class_column classId"
proof (cases "classId = 0")
  case False
  have "unat (classId - 1) = unat classId - 1" using False unat_pred [of classId] by (simp add: unat_gt_0)
  moreover have "1 \<le> unat classId" using False by (metis One_nat_def Suc_leI unat_gt_0)
  ultimately show ?thesis by (auto simp: class_column_def Let_def word_less_nat_alt)
qed (simp add: class_column_def)

lemmas skill_ids = SKILL_Hide_def SKILL_Sneak_def SKILL_Forage_def SKILL_Swimming_def SKILL_Tinkering_def SKILL_COUNT_def
  RACIAL_HIDE_INDEX_def RACIAL_SNEAK_INDEX_def RACIAL_FORAGE_INDEX_def RACIAL_SWIMMING_INDEX_def RACIAL_TINKERING_INDEX_def
  LANG_COUNT_def LANG_CommonTongue_def

text \<open>The column of the racial table for a skill, if it has one.\<close>

definition racial_skill :: "nat \<Rightarrow> nat \<Rightarrow> u8" where
  "racial_skill race i = (case map_of [(29, 0), (42, 1), (27, 2), (50, 3), (57, 4)] i of
     Some j \<Rightarrow> racialSkills ! race ! j | None \<Rightarrow> SKILL_CANT_LEARN)"

lemma skills_init_nth:
  assumes "i < 74"
  shows "sk_skill (skills_init classId raceId) ! i =
    (if racial_skill (race_row raceId) i = SKILL_CANT_LEARN then classLvl1Skills ! i ! class_column classId
     else racial_skill (race_row raceId) i)"
    "length (sk_skill (skills_init classId raceId)) = 74" "length (sk_language (skills_init classId raceId)) = 24"
proof -
  let ?r = "racialSkills ! race_row raceId"
  let ?xs = "(replicate 74 SKILL_CANT_LEARN)[29 := ?r ! 0, 42 := ?r ! 1, 27 := ?r ! 2, 50 := ?r ! 3, 57 := ?r ! 4]"
  have init: "sk_skill (skills_init classId raceId) =
      fold (\<lambda>i xs. if xs ! i = SKILL_CANT_LEARN then xs[i := classLvl1Skills ! i ! class_column classId] else xs) [0..<74] ?xs"
    by (simp only: skills_init_def Let_def skills.simps race_row_eq [unfolded Let_def] class_column_eq [unfolded Let_def] skill_ids)
  note f = fold_update_nth [where P = "\<lambda>v. v = SKILL_CANT_LEARN" and f = "\<lambda>i. classLvl1Skills ! i ! class_column classId"
      and xs = ?xs and n = 74]
  show "length (sk_skill (skills_init classId raceId)) = 74" unfolding init using f(2) [of i] assms by simp
  show "length (sk_language (skills_init classId raceId)) = 24" by (simp add: skills_init_def Let_def skill_ids)
  have "?xs ! i = racial_skill (race_row raceId) i" using assms by (simp add: nth_list_update racial_skill_def)
  then show "sk_skill (skills_init classId raceId) ! i =
    (if racial_skill (race_row raceId) i = SKILL_CANT_LEARN then classLvl1Skills ! i ! class_column classId
     else racial_skill (race_row raceId) i)"
    unfolding init using assms by (subst f(1)) simp_all
qed

lemma skills_init_ok: "skills_ok (skills_init classId raceId)"
proof -
  have "race_row raceId < 13" "class_column classId < 14" by (auto simp: race_row_def class_column_def)
  then have "skill_value_ok (sk_skill (skills_init classId raceId) ! i)" if "i < 74" for i
    using that class_ok [OF that] racial_ok
    by (auto simp: skills_init_nth(1) racial_skill_def skill_value_ok_def [of SKILL_CANT_LEARN] split: option.splits if_splits)
  then show ?thesis by (simp add: skills_ok_def list_all_length skills_init_nth(2,3) [of 0] skill_ids)
qed

lemma set_skill_ok: "skills_ok sk \<Longrightarrow> skills_set_skill sk skillId value = Some sk' \<Longrightarrow> skills_ok sk'"
proof -
  have "skill_value_ok (ucast (if unat value > SKILL_CAP then of_nat SKILL_CAP else value :: u32))"
    by (auto simp: skill_value_ok_def SKILL_CAP_def unsigned_ucast_eq take_bit_nat_eq_self)
  then show "skills_ok sk \<Longrightarrow> skills_set_skill sk skillId value = Some sk' \<Longrightarrow> skills_ok sk'"
    by (auto simp: skills_set_skill_def skills_ok_def Let_def list_all_update split: if_splits)
qed

lemma set_from_db_ok: "skills_ok sk \<Longrightarrow> skills_set_from_db sk skillId value = Some sk' \<Longrightarrow> skills_ok sk'"
proof -
  assume ok: "skills_ok sk" and s: "skills_set_from_db sk skillId value = Some sk'"
  have "skills_ok (sk\<lparr>sk_language := (sk_language sk)[k := v]\<rparr>)" for k v using ok by (simp add: skills_ok_def)
  then show "skills_ok sk'" using s ok by (auto simp: skills_set_from_db_def Let_def split: if_splits dest: set_skill_ok [rotated])
qed

text \<open>The rows of the database, one after the other.\<close>

fun skills_load :: "(u32 \<times> u32) list \<Rightarrow> skills \<Rightarrow> skills option" where
  "skills_load [] sk = Some sk"
| "skills_load ((skillId, value) # rows) sk = Option.bind (skills_set_from_db sk skillId value) (skills_load rows)"

lemma skills_load_ok: "skills_ok sk \<Longrightarrow> skills_load rows sk = Some sk' \<Longrightarrow> skills_ok sk'"
  by (induction rows sk rule: skills_load.induct) (auto simp: bind_eq_Some_conv dest: set_from_db_ok)

lemma skill_get_ok:
  assumes "skills_ok sk" "0 \<le> skillId"
  shows "\<exists>v. skill_get sk skillId = Some v \<and> 0 \<le> v \<and> v \<le> 250 \<and> skill_is_learned_value v"
  using assms by (auto simp: skill_get_def Let_def skill_is_learned_value_def SKILL_CAP_def SKILL_COUNT_def)

lemma set_from_db_None: "skills_set_from_db sk skillId value = None \<longleftrightarrow> 74 \<le> unat skillId \<and> unat skillId < 100"
proof -
  have "unat (skillId - 100) = unat skillId - 100" if "100 \<le> unat skillId" using that by (simp add: unat_sub word_le_nat_alt)
  then show ?thesis
    by (auto simp: skills_set_from_db_def skills_set_skill_def Let_def SKILL_LANGUAGE_DB_OFFSET_def SKILL_COUNT_def LANG_COUNT_def)
qed

lemma skills_load_None: "skills_load rows sk = None \<longleftrightarrow> (\<exists>(skillId, value) \<in> set rows. 74 \<le> unat skillId \<and> unat skillId < 100)"
proof (induction rows arbitrary: sk)
  case (Cons row rows)
  obtain skillId v where row: "row = (skillId, v)" by (cases row)
  show ?case
  proof (cases "skills_set_from_db sk skillId v")
    case None
    then show ?thesis using set_from_db_None [of sk skillId v] by (auto simp: row)
  next
    case (Some sk')
    then show ?thesis using set_from_db_None [of sk skillId v] Cons.IH [of sk'] by (auto simp: row)
  qed
qed simp

text \<open>C23. Whatever class and race a character has, loading any rows of the database ends in one of two
  ways. If a row has an id from 74 to 99, the load writes behind the array of skills, which is undefined
  in C. If no row has, the load succeeds and the arrays keep their type: every skill is one of the two
  markers or at most \<open>SKILL_CAP\<close>, and \<open>skill_get\<close> answers exactly the ids from 0 on, also those behind the
  last skill, with a value from 0 to 250; a negative id reads before the array.\<close>

theorem skills_well_typed:
  "case skills_load rows (skills_init classId raceId) of
     None \<Rightarrow> \<exists>(skillId, value) \<in> set rows. 74 \<le> unat skillId \<and> unat skillId < 100
   | Some sk \<Rightarrow> (\<forall>(skillId, value) \<in> set rows. unat skillId < 74 \<or> 100 \<le> unat skillId)
       \<and> skills_ok sk
       \<and> (\<forall>skillId. (skill_get sk skillId = None \<longleftrightarrow> skillId < 0)
            \<and> (\<forall>v. skill_get sk skillId = Some v \<longrightarrow> 0 \<le> v \<and> v \<le> 250))"
proof (cases "skills_load rows (skills_init classId raceId)")
  case None
  then show ?thesis using skills_load_None [THEN iffD1, OF None] by simp
next
  case (Some sk)
  have "skill_get sk skillId = None \<longleftrightarrow> skillId < 0" for skillId
    by (auto simp: skill_get_def Let_def SKILL_COUNT_def)
  moreover have "0 \<le> v \<and> v \<le> 250" if "skill_get sk skillId = Some v" for skillId v
    using that by (auto simp: skill_get_def Let_def SKILL_CAP_def split: if_splits)
  moreover have "\<not> (\<exists>(skillId, value) \<in> set rows. 74 \<le> unat skillId \<and> unat skillId < 100)"
    using Some skills_load_None [of rows "skills_init classId raceId"] by simp
  ultimately show ?thesis using Some skills_load_ok [OF skills_init_ok Some] by (fastforce simp: not_le)
qed

theorem skills_well_typed_witness:
  "(\<exists>sk. skills_load [(3, 999), (110, 100)] (skills_init 9 6) = Some sk \<and> skills_ok sk)
     \<and> skills_load [(3, 10), (80, 1)] (skills_init 9 6) = None"
proof -
  have "skills_load [(3, 999), (110, 100)] (skills_init 9 6) \<noteq> None" unfolding skills_load_None by simp
  then have "\<exists>sk. skills_load [(3, 999), (110, 100)] (skills_init 9 6) = Some sk \<and> skills_ok sk"
    using skills_well_typed [of "[(3, 999), (110, 100)]" 9 6] by auto
  moreover have "skills_load [(3, 10), (80, 1)] (skills_init 9 6) = None" unfolding skills_load_None by simp
  ultimately show ?thesis by blast
qed

text \<open>
  A language row does not return after the language was set, so it also overwrites the skill with the
  same number; and a row with an id from 74 to 99 is written behind the skills.
\<close>

lemma skills_language_overwrites_skill:
  "map_option (\<lambda>sk. (sk_language sk ! 3, sk_skill sk ! 3)) (skills_set_from_db (skills_init 2 1) 103 80) = Some (80, 80)"
  "sk_skill (skills_init 2 1) ! 3 = SKILL_CANT_LEARN"
  by (simp_all add: skills_set_from_db_def skills_set_skill_def Let_def SKILL_LANGUAGE_DB_OFFSET_def SKILL_COUNT_def LANG_COUNT_def
      SKILL_CAP_def skills_init_nth [of 3] racial_skill_def race_row_def class_column_def classLvl1Skills_def)

lemma skills_unknown_id_out_of_bounds: "74 \<le> unat skillId \<Longrightarrow> unat skillId < 100 \<Longrightarrow> skills_set_from_db sk skillId value = None"
  by (simp add: skills_set_from_db_def skills_set_skill_def SKILL_LANGUAGE_DB_OFFSET_def SKILL_COUNT_def)

text \<open>What goes into a player profile.\<close>

lemma skills_bytes:
  assumes "skills_ok sk"
  shows "message_bytes (map (\<lambda>i. FU8 (sk_skill sk ! i)) [0..<SKILL_COUNT]) = sk_skill sk"
    "message_bytes (map (\<lambda>i. FU8 (sk_language sk ! i)) [0..<LANG_COUNT]) = sk_language sk"
  using assms by (simp_all add: skills_ok_def o_def concat_map_singleton map_nth [symmetric])
    (metis map_nth)+

lemma skills_write_pp_eq:
  assumes "skills_ok sk" "al_ok a"
  shows "al_room a SKILL_COUNT \<Longrightarrow> skills_write_pp sk a = Some (al_written a (sk_skill sk))"
    "al_room a LANG_COUNT \<Longrightarrow> skills_write_pp_languages sk a = Some (al_written a (sk_language sk))"
  using write_fields_eq [OF assms(2), of "map (\<lambda>i. FU8 (sk_skill sk ! i)) [0..<SKILL_COUNT]"]
    write_fields_eq [OF assms(2), of "map (\<lambda>i. FU8 (sk_language sk ! i)) [0..<LANG_COUNT]"] assms(1)
  unfolding skills_bytes [OF assms(1)] by (simp_all add: skills_write_pp_def skills_write_pp_languages_def skills_ok_def)

end
