(* ===== verification/Zeq_ItemProto.thy ===== *)
theory Zeq_ItemProto
  imports Zeq_HashTbl_Keys Zeq_Aligned
begin

text \<open>
  \<open>src/item_proto.c\<close>: the prototypes of the items. A prototype is one allocation: a fixed part and,
  behind it, the values of its fields followed by their ids. The database stores the allocation as
  it is in memory. The list of items finds a prototype by path and by number.

  An \<open>int\<close> is its 32-bit pattern, which \<open>sint\<close> reads. A \<open>StaticBuffer*\<close> is an address into the heap of
  \<open>Zeq_Buffer\<close>, and an \<open>ItemProto*\<close> an address into a heap of prototypes of its own.
\<close>

section \<open>Prototypes\<close>

record item_proto =
  ip_fieldCount :: u16
  ip_itemId :: u32
  ip_name :: u64
  ip_lore :: u64
  ip_path :: u64
  ip_data :: "u8 list"

type_synonym iheap = "u64 \<Rightarrow> item_proto option"

definition sizeof_ItemProto :: nat where "sizeof_ItemProto = 32"

text \<open>The bytes of a prototype in memory; \<open>pad\<close> are the two unused bytes behind the field count.\<close>

definition item_proto_memory :: "u8 list \<Rightarrow> item_proto \<Rightarrow> u8 list" where
  "item_proto_memory pad p =
     le16 (ip_fieldCount p) @ pad @ le32 (ip_itemId p) @ le64 (ip_name p) @ le64 (ip_lore p)
       @ le64 (ip_path p) @ ip_data p"

text \<open>A store of \<open>bs\<close> from index \<open>i\<close> on.\<close>

definition put_bytes :: "nat \<Rightarrow> u8 list \<Rightarrow> u8 list \<Rightarrow> u8 list" where
  "put_bytes i bs xs = take i xs @ bs @ drop (i + length bs) xs"

definition item_proto_field_value :: "item_proto \<Rightarrow> nat \<Rightarrow> u32" where
  "item_proto_field_value p n = of_le32 (take 4 (drop (n * 4) (ip_data p)))"

definition item_proto_field_id :: "item_proto \<Rightarrow> nat \<Rightarrow> u8" where
  "item_proto_field_id p n = ip_data p ! (unat (ip_fieldCount p) * 4 + n)"

definition item_proto_set_field :: "item_proto \<Rightarrow> u16 \<Rightarrow> u8 \<Rightarrow> u32 \<Rightarrow> bool \<times> item_proto" where
  "item_proto_set_field p index statId val =
     (if index \<ge> ip_fieldCount p then (False, p)
      else let p = p\<lparr>ip_data := put_bytes (unat index * 4) (le32 val) (ip_data p)\<rparr>;
               p = p\<lparr>ip_data := (ip_data p)[unat (ip_fieldCount p) * 4 + unat index := statId]\<rparr>
           in (True, p))"

text \<open>The size of a prototype with \<open>fieldCount\<close> fields.\<close>

definition item_proto_size :: "u16 \<Rightarrow> u32" where
  "item_proto_size fieldCount = of_nat sizeof_ItemProto + 4 * ucast fieldCount + 1 * ucast fieldCount"

definition item_proto_bytes :: "item_proto \<Rightarrow> u32" where
  "item_proto_bytes p = (let fieldCount = ip_fieldCount p in item_proto_size fieldCount)"

definition item_proto_path :: "item_proto \<Rightarrow> u64" where "item_proto_path p = ip_path p"
definition item_proto_name :: "item_proto \<Rightarrow> u64" where "item_proto_name p = ip_name p"
definition item_proto_lore_text :: "item_proto \<Rightarrow> u64" where "item_proto_lore_text p = ip_lore p"
definition item_proto_item_id :: "item_proto \<Rightarrow> u32" where "item_proto_item_id p = ip_itemId p"

text \<open>\<open>addr\<close> is what \<open>malloc\<close> answers for the string; the old one is not dropped.\<close>

definition item_proto_set_name :: "sheap \<Rightarrow> u64 \<Rightarrow> item_proto \<Rightarrow> u8 list \<Rightarrow> u32 \<Rightarrow> sheap \<times> item_proto \<times> bool" where
  "item_proto_set_name h addr p name len =
     (let (h, b) = sbuf_create h addr [] (Some name) len;
          p = p\<lparr>ip_name := b\<rparr>;
          h = sbuf_grab h (ip_name p)
      in (h, p, ip_name p \<noteq> 0))"

definition item_proto_set_lore :: "sheap \<Rightarrow> u64 \<Rightarrow> item_proto \<Rightarrow> u8 list \<Rightarrow> u32 \<Rightarrow> sheap \<times> item_proto \<times> bool" where
  "item_proto_set_lore h addr p lore len =
     (let (h, b) = sbuf_create h addr [] (Some lore) len;
          p = p\<lparr>ip_lore := b\<rparr>;
          h = sbuf_grab h (ip_lore p)
      in (h, p, ip_lore p \<noteq> 0))"

definition item_proto_destroy :: "sheap \<Rightarrow> iheap \<Rightarrow> u64 \<Rightarrow> sheap \<times> iheap" where
  "item_proto_destroy h ih proto =
     (case ih proto of
        None \<Rightarrow> (h, ih)
      | Some p \<Rightarrow> (sbuf_drop (sbuf_drop (sbuf_drop h (ip_name p)) (ip_lore p)) (ip_path p), ih(proto := None)))"

text \<open>
  The prototype a blob of the database holds; \<open>addr\<close> is what \<open>malloc\<close> answers. The pointers of the
  blob are those of the process that saved it and are replaced.
\<close>

definition item_proto_from_db ::
    "u64 \<Rightarrow> u8 list option \<Rightarrow> int \<Rightarrow> u64 \<Rightarrow> u64 \<Rightarrow> u64 \<Rightarrow> sheap \<Rightarrow> iheap \<Rightarrow> sheap \<times> iheap \<times> u64" where
  "item_proto_from_db addr blob len path name loreText h ih =
     (case blob of
        None \<Rightarrow> (h, ih, 0)
      | Some bs \<Rightarrow>
          if len < int sizeof_ItemProto then (h, ih, 0)
          else let fieldCount = of_le16 (take 2 bs);
                   bytes = item_proto_size fieldCount
               in if len < sint bytes then (h, ih, 0)
                  else if addr = 0 then (h, ih, 0)
                  else let p = \<lparr>ip_fieldCount = fieldCount, ip_itemId = of_le32 (take 4 (drop 4 bs)),
                                ip_name = name, ip_lore = loreText, ip_path = path,
                                ip_data = drop sizeof_ItemProto (take (unat bytes) bs)\<rparr>
                       in (sbuf_grab (sbuf_grab (sbuf_grab h path) name) loreText, ih(addr \<mapsto> p), addr))"

section \<open>The list of items\<close>

record item_list =
  il_nextItemId :: u32
  il_byPath :: "u64 hashtbl"
  il_byItemId :: "u64 hashtbl"

record item_proto_db =
  ipd_modTime :: u64
  ipd_itemId :: u32
  ipd_path :: u64
  ipd_proto :: u64

text \<open>The next number is left as it is.\<close>

definition item_list_init :: "item_list \<Rightarrow> item_list" where
  "item_list_init il = il\<lparr>il_byPath := tbl_init_size 8, il_byItemId := tbl_init_size 8\<rparr>"

definition item_proto_tbl_destroy :: "u64 option \<Rightarrow> sheap \<times> iheap \<Rightarrow> u64 option \<times> sheap \<times> iheap" where
  "item_proto_tbl_destroy ptr s =
     (case ptr of Some proto \<Rightarrow> (ptr, item_proto_destroy (fst s) (snd s) proto) | None \<Rightarrow> (ptr, s))"

text \<open>The destructor and the table share the heap of strings, so the two halves of \<open>tbl_deinit\<close> are
  called one after the other.\<close>

definition item_list_deinit :: "sheap \<Rightarrow> iheap \<Rightarrow> item_list \<Rightarrow> sheap \<times> iheap \<times> item_list" where
  "item_list_deinit h ih il =
     (let (t, h, ih) = tbl_for_each item_proto_tbl_destroy (il_byPath il) (h, ih);
          (h, t, _) = tbl_deinit h t (None :: (u64 option \<Rightarrow> unit \<Rightarrow> u64 option \<times> unit) option) ();
          (h, t', _) = tbl_deinit h (il_byItemId il) (None :: (u64 option \<Rightarrow> unit \<Rightarrow> u64 option \<times> unit) option) ()
      in (h, ih, il\<lparr>il_byPath := t, il_byItemId := t'\<rparr>))"

text \<open>The address of the prototype, 0 for \<open>NULL\<close>.\<close>

definition item_list_by_id :: "sheap \<Rightarrow> item_list \<Rightarrow> u32 \<Rightarrow> u64 option" where
  "item_list_by_id h il itemId =
     map_option (\<lambda>r. case r of Some (Some proto) \<Rightarrow> proto | _ \<Rightarrow> 0)
       (tbl_get_int_raw h (il_byItemId il) (ucast itemId))"

definition item_proto_add_from_db ::
    "(u32 \<Rightarrow> bool) \<Rightarrow> sheap \<Rightarrow> iheap \<Rightarrow> item_list \<Rightarrow> u64 \<Rightarrow> u32 \<Rightarrow> (zerr \<times> sheap \<times> item_list) option" where
  "item_proto_add_from_db alloc h ih il proto itemId =
     (case ih proto of
        None \<Rightarrow> None
      | Some p \<Rightarrow>
          Option.bind (tbl_set_sbuf alloc h (il_byPath il) (ip_path p) (Some proto)) (\<lambda>(rc, h, t).
            let il = il\<lparr>il_byPath := t\<rparr>
            in if rc \<noteq> ERR_None then Some (rc, h, il)
               else Option.bind (tbl_set_int alloc h (il_byItemId il) (ucast itemId) (Some proto)) (\<lambda>(rc, h, t).
                      Some (rc, h, il\<lparr>il_byItemId := t\<rparr>))))"

text \<open>
  \<open>saddr\<close> and \<open>paddr\<close> are what \<open>malloc\<close> answers for the path and the prototype, \<open>block\<close> the bytes it
  leaves behind the fixed part, \<open>allocDb\<close> whether the list of changes can grow.
\<close>

definition item_proto_add ::
    "(u32 \<Rightarrow> bool) \<Rightarrow> (u32 \<Rightarrow> bool) \<Rightarrow> u64 \<Rightarrow> u64 \<Rightarrow> u8 list \<Rightarrow> sheap \<Rightarrow> iheap \<Rightarrow> item_list \<Rightarrow> item_proto_db list
      \<Rightarrow> u64 \<Rightarrow> u32 \<Rightarrow> u8 list \<Rightarrow> u32 \<Rightarrow> u16
      \<Rightarrow> (u64 \<times> sheap \<times> iheap \<times> item_list \<times> item_proto_db list) option" where
  "item_proto_add alloc allocDb saddr paddr block h ih il changes modTime itemId path len fieldCount =
     (let (h, sbufPath) = sbuf_create h saddr [] (Some path) len
      in if sbufPath = 0 then Some (0, h, ih, il, changes)
         else let h = sbuf_grab h sbufPath;
                  bytes = item_proto_size fieldCount
              in if paddr = 0 then Some (0, sbuf_drop h sbufPath, ih, il, changes)
                 else let (itemId, il) = (if itemId = 0
                            then (il_nextItemId il, il\<lparr>il_nextItemId := il_nextItemId il + 1\<rparr>) else (itemId, il));
                          ih = ih(paddr \<mapsto> \<lparr>ip_fieldCount = fieldCount, ip_itemId = itemId, ip_name = 0, ip_lore = 0,
                                 ip_path = sbufPath, ip_data = take (unat bytes - sizeof_ItemProto) block\<rparr>)
                      in Option.bind (item_proto_add_from_db alloc h ih il paddr itemId) (\<lambda>(rc, h, il).
                           let index = (of_nat (length changes) :: u32);
                               cap = (if index = 0 then 1 else index * 2)
                           in if rc \<noteq> ERR_None \<or> (bit_is_pow2_or_zero index \<and> \<not> allocDb cap)
                              then let (h, ih) = item_proto_destroy h ih paddr
                                   in Some (0, sbuf_drop h sbufPath, ih, il, changes)
                              else Some (paddr, h, ih, il, changes @
                                     [\<lparr>ipd_modTime = modTime, ipd_itemId = itemId, ipd_path = sbufPath, ipd_proto = paddr\<rparr>])))"

section \<open>Stat ids\<close>

datatype item_stat =
    ITEM_STAT_NONE | ITEM_STAT_Lore | ITEM_STAT_NoDrop | ITEM_STAT_NoRent | ITEM_STAT_Magic |
    ITEM_STAT_AC | ITEM_STAT_DMG | ITEM_STAT_Delay | ITEM_STAT_Range | ITEM_STAT_STR |
    ITEM_STAT_STA | ITEM_STAT_CHA | ITEM_STAT_DEX | ITEM_STAT_AGI | ITEM_STAT_INT |
    ITEM_STAT_WIS | ITEM_STAT_SvMagic | ITEM_STAT_SvFire | ITEM_STAT_SvCold |
    ITEM_STAT_SvPoison | ITEM_STAT_SvDisease | ITEM_STAT_Hp | ITEM_STAT_Mana |
    ITEM_STAT_Weight | ITEM_STAT_Size | ITEM_STAT_Slot | ITEM_STAT_Race | ITEM_STAT_Class |
    ITEM_STAT_BagSlots | ITEM_STAT_BagWeightReduction | ITEM_STAT_BagMaxSize |
    ITEM_STAT_SkillModSkillId | ITEM_STAT_SkillModValue | ITEM_STAT_Texture | ITEM_STAT_Tint |
    ITEM_STAT_SpellId | ITEM_STAT_SpellEffectType | ITEM_STAT_SpellMinLevel |
    ITEM_STAT_CastingTime | ITEM_STAT_HasteMinLevel | ITEM_STAT_Charges | ITEM_STAT_ProcRate |
    ITEM_STAT_Haste | ITEM_STAT_Icon | ITEM_STAT_VendorBuyPrice | ITEM_STAT_VendorSellPrice |
    ITEM_STAT_Model | ITEM_STAT_ItemType | ITEM_STAT_Light

definition item_stats :: "item_stat list" where
  "item_stats =
    [ITEM_STAT_NONE, ITEM_STAT_Lore, ITEM_STAT_NoDrop, ITEM_STAT_NoRent, ITEM_STAT_Magic,
     ITEM_STAT_AC, ITEM_STAT_DMG, ITEM_STAT_Delay, ITEM_STAT_Range, ITEM_STAT_STR,
     ITEM_STAT_STA, ITEM_STAT_CHA, ITEM_STAT_DEX, ITEM_STAT_AGI, ITEM_STAT_INT, ITEM_STAT_WIS,
     ITEM_STAT_SvMagic, ITEM_STAT_SvFire, ITEM_STAT_SvCold, ITEM_STAT_SvPoison,
     ITEM_STAT_SvDisease, ITEM_STAT_Hp, ITEM_STAT_Mana, ITEM_STAT_Weight, ITEM_STAT_Size,
     ITEM_STAT_Slot, ITEM_STAT_Race, ITEM_STAT_Class, ITEM_STAT_BagSlots,
     ITEM_STAT_BagWeightReduction, ITEM_STAT_BagMaxSize, ITEM_STAT_SkillModSkillId,
     ITEM_STAT_SkillModValue, ITEM_STAT_Texture, ITEM_STAT_Tint, ITEM_STAT_SpellId,
     ITEM_STAT_SpellEffectType, ITEM_STAT_SpellMinLevel, ITEM_STAT_CastingTime,
     ITEM_STAT_HasteMinLevel, ITEM_STAT_Charges, ITEM_STAT_ProcRate, ITEM_STAT_Haste,
     ITEM_STAT_Icon, ITEM_STAT_VendorBuyPrice, ITEM_STAT_VendorSellPrice, ITEM_STAT_Model,
     ITEM_STAT_ItemType, ITEM_STAT_Light]"

text \<open>The label a \<open>switch\<close> on the id of a field goes to.\<close>

definition item_stat_of :: "u8 \<Rightarrow> item_stat option" where
  "item_stat_of fieldId = (if unat fieldId < length item_stats then Some (item_stats ! unat fieldId) else None)"

section \<open>The statistics of an item\<close>

text \<open>The sums are kept as mathematical integers; they stay far inside the range of C's.\<close>

record core_stats =
  st_maxHp :: int
  st_maxMana :: int
  st_maxEndurance :: int
  st_STR :: int
  st_STA :: int
  st_DEX :: int
  st_AGI :: int
  st_INT :: int
  st_WIS :: int
  st_CHA :: int
  st_svMagic :: int
  st_svFire :: int
  st_svCold :: int
  st_svPoison :: int
  st_svDisease :: int

definition item_proto_fields :: "item_proto \<Rightarrow> (u8 \<times> u32) list" where
  "item_proto_fields p = map (\<lambda>i. (item_proto_field_id p i, item_proto_field_value p i)) [0..<unat (ip_fieldCount p)]"

definition calc_stats_field :: "core_stats \<times> u32 \<times> int \<Rightarrow> u8 \<times> u32 \<Rightarrow> core_stats \<times> u32 \<times> int" where
  "calc_stats_field acc fv =
     (let (stats, weight, ac) = acc; (fieldId, val) = fv in case item_stat_of fieldId of
        None \<Rightarrow> acc
      | Some st \<Rightarrow> (case st of
          ITEM_STAT_AC \<Rightarrow> (stats, weight, ac + cap_int8 (sint val))
        | ITEM_STAT_STR \<Rightarrow> (stats\<lparr>st_STR := st_STR stats + cap_int8 (sint val)\<rparr>, weight, ac)
        | ITEM_STAT_STA \<Rightarrow> (stats\<lparr>st_STA := st_STA stats + cap_int8 (sint val)\<rparr>, weight, ac)
        | ITEM_STAT_CHA \<Rightarrow> (stats\<lparr>st_CHA := st_CHA stats + cap_int8 (sint val)\<rparr>, weight, ac)
        | ITEM_STAT_DEX \<Rightarrow> (stats\<lparr>st_DEX := st_DEX stats + cap_int8 (sint val)\<rparr>, weight, ac)
        | ITEM_STAT_AGI \<Rightarrow> (stats\<lparr>st_AGI := st_AGI stats + cap_int8 (sint val)\<rparr>, weight, ac)
        | ITEM_STAT_INT \<Rightarrow> (stats\<lparr>st_INT := st_INT stats + cap_int8 (sint val)\<rparr>, weight, ac)
        | ITEM_STAT_WIS \<Rightarrow> (stats\<lparr>st_WIS := st_WIS stats + cap_int8 (sint val)\<rparr>, weight, ac)
        | ITEM_STAT_SvMagic \<Rightarrow> (stats\<lparr>st_svMagic := st_svMagic stats + cap_int8 (sint val)\<rparr>, weight, ac)
        | ITEM_STAT_SvFire \<Rightarrow> (stats\<lparr>st_svFire := st_svFire stats + cap_int8 (sint val)\<rparr>, weight, ac)
        | ITEM_STAT_SvCold \<Rightarrow> (stats\<lparr>st_svCold := st_svCold stats + cap_int8 (sint val)\<rparr>, weight, ac)
        | ITEM_STAT_SvPoison \<Rightarrow> (stats\<lparr>st_svPoison := st_svPoison stats + cap_int8 (sint val)\<rparr>, weight, ac)
        | ITEM_STAT_SvDisease \<Rightarrow> (stats\<lparr>st_svDisease := st_svDisease stats + cap_int8 (sint val)\<rparr>, weight, ac)
        | ITEM_STAT_Hp \<Rightarrow> (stats\<lparr>st_maxHp := st_maxHp stats + cap_int8 (sint val)\<rparr>, weight, ac)
        | ITEM_STAT_Mana \<Rightarrow> (stats\<lparr>st_maxMana := st_maxMana stats + cap_int8 (sint val)\<rparr>, weight, ac)
        | ITEM_STAT_Weight \<Rightarrow> (stats, weight + word_of_int (cap_uint8 (sint val)), ac)
        | _ \<Rightarrow> acc))"

definition item_proto_calc_stats :: "item_proto \<Rightarrow> core_stats \<times> u32 \<times> int \<Rightarrow> core_stats \<times> u32 \<times> int" where
  "item_proto_calc_stats p acc = foldl calc_stats_field acc (item_proto_fields p)"

text \<open>The value of the first weight field.\<close>

fun weight_of_fields :: "(u8 \<times> u32) list \<Rightarrow> u8" where
  "weight_of_fields [] = 0"
| "weight_of_fields ((fieldId, val) # fs) =
     (if item_stat_of fieldId = Some ITEM_STAT_Weight then word_of_int (cap_uint8 (sint val))
      else weight_of_fields fs)"

definition item_proto_weight :: "item_proto \<Rightarrow> u8" where
  "item_proto_weight p = weight_of_fields (item_proto_fields p)"

section \<open>Fields that are set are read back\<close>

definition item_proto_ok :: "item_proto \<Rightarrow> bool" where
  "item_proto_ok p \<longleftrightarrow> length (ip_data p) = 5 * unat (ip_fieldCount p)"

lemma length_put_bytes [simp]: "i + length bs \<le> length xs \<Longrightarrow> length (put_bytes i bs xs) = length xs"
  by (simp add: put_bytes_def)

lemma read_put_bytes:
  assumes "i + length bs \<le> length xs" "j + n \<le> length xs"
  shows "take n (drop j (put_bytes i bs xs)) =
    (if j = i \<and> n = length bs then bs else if j + n \<le> i \<or> i + length bs \<le> j then take n (drop j xs)
     else take n (drop j (put_bytes i bs xs)))"
proof -
  have "take n (drop j (put_bytes i bs xs)) = take n (drop j xs)" if "j + n \<le> i \<or> i + length bs \<le> j"
    using that assms by (intro nth_equalityI) (auto simp: put_bytes_def nth_append)
  moreover have "take (length bs) (drop i (put_bytes i bs xs)) = bs" using assms by (simp add: put_bytes_def)
  ultimately show ?thesis by auto
qed

lemma set_field_simps:
  assumes "item_proto_ok p" "k < unat (ip_fieldCount p)"
  shows "fst (item_proto_set_field p (of_nat k) statId v)"
    and "item_proto_ok (snd (item_proto_set_field p (of_nat k) statId v))"
    and "ip_fieldCount (snd (item_proto_set_field p (of_nat k) statId v)) = ip_fieldCount p"
    and "ip_itemId (snd (item_proto_set_field p (of_nat k) statId v)) = ip_itemId p"
    and "i < unat (ip_fieldCount p) \<Longrightarrow>
      item_proto_field_value (snd (item_proto_set_field p (of_nat k) statId v)) i =
        (if i = k then v else item_proto_field_value p i)"
    and "i < unat (ip_fieldCount p) \<Longrightarrow>
      item_proto_field_id (snd (item_proto_set_field p (of_nat k) statId v)) i =
        (if i = k then statId else item_proto_field_id p i)"
proof -
  let ?n = "unat (ip_fieldCount p)"
  have k: "unat (of_nat k :: u16) = k" using assms(2) unsigned_less [of "ip_fieldCount p", where 'a = nat]
    by (intro unat_of_nat_small) simp
  then have nge: "\<not> of_nat k \<ge> ip_fieldCount p" using assms(2) by (simp add: word_le_nat_alt)
  have eq: "item_proto_set_field p (of_nat k) statId v =
      (True, p\<lparr>ip_data := (put_bytes (k * 4) (le32 v) (ip_data p))[?n * 4 + k := statId]\<rparr>)"
    using nge k by (simp add: item_proto_set_field_def Let_def)
  have len: "k * 4 + length (le32 v) \<le> length (ip_data p)" using assms by (simp add: item_proto_ok_def)
  then show "fst (item_proto_set_field p (of_nat k) statId v)"
    "item_proto_ok (snd (item_proto_set_field p (of_nat k) statId v))"
    "ip_fieldCount (snd (item_proto_set_field p (of_nat k) statId v)) = ip_fieldCount p"
    "ip_itemId (snd (item_proto_set_field p (of_nat k) statId v)) = ip_itemId p"
    using assms by (simp_all add: eq item_proto_ok_def)
  show "item_proto_field_value (snd (item_proto_set_field p (of_nat k) statId v)) i =
      (if i = k then v else item_proto_field_value p i)" if "i < ?n"
  proof -
    have "take 4 (drop (i * 4) ((put_bytes (k * 4) (le32 v) (ip_data p))[?n * 4 + k := statId])) =
        take 4 (drop (i * 4) (put_bytes (k * 4) (le32 v) (ip_data p)))"
      using that by (subst drop_update_swap) (auto simp: take_update_cancel)
    also have "\<dots> = (if i = k then le32 v else take 4 (drop (i * 4) (ip_data p)))"
    proof (cases "i = k")
      case False
      then have "i * 4 + 4 \<le> k * 4 \<or> k * 4 + 4 \<le> i * 4" by arith
      then show ?thesis using read_put_bytes [OF len, of "i * 4" 4] that assms(1) False by (simp add: item_proto_ok_def)
    qed (use read_put_bytes [OF len, of "i * 4" 4] that assms(1) in \<open>simp add: item_proto_ok_def\<close>)
    finally show ?thesis by (simp add: eq item_proto_field_value_def of_le32_le32)
  qed
  show "item_proto_field_id (snd (item_proto_set_field p (of_nat k) statId v)) i =
      (if i = k then statId else item_proto_field_id p i)" if "i < ?n"
  proof -
    have "put_bytes (k * 4) (le32 v) (ip_data p) ! (?n * 4 + i) = ip_data p ! (?n * 4 + i)"
      using assms that len by (auto simp: put_bytes_def item_proto_ok_def nth_append min_def)
    then show ?thesis using assms that len
      by (auto simp: eq item_proto_field_id_def item_proto_ok_def nth_list_update)
  qed
qed

text \<open>Setting the fields of a new prototype one after the other.\<close>

definition set_fields :: "item_proto \<Rightarrow> (u8 \<times> u32) list \<Rightarrow> item_proto" where
  "set_fields p fs = foldl (\<lambda>p (i, statId, v). snd (item_proto_set_field p (of_nat i) statId v)) p (enumerate 0 fs)"

lemma set_fields_from:
  assumes "item_proto_ok p" "k + length fs \<le> unat (ip_fieldCount p)"
  shows "let q = foldl (\<lambda>p (i, statId, v). snd (item_proto_set_field p (of_nat i) statId v)) p (enumerate k fs)
    in item_proto_ok q \<and> ip_fieldCount q = ip_fieldCount p \<and> ip_itemId q = ip_itemId p
      \<and> (\<forall>i < unat (ip_fieldCount p). (item_proto_field_id q i, item_proto_field_value q i) =
          (if k \<le> i \<and> i < k + length fs then fs ! (i - k) else (item_proto_field_id p i, item_proto_field_value p i)))"
  using assms
proof (induction fs arbitrary: p k)
  case Nil
  then show ?case unfolding Let_def by auto
next
  case (Cons f fs)
  obtain statId v where f: "f = (statId, v)" by fastforce
  let ?p = "snd (item_proto_set_field p (of_nat k) statId v)"
  have k: "k < unat (ip_fieldCount p)" using Cons.prems by simp
  note s = set_field_simps [OF Cons.prems(1) k, where statId = statId and v = v]
  have IH: "let q = foldl (\<lambda>p (i, statId, v). snd (item_proto_set_field p (of_nat i) statId v)) ?p (enumerate (Suc k) fs)
    in item_proto_ok q \<and> ip_fieldCount q = ip_fieldCount ?p \<and> ip_itemId q = ip_itemId ?p
      \<and> (\<forall>i < unat (ip_fieldCount ?p). (item_proto_field_id q i, item_proto_field_value q i) =
          (if Suc k \<le> i \<and> i < Suc k + length fs then fs ! (i - Suc k)
           else (item_proto_field_id ?p i, item_proto_field_value ?p i)))"
    using Cons.prems s by (intro Cons.IH) simp_all
  then show ?case unfolding Let_def f enumerate_simps(2) foldl_Cons prod.case
    using s by (auto simp: nth_Cons')
qed

lemma set_fields_read:
  assumes "item_proto_ok p" "length fs = unat (ip_fieldCount p)"
  shows "item_proto_ok (set_fields p fs)" "item_proto_fields (set_fields p fs) = fs"
    "ip_fieldCount (set_fields p fs) = ip_fieldCount p" "ip_itemId (set_fields p fs) = ip_itemId p"
proof -
  have "0 + length fs \<le> unat (ip_fieldCount p)" using assms(2) by simp
  note s = set_fields_from [OF assms(1) this, folded set_fields_def, unfolded Let_def]
  then show "item_proto_ok (set_fields p fs)" "ip_fieldCount (set_fields p fs) = ip_fieldCount p"
    "ip_itemId (set_fields p fs) = ip_itemId p" by blast+
  then show "item_proto_fields (set_fields p fs) = fs"
    using s assms(2) by (auto simp: item_proto_fields_def intro!: nth_equalityI)
qed

section \<open>Saving and loading\<close>

lemma sint_of_nat_small:
  assumes "n < 2 ^ 31"
  shows "sint (of_nat n :: u32) = int n"
  using assms by (simp add: signed_of_nat signed_take_bit_int_eq_self)

lemma item_proto_size:
  "unat (item_proto_size fc) = 32 + 5 * unat fc" "sint (item_proto_size fc) = 32 + 5 * int (unat fc)"
proof -
  have b: "unat fc < 2 ^ 16" using unsigned_less [of fc, where 'a = nat] by simp
  have u: "ucast fc = (of_nat (unat fc) :: u32)" by simp
  have m: "item_proto_size fc = of_nat (32 + 5 * unat fc)"
    unfolding item_proto_size_def u by (simp add: sizeof_ItemProto_def)
  show un: "unat (item_proto_size fc) = 32 + 5 * unat fc"
    unfolding m using b by (intro unat_of_nat_small) simp
  have "sint (item_proto_size fc) = int (32 + 5 * unat fc)"
    unfolding m by (rule sint_of_nat_small) (use b in simp)
  then show "sint (item_proto_size fc) = 32 + 5 * int (unat fc)" by simp
qed

lemma item_proto_memory_length:
  assumes "item_proto_ok p" "length pad = 2"
  shows "length (item_proto_memory pad p) = unat (item_proto_bytes p)"
  using assms by (simp add: item_proto_memory_def item_proto_bytes_def item_proto_ok_def item_proto_size)

lemma item_proto_from_memory:
  assumes "item_proto_ok p" "length pad = 2" "addr \<noteq> 0"
  shows "item_proto_from_db addr (Some (item_proto_memory pad p)) (sint (item_proto_bytes p)) path name lore h ih =
    (sbuf_grab (sbuf_grab (sbuf_grab h path) name) lore,
     ih(addr \<mapsto> p\<lparr>ip_name := name, ip_lore := lore, ip_path := path\<rparr>), addr)"
proof -
  let ?m = "item_proto_memory pad p"
  have fc: "of_le16 (take 2 ?m) = ip_fieldCount p" and id: "of_le32 (take 4 (drop 4 ?m)) = ip_itemId p"
    and d: "drop 32 ?m = ip_data p"
    using assms(2) by (simp_all add: item_proto_memory_def of_le16_le16 of_le32_le32)
  have "take (32 + 5 * unat (ip_fieldCount p)) ?m = ?m"
    using assms by (simp add: item_proto_memory_def item_proto_ok_def)
  then have "item_proto_from_db addr (Some ?m) (sint (item_proto_bytes p)) path name lore h ih =
      (sbuf_grab (sbuf_grab (sbuf_grab h path) name) lore,
       ih(addr \<mapsto> \<lparr>ip_fieldCount = ip_fieldCount p, ip_itemId = ip_itemId p, ip_name = name, ip_lore = lore,
           ip_path = path, ip_data = ip_data p\<rparr>), addr)"
    using assms(3) d by (simp add: item_proto_from_db_def item_proto_bytes_def fc id item_proto_size
        sizeof_ItemProto_def)
  moreover have "p\<lparr>ip_name := name, ip_lore := lore, ip_path := path\<rparr> = \<lparr>ip_fieldCount = ip_fieldCount p,
      ip_itemId = ip_itemId p, ip_name = name, ip_lore = lore, ip_path = path, ip_data = ip_data p\<rparr>"
    by (cases p) simp
  ultimately show ?thesis by (simp only:)
qed

text \<open>C24. A prototype whose fields were set is saved as it is in memory. Loading the blob gives a prototype with
  the same number and exactly the fields that were set, in order, and the strings of the row, which each
  gain a reference; a blob cut short is refused and nothing is allocated.\<close>

theorem item_proto_db_roundtrip:
  assumes "item_proto_ok p" "length fs = unat (ip_fieldCount p)" "length pad = 2" "addr \<noteq> 0"
  shows "\<exists>r. item_proto_from_db addr (Some (item_proto_memory pad (set_fields p fs)))
        (int (length (item_proto_memory pad (set_fields p fs)))) path name lore h ih =
      (sbuf_grab (sbuf_grab (sbuf_grab h path) name) lore, ih(addr \<mapsto> r), addr)
    \<and> item_proto_fields r = fs \<and> item_proto_item_id r = item_proto_item_id p \<and> item_proto_path r = path
    \<and> item_proto_name r = name \<and> item_proto_lore_text r = lore
    \<and> (\<forall>len < int (length (item_proto_memory pad (set_fields p fs))).
        item_proto_from_db addr (Some (item_proto_memory pad (set_fields p fs))) len path name lore h ih = (h, ih, 0))"
proof -
  let ?q = "set_fields p fs"
  let ?r = "?q\<lparr>ip_name := name, ip_lore := lore, ip_path := path\<rparr>"
  note q = set_fields_read [OF assms(1,2)]
  have len: "int (length (item_proto_memory pad ?q)) = sint (item_proto_bytes ?q)"
    by (simp add: item_proto_memory_length [OF q(1) assms(3)] item_proto_bytes_def item_proto_size)
  have fc: "of_le16 (take 2 (item_proto_memory pad ?q)) = ip_fieldCount ?q"
    by (simp add: item_proto_memory_def of_le16_le16)
  have "item_proto_from_db addr (Some (item_proto_memory pad ?q)) n path name lore h ih = (h, ih, 0)"
    if "n < sint (item_proto_bytes ?q)" for n
    using that by (simp add: item_proto_from_db_def fc item_proto_bytes_def)
  moreover have "item_proto_fields ?r = item_proto_fields ?q"
    by (simp add: item_proto_fields_def item_proto_field_id_def item_proto_field_value_def)
  ultimately show ?thesis unfolding len
    using item_proto_from_memory [OF q(1) assms(3,4), of path name lore h ih] q
    by (intro exI [of _ ?r]) (simp add: item_proto_item_id_def item_proto_path_def item_proto_name_def item_proto_lore_text_def)
qed

definition demo_proto :: item_proto where
  "demo_proto = \<lparr>ip_fieldCount = 2, ip_itemId = 1001, ip_name = 0, ip_lore = 0, ip_path = 64, ip_data = replicate 10 0xcc\<rparr>"

theorem item_proto_db_roundtrip_witness:
  "\<exists>r. item_proto_from_db 96 (Some (item_proto_memory [0, 0] (set_fields demo_proto [(9, 5), (23, 12)])))
        (int (length (item_proto_memory [0, 0] (set_fields demo_proto [(9, 5), (23, 12)])))) 8 16 0 (\<lambda>_. None) Map.empty =
      (\<lambda>_. None, [96 \<mapsto> r], 96) \<and> item_proto_fields r = [(9, 5), (23, 12)] \<and> item_proto_item_id r = 1001"
proof -
  have "item_proto_ok demo_proto" "length [(9, 5), (23, 12 :: u32)] = unat (ip_fieldCount demo_proto)"
    by (simp_all add: demo_proto_def item_proto_ok_def)
  from item_proto_db_roundtrip [where pad = "[0, 0]" and addr = 96 and path = 8 and name = 16 and lore = 0
      and h = "\<lambda>_. None" and ih = Map.empty, OF this]
  show ?thesis by (auto simp: sbuf_grab_def demo_proto_def item_proto_item_id_def)
qed

section \<open>Statistics are sums\<close>

text \<open>What a field adds to the total of a statistic.\<close>

definition field_stat :: "item_stat \<Rightarrow> u8 \<times> u32 \<Rightarrow> int" where
  "field_stat st fv = (if item_stat_of (fst fv) = Some st then cap_int8 (sint (snd fv)) else 0)"

definition stat_total :: "item_stat \<Rightarrow> (u8 \<times> u32) list \<Rightarrow> int" where
  "stat_total st fs = (\<Sum>fv\<leftarrow>fs. field_stat st fv)"

definition field_weight :: "u8 \<times> u32 \<Rightarrow> int" where
  "field_weight fv = (if item_stat_of (fst fv) = Some ITEM_STAT_Weight then cap_uint8 (sint (snd fv)) else 0)"

definition weight_total :: "(u8 \<times> u32) list \<Rightarrow> int" where
  "weight_total fs = (\<Sum>fv\<leftarrow>fs. field_weight fv)"

definition add_stats :: "(item_stat \<Rightarrow> int) \<Rightarrow> core_stats \<Rightarrow> core_stats" where
  "add_stats f s = s\<lparr>st_maxHp := st_maxHp s + f ITEM_STAT_Hp, st_maxMana := st_maxMana s + f ITEM_STAT_Mana,
     st_STR := st_STR s + f ITEM_STAT_STR, st_STA := st_STA s + f ITEM_STAT_STA, st_DEX := st_DEX s + f ITEM_STAT_DEX,
     st_AGI := st_AGI s + f ITEM_STAT_AGI, st_INT := st_INT s + f ITEM_STAT_INT, st_WIS := st_WIS s + f ITEM_STAT_WIS,
     st_CHA := st_CHA s + f ITEM_STAT_CHA, st_svMagic := st_svMagic s + f ITEM_STAT_SvMagic,
     st_svFire := st_svFire s + f ITEM_STAT_SvFire, st_svCold := st_svCold s + f ITEM_STAT_SvCold,
     st_svPoison := st_svPoison s + f ITEM_STAT_SvPoison, st_svDisease := st_svDisease s + f ITEM_STAT_SvDisease\<rparr>"

lemma add_stats_zero: "add_stats (\<lambda>_. 0) s = s"
  by (simp add: add_stats_def)

lemma add_stats_add: "add_stats g (add_stats f s) = add_stats (\<lambda>st. f st + g st) s"
  by (simp add: add_stats_def)

lemma calc_stats_field_eq:
  "calc_stats_field (s, w, ac) fv =
     (add_stats (\<lambda>st. field_stat st fv) s, w + word_of_int (field_weight fv), ac + field_stat ITEM_STAT_AC fv)"
proof (cases "item_stat_of (fst fv)")
  case None
  then show ?thesis by (simp add: calc_stats_field_def field_stat_def field_weight_def add_stats_zero split_beta)
next
  case (Some st)
  then show ?thesis
    by (cases st) (simp_all add: calc_stats_field_def field_stat_def field_weight_def add_stats_def split_beta)
qed

lemma stat_total_simps [simp]:
  "stat_total st [] = 0" "stat_total st (fv # fs) = field_stat st fv + stat_total st fs"
  "stat_total st (fs @ gs) = stat_total st fs + stat_total st gs"
  "weight_total [] = 0" "weight_total (fv # fs) = field_weight fv + weight_total fs"
  "weight_total (fs @ gs) = weight_total fs + weight_total gs"
  by (simp_all add: stat_total_def weight_total_def)

lemma calc_stats_fields_eq:
  "foldl calc_stats_field (s, w, ac) fs =
     (add_stats (\<lambda>st. stat_total st fs) s, w + word_of_int (weight_total fs), ac + stat_total ITEM_STAT_AC fs)"
  by (induction fs arbitrary: s w ac) (simp_all add: add_stats_zero add_stats_add calc_stats_field_eq add.assoc)

lemma stat_total_bounds: "\<bar>stat_total st fs\<bar> \<le> 128 * int (length fs)"
proof (induction fs)
  case (Cons fv fs)
  have "\<bar>field_stat st fv\<bar> \<le> 128" by (auto simp: field_stat_def cap_int8_def)
  then show ?case using Cons by simp
qed simp

section \<open>The list of items\<close>

lemma grab_other: "q \<noteq> p \<Longrightarrow> sbuf_grab h p q = h q"
  by (auto simp: sbuf_grab_def split: option.splits)

lemma str_grab:
  assumes "tbl_str_inv h (t :: 'v hashtbl)"
  shows "tbl_str_inv (sbuf_grab h p) t" "tbl_str_map (sbuf_grab h p) t = tbl_str_map h t"
proof -
  have "str_good (sbuf_grab h p) e \<and> sbuf_str (sbuf_grab h p) (ent_key e) = sbuf_str h (ent_key e)" if "str_good h e" for e :: "'v hent"
    using that by (auto simp: str_good_def str_kv_def str_raw_def sbuf_grab_def sbuf_str_def split: option.splits)
  then have "\<forall>e \<in># stored (tbl_data t). str_good h e \<longrightarrow> str_good (sbuf_grab h p) e \<and>
      sbuf_str (sbuf_grab h p) (ent_key e) = sbuf_str h (ent_key e)"
    by blast
  from str_heap_change [OF this assms] show "tbl_str_inv (sbuf_grab h p) t"
    "tbl_str_map (sbuf_grab h p) t = tbl_str_map h t" by simp_all
qed

definition item_list_ok :: "sheap \<Rightarrow> item_list \<Rightarrow> bool" where
  "item_list_ok h il \<longleftrightarrow> tbl_str_inv h (il_byPath il) \<and> free_exact (il_byPath il)
     \<and> tbl_int_inv (il_byItemId il) \<and> free_exact (il_byItemId il)
     \<and> (\<forall>k. tbl_int_map (il_byItemId il) k \<noteq> Some 0)"

lemma item_list_init_ok: "item_list_ok h (item_list_init il)"
  by (simp add: item_list_ok_def item_list_init_def)

lemma item_list_by_id_eq:
  assumes "item_list_ok h il"
  shows "item_list_by_id h' il itemId =
    Some (case tbl_int_map (il_byItemId il) (ucast itemId) of Some proto \<Rightarrow> proto | None \<Rightarrow> 0)"
  using int_keys.get_map [of "il_byItemId il" h' "ucast itemId"] assms
  by (auto simp: item_list_by_id_def tbl_get_int_raw_def item_list_ok_def split: option.splits)

lemma ucast_u64_inject: "(ucast (a :: u32) :: u64) = ucast b \<longleftrightarrow> a = b"
proof -
  have "unat (ucast x :: u64) = unat x" for x :: u32
    using unsigned_less [of x, where 'a = nat] by (simp add: unsigned_ucast_eq take_bit_nat_eq_self)
  then show ?thesis by (metis word_unat_eq_iff)
qed

lemma add_from_db_ok:
  assumes ok: "item_list_ok h il" and grow: "may_grow (il_byPath il)" "may_grow (il_byItemId il)"
    and p: "ih proto = Some p" "str_raw h path (ip_path p)" "proto \<noteq> 0"
    and new: "tbl_str_map h (il_byPath il) path = None" "tbl_int_map (il_byItemId il) (ucast itemId) = None"
  shows "\<exists>il'. item_proto_add_from_db (\<lambda>_. True) h ih il proto itemId = Some (ERR_None, sbuf_grab h (ip_path p), il')
    \<and> item_list_ok (sbuf_grab h (ip_path p)) il' \<and> il_nextItemId il' = il_nextItemId il
    \<and> tbl_str_map (sbuf_grab h (ip_path p)) (il_byPath il') = (tbl_str_map h (il_byPath il))(path \<mapsto> proto)
    \<and> tbl_int_map (il_byItemId il') = (tbl_int_map (il_byItemId il))(ucast itemId \<mapsto> proto)"
proof -
  let ?h = "sbuf_grab h (ip_path p)"
  have i: "tbl_str_inv h (il_byPath il)" "free_exact (il_byPath il)" "tbl_int_inv (il_byItemId il)"
    "free_exact (il_byItemId il)" "\<forall>k. tbl_int_map (il_byItemId il) k \<noteq> Some 0"
    using ok by (auto simp: item_list_ok_def)
  have hash: "hash_str (sbuf_str h (ip_path p)) (sbuf_length h (ip_path p)) = str_hash path"
    by (simp add: str_hash_def str_raw_reads [OF p(2)])
  obtain t where t: "tbl_set_impl (\<lambda>_. True) h (il_byPath il) (ip_path p) False (Some proto) (str_hash path) False =
      Some (ERR_None, ?h, t)" "tbl_str_inv h t" "free_exact t" "tbl_str_map h t = (tbl_str_map h (il_byPath il))(path \<mapsto> proto)"
    using new(1) i(2)
    by (cases rule: str_keys.set_map [OF i(1) free_exact_no_lost [OF inv_tbl_ok [OF i(1)] i(2)] grow(1) p(2),
          where alloc = "\<lambda>_. True" and v = proto]) auto
  obtain u where u: "tbl_set_impl (\<lambda>_. True) ?h (il_byItemId il) (ucast itemId) True (Some proto) (hash_int64 (ucast itemId)) False =
      Some (ERR_None, ?h, u)" "tbl_int_inv u" "free_exact u"
      "tbl_int_map u = (tbl_int_map (il_byItemId il))(ucast itemId \<mapsto> proto)"
    using new(2) i(4)
    by (cases rule: int_keys.set_map [OF i(3) free_exact_no_lost [OF inv_tbl_ok [OF i(3)] i(4)] grow(2) refl,
          where alloc = "\<lambda>_. True" and v = proto and h = ?h and k = "ucast itemId"]) auto
  have "item_proto_add_from_db (\<lambda>_. True) h ih il proto itemId =
      Some (ERR_None, ?h, il\<lparr>il_byPath := t, il_byItemId := u\<rparr>)"
    using p(1) t(1) u(1) by (simp add: item_proto_add_from_db_def tbl_set_sbuf_def hash tbl_set_int_def tbl_do_set_int_def)
  then show ?thesis using str_grab [OF t(2), of "ip_path p"] t u i(5) p(3) unfolding item_list_ok_def
    by (intro exI [of _ "il\<lparr>il_byPath := t, il_byItemId := u\<rparr>"]) auto
qed

text \<open>The path and the prototype that \<open>item_proto_add\<close> allocates.\<close>

definition new_path :: "u8 list \<Rightarrow> sbuf" where
  "new_path path = \<lparr>sb_refCount = 1, sb_len = of_nat (length path), sb_bytes = path\<rparr>"

definition new_proto :: "u8 list \<Rightarrow> u64 \<Rightarrow> u32 \<Rightarrow> u16 \<Rightarrow> item_proto" where
  "new_proto block saddr itemId fieldCount = \<lparr>ip_fieldCount = fieldCount, ip_itemId = itemId, ip_name = 0, ip_lore = 0,
     ip_path = saddr, ip_data = take (5 * unat fieldCount) block\<rparr>"

lemma new_path_simps:
  assumes "str_valid path" "saddr \<noteq> 0" "h saddr = None"
  shows "sbuf_create h saddr [] (Some path) (of_nat (length path)) =
      (h(saddr \<mapsto> \<lparr>sb_refCount = 0, sb_len = of_nat (length path), sb_bytes = path\<rparr>), saddr)"
    "sbuf_grab (h(saddr \<mapsto> \<lparr>sb_refCount = 0, sb_len = of_nat (length path), sb_bytes = path\<rparr>)) saddr =
      h(saddr \<mapsto> new_path path)"
    "str_raw (h(saddr \<mapsto> new_path path)) path saddr"
proof -
  have "unat (of_nat (length path) :: u32) = length path"
    using assms(1) by (intro unat_of_nat_small) (simp add: str_valid_def)
  then show "sbuf_create h saddr [] (Some path) (of_nat (length path)) =
      (h(saddr \<mapsto> \<lparr>sb_refCount = 0, sb_len = of_nat (length path), sb_bytes = path\<rparr>), saddr)"
    using assms by (simp add: sbuf_create_def)
qed (use assms in \<open>simp_all add: sbuf_grab_def new_path_def str_raw_def\<close>)

lemma item_list_ok_fresh:
  assumes "item_list_ok h il" "h saddr = None"
  shows "item_list_ok (h(saddr \<mapsto> b)) il" "tbl_str_map (h(saddr \<mapsto> b)) (il_byPath il) = tbl_str_map h (il_byPath il)"
proof -
  have i: "tbl_str_inv h (il_byPath il)" using assms(1) by (simp add: item_list_ok_def)
  have "\<forall>e \<in># stored (tbl_data (il_byPath il)). ent_key e \<noteq> saddr"
    using i assms(2) str_good_live unfolding str_keys.inv_stored by blast
  from str_heap_fresh [OF i _ this, of "h(saddr \<mapsto> b)"] assms(1)
  show "item_list_ok (h(saddr \<mapsto> b)) il" "tbl_str_map (h(saddr \<mapsto> b)) (il_byPath il) = tbl_str_map h (il_byPath il)"
    by (auto simp: item_list_ok_def)
qed

text \<open>C25. Adding a prototype with a new path and a new number, when memory suffices: it is found under its
  number from then on, and under no other; what the list found before it still finds; the number is
  the one asked for, or the next free one if none was; and the change is recorded for the database.\<close>

theorem item_proto_add_lookup:
  assumes "item_list_ok h il" "may_grow (il_byPath il)" "may_grow (il_byItemId il)"
    and "str_valid path" "saddr \<noteq> 0" "h saddr = None" "paddr \<noteq> 0"
    and "n = (if itemId = 0 then il_nextItemId il else itemId)"
    and "tbl_str_map h (il_byPath il) path = None" "item_list_by_id h il n = Some 0"
  shows "\<exists>h' il'. item_proto_add (\<lambda>_. True) (\<lambda>_. True) saddr paddr block h ih il changes modTime itemId path
        (of_nat (length path)) fieldCount =
      Some (paddr, h', ih(paddr \<mapsto> new_proto block saddr n fieldCount), il', changes @
        [\<lparr>ipd_modTime = modTime, ipd_itemId = n, ipd_path = saddr, ipd_proto = paddr\<rparr>])
    \<and> item_list_ok h' il' \<and> il_nextItemId il' = (if itemId = 0 then n + 1 else il_nextItemId il)
    \<and> tbl_str_map h' (il_byPath il') = (tbl_str_map h (il_byPath il))(path \<mapsto> paddr)
    \<and> (\<forall>k. item_list_by_id h' il' k = (if k = n then Some paddr else item_list_by_id h il k))"
proof -
  let ?h = "h(saddr \<mapsto> new_path path)" and ?p = "new_proto block saddr n fieldCount"
  let ?il = "il\<lparr>il_nextItemId := (if itemId = 0 then n + 1 else il_nextItemId il)\<rparr>"
  note f = item_list_ok_fresh [where h = h and il = il and saddr = saddr, OF assms(1,6), of "new_path path"]
  have ok: "item_list_ok ?h ?il" "may_grow (il_byPath ?il)" "may_grow (il_byItemId ?il)"
    "(ih(paddr \<mapsto> ?p)) paddr = Some ?p" "str_raw ?h path (ip_path ?p)"
    "tbl_str_map ?h (il_byPath ?il) path = None"
    using f assms(2,3,9) new_path_simps(3) [where h = h and saddr = saddr and path = path, OF assms(4-6)] by (simp_all add: item_list_ok_def new_proto_def)
  have none: "tbl_int_map (il_byItemId ?il) (ucast n) = None"
    using assms(1,10) item_list_by_id_eq [OF assms(1), of h n]
    by (auto simp: item_list_ok_def split: option.splits)
  obtain il' where il': "item_proto_add_from_db (\<lambda>_. True) ?h (ih(paddr \<mapsto> ?p)) ?il paddr n =
      Some (ERR_None, sbuf_grab ?h (ip_path ?p), il')" "item_list_ok (sbuf_grab ?h (ip_path ?p)) il'"
    "il_nextItemId il' = il_nextItemId ?il"
    "tbl_str_map (sbuf_grab ?h (ip_path ?p)) (il_byPath il') = (tbl_str_map ?h (il_byPath ?il))(path \<mapsto> paddr)"
    "tbl_int_map (il_byItemId il') = (tbl_int_map (il_byItemId ?il))(ucast n \<mapsto> paddr)"
    using add_from_db_ok [where ih = "ih(paddr \<mapsto> ?p)" and proto = paddr and p = ?p and path = path and itemId = n,
        OF ok(1-5) assms(7) ok(6) none] by blast
  have "item_proto_add (\<lambda>_. True) (\<lambda>_. True) saddr paddr block h ih il changes modTime itemId path
        (of_nat (length path)) fieldCount =
      Some (paddr, sbuf_grab ?h (ip_path ?p), ih(paddr \<mapsto> ?p), il', changes @
        [\<lparr>ipd_modTime = modTime, ipd_itemId = n, ipd_path = saddr, ipd_proto = paddr\<rparr>])"
    using il'(1) assms(5,7,8)
    by (simp add: item_proto_add_def new_path_simps [where h = h and saddr = saddr and path = path, OF assms(4-6)] item_proto_size sizeof_ItemProto_def
        new_proto_def if_distrib [where f = "\<lambda>x. (x, _)"] split: if_splits)
  moreover have "item_list_by_id (sbuf_grab ?h (ip_path ?p)) il' k =
      (if k = n then Some paddr else item_list_by_id h il k)" for k
    by (simp add: item_list_by_id_eq [OF il'(2)] item_list_by_id_eq [OF assms(1)] il'(5) ucast_u64_inject)
  ultimately show ?thesis using il'(2-4) f(2) by (intro exI [of _ "sbuf_grab ?h (ip_path ?p)"] exI [of _ il']) simp
qed

definition empty_item_list :: item_list where
  "empty_item_list = item_list_init \<lparr>il_nextItemId = 1, il_byPath = tbl_init_size 8, il_byItemId = tbl_init_size 8\<rparr>"

theorem item_proto_add_lookup_witness:
  "\<exists>h' ih' il' ch. item_proto_add (\<lambda>_. True) (\<lambda>_. True) 64 96 [] (\<lambda>_. None) Map.empty empty_item_list [] 7 0 [97] 1 0 =
      Some (96, h', ih', il', ch) \<and> il_nextItemId il' = 2 \<and> item_list_by_id h' il' 1 = Some 96
      \<and> item_list_by_id h' il' 2 = Some 0"
proof -
  let ?h = "\<lambda>_. None" and ?il = empty_item_list
  have ok: "item_list_ok ?h ?il" unfolding empty_item_list_def by (rule item_list_init_ok)
  have p: "may_grow (il_byPath ?il)" "may_grow (il_byItemId ?il)" "str_valid [97]" "(64 :: u64) \<noteq> 0" "(96 :: u64) \<noteq> 0"
    "1 = (if (0 :: u32) = 0 then il_nextItemId ?il else 0)" "tbl_str_map ?h (il_byPath ?il) [97] = None"
    by (simp_all add: empty_item_list_def item_list_init_def str_valid_def)
  have e: "item_list_by_id ?h ?il k = Some 0" for k
    using item_list_by_id_eq [OF ok] by (simp add: empty_item_list_def item_list_init_def)
  from item_proto_add_lookup [OF ok p(1-4) refl p(5-7) e, of "[]" Map.empty "[]" 7 0]
  show ?thesis by (auto simp: e)
qed

text \<open>
  On a failure after the prototype exists, the path is dropped by \<open>item_proto_destroy\<close> and once more
  behind the label \<open>fail_alloc\<close>. With a number that is taken and a new path, the list by path has
  grabbed the path by then and keeps an entry: it is left with a key and a prototype that are freed.
\<close>

lemma item_proto_add_dangling:
  assumes "item_list_ok h il" "may_grow (il_byPath il)" "may_grow (il_byItemId il)"
    and "str_valid path" "saddr \<noteq> 0" "h saddr = None" "paddr \<noteq> 0" "itemId \<noteq> 0"
    and "tbl_str_map h (il_byPath il) path = None" "tbl_int_map (il_byItemId il) (ucast itemId) \<noteq> None"
  shows "\<exists>il'. item_proto_add (\<lambda>_. True) (\<lambda>_. True) saddr paddr block h ih il changes modTime itemId path
        (of_nat (length path)) fieldCount = Some (0, h, ih(paddr := None), il', changes)
    \<and> tbl_str_map (h(saddr \<mapsto> new_path path)) (il_byPath il') path = Some paddr"
proof -
  let ?h = "h(saddr \<mapsto> new_path path)" and ?p = "new_proto block saddr itemId fieldCount"
  let ?g = "sbuf_grab ?h saddr"
  note f = item_list_ok_fresh [where h = h and il = il and saddr = saddr, OF assms(1,6), of "new_path path"]
  have i: "tbl_str_inv ?h (il_byPath il)" "free_exact (il_byPath il)" "tbl_int_inv (il_byItemId il)"
    "free_exact (il_byItemId il)" "tbl_str_map ?h (il_byPath il) path = None"
    using f assms(9) by (auto simp: item_list_ok_def)
  note raw = new_path_simps(3) [where h = h and saddr = saddr and path = path, OF assms(4-6)]
  obtain t where t: "tbl_set_impl (\<lambda>_. True) ?h (il_byPath il) saddr False (Some paddr) (str_hash path) False =
      Some (ERR_None, ?g, t)" "tbl_str_map ?h t = (tbl_str_map ?h (il_byPath il))(path \<mapsto> paddr)"
    using i(2,5)
    by (cases rule: str_keys.set_map [OF i(1) free_exact_no_lost [OF inv_tbl_ok [OF i(1)] i(2)] assms(2) raw,
          where alloc = "\<lambda>_. True" and v = paddr]) auto
  obtain u where u: "tbl_set_impl (\<lambda>_. True) ?g (il_byItemId il) (ucast itemId) True (Some paddr) (hash_int64 (ucast itemId)) False =
      Some (ERR_Again, ?g, u)"
    using assms(10) i(4)
    by (cases rule: int_keys.set_map [OF i(3) free_exact_no_lost [OF inv_tbl_ok [OF i(3)] i(4)] assms(3) refl,
          where alloc = "\<lambda>_. True" and v = paddr and h = ?g and k = "ucast itemId"]) auto
  have hash: "hash_str (sbuf_str ?h saddr) (sbuf_length ?h saddr) = str_hash path"
    by (simp add: str_hash_def str_raw_reads [OF raw])
  have add: "item_proto_add_from_db (\<lambda>_. True) ?h (ih(paddr \<mapsto> ?p)) il paddr itemId =
      Some (ERR_Again, ?g, il\<lparr>il_byPath := t, il_byItemId := u\<rparr>)"
    using t(1) u by (simp add: item_proto_add_from_db_def tbl_set_sbuf_def hash tbl_set_int_def tbl_do_set_int_def new_proto_def)
  have drop: "sbuf_drop (sbuf_drop ?g saddr) saddr = h"
    using assms(5,6) by (auto simp: sbuf_grab_def sbuf_drop_def new_path_def fun_eq_iff)
  have "item_proto_add (\<lambda>_. True) (\<lambda>_. True) saddr paddr block h ih il changes modTime itemId path
        (of_nat (length path)) fieldCount =
      Some (0, h, ih(paddr := None), il\<lparr>il_byPath := t, il_byItemId := u\<rparr>, changes)"
    using add assms(5,7,8) drop
    by (simp add: item_proto_add_def new_path_simps [where h = h and saddr = saddr and path = path, OF assms(4-6)] item_proto_size sizeof_ItemProto_def
        new_proto_def item_proto_destroy_def sbuf_drop_def [of _ 0])
  then show ?thesis using assms(6) t(2) by (intro exI conjI) auto
qed

end
