(* ===== verification/Zeq_Grow.thy ===== *)
theory Zeq_Grow
  imports Zeq_Bits
begin

text \<open>
  The growing arrays of the server, an idiom rather than a function: an element is appended at
  index \<open>n\<close>, and the array is reallocated before, to twice its length, exactly when \<open>n\<close> is a power
  of two or zero. Nothing else records the capacity. The list is the whole allocation.
\<close>

definition realloc_array :: "'a \<Rightarrow> 'a list \<Rightarrow> nat \<Rightarrow> 'a list" where
  "realloc_array garbage xs cap = take cap xs @ replicate (cap - length xs) garbage"

definition array_push :: "(u32 \<Rightarrow> bool) \<Rightarrow> 'a \<Rightarrow> 'a list \<Rightarrow> u32 \<Rightarrow> 'a \<Rightarrow> 'a list option" where
  "array_push alloc garbage xs index x =
     (let cap = (if index = 0 then 1 else index * 2)
      in if bit_is_pow2_or_zero index
         then if alloc cap then Some ((realloc_array garbage xs (unat cap))[unat index := x]) else None
         else Some (xs[unat index := x]))"

text \<open>The capacity that belongs to a number of elements.\<close>

definition array_ok :: "'a list \<Rightarrow> nat \<Rightarrow> bool" where
  "array_ok xs n \<longleftrightarrow> (if n = 0 then True else \<exists>k < 32. length xs = 2 ^ k \<and> n \<le> 2 ^ k \<and> 2 ^ k < 2 * n)"

lemma array_ok_length: "array_ok xs n \<Longrightarrow> n \<le> length xs"
  by (auto simp: array_ok_def split: if_splits)

lemma pow2_or_zero_iff: "bit_is_pow2_or_zero n \<longleftrightarrow> n = 0 \<or> bit_is_pow2 n"
  by (auto simp: bit_is_pow2_or_zero_def bit_is_pow2_def)

lemma realloc_array_simps [simp]:
  "length xs \<le> cap \<Longrightarrow> length (realloc_array g xs cap) = cap"
  "length xs \<le> cap \<Longrightarrow> n \<le> length xs \<Longrightarrow> take n (realloc_array g xs cap) = take n xs"
  by (simp_all add: realloc_array_def)

lemma take_Suc_update: "n < length xs \<Longrightarrow> take (Suc n) (xs[n := x]) = take n xs @ [x]"
  by (simp add: take_Suc_conv_app_nth)

text \<open>The new element lands inside the allocation, behind the elements there were, and the capacity
  again belongs to the number of elements.\<close>

lemma array_push_ok:
  assumes "array_ok xs (unat index)" "unat index < 2 ^ 30"
    and "\<not> bit_is_pow2_or_zero index \<or> alloc (if index = 0 then 1 else index * 2)"
  shows "\<exists>ys. array_push alloc g xs index x = Some ys \<and> array_ok ys (Suc (unat index))
    \<and> take (Suc (unat index)) ys = take (unat index) xs @ [x]"
proof (cases "bit_is_pow2_or_zero index")
  case True
  let ?cap = "if index = 0 then 1 else index * 2 :: u32"
  have cap: "unat ?cap = (if index = 0 then 1 else 2 * unat index)"
    using assms(2) by (simp add: unat_word_ariths mult.commute)
  let ?ys = "realloc_array g xs (unat ?cap)"
  have p: "array_push alloc g xs index x = Some (?ys[unat index := x])"
    using True assms(3) by (simp add: array_push_def)
  show ?thesis
  proof (cases "index = 0")
    case True
    have l: "length ?ys = 1" using True by (simp add: realloc_array_def)
    then have "take (Suc (unat index)) (?ys[unat index := x]) = take (unat index) xs @ [x]"
      using True by (cases ?ys) auto
    moreover have "array_ok (?ys[unat index := x]) (Suc (unat index))"
      using l True by (auto simp: array_ok_def intro!: exI [of _ 0])
    ultimately show ?thesis using p by blast
  next
    case False
    then obtain k where k: "k < 32" "unat index = 2 ^ k"
      using True by (auto simp: pow2_or_zero_iff bit_is_pow2_iff)
    have pos: "unat index \<noteq> 0" using False by (simp add: unat_eq_0)
    then obtain j where j: "length xs = 2 ^ j" "unat index \<le> 2 ^ j" "2 ^ j < 2 * unat index"
      using assms(1) by (auto simp: array_ok_def)
    have "(2 :: nat) ^ k \<le> 2 ^ j" "(2 :: nat) ^ j < 2 ^ Suc k" using j k by simp_all
    then have "k \<le> j" "j < Suc k" by (simp_all only: power_strict_increasing_iff power_increasing_iff one_less_numeral_iff
        semiring_norm)
    then have "j = k" by simp
    then have len: "length xs = unat index" using j k by simp
    have k30: "(2 :: nat) ^ k < 2 ^ 30" using assms(2) k by simp
    then have "k < 30" by (rule power_less_imp_less_exp [rotated]) simp
    then have "array_ok (?ys[unat index := x]) (Suc (unat index))"
      using len cap False k by (auto simp: array_ok_def intro!: exI [of _ "Suc k"])
    moreover have "take (Suc (unat index)) (?ys[unat index := x]) = take (unat index) xs @ [x]"
      using len cap False pos by (subst take_Suc_update) simp_all
    ultimately show ?thesis using p by blast
  qed
next
  case False
  have pos: "unat index \<noteq> 0" using False by (auto simp: pow2_or_zero_iff unat_eq_0)
  then obtain k where k: "k < 32" "length xs = 2 ^ k" "unat index \<le> 2 ^ k" "2 ^ k < 2 * unat index"
    using assms(1) by (auto simp: array_ok_def)
  have "unat index \<noteq> 2 ^ k" using False k(1) by (auto simp: pow2_or_zero_iff bit_is_pow2_iff)
  then have lt: "unat index < length xs" using k by simp
  have "array_ok (xs[unat index := x]) (Suc (unat index))"
    using k lt by (auto simp: array_ok_def intro!: exI [of _ k])
  moreover have "take (Suc (unat index)) (xs[unat index := x]) = take (unat index) xs @ [x]"
    using lt by (rule take_Suc_update)
  ultimately show ?thesis using False by (auto simp: array_push_def)
qed

end
