(* ===== verification/Zeq_Inventory.thy ===== *)
theory Zeq_Inventory
  imports Zeq_ItemProto Zeq_Grow
begin

text \<open>
  \<open>src/inventory.c\<close> and \<open>src/spellbook.c\<close>: what a character carries and has learned, loaded from the
  database, added up, saved, and written into the player profile. An \<open>Item*\<close> has one owner and is
  stored in its slot; an \<open>ItemProto*\<close> is an address into the heap of prototypes.
\<close>

section \<open>State\<close>

record item =
  it_proto :: u64
  it_charges :: u8
  it_stackAmt :: u8
  it_isBag :: bool

record inv_slot =
  is_slotId :: u16
  is_itemId :: u32
  is_item :: item

record inventory =
  inv_primaryIndex :: u16
  inv_secondaryIndex :: u16
  inv_rangeIndex :: u16
  inv_ammoIndex :: u16
  inv_slotCount :: u16
  inv_cursorCount :: u16
  inv_idMapCount :: u16
  inv_loreItemIdCount :: u16
  inv_cursor :: inv_slot
  inv_slots :: "inv_slot list"
  inv_cursorQueue :: "inv_slot list"
  inv_idMap :: "(u32 \<times> u16) list"
  inv_loreItemIds :: "u32 list"

record load_slot =
  ls_itemId :: u32
  ls_slotId :: u16
  ls_stackAmt :: u8
  ls_charges :: u8

record save_slot =
  ss_itemId :: u32
  ss_slotId :: u16
  ss_charges :: u8
  ss_stackAmt :: u8

definition INV_CLIENT_ITEM_ID_OFFSET :: u16 where "INV_CLIENT_ITEM_ID_OFFSET = 1000"

definition INV_SLOT_Range :: u16 where "INV_SLOT_Range = 11"
definition INV_SLOT_Primary :: u16 where "INV_SLOT_Primary = 13"
definition INV_SLOT_Secondary :: u16 where "INV_SLOT_Secondary = 14"
definition INV_SLOT_Ammo :: u16 where "INV_SLOT_Ammo = 21"
definition INV_SLOT_Cursor :: u16 where "INV_SLOT_Cursor = 30"
definition INV_SLOT_EquipForStatsEnd :: u16 where "INV_SLOT_EquipForStatsEnd = 20"
definition INV_SLOT_EquipMainAndCursorBegin :: u16 where "INV_SLOT_EquipMainAndCursorBegin = 1"
definition INV_SLOT_EquipMainAndCursorEnd :: u16 where "INV_SLOT_EquipMainAndCursorEnd = 30"
definition INV_SLOT_BagsSlotsIncludingCursorBegin :: u16 where "INV_SLOT_BagsSlotsIncludingCursorBegin = 251"
definition INV_SLOT_BagsSlotsIncludingCursorEnd :: u16 where "INV_SLOT_BagsSlotsIncludingCursorEnd = 340"
definition INV_SLOT_BankBegin :: u16 where "INV_SLOT_BankBegin = 2000"
definition INV_SLOT_BankEnd :: u16 where "INV_SLOT_BankEnd = 2007"
definition INV_SLOT_BankBagSlotsBegin :: u16 where "INV_SLOT_BankBagSlotsBegin = 2031"
definition INV_SLOT_BankBagSlotsEnd :: u16 where "INV_SLOT_BankBagSlotsEnd = 2110"

text \<open>What freshly allocated memory holds; it is never read.\<close>

definition no_item :: item where
  "no_item = \<lparr>it_proto = 0, it_charges = 0, it_stackAmt = 0, it_isBag = False\<rparr>"

definition no_slot :: inv_slot where
  "no_slot = \<lparr>is_slotId = 0, is_itemId = 0, is_item = no_item\<rparr>"

text \<open>The slots and the entries of the id map that are in use.\<close>

abbreviation inv_used :: "inventory \<Rightarrow> inv_slot list" where
  "inv_used iv \<equiv> take (unat (inv_slotCount iv)) (inv_slots iv)"

abbreviation inv_ids :: "inventory \<Rightarrow> (u32 \<times> u16) list" where
  "inv_ids iv \<equiv> take (unat (inv_idMapCount iv)) (inv_idMap iv)"

section \<open>Operations\<close>

definition inv_init :: "inventory \<Rightarrow> inventory" where
  "inv_init iv = iv\<lparr>inv_primaryIndex := - 1, inv_secondaryIndex := - 1, inv_rangeIndex := - 1, inv_ammoIndex := - 1\<rparr>"

text \<open>The items go with the arrays that hold them.\<close>

definition inv_deinit :: "inventory \<Rightarrow> inventory" where
  "inv_deinit iv = iv\<lparr>inv_slots := [], inv_cursorQueue := [], inv_idMap := []\<rparr>"

definition inv_from_db_to_slot ::
    "(u32 \<Rightarrow> bool) \<Rightarrow> inventory \<Rightarrow> item \<Rightarrow> u16 \<Rightarrow> u32 \<Rightarrow> zerr \<times> inventory" where
  "inv_from_db_to_slot alloc iv item slotId itemId =
     (let s = \<lparr>is_slotId = slotId, is_itemId = itemId, is_item = item\<rparr>
      in if slotId = INV_SLOT_Cursor then (ERR_None, iv\<lparr>inv_cursor := s\<rparr>)
         else let index = inv_slotCount iv
              in case array_push alloc no_slot (inv_slots iv) (ucast index) s of
                   None \<Rightarrow> (ERR_OutOfMemory, iv)
                 | Some slots \<Rightarrow>
                     let iv = iv\<lparr>inv_slotCount := index + 1, inv_slots := slots\<rparr>
                     in (ERR_None,
                         if slotId = INV_SLOT_Primary then iv\<lparr>inv_primaryIndex := index\<rparr>
                         else if slotId = INV_SLOT_Secondary then iv\<lparr>inv_secondaryIndex := index\<rparr>
                         else if slotId = INV_SLOT_Range then iv\<lparr>inv_rangeIndex := index\<rparr>
                         else if slotId = INV_SLOT_Ammo then iv\<lparr>inv_ammoIndex := index\<rparr>
                         else iv))"

text \<open>\<open>allocItem\<close> says whether \<open>malloc\<close> has room for an item. \<open>isBag\<close> is not set; \<open>False\<close> stands for it.\<close>

fun inv_from_db ::
    "(u32 \<Rightarrow> bool) \<Rightarrow> bool \<Rightarrow> sheap \<Rightarrow> item_list \<Rightarrow> inventory \<Rightarrow> load_slot list \<Rightarrow> (zerr \<times> inventory) option" where
  "inv_from_db alloc allocItem h il iv [] = Some (ERR_None, iv)"
| "inv_from_db alloc allocItem h il iv (slot # data) =
     Option.bind (item_list_by_id h il (ls_itemId slot)) (\<lambda>proto.
       if proto = 0 then inv_from_db alloc allocItem h il iv data
       else if \<not> allocItem then Some (ERR_OutOfMemory, iv)
       else let item = \<lparr>it_proto = proto, it_charges = ls_charges slot, it_stackAmt = ls_stackAmt slot, it_isBag = False\<rparr>;
                (rc, iv) = inv_from_db_to_slot alloc iv item (ls_slotId slot) (ls_itemId slot)
            in if rc \<noteq> ERR_None then Some (ERR_OutOfMemory, iv)
               else inv_from_db alloc allocItem h il iv data)"

fun find_client_id :: "(u32 \<times> u16) list \<Rightarrow> u32 \<Rightarrow> u16 option" where
  "find_client_id [] itemIdReal = None"
| "find_client_id ((realId, clientId) # ids) itemIdReal =
     (if realId = itemIdReal then Some clientId else find_client_id ids itemIdReal)"

definition inv_item_id_for_client :: "(u32 \<Rightarrow> bool) \<Rightarrow> inventory \<Rightarrow> u32 \<Rightarrow> u16 \<times> inventory" where
  "inv_item_id_for_client alloc iv itemIdReal =
     (let n = inv_idMapCount iv
      in case find_client_id (inv_ids iv) itemIdReal of
           Some clientId \<Rightarrow> (clientId, iv)
         | None \<Rightarrow>
             let i = n + INV_CLIENT_ITEM_ID_OFFSET
             in case array_push alloc (0, 0) (inv_idMap iv) (ucast n) (itemIdReal, i) of
                  None \<Rightarrow> (0, iv)
                | Some idMap \<Rightarrow> (i, iv\<lparr>inv_idMap := idMap, inv_idMapCount := n + 1\<rparr>))"

definition save_of_slot :: "inv_slot \<Rightarrow> save_slot" where
  "save_of_slot slot = \<lparr>ss_itemId = is_itemId slot, ss_slotId = is_slotId slot,
     ss_charges = it_charges (is_item slot), ss_stackAmt = it_stackAmt (is_item slot)\<rparr>"

definition inv_save_slots :: "(nat \<Rightarrow> bool) \<Rightarrow> inv_slot list \<Rightarrow> nat \<Rightarrow> save_slot list option" where
  "inv_save_slots alloc slots n = (if alloc n then Some (map save_of_slot (take n slots)) else None)"

record inv_save =
  sv_itemCount :: u32
  sv_cursorQueueCount :: u32
  sv_items :: "save_slot list"
  sv_cursorQueue :: "save_slot list"

definition inv_save_all :: "(nat \<Rightarrow> bool) \<Rightarrow> inventory \<Rightarrow> inv_save \<Rightarrow> zerr \<times> inv_save" where
  "inv_save_all alloc iv save =
     (let n = inv_slotCount iv;
          save = save\<lparr>sv_itemCount := ucast n\<rparr>;
          items = (if n \<noteq> 0 then inv_save_slots alloc (inv_slots iv) (unat n) else Some (sv_items save))
      in case items of
           None \<Rightarrow> (ERR_OutOfMemory, save\<lparr>sv_items := []\<rparr>)
         | Some items \<Rightarrow>
             let save = save\<lparr>sv_items := items\<rparr>;
                 n = inv_cursorCount iv;
                 save = save\<lparr>sv_cursorQueueCount := ucast n\<rparr>;
                 queue = (if n \<noteq> 0 then inv_save_slots alloc (inv_cursorQueue iv) (unat n) else Some (sv_cursorQueue save))
             in case queue of
                  None \<Rightarrow> (ERR_OutOfMemory, save\<lparr>sv_cursorQueue := []\<rparr>)
                | Some queue \<Rightarrow> (ERR_None, save\<lparr>sv_cursorQueue := queue\<rparr>))"

text \<open>A prototype that is gone is \<open>None\<close>.\<close>

definition inv_calc_slot ::
    "iheap \<Rightarrow> inv_slot \<Rightarrow> core_stats \<times> u32 \<times> int \<Rightarrow> (core_stats \<times> u32 \<times> int) option" where
  "inv_calc_slot ih slot acc =
     (let slotId = is_slotId slot
      in if slotId < INV_SLOT_EquipMainAndCursorBegin \<or> slotId > INV_SLOT_EquipMainAndCursorEnd then Some acc
         else case ih (it_proto (is_item slot)) of
                None \<Rightarrow> None
              | Some proto \<Rightarrow>
                  if slotId \<le> INV_SLOT_EquipForStatsEnd then Some (item_proto_calc_stats proto acc)
                  else let (stats, weight, ac) = acc in Some (stats, weight + ucast (item_proto_weight proto), ac))"

fun inv_calc_slots ::
    "iheap \<Rightarrow> inv_slot list \<Rightarrow> core_stats \<times> u32 \<times> int \<Rightarrow> (core_stats \<times> u32 \<times> int) option" where
  "inv_calc_slots ih [] acc = Some acc"
| "inv_calc_slots ih (slot # slots) acc = Option.bind (inv_calc_slot ih slot acc) (inv_calc_slots ih slots)"

definition inv_calc_stats ::
    "iheap \<Rightarrow> inventory \<Rightarrow> core_stats \<times> u32 \<times> int \<Rightarrow> (core_stats \<times> u32 \<times> int) option" where
  "inv_calc_stats ih iv acc = inv_calc_slots ih (inv_used iv) acc"

section \<open>The player profile\<close>

definition sizeof_PPItem :: nat where "sizeof_PPItem = 10"

text \<open>\<open>memset\<close> at the cursor, which checks nothing: behind the buffer it is undefined.\<close>

definition aligned_write_memset_no_advance :: "aligned \<Rightarrow> u8 \<Rightarrow> nat \<Rightarrow> aligned option" where
  "aligned_write_memset_no_advance a val bytes =
     (if unat (al_cursor a) + bytes \<le> length (al_buffer a)
      then Some (al_put a (unat (al_cursor a)) (replicate bytes val)) else None)"

text \<open>One round of the loops: move to an offset, write, move back.\<close>

definition write_at :: "u32 \<Rightarrow> (aligned \<Rightarrow> aligned option) \<Rightarrow> u32 \<Rightarrow> aligned \<Rightarrow> aligned option" where
  "write_at resetTo write off a =
     Option.bind (aligned_advance_by a off) (\<lambda>(_, a).
       map_option (\<lambda>a. aligned_reset_cursor_to a resetTo) (write a))"

fun write_item_ids ::
    "(u32 \<Rightarrow> bool) \<Rightarrow> u32 \<Rightarrow> u16 \<Rightarrow> u16 \<Rightarrow> inv_slot list \<Rightarrow> inventory \<Rightarrow> aligned \<Rightarrow> (inventory \<times> aligned) option" where
  "write_item_ids alloc resetTo frm to [] iv a = Some (iv, a)"
| "write_item_ids alloc resetTo frm to (slot # slots) iv a =
     (let slotId = is_slotId slot
      in if slotId < frm \<or> slotId > to then write_item_ids alloc resetTo frm to slots iv a
         else let slotId = slotId - frm;
                  (clientId, iv) = inv_item_id_for_client alloc iv (is_itemId slot)
              in Option.bind (write_at resetTo (\<lambda>a. aligned_write_uint16 a clientId) (2 * ucast slotId) a)
                   (write_item_ids alloc resetTo frm to slots iv))"

definition inv_write_pp_item_ids ::
    "(u32 \<Rightarrow> bool) \<Rightarrow> inventory \<Rightarrow> aligned \<Rightarrow> u16 \<Rightarrow> u16 \<Rightarrow> (inventory \<times> aligned) option" where
  "inv_write_pp_item_ids alloc iv a frm to =
     (let diff = (ucast to - ucast frm) + 1 :: u32;
          resetTo = al_cursor a
      in Option.bind (aligned_write_memset_no_advance a 0xff (unat (diff * 2))) (\<lambda>a.
           Option.bind (write_item_ids alloc resetTo frm to (inv_used iv) iv a) (\<lambda>(iv, a).
             map_option (\<lambda>(_, a). (iv, a)) (aligned_advance_by a (diff * 2)))))"

fun prefill_properties :: "nat \<Rightarrow> aligned \<Rightarrow> aligned option" where
  "prefill_properties 0 a = Some a"
| "prefill_properties (Suc n) a =
     Option.bind (aligned_write_uint32 a 0) (\<lambda>a.
       Option.bind (aligned_write_uint16 a 0xffff) (\<lambda>a.
         Option.bind (aligned_write_uint32 a 0) (prefill_properties n)))"

fun write_item_properties :: "u32 \<Rightarrow> u16 \<Rightarrow> u16 \<Rightarrow> inv_slot list \<Rightarrow> aligned \<Rightarrow> aligned option" where
  "write_item_properties resetTo frm to [] a = Some a"
| "write_item_properties resetTo frm to (slot # slots) a =
     (let slotId = is_slotId slot
      in if slotId < frm \<or> slotId > to then write_item_properties resetTo frm to slots a
         else let slotId = slotId - frm
              in Option.bind (write_at resetTo (\<lambda>a. aligned_write_uint8 a (it_charges (is_item slot)))
                   (of_nat sizeof_PPItem * ucast slotId + 2) a)
                   (write_item_properties resetTo frm to slots))"

definition inv_write_pp_item_properties :: "inventory \<Rightarrow> aligned \<Rightarrow> u16 \<Rightarrow> u16 \<Rightarrow> aligned option" where
  "inv_write_pp_item_properties iv a frm to =
     (let diff = (ucast to - ucast frm) + 1 :: u32;
          resetTo = al_cursor a
      in Option.bind (prefill_properties (unat diff) a) (\<lambda>a.
           Option.bind (write_item_properties resetTo frm to (inv_used iv) (aligned_reset_cursor_to a resetTo)) (\<lambda>a.
             map_option snd (aligned_advance_by a (diff * of_nat sizeof_PPItem)))))"

definition inv_write_pp_main_item_ids where
  "inv_write_pp_main_item_ids alloc iv a =
     inv_write_pp_item_ids alloc iv a INV_SLOT_EquipMainAndCursorBegin INV_SLOT_EquipMainAndCursorEnd"

definition inv_write_pp_main_item_properties where
  "inv_write_pp_main_item_properties iv a =
     inv_write_pp_item_properties iv a INV_SLOT_EquipMainAndCursorBegin INV_SLOT_EquipMainAndCursorEnd"

definition inv_write_pp_main_bag_item_ids where
  "inv_write_pp_main_bag_item_ids alloc iv a =
     inv_write_pp_item_ids alloc iv a INV_SLOT_BagsSlotsIncludingCursorBegin INV_SLOT_BagsSlotsIncludingCursorEnd"

definition inv_write_pp_main_bag_item_properties where
  "inv_write_pp_main_bag_item_properties iv a =
     inv_write_pp_item_properties iv a INV_SLOT_BagsSlotsIncludingCursorBegin INV_SLOT_BagsSlotsIncludingCursorEnd"

definition inv_write_pp_bank_item_ids where
  "inv_write_pp_bank_item_ids alloc iv a = inv_write_pp_item_ids alloc iv a INV_SLOT_BankBegin INV_SLOT_BankEnd"

definition inv_write_pp_bank_item_properties where
  "inv_write_pp_bank_item_properties iv a = inv_write_pp_item_properties iv a INV_SLOT_BankBegin INV_SLOT_BankEnd"

definition inv_write_pp_bank_bag_item_ids where
  "inv_write_pp_bank_bag_item_ids alloc iv a =
     inv_write_pp_item_ids alloc iv a INV_SLOT_BankBagSlotsBegin INV_SLOT_BankBagSlotsEnd"

definition inv_write_pp_bank_bag_item_properties where
  "inv_write_pp_bank_bag_item_properties iv a =
     inv_write_pp_item_properties iv a INV_SLOT_BankBagSlotsBegin INV_SLOT_BankBagSlotsEnd"

section \<open>The spellbook\<close>

definition MEMMED_SPELL_SLOTS :: nat where "MEMMED_SPELL_SLOTS = 8"
definition ZEQ_PP_SPELLBOOK_SLOT_COUNT :: nat where "ZEQ_PP_SPELLBOOK_SLOT_COUNT = 256"

record spellbook_slot =
  sp_slotId :: u16
  sp_spellId :: u16

record memmed_spell =
  mm_spellId :: u16
  mm_castingTimeMs :: u32
  mm_recastTimestamp :: u64

record spellbook =
  sb_memmed :: "memmed_spell list"
  sb_count :: u32
  sb_knownSpells :: "spellbook_slot list"

definition spellbook_deinit :: "spellbook \<Rightarrow> spellbook" where
  "spellbook_deinit sb = sb\<lparr>sb_knownSpells := []\<rparr>"

definition spellbook_save_all :: "(nat \<Rightarrow> bool) \<Rightarrow> spellbook \<Rightarrow> zerr \<times> u32 \<times> spellbook_slot list option" where
  "spellbook_save_all alloc sb =
     (let n = sb_count sb
      in if n = 0 then (ERR_None, n, None)
         else if \<not> alloc (unat n) then (ERR_OutOfMemory, n, None)
         else (ERR_None, n, Some (take (unat n) (sb_knownSpells sb))))"

fun write_spells :: "u32 \<Rightarrow> spellbook_slot list \<Rightarrow> aligned \<Rightarrow> aligned option" where
  "write_spells resetTo [] a = Some a"
| "write_spells resetTo (slot # slots) a =
     (let slotId = sp_slotId slot
      in if unat slotId \<ge> ZEQ_PP_SPELLBOOK_SLOT_COUNT then write_spells resetTo slots a
         else Option.bind (write_at resetTo (\<lambda>a. aligned_write_uint16 a (sp_spellId slot)) (2 * ucast slotId) a)
                (write_spells resetTo slots))"

fun write_memmed :: "memmed_spell list \<Rightarrow> aligned \<Rightarrow> aligned option" where
  "write_memmed [] a = Some a"
| "write_memmed (m # ms) a =
     Option.bind (aligned_write_uint16 a (if mm_spellId m \<noteq> 0 then mm_spellId m else 0xffff)) (write_memmed ms)"

definition spellbook_write_pp :: "spellbook \<Rightarrow> aligned \<Rightarrow> aligned option" where
  "spellbook_write_pp sb a =
     (let resetTo = al_cursor a
      in Option.bind (aligned_write_memset_no_advance a 0xff (ZEQ_PP_SPELLBOOK_SLOT_COUNT * 2)) (\<lambda>a.
           Option.bind (write_spells resetTo (take (unat (sb_count sb)) (sb_knownSpells sb)) a) (\<lambda>a.
             Option.bind (aligned_advance_by a (of_nat ZEQ_PP_SPELLBOOK_SLOT_COUNT * 2)) (\<lambda>(_, a).
               write_memmed (take MEMMED_SPELL_SLOTS (sb_memmed sb)) a))))"

fun write_gem_refresh :: "u64 \<Rightarrow> memmed_spell list \<Rightarrow> aligned \<Rightarrow> aligned option" where
  "write_gem_refresh time [] a = Some a"
| "write_gem_refresh time (m # ms) a =
     (let timestamp = mm_recastTimestamp m
      in Option.bind (aligned_write_uint32 a (ucast (if time \<ge> timestamp then 0 else timestamp - time)))
           (write_gem_refresh time ms))"

definition spellbook_write_pp_gem_refresh :: "spellbook \<Rightarrow> aligned \<Rightarrow> u64 \<Rightarrow> aligned option" where
  "spellbook_write_pp_gem_refresh sb a time = write_gem_refresh time (take MEMMED_SPELL_SLOTS (sb_memmed sb)) a"

section \<open>Ids of items for the client\<close>

lemma unat_u16_u32: "unat (ucast (n :: u16) :: u32) = unat n"
  using unsigned_less [of n, where 'a = nat] by (simp add: unsigned_ucast_eq take_bit_nat_eq_self)

definition ids_ok :: "inventory \<Rightarrow> bool" where
  "ids_ok iv \<longleftrightarrow> array_ok (inv_idMap iv) (unat (inv_idMapCount iv)) \<and> unat (inv_idMapCount iv) < 64536
     \<and> distinct (map fst (inv_ids iv))
     \<and> map snd (inv_ids iv) = map (\<lambda>i. of_nat (1000 + i)) [0..<unat (inv_idMapCount iv)]"

lemma find_client_id_eq: "find_client_id ids = map_of ids"
proof
  fix x
  show "find_client_id ids x = map_of ids x" by (induction ids x rule: find_client_id.induct) auto
qed

abbreviation client_id :: "inventory \<Rightarrow> u32 \<Rightarrow> u16 option" where
  "client_id iv \<equiv> map_of (inv_ids iv)"

lemma ids_length: "ids_ok iv \<Longrightarrow> length (inv_ids iv) = unat (inv_idMapCount iv)"
  using array_ok_length by (fastforce simp: ids_ok_def)

lemma client_id_nth:
  assumes "ids_ok iv" "client_id iv x = Some c"
  obtains i where "i < unat (inv_idMapCount iv)" "inv_ids iv ! i = (x, c)" "c = of_nat (1000 + i)"
proof -
  note l = ids_length [OF assms(1)]
  obtain i where i: "i < length (inv_ids iv)" "inv_ids iv ! i = (x, c)"
    using map_of_SomeD [OF assms(2)] by (auto simp only: in_set_conv_nth)
  have "map snd (inv_ids iv) ! i = of_nat (1000 + i)"
    using assms(1) i(1) l by (simp add: ids_ok_def)
  then have c: "c = of_nat (1000 + i)" using i by (simp only: nth_map snd_conv)
  have "i < unat (inv_idMapCount iv)" using i(1) l by (simp only:)
  then show ?thesis using i(2) c by (rule that)
qed

lemma client_id_value:
  assumes "i < 64536"
  shows "unat (of_nat (1000 + i) :: u16) = 1000 + i"
  using assms by (intro unat_of_nat_small) simp

lemma client_id_inject:
  assumes "ids_ok iv" "client_id iv x = Some c" "client_id iv y = Some c"
  shows "x = y"
proof -
  obtain i where i: "i < unat (inv_idMapCount iv)" "inv_ids iv ! i = (x, c)" "c = of_nat (1000 + i)"
    using client_id_nth [OF assms(1,2)] by blast
  obtain j where j: "j < unat (inv_idMapCount iv)" "inv_ids iv ! j = (y, c)" "c = of_nat (1000 + j)"
    using client_id_nth [OF assms(1,3)] by blast
  have b: "unat (inv_idMapCount iv) < 64536" using assms(1) by (simp add: ids_ok_def)
  have "unat c = 1000 + i" unfolding i(3) using i(1) b by (intro client_id_value) simp
  moreover have "unat c = 1000 + j" unfolding j(3) using j(1) b by (intro client_id_value) simp
  ultimately have "i = j" by simp
  then show ?thesis using i(2) j(2) by (simp only: prod.inject)
qed

lemma client_id_ge:
  assumes "ids_ok iv" "client_id iv x = Some c"
  shows "1000 \<le> unat c"
proof -
  obtain i where i: "i < unat (inv_idMapCount iv)" "c = of_nat (1000 + i)"
    using client_id_nth [OF assms] by blast
  then show ?thesis using client_id_value [of i] assms(1) by (simp add: ids_ok_def)
qed

text \<open>An id that is known is answered again; a new one is appended and no other changes.\<close>

lemma item_id_for_client_ok:
  assumes "ids_ok iv" "unat (inv_idMapCount iv) + 1 < 64536" "inv_item_id_for_client (\<lambda>_. True) iv x = (c, iv')"
  shows "ids_ok iv'" "client_id iv' x = Some c" "map_le (client_id iv) (client_id iv')"
    "unat (inv_idMapCount iv') \<le> unat (inv_idMapCount iv) + 1"
    "iv' = iv\<lparr>inv_idMap := inv_idMap iv', inv_idMapCount := inv_idMapCount iv'\<rparr>"
proof -
  have "ids_ok iv' \<and> client_id iv' x = Some c \<and> map_le (client_id iv) (client_id iv')
    \<and> unat (inv_idMapCount iv') \<le> unat (inv_idMapCount iv) + 1
    \<and> iv' = iv\<lparr>inv_idMap := inv_idMap iv', inv_idMapCount := inv_idMapCount iv'\<rparr>"
  proof (cases "client_id iv x")
    case (Some d)
    then have "c = d" "iv' = iv" using assms(3) by (auto simp: inv_item_id_for_client_def find_client_id_eq)
    then show ?thesis using Some assms(1) by simp
  next
    case None
    let ?n = "inv_idMapCount iv"
    have u: "unat (ucast ?n :: u32) = unat ?n" by (rule unat_u16_u32)
    have n1: "unat (?n + 1) = unat ?n + 1" using assms(2) by (simp add: unat_word_ariths)
    have "array_ok (inv_idMap iv) (unat (ucast ?n :: u32))" "unat (ucast ?n :: u32) < 2 ^ 30"
      using assms(1,2) by (simp_all add: ids_ok_def u)
    from array_push_ok [OF this, of "\<lambda>_. True" "(0, 0)" "(x, ?n + INV_CLIENT_ITEM_ID_OFFSET)"]
    obtain ys where ys: "array_push (\<lambda>_. True) (0, 0) (inv_idMap iv) (ucast ?n) (x, ?n + INV_CLIENT_ITEM_ID_OFFSET) = Some ys"
      "array_ok ys (unat ?n + 1)" "take (unat ?n + 1) ys = inv_ids iv @ [(x, ?n + INV_CLIENT_ITEM_ID_OFFSET)]"
      by (auto simp: u)
    have r: "c = ?n + INV_CLIENT_ITEM_ID_OFFSET" "iv' = iv\<lparr>inv_idMap := ys, inv_idMapCount := ?n + 1\<rparr>"
      using assms(3) None ys(1) by (auto simp: inv_item_id_for_client_def find_client_id_eq Let_def)
    have ids: "inv_ids iv' = inv_ids iv @ [(x, c)]" using r ys(3) n1 by simp
    have c: "c = of_nat (1000 + unat ?n)"
      by (simp add: r(1) INV_CLIENT_ITEM_ID_OFFSET_def)
    have "x \<notin> set (map fst (inv_ids iv))" using None by (simp only: map_of_eq_None_iff set_map) simp
    then have d: "distinct (map fst (inv_ids iv'))" using assms(1) unfolding ids ids_ok_def by simp
    have "client_id iv' y = (case client_id iv y of Some d \<Rightarrow> Some d | None \<Rightarrow> if y = x then Some c else None)" for y
      unfolding ids by (simp add: map_add_def split: option.splits)
    then have "client_id iv' x = Some c" "map_le (client_id iv) (client_id iv')"
      using None by (auto simp: map_le_def split: option.splits)
    moreover have "ids_ok iv'"
      using d ids assms(1,2) ys(2) r n1 c unfolding ids_ok_def by simp
    ultimately show ?thesis using r n1 by simp
  qed
  then show "ids_ok iv'" "client_id iv' x = Some c" "map_le (client_id iv) (client_id iv')"
    "unat (inv_idMapCount iv') \<le> unat (inv_idMapCount iv) + 1"
    "iv' = iv\<lparr>inv_idMap := inv_idMap iv', inv_idMapCount := inv_idMapCount iv'\<rparr>" by blast+
qed

text \<open>The ids of several items, asked for one after the other.\<close>

fun client_ids :: "inventory \<Rightarrow> u32 list \<Rightarrow> u16 list \<times> inventory" where
  "client_ids iv [] = ([], iv)"
| "client_ids iv (x # xs) =
     (let (c, iv) = inv_item_id_for_client (\<lambda>_. True) iv x; (cs, iv) = client_ids iv xs in (c # cs, iv))"

lemma client_ids_ok:
  "ids_ok iv \<Longrightarrow> unat (inv_idMapCount iv) + length xs < 64536 \<Longrightarrow> client_ids iv xs = (cs, iv') \<Longrightarrow>
   ids_ok iv' \<and> map Some cs = map (client_id iv') xs \<and> map_le (client_id iv) (client_id iv')"
proof (induction xs arbitrary: iv cs)
  case (Cons x xs)
  obtain c iv1 where c: "inv_item_id_for_client (\<lambda>_. True) iv x = (c, iv1)" by fastforce
  obtain ds where ds: "client_ids iv1 xs = (ds, iv')" "cs = c # ds"
    using Cons.prems(3) c by (auto split: prod.splits)
  have "unat (inv_idMapCount iv) + 1 < 64536" using Cons.prems(2) by simp
  note s = item_id_for_client_ok [OF Cons.prems(1) this c]
  have IH: "ids_ok iv' \<and> map Some ds = map (client_id iv') xs \<and> map_le (client_id iv1) (client_id iv')"
    using Cons.prems(2) s(4) by (intro Cons.IH [OF s(1) _ ds(1)]) simp
  then have le: "map_le (client_id iv1) (client_id iv')" by blast
  have "client_id iv' x = client_id iv1 x" using le s(2) by (metis domI map_le_def)
  then have "map Some cs = map (client_id iv') (x # xs)" using s(2) ds(2) IH by simp
  then show ?case using IH map_le_trans [OF s(3) le] by blast
qed simp

text \<open>C26. The ids the client sees for items: whatever items it asks for, in whatever order and however often,
  the same item always gets the same id, different items get different ids, ids given out before keep
  their meaning, and all are at least \<open>INV_CLIENT_ITEM_ID_OFFSET\<close>.\<close>

theorem inv_item_ids_stable:
  assumes "ids_ok iv" "unat (inv_idMapCount iv) + length xs < 64536" "client_ids iv xs = (cs, iv')"
    and "i < length xs" "j < length xs"
  shows "ids_ok iv' \<and> length cs = length xs \<and> (cs ! i = cs ! j \<longleftrightarrow> xs ! i = xs ! j) \<and> 1000 \<le> unat (cs ! i)
    \<and> (\<forall>c. client_id iv (xs ! i) = Some c \<longrightarrow> cs ! i = c)"
proof -
  note r = client_ids_ok [OF assms(1-3)]
  have len: "length cs = length xs" using r by (metis length_map)
  have v: "client_id iv' (xs ! k) = Some (cs ! k)" if "k < length xs" for k
    using r len that by (metis nth_map)
  have inj: "xs ! i = xs ! j" if "cs ! i = cs ! j"
  proof (rule client_id_inject [of iv'])
    show "client_id iv' (xs ! i) = Some (cs ! j)" using v [OF assms(4)] that by (simp only:)
  qed (use r v [OF assms(5)] in blast)+
  have "cs ! i = cs ! j" if "xs ! i = xs ! j"
    using v [OF assms(4)] v [OF assms(5)] that by (metis option.inject)
  moreover have "cs ! i = c" if "client_id iv (xs ! i) = Some c" for c
  proof -
    have "map_le (client_id iv) (client_id iv')" using r by blast
    moreover have "xs ! i \<in> dom (client_id iv)" using that by (rule domI)
    ultimately have "client_id iv (xs ! i) = client_id iv' (xs ! i)" unfolding map_le_def by blast
    then have "Some c = Some (cs ! i)" unfolding that v [OF assms(4)] .
    then show ?thesis by simp
  qed
  moreover have "1000 \<le> unat (cs ! i)"
    by (rule client_id_ge [of iv' "xs ! i"]) (use r v [OF assms(4)] in blast)+
  ultimately show ?thesis using r len inj by blast
qed

definition empty_inventory :: inventory where
  "empty_inventory = \<lparr>inv_primaryIndex = 0, inv_secondaryIndex = 0, inv_rangeIndex = 0, inv_ammoIndex = 0,
     inv_slotCount = 0, inv_cursorCount = 0, inv_idMapCount = 0, inv_loreItemIdCount = 0, inv_cursor = no_slot,
     inv_slots = [], inv_cursorQueue = [], inv_idMap = [], inv_loreItemIds = []\<rparr>"

lemma empty_ids_ok: "ids_ok empty_inventory"
  by (simp add: ids_ok_def empty_inventory_def array_ok_def)

theorem inv_item_ids_stable_witness:
  "\<exists>cs iv'. client_ids empty_inventory [77, 1001, 77] = (cs, iv') \<and> cs ! 0 = cs ! 2 \<and> cs ! 0 \<noteq> cs ! 1"
proof -
  obtain cs iv' where r: "client_ids empty_inventory [77, 1001, 77] = (cs, iv')" by fastforce
  have "unat (inv_idMapCount empty_inventory) + length [77, 1001, 77 :: u32] < 64536" by (simp add: empty_inventory_def)
  note s = inv_item_ids_stable [OF empty_ids_ok this r]
  show ?thesis using s [of 0 2] s [of 0 1] r by auto
qed

section \<open>Regions of fixed-size entries\<close>

lemma concat_slot_chunks:
  assumes "\<And>x. length (enc x) = w"
  shows "length (concat (map enc vals)) = w * length vals"
    "take (w * k) (concat (map enc vals)) = concat (map enc (take k vals))"
    "drop (w * k) (concat (map enc vals)) = concat (map enc (drop k vals))"
proof -
  show "length (concat (map enc vals)) = w * length vals" by (induction vals) (simp_all add: assms)
  show "take (w * k) (concat (map enc vals)) = concat (map enc (take k vals))"
  proof (induction vals arbitrary: k)
    case (Cons v vals)
    then show ?case by (cases k) (simp_all add: assms)
  qed simp
  show "drop (w * k) (concat (map enc vals)) = concat (map enc (drop k vals))"
  proof (induction vals arbitrary: k)
    case (Cons v vals)
    then show ?case by (cases k) (simp_all add: assms)
  qed simp
qed

text \<open>
  A region of the profile: entries of \<open>w\<close> bytes, of which the loops write a part at offset \<open>off\<close>.
\<close>

locale pp_region =
  fixes w off :: nat and enc :: "'a \<Rightarrow> u8 list" and part :: "'a \<Rightarrow> u8 list" and wr :: "'a \<Rightarrow> aligned \<Rightarrow> aligned option"
  assumes enc_length: "length (enc x) = w" and fits: "off + length (part x) \<le> w"
    and part_enc: "put_bytes off (part x) (enc y) = enc x"
    and wr_eq: "al_ok a \<Longrightarrow> al_room a (length (part x)) \<Longrightarrow> wr x a = Some (al_written a (part x))"
begin

lemma put_part:
  assumes "k < length vals"
  shows "put_bytes (w * k + off) (part x) (concat (map enc vals)) = concat (map enc (vals[k := x]))"
proof -
  note c = concat_slot_chunks [of enc w, OF enc_length]
  let ?R = "concat (map enc vals)"
  have k: "vals = take k vals @ vals ! k # drop (Suc k) vals" using assms by (rule id_take_nth_drop)
  have R: "?R = concat (map enc (take k vals)) @ enc (vals ! k) @ concat (map enc (drop (Suc k) vals))"
    using arg_cong [OF k, where f = "\<lambda>v. concat (map enc v)"] by simp
  have l: "length (concat (map enc (take k vals))) = w * k" using assms by (simp add: c(1))
  have "put_bytes (w * k + off) (part x) ?R =
      concat (map enc (take k vals)) @ put_bytes off (part x) (enc (vals ! k)) @ concat (map enc (drop (Suc k) vals))"
    unfolding R put_bytes_def using fits [of x] enc_length l by simp
  also have "\<dots> = concat (map enc (vals[k := x]))"
    unfolding part_enc upd_conv_take_nth_drop [OF assms] by simp
  finally show ?thesis .
qed

text \<open>The state with the region at the cursor holding \<open>vals\<close>.\<close>

definition region :: "aligned \<Rightarrow> 'a list \<Rightarrow> aligned" where
  "region a vals = al_put a (unat (al_cursor a)) (concat (map enc vals))"

lemma region_simps:
  assumes "al_ok a" "al_room a (w * length vals)"
  shows "al_cursor (region a vals) = al_cursor a" "al_length (region a vals) = al_length a"
    "length (al_buffer (region a vals)) = length (al_buffer a)" "al_ok (region a vals)"
  using assms room_bytes [OF assms] concat_slot_chunks(1) [of enc w, OF enc_length]
  by (auto simp: region_def al_put_def al_ok_def)

lemma write_at_region:
  assumes a: "al_ok a" "al_room a (w * length vals)" and k: "k < length vals"
  shows "write_at (al_cursor a) (wr x) (of_nat (w * k + off)) (region a vals) = Some (region a (vals[k := x]))"
proof -
  let ?A = "region a vals" and ?c = "unat (al_cursor a)"
  let ?o = "w * k + off"
  note r = region_simps [OF a]
  have "w * Suc k \<le> w * length vals" using k by (intro mult_le_mono2) simp
  then have fit: "?o + length (part x) \<le> w * length vals" using fits [of x] by simp
  have room: "al_room ?A ?o" using a(2) fit r by (simp add: al_room_def)
  let ?B = "?A\<lparr>al_cursor := al_cursor a + of_nat ?o\<rparr>"
  have adv: "aligned_advance_by ?A (of_nat ?o) = Some (al_cursor a, ?B)"
    using advance_by [OF al_room_no_wrap [OF room]] room r by simp
  have cB: "unat (al_cursor ?B) = ?c + ?o"
    using unat_add_cursor [of "al_cursor a" ?o] al_room_no_wrap [OF room] r by (simp add: al_no_wrap_def)
  have B: "al_ok ?B" "al_room ?B (length (part x))"
    using a r fit cB by (auto simp: al_ok_def al_room_def word_le_nat_alt)
  have "write_at (al_cursor a) (wr x) (of_nat ?o) ?A = Some ((al_written ?B (part x))\<lparr>al_cursor := al_cursor a\<rparr>)"
    using adv wr_eq [OF B] by (simp add: write_at_def aligned_reset_cursor_to_def)
  also have "(al_written ?B (part x))\<lparr>al_cursor := al_cursor a\<rparr> = al_put ?A (?c + ?o) (part x)"
    using cB r(1) by (simp add: al_written_def al_put_def)
  also have "\<dots> = al_put a ?c (put_bytes ?o (part x) (concat (map enc vals)))"
    using room_bytes [OF a] fit concat_slot_chunks(1) [of enc w, OF enc_length, of vals]
    by (simp add: region_def al_put_def put_bytes_def add.commute add.left_commute)
  finally show ?thesis unfolding put_part [OF k] region_def .
qed

end

text \<open>A region of numbers, of which all is written, and one of \<open>PS_PPItem\<close>, of which the charges are.\<close>

definition ppitem :: "u8 \<Rightarrow> u8 list" where
  "ppitem charges = [0, 0, charges, 0, 0xff, 0xff, 0, 0, 0, 0]"

interpretation ids_region: pp_region 2 0 le16 le16 "\<lambda>v a. aligned_write_uint16 a v"
  by unfold_locales (auto simp: put_bytes_def u16_codec.write_eq al_room_no_wrap)

interpretation items_region: pp_region 10 2 ppitem "\<lambda>v. [v]" "\<lambda>v a. aligned_write_uint8 a v"
  by unfold_locales (auto simp: put_bytes_def ppitem_def u8_codec.write_eq al_room_no_wrap)

text \<open>Entries written one after the other: of those at the same place the last stays.\<close>

definition put_all :: "(nat \<times> 'a) list \<Rightarrow> 'a list \<Rightarrow> 'a list" where
  "put_all es vals = foldl (\<lambda>vals (k, v). vals[k := v]) vals es"

lemma put_all_simps [simp]: "put_all [] vals = vals" "put_all ((k, v) # es) vals = put_all es (vals[k := v])"
  by (simp_all add: put_all_def)

lemma put_all_length [simp]: "length (put_all es vals) = length vals"
  by (induction es arbitrary: vals) auto

lemma put_all_nth:
  "k < length vals \<Longrightarrow> put_all es vals ! k = (case map_of (rev es) k of Some v \<Rightarrow> v | None \<Rightarrow> vals ! k)"
  by (induction es arbitrary: vals) (auto simp: map_add_def split: option.splits)

text \<open>The last of the slots with a number.\<close>

definition slot_at :: "inv_slot list \<Rightarrow> nat \<Rightarrow> inv_slot option" where
  "slot_at slots k = find (\<lambda>s. unat (is_slotId s) = k) (rev slots)"

definition in_region :: "u16 \<Rightarrow> u16 \<Rightarrow> inv_slot \<Rightarrow> bool" where
  "in_region frm to s \<longleftrightarrow> frm \<le> is_slotId s \<and> is_slotId s \<le> to"

lemma in_region_offset:
  assumes "in_region frm to s"
  shows "unat (is_slotId s - frm) = unat (is_slotId s) - unat frm"
    "unat (is_slotId s - frm) < unat to - unat frm + 1"
  using assms by (auto simp: in_region_def word_le_nat_alt unat_sub_if_size word_size)

lemma not_in_region: "(is_slotId s < frm \<or> is_slotId s > to) = (\<not> in_region frm to s)"
  by (auto simp: in_region_def)

lemma map_of_slots:
  assumes "k < unat to - unat frm + 1" "frm \<le> to"
  shows "map_of (rev (map (\<lambda>s. (unat (is_slotId s - frm), f s)) (filter (in_region frm to) slots))) k =
    map_option f (slot_at slots (unat frm + k))"
proof -
  have le: "unat frm \<le> unat to" using assms(2) by (simp add: word_le_nat_alt)
  have "map_of (map (\<lambda>s. (unat (is_slotId s - frm), f s)) (filter (in_region frm to) xs)) k =
      map_option f (find (\<lambda>s. unat (is_slotId s) = unat frm + k) xs)" for xs
  proof (induction xs)
    case (Cons s xs)
    have "in_region frm to s" if "unat (is_slotId s) = unat frm + k"
      using that assms(1) le by (simp add: in_region_def word_le_nat_alt)
    moreover have "unat (is_slotId s - frm) = k \<longleftrightarrow> unat (is_slotId s) = unat frm + k" if "in_region frm to s"
      using that in_region_offset(1) [OF that] by (auto simp: in_region_def word_le_nat_alt)
    ultimately show ?case using Cons.IH by auto
  qed simp
  from this [of "rev slots"] show ?thesis by (simp add: slot_at_def rev_map rev_filter)
qed

lemma region_offset_word:
  assumes "in_region frm to s" "w < 2 ^ 15"
  shows "of_nat (w * unat (is_slotId s - frm) + off) = (of_nat w * ucast (is_slotId s - frm) + of_nat off :: u32)"
  by simp

lemma write_item_ids_ok:
  "ids_ok iv \<Longrightarrow> unat (inv_idMapCount iv) + length slots < 64536 \<Longrightarrow> frm \<le> to \<Longrightarrow>
   length vals = unat to - unat frm + 1 \<Longrightarrow> al_ok a \<Longrightarrow> al_room a (2 * length vals) \<Longrightarrow>
   \<exists>iv'. write_item_ids (\<lambda>_. True) (al_cursor a) frm to slots iv (ids_region.region a vals) =
     Some (iv', ids_region.region a (put_all (map (\<lambda>s. (unat (is_slotId s - frm), the (client_id iv' (is_itemId s))))
       (filter (in_region frm to) slots)) vals))
   \<and> ids_ok iv' \<and> map_le (client_id iv) (client_id iv')
   \<and> (\<forall>s \<in> set slots. in_region frm to s \<longrightarrow> client_id iv' (is_itemId s) \<noteq> None)"
proof (induction slots arbitrary: iv vals)
  case (Cons s slots)
  show ?case
  proof (cases "in_region frm to s")
    case False
    then show ?thesis using Cons.prems Cons.IH [of iv vals] by (simp add: not_in_region Let_def)
  next
    case True
    obtain c iv1 where c: "inv_item_id_for_client (\<lambda>_. True) iv (is_itemId s) = (c, iv1)" by fastforce
    have n: "unat (inv_idMapCount iv) + 1 < 64536" using Cons.prems(2) by simp
    note s = item_id_for_client_ok [OF Cons.prems(1) n c]
    let ?k = "unat (is_slotId s - frm)" and ?vals = "vals[unat (is_slotId s - frm) := c]"
    have k: "?k < length vals" using in_region_offset(2) [OF True] Cons.prems(4) by simp
    have w: "write_at (al_cursor a) (\<lambda>a. aligned_write_uint16 a c) (2 * ucast (is_slotId s - frm)) (ids_region.region a vals) =
        Some (ids_region.region a ?vals)"
      using ids_region.write_at_region [OF Cons.prems(5,6) k, of c] by simp
    obtain iv' where IH: "write_item_ids (\<lambda>_. True) (al_cursor a) frm to slots iv1 (ids_region.region a ?vals) =
        Some (iv', ids_region.region a (put_all (map (\<lambda>s. (unat (is_slotId s - frm), the (client_id iv' (is_itemId s))))
          (filter (in_region frm to) slots)) ?vals))"
      "ids_ok iv'" "map_le (client_id iv1) (client_id iv')"
      "\<forall>s \<in> set slots. in_region frm to s \<longrightarrow> client_id iv' (is_itemId s) \<noteq> None"
      using Cons.IH [of iv1 ?vals] Cons.prems s(1,4) by auto
    have "client_id iv' (is_itemId s) = Some c" using IH(3) s(2) by (metis domI map_le_def)
    then show ?thesis using IH w c True map_le_trans [OF s(3) IH(3)]
      by (intro exI [of _ iv']) (simp add: not_in_region Let_def)
  qed
qed simp

lemma memset_region:
  assumes "al_ok a" "al_room a (2 * n)"
  shows "aligned_write_memset_no_advance a 0xff (2 * n) = Some (ids_region.region a (replicate n 0xffff))"
proof -
  have "concat (map le16 (replicate n 0xffff)) = replicate (2 * n) 0xff"
    by (induction n) (simp_all add: le16_def)
  then show ?thesis using room_bytes [OF assms]
    by (simp add: aligned_write_memset_no_advance_def ids_region.region_def)
qed

text \<open>The end of a region: the cursor moves behind it.\<close>

lemma region_end:
  assumes "al_ok a" "al_room a m" "length bs = m" "n = of_nat m"
  shows "aligned_advance_by (al_put a (unat (al_cursor a)) bs) n = Some (al_cursor a, al_written a bs)"
  using assms advance_by [OF al_room_no_wrap, of "al_put a (unat (al_cursor a)) bs" m]
  by (simp add: al_room_def al_put_def al_written_def)

lemma region_diff:
  assumes "frm \<le> (to :: u16)"
  shows "(ucast to - ucast frm + 1 :: u32) = of_nat (unat to - unat frm + 1)"
proof -
  have "unat frm \<le> unat to" using assms by (simp add: word_le_nat_alt)
  then show ?thesis by (simp add: of_nat_diff)
qed

text \<open>C27. The item ids of a part of the player profile: position \<open>k\<close> holds the client id of the item in slot
  \<open>from + k\<close>, or \<open>0xffff\<close> if the slot is empty; the bytes around the part are untouched, and the cursor
  stands behind it. The ids are those \<open>inv_item_id_for_client\<close> answers from then on.\<close>

theorem inv_write_pp_item_ids_correct:
  assumes "al_ok a" "frm \<le> to" "n = unat to - unat frm + 1" "al_room a (2 * n)"
    and "ids_ok iv" "unat (inv_idMapCount iv) + length (inv_used iv) < 64536"
  shows "\<exists>iv'. inv_write_pp_item_ids (\<lambda>_. True) iv a frm to = Some (iv', al_written a (concat (map (\<lambda>k. le16
        (case slot_at (inv_used iv) (unat frm + k) of Some s \<Rightarrow> the (client_id iv' (is_itemId s)) | None \<Rightarrow> 0xffff)) [0..<n])))
    \<and> ids_ok iv' \<and> map_le (client_id iv) (client_id iv')
    \<and> (\<forall>s \<in> set (inv_used iv). in_region frm to s \<longrightarrow> client_id iv' (is_itemId s) \<noteq> None)"
proof -
  let ?v = "replicate n (0xffff :: u16)"
  have len: "length ?v = unat to - unat frm + 1" "al_room a (2 * length ?v)" using assms(3,4) by simp_all
  obtain iv' where w: "write_item_ids (\<lambda>_. True) (al_cursor a) frm to (inv_used iv) iv (ids_region.region a ?v) =
      Some (iv', ids_region.region a (put_all (map (\<lambda>s. (unat (is_slotId s - frm), the (client_id iv' (is_itemId s))))
        (filter (in_region frm to) (inv_used iv))) ?v))" "ids_ok iv'" "map_le (client_id iv) (client_id iv')"
      "\<forall>s \<in> set (inv_used iv). in_region frm to s \<longrightarrow> client_id iv' (is_itemId s) \<noteq> None"
    using write_item_ids_ok [OF assms(5,6,2) len(1) assms(1) len(2)] by blast
  let ?f = "\<lambda>k. case slot_at (inv_used iv) (unat frm + k) of Some s \<Rightarrow> the (client_id iv' (is_itemId s)) | None \<Rightarrow> 0xffff"
  let ?vals = "put_all (map (\<lambda>s. (unat (is_slotId s - frm), the (client_id iv' (is_itemId s))))
    (filter (in_region frm to) (inv_used iv))) ?v"
  have "map_of (rev (map (\<lambda>s. (unat (is_slotId s - frm), the (client_id iv' (is_itemId s))))
      (filter (in_region frm to) (inv_used iv)))) k =
      map_option (\<lambda>s. the (client_id iv' (is_itemId s))) (slot_at (inv_used iv) (unat frm + k))" if "k < n" for k
    using that assms(3) by (intro map_of_slots assms(2)) simp
  then have "?vals = map ?f [0..<n]"
    by (intro nth_equalityI) (simp_all add: put_all_nth split: option.splits)
  then have bytes: "concat (map le16 ?vals) = concat (map (\<lambda>k. le16 (?f k)) [0..<n])" by (simp add: o_def)
  have lb: "length (concat (map le16 ?vals)) = 2 * n"
    using concat_slot_chunks(1) [of le16 2 ?vals] by simp
  have d: "(ucast to - ucast frm + 1 :: u32) = of_nat n" unfolding assms(3) by (rule region_diff [OF assms(2)])
  have u: "unat (of_nat n * 2 :: u32) = 2 * n"
  proof -
    have "2 * n < 2 ^ 32" using al_room_no_wrap [OF assms(4)] by (simp add: al_no_wrap_def)
    then have "unat (of_nat (2 * n) :: u32) = 2 * n" by (intro unat_of_nat_small) simp
    then show ?thesis by (simp add: mult.commute)
  qed
  have e: "aligned_advance_by (ids_region.region a ?vals) (of_nat n * 2) = Some (al_cursor a, al_written a (concat (map le16 ?vals)))"
    unfolding ids_region.region_def by (rule region_end [OF assms(1,4) lb]) (simp add: mult.commute)
  have "inv_write_pp_item_ids (\<lambda>_. True) iv a frm to = Some (iv', al_written a (concat (map le16 ?vals)))"
    unfolding inv_write_pp_item_ids_def Let_def d u memset_region [OF assms(1,4)] using w(1) e by simp
  then show ?thesis unfolding bytes using w(2-4) by blast
qed

definition demo_inventory :: inventory where
  "demo_inventory = empty_inventory\<lparr>inv_slotCount := 2,
     inv_slots := [\<lparr>is_slotId = 2001, is_itemId = 77, is_item = no_item\<lparr>it_charges := 5\<rparr>\<rparr>,
       \<lparr>is_slotId = 13, is_itemId = 78, is_item = no_item\<rparr>]\<rparr>"

lemma demo_inventory_ok: "ids_ok demo_inventory" "unat (inv_idMapCount demo_inventory) = 0"
  "inv_used demo_inventory = inv_slots demo_inventory"
  by (simp_all add: demo_inventory_def ids_ok_def empty_inventory_def array_ok_def)

theorem inv_write_pp_item_ids_correct_witness:
  "\<exists>iv'. inv_write_pp_item_ids (\<lambda>_. True) demo_inventory (aligned_init (replicate 20 0) 20) 2000 2007 = Some (iv',
     al_written (aligned_init (replicate 20 0) 20) (concat (map (\<lambda>k. le16 (if k = 1 then the (client_id iv' 77) else 0xffff)) [0..<8])))"
proof -
  let ?a = "aligned_init (replicate 20 0) 20"
  have a: "al_ok ?a" "(2000 :: u16) \<le> 2007" "8 = unat (2007 :: u16) - unat (2000 :: u16) + 1" "al_room ?a (2 * 8)"
    "unat (inv_idMapCount demo_inventory) + length (inv_used demo_inventory) < 64536"
    by (simp_all add: al_ok_def al_room_def aligned_init_def demo_inventory_ok(2)) (simp add: demo_inventory_def)
  have s: "slot_at (inv_used demo_inventory) (2000 + k) = (if k = 1 then Some (hd (inv_slots demo_inventory)) else None)" for k
    unfolding demo_inventory_ok(3) by (auto simp: slot_at_def demo_inventory_def)
  have i: "is_itemId (hd (inv_slots demo_inventory)) = 77" by (simp add: demo_inventory_def)
  from inv_write_pp_item_ids_correct [OF a(1-4) demo_inventory_ok(1) a(5)] show ?thesis
    by (simp add: s i if_distrib [where f = "case_option _ _"] cong: if_cong) blast
qed

text \<open>The properties likewise: position \<open>k\<close> holds the charges of the item in slot \<open>from + k\<close>.\<close>

lemma write_item_properties_ok:
  "frm \<le> to \<Longrightarrow> length vals = unat to - unat frm + 1 \<Longrightarrow> al_ok a \<Longrightarrow> al_room a (10 * length vals) \<Longrightarrow>
   write_item_properties (al_cursor a) frm to slots (items_region.region a vals) =
     Some (items_region.region a (put_all (map (\<lambda>s. (unat (is_slotId s - frm), it_charges (is_item s)))
       (filter (in_region frm to) slots)) vals))"
proof (induction slots arbitrary: vals)
  case (Cons s slots)
  show ?case
  proof (cases "in_region frm to s")
    case False
    then show ?thesis using Cons by (simp add: not_in_region Let_def)
  next
    case True
    have k: "unat (is_slotId s - frm) < length vals" using in_region_offset(2) [OF True] Cons.prems(2) by simp
    have "write_at (al_cursor a) (\<lambda>a. aligned_write_uint8 a (it_charges (is_item s)))
        (of_nat sizeof_PPItem * ucast (is_slotId s - frm) + 2) (items_region.region a vals) =
        Some (items_region.region a (vals[unat (is_slotId s - frm) := it_charges (is_item s)]))"
      using items_region.write_at_region [OF Cons.prems(3,4) k, of "it_charges (is_item s)"]
      by (simp add: sizeof_PPItem_def add.commute)
    then show ?thesis using Cons True by (simp add: not_in_region Let_def)
  qed
qed simp

lemma prefill_ok:
  "al_ok a \<Longrightarrow> al_room a (10 * n) \<Longrightarrow>
   prefill_properties n a = Some (al_written a (concat (map ppitem (replicate n 0))))"
proof (induction n arbitrary: a)
  case (Suc n)
  let ?fs = "[FU32 0, FU16 0xffff, FU32 0]"
  have b: "message_bytes ?fs = ppitem 0" by (simp add: ppitem_def le16_def le32_def)
  have r: "al_room a (message_size ?fs)" using Suc.prems(2) by (simp add: al_room_def)
  have r': "al_room a (length (ppitem 0))" using r by (simp only: b)
  note w = al_written_simps [OF Suc.prems(1) r']
  have "al_room (al_written a (ppitem 0)) (10 * n)" using Suc.prems(2) w(2,3) by (simp add: al_room_def ppitem_def)
  note IH = Suc.IH [OF w(1) this]
  have len: "length (concat (map ppitem (replicate n 0))) = 10 * n"
    using concat_slot_chunks(1) [of ppitem 10 "replicate n 0"] by (simp add: ppitem_def)
  have "prefill_properties (Suc n) a = Option.bind (write_fields ?fs a) (prefill_properties n)"
    by (cases "aligned_write_uint32 a 0") (auto simp: bind_eq_None_conv split: Option.bind_splits)
  also have "\<dots> = Some (al_written (al_written a (ppitem 0)) (concat (map ppitem (replicate n 0))))"
    using write_fields_eq [OF Suc.prems(1) r] IH by (simp only: b bind.bind_lunit)
  also have "al_written (al_written a (ppitem 0)) (concat (map ppitem (replicate n 0))) =
      al_written a (ppitem 0 @ concat (map ppitem (replicate n 0)))"
  proof (rule al_written_append [OF Suc.prems(1)])
    have "length (ppitem 0) + length (concat (map ppitem (replicate n 0))) = 10 * Suc n"
      unfolding len by (simp add: ppitem_def)
    then show "al_room a (length (ppitem 0) + length (concat (map ppitem (replicate n 0))))"
      using Suc.prems(2) by (simp only:)
  qed
  finally show ?case by (simp only: replicate_Suc list.map concat.simps)
qed simp

lemma inv_write_pp_item_properties_correct:
  assumes "al_ok a" "frm \<le> to" "n = unat to - unat frm + 1" "al_room a (10 * n)"
  shows "inv_write_pp_item_properties iv a frm to = Some (al_written a (concat (map (\<lambda>k. ppitem
        (case slot_at (inv_used iv) (unat frm + k) of Some s \<Rightarrow> it_charges (is_item s) | None \<Rightarrow> 0)) [0..<n])))"
proof -
  let ?v = "replicate n (0 :: u8)"
  let ?vals = "put_all (map (\<lambda>s. (unat (is_slotId s - frm), it_charges (is_item s))) (filter (in_region frm to) (inv_used iv))) ?v"
  let ?f = "\<lambda>k. case slot_at (inv_used iv) (unat frm + k) of Some s \<Rightarrow> it_charges (is_item s) | None \<Rightarrow> 0"
  have len: "length ?v = unat to - unat frm + 1" "al_room a (10 * length ?v)" using assms(3,4) by simp_all
  have "map_of (rev (map (\<lambda>s. (unat (is_slotId s - frm), it_charges (is_item s)))
      (filter (in_region frm to) (inv_used iv)))) k =
      map_option (\<lambda>s. it_charges (is_item s)) (slot_at (inv_used iv) (unat frm + k))" if "k < n" for k
    using that assms(3) by (intro map_of_slots assms(2)) simp
  then have vals: "?vals = map ?f [0..<n]"
    by (intro nth_equalityI) (simp_all add: put_all_nth split: option.splits)
  have lb: "length (concat (map ppitem xs)) = 10 * length xs" for xs
    by (rule concat_slot_chunks(1)) (simp add: ppitem_def)
  have d: "(ucast to - ucast frm + 1 :: u32) = of_nat n" unfolding assms(3) by (rule region_diff [OF assms(2)])
  have u: "unat (of_nat n :: u32) = n"
    using al_room_no_wrap [OF assms(4)] by (intro unat_of_nat_small) (simp add: al_no_wrap_def)
  have reset: "aligned_reset_cursor_to (al_written a (concat (map ppitem ?v))) (al_cursor a) = items_region.region a ?v"
    by (simp add: aligned_reset_cursor_to_def al_written_def al_put_def items_region.region_def)
  have "10 * length ?vals = 10 * n" by simp
  then have e: "aligned_advance_by (items_region.region a ?vals) (of_nat n * of_nat sizeof_PPItem) =
      Some (al_cursor a, al_written a (concat (map ppitem ?vals)))"
    unfolding items_region.region_def by (intro region_end [OF assms(1,4)]) (simp_all add: lb sizeof_PPItem_def mult.commute)
  have "inv_write_pp_item_properties iv a frm to = Some (al_written a (concat (map ppitem ?vals)))"
    unfolding inv_write_pp_item_properties_def Let_def d u prefill_ok [OF assms(1,4)] bind.bind_lunit reset
      write_item_properties_ok [OF assms(2) len(1) assms(1) len(2)] e by simp
  then show ?thesis unfolding vals by (simp add: o_def)
qed

section \<open>The spellbook in the profile\<close>

definition spell_at :: "spellbook_slot list \<Rightarrow> nat \<Rightarrow> u16" where
  "spell_at slots k = (case find (\<lambda>s. unat (sp_slotId s) = k) (rev slots) of Some s \<Rightarrow> sp_spellId s | None \<Rightarrow> 0xffff)"

lemma write_spells_ok:
  "length vals = 256 \<Longrightarrow> al_ok a \<Longrightarrow> al_room a (2 * length vals) \<Longrightarrow>
   write_spells (al_cursor a) slots (ids_region.region a vals) =
     Some (ids_region.region a (put_all (map (\<lambda>s. (unat (sp_slotId s), sp_spellId s))
       (filter (\<lambda>s. unat (sp_slotId s) < 256) slots)) vals))"
proof (induction slots arbitrary: vals)
  case (Cons s slots)
  show ?case
  proof (cases "unat (sp_slotId s) < 256")
    case False
    then show ?thesis using Cons by (simp add: Let_def ZEQ_PP_SPELLBOOK_SLOT_COUNT_def)
  next
    case True
    have k: "unat (sp_slotId s) < length vals" using True Cons.prems(1) by simp
    have "write_at (al_cursor a) (\<lambda>a. aligned_write_uint16 a (sp_spellId s)) (2 * ucast (sp_slotId s)) (ids_region.region a vals) =
        Some (ids_region.region a (vals[unat (sp_slotId s) := sp_spellId s]))"
      using ids_region.write_at_region [OF Cons.prems(2,3) k, of "sp_spellId s"] by simp
    then show ?thesis using Cons True by (simp add: Let_def ZEQ_PP_SPELLBOOK_SLOT_COUNT_def not_le)
  qed
qed simp

lemma write_memmed_eq:
  "write_memmed ms a = write_fields (map (\<lambda>m. FU16 (if mm_spellId m \<noteq> 0 then mm_spellId m else 0xffff)) ms) a"
proof (induction ms arbitrary: a)
  case (Cons m ms)
  then have "write_memmed ms = write_fields (map (\<lambda>m. FU16 (if mm_spellId m \<noteq> 0 then mm_spellId m else 0xffff)) ms)"
    by (intro ext)
  then show ?case by (simp only: write_memmed.simps list.map write_fields.simps write_field.simps)
qed simp

text \<open>C29. The spells of the player profile: entry \<open>k\<close> of the book is the spell scribed in slot \<open>k\<close>, or \<open>0xffff\<close>,
  whatever the order of the rows and whatever rows lie outside the book; behind it come the memorised
  spells, and the cursor ends behind them. Nothing else of the profile is touched.\<close>

theorem spellbook_write_pp_correct:
  assumes "al_ok a" "length (sb_memmed sb) = MEMMED_SPELL_SLOTS" "al_room a 528"
  shows "spellbook_write_pp sb a = Some (al_written a (concat (map (\<lambda>k. le16 (spell_at (take (unat (sb_count sb)) (sb_knownSpells sb)) k)) [0..<256])
    @ concat (map (\<lambda>m. le16 (if mm_spellId m \<noteq> 0 then mm_spellId m else 0xffff)) (sb_memmed sb))))"
proof -
  let ?slots = "take (unat (sb_count sb)) (sb_knownSpells sb)" and ?v = "replicate 256 (0xffff :: u16)"
  let ?es = "map (\<lambda>s. (unat (sp_slotId s), sp_spellId s)) (filter (\<lambda>s. unat (sp_slotId s) < 256) ?slots)"
  let ?vals = "put_all ?es ?v"
  have r: "al_room a (2 * 256)" "al_room a (2 * length ?v)" using assms(3) by (simp_all add: al_room_def)
  have m: "map_of (rev (map (\<lambda>s. (unat (sp_slotId s), sp_spellId s)) (filter (\<lambda>s. unat (sp_slotId s) < 256) xs))) k =
      map_option sp_spellId (find (\<lambda>s. unat (sp_slotId s) = k) (rev xs))" if "k < 256" for k and xs :: "spellbook_slot list"
  proof -
    have "map_of (map (\<lambda>s. (unat (sp_slotId s), sp_spellId s)) (filter (\<lambda>s. unat (sp_slotId s) < 256) ys)) k =
        map_option sp_spellId (find (\<lambda>s. unat (sp_slotId s) = k) ys)" for ys :: "spellbook_slot list"
      using that by (induction ys) auto
    from this [of "rev xs"] show ?thesis by (simp add: rev_map rev_filter)
  qed
  have vals: "?vals = map (spell_at ?slots) [0..<256]"
    by (rule nth_equalityI) (simp_all add: put_all_nth m spell_at_def split: option.splits)
  have lb: "length (concat (map le16 xs)) = 2 * length xs" for xs by (rule concat_slot_chunks(1)) simp
  let ?B = "concat (map le16 ?vals)"
  have lB: "length ?B = 512" using lb [of ?vals] by (simp only: put_all_length length_replicate)
  have rB: "al_room a (length ?B)" unfolding lB using assms(3) by (simp add: al_room_def)
  have e: "aligned_advance_by (ids_region.region a ?vals) 512 = Some (al_cursor a, al_written a ?B)"
    unfolding ids_region.region_def
    by (rule region_end [OF assms(1) _ lB]) (use assms(3) in \<open>simp_all add: al_room_def\<close>)
  let ?ms = "map (\<lambda>m. FU16 (if mm_spellId m \<noteq> 0 then mm_spellId m else 0xffff)) (sb_memmed sb)"
  have mb: "message_bytes ?ms = concat (map (\<lambda>m. le16 (if mm_spellId m \<noteq> 0 then mm_spellId m else 0xffff)) (sb_memmed sb))"
    by (simp add: o_def)
  have sz: "message_size ?ms = 16"
    unfolding mb using concat_slot_chunks(1) [of "\<lambda>m. le16 (if mm_spellId m \<noteq> 0 then mm_spellId m else 0xffff)" 2 "sb_memmed sb"] assms(2)
    by (simp add: MEMMED_SPELL_SLOTS_def)
  note w = al_written_simps [OF assms(1) rB]
  have rm: "al_room (al_written a ?B) (message_size ?ms)" using assms(3) w(2,3) lB unfolding sz by (simp add: al_room_def)
  have "write_memmed (sb_memmed sb) (al_written a ?B) = Some (al_written (al_written a ?B) (message_bytes ?ms))"
    unfolding write_memmed_eq by (rule write_fields_eq [OF w(1) rm])
  also have "al_written (al_written a ?B) (message_bytes ?ms) = al_written a (?B @ message_bytes ?ms)"
    by (rule al_written_append [OF assms(1)]) (use assms(3) lB sz in \<open>simp only: add_numeral_left\<close>, simp add: al_room_def)
  finally have memmed: "write_memmed (sb_memmed sb) (al_written a ?B) = Some (al_written a (?B @ message_bytes ?ms))" .
  have "spellbook_write_pp sb a = Some (al_written a (?B @ message_bytes ?ms))"
    using memset_region [OF assms(1) r(1)] write_spells_ok [OF _ assms(1) r(2), of ?slots] e memmed assms(2)
    by (simp add: spellbook_write_pp_def Let_def ZEQ_PP_SPELLBOOK_SLOT_COUNT_def)
  then show ?thesis unfolding mb vals by (simp add: o_def)
qed

theorem spellbook_write_pp_correct_witness:
  "spellbook_write_pp \<lparr>sb_memmed = replicate 8 \<lparr>mm_spellId = 0, mm_castingTimeMs = 0, mm_recastTimestamp = 0\<rparr>,
       sb_count = 2, sb_knownSpells = [\<lparr>sp_slotId = 3, sp_spellId = 200\<rparr>, \<lparr>sp_slotId = 256, sp_spellId = 7\<rparr>]\<rparr>
     (aligned_init (replicate 528 0) 528) = Some (al_written (aligned_init (replicate 528 0) 528)
       (concat (map (\<lambda>k. le16 (if k = 3 then 200 else 0xffff)) [0..<256]) @ concat (replicate 8 (le16 0xffff))))"
proof -
  let ?a = "aligned_init (replicate 528 0) 528"
  let ?slots = "[\<lparr>sp_slotId = 3, sp_spellId = 200\<rparr>, \<lparr>sp_slotId = 256, sp_spellId = 7\<rparr>]"
  have a: "al_ok ?a" "al_room ?a 528" by (simp_all add: al_ok_def al_room_def aligned_init_def)
  have s: "spell_at ?slots k = (if k = 3 then 200 else 0xffff)" if "k < 256" for k
    using that by (auto simp: spell_at_def)
  then have m: "map (\<lambda>k. le16 (spell_at ?slots k)) [0..<256] = map (\<lambda>k. le16 (if k = 3 then 200 else 0xffff)) [0..<256]"
    by (intro map_cong refl) (simp only: set_upt atLeastLessThan_iff)
  show ?thesis
    using spellbook_write_pp_correct [OF a(1), of "\<lparr>sb_memmed = replicate 8 \<lparr>mm_spellId = 0, mm_castingTimeMs = 0,
        mm_recastTimestamp = 0\<rparr>, sb_count = 2, sb_knownSpells = ?slots\<rparr>"] a(2)
    unfolding m [symmetric] by (simp add: MEMMED_SPELL_SLOTS_def)
qed

section \<open>Loading and saving\<close>

definition slots_ok :: "inventory \<Rightarrow> bool" where
  "slots_ok iv \<longleftrightarrow> array_ok (inv_slots iv) (unat (inv_slotCount iv))"

definition slot_of_row :: "u64 \<Rightarrow> load_slot \<Rightarrow> inv_slot" where
  "slot_of_row proto r = \<lparr>is_slotId = ls_slotId r, is_itemId = ls_itemId r, is_item =
     \<lparr>it_proto = proto, it_charges = ls_charges r, it_stackAmt = ls_stackAmt r, it_isBag = False\<rparr>\<rparr>"

text \<open>The prototype of an item number.\<close>

abbreviation proto_of :: "item_list \<Rightarrow> u32 \<Rightarrow> u64 option" where
  "proto_of il itemId \<equiv> tbl_int_map (il_byItemId il) (ucast itemId)"

lemma from_db_to_slot_ok:
  assumes "slots_ok iv" "unat (inv_slotCount iv) + 1 < 2 ^ 16" "slotId \<noteq> INV_SLOT_Cursor"
  shows "\<exists>iv'. inv_from_db_to_slot (\<lambda>_. True) iv item slotId itemId = (ERR_None, iv') \<and> slots_ok iv'
    \<and> unat (inv_slotCount iv') = unat (inv_slotCount iv) + 1
    \<and> inv_used iv' = inv_used iv @ [\<lparr>is_slotId = slotId, is_itemId = itemId, is_item = item\<rparr>]
    \<and> inv_cursorCount iv' = inv_cursorCount iv \<and> inv_cursorQueue iv' = inv_cursorQueue iv"
proof -
  let ?n = "inv_slotCount iv" and ?s = "\<lparr>is_slotId = slotId, is_itemId = itemId, is_item = item\<rparr>"
  have n1: "unat (?n + 1) = unat ?n + 1" using assms(2) by (simp add: unat_word_ariths)
  have "array_ok (inv_slots iv) (unat (ucast ?n :: u32))" "unat (ucast ?n :: u32) < 2 ^ 30"
    using assms(1,2) by (simp_all add: slots_ok_def unat_u16_u32)
  from array_push_ok [OF this, of "\<lambda>_. True" no_slot ?s]
  obtain ys where ys: "array_push (\<lambda>_. True) no_slot (inv_slots iv) (ucast ?n) ?s = Some ys"
    "array_ok ys (unat ?n + 1)" "take (unat ?n + 1) ys = inv_used iv @ [?s]"
    by (auto simp: unat_u16_u32)
  show ?thesis using assms(3) ys n1 by (simp add: inv_from_db_to_slot_def Let_def slots_ok_def)
qed

lemma from_db_to_cursor:
  "inv_from_db_to_slot alloc iv item INV_SLOT_Cursor itemId =
     (ERR_None, iv\<lparr>inv_cursor := \<lparr>is_slotId = INV_SLOT_Cursor, is_itemId = itemId, is_item = item\<rparr>\<rparr>)"
  by (simp add: inv_from_db_to_slot_def)

text \<open>The rows that become slots: those of known items, but for the one on the cursor.\<close>

definition stored_row :: "item_list \<Rightarrow> load_slot \<Rightarrow> bool" where
  "stored_row il r \<longleftrightarrow> proto_of il (ls_itemId r) \<noteq> None \<and> ls_slotId r \<noteq> INV_SLOT_Cursor"

lemma by_id_known:
  assumes "item_list_ok h il"
  shows "item_list_by_id h il itemId = Some (case proto_of il itemId of Some p \<Rightarrow> p | None \<Rightarrow> 0)"
    "proto_of il itemId \<noteq> Some 0"
  using item_list_by_id_eq [OF assms] assms by (auto simp: item_list_ok_def)

lemma inv_from_db_ok:
  assumes "item_list_ok h il"
  shows "slots_ok iv \<Longrightarrow> unat (inv_slotCount iv) + length rows < 2 ^ 16 \<Longrightarrow>
    \<exists>iv'. inv_from_db (\<lambda>_. True) True h il iv rows = Some (ERR_None, iv') \<and> slots_ok iv'
      \<and> unat (inv_slotCount iv') = unat (inv_slotCount iv) + length (filter (stored_row il) rows)
      \<and> inv_used iv' = inv_used iv @ map (\<lambda>r. slot_of_row (the (proto_of il (ls_itemId r))) r) (filter (stored_row il) rows)
      \<and> inv_cursorCount iv' = inv_cursorCount iv \<and> inv_cursorQueue iv' = inv_cursorQueue iv"
proof (induction rows arbitrary: iv)
  case (Cons r rows)
  have len: "unat (inv_slotCount iv) + length rows < 2 ^ 16" using Cons.prems(2) by simp
  show ?case
  proof (cases "proto_of il (ls_itemId r)")
    case None
    then show ?thesis using Cons.IH [OF Cons.prems(1) len] by (simp add: by_id_known(1) [OF assms] stored_row_def)
  next
    case (Some p)
    then have p: "item_list_by_id h il (ls_itemId r) = Some p" "p \<noteq> 0"
      using by_id_known [OF assms, of "ls_itemId r"] by auto
    let ?item = "\<lparr>it_proto = p, it_charges = ls_charges r, it_stackAmt = ls_stackAmt r, it_isBag = False\<rparr>"
    show ?thesis
    proof (cases "ls_slotId r = INV_SLOT_Cursor")
      case True
      let ?iv = "iv\<lparr>inv_cursor := \<lparr>is_slotId = INV_SLOT_Cursor, is_itemId = ls_itemId r, is_item = ?item\<rparr>\<rparr>"
      have "slots_ok ?iv" "unat (inv_slotCount ?iv) + length rows < 2 ^ 16"
        using Cons.prems(1) len by (simp_all add: slots_ok_def)
      from Cons.IH [OF this] show ?thesis using p True by (simp add: from_db_to_cursor stored_row_def)
    next
      case False
      have "unat (inv_slotCount iv) + 1 < 2 ^ 16" using Cons.prems(2) by simp
      from from_db_to_slot_ok [OF Cons.prems(1) this False, of ?item "ls_itemId r"]
      obtain iv1 where iv1: "inv_from_db_to_slot (\<lambda>_. True) iv ?item (ls_slotId r) (ls_itemId r) = (ERR_None, iv1)"
        "slots_ok iv1" "unat (inv_slotCount iv1) = unat (inv_slotCount iv) + 1"
        "inv_used iv1 = inv_used iv @ [slot_of_row p r]"
        "inv_cursorCount iv1 = inv_cursorCount iv" "inv_cursorQueue iv1 = inv_cursorQueue iv"
        unfolding slot_of_row_def by blast
      have "unat (inv_slotCount iv1) + length rows < 2 ^ 16" using iv1(3) Cons.prems(2) by simp
      from Cons.IH [OF iv1(2) this] show ?thesis using p iv1 Some False by (auto simp: stored_row_def)
    qed
  qed
qed simp

text \<open>C28. What is loaded is saved again: after the rows of a character have been loaded into a new inventory,
  saving it yields, in order, exactly the rows of items that the server knows, with their slots,
  charges and stacks, except the rows for the cursor slot. Those, and rows of unknown items, are
  missing from what is saved.\<close>

theorem inv_save_load:
  assumes "item_list_ok h il" "length rows < 2 ^ 16" "inv_slotCount iv = 0" "inv_cursorCount iv = 0"
    and "sv_items save = []"
  shows "\<exists>iv' save'. inv_from_db (\<lambda>_. True) True h il (inv_init iv) rows = Some (ERR_None, iv')
    \<and> inv_save_all (\<lambda>_. True) iv' save = (ERR_None, save')
    \<and> sv_items save' = map (\<lambda>r. \<lparr>ss_itemId = ls_itemId r, ss_slotId = ls_slotId r, ss_charges = ls_charges r,
         ss_stackAmt = ls_stackAmt r\<rparr>) (filter (stored_row il) rows)
    \<and> unat (sv_itemCount save') = length (filter (stored_row il) rows)"
proof -
  have i: "slots_ok (inv_init iv)" "unat (inv_slotCount (inv_init iv)) + length rows < 2 ^ 16"
    using assms(2,3) by (simp_all add: slots_ok_def inv_init_def array_ok_def)
  let ?rows = "filter (stored_row il) rows"
  obtain iv' where iv': "inv_from_db (\<lambda>_. True) True h il (inv_init iv) rows = Some (ERR_None, iv')"
    "unat (inv_slotCount iv') = length ?rows"
    "inv_used iv' = map (\<lambda>r. slot_of_row (the (proto_of il (ls_itemId r))) r) ?rows" "inv_cursorCount iv' = 0"
    using inv_from_db_ok [OF assms(1) i] assms(3,4) by (auto simp: inv_init_def)
  have s: "map save_of_slot (inv_used iv') = map (\<lambda>r. \<lparr>ss_itemId = ls_itemId r, ss_slotId = ls_slotId r,
      ss_charges = ls_charges r, ss_stackAmt = ls_stackAmt r\<rparr>) ?rows"
    unfolding iv'(3) by (simp add: save_of_slot_def slot_of_row_def)
  have "inv_save_all (\<lambda>_. True) iv' save = (ERR_None, save\<lparr>sv_itemCount := ucast (inv_slotCount iv'),
      sv_items := map save_of_slot (inv_used iv'), sv_cursorQueueCount := 0, sv_cursorQueue := sv_cursorQueue save\<rparr>)"
    using iv'(2,4) assms(5) by (cases "inv_slotCount iv' = 0") (simp_all add: inv_save_all_def inv_save_slots_def Let_def)
  then show ?thesis using iv'(1,2) s by (auto simp: unat_u16_u32)
qed

text \<open>A server that knows one item, number 5.\<close>

lemma one_item_list: "\<exists>h il. item_list_ok h il \<and> tbl_int_map (il_byItemId il) = [5 \<mapsto> 96]"
proof -
  let ?h = "(\<lambda>_. None)(64 \<mapsto> new_path [97])" and ?p = "new_proto [] 64 5 0" and ?il = empty_item_list
  have a: "str_valid [97]" "(64 :: u64) \<noteq> 0" "(\<lambda>_ :: u64. None :: sbuf option) 64 = None" by (simp_all add: str_valid_def)
  have ok: "item_list_ok ?h ?il" unfolding empty_item_list_def by (rule item_list_init_ok)
  have m: "may_grow (il_byPath ?il)" "may_grow (il_byItemId ?il)" "[96 \<mapsto> ?p] 96 = Some ?p" "str_raw ?h [97] (ip_path ?p)"
    "(96 :: u64) \<noteq> 0" "tbl_str_map ?h (il_byPath ?il) [97] = None" "tbl_int_map (il_byItemId ?il) (ucast (5 :: u32)) = None"
    using new_path_simps(3) [OF a] by (simp_all add: empty_item_list_def item_list_init_def new_proto_def)
  from add_from_db_ok [where h = ?h and il = ?il and ih = "[96 \<mapsto> ?p]" and proto = 96 and p = ?p and path = "[97]"
      and itemId = 5, OF ok m] show ?thesis by (auto simp: empty_item_list_def item_list_init_def)
qed

theorem inv_save_load_witness:
  "\<exists>h il iv' save'. inv_from_db (\<lambda>_. True) True h il (inv_init empty_inventory)
       [\<lparr>ls_itemId = 5, ls_slotId = 22, ls_stackAmt = 1, ls_charges = 3\<rparr>,
        \<lparr>ls_itemId = 6, ls_slotId = 23, ls_stackAmt = 1, ls_charges = 1\<rparr>,
        \<lparr>ls_itemId = 5, ls_slotId = INV_SLOT_Cursor, ls_stackAmt = 1, ls_charges = 1\<rparr>] = Some (ERR_None, iv')
    \<and> inv_save_all (\<lambda>_. True) iv' \<lparr>sv_itemCount = 9, sv_cursorQueueCount = 9, sv_items = [], sv_cursorQueue = []\<rparr> = (ERR_None, save')
    \<and> sv_items save' = [\<lparr>ss_itemId = 5, ss_slotId = 22, ss_charges = 3, ss_stackAmt = 1\<rparr>]"
proof -
  obtain h il where ok: "item_list_ok h il" and m: "tbl_int_map (il_byItemId il) = [5 \<mapsto> 96]"
    using one_item_list by blast
  let ?row = "\<lparr>ls_itemId = 5, ls_slotId = 22, ls_stackAmt = 1, ls_charges = 3\<rparr>"
  let ?rows = "[?row, \<lparr>ls_itemId = 6, ls_slotId = 23, ls_stackAmt = 1, ls_charges = 1\<rparr>,
    \<lparr>ls_itemId = 5, ls_slotId = INV_SLOT_Cursor, ls_stackAmt = 1, ls_charges = 1\<rparr>]"
  let ?save = "\<lparr>sv_itemCount = 9, sv_cursorQueueCount = 9, sv_items = [], sv_cursorQueue = []\<rparr>"
  have n: "filter (stored_row il) ?rows = [?row]" by (simp add: stored_row_def m INV_SLOT_Cursor_def)
  have "length ?rows < 2 ^ 16" "inv_slotCount empty_inventory = 0" "inv_cursorCount empty_inventory = 0" "sv_items ?save = []"
    by (simp_all add: empty_inventory_def)
  from inv_save_load [OF ok this] show ?thesis unfolding n list.map load_slot.simps by blast
qed

text \<open>The item on the cursor is loaded but not saved: it is gone after the next save.\<close>

lemma inv_cursor_not_saved:
  "\<not> stored_row il \<lparr>ls_itemId = x, ls_slotId = INV_SLOT_Cursor, ls_stackAmt = s, ls_charges = c\<rparr>"
  by (simp add: stored_row_def)

section \<open>Statistics\<close>

text \<open>The fields of everything worn for its statistics, and the weight of the rest.\<close>

definition worn :: "inv_slot \<Rightarrow> bool" where
  "worn s \<longleftrightarrow> INV_SLOT_EquipMainAndCursorBegin \<le> is_slotId s \<and> is_slotId s \<le> INV_SLOT_EquipForStatsEnd"

definition carried :: "inv_slot \<Rightarrow> bool" where
  "carried s \<longleftrightarrow> INV_SLOT_EquipForStatsEnd < is_slotId s \<and> is_slotId s \<le> INV_SLOT_EquipMainAndCursorEnd"

definition proto_at :: "iheap \<Rightarrow> inv_slot \<Rightarrow> item_proto" where
  "proto_at ih s = the (ih (it_proto (is_item s)))"

definition worn_fields :: "iheap \<Rightarrow> inv_slot list \<Rightarrow> (u8 \<times> u32) list" where
  "worn_fields ih slots = concat (map (\<lambda>s. item_proto_fields (proto_at ih s)) (filter worn slots))"

definition carried_weight :: "iheap \<Rightarrow> inv_slot list \<Rightarrow> u32" where
  "carried_weight ih slots = (\<Sum>s\<leftarrow>filter carried slots. ucast (item_proto_weight (proto_at ih s)))"

lemma inv_calc_slots_eq:
  "\<forall>s \<in> set slots. worn s \<or> carried s \<longrightarrow> ih (it_proto (is_item s)) \<noteq> None \<Longrightarrow>
   inv_calc_slots ih slots (stats, w, ac) =
     Some (add_stats (\<lambda>st. stat_total st (worn_fields ih slots)) stats,
       w + word_of_int (weight_total (worn_fields ih slots)) + carried_weight ih slots,
       ac + stat_total ITEM_STAT_AC (worn_fields ih slots))"
proof (induction slots arbitrary: stats w ac)
  case Nil
  then show ?case by (simp add: worn_fields_def carried_weight_def add_stats_zero)
next
  case (Cons s slots)
  have disj: "\<not> (worn s \<and> carried s)" by (auto simp: worn_def carried_def)
  have out: "(is_slotId s < INV_SLOT_EquipMainAndCursorBegin \<or> is_slotId s > INV_SLOT_EquipMainAndCursorEnd) \<longleftrightarrow>
      \<not> worn s \<and> \<not> carried s"
    by (auto simp: worn_def carried_def INV_SLOT_EquipMainAndCursorBegin_def INV_SLOT_EquipMainAndCursorEnd_def
        INV_SLOT_EquipForStatsEnd_def word_less_nat_alt word_le_nat_alt)
  have IH: "inv_calc_slots ih slots (stats', w', ac') =
     Some (add_stats (\<lambda>st. stat_total st (worn_fields ih slots)) stats',
       w' + word_of_int (weight_total (worn_fields ih slots)) + carried_weight ih slots,
       ac' + stat_total ITEM_STAT_AC (worn_fields ih slots))" for stats' w' ac'
    using Cons.prems by (intro Cons.IH) simp
  consider (worn) "worn s" "\<not> carried s" | (carried) "carried s" "\<not> worn s" | (none) "\<not> worn s" "\<not> carried s"
    using disj by blast
  then show ?case
  proof cases
    case worn
    then obtain p where p: "ih (it_proto (is_item s)) = Some p" using Cons.prems by auto
    have "is_slotId s \<le> INV_SLOT_EquipForStatsEnd" using worn(1) by (simp add: worn_def)
    then show ?thesis using worn out p
      by (simp add: inv_calc_slot_def Let_def IH item_proto_calc_stats_def calc_stats_fields_eq add_stats_add
          worn_fields_def carried_weight_def proto_at_def add.assoc)
  next
    case carried
    then obtain p where p: "ih (it_proto (is_item s)) = Some p" using Cons.prems by auto
    have "\<not> is_slotId s \<le> INV_SLOT_EquipForStatsEnd" using carried(1) by (simp add: carried_def not_le)
    then show ?thesis using carried out p
      by (simp add: inv_calc_slot_def Let_def IH worn_fields_def carried_weight_def proto_at_def add.assoc add.left_commute)
  next
    case none
    then show ?thesis using out by (simp add: inv_calc_slot_def Let_def IH worn_fields_def carried_weight_def)
  qed
qed

end
