(* ===== verification/Zeq_Mob.thy ===== *)
theory Zeq_Mob
  imports Zeq_ItemProto "HOL-Library.Signed_Division"
begin

text \<open>
  \<open>src/mob.c\<close>: what clients and other creatures have in common. An \<open>int\<close> is a mathematical
  integer and \<open>/\<close> the truncating division \<open>sdiv\<close>; a conversion to a narrower signed type is
  written out. A \<open>float\<close> is its 32-bit pattern. An access outside an array is \<open>None\<close>.
\<close>

section \<open>Classes and races\<close>

definition CLASS_ID_NONE :: int where "CLASS_ID_NONE = 0"
definition CLASS_ID_Warrior :: int where "CLASS_ID_Warrior = 1"
definition CLASS_ID_Cleric :: int where "CLASS_ID_Cleric = 2"
definition CLASS_ID_Paladin :: int where "CLASS_ID_Paladin = 3"
definition CLASS_ID_Ranger :: int where "CLASS_ID_Ranger = 4"
definition CLASS_ID_ShadowKnight :: int where "CLASS_ID_ShadowKnight = 5"
definition CLASS_ID_Druid :: int where "CLASS_ID_Druid = 6"
definition CLASS_ID_Monk :: int where "CLASS_ID_Monk = 7"
definition CLASS_ID_Bard :: int where "CLASS_ID_Bard = 8"
definition CLASS_ID_Rogue :: int where "CLASS_ID_Rogue = 9"
definition CLASS_ID_Shaman :: int where "CLASS_ID_Shaman = 10"
definition CLASS_ID_Necromancer :: int where "CLASS_ID_Necromancer = 11"
definition CLASS_ID_Wizard :: int where "CLASS_ID_Wizard = 12"
definition CLASS_ID_Magician :: int where "CLASS_ID_Magician = 13"
definition CLASS_ID_Enchanter :: int where "CLASS_ID_Enchanter = 14"

definition RACE_ID_NONE :: int where "RACE_ID_NONE = 0"
definition RACE_ID_Human :: int where "RACE_ID_Human = 1"
definition RACE_ID_Barbarian :: int where "RACE_ID_Barbarian = 2"
definition RACE_ID_Erudite :: int where "RACE_ID_Erudite = 3"
definition RACE_ID_WoodElf :: int where "RACE_ID_WoodElf = 4"
definition RACE_ID_HighElf :: int where "RACE_ID_HighElf = 5"
definition RACE_ID_DarkElf :: int where "RACE_ID_DarkElf = 6"
definition RACE_ID_HalfElf :: int where "RACE_ID_HalfElf = 7"
definition RACE_ID_Dwarf :: int where "RACE_ID_Dwarf = 8"
definition RACE_ID_Troll :: int where "RACE_ID_Troll = 9"
definition RACE_ID_Ogre :: int where "RACE_ID_Ogre = 10"
definition RACE_ID_Halfling :: int where "RACE_ID_Halfling = 11"
definition RACE_ID_Gnome :: int where "RACE_ID_Gnome = 12"
definition RACE_ID_Iksar :: int where "RACE_ID_Iksar = 124"

text \<open>\<open>class_id.c\<close>, \<open>race_id.c\<close>, \<open>deity_id.c\<close> and \<open>gender_id.c\<close>: names for the scripts and the packets.\<close>

definition class_id_to_str :: "int \<Rightarrow> string" where
  "class_id_to_str classId =
     (if classId = CLASS_ID_Warrior then ''Warrior''
      else if classId = CLASS_ID_Cleric then ''Cleric''
      else if classId = CLASS_ID_Paladin then ''Paladin''
      else if classId = CLASS_ID_Ranger then ''Ranger''
      else if classId = CLASS_ID_ShadowKnight then ''Shadow Knight''
      else if classId = CLASS_ID_Druid then ''Druid''
      else if classId = CLASS_ID_Monk then ''Monk''
      else if classId = CLASS_ID_Bard then ''Bard''
      else if classId = CLASS_ID_Rogue then ''Rogue''
      else if classId = CLASS_ID_Shaman then ''Shaman''
      else if classId = CLASS_ID_Necromancer then ''Necromancer''
      else if classId = CLASS_ID_Wizard then ''Wizard''
      else if classId = CLASS_ID_Magician then ''Magician''
      else if classId = CLASS_ID_Enchanter then ''Enchanter''
      else ''Warrior'')"

definition race_id_to_str :: "int \<Rightarrow> string" where
  "race_id_to_str raceId =
     (if raceId = RACE_ID_Human then ''Human''
      else if raceId = RACE_ID_Barbarian then ''Barbarian''
      else if raceId = RACE_ID_Erudite then ''Erudite''
      else if raceId = RACE_ID_WoodElf then ''Wood Elf''
      else if raceId = RACE_ID_HighElf then ''High Elf''
      else if raceId = RACE_ID_DarkElf then ''Dark Elf''
      else if raceId = RACE_ID_HalfElf then ''Half Elf''
      else if raceId = RACE_ID_Dwarf then ''Dwarf''
      else if raceId = RACE_ID_Troll then ''Troll''
      else if raceId = RACE_ID_Ogre then ''Ogre''
      else if raceId = RACE_ID_Halfling then ''Halfling''
      else if raceId = RACE_ID_Gnome then ''Gnome''
      else if raceId = RACE_ID_Iksar then ''Iksar''
      else ''Human'')"

definition deity_names :: "string list" where
  "deity_names = [''Bertoxxulous'', ''Brell Serilis'', ''Cazic-Thule'', ''Erollisi Marr'', ''Bristlebane'',
     ''Innoruuk'', ''Karana'', ''Mithaniel Marr'', ''Prexus'', ''Quellious'', ''Rallos Zek'', ''Rodcet Nife'',
     ''Solusek Ro'', ''The Tribunal'', ''Tunare'', ''Veeshan'']"

definition DEITY_ID_Bertoxxulous :: int where "DEITY_ID_Bertoxxulous = 201"
definition DEITY_ID_Veeshan :: int where "DEITY_ID_Veeshan = 216"

definition deity_id_to_str :: "int \<Rightarrow> string" where
  "deity_id_to_str deityId =
     (if DEITY_ID_Bertoxxulous \<le> deityId \<and> deityId \<le> DEITY_ID_Veeshan
      then deity_names ! nat (deityId - DEITY_ID_Bertoxxulous) else ''Agnostic'')"

definition gender_id_to_str :: "int \<Rightarrow> string" where
  "gender_id_to_str genderId = (if genderId = 0 then ''Male'' else if genderId = 1 then ''Female'' else ''Neuter'')"

section \<open>State\<close>

definition MOB_PARENT_TYPE_Npc :: u8 where "MOB_PARENT_TYPE_Npc = 1"
definition MOB_PARENT_TYPE_Client :: u8 where "MOB_PARENT_TYPE_Client = 2"
definition MOB_PARENT_TYPE_Pet :: u8 where "MOB_PARENT_TYPE_Pet = 3"
definition MOB_PARENT_TYPE_NpcCorpse :: u8 where "MOB_PARENT_TYPE_NpcCorpse = 4"
definition MOB_PARENT_TYPE_ClientCorpse :: u8 where "MOB_PARENT_TYPE_ClientCorpse = 5"

definition UPRIGHT_STATE_Standing :: u8 where "UPRIGHT_STATE_Standing = 100"
definition BODY_TYPE_Humanoid :: u8 where "BODY_TYPE_Humanoid = 1"

record loc_h =
  lh_x :: u32
  lh_y :: u32
  lh_z :: u32
  lh_heading :: u32

record mob =
  mb_parentType :: u8
  mb_level :: u8
  mb_classId :: u8
  mb_baseGenderId :: u8
  mb_genderId :: u8
  mb_faceId :: u8
  mb_baseRaceId :: u16
  mb_raceId :: u16
  mb_deityId :: u16
  mb_entityId :: u16
  mb_zoneIndex :: u32
  mb_luaIndex :: u32
  mb_loc :: loc_h
  mb_headingRaw :: u16
  mb_name :: u64
  mb_target :: u64
  mb_currentHp :: int
  mb_currentMana :: int
  mb_currentEndurance :: int
  mb_ac :: int
  mb_acFromAGI :: int
  mb_acFromBonus :: int
  mb_acFromSkill :: int
  mb_acFromSkill2 :: int
  mb_acFromItems :: int
  mb_acFromBuffs :: int
  mb_cappedStats :: core_stats
  mb_baseStats :: core_stats
  mb_totalStats :: core_stats
  mb_currentWalkingSpeed :: u32
  mb_currentRunningSpeed :: u32
  mb_baseWalkingSpeed :: u32
  mb_baseRunningSpeed :: u32
  mb_currentSize :: u32
  mb_baseSize :: u32
  mb_textureId :: u8
  mb_helmTextureId :: u8
  mb_primaryWeaponModelId :: u8
  mb_secondaryWeaponModelId :: u8
  mb_uprightState :: u8
  mb_lightLevel :: u8
  mb_bodyType :: u8
  mb_materialId :: "u8 list"
  mb_tint :: "u32 list"
  mb_ownerEntityId :: u16
  mb_zone :: u64

text \<open>The data of a character as the database thread passes it on.\<close>

record coin =
  coin_pp :: u32
  coin_gp :: u32
  coin_sp :: u32
  coin_cp :: u32

record client_load_data =
  cl_charId :: u64
  cl_surname :: u64
  cl_level :: u8
  cl_classId :: u8
  cl_raceId :: u16
  cl_genderId :: u8
  cl_faceId :: u8
  cl_deityId :: u16
  cl_loc :: loc_h
  cl_currentHp :: int
  cl_currentMana :: int
  cl_currentEndurance :: int
  cl_experience :: u64
  cl_trainingPoints :: u16
  cl_STR :: u8
  cl_STA :: u8
  cl_DEX :: u8
  cl_AGI :: u8
  cl_INT :: u8
  cl_WIS :: u8
  cl_CHA :: u8
  cl_guildRank :: u8
  cl_guildId :: u32
  cl_harmtouchTimestamp :: u64
  cl_disciplineTimestamp :: u64
  cl_coin :: coin
  cl_coinCursor :: coin
  cl_coinBank :: coin
  cl_hunger :: u16
  cl_thirst :: u16
  cl_isGM :: bool
  cl_anon :: u8
  cl_drunkeness :: u16
  cl_creationTimestamp :: u64
  cl_zoneId :: u32
  cl_instId :: u32
  cl_autoSplit :: bool
  cl_isPvP :: bool
  cl_isGMSpeed :: bool
  cl_isGMHide :: bool

definition mob_init_client_unloaded :: "sheap \<Rightarrow> mob \<Rightarrow> u64 \<Rightarrow> sheap \<times> mob" where
  "mob_init_client_unloaded h mob name =
     (sbuf_grab h name, mob\<lparr>mb_parentType := MOB_PARENT_TYPE_Client, mb_name := name\<rparr>)"

definition mob_base_size_by_race_id :: "int \<Rightarrow> u32" where
  "mob_base_size_by_race_id raceId =
     (if raceId = RACE_ID_Barbarian then 0x40e00000
      else if raceId = RACE_ID_Ogre then 0x41100000
      else if raceId = RACE_ID_Troll then 0x41000000
      else if raceId = RACE_ID_WoodElf \<or> raceId = RACE_ID_DarkElf then 0x40a00000
      else if raceId = RACE_ID_Dwarf \<or> raceId = RACE_ID_Halfling then 0x40800000
      else if raceId = RACE_ID_Gnome then 0x40400000
      else 0x40c00000)"

definition mob_init_client_character :: "mob \<Rightarrow> client_load_data \<Rightarrow> mob" where
  "mob_init_client_character mob data =
     (let runSpeed = (if cl_isGMSpeed data then 0x40400000 else 0x3f333333);
          mob = mob\<lparr>mb_level := cl_level data, mb_classId := cl_classId data, mb_baseGenderId := cl_genderId data,
            mb_genderId := cl_genderId data, mb_faceId := cl_faceId data, mb_baseRaceId := cl_raceId data,
            mb_raceId := cl_raceId data, mb_deityId := cl_deityId data, mb_zoneIndex := - 1, mb_loc := cl_loc data,
            mb_currentHp := cl_currentHp data, mb_currentMana := cl_currentMana data,
            mb_currentEndurance := cl_currentEndurance data,
            mb_baseStats := (mb_baseStats mob)\<lparr>st_STR := uint (cl_STR data), st_STA := uint (cl_STA data),
              st_DEX := uint (cl_DEX data), st_AGI := uint (cl_AGI data), st_INT := uint (cl_INT data),
              st_WIS := uint (cl_WIS data), st_CHA := uint (cl_CHA data)\<rparr>,
            mb_textureId := 0xff, mb_helmTextureId := 0xff, mb_primaryWeaponModelId := 0,
            mb_secondaryWeaponModelId := 0, mb_uprightState := UPRIGHT_STATE_Standing, mb_lightLevel := 0,
            mb_bodyType := BODY_TYPE_Humanoid\<rparr>;
          mob = mob\<lparr>mb_baseStats := (mb_baseStats mob)\<lparr>st_maxHp := 100, st_maxMana := 100, st_maxEndurance := 100\<rparr>,
            mb_cappedStats := (mb_cappedStats mob)\<lparr>st_maxHp := 100, st_maxMana := 100, st_maxEndurance := 100\<rparr>,
            mb_currentWalkingSpeed := 0x3eeb851f, mb_currentRunningSpeed := runSpeed,
            mb_baseWalkingSpeed := 0x3eeb851f, mb_baseRunningSpeed := runSpeed\<rparr>;
          sz = mob_base_size_by_race_id (uint (mb_baseRaceId mob))
      in mob\<lparr>mb_currentSize := sz, mb_baseSize := sz\<rparr>)"

definition mob_deinit :: "sheap \<Rightarrow> mob \<Rightarrow> sheap \<times> mob" where
  "mob_deinit h mob = (sbuf_drop h (mb_name mob), mob\<lparr>mb_name := 0\<rparr>)"

section \<open>Hit points and armour class\<close>

definition to_int8 :: "int \<Rightarrow> int" where "to_int8 v = signed_take_bit 7 v"
definition to_int16 :: "int \<Rightarrow> int" where "to_int16 v = signed_take_bit 15 v"
definition to_int32 :: "int \<Rightarrow> int" where "to_int32 v = signed_take_bit 31 v"

definition mob_hp_ratio :: "mob \<Rightarrow> int option" where
  "mob_hp_ratio mob =
     (if st_maxHp (mb_cappedStats mob) = 0 then None
      else Some (to_int8 ((mb_currentHp mob * 100) sdiv st_maxHp (mb_cappedStats mob))))"

definition byLowAgi :: "int list" where
  "byLowAgi =
    [- 24, - 24, - 23, - 23, - 22, - 21, - 21, - 20, - 20, - 19,
     - 18, - 18, - 17, - 16, - 16, - 15, - 15, - 14, - 13, - 13,
     - 12, - 11, - 11, - 10, - 10, - 9, - 8, - 8, - 7, - 6,
     - 6, - 5, - 5, - 4, - 3, - 3, - 2, - 1, - 1, 0,
     0, 0, 0, 0, 0, 0, 0, 0, 0, 0,
     0, 0, 0, 0, 0, 0, 0, 0, 0, 0,
     0, 0, 0, 0, 0, 0, 1, 1, 1, 1,
     1, 5, 5, 5, 5]"

definition byHighAgiAndLevel :: "int list list" where
  "byHighAgiAndLevel =
    [[9, 23, 33, 39],
     [10, 23, 33, 40],
     [11, 24, 34, 41],
     [12, 25, 35, 42],
     [12, 26, 36, 42],
     [13, 26, 36, 43],
     [14, 27, 37, 44],
     [14, 28, 38, 45],
     [15, 29, 39, 45],
     [16, 29, 39, 46],
     [17, 30, 40, 47],
     [17, 31, 41, 47],
     [18, 32, 42, 48],
     [19, 32, 42, 49],
     [20, 33, 43, 50],
     [20, 34, 44, 50],
     [21, 34, 44, 51],
     [22, 35, 45, 52],
     [23, 36, 46, 53],
     [23, 37, 47, 53],
     [24, 37, 47, 54],
     [25, 38, 48, 55],
     [26, 39, 49, 56],
     [26, 40, 50, 56],
     [27, 40, 50, 57],
     [28, 41, 51, 58],
     [28, 42, 52, 58],
     [29, 43, 53, 59],
     [30, 43, 53, 60],
     [31, 44, 54, 61],
     [31, 45, 55, 61],
     [32, 45, 55, 62],
     [33, 46, 56, 63],
     [34, 47, 57, 64],
     [35, 48, 58, 65]]"

definition agiIndex :: "int \<Rightarrow> nat" where
  "agiIndex AGI =
     (if AGI \<le> 75 then 0
      else if AGI \<le> 79 then 1
      else if AGI \<le> 80 then 2
      else if AGI \<le> 85 then 3
      else if AGI \<le> 90 then 4
      else if AGI \<le> 95 then 5
      else if AGI \<le> 99 then 6
      else if AGI \<le> 100 then 7
      else if AGI \<le> 105 then 8
      else if AGI \<le> 110 then 9
      else if AGI \<le> 115 then 10
      else if AGI \<le> 119 then 11
      else if AGI \<le> 120 then 12
      else if AGI \<le> 125 then 13
      else if AGI \<le> 130 then 14
      else if AGI \<le> 135 then 15
      else if AGI \<le> 139 then 16
      else if AGI \<le> 140 then 17
      else if AGI \<le> 145 then 18
      else if AGI \<le> 150 then 19
      else if AGI \<le> 155 then 20
      else if AGI \<le> 159 then 21
      else if AGI \<le> 160 then 22
      else if AGI \<le> 165 then 23
      else if AGI \<le> 170 then 24
      else if AGI \<le> 175 then 25
      else if AGI \<le> 179 then 26
      else if AGI \<le> 180 then 27
      else if AGI \<le> 185 then 28
      else if AGI \<le> 190 then 29
      else if AGI \<le> 195 then 30
      else if AGI \<le> 199 then 31
      else if AGI \<le> 219 then 32
      else if AGI \<le> 239 then 33
      else 34)"

definition monkBonusByLevel :: "int list" where
  "monkBonusByLevel =
    [7, 9, 10, 11, 13, 14, 15, 17, 18, 19,
     21, 22, 23, 25, 26, 27, 29, 30, 31, 33,
     34, 35, 37, 38, 39, 41, 42, 43, 45, 46,
     47, 49, 50, 51, 53, 54, 55, 57, 58, 59,
     61, 62, 63, 65, 66, 67, 69, 70, 71, 73,
     74, 75, 77, 78, 79, 81, 82, 83, 85, 86]"

definition bonusByAgiAndLevel :: "int list list" where
  "bonusByAgiAndLevel =
    [[1, 1, 1, 1, 2, 2, 2, 2, 3, 3, 3, 3, 4, 4, 4, 4, 5, 5, 5, 5, 6, 6, 6, 6, 7, 7, 7, 7, 8, 8, 8],
     [2, 2, 3, 3, 4, 4, 5, 5, 6, 6, 7, 7, 8, 8, 9, 9, 10, 10, 11, 11, 12, 12, 12, 12, 12, 12, 12, 12, 12, 12, 12],
     [3, 3, 4, 5, 6, 6, 7, 8, 9, 9, 10, 11, 12, 12, 12, 12, 12, 12, 12, 12, 12, 12, 12, 12, 12, 12, 12, 12, 12, 12, 12],
     [4, 5, 6, 7, 8, 9, 10, 11, 12, 12, 12, 12, 12, 12, 12, 12, 12, 12, 12, 12, 12, 12, 12, 12, 12, 12, 12, 12, 12, 12, 12],
     [5, 6, 7, 8, 10, 11, 12, 12, 12, 12, 12, 12, 12, 12, 12, 12, 12, 12, 12, 12, 12, 12, 12, 12, 12, 12, 12, 12, 12, 12, 12]]"

definition mob_calc_ac_agi :: "int \<Rightarrow> int \<Rightarrow> int" where
  "mob_calc_ac_agi level AGI =
     (if AGI \<le> 74
      then let AGI = (if AGI < 0 then 0 else AGI) in byLowAgi ! nat AGI
      else let i = agiIndex AGI;
               l = (if level \<le> 6 then 0 else if level \<le> 19 then 1 else if level \<le> 39 then 2 else 3 :: nat)
           in byHighAgiAndLevel ! i ! l)"

definition mob_calc_iksar_ac_bonus :: "int \<Rightarrow> int" where
  "mob_calc_iksar_ac_bonus level = to_int8 (cap_min_max level 10 35)"

definition mob_calc_monk_ac_bonus :: "int \<Rightarrow> int option" where
  "mob_calc_monk_ac_bonus level =
     (let level = level - 1;
          level = (if level \<ge> 60 then 59 else level)
      in if level < 0 then None else Some (monkBonusByLevel ! nat level))"

definition mob_calc_rogue_ac_bonus :: "int \<Rightarrow> int \<Rightarrow> int" where
  "mob_calc_rogue_ac_bonus level AGI =
     (if level \<ge> 30 \<and> AGI \<ge> 76
      then let level = level - 30;
               level = (if level > 30 then 30 else level);
               i = (if AGI \<le> 79 then 0 else if AGI \<le> 84 then 1 else if AGI \<le> 89 then 2
                    else if AGI \<le> 99 then 3 else 4 :: nat)
           in bonusByAgiAndLevel ! i ! nat level
      else 0)"

definition mob_calc_ac_bonus :: "int \<Rightarrow> int \<Rightarrow> int \<Rightarrow> int \<Rightarrow> int option" where
  "mob_calc_ac_bonus level raceId classId AGI =
     (let val = 0;
          val = (if raceId = RACE_ID_Iksar then to_int8 (val + mob_calc_iksar_ac_bonus level) else val)
      in if classId = CLASS_ID_Monk then map_option (\<lambda>b. to_int8 (val + b)) (mob_calc_monk_ac_bonus level)
         else if classId = CLASS_ID_Rogue then Some (to_int8 (val + mob_calc_rogue_ac_bonus level AGI))
         else Some val)"

abbreviation is_cloth_class :: "int \<Rightarrow> bool" where
  "is_cloth_class classId \<equiv> classId = CLASS_ID_Necromancer \<or> classId = CLASS_ID_Wizard
     \<or> classId = CLASS_ID_Magician \<or> classId = CLASS_ID_Enchanter"

definition mob_calc_ac_skill :: "int \<Rightarrow> int \<Rightarrow> int" where
  "mob_calc_ac_skill classId skillAmt =
     (if is_cloth_class classId then to_int16 (skillAmt sdiv 2) else to_int16 (skillAmt sdiv 3))"

definition mob_calc_ac_skill2 :: "int \<Rightarrow> int" where
  "mob_calc_ac_skill2 skillAmt = to_int16 ((skillAmt * 16) sdiv 9)"

definition mob_calc_ac_from_factors :: "mob \<Rightarrow> int \<Rightarrow> int" where
  "mob_calc_ac_from_factors mob classId =
     (let avoidance = mb_acFromAGI mob + mb_acFromBonus mob + mb_acFromSkill2 mob;
          mitigation = mb_acFromSkill mob;
          mitigation = (if is_cloth_class classId then mitigation + mb_acFromItems mob
                        else mitigation + (mb_acFromItems mob * 4) sdiv 3);
          avoidance = (if avoidance < 0 then 0 else avoidance);
          mitigation = (if mitigation < 0 then 0 else mitigation)
      in ((avoidance + mitigation) * 1000) sdiv 847 + mb_acFromBuffs mob)"

section \<open>Accessors\<close>

definition mob_name_str :: "sheap \<Rightarrow> mob \<Rightarrow> u8 list" where
  "mob_name_str h mob = sbuf_str h (mb_name mob)"

definition mob_name_str_no_null :: "sheap \<Rightarrow> mob \<Rightarrow> u8 list" where
  "mob_name_str_no_null h mob = sbuf_str_or_empty_string h (mb_name mob)"

definition mob_material_id :: "mob \<Rightarrow> int \<Rightarrow> u8" where
  "mob_material_id mob n =
     (if n = 7 then mb_primaryWeaponModelId mob
      else if n = 8 then mb_secondaryWeaponModelId mob
      else if 0 \<le> n \<and> n \<le> 6 then mb_materialId mob ! nat n
      else 0)"

definition mob_set_material_id :: "mob \<Rightarrow> int \<Rightarrow> u8 \<Rightarrow> mob" where
  "mob_set_material_id mob n matId =
     (if n = 7 then mob\<lparr>mb_primaryWeaponModelId := matId\<rparr>
      else if n = 8 then mob\<lparr>mb_secondaryWeaponModelId := matId\<rparr>
      else if 0 \<le> n \<and> n \<le> 6 then mob\<lparr>mb_materialId := (mb_materialId mob)[nat n := matId]\<rparr>
      else mob)"

text \<open>Neither checks for a negative number.\<close>

definition mob_tint :: "mob \<Rightarrow> int \<Rightarrow> u32 option" where
  "mob_tint mob n = (if n > 6 then Some 0 else if n < 0 then None else Some (mb_tint mob ! nat n))"

definition mob_set_tint :: "mob \<Rightarrow> int \<Rightarrow> u32 \<Rightarrow> mob option" where
  "mob_set_tint mob n color =
     (if n \<le> 6 then if n < 0 then None else Some (mob\<lparr>mb_tint := (mb_tint mob)[nat n := color]\<rparr>)
      else Some mob)"

definition mob_target_or_self :: "u64 \<Rightarrow> mob \<Rightarrow> u64" where
  "mob_target_or_self self mob = (let targ = mb_target mob in if targ \<noteq> 0 then targ else self)"

section \<open>Armour class grows with agility\<close>


lemma nth_sorted: "sorted xs \<Longrightarrow> i \<le> j \<Longrightarrow> j < length xs \<Longrightarrow> xs ! i \<le> (xs ! j :: int)"
  by (rule sorted_nth_mono)

lemma sorted_bounds: "sorted xs \<Longrightarrow> i < length xs \<Longrightarrow> xs ! 0 \<le> (xs ! i :: int) \<and> xs ! i \<le> xs ! (length xs - 1)"
  by (auto intro: nth_sorted)

lemma low_sorted: "sorted byLowAgi" "length byLowAgi = 75" "byLowAgi ! 0 = - 24" "byLowAgi ! 74 = 5"
  by (simp_all add: byLowAgi_def)

definition agi_steps :: "int list" where
  "agi_steps = [75, 79, 80, 85, 90, 95, 99, 100, 105, 110, 115, 119, 120, 125, 130, 135, 139, 140, 145, 150, 155,
     159, 160, 165, 170, 175, 179, 180, 185, 190, 195, 199, 219, 239]"

lemma agiIndex_steps: "agiIndex AGI = length (filter (\<lambda>t. t < AGI) agi_steps)"
  by (simp add: agiIndex_def agi_steps_def)

lemma agiIndex_mono: "AGI \<le> AGI' \<Longrightarrow> agiIndex AGI \<le> agiIndex AGI'"
proof -
  assume a: "AGI \<le> AGI'"
  have "length (filter (\<lambda>t. t < AGI) ts) \<le> length (filter (\<lambda>t. t < AGI') ts)" for ts
    using a by (induction ts) auto
  then show ?thesis by (simp add: agiIndex_steps)
qed

lemma agiIndex_less: "agiIndex AGI < 35"
proof -
  have "agiIndex AGI \<le> length agi_steps" unfolding agiIndex_steps by (rule length_filter_le)
  then show ?thesis by (simp add: agi_steps_def)
qed

lemma high_sorted:
  "length byHighAgiAndLevel = 35" "sorted (map (\<lambda>r. r ! 0) byHighAgiAndLevel)"
  "sorted (map (\<lambda>r. r ! 1) byHighAgiAndLevel)" "sorted (map (\<lambda>r. r ! 2) byHighAgiAndLevel)"
  "sorted (map (\<lambda>r. r ! 3) byHighAgiAndLevel)"
  "list_all (\<lambda>r. length r = 4 \<and> sorted r \<and> 9 \<le> r ! 0 \<and> r ! 3 \<le> 65) byHighAgiAndLevel"
  by (simp_all add: byHighAgiAndLevel_def numeral_2_eq_2 numeral_3_eq_3)

lemma high_mono:
  assumes "i \<le> i'" "i' < 35" "l \<le> l'" "l' < 4"
  shows "byHighAgiAndLevel ! i ! l \<le> byHighAgiAndLevel ! i' ! l'"
    and "9 \<le> byHighAgiAndLevel ! i ! l" "byHighAgiAndLevel ! i ! l \<le> 65"
proof -
  have "l = 0 \<or> l = 1 \<or> l = 2 \<or> l = 3" using assms(3,4) by arith
  then have "sorted (map (\<lambda>r. r ! l) byHighAgiAndLevel)" using high_sorted by (elim disjE) simp_all
  then have c: "byHighAgiAndLevel ! i ! l \<le> byHighAgiAndLevel ! i' ! l"
    using nth_sorted [of "map (\<lambda>r. r ! l) byHighAgiAndLevel" i i'] assms high_sorted(1) by simp
  have r: "length (byHighAgiAndLevel ! k) = 4" "sorted (byHighAgiAndLevel ! k)" "9 \<le> byHighAgiAndLevel ! k ! 0"
    "byHighAgiAndLevel ! k ! 3 \<le> 65" if "k < 35" for k
    using that high_sorted(1,6) by (auto simp: list_all_length)
  show "byHighAgiAndLevel ! i ! l \<le> byHighAgiAndLevel ! i' ! l'"
    using c nth_sorted [OF r(2) [OF assms(2)] assms(3)] r(1) [OF assms(2)] assms(4) by simp
  have i: "i < 35" using assms by simp
  show "9 \<le> byHighAgiAndLevel ! i ! l" "byHighAgiAndLevel ! i ! l \<le> 65"
    using sorted_bounds [OF r(2) [OF i], of l] r(1,3,4) [OF i] assms(3,4) by (auto simp: numeral_3_eq_3)
qed

lemma mob_calc_ac_agi_mono:
  assumes "AGI \<le> AGI'" "level \<le> level'"
  shows "mob_calc_ac_agi level AGI \<le> mob_calc_ac_agi level' AGI'"
proof -
  let ?l = "\<lambda>level :: int. (if level \<le> 6 then 0 else if level \<le> 19 then 1 else if level \<le> 39 then 2 else 3 :: nat)"
  have l: "?l level \<le> ?l level'" "?l level' < 4" "?l level < 4" using assms(2) by auto
  show ?thesis
  proof (cases "AGI \<le> 74")
    case True
    let ?a = "nat (if AGI < 0 then 0 else AGI)"
    have v: "mob_calc_ac_agi level AGI = byLowAgi ! ?a" using True by (simp add: mob_calc_ac_agi_def Let_def)
    show ?thesis
    proof (cases "AGI' \<le> 74")
      case True
      let ?b = "nat (if AGI' < 0 then 0 else AGI')"
      have "?a \<le> ?b" "?b < length byLowAgi" using True assms(1) low_sorted by auto
      from nth_sorted [OF low_sorted(1) this] show ?thesis unfolding v using True
        by (simp add: mob_calc_ac_agi_def Let_def)
    next
      case False
      have "byLowAgi ! ?a \<le> 5" using sorted_bounds [OF low_sorted(1), of ?a] True low_sorted by auto
      then show ?thesis unfolding v using high_mono(2) [OF le_refl agiIndex_less le_refl l(2), of AGI'] False
        by (simp add: mob_calc_ac_agi_def Let_def)
    qed
  next
    case False
    then have "\<not> AGI' \<le> 74" using assms(1) by simp
    with False show ?thesis using high_mono(1) [OF agiIndex_mono [OF assms(1)] agiIndex_less l(1,2)]
      by (simp add: mob_calc_ac_agi_def Let_def)
  qed
qed

lemma mob_calc_ac_agi_bounds: "- 24 \<le> mob_calc_ac_agi level AGI \<and> mob_calc_ac_agi level AGI \<le> 65"
proof (cases "AGI \<le> 74")
  case True
  let ?a = "nat (if AGI < 0 then 0 else AGI)"
  have "?a < 75" using True by auto
  then show ?thesis using sorted_bounds [OF low_sorted(1), of ?a] True
    by (simp add: mob_calc_ac_agi_def Let_def low_sorted)
next
  case False
  then show ?thesis using high_mono(2,3) [OF le_refl agiIndex_less [of AGI] le_refl,
      of "if level \<le> 6 then 0 else if level \<le> 19 then 1 else if level \<le> 39 then 2 else 3"]
    by (auto simp: mob_calc_ac_agi_def Let_def)
qed

lemma monk_bounds: "length monkBonusByLevel = 60" "list_all (\<lambda>b. 7 \<le> b \<and> b \<le> 86) monkBonusByLevel"
  by (simp_all add: monkBonusByLevel_def)

lemma rogue_bounds: "length bonusByAgiAndLevel = 5"
  "list_all (\<lambda>r. length r = 31 \<and> list_all (\<lambda>b. 1 \<le> b \<and> b \<le> 12) r) bonusByAgiAndLevel"
  by (simp_all add: bonusByAgiAndLevel_def)

lemma rogue_bonus_bounds: "0 \<le> mob_calc_rogue_ac_bonus level AGI \<and> mob_calc_rogue_ac_bonus level AGI \<le> 12"
proof -
  have b: "0 \<le> bonusByAgiAndLevel ! i ! j" "bonusByAgiAndLevel ! i ! j \<le> 12" if "i < 5" "j < 31" for i j
    using rogue_bounds that by (auto simp: list_all_length order_trans [of 0 1])
  show ?thesis unfolding mob_calc_rogue_ac_bonus_def Let_def by (auto intro!: b)
qed

lemma to_int8_id: "- 128 \<le> v \<Longrightarrow> v \<le> 127 \<Longrightarrow> to_int8 v = v"
  by (simp add: to_int8_def signed_take_bit_int_eq_self)

lemma to_int16_id: "- 32768 \<le> v \<Longrightarrow> v \<le> 32767 \<Longrightarrow> to_int16 v = v"
  by (simp add: to_int16_def signed_take_bit_int_eq_self)

text \<open>From level 1 on the bonus is defined and fits its 8 bits, for an Iksar monk too.\<close>

lemma mob_calc_ac_bonus_bounds:
  assumes "1 \<le> level"
  shows "\<exists>v. mob_calc_ac_bonus level raceId classId AGI = Some v \<and> 0 \<le> v \<and> v \<le> 121"
proof -
  have i: "mob_calc_iksar_ac_bonus level = cap_min_max level 10 35" "10 \<le> cap_min_max level 10 35" "cap_min_max level 10 35 \<le> 35"
    by (auto simp: mob_calc_iksar_ac_bonus_def cap_min_max_def to_int8_id)
  define m where "m = monkBonusByLevel ! nat (if level - 1 \<ge> 60 then 59 else level - 1)"
  have "nat (if level - 1 \<ge> 60 then 59 else level - 1) < 60" by auto
  then have m: "7 \<le> m" "m \<le> 86" using monk_bounds by (auto simp: list_all_length m_def)
  have mk: "mob_calc_monk_ac_bonus level = Some m" using assms by (simp add: mob_calc_monk_ac_bonus_def m_def)
  have z: "to_int8 (0 + cap_min_max level 10 35) = cap_min_max level 10 35" using i by (simp add: to_int8_id)
  show ?thesis unfolding mob_calc_ac_bonus_def Let_def i(1) mk z
    using i(2,3) m rogue_bonus_bounds [of level AGI] by (auto simp: to_int8_id)
qed

end
