(* ===== verification/Zeq_PacketWrite.thy ===== *)
theory Zeq_PacketWrite
  imports Zeq_Packet Zeq_Aligned
begin

text \<open>
  How the packet code fills a packet: a sequence of calls of the \<open>aligned_write\<close> functions on the
  payload of a new packet. A sequence of calls is a list; \<open>write_ops\<close> executes it with the functions
  of \<open>Zeq_Aligned\<close>, and \<open>packet_write\<close> is \<open>packet_init\<close> of \<open>src/packet_create.c\<close> followed by them.
\<close>

section \<open>Sequences of writes\<close>

text \<open>The last two are \<open>aligned_write_snprintf_and_advance_by\<close>, with the formatted text, and
  \<open>aligned_write_buffer\<close>.\<close>

datatype wop = W8 u8 | W16 u16 | W32 u32 | WZeroes nat | WMemset u8 nat | WText nat "u8 list" | WBuf "u8 list"

fun write_op :: "wop \<Rightarrow> aligned \<Rightarrow> aligned option" where
  "write_op (W8 v) a = aligned_write_uint8 a v"
| "write_op (W16 v) a = aligned_write_uint16 a v"
| "write_op (W32 v) a = aligned_write_uint32 a v"
| "write_op (WZeroes n) a = aligned_write_zeroes a (of_nat n)"
| "write_op (WMemset v n) a = aligned_write_memset a v (of_nat n)"
| "write_op (WText n out) a = aligned_write_snprintf_and_advance_by a (of_nat n) out"
| "write_op (WBuf bs) a = aligned_write_buffer a bs (of_nat (length bs))"

fun write_ops :: "wop list \<Rightarrow> aligned \<Rightarrow> aligned option" where
  "write_ops [] a = Some a"
| "write_ops (w # ws) a = Option.bind (write_op w a) (write_ops ws)"

lemma write_ops_append: "write_ops (ws @ vs) a = Option.bind (write_ops ws a) (write_ops vs)"
  proof (induction ws arbitrary: a)
  case (Cons w ws)
  then show ?case by (cases "write_op w a") simp_all
qed simp

fun op_size :: "wop \<Rightarrow> nat" where
  "op_size (W8 v) = 1" | "op_size (W16 v) = 2" | "op_size (W32 v) = 4" | "op_size (WZeroes n) = n"
| "op_size (WMemset v n) = n" | "op_size (WText n out) = n" | "op_size (WBuf bs) = length bs"

definition ops_size :: "wop list \<Rightarrow> nat" where
  "ops_size ws = (\<Sum>w\<leftarrow>ws. op_size w)"

lemma ops_size_simps [simp]:
  "ops_size [] = 0" "ops_size (w # ws) = op_size w + ops_size ws" "ops_size (ws @ vs) = ops_size ws + ops_size vs"
  by (simp_all add: ops_size_def)

text \<open>The bytes a write leaves where \<open>old\<close> was before: behind the \<open>NUL\<close> of a text they stay.\<close>

definition text_bytes :: "nat \<Rightarrow> u8 list \<Rightarrow> u8 list" where
  "text_bytes n out = (if n = 0 then [] else take (n - 1) out @ [0])"

fun op_bytes :: "wop \<Rightarrow> u8 list \<Rightarrow> u8 list" where
  "op_bytes (W8 v) old = [v]" | "op_bytes (W16 v) old = le16 v" | "op_bytes (W32 v) old = le32 v"
| "op_bytes (WZeroes n) old = replicate n 0" | "op_bytes (WMemset v n) old = replicate n v"
| "op_bytes (WText n out) old = text_bytes n out @ drop (length (text_bytes n out)) old"
| "op_bytes (WBuf bs) old = bs"

fun ops_bytes :: "wop list \<Rightarrow> u8 list \<Rightarrow> u8 list" where
  "ops_bytes [] old = []"
| "ops_bytes (w # ws) old = op_bytes w (take (op_size w) old) @ ops_bytes ws (drop (op_size w) old)"

lemma text_bytes_le: "length (text_bytes n out) \<le> n"
  by (cases n) (simp_all add: text_bytes_def)

lemma op_bytes_length: "length old = op_size w \<Longrightarrow> length (op_bytes w old) = op_size w"
  using text_bytes_le by (cases w) auto

lemma ops_bytes_length: "length old = ops_size ws \<Longrightarrow> length (ops_bytes ws old) = ops_size ws"
  by (induction ws arbitrary: old) (simp_all add: op_bytes_length)

lemma al_put_overlay:
  assumes "c + n \<le> length (al_buffer a)" "length s \<le> n"
  shows "al_put a c s = al_put a c (s @ drop (length s) (al_get a c n))"
proof -
  let ?xs = "drop c (al_buffer a)"
  have n: "length (take n ?xs) = n" using assms(1) by simp
  have "drop (length s) (take n ?xs @ drop n ?xs) = drop (length s) (take n ?xs) @ drop n ?xs"
    unfolding drop_append n using assms(2) by simp
  then have "drop (length s) ?xs = drop (length s) (take n ?xs) @ drop n ?xs" by (simp only: append_take_drop_id)
  then have "drop (c + length s) (al_buffer a) = drop (length s) (take n ?xs) @ drop (c + n) (al_buffer a)"
    by (simp only: drop_drop add.commute)
  moreover have "length (s @ drop (length s) (take n ?xs)) = n" using n assms(2) by simp
  ultimately show ?thesis unfolding al_put_def al_get_def by (simp only: append_assoc)
qed

lemma write_op_eq:
  assumes "al_ok a" "al_room a (op_size w)"
  shows "write_op w a = Some (al_written a (op_bytes w (al_get a (unat (al_cursor a)) (op_size w))))"
proof -
  note adv = advance_by [OF al_room_no_wrap [OF assms(2)]]
  have u: "unat (of_nat (op_size w) :: u32) = op_size w"
    using al_room_no_wrap [OF assms(2)] by (intro unat_of_nat_small) (simp add: al_no_wrap_def)
  show ?thesis
  proof (cases w)
    case (WText n out)
    let ?a = "a\<lparr>al_cursor := al_cursor a + of_nat n\<rparr>"
    let ?s = "text_bytes n out"
    have r: "unat (al_cursor a) + n \<le> length (al_buffer ?a)" using room_bytes [OF assms] WText by simp
    have len: "length (?s @ drop (length ?s) (al_get ?a (unat (al_cursor a)) n)) = n"
      using r text_bytes_le [of n out] by (simp add: al_get_def)
    have "write_op w a = Some (if n = 0 then ?a else al_put ?a (unat (al_cursor a)) ?s)"
      using adv u assms(2) WText by (auto simp: aligned_write_snprintf_and_advance_by_def text_bytes_def)
    also have "\<dots> = Some (al_put ?a (unat (al_cursor a)) (?s @ drop (length ?s) (al_get ?a (unat (al_cursor a)) n)))"
    proof (cases "n = 0")
      case True
      then show ?thesis by (simp add: text_bytes_def al_put_def al_get_def)
    next
      case False
      then show ?thesis using al_put_overlay [OF r text_bytes_le] by (simp only: if_False)
    qed
    finally show ?thesis using WText len by (simp add: al_written_def al_get_def)
  qed (use assms adv u in \<open>simp_all add: aligned_write_zeroes_def aligned_write_memset_def aligned_write_buffer_def
      al_written_def u8_codec.write_eq u16_codec.write_eq u32_codec.write_eq al_room_no_wrap\<close>)
qed

lemma al_get_take_drop: "al_get a c n = take n (al_get a c (n + m))" "al_get a (c + n) m = drop n (al_get a c (n + m))"
  by (simp_all add: al_get_def min_def drop_take add.commute)

lemma write_ops_eq:
  "al_ok a \<Longrightarrow> al_room a (ops_size ws) \<Longrightarrow>
   write_ops ws a = Some (al_written a (ops_bytes ws (al_get a (unat (al_cursor a)) (ops_size ws))))"
proof (induction ws arbitrary: a)
  case (Cons w ws)
  let ?c = "unat (al_cursor a)"
  let ?b = "op_bytes w (al_get a ?c (op_size w))"
  have r: "al_room a (op_size w)" using Cons.prems(2) by (simp add: al_room_def)
  have lb: "length ?b = op_size w" using room_bytes [OF Cons.prems(1) r] by (intro op_bytes_length) (simp add: al_get_def)
  have r': "al_room a (length ?b)" using r lb by simp
  note w = al_written_simps [OF Cons.prems(1) r']
  have room: "al_room (al_written a ?b) (ops_size ws)" using Cons.prems(2) w(2,3) lb by (simp add: al_room_def)
  have c: "unat (al_cursor (al_written a ?b)) = ?c + op_size w" using w(2) lb by simp
  have g: "al_get (al_written a ?b) (?c + op_size w) (ops_size ws) = al_get a (?c + op_size w) (ops_size ws)"
    using room_bytes [OF Cons.prems(1) r] lb by (simp add: al_get_def al_written_def al_put_def)
  have "write_ops ws (al_written a ?b) =
      Some (al_written (al_written a ?b) (ops_bytes ws (al_get a (?c + op_size w) (ops_size ws))))"
    using Cons.IH [OF w(1) room] unfolding c g .
  moreover have "al_written (al_written a ?b) (ops_bytes ws (al_get a (?c + op_size w) (ops_size ws))) =
      al_written a (?b @ ops_bytes ws (al_get a (?c + op_size w) (ops_size ws)))"
    using Cons.prems lb room_bytes [OF Cons.prems]
    by (intro al_written_append) (simp_all add: ops_bytes_length al_get_def)
  ultimately show ?case using write_op_eq [OF Cons.prems(1) r]
    by (simp add: al_get_take_drop(1) [of a ?c "op_size w" "ops_size ws"]
        al_get_take_drop(2) [of a ?c "op_size w" "ops_size ws"])
qed simp

section \<open>Filling a packet\<close>

text \<open>\<open>None\<close> is a failed assertion, \<open>Some None\<close> a \<open>NULL\<close> packet.\<close>

definition packet_write :: "u8 list option \<Rightarrow> u16 \<Rightarrow> u32 \<Rightarrow> wop list \<Rightarrow> tlg_packet option option" where
  "packet_write block opcode sz ws =
     (case packet_create block opcode sz of
        None \<Rightarrow> Some None
      | Some p \<Rightarrow>
          let data = take (unat sz) (drop TLG_PACKET_DATA_OFFSET (pk_data p))
          in map_option (\<lambda>a. Some (packet_fill p (al_buffer a)))
               (write_ops ws (aligned_init data (packet_length p))))"

text \<open>A block of memory is large enough for the packet.\<close>

definition block_ok :: "nat \<Rightarrow> u8 list \<Rightarrow> bool" where
  "block_ok sz block \<longleftrightarrow> length block \<ge> fst (packet_calc_length_and_frag_count sz) - sizeof_TlgPacket"

definition block_data :: "nat \<Rightarrow> u8 list \<Rightarrow> u8 list" where
  "block_data sz block = take sz (drop TLG_PACKET_DATA_OFFSET block)"

lemma packet_write_eq:
  assumes "block_ok sz block" "ops_size ws = sz" "sz < 2 ^ 25"
  shows "packet_write (Some block) opcode (of_nat sz) ws =
    Some (filled_packet opcode (ops_bytes ws (block_data sz block)) block)"
proof -
  let ?d = "block_data sz block" and ?n = "frag_count sz"
  have L: "unat (of_nat sz :: u32) = sz" using assms(3) by (intro unat_of_nat_small) simp
  let ?p = "\<lparr>pk_opcode = opcode, pk_fragCount = of_nat ?n, pk_isFragmentized = False, pk_dataLength = of_nat sz,
    pk_refCount = 0, pk_data = take (22 * (?n + 1) + sz) block\<rparr>"
  have p: "packet_create (Some block) opcode (of_nat sz) = Some ?p"
    by (simp add: packet_create_def packet_calc_eq L add.assoc)
  have d: "take sz (drop TLG_PACKET_DATA_OFFSET (pk_data ?p)) = ?d" and ld: "length ?d = sz"
    using assms(1) by (auto simp: block_data_def block_ok_def packet_calc_eq packet_sizes drop_take)
  have lb: "length (ops_bytes ws ?d) = sz" using ops_bytes_length [of ?d ws] ld assms(2) by simp
  let ?a = "aligned_init ?d (of_nat sz)"
  have a: "al_ok ?a" "al_room ?a (ops_size ws)" "al_get ?a (unat (al_cursor ?a)) (ops_size ws) = ?d"
    using assms(2) ld L by (simp_all add: al_ok_def al_room_def aligned_init_def al_get_def)
  have "al_buffer (al_written ?a (ops_bytes ws ?d)) = ops_bytes ws ?d"
    using ld lb by (simp add: al_written_def al_put_def aligned_init_def)
  then have "packet_write (Some block) opcode (of_nat sz) ws = Some (Some (packet_fill ?p (ops_bytes ws ?d)))"
    unfolding packet_write_def p option.case Let_def L d using write_ops_eq [OF a(1,2)] a(3)
    by (simp add: packet_length_def)
  then show ?thesis by (simp add: filled_packet_def lb p)
qed

end
