(* ===== verification/Zeq_PacketStruct.thy ===== *)
theory Zeq_PacketStruct
  imports Zeq_PacketWrite
begin

text \<open>
  \<open>src/packet_struct.h\<close> and \<open>src/player_profile_packet_struct.h\<close>: the packed structs whose bytes the
  packets consist of. A struct is the list of its fields with their sizes in bytes; a struct of bit
  fields that fill 32 bits is one field, \<open>deltas\<close>. The packet code writes through a byte cursor
  and not through the structs, with the name of the field as a comment before each group of writes.
\<close>

type_synonym pstruct = "(string \<times> nat) list"

section \<open>The structs\<close>

definition PS_ZoneEntry :: pstruct where
  "PS_ZoneEntry =
    [(''crc'', 4), (''unknownA'', 1), (''name'', 30), (''zoneShortName'', 20), (''unknownB'', 1), (''y'', 4),
     (''x'', 4), (''z'', 4), (''heading'', 4), (''unknownC'', 76), (''guildId'', 2), (''unknownD'', 7),
     (''classId'', 1), (''raceId'', 2), (''genderId'', 1), (''level'', 1), (''unknownE'', 2), (''isPvP'', 1),
     (''unknownF'', 2), (''faceId'', 1), (''helmTextureId'', 1), (''unknownG'', 6),
     (''secondaryWeaponModelId'', 1), (''primaryWeaponModelId'', 1), (''unknownH'', 3), (''helmColor'', 4),
     (''unknownI'', 32), (''textureId'', 1), (''unknownJ'', 19), (''walkingSpeed'', 4),
     (''runningSpeed'', 4), (''unknownK'', 12), (''anon'', 1), (''unknownL'', 23), (''surname'', 20),
     (''unknownM'', 2), (''deityId'', 2), (''unknownN'', 8)]"

definition PS_Weather :: pstruct where
  "PS_Weather =
    [(''type'', 4), (''intensity'', 4)]"

definition PS_ZoneInfo :: pstruct where
  "PS_ZoneInfo =
    [(''characterName'', 30), (''zoneShortName'', 20), (''zoneLongName'', 180), (''zoneType'', 1),
     (''fogRed'', 4), (''fogGreen'', 4), (''fogBlue'', 4), (''unknownA'', 1),
     (''fogMinClippingDistance'', 4 * 4), (''fogMaxClippingDistance'', 4 * 4), (''gravity'', 4),
     (''unknownB'', 50), (''skyType'', 2), (''unknownC'', 8), (''unknownD'', 4), (''safeSpotX'', 4),
     (''safeSpotY'', 4), (''safeSpotZ'', 4), (''safeSpotHeading'', 4), (''minZ'', 4),
     (''minClippingDistance'', 4), (''maxClippingDistance'', 4), (''unknownE'', 32)]"

definition PS_SpawnAppearance :: pstruct where
  "PS_SpawnAppearance =
    [(''entityId'', 4), (''typeId'', 2), (''unknown'', 2), (''value'', 4)]"

definition PS_Spawn :: pstruct where
  "PS_Spawn =
    [(''unknownA'', 4), (''size'', 4), (''walkingSpeed'', 4), (''runningSpeed'', 4), (''tints'', 7 * 4),
     (''unknownB'', 9), (''heading'', 1), (''headingDelta'', 1), (''y'', 2), (''x'', 2), (''z'', 2),
     (''deltas'', 4), (''unknownC'', 1), (''entityId'', 2), (''bodyType'', 2), (''ownerEntityId'', 2),
     (''hpPercent'', 2), (''guildId'', 2), (''raceId'', 1), (''mobType'', 1), (''classId'', 1),
     (''genderId'', 1), (''level'', 1), (''isInvisible'', 1), (''unknownD'', 1), (''isPvP'', 1),
     (''uprightState'', 1), (''lightLevel'', 1), (''anon'', 1), (''isAfk'', 1), (''unknownE'', 1),
     (''isLinkdead'', 1), (''isGM'', 1), (''unknownF'', 1), (''textureId'', 1), (''helmTextureId'', 1),
     (''unknownG'', 1), (''materialIds'', 9), (''name'', 30), (''surname'', 20), (''guildRank'', 1),
     (''unknownH'', 1), (''deityId'', 2), (''unknownI'', 10)]"

definition PS_Unspawn :: pstruct where
  "PS_Unspawn =
    [(''entityId'', 2), (''unknown'', 4)]"

text \<open>The members of the unions are alternatives; the container has its own.\<close>

definition PS_ItemStats :: pstruct where
  "PS_ItemStats =
    [(''STR'', 1), (''STA'', 1), (''CHA'', 1), (''DEX'', 1), (''INT'', 1), (''AGI'', 1), (''WIS'', 1),
     (''MR'', 1), (''FR'', 1), (''CR'', 1), (''DR'', 1), (''PR'', 1), (''hp'', 1), (''mana'', 1),
     (''AC'', 1), (''isStackable'', 1), (''isTestItem'', 1), (''light'', 1), (''delay'', 1), (''damage'', 1),
     (''clickyType'', 1), (''range'', 1), (''skill'', 1), (''isMagic'', 1), (''clickableLevel'', 1),
     (''materialId'', 1), (''unknownA'', 2), (''tint'', 4), (''unknownB'', 2), (''spellId'', 2),
     (''classesBitfield'', 4), (''racesBitfield'', 4), (''consumableType'', 1), (''hastePercent'', 1),
     (''charges'', 1), (''effectType'', 1), (''clickySpellId'', 2), (''unknownC'', 10), (''castingTime'', 4),
     (''unknownD'', 28), (''recommendedLevel'', 1), (''unknownE'', 23), (''deityBitfield'', 4)]"

definition PS_ItemStats_bag :: pstruct where
  "PS_ItemStats_bag =
    [(''STR'', 1), (''STA'', 1), (''CHA'', 1), (''DEX'', 1), (''INT'', 1), (''AGI'', 1), (''WIS'', 1),
     (''MR'', 1), (''FR'', 1), (''CR'', 1), (''DR'', 1), (''PR'', 1), (''hp'', 1), (''mana'', 1),
     (''AC'', 1), (''isStackable'', 1), (''isTestItem'', 1), (''light'', 1), (''delay'', 1), (''damage'', 1),
     (''clickyType'', 1), (''range'', 1), (''skill'', 1), (''isMagic'', 1), (''clickableLevel'', 1),
     (''materialId'', 1), (''unknownA'', 2), (''tint'', 4), (''unknownB'', 2), (''spellId'', 2),
     (''classesBitfield'', 4), (''type'', 1), (''capacity'', 1), (''isOpen'', 1), (''containableSize'', 1),
     (''weightReductionPercent'', 1), (''hastePercent'', 1), (''charges'', 1), (''effectType'', 1),
     (''clickySpellId'', 2), (''unknownC'', 10), (''castingTime'', 4), (''unknownD'', 28),
     (''recommendedLevel'', 1), (''unknownE'', 23), (''deityBitfield'', 4)]"

definition PS_ItemBook :: pstruct where
  "PS_ItemBook =
    [(''isBook'', 1), (''type'', 2), (''fileName'', 15), (''unknownA'', 102)]"

definition PS_Item_common :: pstruct where
  "PS_Item_common =
    [(''name'', 35), (''lore'', 60), (''model'', 6), (''typeFlag'', 2), (''unknownA'', 22), (''weight'', 1),
     (''isPermanent'', 1), (''isDroppable'', 1), (''size'', 1), (''itemType'', 1), (''itemId'', 2),
     (''icon'', 2), (''currentSlot'', 2), (''slotsBitfield'', 4), (''cost'', 4), (''unknownB'', 16),
     (''instanceId'', 4), (''isDroppableRoleplayServer'', 1), (''unknownC'', 7)]"

definition PS_CustomMessage :: pstruct where
  "PS_CustomMessage =
    [(''chatChannel'', 4), (''message'', 0)]"

definition PS_Message :: pstruct where
  "PS_Message =
    [(''targetName'', 32), (''senderName'', 32), (''languageId'', 2), (''chatChannel'', 2), (''unknown'', 2),
     (''message'', 0)]"

definition PS_SpellCastBegin :: pstruct where
  "PS_SpellCastBegin =
    [(''casterId'', 4), (''spellId'', 4), (''castTimeMs'', 4)]"

definition PS_SpellCastFinish :: pstruct where
  "PS_SpellCastFinish =
    [(''targetId'', 4), (''casterId'', 4), (''casterLevel'', 1), (''unknownA'', 1), (''unknownAlways65'', 1),
     (''unknownB'', 1), (''instrumentMod'', 1), (''unknownsAlwaysZero'', 7), (''heading'', 4),
     (''unknownC'', 4), (''unknownAlways231'', 4), (''spellId'', 2), (''unknownD'', 1), (''type'', 1)]"

definition PS_HpUpdate :: pstruct where
  "PS_HpUpdate =
    [(''entityId'', 4), (''curHp'', 4), (''maxHp'', 4)]"

definition PS_ManaUpdate :: pstruct where
  "PS_ManaUpdate =
    [(''mana'', 2), (''lastSpellId'', 2)]"

definition PS_LevelUpdate :: pstruct where
  "PS_LevelUpdate =
    [(''level'', 1), (''flagAlwaysOne'', 1)]"

definition PS_ExpUpdate :: pstruct where
  "PS_ExpUpdate =
    [(''currentExp'', 4)]"

definition PS_AppearanceUpdate :: pstruct where
  "PS_AppearanceUpdate =
    [(''name'', 30), (''target'', 16), (''unknownA'', 2), (''unknownAlways24'', 2), (''unknownB'', 12),
     (''raceId'', 2), (''genderId'', 2), (''textureId'', 2), (''helmTextureId'', 2), (''faceId'', 2)]"

definition PS_MaterialUpdate :: pstruct where
  "PS_MaterialUpdate =
    [(''spawnId'', 4), (''slotId'', 1), (''materialId'', 1), (''operationId'', 2), (''color'', 4),
     (''unknownA'', 1), (''flag'', 1), (''unknownB'', 2)]"

definition PS_Animation :: pstruct where
  "PS_Animation =
    [(''entityId'', 4), (''animId'', 4), (''unknown'', 4)]"

definition PS_Target :: pstruct where
  "PS_Target =
    [(''entityId'', 4)]"

definition PS_PositionUpdate :: pstruct where
  "PS_PositionUpdate =
    [(''entityId'', 2), (''forwardVelocity'', 1), (''heading'', 1), (''deltaHeading'', 1), (''y'', 2),
     (''x'', 2), (''z'', 2), (''deltas'', 4)]"

definition PP_FIELDS :: pstruct where
  "PP_FIELDS =
    [(''name'', 30), (''surname'', 20), (''genderId'', 2), (''raceId'', 2), (''classId'', 2), (''level'', 4),
     (''experience'', 4), (''trainingPoints'', 2), (''currentMana'', 2), (''face'', 1), (''unknownA'', 47),
     (''currentHp'', 2), (''unknownB'', 1), (''STR'', 1), (''STA'', 1), (''CHA'', 1), (''DEX'', 1),
     (''INT'', 1), (''AGI'', 1), (''WIS'', 1), (''languages'', 24), (''unknownC'', 14),
     (''mainInventoryItemIds'', 30 * 2), (''mainInventoryInternalUnused'', 30 * 4),
     (''mainInventoryItemProperties'', 30 * 10), (''buffs'', 15 * 10), (''baggedItemIds'', 90 * 2),
     (''baggedItemProperties'', 90 * 10), (''spellbook'', 256 * 2), (''memmedSpellIds'', 8 * 2),
     (''unknownD'', 2), (''y'', 4), (''x'', 4), (''z'', 4), (''heading'', 4), (''zoneShortName'', 32),
     (''unknownEDefault100'', 4), (''coins'', 16), (''coinsBank'', 16), (''coinsCursor'', 16),
     (''skills'', 74), (''unknownF'', 162), (''autoSplit'', 4), (''pvpEnabled'', 4), (''unknownG'', 12),
     (''isGM'', 4), (''unknownH'', 20), (''disciplinesReady'', 4), (''unknownI'', 20), (''hunger'', 4),
     (''thirst'', 4), (''unknownJ'', 24), (''bindZoneShortName'', 5 * 20 * 1),
     (''bankInventoryItemProperties'', 8 * 10), (''bankBaggedItemProperties'', 80 * 10), (''unknownK'', 4),
     (''unknownL'', 4), (''bindLocY'', 5 * 4), (''bindLocX'', 5 * 4), (''bindLocZ'', 5 * 4),
     (''bindLocHeading'', 5 * 4), (''bankInventoryInternalUnused'', 8 * 4), (''unknownM'', 12),
     (''unixTimeA'', 4), (''unknownN'', 8), (''unknownODefault1'', 4), (''unknownP'', 8),
     (''bankInventoryItemIds'', 8 * 2), (''bankBaggedItemIds'', 80 * 2), (''deity'', 2), (''guildId'', 2),
     (''unixTimeB'', 4), (''unknownQ'', 4), (''unknownRDefault7f7f'', 2), (''fatiguePercent'', 1),
     (''unknownS'', 1), (''unknownTDefault1'', 1), (''anon'', 2), (''guildRank'', 1), (''drunkeness'', 1),
     (''showEqLoadScreen'', 1), (''unknownU'', 2), (''spellGemRefreshMilliseconds'', 8 * 4),
     (''unknownV'', 4), (''harmtouchRefreshMilliseconds'', 4), (''groupMember'', 5 * 48), (''unknownW'', 3644)]"

section \<open>Fields and their offsets\<close>

definition struct_size :: "pstruct \<Rightarrow> nat" where
  "struct_size s = sum_list (map snd s)"

lemma struct_size_simps [simp]:
  "struct_size [] = 0" "struct_size (f # s) = snd f + struct_size s" "struct_size (s @ t) = struct_size s + struct_size t"
  by (simp_all add: struct_size_def)

text \<open>\<open>sizeof_field\<close>, and the bytes of a field in the memory of a struct.\<close>

fun sizeof_field :: "pstruct \<Rightarrow> string \<Rightarrow> nat" where
  "sizeof_field [] f = 0"
| "sizeof_field ((g, n) # s) f = (if f = g then n else sizeof_field s f)"

fun struct_get :: "pstruct \<Rightarrow> string \<Rightarrow> u8 list \<Rightarrow> u8 list" where
  "struct_get [] f bs = []"
| "struct_get ((g, n) # s) f bs = (if f = g then take n bs else struct_get s f (drop n bs))"

text \<open>The writes of a packet, grouped as the comments in the code group them: each group belongs to one
  field, or to several consecutive ones that are written at once.\<close>

type_synonym field_writes = "(string list \<times> wop list) list"

definition field_ops :: "field_writes \<Rightarrow> wop list" where
  "field_ops fw = concat (map snd fw)"

lemma field_ops_simps [simp]:
  "field_ops [] = []" "field_ops (g # fw) = snd g @ field_ops fw" "field_ops (fw @ fw') = field_ops fw @ field_ops fw'"
  by (simp_all add: field_ops_def)

text \<open>Every group is as long as its fields, and they are the fields of the struct in their order.\<close>

fun fits :: "field_writes \<Rightarrow> pstruct \<Rightarrow> bool" where
  "fits [] s \<longleftrightarrow> s = []"
| "fits ((fs, ws) # fw) s \<longleftrightarrow> map fst (take (length fs) s) = fs
     \<and> ops_size ws = struct_size (take (length fs) s) \<and> fits fw (drop (length fs) s)"

lemma fits_size: "fits fw s \<Longrightarrow> ops_size (field_ops fw) = struct_size s"
proof (induction fw s rule: fits.induct)
  case (2 fs ws fw s)
  have "struct_size (take (length fs) s @ drop (length fs) s) = ops_size ws + ops_size (field_ops fw)"
    unfolding struct_size_simps(3) using 2 by simp
  then show ?case by simp
qed simp

lemma fits_append: "fits fw s \<Longrightarrow> fits fw' s' \<Longrightarrow> fits (fw @ fw') (s @ s')"
proof (induction fw s rule: fits.induct)
  case (2 fs ws fw s)
  then have "length (take (length fs) s) = length fs" by (metis fits.simps(2) length_map)
  then show ?case using 2 by simp
qed simp

lemma ops_bytes_append:
  "ops_bytes (ws @ vs) old = ops_bytes ws (take (ops_size ws) old) @ ops_bytes vs (drop (ops_size ws) old)"
  by (induction ws arbitrary: old) (simp_all add: drop_take min_def add.commute)

lemma struct_get_append:
  "f \<notin> fst ` set s \<Longrightarrow> struct_get (s @ t) f bs = struct_get t f (drop (struct_size s) bs)"
  by (induction s arbitrary: bs) (auto simp: add.commute)

lemma struct_get_skip:
  assumes "f \<notin> set (map fst (take k s))"
  shows "struct_get s f bs = struct_get (drop k s) f (drop (struct_size (take k s)) bs)"
  using struct_get_append [of f "take k s" "drop k s" bs] assms by simp

lemma fits_fields: "fits fw s \<Longrightarrow> (fs, ws) \<in> set fw \<Longrightarrow> set fs \<subseteq> set (map fst s)"
proof (induction fw s rule: fits.induct)
  case (2 gs vs fw s)
  have sub: "set (map fst (take k s)) \<subseteq> set (map fst s)" "set (map fst (drop k s)) \<subseteq> set (map fst s)" for k
    by (auto dest: in_set_takeD in_set_dropD)
  show ?case
  proof (cases "(fs, ws) = (gs, vs)")
    case True
    then have "fs = map fst (take (length gs) s)" using "2.prems"(1) by simp
    then show ?thesis using sub(1) by blast
  next
    case False
    then show ?thesis using 2 sub(2) by (metis fits.simps(2) set_ConsD subset_trans)
  qed
qed simp

text \<open>The bytes of a field are those of its own writes, whatever else is written.\<close>

lemma fits_field:
  assumes "fits fw s" "distinct (map fst s)" "([f], ws) \<in> set fw" "length old = struct_size s"
  shows "struct_get s f (ops_bytes (field_ops fw) old) = ops_bytes ws (struct_get s f old)"
  using assms
proof (induction fw s arbitrary: old rule: fits.induct)
  case (2 fs vs fw s)
  let ?s = "take (length fs) s" and ?t = "drop (length fs) s"
  have sz: "struct_size s = struct_size ?s + struct_size ?t"
    by (metis append_take_drop_id struct_size_simps(3))
  have vs: "ops_size vs = struct_size ?s" using "2.prems"(1) by simp
  have b: "ops_bytes (field_ops ((fs, vs) # fw)) old =
      ops_bytes vs (take (ops_size vs) old) @ ops_bytes (field_ops fw) (drop (ops_size vs) old)"
    by (simp add: ops_bytes_append)
  have l: "length (ops_bytes vs (take (ops_size vs) old)) = ops_size vs"
    using "2.prems"(4) sz vs by (intro ops_bytes_length) simp
  show ?case
  proof (cases "([f], ws) = (fs, vs)")
    case True
    then obtain n u where s: "s = (f, n) # u" using "2.prems"(1) by (cases s) auto
    have n: "ops_size ws = n" using vs True s by auto
    have v: "vs = ws" using True by simp
    show ?thesis unfolding b s using l n unfolding v by simp
  next
    case False
    then have i: "([f], ws) \<in> set fw" using "2.prems"(3) by auto
    have "fits fw ?t" using "2.prems"(1) by simp
    then have f: "f \<in> set (map fst ?t)" using fits_fields [OF _ i, of ?t] by simp
    have "distinct (map fst ?s @ map fst ?t)" using "2.prems"(2) by (metis append_take_drop_id map_append)
    then have nf: "f \<notin> set (map fst ?s)" using f by auto
    have d: "distinct (map fst ?t)" using \<open>distinct (map fst ?s @ map fst ?t)\<close> by simp
    have len: "length (drop (ops_size vs) old) = struct_size ?t" using "2.prems"(4) sz vs by simp
    have fit: "fits fw ?t" using "2.prems"(1) by simp
    have "struct_get s f (ops_bytes (field_ops ((fs, vs) # fw)) old) =
        struct_get ?t f (ops_bytes (field_ops fw) (drop (ops_size vs) old))"
      unfolding struct_get_skip [OF nf] b using l vs by simp
    also have "\<dots> = ops_bytes ws (struct_get ?t f (drop (ops_size vs) old))"
      by (rule "2.IH" [OF fit d i len])
    also have "\<dots> = ops_bytes ws (struct_get s f old)" unfolding struct_get_skip [OF nf] vs ..
    finally show ?thesis .
  qed
qed simp

section \<open>A packet from a struct\<close>

text \<open>\<open>packet_init_type\<close> and the writes.\<close>

definition packet_write_struct :: "u8 list option \<Rightarrow> u16 \<Rightarrow> pstruct \<Rightarrow> field_writes \<Rightarrow> tlg_packet option option" where
  "packet_write_struct block opcode s fw = packet_write block opcode (of_nat (struct_size s)) (field_ops fw)"

lemma packet_write_struct_eq:
  assumes "block_ok (struct_size s) block" "fits fw s" "struct_size s < 2 ^ 25"
  shows "packet_write_struct (Some block) opcode s fw =
    Some (filled_packet opcode (ops_bytes (field_ops fw) (block_data (struct_size s) block)) block)"
  unfolding packet_write_struct_def using packet_write_eq [OF assms(1) fits_size [OF assms(2)] assms(3)] .

lemma block_data_length: "block_ok sz block \<Longrightarrow> length (block_data sz block) = sz"
  by (auto simp: block_data_def block_ok_def packet_calc_eq packet_sizes)

end
