(* ===== verification/Zeq_Client.thy ===== *)
theory Zeq_Client
  imports Zeq_Mob Zeq_Inventory Zeq_Skills
begin

text \<open>
  \<open>src/client.c\<close>: the character of a player. Its first member is the mob it is for the zone, so
  \<open>mob_as_client\<close> and \<open>client_mob\<close> are both the whole object. The bit fields are \<open>bool\<close>s.
\<close>

section \<open>State\<close>

record bind_point =
  bp_zoneId :: u32
  bp_loc :: loc_h

record client =
  cn_mob :: mob
  cn_surname :: u64
  cn_characterId :: u64
  cn_accountId :: u64
  cn_ipAddr :: "u32 \<times> u16"
  cn_isLocal :: bool
  cn_isAutoSplitEnabled :: bool
  cn_isPvP :: bool
  cn_isGM :: bool
  cn_isAfk :: bool
  cn_isLinkdead :: bool
  cn_isSneaking :: bool
  cn_isHiding :: bool
  cn_isGMSpeed :: bool
  cn_isGMHide :: bool
  cn_experience :: u64
  cn_harmtouchTimestamp :: u64
  cn_disciplineTimestamp :: u64
  cn_creationTimestamp :: u64
  cn_trainingPoints :: u16
  cn_hunger :: u16
  cn_thirst :: u16
  cn_drunkeness :: u16
  cn_weight :: u32
  cn_guildId :: u32
  cn_zoneInCount :: u32
  cn_hpFromItems :: int
  cn_coin :: coin
  cn_coinCursor :: coin
  cn_coinBank :: coin
  cn_anon :: u8
  cn_guildRank :: u8
  cn_inventory :: inventory
  cn_skills :: skills
  cn_spellbook :: spellbook
  cn_bindPoint :: "bind_point list"
  cn_timerCamp :: u64

definition SKILL_Defense :: int where "SKILL_Defense = 15"
definition INT16_MAX :: int where "INT16_MAX = 32767"

text \<open>Memory filled with zeroes by \<open>memset\<close>.\<close>

definition zero_loc :: loc_h where
  "zero_loc = \<lparr>lh_x = 0, lh_y = 0, lh_z = 0, lh_heading = 0\<rparr>"

definition zero_coin :: coin where
  "zero_coin = \<lparr>coin_pp = 0, coin_gp = 0, coin_sp = 0, coin_cp = 0\<rparr>"

definition zero_stats :: core_stats where
  "zero_stats = \<lparr>st_maxHp = 0, st_maxMana = 0, st_maxEndurance = 0, st_STR = 0, st_STA = 0, st_DEX = 0, st_AGI = 0,
     st_INT = 0, st_WIS = 0, st_CHA = 0, st_svMagic = 0, st_svFire = 0, st_svCold = 0, st_svPoison = 0, st_svDisease = 0\<rparr>"

definition zero_mob :: mob where
  "zero_mob = \<lparr>mb_parentType = 0, mb_level = 0, mb_classId = 0, mb_baseGenderId = 0, mb_genderId = 0, mb_faceId = 0,
     mb_baseRaceId = 0, mb_raceId = 0, mb_deityId = 0, mb_entityId = 0, mb_zoneIndex = 0, mb_luaIndex = 0,
     mb_loc = zero_loc, mb_headingRaw = 0, mb_name = 0, mb_target = 0, mb_currentHp = 0, mb_currentMana = 0,
     mb_currentEndurance = 0, mb_ac = 0, mb_acFromAGI = 0, mb_acFromBonus = 0, mb_acFromSkill = 0,
     mb_acFromSkill2 = 0, mb_acFromItems = 0, mb_acFromBuffs = 0, mb_cappedStats = zero_stats,
     mb_baseStats = zero_stats, mb_totalStats = zero_stats, mb_currentWalkingSpeed = 0, mb_currentRunningSpeed = 0,
     mb_baseWalkingSpeed = 0, mb_baseRunningSpeed = 0, mb_currentSize = 0, mb_baseSize = 0, mb_textureId = 0,
     mb_helmTextureId = 0, mb_primaryWeaponModelId = 0, mb_secondaryWeaponModelId = 0, mb_uprightState = 0,
     mb_lightLevel = 0, mb_bodyType = 0, mb_materialId = replicate 7 0, mb_tint = replicate 7 0,
     mb_ownerEntityId = 0, mb_zone = 0\<rparr>"

definition zero_inventory :: inventory where
  "zero_inventory = \<lparr>inv_primaryIndex = 0, inv_secondaryIndex = 0, inv_rangeIndex = 0, inv_ammoIndex = 0,
     inv_slotCount = 0, inv_cursorCount = 0, inv_idMapCount = 0, inv_loreItemIdCount = 0, inv_cursor = no_slot,
     inv_slots = [], inv_cursorQueue = [], inv_idMap = [], inv_loreItemIds = []\<rparr>"

definition zero_spellbook :: spellbook where
  "zero_spellbook = \<lparr>sb_memmed = replicate MEMMED_SPELL_SLOTS \<lparr>mm_spellId = 0, mm_castingTimeMs = 0, mm_recastTimestamp = 0\<rparr>,
     sb_count = 0, sb_knownSpells = []\<rparr>"

definition zero_client :: client where
  "zero_client = \<lparr>cn_mob = zero_mob, cn_surname = 0, cn_characterId = 0, cn_accountId = 0, cn_ipAddr = (0, 0),
     cn_isLocal = False, cn_isAutoSplitEnabled = False, cn_isPvP = False, cn_isGM = False, cn_isAfk = False,
     cn_isLinkdead = False, cn_isSneaking = False, cn_isHiding = False, cn_isGMSpeed = False, cn_isGMHide = False,
     cn_experience = 0, cn_harmtouchTimestamp = 0, cn_disciplineTimestamp = 0, cn_creationTimestamp = 0,
     cn_trainingPoints = 0, cn_hunger = 0, cn_thirst = 0, cn_drunkeness = 0, cn_weight = 0, cn_guildId = 0,
     cn_zoneInCount = 0, cn_hpFromItems = 0, cn_coin = zero_coin, cn_coinCursor = zero_coin, cn_coinBank = zero_coin,
     cn_anon = 0, cn_guildRank = 0, cn_inventory = zero_inventory,
     cn_skills = \<lparr>sk_skill = replicate SKILL_COUNT 0, sk_language = replicate LANG_COUNT 0\<rparr>,
     cn_spellbook = zero_spellbook, cn_bindPoint = replicate 5 \<lparr>bp_zoneId = 0, bp_loc = zero_loc\<rparr>, cn_timerCamp = 0\<rparr>"

section \<open>Creation and destruction\<close>

text \<open>\<open>alloc\<close> says whether \<open>malloc\<close> has room.\<close>

definition client_create_unloaded ::
    "bool \<Rightarrow> sheap \<Rightarrow> u64 \<Rightarrow> u64 \<Rightarrow> u32 \<times> u16 \<Rightarrow> bool \<Rightarrow> sheap \<times> client option" where
  "client_create_unloaded alloc h name accountId ipAddr isLocal =
     (if \<not> alloc then (h, None)
      else let client = zero_client;
               (h, mob) = mob_init_client_unloaded h (cn_mob client) name
           in (h, Some (client\<lparr>cn_mob := mob, cn_surname := 0, cn_characterId := - 1, cn_accountId := accountId,
                cn_ipAddr := ipAddr, cn_isLocal := isLocal\<rparr>)))"

text \<open>The object itself is not freed: it stays, and the caller gets \<open>NULL\<close>.\<close>

definition client_destroy_no_zone :: "sheap \<Rightarrow> client \<Rightarrow> sheap \<times> client" where
  "client_destroy_no_zone h client =
     (let (h, mob) = mob_deinit h (cn_mob client)
      in (sbuf_drop h (cn_surname client),
          client\<lparr>cn_mob := mob, cn_inventory := inv_deinit (cn_inventory client),
            cn_spellbook := spellbook_deinit (cn_spellbook client), cn_surname := 0\<rparr>))"

definition client_load_character_data :: "client \<Rightarrow> client_load_data \<Rightarrow> client" where
  "client_load_character_data client data =
     (let client = client\<lparr>cn_mob := mob_init_client_character (cn_mob client) data,
            cn_characterId := cl_charId data, cn_surname := cl_surname data,
            cn_isAutoSplitEnabled := cl_autoSplit data, cn_isPvP := cl_isPvP data, cn_isGM := cl_isGM data,
            cn_isAfk := False, cn_isLinkdead := False, cn_isSneaking := False, cn_isHiding := False,
            cn_isGMSpeed := cl_isGMSpeed data, cn_isGMHide := cl_isGMHide data, cn_experience := cl_experience data,
            cn_harmtouchTimestamp := cl_harmtouchTimestamp data, cn_disciplineTimestamp := cl_disciplineTimestamp data,
            cn_creationTimestamp := cl_creationTimestamp data, cn_trainingPoints := cl_trainingPoints data,
            cn_hunger := cl_hunger data, cn_thirst := cl_thirst data, cn_drunkeness := cl_drunkeness data,
            cn_guildId := cl_guildId data, cn_coin := cl_coin data, cn_coinCursor := cl_coinCursor data,
            cn_coinBank := cl_coinBank data, cn_anon := cl_anon data, cn_guildRank := cl_guildRank data\<rparr>
      in client\<lparr>cn_inventory := inv_init (cn_inventory client),
           cn_skills := skills_init (mb_classId (cn_mob client)) (mb_baseRaceId (cn_mob client))\<rparr>)"

section \<open>Accessors\<close>

definition client_character_id :: "client \<Rightarrow> u64" where "client_character_id client = cn_characterId client"
definition client_mob :: "client \<Rightarrow> mob" where "client_mob client = cn_mob client"
definition client_surname :: "client \<Rightarrow> u64" where "client_surname client = cn_surname client"
definition client_experience :: "client \<Rightarrow> u64" where "client_experience client = cn_experience client"
definition client_training_points :: "client \<Rightarrow> u16" where "client_training_points client = cn_trainingPoints client"
definition client_coin :: "client \<Rightarrow> coin" where "client_coin client = cn_coin client"
definition client_coin_bank :: "client \<Rightarrow> coin" where "client_coin_bank client = cn_coinBank client"
definition client_coin_cursor :: "client \<Rightarrow> coin" where "client_coin_cursor client = cn_coinCursor client"
definition client_guild_id :: "client \<Rightarrow> u32" where "client_guild_id client = cn_guildId client"
definition client_guild_rank :: "client \<Rightarrow> u8" where "client_guild_rank client = cn_guildRank client"
definition client_anon_setting :: "client \<Rightarrow> u8" where "client_anon_setting client = cn_anon client"
definition client_hp_from_items :: "client \<Rightarrow> int" where "client_hp_from_items client = cn_hpFromItems client"
definition client_inv :: "client \<Rightarrow> inventory" where "client_inv client = cn_inventory client"
definition client_skills :: "client \<Rightarrow> skills" where "client_skills client = cn_skills client"
definition client_spellbook :: "client \<Rightarrow> spellbook" where "client_spellbook client = cn_spellbook client"
definition client_is_local :: "client \<Rightarrow> bool" where "client_is_local client = cn_isLocal client"
definition client_ip_addr :: "client \<Rightarrow> u32 \<times> u16" where "client_ip_addr client = cn_ipAddr client"
definition client_is_auto_split_enabled :: "client \<Rightarrow> bool" where "client_is_auto_split_enabled client = cn_isAutoSplitEnabled client"
definition client_is_pvp :: "client \<Rightarrow> bool" where "client_is_pvp client = cn_isPvP client"
definition client_is_gm :: "client \<Rightarrow> bool" where "client_is_gm client = cn_isGM client"
definition client_is_afk :: "client \<Rightarrow> bool" where "client_is_afk client = cn_isAfk client"
definition client_is_linkdead :: "client \<Rightarrow> bool" where "client_is_linkdead client = cn_isLinkdead client"
definition client_is_sneaking :: "client \<Rightarrow> bool" where "client_is_sneaking client = cn_isSneaking client"
definition client_is_hiding :: "client \<Rightarrow> bool" where "client_is_hiding client = cn_isHiding client"
definition client_has_gm_speed :: "client \<Rightarrow> bool" where "client_has_gm_speed client = cn_isGMSpeed client"
definition client_has_gm_hide :: "client \<Rightarrow> bool" where "client_has_gm_hide client = cn_isGMHide client"
definition client_disc_timestamp :: "client \<Rightarrow> u64" where "client_disc_timestamp client = cn_disciplineTimestamp client"
definition client_harmtouch_timestamp :: "client \<Rightarrow> u64" where "client_harmtouch_timestamp client = cn_harmtouchTimestamp client"
definition client_creation_timestamp :: "client \<Rightarrow> u64" where "client_creation_timestamp client = cn_creationTimestamp client"
definition client_hunger :: "client \<Rightarrow> u16" where "client_hunger client = cn_hunger client"
definition client_thirst :: "client \<Rightarrow> u16" where "client_thirst client = cn_thirst client"
definition client_drunkeness :: "client \<Rightarrow> u16" where "client_drunkeness client = cn_drunkeness client"
definition client_base_gender_id :: "client \<Rightarrow> u8" where "client_base_gender_id client = mb_baseGenderId (cn_mob client)"
definition client_base_race_id :: "client \<Rightarrow> u16" where "client_base_race_id client = mb_baseRaceId (cn_mob client)"
definition client_class_id :: "client \<Rightarrow> u8" where "client_class_id client = mb_classId (cn_mob client)"
definition client_deity_id :: "client \<Rightarrow> u16" where "client_deity_id client = mb_deityId (cn_mob client)"
definition client_level :: "client \<Rightarrow> u8" where "client_level client = mb_level (cn_mob client)"
definition client_cur_mana :: "client \<Rightarrow> int" where "client_cur_mana client = mb_currentMana (cn_mob client)"
definition client_face_id :: "client \<Rightarrow> u8" where "client_face_id client = mb_faceId (cn_mob client)"
definition client_cur_hp :: "client \<Rightarrow> int" where "client_cur_hp client = mb_currentHp (cn_mob client)"
definition client_helm_texture_id :: "client \<Rightarrow> u8" where "client_helm_texture_id client = mb_helmTextureId (cn_mob client)"
definition client_texture_id :: "client \<Rightarrow> u8" where "client_texture_id client = mb_textureId (cn_mob client)"
definition client_primary_weapon_model_id :: "client \<Rightarrow> u8" where "client_primary_weapon_model_id client = mb_primaryWeaponModelId (cn_mob client)"
definition client_secondary_weapon_model_id :: "client \<Rightarrow> u8" where "client_secondary_weapon_model_id client = mb_secondaryWeaponModelId (cn_mob client)"
definition client_upright_state :: "client \<Rightarrow> u8" where "client_upright_state client = mb_uprightState (cn_mob client)"
definition client_light_level :: "client \<Rightarrow> u8" where "client_light_level client = mb_lightLevel (cn_mob client)"
definition client_body_type :: "client \<Rightarrow> u8" where "client_body_type client = mb_bodyType (cn_mob client)"
definition client_base_walking_speed :: "client \<Rightarrow> u32" where "client_base_walking_speed client = mb_baseWalkingSpeed (cn_mob client)"
definition client_base_running_speed :: "client \<Rightarrow> u32" where "client_base_running_speed client = mb_baseRunningSpeed (cn_mob client)"
definition client_walking_speed :: "client \<Rightarrow> u32" where "client_walking_speed client = mb_currentWalkingSpeed (cn_mob client)"
definition client_running_speed :: "client \<Rightarrow> u32" where "client_running_speed client = mb_currentRunningSpeed (cn_mob client)"
definition client_name :: "client \<Rightarrow> u64" where "client_name client = mb_name (cn_mob client)"
definition client_get_zone :: "client \<Rightarrow> u64" where "client_get_zone client = mb_zone (cn_mob client)"
definition client_entity_id :: "client \<Rightarrow> u16" where "client_entity_id client = mb_entityId (cn_mob client)"
definition client_zone_index :: "client \<Rightarrow> u32" where "client_zone_index client = mb_zoneIndex (cn_mob client)"
definition client_lua_index :: "client \<Rightarrow> u32" where "client_lua_index client = mb_luaIndex (cn_mob client)"
definition client_base_str :: "client \<Rightarrow> u8" where "client_base_str client = word_of_int (st_STR (mb_baseStats (cn_mob client)))"
definition client_base_sta :: "client \<Rightarrow> u8" where "client_base_sta client = word_of_int (st_STA (mb_baseStats (cn_mob client)))"
definition client_base_cha :: "client \<Rightarrow> u8" where "client_base_cha client = word_of_int (st_CHA (mb_baseStats (cn_mob client)))"
definition client_base_dex :: "client \<Rightarrow> u8" where "client_base_dex client = word_of_int (st_DEX (mb_baseStats (cn_mob client)))"
definition client_base_int :: "client \<Rightarrow> u8" where "client_base_int client = word_of_int (st_INT (mb_baseStats (cn_mob client)))"
definition client_base_agi :: "client \<Rightarrow> u8" where "client_base_agi client = word_of_int (st_AGI (mb_baseStats (cn_mob client)))"
definition client_base_wis :: "client \<Rightarrow> u8" where "client_base_wis client = word_of_int (st_WIS (mb_baseStats (cn_mob client)))"
definition client_loc_x :: "client \<Rightarrow> u32" where "client_loc_x client = lh_x (mb_loc (cn_mob client))"
definition client_loc_y :: "client \<Rightarrow> u32" where "client_loc_y client = lh_y (mb_loc (cn_mob client))"
definition client_loc_z :: "client \<Rightarrow> u32" where "client_loc_z client = lh_z (mb_loc (cn_mob client))"
definition client_loc_heading :: "client \<Rightarrow> u32" where "client_loc_heading client = lh_heading (mb_loc (cn_mob client))"

definition client_name_str :: "sheap \<Rightarrow> client \<Rightarrow> u8 list" where
  "client_name_str h client = sbuf_str h (mb_name (cn_mob client))"

definition client_surname_str_no_null :: "sheap \<Rightarrow> client \<Rightarrow> u8 list" where
  "client_surname_str_no_null h client = (let surname = cn_surname client in if surname \<noteq> 0 then sbuf_str h surname else [])"

definition client_guild_id_or_ffff :: "client \<Rightarrow> u32" where
  "client_guild_id_or_ffff client = (let i = cn_guildId client in if i \<noteq> 0 then i else 0xffff)"

definition client_guild_rank_or_ff :: "client \<Rightarrow> u8" where
  "client_guild_rank_or_ff client = (let rank = cn_guildRank client in if rank \<noteq> 0 then rank else 0xff)"

definition client_ip :: "client \<Rightarrow> u32" where "client_ip client = fst (cn_ipAddr client)"
definition client_port :: "client \<Rightarrow> u16" where "client_port client = snd (cn_ipAddr client)"

definition client_set_ip_addr :: "client \<Rightarrow> u32 \<times> u16 \<Rightarrow> client" where
  "client_set_ip_addr client ipAddr = client\<lparr>cn_ipAddr := ipAddr\<rparr>"

definition client_set_port :: "client \<Rightarrow> u16 \<Rightarrow> client" where
  "client_set_port client port = client\<lparr>cn_ipAddr := (fst (cn_ipAddr client), port)\<rparr>"

definition client_set_zone_index :: "client \<Rightarrow> u32 \<Rightarrow> client" where
  "client_set_zone_index client index = client\<lparr>cn_mob := (cn_mob client)\<lparr>mb_zoneIndex := index\<rparr>\<rparr>"

definition client_set_lua_index :: "client \<Rightarrow> u32 \<Rightarrow> client" where
  "client_set_lua_index client index = client\<lparr>cn_mob := (cn_mob client)\<lparr>mb_luaIndex := index\<rparr>\<rparr>"

definition client_get_skill :: "client \<Rightarrow> int \<Rightarrow> int option" where
  "client_get_skill client skillId = skill_get (cn_skills client) skillId"

text \<open>The count before the increment is returned.\<close>

definition client_increment_zone_in_count :: "client \<Rightarrow> u32 \<times> client" where
  "client_increment_zone_in_count client = (cn_zoneInCount client, client\<lparr>cn_zoneInCount := cn_zoneInCount client + 1\<rparr>)"

definition client_reset_for_zone :: "client \<Rightarrow> u64 \<Rightarrow> client" where
  "client_reset_for_zone client zone =
     client\<lparr>cn_mob := (cn_mob client)\<lparr>mb_zone := zone, mb_entityId := - 1, mb_zoneIndex := - 1,
       mb_uprightState := UPRIGHT_STATE_Standing, mb_target := 0\<rparr>\<rparr>"

text \<open>There are five bind points.\<close>

definition client_bind_point :: "client \<Rightarrow> int \<Rightarrow> bind_point option" where
  "client_bind_point client n = (if 0 \<le> n \<and> n < 5 then Some (cn_bindPoint client ! nat n) else None)"

section \<open>Hit points, mana and statistics\<close>

definition client_calc_base_hp :: "u8 \<Rightarrow> int \<Rightarrow> int \<Rightarrow> int" where
  "client_calc_base_hp classId level sta =
     (let c = uint classId;
          mult =
            (if c = CLASS_ID_Cleric \<or> c = CLASS_ID_Druid \<or> c = CLASS_ID_Shaman then 15
             else if is_cloth_class c then 12
             else if c = CLASS_ID_Monk \<or> c = CLASS_ID_Bard \<or> c = CLASS_ID_Rogue then
               (if level < 51 then 18 else if level < 58 then 19 else 20)
             else if c = CLASS_ID_Ranger then (if level < 58 then 20 else 21)
             else if c = CLASS_ID_Warrior then
               (if level < 20 then 22 else if level < 30 then 23 else if level < 40 then 25
                else if level < 53 then 27 else if level < 57 then 28 else 30)
             else (if level < 35 then 21 else if level < 45 then 22 else if level < 51 then 23
                   else if level < 56 then 24 else if level < 60 then 25 else 26));
          mult = mult * level
      in 5 + mult + (mult * sta) sdiv 300)"

definition client_calc_base_mana :: "u8 \<Rightarrow> int \<Rightarrow> int \<Rightarrow> int \<Rightarrow> int" where
  "client_calc_base_mana classId level intel wis =
     (let c = uint classId
      in if c = CLASS_ID_ShadowKnight \<or> c = CLASS_ID_Bard \<or> is_cloth_class c then
           let (softCapped, intel) = (if intel > 200 then (intel - 200, 200) else (0, intel))
           in (intel sdiv 5 + 2) * level + softCapped * 6
         else if c = CLASS_ID_Cleric \<or> c = CLASS_ID_Paladin \<or> c = CLASS_ID_Ranger \<or> c = CLASS_ID_Druid
           \<or> c = CLASS_ID_Shaman then
           let (softCapped, wis) = (if wis > 200 then (wis - 200, 200) else (0, wis))
           in (wis sdiv 5 + 2) * level + softCapped * 6
         else 0)"

text \<open>Step 4: the base statistics are added to the totals.\<close>

definition add_base_stats :: "core_stats \<Rightarrow> core_stats \<Rightarrow> core_stats" where
  "add_base_stats base tot = tot\<lparr>st_STR := st_STR tot + st_STR base, st_STA := st_STA tot + st_STA base,
     st_DEX := st_DEX tot + st_DEX base, st_AGI := st_AGI tot + st_AGI base, st_INT := st_INT tot + st_INT base,
     st_WIS := st_WIS tot + st_WIS base, st_CHA := st_CHA tot + st_CHA base,
     st_svMagic := st_svMagic tot + st_svMagic base, st_svFire := st_svFire tot + st_svFire base,
     st_svCold := st_svCold tot + st_svCold base, st_svPoison := st_svPoison tot + st_svPoison base,
     st_svDisease := st_svDisease tot + st_svDisease base\<rparr>"

text \<open>Step 5: the totals are capped.\<close>

definition cap_stats :: "core_stats \<Rightarrow> core_stats \<Rightarrow> core_stats" where
  "cap_stats tot capped = (let cap = (\<lambda>v. cap_min_max v (- 255) 255) in
     capped\<lparr>st_STR := cap (st_STR tot), st_STA := cap (st_STA tot), st_DEX := cap (st_DEX tot),
       st_AGI := cap (st_AGI tot), st_INT := cap (st_INT tot), st_WIS := cap (st_WIS tot),
       st_CHA := cap (st_CHA tot), st_svMagic := cap (st_svMagic tot), st_svFire := cap (st_svFire tot),
       st_svCold := cap (st_svCold tot), st_svPoison := cap (st_svPoison tot),
       st_svDisease := cap (st_svDisease tot)\<rparr>)"

text \<open>Steps 6 and 7, on the capped statistics; \<open>defense\<close> is the skill.\<close>

definition calc_ac_hp_mana :: "mob \<Rightarrow> u8 \<Rightarrow> u8 \<Rightarrow> u16 \<Rightarrow> int \<Rightarrow> mob option" where
  "calc_ac_hp_mana mob level classId raceId defense =
     (let capped = mb_cappedStats mob
      in map_option (\<lambda>bonus.
           let mob = mob\<lparr>mb_acFromAGI := mob_calc_ac_agi (uint level) (st_AGI capped), mb_acFromBonus := bonus,
                 mb_acFromSkill := mob_calc_ac_skill (uint classId) defense, mb_acFromSkill2 := mob_calc_ac_skill2 defense\<rparr>;
               mob = mob\<lparr>mb_ac := mob_calc_ac_from_factors mob (uint classId)\<rparr>;
               baseHp = client_calc_base_hp classId (uint level) (st_STA capped);
               totalHp = st_maxHp (mb_totalStats mob) + baseHp;
               baseMana = client_calc_base_mana classId (uint level) (st_INT capped) (st_WIS capped);
               totalMana = st_maxMana (mb_totalStats mob) + baseMana
           in mob\<lparr>mb_baseStats := (mb_baseStats mob)\<lparr>st_maxHp := baseHp, st_maxMana := baseMana\<rparr>,
                mb_totalStats := (mb_totalStats mob)\<lparr>st_maxHp := totalHp, st_maxMana := totalMana\<rparr>,
                mb_cappedStats := capped\<lparr>st_maxHp := cap_min_max (to_int32 totalHp) 1 INT16_MAX,
                  st_maxMana := cap_min_max (to_int32 totalMana) 0 INT16_MAX\<rparr>\<rparr>)
           (mob_calc_ac_bonus (uint level) (uint raceId) (uint classId) (st_AGI capped)))"

definition client_calc_stats_all :: "iheap \<Rightarrow> client \<Rightarrow> client option" where
  "client_calc_stats_all ih client =
     (let level = client_level client; classId = client_class_id client; raceId = client_base_race_id client;
          mob = client_mob client
      in Option.bind (client_get_skill client SKILL_Defense) (\<lambda>defense.
           let mob = mob\<lparr>mb_totalStats := zero_stats, mb_acFromAGI := 0, mb_acFromBonus := 0, mb_acFromSkill := 0,
                 mb_acFromItems := 0, mb_acFromBuffs := 0, mb_ac := 0\<rparr>
           in Option.bind (inv_calc_stats ih (cn_inventory client) (mb_totalStats mob, cn_weight client, mb_acFromItems mob))
                (\<lambda>(tot, weight, acFromItems).
                  let hpFromItems = to_int32 (st_maxHp tot);
                      tot = add_base_stats (mb_baseStats mob) tot;
                      mob = mob\<lparr>mb_totalStats := tot, mb_acFromItems := acFromItems,
                        mb_cappedStats := cap_stats tot (mb_cappedStats mob)\<rparr>
                  in map_option (\<lambda>mob. client\<lparr>cn_mob := mob, cn_weight := weight, cn_hpFromItems := hpFromItems\<rparr>)
                       (calc_ac_hp_mana mob level classId raceId defense))))"

section \<open>The statistics of a character\<close>

text \<open>The range every capped statistic lies in.\<close>

definition stats_capped :: "core_stats \<Rightarrow> bool" where
  "stats_capped s \<longleftrightarrow> (\<forall>v \<in> {st_STR s, st_STA s, st_DEX s, st_AGI s, st_INT s, st_WIS s, st_CHA s, st_svMagic s,
     st_svFire s, st_svCold s, st_svPoison s, st_svDisease s}. - 255 \<le> v \<and> v \<le> 255)
   \<and> 1 \<le> st_maxHp s \<and> st_maxHp s \<le> INT16_MAX \<and> 0 \<le> st_maxMana s \<and> st_maxMana s \<le> INT16_MAX"

text \<open>The totals a character comes to: its base statistics and everything it wears for its statistics.\<close>

definition client_totals :: "iheap \<Rightarrow> client \<Rightarrow> core_stats" where
  "client_totals ih client = add_base_stats (mb_baseStats (cn_mob client))
     (add_stats (\<lambda>st. stat_total st (worn_fields ih (inv_used (cn_inventory client)))) zero_stats)"

definition client_items_ok :: "iheap \<Rightarrow> client \<Rightarrow> bool" where
  "client_items_ok ih client \<longleftrightarrow> (\<forall>s \<in> set (inv_used (cn_inventory client)). worn s \<or> carried s \<longrightarrow>
     ih (it_proto (is_item s)) \<noteq> None)"

lemma cap_stats_capped:
  assumes "mb_cappedStats mob = cap_stats tot capped" "calc_ac_hp_mana mob level classId raceId defense = Some mob'"
  shows "stats_capped (mb_cappedStats mob')"
  using assms by (auto simp: calc_ac_hp_mana_def Let_def stats_capped_def cap_stats_def cap_min_max_bounds INT16_MAX_def)

lemma calc_ac_hp_mana_returns:
  assumes "1 \<le> uint level"
  shows "\<exists>mob'. calc_ac_hp_mana mob level classId raceId defense = Some mob'"
  using mob_calc_ac_bonus_bounds [OF assms, of "uint raceId" "uint classId" "st_AGI (mb_cappedStats mob)"]
  by (auto simp: calc_ac_hp_mana_def Let_def)

lemma client_calc_stats_all_eq:
  assumes "client_items_ok ih client" "1 \<le> uint (mb_level (cn_mob client))" "client_get_skill client SKILL_Defense = Some defense"
  shows "\<exists>mob mob'. mb_totalStats mob = client_totals ih client \<and> mb_acFromBuffs mob = 0
    \<and> mb_cappedStats mob = cap_stats (client_totals ih client) (mb_cappedStats (cn_mob client))
    \<and> calc_ac_hp_mana mob (mb_level (cn_mob client)) (mb_classId (cn_mob client)) (mb_baseRaceId (cn_mob client)) defense = Some mob'
    \<and> client_calc_stats_all ih client = Some (client\<lparr>cn_mob := mob',
        cn_weight := cn_weight client + word_of_int (weight_total (worn_fields ih (inv_used (cn_inventory client)))) + carried_weight ih (inv_used (cn_inventory client)),
        cn_hpFromItems := to_int32 (stat_total ITEM_STAT_Hp (worn_fields ih (inv_used (cn_inventory client))))\<rparr>)"
proof -
  let ?fs = "worn_fields ih (inv_used (cn_inventory client))"
  let ?slots = "inv_used (cn_inventory client)" and ?m = "cn_mob client"
  have items: "\<forall>s \<in> set ?slots. worn s \<or> carried s \<longrightarrow> ih (it_proto (is_item s)) \<noteq> None"
    using assms(1) by (simp add: client_items_ok_def)
  note c = inv_calc_slots_eq [OF items, of zero_stats "cn_weight client" 0]
  let ?mob = "?m\<lparr>mb_acFromAGI := 0, mb_acFromBonus := 0, mb_acFromSkill := 0, mb_acFromBuffs := 0, mb_ac := 0,
      mb_totalStats := client_totals ih client, mb_acFromItems := stat_total ITEM_STAT_AC ?fs,
      mb_cappedStats := cap_stats (client_totals ih client) (mb_cappedStats ?m)\<rparr>"
  have hp: "st_maxHp (add_stats f zero_stats) = f ITEM_STAT_Hp" for f by (simp add: add_stats_def zero_stats_def)
  obtain mob' where mob': "calc_ac_hp_mana ?mob (mb_level ?m) (mb_classId ?m) (mb_baseRaceId ?m) defense = Some mob'"
    using calc_ac_hp_mana_returns [OF assms(2)] by blast
  have "client_calc_stats_all ih client = Some (client\<lparr>cn_mob := mob',
        cn_weight := cn_weight client + word_of_int (weight_total ?fs) + carried_weight ih ?slots,
        cn_hpFromItems := to_int32 (stat_total ITEM_STAT_Hp ?fs)\<rparr>)"
    using assms(3) c mob' unfolding fields_def
    by (simp add: client_calc_stats_all_def Let_def inv_calc_stats_def client_totals_def client_level_def client_class_id_def
        client_base_race_id_def client_mob_def hp)
  then show ?thesis using mob' by (intro exI [of _ ?mob] exI [of _ mob']) simp
qed

lemma sdiv_nonneg: "0 \<le> a \<Longrightarrow> 0 < b \<Longrightarrow> 0 \<le> (a sdiv b :: int)"
  by (cases "a = 0") (simp_all add: signed_divide_int_def sgn_if pos_imp_zdiv_nonneg_iff)

lemma cap_stats_hp_mana: "cap_stats tot ((cap_stats tot c)\<lparr>st_maxHp := x, st_maxMana := y\<rparr>) = (cap_stats tot c)\<lparr>st_maxHp := x, st_maxMana := y\<rparr>"
  by (simp add: cap_stats_def Let_def)

lemma calc_ac_hp_mana_ac:
  assumes "calc_ac_hp_mana mob level classId raceId defense = Some mob'" "mb_acFromBuffs mob = 0" "1 \<le> uint level"
  shows "0 \<le> mb_ac mob'" "- 24 \<le> mb_acFromAGI mob'" "mb_acFromAGI mob' \<le> 65" "0 \<le> mb_acFromBonus mob'" "mb_acFromBonus mob' \<le> 121"
proof -
  let ?bonus = "mob_calc_ac_bonus (uint level) (uint raceId) (uint classId) (st_AGI (mb_cappedStats mob))"
  obtain bonus where b: "?bonus = Some bonus" "0 \<le> bonus" "bonus \<le> 121"
    using mob_calc_ac_bonus_bounds [OF assms(3)] by blast
  have f: "0 \<le> mob_calc_ac_from_factors m c" if "mb_acFromBuffs m = 0" for m c
    unfolding mob_calc_ac_from_factors_def Let_def that by (simp only: add_0_right) (intro sdiv_nonneg, auto)
  have "mb_acFromAGI mob' = mob_calc_ac_agi (uint level) (st_AGI (mb_cappedStats mob))" "mb_acFromBonus mob' = bonus"
    using assms(1) b(1) by (auto simp: calc_ac_hp_mana_def Let_def)
  then show "- 24 \<le> mb_acFromAGI mob'" "mb_acFromAGI mob' \<le> 65" "0 \<le> mb_acFromBonus mob'" "mb_acFromBonus mob' \<le> 121"
    using mob_calc_ac_agi_bounds b(2,3) by simp_all
  obtain m where "mb_ac mob' = mob_calc_ac_from_factors m (uint classId)" "mb_acFromBuffs m = 0"
    using assms(1,2) b(1) by (auto simp: calc_ac_hp_mana_def Let_def)
  then show "0 \<le> mb_ac mob'" using f by simp
qed

text \<open>C30. The statistics of a character of at least level one whose items exist: the calculation never fails;
  every capped statistic is the base value plus what all worn items add, capped to -255 up to 255; hit
  points come out between 1 and 32767 and mana between 0 and 32767, so that dividing by the maximum is
  safe; armour class is not negative and its parts fit the bytes that hold them.\<close>

theorem client_calc_stats_all_capped:
  assumes "client_items_ok ih client" "1 \<le> uint (mb_level (cn_mob client))" "skills_ok (cn_skills client)"
  shows "\<exists>client'. client_calc_stats_all ih client = Some client'
    \<and> cap_stats (client_totals ih client) (mb_cappedStats (cn_mob client')) = mb_cappedStats (cn_mob client')
    \<and> stats_capped (mb_cappedStats (cn_mob client'))
    \<and> 0 \<le> mb_ac (cn_mob client') \<and> mb_acFromAGI (cn_mob client') \<in> {- 24..65} \<and> mb_acFromBonus (cn_mob client') \<in> {0..121}"
proof -
  obtain defense where d: "client_get_skill client SKILL_Defense = Some defense"
    using skill_get_ok [OF assms(3), of SKILL_Defense] by (auto simp: client_get_skill_def SKILL_Defense_def)
  obtain mob mob' where m: "mb_totalStats mob = client_totals ih client" "mb_acFromBuffs mob = 0"
    "mb_cappedStats mob = cap_stats (client_totals ih client) (mb_cappedStats (cn_mob client))"
    "calc_ac_hp_mana mob (mb_level (cn_mob client)) (mb_classId (cn_mob client)) (mb_baseRaceId (cn_mob client)) defense = Some mob'"
    "\<exists>w hp. client_calc_stats_all ih client = Some (client\<lparr>cn_mob := mob', cn_weight := w, cn_hpFromItems := hp\<rparr>)"
    using client_calc_stats_all_eq [OF assms(1,2) d] by blast
  have "cap_stats (client_totals ih client) (mb_cappedStats mob') = mb_cappedStats mob'"
    using m(3,4) by (auto simp: calc_ac_hp_mana_def Let_def cap_stats_hp_mana)
  then show ?thesis using m(5) cap_stats_capped [OF m(3,4)] calc_ac_hp_mana_ac [OF m(4,2) assms(2)] by auto
qed

theorem client_calc_stats_all_capped_witness:
  "\<exists>client'. client_calc_stats_all Map.empty (zero_client\<lparr>cn_mob := zero_mob\<lparr>mb_level := 60, mb_classId := 7\<rparr>\<rparr>) = Some client'
    \<and> stats_capped (mb_cappedStats (cn_mob client')) \<and> 0 \<le> mb_ac (cn_mob client')"
proof -
  let ?c = "zero_client\<lparr>cn_mob := zero_mob\<lparr>mb_level := 60, mb_classId := 7\<rparr>\<rparr>"
  have "client_items_ok Map.empty ?c" "1 \<le> uint (mb_level (cn_mob ?c))" "skills_ok (cn_skills ?c)"
    by (simp_all add: client_items_ok_def zero_client_def zero_inventory_def skills_ok_def SKILL_COUNT_def LANG_COUNT_def
        skill_value_ok_def list_all_length)
  from client_calc_stats_all_capped [OF this] show ?thesis by blast
qed

text \<open>The weight is not reset before it is summed up: each calculation adds the items once more.\<close>

lemma client_weight_accumulates:
  assumes "client_items_ok ih client" "1 \<le> uint (mb_level (cn_mob client))" "client_get_skill client SKILL_Defense = Some defense"
  shows "\<exists>client'. client_calc_stats_all ih client = Some client'
    \<and> cn_weight client' = cn_weight client + word_of_int (weight_total (worn_fields ih (inv_used (cn_inventory client))))
        + carried_weight ih (inv_used (cn_inventory client))"
  using client_calc_stats_all_eq [OF assms] by auto

end
