(* ===== verification/Zeq_ZoneId.thy ===== *)
theory Zeq_ZoneId
  imports Zeq_HashTbl_Keys
begin

text \<open>
  \<open>src/zone_id.c\<close>: the numbers, short names and long names of the zones. The short names are found
  through a hash table that is filled when the server starts; the numbers through \<open>switch\<close>
  statements. The entries in comments are not part of the program.
\<close>

section \<open>The tables\<close>

definition zone_id_adds :: "(int \<times> string) list" where
  "zone_id_adds =
    [(1, ''qeynos''), (2, ''qeynos2''), (3, ''qrg''), (4, ''qeytoqrg''), (5, ''highpass''),
     (6, ''highkeep''), (8, ''freportn''), (9, ''freportw''), (10, ''freporte''), (11, ''runnyeye''),
     (12, ''qey2hh1''), (13, ''northkarana''), (14, ''southkarana''), (15, ''eastkarana''),
     (16, ''beholder''), (17, ''blackburrow''), (18, ''paw''), (19, ''rivervale''), (20, ''kithicor''),
     (21, ''commons''), (22, ''ecommons''), (23, ''erudnint''), (24, ''erudnext''), (25, ''nektulos''),
     (26, ''cshome''), (27, ''lavastorm''), (28, ''nektropos''), (29, ''halas''), (30, ''everfrost''),
     (31, ''soldunga''), (32, ''soldungb''), (33, ''misty''), (34, ''nro''), (35, ''sro''),
     (36, ''befallen''), (37, ''oasis''), (38, ''tox''), (39, ''hole''), (40, ''neriaka''),
     (41, ''neriakb''), (42, ''neriakc''), (43, ''neriakd''), (44, ''najena''), (45, ''qcat''),
     (46, ''innothule''), (47, ''feerrott''), (48, ''cazicthule''), (49, ''oggok''), (50, ''rathemtn''),
     (51, ''lakerathe''), (52, ''grobb''), (53, ''aviak''), (54, ''gfaydark''), (55, ''akanon''),
     (56, ''steamfont''), (57, ''lfaydark''), (58, ''crushbone''), (59, ''mistmoore''), (60, ''kaladima''),
     (61, ''felwithea''), (62, ''felwitheb''), (63, ''unrest''), (64, ''kedge''), (65, ''guktop''),
     (66, ''gukbottom''), (67, ''kaladimb''), (68, ''butcher''), (69, ''oot''), (70, ''cauldron''),
     (71, ''airplane''), (72, ''fearplane''), (73, ''permafrost''), (74, ''kerraridge''), (75, ''paineel''),
     (76, ''hateplane''), (77, ''arena''), (78, ''fieldofbone''), (79, ''warslikswood''),
     (80, ''soltemple''), (81, ''droga''), (82, ''cabwest''), (83, ''swampofnohope''), (84, ''firiona''),
     (85, ''lakeofillomen''), (86, ''dreadlands''), (87, ''burningwood''), (88, ''kaesora''),
     (89, ''sebilis''), (90, ''citymist''), (91, ''skyfire''), (92, ''frontiermtns''), (93, ''overthere''),
     (94, ''emeraldjungle''), (95, ''trakanon''), (96, ''timorous''), (97, ''kurn''), (98, ''erudsxing''),
     (100, ''stonebrunt''), (101, ''warrens''), (102, ''karnor''), (103, ''chardok''), (104, ''dalnir''),
     (105, ''charasis''), (106, ''cabeast''), (107, ''nurga''), (108, ''veeshan''), (109, ''veksar''),
     (110, ''iceclad''), (111, ''frozenshadow''), (112, ''velketor''), (113, ''kael''), (114, ''skyshrine''),
     (115, ''thurgadina''), (116, ''eastwastes''), (117, ''cobaltscar''), (118, ''greatdivide''),
     (119, ''wakening''), (120, ''westwastes''), (121, ''crystal''), (123, ''necropolis''),
     (124, ''templeveeshan''), (125, ''sirens''), (126, ''mischiefplane''), (127, ''growthplane''),
     (128, ''sleeper''), (129, ''thurgadinb''), (130, ''erudsxing2'')]"

definition zone_short_names :: "(int \<times> string) list" where
  "zone_short_names =
    [(1, ''qeynos''), (2, ''qeynos2''), (3, ''qrg''), (4, ''qeytoqrg''), (5, ''highpass''),
     (6, ''highkeep''), (8, ''freportn''), (9, ''freportw''), (10, ''freporte''), (11, ''runnyeye''),
     (12, ''qey2hh1''), (13, ''northkarana''), (14, ''southkarana''), (15, ''eastkarana''),
     (16, ''beholder''), (17, ''blackburrow''), (18, ''paw''), (19, ''rivervale''), (20, ''kithicor''),
     (21, ''commons''), (22, ''ecommons''), (23, ''erudnint''), (24, ''erudnext''), (25, ''nektulos''),
     (26, ''cshome''), (27, ''lavastorm''), (28, ''nektropos''), (29, ''halas''), (30, ''everfrost''),
     (31, ''soldunga''), (32, ''soldungb''), (33, ''misty''), (34, ''nro''), (35, ''sro''),
     (36, ''befallen''), (37, ''oasis''), (38, ''tox''), (39, ''hole''), (40, ''neriaka''),
     (41, ''neriakb''), (42, ''neriakc''), (43, ''neriakd''), (44, ''najena''), (45, ''qcat''),
     (46, ''innothule''), (47, ''feerrott''), (48, ''cazicthule''), (49, ''oggok''), (50, ''rathemtn''),
     (51, ''lakerathe''), (52, ''grobb''), (53, ''aviak''), (54, ''gfaydark''), (55, ''akanon''),
     (56, ''steamfont''), (57, ''lfaydark''), (58, ''crushbone''), (59, ''mistmoore''), (60, ''kaladima''),
     (61, ''felwithea''), (62, ''felwitheb''), (63, ''unrest''), (64, ''kedge''), (65, ''guktop''),
     (66, ''gukbottom''), (67, ''kaladimb''), (68, ''butcher''), (69, ''oot''), (70, ''cauldron''),
     (71, ''airplane''), (72, ''fearplane''), (73, ''permafrost''), (74, ''kerraridge''), (75, ''paineel''),
     (76, ''hateplane''), (77, ''arena''), (78, ''fieldofbone''), (79, ''warslikswood''),
     (80, ''soltemple''), (81, ''droga''), (82, ''cabwest''), (83, ''swampofnohope''), (84, ''firiona''),
     (85, ''lakeofillomen''), (86, ''dreadlands''), (87, ''burningwood''), (88, ''kaesora''),
     (89, ''sebilis''), (90, ''citymist''), (91, ''skyfire''), (92, ''frontiermtns''), (93, ''overthere''),
     (94, ''emeraldjungle''), (95, ''trakanon''), (96, ''timorous''), (97, ''kurn''), (98, ''erudsxing''),
     (100, ''stonebrunt''), (101, ''warrens''), (102, ''karnor''), (103, ''chardok''), (104, ''dalnir''),
     (105, ''charasis''), (106, ''cabeast''), (107, ''nurga''), (108, ''veeshan''), (109, ''veksar''),
     (110, ''iceclad''), (111, ''frozenshadow''), (112, ''velketor''), (113, ''kael''), (114, ''skyshrine''),
     (115, ''thurgadina''), (116, ''eastwastes''), (117, ''cobaltscar''), (118, ''greatdivide''),
     (119, ''wakening''), (120, ''westwastes''), (121, ''crystal''), (123, ''necropolis''),
     (124, ''templeveeshan''), (125, ''sirens''), (126, ''mischiefplane''), (127, ''growthplane''),
     (128, ''sleeper''), (129, ''thurgadinb''), (130, ''erudsxing2'')]"

definition zone_long_names :: "(int \<times> string) list" where
  "zone_long_names =
    [(1, ''South Qeynos''), (2, ''North Qeynos''), (3, ''The Surefall Glade''), (4, ''The Qeynos Hills''),
     (5, ''Highpass Hold''), (6, ''High Keep''), (8, ''North Freeport''), (9, ''West Freeport''),
     (10, ''East Freeport''), (11, ''The Liberated Citadel of Runnyeye''),
     (12, ''The Western Plains of Karana''), (13, ''The Northern Plains of Karana''),
     (14, ''The Southern Plains of Karana''), (15, ''Eastern Plains of Karana''),
     (16, ''Gorge of King Xorbb''), (17, ''Blackburrow''), (18, ''The Lair of the Splitpaw''),
     (19, ''Rivervale''), (20, ''Kithicor Forest''), (21, ''West Commonlands''), (22, ''East Commonlands''),
     (23, ''The Erudin Palace''), (24, ''Erudin''), (25, ''The Nektulos Forest''), (26, ''Sunset Home''),
     (27, ''The Lavastorm Mountains''), (28, ''Nektropos''), (29, ''Halas''), (30, ''Everfrost Peaks''),
     (31, ''Solusek'' @ [CHR 0x27] @ ''s Eye''), (32, ''Nagafen'' @ [CHR 0x27] @ ''s Lair''),
     (33, ''Misty Thicket''), (34, ''Northern Desert of Ro''), (35, ''Southern Desert of Ro''),
     (36, ''Befallen''), (37, ''Oasis of Marr''), (38, ''Toxxulia Forest''), (39, ''The Hole''),
     (40, ''Neriak - Foreign Quarter''), (41, ''Neriak - Commons''), (42, ''Neriak - 3rd Gate''),
     (43, ''Neriak Palace''), (44, ''Najena''), (45, ''The Qeynos Aqueduct System''),
     (46, ''Innothule Swamp''), (47, ''The Feerrott''), (48, ''Accursed Temple of CazicThule''),
     (49, ''Oggok''), (50, ''The Rathe Mountains''), (51, ''Lake Rathetear''), (52, ''Grobb''),
     (53, ''Aviak Village''), (54, ''The Greater Faydark''), (55, ''Ak'' @ [CHR 0x27] @ ''Anon''),
     (56, ''Steamfont Mountains''), (57, ''The Lesser Faydark''), (58, ''Crushbone''),
     (59, ''The Castle of Mistmoore''), (60, ''South Kaladim''), (61, ''Northern Felwithe''),
     (62, ''Southern Felwithe''), (63, ''The Estate of Unrest''), (64, ''Kedge Keep''),
     (65, ''The City of Guk''), (66, ''The Ruins of Old Guk''), (67, ''North Kaladim''),
     (68, ''Butcherblock Mountains''), (69, ''Ocean of Tears''),
     (70, ''Dagnor'' @ [CHR 0x27] @ ''s Cauldron''), (71, ''The Plane of Sky''), (72, ''The Plane of Fear''),
     (73, ''The Permafrost Caverns''), (74, ''Kerra Isle''), (75, ''Paineel''), (76, ''Plane of Hate''),
     (77, ''The Arena''), (78, ''The Field of Bone''), (79, ''The Warsliks Woods''),
     (80, ''The Temple of Solusek Ro''), (81, ''The Temple of Droga''), (82, ''Cabilis West''),
     (83, ''The Swamp of No Hope''), (84, ''Firiona Vie''), (85, ''Lake of Ill Omen''),
     (86, ''The Dreadlands''), (87, ''The Burning Wood''), (88, ''Kaesora''), (89, ''The Ruins of Sebilis''),
     (90, ''The City of Mist''), (91, ''The Skyfire Mountains''), (92, ''Frontier Mountains''),
     (93, ''The Overthere''), (94, ''The Emerald Jungle''), (95, ''Trakanon'' @ [CHR 0x27] @ ''s Teeth''),
     (96, ''Timorous Deep''), (97, ''Kurn'' @ [CHR 0x27] @ ''s Tower''),
     (98, ''Erud'' @ [CHR 0x27] @ ''s Crossing''), (100, ''The Stonebrunt Mountains''),
     (101, ''The Warrens''), (102, ''Karnor'' @ [CHR 0x27] @ ''s Castle''), (103, ''Chardok''),
     (104, ''The Crypt of Dalnir''), (105, ''The Howling Stones''), (106, ''Cabilis East''),
     (107, ''The Mines of Nurga''), (108, ''Veeshan'' @ [CHR 0x27] @ ''s Peak''), (109, ''Veksar''),
     (110, ''The Iceclad Ocean''), (111, ''The Tower of Frozen Shadow''),
     (112, ''Velketor'' @ [CHR 0x27] @ ''s Labyrinth''), (113, ''Kael Drakkel''), (114, ''Skyshrine''),
     (115, ''The City of Thurgadin''), (116, ''Eastern Wastes''), (117, ''Cobaltscar''),
     (118, ''The Great Divide''), (119, ''The Wakening Land''), (120, ''The Western Wastes''),
     (121, ''The Crystal Caverns''), (123, ''Dragon Necropolis''), (124, ''The Temple of Veeshan''),
     (125, ''Siren'' @ [CHR 0x27] @ ''s Grotto''), (126, ''The Plane of Mischief''),
     (127, ''The Plane of Growth''), (128, ''The Sleeper'' @ [CHR 0x27] @ ''s Tomb''),
     (129, ''Icewell Keep''), (130, ''Marauders Mire'')]"

text \<open>A C string literal as the bytes it is stored as.\<close>

definition bytes_of :: "string \<Rightarrow> u8 list" where
  "bytes_of s = map (\<lambda>c. of_nat (of_char c)) s"

section \<open>Operations\<close>

text \<open>\<open>addr n\<close> is the address of the buffer that \<open>malloc\<close> gives the key of the \<open>n\<close>-th entry.\<close>

fun zone_id_add_all ::
    "(u32 \<Rightarrow> bool) \<Rightarrow> (nat \<Rightarrow> u64) \<Rightarrow> nat \<Rightarrow> sheap \<Rightarrow> int hashtbl \<Rightarrow> (int \<times> string) list \<Rightarrow> (zerr \<times> sheap \<times> int hashtbl) option" where
  "zone_id_add_all alloc addr n h t [] = Some (ERR_None, h, t)"
| "zone_id_add_all alloc addr n h t ((zoneId, name) # zs) =
     Option.bind (tbl_set_str alloc (addr n) h t (Some (bytes_of name)) (of_nat (length name)) (Some zoneId)) (\<lambda>(rc, h, t).
       if rc \<noteq> ERR_None then Some (rc, h, t) else zone_id_add_all alloc addr (Suc n) h t zs)"

definition zone_id_init :: "(u32 \<Rightarrow> bool) \<Rightarrow> (nat \<Rightarrow> u64) \<Rightarrow> sheap \<Rightarrow> (zerr \<times> sheap \<times> int hashtbl) option" where
  "zone_id_init alloc addr h = zone_id_add_all alloc addr 0 h (tbl_init_size 4) zone_id_adds"

definition zone_id_deinit :: "sheap \<Rightarrow> int hashtbl \<Rightarrow> sheap \<times> int hashtbl" where
  "zone_id_deinit h t =
     (let (h, t, _) = tbl_deinit h t (None :: (int option \<Rightarrow> unit \<Rightarrow> int option \<times> unit) option) () in (h, t))"

definition zone_id_by_short_name :: "sheap \<Rightarrow> int hashtbl \<Rightarrow> u8 list \<Rightarrow> u32 \<Rightarrow> int option" where
  "zone_id_by_short_name h t shortName len =
     map_option (\<lambda>r. case r of Some (Some zoneId) \<Rightarrow> zoneId | _ \<Rightarrow> 0) (tbl_get_str_raw h t (Some shortName) len)"

definition zone_short_name_by_id :: "int \<Rightarrow> string" where
  "zone_short_name_by_id i = (case map_of zone_short_names i of Some name \<Rightarrow> name | None \<Rightarrow> ''qeynos'')"

definition zone_long_name_by_id :: "int \<Rightarrow> string" where
  "zone_long_name_by_id i = (case map_of zone_long_names i of Some name \<Rightarrow> name | None \<Rightarrow> ''South Qeynos'')"

section \<open>The size of the table\<close>

text \<open>A table that only had entries added is at most twice as large as they are many, or has its first four slots.\<close>

definition tbl_tight :: "'v hashtbl \<Rightarrow> bool" where
  "tbl_tight t \<longleftrightarrow> length (tbl_data t) \<le> max 4 (2 * size (stored (tbl_data t)))"

lemma evict_length:
  "tbl_set_evict h t pos mainPos key isInt v hash = Some (rc, h', t') \<Longrightarrow> length (tbl_data t') = length (tbl_data t)"
  by (auto simp: tbl_set_evict_def Let_def upd_ent_def bind_eq_Some_conv case_prod_unfold)

lemma append_length:
  "tbl_set_append h t i key isInt v hash = (rc, h', t') \<Longrightarrow> length (tbl_data t') = length (tbl_data t)"
  by (auto simp: tbl_set_append_def Let_def upd_ent_def case_prod_unfold)

lemma found_length:
  "tbl_set_found h t i key isInt v upd = (rc, h', t') \<Longrightarrow> length (tbl_data t') = length (tbl_data t)"
  by (auto simp: tbl_set_found_def Let_def case_prod_unfold split: if_splits)

lemma place_length:
  assumes "tbl_data t \<noteq> []" "tbl_freeIndex t \<noteq> FREE_INDEX_INVALID \<or> ent_is_empty (tbl_data t ! unat (hash AND (tbl_capacity t - 1)))"
    and "tbl_set_impl alloc h t key isInt v hash upd = Some (rc, h', t')"
  shows "length (tbl_data t') = length (tbl_data t)"
proof -
  let ?pos = "unat (hash AND (tbl_capacity t - 1))"
  have step: "tbl_set_impl alloc h t key isInt v hash upd =
      (if ent_is_empty (tbl_data t ! ?pos)
       then let t1 = (if ?pos = unat (tbl_freeIndex t) then tbl_advance_free_index t else t);
                (h, ent) = tbl_ent_insert h (tbl_data t ! ?pos) key isInt v hash (tbl_elemSize t1)
            in Some (ERR_None, h, t1\<lparr>tbl_data := (tbl_data t1)[?pos := ent]\<rparr>)
       else if unat (ent_hash (tbl_data t ! ?pos) AND (tbl_capacity t - 1)) \<noteq> ?pos
         then tbl_set_evict h t ?pos (unat (ent_hash (tbl_data t ! ?pos) AND (tbl_capacity t - 1))) key isInt v hash
       else Option.bind (tbl_chain_scan (set_key_matches h key isInt hash) (tbl_data t) ?pos)
              (\<lambda>r. case r of ChainFound i \<Rightarrow> Some (tbl_set_found h t i key isInt v upd)
                 | ChainEnd i \<Rightarrow> Some (tbl_set_append h t i key isInt v hash)))"
    using assms(1,2) by (subst tbl_set_impl.simps) (auto simp: Let_def)
  have scan: "length (tbl_data t') = length (tbl_data t)"
    if "(case r of ChainFound i \<Rightarrow> Some (tbl_set_found h t i key isInt v upd)
      | ChainEnd i \<Rightarrow> Some (tbl_set_append h t i key isInt v hash)) = Some (rc, h', t')" for r
    using that by (cases r) (auto intro: append_length found_length)
  show ?thesis using assms(3) unfolding step
    by (auto simp: Let_def bind_eq_Some_conv case_prod_unfold intro: evict_length scan split: if_splits)
qed

lemma tight_set:
  fixes t :: "'v hashtbl"
  assumes ok: "tbl_ok t" "no_lost_slot t" "may_grow t" "tbl_elemSize t \<noteq> 0" and key: "key \<noteq> 0 \<or> hash \<noteq> 0"
    and r: "tbl_set_impl (\<lambda>_. True) h t key isInt v hash False = Some (rc, h', t')" and tight: "tbl_tight t"
  shows "tbl_tight t' \<and> size (stored (tbl_data t')) \<le> Suc (size (stored (tbl_data t)))"
proof -
  have st: "size (stored (tbl_data t)) \<le> size (stored (tbl_data t')) \<and> size (stored (tbl_data t')) \<le> Suc (size (stored (tbl_data t)))"
    by (rule tbl_set_impl_ok [OF ok key, of "\<lambda>_. True" h isInt v False])
      (use r in \<open>auto simp: set_inserted_def set_matched_def tbl_set_found_def\<close>)
  let ?pos = "unat (hash AND (tbl_capacity t - 1))"
  consider (empty) "tbl_data t = []"
    | (place) "tbl_data t \<noteq> []" "tbl_freeIndex t \<noteq> FREE_INDEX_INVALID \<or> ent_is_empty (tbl_data t ! ?pos)"
    | (grow) "tbl_data t \<noteq> []" "tbl_freeIndex t = FREE_INDEX_INVALID" "\<not> ent_is_empty (tbl_data t ! ?pos)"
    by blast
  then have "length (tbl_data t') \<le> max 4 (max (length (tbl_data t)) (2 * size (stored (tbl_data t))))"
  proof cases
    case place
    then show ?thesis using place_length [OF place r] by simp
  next
    case empty
    then obtain t1 where t1: "tbl_alloc_default (\<lambda>_. True) t = Some t1" by (auto simp: tbl_alloc_default_def)
    note a = tbl_alloc_default_ok [OF ok(1) empty t1]
    have "tbl_set_impl (\<lambda>_. True) h t key isInt v hash False = tbl_set_impl (\<lambda>_. True) h t1 key isInt v hash False"
      using empty t1 a(3) by (subst (1 2) tbl_set_impl.simps) simp
    then have r1: "tbl_set_impl (\<lambda>_. True) h t1 key isInt v hash False = Some (rc, h', t')" using r by simp
    show ?thesis using place_length [OF a(3) disjI1 [OF a(6)] r1] a(7) by simp
  next
    case grow
    obtain t1 where t1: "tbl_realloc (\<lambda>_. True) t = Some (Some t1)" "tbl_freeIndex t1 \<noteq> FREE_INDEX_INVALID" "tbl_data t1 \<noteq> []"
      "length (tbl_data t1) = 2 * length (tbl_data t)"
      using tbl_realloc_ok [of t "\<lambda>_. True"] ok grow(2) by metis
    have "tbl_set_impl (\<lambda>_. True) h t key isInt v hash False = tbl_set_impl (\<lambda>_. True) h t1 key isInt v hash False"
      using grow t1(1) by (subst tbl_set_impl.simps) (simp add: Let_def)
    then have r1: "tbl_set_impl (\<lambda>_. True) h t1 key isInt v hash False = Some (rc, h', t')" using r by simp
    have "length (tbl_data t') = 2 * length (tbl_data t)" using place_length [OF t1(3) disjI1 [OF t1(2)] r1] t1(4) by simp
    moreover have "size (stored (tbl_data t)) = length (tbl_data t)"
      using ok(2) grow(2) by (intro size_stored_full) (auto simp: no_lost_slot_def occ_def all_set_conv_all_nth)
    ultimately show ?thesis by simp
  qed
  then show ?thesis using st tight unfolding tbl_tight_def by linarith
qed

section \<open>The table of short names\<close>

lemma bytes_of_inject: "bytes_of s = bytes_of s' \<longleftrightarrow> s = s'"
proof -
  have "unat (of_nat (of_char c) :: u8) = of_char c" for c :: char
    by (intro unat_of_nat_small) (use nat_of_char_less_256 [of c] in simp)
  then have "inj (\<lambda>c :: char. of_nat (of_char c) :: u8)" by (intro injI) (metis of_char_eq_iff)
  then show ?thesis unfolding bytes_of_def by (simp add: inj_map_eq_map)
qed

lemma str_key_len_exact: "str_valid bs \<Longrightarrow> str_key_len bs (of_nat (length bs)) = str_key_len bs 0"
  using str_key_len_valid [of bs] by (auto simp: str_key_len_def)

definition name_map :: "(int \<times> string) list \<Rightarrow> u8 list \<Rightarrow> int option" where
  "name_map zs = map_of (map (\<lambda>(zoneId, name). (bytes_of name, zoneId)) zs)"

lemma name_map_None: "name_map zs bs = None \<longleftrightarrow> (\<forall>zn \<in> set zs. bytes_of (snd zn) \<noteq> bs)"
  by (force simp: name_map_def map_of_eq_None_iff)

lemma zone_id_add_all_ok:
  assumes "tbl_str_inv h t" "free_exact t" "tbl_tight t" "size (stored (tbl_data t)) \<le> n" "n + length zs < 2 ^ 28"
    and "\<forall>zn \<in> set zs. str_valid (bytes_of (snd zn))" "distinct (map snd zs)"
    and "\<forall>zn \<in> set zs. tbl_str_map h t (bytes_of (snd zn)) = None"
    and "\<forall>k \<in> {n..<n + length zs}. addr k \<noteq> 0 \<and> h (addr k) = None" "inj_on addr {n..<n + length zs}"
  shows "\<exists>h' t'. zone_id_add_all (\<lambda>_. True) addr n h t zs = Some (ERR_None, h', t') \<and> tbl_str_inv h' t'
    \<and> tbl_str_map h' t' = tbl_str_map h t ++ name_map zs"
  using assms
proof (induction zs arbitrary: n h t)
  case Nil
  then show ?case by (simp add: name_map_def)
next
  case (Cons z zs)
  obtain zoneId name where z: "z = (zoneId, name)" by (cases z)
  let ?bs = "bytes_of name"
  have v: "str_valid ?bs" and a: "addr n \<noteq> 0" "h (addr n) = None" and none: "tbl_str_map h t ?bs = None"
    using Cons.prems(6,8,9) z by auto
  have ok: "tbl_ok t" "tbl_elemSize t \<noteq> 0" using Cons.prems(1) by (auto simp: str_keys.inv_stored)
  note nl = free_exact_no_lost [OF ok(1) Cons.prems(2)]
  have grow: "may_grow t" using Cons.prems(3-5) by (simp add: tbl_tight_def may_grow_def)
  let ?h = "h(addr n \<mapsto> \<lparr>sb_refCount = 1, sb_len = of_nat (length ?bs), sb_bytes = ?bs\<rparr>)"
  obtain t' where t': "tbl_set_str (\<lambda>_. True) (addr n) h t (Some ?bs) 0 (Some zoneId) = Some (ERR_None, ?h, t')"
    "tbl_str_inv ?h t'" "free_exact t'" "tbl_str_map ?h t' = (tbl_str_map h t)(?bs \<mapsto> zoneId)"
    using set_str_ok [OF Cons.prems(1,2) grow v a, of "\<lambda>_. True" zoneId] none by (auto split: if_splits)
  obtain h1 where "tbl_set_impl (\<lambda>_. True) ?h t (addr n) False (Some zoneId) (str_hash ?bs) False = Some (ERR_None, h1, t')"
    using t'(1) unfolding tbl_set_str_eq [OF v a(1)] by (auto simp: bind_eq_Some_conv)
  from tight_set [OF ok(1) nl grow ok(2) disjI1 [OF a(1)] this Cons.prems(3)]
  have tight: "tbl_tight t'" "size (stored (tbl_data t')) \<le> Suc n" using Cons.prems(4) by auto
  have names: "\<forall>zn \<in> set zs. tbl_str_map ?h t' (bytes_of (snd zn)) = None"
    using Cons.prems(7,8) z by (auto simp: t'(4) bytes_of_inject)
  have "addr k \<noteq> addr n" if "k \<in> {Suc n..<Suc n + length zs}" for k
    using inj_onD [OF Cons.prems(10), of k n] that by auto
  then have fresh: "\<forall>k \<in> {Suc n..<Suc n + length zs}. addr k \<noteq> 0 \<and> ?h (addr k) = None"
    using Cons.prems(9) by auto
  have inj: "inj_on addr {Suc n..<Suc n + length zs}"
    by (rule inj_on_subset [OF Cons.prems(10)]) auto
  have "tbl_set_str (\<lambda>_. True) (addr n) h t (Some ?bs) (of_nat (length name)) (Some zoneId) = Some (ERR_None, ?h, t')"
    using t'(1) str_key_len_exact [OF v] by (simp add: tbl_set_str_def tbl_do_set_str_def bytes_of_def)
  moreover have "tbl_str_map ?h t' ++ name_map zs = tbl_str_map h t ++ name_map (z # zs)"
  proof -
    have "name_map zs ?bs = None" using Cons.prems(7) z unfolding name_map_None by (auto simp: bytes_of_inject)
    then show ?thesis unfolding t'(4) z by (auto simp: name_map_def fun_eq_iff map_add_def split: option.splits)
  qed
  moreover have rest: "Suc n + length zs < 2 ^ 28" "\<forall>zn \<in> set zs. str_valid (bytes_of (snd zn))" "distinct (map snd zs)"
    using Cons.prems(5-7) z by auto
  obtain h2 t2 where "zone_id_add_all (\<lambda>_. True) addr (Suc n) ?h t' zs = Some (ERR_None, h2, t2)" "tbl_str_inv h2 t2"
    "tbl_str_map h2 t2 = tbl_str_map ?h t' ++ name_map zs"
    using Cons.IH [OF t'(2,3) tight rest names fresh inj] by blast
  ultimately show ?case unfolding z by (intro exI [of _ h2] exI [of _ t2]) simp
qed

lemma zone_tables_equal: "zone_short_names = zone_id_adds"
  by (simp add: zone_short_names_def zone_id_adds_def)

lemma zone_names_ok: "length zone_id_adds = 127" "list_all (\<lambda>zn. snd zn \<noteq> [] \<and> list_all (\<lambda>c. c \<noteq> CHR 0x00) (snd zn) \<and> length (snd zn) < 16) zone_id_adds"
  "distinct (map snd zone_id_adds)" "distinct (map fst zone_id_adds)"
  by (simp_all add: zone_id_adds_def)

lemma zone_name_valid:
  assumes "zn \<in> set zone_id_adds"
  shows "str_valid (bytes_of (snd zn))"
proof -
  have "snd zn \<noteq> [] \<and> list_all (\<lambda>c. c \<noteq> CHR 0x00) (snd zn) \<and> length (snd zn) < 16"
    using zone_names_ok(2) assms by (simp add: list_all_iff)
  moreover have "c = CHR 0x00" if "(of_nat (of_char c) :: u8) = 0" for c :: char
  proof -
    have "unat (of_nat (of_char c) :: u8) = of_char c"
      by (intro unat_of_nat_small) (use nat_of_char_less_256 [of c] in simp)
    then have "of_char c = (of_char (CHR 0x00) :: nat)" using that by simp
    then show ?thesis by (simp only: of_char_eq_iff)
  qed
  ultimately show ?thesis by (auto simp: str_valid_def bytes_of_def list_all_iff)
qed

lemma zone_lookup:
  assumes "inj_on addr {..<127}" "\<forall>k < 127. addr k \<noteq> 0 \<and> h (addr k) = None"
  shows "\<exists>h' t. zone_id_init (\<lambda>_. True) addr h = Some (ERR_None, h', t) \<and> tbl_str_inv h' t \<and> tbl_str_map h' t = name_map zone_id_adds"
proof -
  let ?t = "tbl_init_size 4 :: int hashtbl"
  have d: "tbl_data ?t = []" by (simp add: tbl_init_size_def)
  have i: "tbl_str_inv h ?t" "free_exact ?t" "tbl_tight ?t" "size (stored (tbl_data ?t)) \<le> 0" "tbl_str_map h ?t = Map.empty"
    by (simp_all add: tbl_tight_def d stored_def)
  have z: "0 + length zone_id_adds < 2 ^ 28" "\<forall>zn \<in> set zone_id_adds. str_valid (bytes_of (snd zn))"
    "\<forall>zn \<in> set zone_id_adds. tbl_str_map h ?t (bytes_of (snd zn)) = None"
    "\<forall>k \<in> {0..<0 + length zone_id_adds}. addr k \<noteq> 0 \<and> h (addr k) = None" "inj_on addr {0..<0 + length zone_id_adds}"
    using zone_names_ok(1) zone_name_valid i(5) assms by (auto simp: atLeast0LessThan)
  from zone_id_add_all_ok [OF i(1-4) z(1,2) zone_names_ok(3) z(3-5)] show ?thesis using i(5) by (simp add: zone_id_init_def)
qed

text \<open>C31. The zone tables: filling the table of short names succeeds when there is memory, the short name of
  every zone that the server knows is found again under its number, through the hash table, and
  every other name gives 0.\<close>

theorem zone_id_roundtrip:
  assumes "inj_on addr {..<127}" "\<forall>k < 127. addr k \<noteq> 0 \<and> h (addr k) = None"
  shows "\<exists>h' t. zone_id_init (\<lambda>_. True) addr h = Some (ERR_None, h', t)
    \<and> (\<forall>i \<in> fst ` set zone_short_names. \<forall>name. name = zone_short_name_by_id i \<longrightarrow>
         zone_id_by_short_name h' t (bytes_of name) (of_nat (length name)) = Some i)
    \<and> (\<forall>bs. str_valid bs \<and> bs \<notin> bytes_of ` snd ` set zone_short_names \<longrightarrow>
         zone_id_by_short_name h' t bs (of_nat (length bs)) = Some 0)"
proof -
  obtain h' t where t: "zone_id_init (\<lambda>_. True) addr h = Some (ERR_None, h', t)" "tbl_str_inv h' t"
    "tbl_str_map h' t = name_map zone_id_adds"
    using zone_lookup [OF assms] by blast
  have look: "zone_id_by_short_name h' t bs (of_nat (length bs)) = Some (case name_map zone_id_adds bs of Some i \<Rightarrow> i | None \<Rightarrow> 0)"
    if "str_valid bs" for bs
    using get_str_ok [OF t(2) that] str_key_len_exact [OF that] t(3)
    by (simp add: zone_id_by_short_name_def tbl_get_str_raw_def split: option.splits)
  have "zone_id_by_short_name h' t (bytes_of (zone_short_name_by_id i)) (of_nat (length (zone_short_name_by_id i))) = Some i"
    if i: "i \<in> fst ` set zone_short_names" for i
  proof -
    obtain name where n: "(i, name) \<in> set zone_id_adds" using i zone_tables_equal by auto
    have s: "zone_short_name_by_id i = name"
      using n zone_names_ok(4) zone_tables_equal by (simp add: zone_short_name_by_id_def)
    have "distinct (map fst (map (\<lambda>(zoneId, name). (bytes_of name, zoneId)) zone_id_adds))"
      using zone_names_ok(3) by (auto simp: distinct_map comp_def case_prod_unfold inj_on_def bytes_of_inject)
    then have "name_map zone_id_adds (bytes_of name) = Some i"
      unfolding name_map_def by (rule map_of_is_SomeI) (use n in force)
    then show ?thesis using look [OF zone_name_valid [OF n]] s by (simp add: bytes_of_def)
  qed
  moreover have "zone_id_by_short_name h' t bs (of_nat (length bs)) = Some 0"
    if "str_valid bs" "bs \<notin> bytes_of ` snd ` set zone_short_names" for bs
  proof -
    have "name_map zone_id_adds bs = None" using that(2) zone_tables_equal unfolding name_map_None by auto
    then show ?thesis using look [OF that(1)] by simp
  qed
  ultimately show ?thesis using t(1) by blast
qed

theorem zone_id_roundtrip_witness:
  "\<exists>h' t. zone_id_init (\<lambda>_. True) (\<lambda>n. of_nat (n + 1)) (\<lambda>_. None) = Some (ERR_None, h', t)
    \<and> zone_id_by_short_name h' t (bytes_of ''gfaydark'') 8 = Some 54"
proof -
  let ?addr = "\<lambda>n. of_nat (n + 1) :: u64"
  have u: "unat (?addr n) = n + 1" if "n < 127" for n using that by (intro unat_of_nat_small) simp
  have "inj_on ?addr {..<127}" by (intro inj_onI) (metis u lessThan_iff add_right_imp_eq)
  moreover have "?addr k \<noteq> 0" if "k < 127" for k using u [OF that] by auto
  ultimately obtain h' t where t: "zone_id_init (\<lambda>_. True) ?addr (\<lambda>_. None) = Some (ERR_None, h', t)"
    "\<forall>i \<in> fst ` set zone_short_names. \<forall>name. name = zone_short_name_by_id i \<longrightarrow>
         zone_id_by_short_name h' t (bytes_of name) (of_nat (length name)) = Some i"
    using zone_id_roundtrip [of ?addr "\<lambda>_. None"] by blast
  have "54 \<in> fst ` set zone_short_names" "''gfaydark'' = zone_short_name_by_id 54"
    by (simp_all add: zone_short_names_def zone_short_name_by_id_def)
  with t(2) have "zone_id_by_short_name h' t (bytes_of ''gfaydark'') (of_nat (length ''gfaydark'')) = Some 54" by blast
  then show ?thesis using t(1) by auto
qed

end
