(* ===== verification/Zeq_ZoneState.thy ===== *)
theory Zeq_ZoneState
  imports Zeq_Client Zeq_ZoneId
begin

text \<open>
  The state of a zone in \<open>src/zone.c\<close> and its accessors, and the creatures in it. A \<open>Mob*\<close> is an
  address into \<open>creatures\<close>: the object there is a player, whose first member is the mob, or another
  mob. Queues, the Lua state and the timer pool of the thread are addresses that are only passed on.
\<close>

section \<open>Creatures\<close>

datatype creature = Player client | Creature mob

type_synonym creatures = "u64 \<Rightarrow> creature option"

fun creature_mob :: "creature \<Rightarrow> mob" where
  "creature_mob (Player client) = cn_mob client"
| "creature_mob (Creature mob) = mob"

text \<open>\<open>mob_as_client\<close>, a cast of the pointer; on a mob that is not part of a client it is undefined.\<close>

fun mob_as_client :: "creature \<Rightarrow> client option" where
  "mob_as_client (Player client) = Some client"
| "mob_as_client (Creature mob) = None"

fun creature_upd_mob :: "(mob \<Rightarrow> mob) \<Rightarrow> creature \<Rightarrow> creature" where
  "creature_upd_mob f (Player client) = Player (client\<lparr>cn_mob := f (cn_mob client)\<rparr>)"
| "creature_upd_mob f (Creature mob) = Creature (f mob)"

lemma creature_mob_upd [simp]: "creature_mob (creature_upd_mob f c) = f (creature_mob c)"
  by (cases c) simp_all

section \<open>The zone\<close>

record zone_fog =
  fog_red :: u8
  fog_green :: u8
  fog_blue :: u8
  fog_minClippingDistance :: u32
  fog_maxClippingDistance :: u32

record mob_loc_cache =
  lc_x :: u32
  lc_y :: u32
  lc_z :: u32
  lc_aggroRange :: u32

record zone =
  zn_luaIndex :: u32
  zn_clientCount :: u32
  zn_clientBroadcastAllCount :: u32
  zn_mobCount :: u32
  zn_npcCount :: u32
  zn_freeEntityIdCount :: u16
  zn_nextEntityId :: u16
  zn_zoneId :: u16
  zn_instId :: u16
  zn_skyType :: u16
  zn_zoneType :: u8
  zn_weatherType :: u32
  zn_weatherIntensity :: u32
  zn_fog :: "zone_fog list"
  zn_gravity :: u32
  zn_minZ :: u32
  zn_minClippingDistance :: u32
  zn_maxClippingDistance :: u32
  zn_safeSpot :: loc_h
  zn_logId :: u32
  zn_dbId :: u32
  zn_lua :: u64
  zn_mobs :: "u64 list"
  zn_mobLocs :: "mob_loc_cache list"
  zn_mobEntityIds :: "u16 list"
  zn_clients :: "u64 list"
  zn_clientsBroadcastAll :: "u64 list"
  zn_freeEntityIds :: "u16 list"
  zn_udpQueue :: u64
  zn_dbQueue :: u64
  zn_logQueue :: u64
  zn_staticPackets :: u64
  zn_zoneThread :: u64

text \<open>The value \<open>-1.0f\<close> that marks a client in the cache of positions.\<close>

definition ZONE_MOB_LOC_CACHE_CLIENT_VALUE :: u32 where "ZONE_MOB_LOC_CACHE_CLIENT_VALUE = 0xbf800000"

section \<open>Accessors\<close>

text \<open>A zone id is a signed 16-bit number.\<close>

definition zone_short_name :: "zone \<Rightarrow> string" where "zone_short_name zone = zone_short_name_by_id (sint (zn_zoneId zone))"
definition zone_long_name :: "zone \<Rightarrow> string" where "zone_long_name zone = zone_long_name_by_id (sint (zn_zoneId zone))"
definition zone_id :: "zone \<Rightarrow> u16" where "zone_id zone = zn_zoneId zone"
definition zone_inst_id :: "zone \<Rightarrow> u16" where "zone_inst_id zone = zn_instId zone"
definition zone_udp_queue :: "zone \<Rightarrow> u64" where "zone_udp_queue zone = zn_udpQueue zone"
definition zone_db_queue :: "zone \<Rightarrow> u64" where "zone_db_queue zone = zn_dbQueue zone"
definition zone_db_id :: "zone \<Rightarrow> u32" where "zone_db_id zone = zn_dbId zone"
definition zone_log_queue :: "zone \<Rightarrow> u64" where "zone_log_queue zone = zn_logQueue zone"
definition zone_log_id :: "zone \<Rightarrow> u32" where "zone_log_id zone = zn_logId zone"
definition zone_weather_type :: "zone \<Rightarrow> u32" where "zone_weather_type zone = zn_weatherType zone"
definition zone_weather_intensity :: "zone \<Rightarrow> u32" where "zone_weather_intensity zone = zn_weatherIntensity zone"
definition zone_sky_type :: "zone \<Rightarrow> u16" where "zone_sky_type zone = zn_skyType zone"
definition zone_type :: "zone \<Rightarrow> u8" where "zone_type zone = zn_zoneType zone"
definition zone_gravity :: "zone \<Rightarrow> u32" where "zone_gravity zone = zn_gravity zone"
definition zone_min_z :: "zone \<Rightarrow> u32" where "zone_min_z zone = zn_minZ zone"
definition zone_min_clip_dist :: "zone \<Rightarrow> u32" where "zone_min_clip_dist zone = zn_minClippingDistance zone"
definition zone_max_clip_dist :: "zone \<Rightarrow> u32" where "zone_max_clip_dist zone = zn_maxClippingDistance zone"
definition zone_safe_spot :: "zone \<Rightarrow> loc_h" where "zone_safe_spot zone = zn_safeSpot zone"
definition zone_static_packets :: "zone \<Rightarrow> u64" where "zone_static_packets zone = zn_staticPackets zone"
definition zone_set_lua_index :: "zone \<Rightarrow> u32 \<Rightarrow> zone" where "zone_set_lua_index zone index = zone\<lparr>zn_luaIndex := index\<rparr>"
definition zone_lua_index :: "zone \<Rightarrow> u32" where "zone_lua_index zone = zn_luaIndex zone"
definition zone_lua :: "zone \<Rightarrow> u64" where "zone_lua zone = zn_lua zone"
definition zone_mob_list :: "zone \<Rightarrow> u64 list" where "zone_mob_list zone = zn_mobs zone"
definition zone_mob_count :: "zone \<Rightarrow> u32" where "zone_mob_count zone = zn_mobCount zone"

text \<open>The code reads \<open>zone_fog(zone, 0)\<close> and goes on from there.\<close>

definition zone_fog_at :: "zone \<Rightarrow> nat \<Rightarrow> zone_fog" where "zone_fog_at zone n = zn_fog zone ! n"

definition zero_fog :: zone_fog where
  "zero_fog = \<lparr>fog_red = 0, fog_green = 0, fog_blue = 0, fog_minClippingDistance = 0, fog_maxClippingDistance = 0\<rparr>"

text \<open>The fields that \<open>zone_create\<close> sets before it opens the log file and initialises Lua.\<close>

definition zone_new :: "u64 \<Rightarrow> u64 \<Rightarrow> u64 \<Rightarrow> u32 \<Rightarrow> u32 \<Rightarrow> u32 \<Rightarrow> u64 \<Rightarrow> u64 \<Rightarrow> u64 \<Rightarrow> zone" where
  "zone_new logQueue udpQueue dbQueue dbId zoneId instId staticPackets L zt =
     \<lparr>zn_luaIndex = 0, zn_clientCount = 0, zn_clientBroadcastAllCount = 0, zn_mobCount = 0, zn_npcCount = 0,
      zn_freeEntityIdCount = 0, zn_nextEntityId = 1, zn_zoneId = ucast zoneId, zn_instId = ucast instId,
      zn_skyType = 0, zn_zoneType = 0xff, zn_weatherType = 0, zn_weatherIntensity = 0,
      zn_fog = replicate 4 (zero_fog\<lparr>fog_minClippingDistance := 0x41200000, fog_maxClippingDistance := 0x469c4000\<rparr>),
      zn_gravity = 0x3ecccccd, zn_minZ = 0xc6fa0000, zn_minClippingDistance = 0x447a0000,
      zn_maxClippingDistance = 0x469c4000, zn_safeSpot = zero_loc, zn_logId = 0, zn_dbId = dbId, zn_lua = L,
      zn_mobs = [], zn_mobLocs = [], zn_mobEntityIds = [], zn_clients = [], zn_clientsBroadcastAll = [],
      zn_freeEntityIds = [], zn_udpQueue = udpQueue, zn_dbQueue = dbQueue, zn_logQueue = logQueue,
      zn_staticPackets = staticPackets, zn_zoneThread = zt\<rparr>"

end
