(* ===== verification/Zeq_PacketCreate.thy ===== *)
theory Zeq_PacketCreate
  imports Zeq_PacketStruct Zeq_ZoneState
begin

text \<open>
  \<open>src/packet_create.c\<close>: the packets the server builds. Each function is the list of its writes,
  grouped by field, and \<open>packet_write_struct\<close>. \<open>block\<close> is the memory \<open>malloc\<close> answers with, \<open>None\<close>
  for none. A result \<open>None\<close> is undefined behaviour or a failed assertion, \<open>Some None\<close> a \<open>NULL\<close> packet.
\<close>

section \<open>Single-precision numbers\<close>

text \<open>The parts of a finite number, which is \<open>\<plusminus> mant * 2 ^ exp\<close>, and its truncation towards zero.\<close>

definition float_finite :: "u32 \<Rightarrow> bool" where
  "float_finite w \<longleftrightarrow> unat w div 2 ^ 23 mod 2 ^ 8 \<noteq> 255"

definition float_mant :: "u32 \<Rightarrow> nat" where
  "float_mant w = (if unat w div 2 ^ 23 mod 2 ^ 8 = 0 then unat w mod 2 ^ 23 else unat w mod 2 ^ 23 + 2 ^ 23)"

definition float_exp :: "u32 \<Rightarrow> int" where
  "float_exp w = (let e = unat w div 2 ^ 23 mod 2 ^ 8 in (if e = 0 then 1 else int e) - 150)"

definition float_sign :: "u32 \<Rightarrow> int" where
  "float_sign w = (if unat w div 2 ^ 31 = 0 then 1 else - 1)"

definition scale_trunc :: "nat \<Rightarrow> int \<Rightarrow> int" where
  "scale_trunc m e = (if e \<ge> 0 then int m * 2 ^ nat e else int (m div 2 ^ nat (- e)))"

text \<open>A product is rounded to 24 bits, to nearest and to even in the middle.\<close>

fun mant_excess :: "nat \<Rightarrow> nat" where
  "mant_excess m = (if m < 2 ^ 24 then 0 else Suc (mant_excess (m div 2)))"

declare mant_excess.simps [simp del]

definition round_even :: "nat \<Rightarrow> nat \<Rightarrow> nat" where
  "round_even m s = (let q = m div 2 ^ s; r = 2 * (m mod 2 ^ s)
     in if r > 2 ^ s \<or> (r = 2 ^ s \<and> odd q) then q + 1 else q)"

text \<open>The conversion \<open>(int16_t)(f * k)\<close>; out of range it is undefined.\<close>

definition float_scaled_to_int16 :: "u32 \<Rightarrow> nat \<Rightarrow> u16 option" where
  "float_scaled_to_int16 w k =
     (let m = float_mant w * k; s = mant_excess m;
          v = float_sign w * scale_trunc (round_even m s) (float_exp w + int s)
      in if float_finite w \<and> - (2 ^ 15) \<le> v \<and> v < 2 ^ 15 then Some (word_of_int v) else None)"

definition float_to_int16 :: "u32 \<Rightarrow> u16 option" where
  "float_to_int16 w = float_scaled_to_int16 w 1"

section \<open>Opcodes\<close>

definition OP_Weather :: u16 where "OP_Weather = 0x2136"
definition OP_ZoneInfo :: u16 where "OP_ZoneInfo = 0x205b"
definition OP_SpawnAppearance :: u16 where "OP_SpawnAppearance = 0x20f5"
definition OP_Spawn :: u16 where "OP_Spawn = 0x2149"
definition OP_SpawnsCompressed :: u16 where "OP_SpawnsCompressed = 0x2161"
definition OP_Unspawn :: u16 where "OP_Unspawn = 0x202b"
definition OP_Inventory :: u16 where "OP_Inventory = 0x2031"
definition OP_CustomMessage :: u16 where "OP_CustomMessage = 0x2180"
definition OP_SpellCastBegin :: u16 where "OP_SpellCastBegin = 0x20a9"
definition OP_HpUpdate :: u16 where "OP_HpUpdate = 0x20b2"
definition OP_ManaUpdate :: u16 where "OP_ManaUpdate = 0x217f"
definition OP_Animation :: u16 where "OP_Animation = 0x209f"
definition OP_LevelUpdate :: u16 where "OP_LevelUpdate = 0x2198"
definition OP_ExpUpdate :: u16 where "OP_ExpUpdate = 0x2199"
definition OP_AppearanceUpdate :: u16 where "OP_AppearanceUpdate = 0x2091"
definition OP_MaterialUpdate :: u16 where "OP_MaterialUpdate = 0x2092"
definition OP_SpellCastFinish :: u16 where "OP_SpellCastFinish = 0x2046"

section \<open>The packets\<close>

definition packet_create_zero_filled :: "u8 list option \<Rightarrow> u16 \<Rightarrow> u32 \<Rightarrow> tlg_packet option" where
  "packet_create_zero_filled block opcode sz =
     map_option (\<lambda>p. packet_fill p (replicate (unat sz) 0)) (packet_create block opcode sz)"

definition weather_fields :: "u32 \<Rightarrow> u32 \<Rightarrow> field_writes" where
  "weather_fields type intensity = [([''type''], [W32 type]), ([''intensity''], [W32 intensity])]"

definition packet_create_weather :: "u8 list option \<Rightarrow> u32 \<Rightarrow> u32 \<Rightarrow> tlg_packet option option" where
  "packet_create_weather block type intensity =
     packet_write_struct block OP_Weather PS_Weather (weather_fields type intensity)"

definition zone_info_fields :: "zone \<Rightarrow> field_writes" where
  "zone_info_fields zone =
     (let fog = zone_fog_at zone; safeSpot = zone_safe_spot zone in
      [([''characterName''], [WZeroes (sizeof_field PS_ZoneInfo ''characterName'')]),
       ([''zoneShortName''], [WText (sizeof_field PS_ZoneInfo ''zoneShortName'') (bytes_of (zone_short_name zone))]),
       ([''zoneLongName''], [WText (sizeof_field PS_ZoneInfo ''zoneLongName'') (bytes_of (zone_long_name zone))]),
       ([''zoneType''], [W8 (zone_type zone)]),
       ([''fogRed''], [W8 (fog_red (fog 0)), W8 (fog_red (fog 1)), W8 (fog_red (fog 2)), W8 (fog_red (fog 3))]),
       ([''fogGreen''], [W8 (fog_green (fog 0)), W8 (fog_green (fog 1)), W8 (fog_green (fog 2)), W8 (fog_green (fog 3))]),
       ([''fogBlue''], [W8 (fog_blue (fog 0)), W8 (fog_blue (fog 1)), W8 (fog_blue (fog 2)), W8 (fog_blue (fog 3))]),
       ([''unknownA''], [WZeroes (sizeof_field PS_ZoneInfo ''unknownA'')]),
       ([''fogMinClippingDistance''], [W32 (fog_minClippingDistance (fog 0)), W32 (fog_minClippingDistance (fog 1)),
          W32 (fog_minClippingDistance (fog 2)), W32 (fog_minClippingDistance (fog 3))]),
       ([''fogMaxClippingDistance''], [W32 (fog_maxClippingDistance (fog 0)), W32 (fog_maxClippingDistance (fog 1)),
          W32 (fog_maxClippingDistance (fog 2)), W32 (fog_maxClippingDistance (fog 3))]),
       ([''gravity''], [W32 (zone_gravity zone)]),
       ([''unknownB''], [W8 0x20, WMemset 0x0a 4, W8 0x18, W8 0x06, W8 0x02, W8 0x0a, WZeroes 8, WMemset 0xff 32, W8 0]),
       ([''skyType''], [W16 (zone_sky_type zone)]),
       ([''unknownC''], [W8 0x04, W8 0, W8 0x02, WZeroes 5]),
       ([''unknownD''], [W32 0x3f400000]),
       ([''safeSpotX''], [W32 (lh_x safeSpot)]),
       ([''safeSpotY''], [W32 (lh_y safeSpot)]),
       ([''safeSpotZ''], [W32 (lh_z safeSpot)]),
       ([''safeSpotHeading''], [W32 (lh_heading safeSpot)]),
       ([''minZ''], [W32 (zone_min_z zone)]),
       ([''minClippingDistance''], [W32 (zone_min_clip_dist zone)]),
       ([''maxClippingDistance''], [W32 (zone_max_clip_dist zone)]),
       ([''unknownE''], [WZeroes (sizeof_field PS_ZoneInfo ''unknownE'')])])"

definition packet_create_zone_info :: "u8 list option \<Rightarrow> zone \<Rightarrow> tlg_packet option option" where
  "packet_create_zone_info block zone = packet_write_struct block OP_ZoneInfo PS_ZoneInfo (zone_info_fields zone)"

text \<open>\<open>(uint32_t)entityId\<close> extends the sign.\<close>

definition spawn_appearance_fields :: "u16 \<Rightarrow> u16 \<Rightarrow> u32 \<Rightarrow> field_writes" where
  "spawn_appearance_fields entityId typeId val =
     [([''entityId''], [W32 (scast entityId)]), ([''typeId''], [W16 typeId]), ([''unknown''], [W16 0]), ([''value''], [W32 val])]"

definition packet_create_spawn_appearance :: "u8 list option \<Rightarrow> u16 \<Rightarrow> u16 \<Rightarrow> u32 \<Rightarrow> tlg_packet option option" where
  "packet_create_spawn_appearance block entityId typeId val =
     packet_write_struct block OP_SpawnAppearance PS_SpawnAppearance (spawn_appearance_fields entityId typeId val)"

section \<open>Spawns\<close>

definition rol32 :: "nat \<Rightarrow> u32 \<Rightarrow> u32" where
  "rol32 n w = (push_bit n w) OR (drop_bit (32 - n) w)"

fun obfuscate_spawn_words :: "u32 \<Rightarrow> u32 list \<Rightarrow> u32 list" where
  "obfuscate_spawn_words cur [] = []"
| "obfuscate_spawn_words cur (w # ws) =
     (let nxt = cur + w - 0x65e7;
          v = rol32 0x09 w + 0x65e7;
          v = rol32 0x0d v;
          v = v - cur
      in v # obfuscate_spawn_words nxt ws)"

text \<open>The 32-bit words of a buffer; the bytes behind the last whole word stay.\<close>

fun words_of :: "u8 list \<Rightarrow> u32 list" where
  "words_of (a # b # c # d # bs) = of_le32 [a, b, c, d] # words_of bs"
| "words_of bs = []"

definition on_words :: "(u32 list \<Rightarrow> u32 list) \<Rightarrow> u8 list \<Rightarrow> u8 list" where
  "on_words f bs = concat (map le32 (f (words_of bs))) @ drop (4 * (length bs div 4)) bs"

definition packet_obfuscate_spawn :: "u8 list \<Rightarrow> u8 list" where
  "packet_obfuscate_spawn data = on_words (obfuscate_spawn_words 0) data"

text \<open>Word \<open>0\<close> and word \<open>len / 8\<close> are swapped first; a buffer shorter than both is overrun.\<close>

definition packet_obfuscate_spawns_compressed :: "u8 list \<Rightarrow> u8 list option" where
  "packet_obfuscate_spawns_compressed data =
     (let i = length data div 8
      in if 4 * (i + 1) \<le> length data
         then Some (packet_obfuscate_spawn (on_words (\<lambda>ws. ws[0 := ws ! i, i := ws ! 0]) data))
         else None)"

definition client_flag :: "bool \<Rightarrow> wop" where
  "client_flag b = W8 (if b then 1 else 0)"

text \<open>The switch on the kind of a mob has no default: \<open>temp\<close> keeps the race.\<close>

definition spawn_mob_type :: "u8 \<Rightarrow> u16 \<Rightarrow> u8" where
  "spawn_mob_type mobType raceId =
     (if mobType = MOB_PARENT_TYPE_Npc \<or> mobType = MOB_PARENT_TYPE_Pet then 1
      else if mobType = MOB_PARENT_TYPE_Client then 0
      else if mobType = MOB_PARENT_TYPE_NpcCorpse then 3
      else if mobType = MOB_PARENT_TYPE_ClientCorpse then 2
      else ucast raceId)"

text \<open>The fields, given the client if the mob says it belongs to one, and the converted numbers.\<close>

definition spawn_fields :: "sheap \<Rightarrow> mob \<Rightarrow> client option \<Rightarrow> u16 \<times> u16 \<times> u16 \<Rightarrow> int \<Rightarrow> field_writes" where
  "spawn_fields h mob client pos hpRatio =
     (let (y, x, z) = pos; tint = (\<lambda>n. W32 (mb_tint mob ! n)); material = (\<lambda>n. W8 (mob_material_id mob n)) in
      [([''unknownA''], [W32 0]),
       ([''size''], [W32 (mb_currentSize mob)]),
       ([''walkingSpeed''], [W32 (mb_currentWalkingSpeed mob)]),
       ([''runningSpeed''], [W32 (mb_currentRunningSpeed mob)]),
       ([''tints''], [tint 0, tint 1, tint 2, tint 3, tint 4, tint 5, tint 6]),
       ([''unknownB''], [WZeroes (sizeof_field PS_Spawn ''unknownB'')]),
       ([''heading''], [W8 (ucast (mb_headingRaw mob))]),
       ([''headingDelta''], [W8 0]),
       ([''y''], [W16 y]), ([''x''], [W16 x]), ([''z''], [W16 z]),
       ([''deltas''], [W32 0]),
       ([''unknownC''], [W8 0]),
       ([''entityId''], [W16 (mb_entityId mob)]),
       ([''bodyType''], [W16 (ucast (mb_bodyType mob))]),
       ([''ownerEntityId''], [W16 (mb_ownerEntityId mob)]),
       ([''hpPercent''], [W16 (word_of_int hpRatio)]),
       ([''guildId''], [W16 (case client of Some c \<Rightarrow> ucast (client_guild_id_or_ffff c) | None \<Rightarrow> 0xffff)]),
       ([''raceId''], [W8 (if mb_raceId mob > 0xff then 1 else ucast (mb_raceId mob))]),
       ([''mobType''], [W8 (spawn_mob_type (mb_parentType mob) (mb_raceId mob))]),
       ([''classId''], [W8 (mb_classId mob)]),
       ([''genderId''], [W8 (mb_genderId mob)]),
       ([''level''], [W8 (mb_level mob)]),
       ([''isInvisible''], [W8 0]),
       ([''unknownD''], [W8 0]),
       ([''isPvP''], [case client of Some c \<Rightarrow> client_flag (client_is_pvp c) | None \<Rightarrow> W8 0]),
       ([''uprightState''], [W8 (mb_uprightState mob)]),
       ([''lightLevel''], [W8 (mb_lightLevel mob)])] @
      (case client of
         Some c \<Rightarrow>
           [([''anon''], [W8 (client_anon_setting c)]),
            ([''isAfk''], [client_flag (client_is_afk c)]),
            ([''unknownE''], [W8 0]),
            ([''isLinkdead''], [client_flag (client_is_linkdead c)]),
            ([''isGM''], [client_flag (client_is_gm c)])]
       | None \<Rightarrow> [([''anon'', ''isAfk'', ''unknownE'', ''isLinkdead'', ''isGM''], [WZeroes 5])]) @
      [([''unknownF''], [W8 0]),
       ([''textureId''], [W8 (mb_textureId mob)]),
       ([''helmTextureId''], [W8 (mb_helmTextureId mob)]),
       ([''unknownG''], [W8 0]),
       ([''materialIds''], [material 0, material 1, material 2, material 3, material 4, material 5, material 6,
          W8 (mb_primaryWeaponModelId mob), W8 (mb_secondaryWeaponModelId mob)]),
       ([''name''], [WText (sizeof_field PS_Spawn ''name'') (mob_name_str h mob)])] @
      (case client of
         Some c \<Rightarrow>
           [([''surname''], [WText (sizeof_field PS_Spawn ''surname'') (client_surname_str_no_null h c)]),
            ([''guildRank''], [W8 (client_guild_rank_or_ff c)])]
       | None \<Rightarrow> [([''surname'', ''guildRank''], [WZeroes (sizeof_field PS_Spawn ''surname'' + sizeof_field PS_Spawn ''guildRank'')])]) @
      [([''unknownH''], [W8 0]),
       ([''deityId''], [W16 (mb_deityId mob)]),
       ([''unknownI''], [WZeroes (sizeof_field PS_Spawn ''unknownI'')])])"

definition packet_fill_spawn :: "sheap \<Rightarrow> creature \<Rightarrow> field_writes option" where
  "packet_fill_spawn h c =
     (let mob = creature_mob c
      in Option.bind (if mb_parentType mob = MOB_PARENT_TYPE_Client then map_option Some (mob_as_client c) else Some None) (\<lambda>client.
           Option.bind (float_to_int16 (lh_y (mb_loc mob))) (\<lambda>y.
             Option.bind (float_to_int16 (lh_x (mb_loc mob))) (\<lambda>x.
               Option.bind (float_scaled_to_int16 (lh_z (mb_loc mob)) 10) (\<lambda>z.
                 map_option (spawn_fields h mob client (y, x, z)) (mob_hp_ratio mob))))))"

text \<open>The payload is obfuscated in place.\<close>

definition packet_map_data :: "(u8 list \<Rightarrow> u8 list) \<Rightarrow> tlg_packet \<Rightarrow> tlg_packet" where
  "packet_map_data f p = packet_fill p (f (take (unat (packet_length p)) (drop TLG_PACKET_DATA_OFFSET (pk_data p))))"

definition packet_create_spawn :: "u8 list option \<Rightarrow> sheap \<Rightarrow> creature \<Rightarrow> tlg_packet option option" where
  "packet_create_spawn block h c =
     Option.bind (packet_fill_spawn h c) (\<lambda>fw.
       map_option (map_option (packet_map_data packet_obfuscate_spawn))
         (packet_write_struct block OP_Spawn PS_Spawn fw))"

text \<open>\<open>compress2\<close> is zlib's: it answers with the compressed bytes, or \<open>None\<close> for an error code. \<open>buffer\<close>
  says whether its output buffer could be allocated, \<open>block\<close> the memory of the packet.\<close>

definition packet_spawns_compress_obfuscate ::
    "(u8 list \<Rightarrow> u8 list option) \<Rightarrow> bool \<Rightarrow> u8 list option \<Rightarrow> u8 list \<Rightarrow> tlg_packet option option" where
  "packet_spawns_compress_obfuscate compress2 buffer block data =
     (if \<not> buffer then Some None
      else case compress2 data of
        None \<Rightarrow> Some None
      | Some bytes \<Rightarrow> Option.bind (packet_obfuscate_spawns_compressed bytes) (\<lambda>bytes.
          Some (map_option (\<lambda>p. packet_fill p bytes) (packet_create block OP_SpawnsCompressed (of_nat (length bytes))))))"

fun fill_spawns :: "sheap \<Rightarrow> creatures \<Rightarrow> u64 list \<Rightarrow> aligned \<Rightarrow> aligned option" where
  "fill_spawns h cs [] a = Some a"
| "fill_spawns h cs (m # ms) a =
     Option.bind (cs m) (\<lambda>c. Option.bind (packet_fill_spawn h c) (\<lambda>fw.
       Option.bind (write_ops (field_ops fw) a) (fill_spawns h cs ms)))"

text \<open>\<open>data\<close> is the memory for all spawns, \<open>None\<close> if there is none.\<close>

definition packet_create_spawns_compressed ::
    "(u8 list \<Rightarrow> u8 list option) \<Rightarrow> bool \<Rightarrow> u8 list option \<Rightarrow> u8 list option \<Rightarrow> sheap \<Rightarrow> creatures \<Rightarrow> zone \<Rightarrow> tlg_packet option option" where
  "packet_create_spawns_compressed compress2 buffer block data h cs zone =
     (let n = zone_mob_count zone; len = n * of_nat (struct_size PS_Spawn)
      in if n = 0 then Some None
         else case data of
           None \<Rightarrow> Some None
         | Some data \<Rightarrow>
             Option.bind (fill_spawns h cs (take (unat n) (zone_mob_list zone)) (aligned_init data len)) (\<lambda>a.
               packet_spawns_compress_obfuscate compress2 buffer block (al_buffer a)))"

definition unspawn_fields :: "u16 \<Rightarrow> field_writes" where
  "unspawn_fields entityId = [([''entityId''], [W16 entityId]), ([''unknown''], [W32 0])]"

definition packet_create_unspawn :: "u8 list option \<Rightarrow> u16 \<Rightarrow> tlg_packet option option" where
  "packet_create_unspawn block entityId = packet_write_struct block OP_Unspawn PS_Unspawn (unspawn_fields entityId)"

section \<open>Messages and updates\<close>

text \<open>\<open>str\<close> includes the \<open>NUL\<close> behind its \<open>len\<close> bytes.\<close>

definition packet_create_custom_message :: "u8 list option \<Rightarrow> u32 \<Rightarrow> u8 list \<Rightarrow> u32 \<Rightarrow> tlg_packet option option" where
  "packet_create_custom_message block chatChannel str len =
     (let len = len + 1
      in if length str < unat len then None
         else packet_write block OP_CustomMessage (of_nat (struct_size PS_CustomMessage) + len)
           [W32 chatChannel, WBuf (take (unat len) str)])"

text \<open>\<open>out\<close> is what \<open>vsnprintf\<close> formats; \<open>bad\<close> says that it reports an error.\<close>

definition packet_create_custom_message_format :: "u8 list option \<Rightarrow> u32 \<Rightarrow> bool \<Rightarrow> u8 list \<Rightarrow> tlg_packet option option" where
  "packet_create_custom_message_format block chatChannel bad out =
     (if bad \<or> out = [] then Some None
      else let buf = take 4095 out @ [0];
               len = (if length out \<ge> 4096 then 4095 else of_nat (length out))
           in packet_create_custom_message block chatChannel buf len)"

definition spell_cast_begin_fields :: "mob \<Rightarrow> u32 \<Rightarrow> u32 \<Rightarrow> field_writes" where
  "spell_cast_begin_fields mob spellId castTimeMs =
     [([''casterId''], [W32 (scast (mb_entityId mob))]), ([''spellId''], [W32 spellId]), ([''castTimeMs''], [W32 castTimeMs])]"

definition packet_create_spell_cast_begin :: "u8 list option \<Rightarrow> mob \<Rightarrow> u32 \<Rightarrow> u32 \<Rightarrow> tlg_packet option option" where
  "packet_create_spell_cast_begin block mob spellId castTimeMs =
     packet_write_struct block OP_SpellCastBegin PS_SpellCastBegin (spell_cast_begin_fields mob spellId castTimeMs)"

definition hp_update_fields :: "u32 \<Rightarrow> int \<Rightarrow> int \<Rightarrow> field_writes" where
  "hp_update_fields entityId curHp maxHp =
     [([''entityId''], [W32 entityId]), ([''curHp''], [W32 (word_of_int curHp)]), ([''maxHp''], [W32 (word_of_int maxHp)])]"

definition packet_create_hp_update_percentage :: "u8 list option \<Rightarrow> u32 \<Rightarrow> int \<Rightarrow> tlg_packet option option" where
  "packet_create_hp_update_percentage block entityId hpRatio =
     packet_write_struct block OP_HpUpdate PS_HpUpdate (hp_update_fields entityId hpRatio 100)"

definition packet_create_hp_update_self :: "u8 list option \<Rightarrow> client \<Rightarrow> tlg_packet option option" where
  "packet_create_hp_update_self block client =
     (let hpFromItems = client_hp_from_items client; mob = client_mob client;
          curHp = cap_max (to_int32 (mb_currentHp mob - hpFromItems)) 30000;
          maxHp = cap_max (to_int32 (st_maxHp (mb_cappedStats mob) - hpFromItems)) 30000
      in packet_write_struct block OP_HpUpdate PS_HpUpdate (hp_update_fields (scast (mb_entityId mob)) curHp maxHp))"

definition mana_update_fields :: "u16 \<Rightarrow> u16 \<Rightarrow> field_writes" where
  "mana_update_fields mana lastSpellId = [([''mana''], [W16 mana]), ([''lastSpellId''], [W16 lastSpellId])]"

definition packet_create_mana_update :: "u8 list option \<Rightarrow> u16 \<Rightarrow> u16 \<Rightarrow> tlg_packet option option" where
  "packet_create_mana_update block mana lastSpellId =
     packet_write_struct block OP_ManaUpdate PS_ManaUpdate (mana_update_fields mana lastSpellId)"

definition animation_fields :: "u32 \<Rightarrow> u32 \<Rightarrow> field_writes" where
  "animation_fields entityId animId =
     [([''entityId''], [W32 entityId]), ([''animId''], [W32 animId]), ([''unknown''], [W32 0x3f800000])]"

definition packet_create_animation :: "u8 list option \<Rightarrow> u32 \<Rightarrow> u32 \<Rightarrow> tlg_packet option option" where
  "packet_create_animation block entityId animId =
     packet_write_struct block OP_Animation PS_Animation (animation_fields entityId animId)"

definition level_update_fields :: "u8 \<Rightarrow> field_writes" where
  "level_update_fields level = [([''level''], [W8 level]), ([''flagAlwaysOne''], [W8 1])]"

definition packet_create_level_update :: "u8 list option \<Rightarrow> u8 \<Rightarrow> tlg_packet option option" where
  "packet_create_level_update block level = packet_write_struct block OP_LevelUpdate PS_LevelUpdate (level_update_fields level)"

definition exp_update_fields :: "u32 \<Rightarrow> field_writes" where
  "exp_update_fields currentExp = [([''currentExp''], [W32 currentExp])]"

definition packet_create_exp_update :: "u8 list option \<Rightarrow> u32 \<Rightarrow> tlg_packet option option" where
  "packet_create_exp_update block currentExp = packet_write_struct block OP_ExpUpdate PS_ExpUpdate (exp_update_fields currentExp)"

definition appearance_update_fields :: "sheap \<Rightarrow> mob \<Rightarrow> field_writes" where
  "appearance_update_fields h mob =
     (let tex = (\<lambda>texId. W16 (if texId = 0xff then 0 else ucast (texId :: u8))) in
      [([''name''], [WText (sizeof_field PS_AppearanceUpdate ''name'') (mob_name_str_no_null h mob)]),
       ([''target''], [WText (sizeof_field PS_AppearanceUpdate ''target'') (mob_name_str_no_null h mob)]),
       ([''unknownA''], [W16 0]),
       ([''unknownAlways24''], [W16 24]),
       ([''unknownB''], [WZeroes (sizeof_field PS_AppearanceUpdate ''unknownB'')]),
       ([''raceId''], [W16 (mb_raceId mob)]),
       ([''genderId''], [W16 (ucast (mb_genderId mob))]),
       ([''textureId''], [tex (mb_textureId mob)]),
       ([''helmTextureId''], [tex (mb_helmTextureId mob)]),
       ([''faceId''], [W16 (ucast (mb_faceId mob))])])"

definition packet_create_appearance_update :: "u8 list option \<Rightarrow> sheap \<Rightarrow> mob \<Rightarrow> tlg_packet option option" where
  "packet_create_appearance_update block h mob =
     packet_write_struct block OP_AppearanceUpdate PS_AppearanceUpdate (appearance_update_fields h mob)"

definition material_update_fields :: "u16 \<Rightarrow> u8 \<Rightarrow> u8 \<Rightarrow> u32 \<Rightarrow> field_writes" where
  "material_update_fields entityId slotId materialId color =
     [([''spawnId''], [W32 (scast entityId)]), ([''slotId''], [W8 slotId]), ([''materialId''], [W8 materialId]),
      ([''operationId''], [W16 (if slotId < 7 then 0x4d else 0)]), ([''color''], [W32 color]),
      ([''unknownA''], [W8 0]), ([''flag''], [W8 0]), ([''unknownB''], [W16 0])]"

definition packet_create_material_update :: "u8 list option \<Rightarrow> u16 \<Rightarrow> u8 \<Rightarrow> u8 \<Rightarrow> u32 \<Rightarrow> tlg_packet option option" where
  "packet_create_material_update block entityId slotId materialId color =
     packet_write_struct block OP_MaterialUpdate PS_MaterialUpdate (material_update_fields entityId slotId materialId color)"

text \<open>These writes carry no names of fields in the code.\<close>

definition test_ops :: "u16 \<Rightarrow> u16 \<Rightarrow> wop list" where
  "test_ops entityId spellId = [W32 (scast entityId), W32 (scast entityId), W8 1, W8 0, W8 65, W8 0, W8 10, WMemset 0 7,
     W32 0, W32 0, W32 231, W16 spellId, W8 0, W8 4]"

definition packet_create_test :: "u8 list option \<Rightarrow> u16 \<Rightarrow> u16 \<Rightarrow> u32 \<Rightarrow> u8 \<Rightarrow> tlg_packet option option" where
  "packet_create_test block entityId spellId whichByte val =
     map_option (map_option (packet_map_data (\<lambda>bs. if unat whichByte < length bs then bs[unat whichByte := val] else bs)))
       (packet_write block OP_SpellCastFinish (of_nat (struct_size PS_SpellCastFinish)) (test_ops entityId spellId))"

section \<open>The client undoes the obfuscation\<close>

definition ror32 :: "nat \<Rightarrow> u32 \<Rightarrow> u32" where
  "ror32 n w = (drop_bit n w) OR (push_bit (32 - n) w)"

fun deobfuscate_spawn_words :: "u32 \<Rightarrow> u32 list \<Rightarrow> u32 list" where
  "deobfuscate_spawn_words cur [] = []"
| "deobfuscate_spawn_words cur (v # vs) =
     (let w = ror32 0x09 (ror32 0x0d (v + cur) - 0x65e7) in w # deobfuscate_spawn_words (cur + w - 0x65e7) vs)"

definition deobfuscate_spawn :: "u8 list \<Rightarrow> u8 list" where
  "deobfuscate_spawn data = on_words (deobfuscate_spawn_words 0) data"

lemma ror_rol: "0 < n \<Longrightarrow> n < 32 \<Longrightarrow> ror32 n (rol32 n w) = w"
proof (rule bit_word_eqI)
  fix i assume n: "0 < n" "n < 32" and "i < LENGTH(32)"
  then have i: "i < 32" by simp
  show "bit (ror32 n (rol32 n w)) i = bit w i"
  proof (cases "n + i < 32")
    case True
    then show ?thesis using n i by (auto simp: ror32_def rol32_def bit_simps)
  next
    case False
    then have "32 + (i + n - 32) - n = i" "i - (32 - n) + (32 - n) = i" using n by auto
    then show ?thesis using n i False by (auto simp: ror32_def rol32_def bit_simps)
  qed
qed

lemma deobfuscate_words: "deobfuscate_spawn_words cur (obfuscate_spawn_words cur ws) = ws"
  by (induction ws arbitrary: cur) (simp_all add: Let_def ror_rol)

lemma obfuscate_words_length [simp]: "length (obfuscate_spawn_words cur ws) = length ws"
  by (induction ws arbitrary: cur) (simp_all add: Let_def)

lemma le32_of_le32: "le32 (of_le32 [a, b, c, d]) = [a, b, c, d]"
proof -
  have "le_byte (of_le32 [a, b, c, d]) (8 * k) = [a, b, c, d] ! k" if "k < 4" for k
  proof (rule bit_word_eqI)
    fix n assume "n < LENGTH(8)"
    moreover have "k = 0 \<or> k = 1 \<or> k = 2 \<or> k = 3" using that by auto
    ultimately show "bit (le_byte (of_le32 [a, b, c, d]) (8 * k)) n = bit ([a, b, c, d] ! k) n"
      by (elim disjE) (auto simp: bit_le_byte of_le32_def bit_simps dest: bit_imp_le_length)
  qed
  from this [of 0] this [of 1] this [of 2] this [of 3] show ?thesis by (simp add: le_bytes)
qed

lemma words_of_bytes: "words_of (concat (map le32 ws) @ r) = ws @ words_of r"
proof (induction ws)
  case (Cons w ws)
  obtain a b c d where "le32 w = [a, b, c, d]" by (simp add: le_bytes)
  then show ?case using Cons of_le32_le32 [of w] by simp
qed simp

lemma words_of_short: "length r < 4 \<Longrightarrow> words_of r = []"
  by (cases r rule: words_of.cases) auto

lemma length_words_of [simp]: "length (words_of bs) = length bs div 4"
  by (induction bs rule: words_of.induct) auto

lemma bytes_of_words: "concat (map le32 (words_of bs)) @ drop (4 * (length bs div 4)) bs = bs"
proof (induction bs rule: words_of.induct)
  case (1 a b c d bs)
  have "4 * ((4 + length bs) div 4) = Suc (Suc (Suc (Suc (4 * (length bs div 4)))))" by presburger
  then show ?case using 1 by (simp add: le32_of_le32)
qed simp_all

lemma concat_le32_length: "length (concat (map le32 ws)) = 4 * length ws"
  by (induction ws) (simp_all add: le_bytes)

lemma on_words_length: "length (f (words_of bs)) = length bs div 4 \<Longrightarrow> length (on_words f bs) = length bs"
  using times_div_less_eq_dividend [of 4 "length bs"] by (simp add: on_words_def concat_le32_length)

lemma on_words_on_words:
  assumes "length (f (words_of bs)) = length bs div 4"
  shows "on_words g (on_words f bs) = on_words (\<lambda>ws. g (f ws)) bs"
proof -
  let ?r = "drop (4 * (length bs div 4)) bs"
  have r: "length ?r < 4" by simp
  have w: "words_of (on_words f bs) = f (words_of bs)"
    unfolding on_words_def words_of_bytes words_of_short [OF r] by simp
  have "drop (4 * (length bs div 4)) (on_words f bs) = ?r"
    using assms by (simp add: on_words_def concat_le32_length)
  then show ?thesis using on_words_length [where f = f and bs = bs, OF assms] w by (simp add: on_words_def [of g] on_words_def [of "\<lambda>ws. g (f ws)"])
qed

lemma on_words_id: "on_words (\<lambda>ws. ws) bs = bs"
  unfolding on_words_def by (rule bytes_of_words)

lemma deobfuscate_obfuscate: "deobfuscate_spawn (packet_obfuscate_spawn data) = data"
proof -
  have "deobfuscate_spawn (packet_obfuscate_spawn data) =
      on_words (\<lambda>ws. deobfuscate_spawn_words 0 (obfuscate_spawn_words 0 ws)) data"
    unfolding deobfuscate_spawn_def packet_obfuscate_spawn_def by (rule on_words_on_words) simp
  then show ?thesis by (simp only: deobfuscate_words on_words_id)
qed

text \<open>The words of the compressed variant are swapped back.\<close>

definition deobfuscate_spawns_compressed :: "u8 list \<Rightarrow> u8 list" where
  "deobfuscate_spawns_compressed data =
     (let i = length data div 8 in on_words (\<lambda>ws. ws[0 := ws ! i, i := ws ! 0]) (deobfuscate_spawn data))"

lemma swap_swap: "i < length xs \<Longrightarrow> (let ys = xs[0 := xs ! i, i := xs ! 0] in ys[0 := ys ! i, i := ys ! 0]) = xs"
  unfolding Let_def
proof (rule nth_equalityI)
  fix j assume "i < length xs"
    "j < length ((xs[0 := xs ! i, i := xs ! 0])[0 := xs[0 := xs ! i, i := xs ! 0] ! i, i := xs[0 := xs ! i, i := xs ! 0] ! 0])"
  then have "0 < length xs" "i < length xs" "j < length xs" by auto
  then show "(xs[0 := xs ! i, i := xs ! 0])[0 := xs[0 := xs ! i, i := xs ! 0] ! i, i := xs[0 := xs ! i, i := xs ! 0] ! 0] ! j = xs ! j"
    by (cases "i = 0"; cases "j = 0"; cases "j = i") simp_all
qed simp

text \<open>C32. The obfuscation of spawns loses nothing: the client, which reverses the rotations and additions and, for
  the compressed packet, the exchange of two words, gets back every payload, of whatever length;
  the exchange is inside the buffer for every payload of at least eight bytes.\<close>

theorem packet_obfuscation_invertible:
  "deobfuscate_spawn (packet_obfuscate_spawn data) = data
   \<and> (length data \<ge> 8 \<longrightarrow> (\<exists>out. packet_obfuscate_spawns_compressed data = Some out \<and> length out = length data
        \<and> deobfuscate_spawns_compressed out = data))"
proof (intro conjI impI)
  show "deobfuscate_spawn (packet_obfuscate_spawn data) = data" by (rule deobfuscate_obfuscate)
  assume len: "length data \<ge> 8"
  let ?i = "length data div 8"
  have i: "?i < length data div 4" "4 * (?i + 1) \<le> length data" using len by presburger+
  let ?swap = "\<lambda>ws :: u32 list. ws[0 := ws ! ?i, ?i := ws ! 0]"
  let ?out = "packet_obfuscate_spawn (on_words ?swap data)"
  have o: "packet_obfuscate_spawns_compressed data = Some ?out"
    using i(2) by (simp add: packet_obfuscate_spawns_compressed_def Let_def)
  have l: "length ?out = length data" unfolding packet_obfuscate_spawn_def by (simp add: on_words_length)
  have "deobfuscate_spawns_compressed ?out = on_words ?swap (on_words ?swap data)"
    unfolding deobfuscate_spawns_compressed_def Let_def l deobfuscate_obfuscate ..
  also have "\<dots> = on_words (\<lambda>ws. ?swap (?swap ws)) data" by (rule on_words_on_words) simp
  also have "\<dots> = on_words (\<lambda>ws. ws) data"
    using swap_swap [of ?i "words_of data"] i(1) by (simp add: on_words_def Let_def)
  finally show "\<exists>out. packet_obfuscate_spawns_compressed data = Some out \<and> length out = length data
      \<and> deobfuscate_spawns_compressed out = data"
    using o l on_words_id by auto
qed

theorem packet_obfuscation_invertible_witness:
  "\<exists>out. packet_obfuscate_spawns_compressed [1, 2, 3, 4, 5, 6, 7, 8, 9] = Some out
     \<and> deobfuscate_spawns_compressed out = [1, 2, 3, 4, 5, 6, 7, 8, 9]"
  using packet_obfuscation_invertible [of "[1, 2, 3, 4, 5, 6, 7, 8, 9]"] by auto

section \<open>Every packet fits its struct\<close>

lemma fits_fields_simps:
  "fits (weather_fields a b) PS_Weather"
  "fits (spawn_appearance_fields e ty v) PS_SpawnAppearance"
  "fits (unspawn_fields e) PS_Unspawn"
  "fits (spell_cast_begin_fields mob s c) PS_SpellCastBegin"
  "fits (hp_update_fields i cur mx) PS_HpUpdate"
  "fits (mana_update_fields m l) PS_ManaUpdate"
  "fits (animation_fields i an) PS_Animation"
  "fits (level_update_fields lv) PS_LevelUpdate"
  "fits (exp_update_fields x) PS_ExpUpdate"
  "fits (appearance_update_fields h mob) PS_AppearanceUpdate"
  "fits (material_update_fields e sl mat col) PS_MaterialUpdate"
  by (simp_all add: weather_fields_def PS_Weather_def spawn_appearance_fields_def PS_SpawnAppearance_def unspawn_fields_def
      PS_Unspawn_def spell_cast_begin_fields_def PS_SpellCastBegin_def hp_update_fields_def PS_HpUpdate_def
      mana_update_fields_def PS_ManaUpdate_def animation_fields_def PS_Animation_def level_update_fields_def PS_LevelUpdate_def
      exp_update_fields_def PS_ExpUpdate_def appearance_update_fields_def PS_AppearanceUpdate_def material_update_fields_def
      PS_MaterialUpdate_def Let_def)

lemma fits_zone_info: "fits (zone_info_fields zone) PS_ZoneInfo"
  by (simp add: zone_info_fields_def PS_ZoneInfo_def Let_def)

lemma fits_spawn: "fits (spawn_fields h mob client pos hpRatio) PS_Spawn"
  by (cases client; cases pos) (simp_all add: spawn_fields_def PS_Spawn_def client_flag_def Let_def)

lemma struct_sizes:
  "struct_size PS_Weather = 8" "struct_size PS_ZoneInfo = 404" "struct_size PS_SpawnAppearance = 12" "struct_size PS_Spawn = 168"
  "struct_size PS_Unspawn = 6" "struct_size PS_SpellCastBegin = 12" "struct_size PS_HpUpdate = 12" "struct_size PS_ManaUpdate = 4"
  "struct_size PS_Animation = 12" "struct_size PS_LevelUpdate = 2" "struct_size PS_ExpUpdate = 4"
  "struct_size PS_AppearanceUpdate = 72" "struct_size PS_MaterialUpdate = 16" "struct_size PS_SpellCastFinish = 36"
  "struct_size PS_CustomMessage = 4"
  by (simp_all add: PS_Weather_def PS_ZoneInfo_def PS_SpawnAppearance_def PS_Spawn_def PS_Unspawn_def PS_SpellCastBegin_def
      PS_HpUpdate_def PS_ManaUpdate_def PS_Animation_def PS_LevelUpdate_def PS_ExpUpdate_def PS_AppearanceUpdate_def
      PS_MaterialUpdate_def PS_SpellCastFinish_def PS_CustomMessage_def)

text \<open>A block of the heap of any contents and of 4,300 bytes is enough.\<close>

lemma block_ok_4096: "length block = 4300 \<Longrightarrow> \<forall>n \<le> 4096 + 4. block_ok n block"
  using div_le_mono [of _ 4100 512] by (auto simp: block_ok_def packet_calc_eq frag_count_def packet_sizes)

end
