(* ===== verification/Zeq_PacketLayout.thy ===== *)
theory Zeq_PacketLayout
  imports Zeq_PacketCreate
begin

text \<open>
  What the client finds in the packets of \<open>src/packet_create.c\<close>: the bytes of the short ones, and
  the contents of every field of the structs of the long ones. The layouts are written down
  independently of the builders, from the structs of the protocol.
\<close>

section \<open>What the client reads out of the structs\<close>

text \<open>The layout of a struct as written: each field with the bytes its writes leave there.\<close>

definition written_layout :: "pstruct \<Rightarrow> field_writes \<Rightarrow> u8 list \<Rightarrow> (string \<times> u8 list) list" where
  "written_layout s fw old = map (\<lambda>(fs, ws). (hd fs, ops_bytes ws (struct_get s (hd fs) old))) fw"

definition single_fields :: "field_writes \<Rightarrow> bool" where
  "single_fields fw \<longleftrightarrow> list_all (\<lambda>(fs, ws). \<exists>f. fs = [f]) fw"

text \<open>A struct in memory has the contents \<open>fvs\<close>, and \<open>fvs\<close> has all of its fields.\<close>

definition reads_as :: "pstruct \<Rightarrow> u8 list \<Rightarrow> (string \<times> u8 list) list \<Rightarrow> bool" where
  "reads_as s data fvs \<longleftrightarrow> map fst fvs = map fst s \<and> list_all (\<lambda>(f, v). struct_get s f data = v) fvs"

lemma fits_names: "fits fw s \<Longrightarrow> single_fields fw \<Longrightarrow> map (\<lambda>(fs, ws). hd fs) fw = map fst s"
proof (induction fw s rule: fits.induct)
  case (2 fs ws fw s)
  then obtain f where f: "fs = [f]" by (auto simp: single_fields_def)
  then show ?case using 2 by (cases s) (auto simp: single_fields_def)
qed simp

lemma written_reads:
  assumes "fits fw s" "distinct (map fst s)" "single_fields fw" "length old = struct_size s"
  shows "reads_as s (ops_bytes (field_ops fw) old) (written_layout s fw old)"
proof -
  have "struct_get s (hd fs) (ops_bytes (field_ops fw) old) = ops_bytes ws (struct_get s (hd fs) old)"
    if "(fs, ws) \<in> set fw" for fs ws
  proof -
    have "\<exists>f. fs = [f]" using assms(3) that unfolding single_fields_def list_all_iff by fast
    then obtain f where f: "fs = [f]" by blast
    show ?thesis using fits_field [OF assms(1,2) that [unfolded f] assms(4)] by (simp add: f)
  qed
  then have "list_all (\<lambda>(f, v). struct_get s f (ops_bytes (field_ops fw) old) = v) (written_layout s fw old)"
    by (auto simp: list_all_iff written_layout_def)
  moreover have "map fst (written_layout s fw old) = map fst s"
    using fits_names [OF assms(1,3)] by (simp add: written_layout_def o_def case_prod_beta')
  ultimately show ?thesis unfolding reads_as_def by blast
qed

text \<open>A text field holds the text, cut off to fit, its \<open>NUL\<close>, and then what was there before.\<close>

definition text_field :: "nat \<Rightarrow> u8 list \<Rightarrow> u8 list \<Rightarrow> u8 list" where
  "text_field n t old = take (n - 1) t @ [0] @ drop (Suc (min (n - 1) (length t))) old"

lemma text_field_bytes: "n \<noteq> 0 \<Longrightarrow> ops_bytes [WText n t] old = text_field n t (take n old)"
  by (simp add: text_field_def text_bytes_def min.commute)

definition zone_info_layout :: "zone \<Rightarrow> u8 list \<Rightarrow> (string \<times> u8 list) list" where
  "zone_info_layout zone old =
     (let fog = zone_fog_at zone; spot = zone_safe_spot zone in
      [(''characterName'', replicate 30 0),
       (''zoneShortName'', text_field 20 (bytes_of (zone_short_name zone)) (struct_get PS_ZoneInfo ''zoneShortName'' old)),
       (''zoneLongName'', text_field 180 (bytes_of (zone_long_name zone)) (struct_get PS_ZoneInfo ''zoneLongName'' old)),
       (''zoneType'', [zone_type zone]),
       (''fogRed'', [fog_red (fog 0), fog_red (fog 1), fog_red (fog 2), fog_red (fog 3)]),
       (''fogGreen'', [fog_green (fog 0), fog_green (fog 1), fog_green (fog 2), fog_green (fog 3)]),
       (''fogBlue'', [fog_blue (fog 0), fog_blue (fog 1), fog_blue (fog 2), fog_blue (fog 3)]),
       (''unknownA'', [0]),
       (''fogMinClippingDistance'', concat (map (\<lambda>i. le32 (fog_minClippingDistance (fog i))) [0, 1, 2, 3])),
       (''fogMaxClippingDistance'', concat (map (\<lambda>i. le32 (fog_maxClippingDistance (fog i))) [0, 1, 2, 3])),
       (''gravity'', le32 (zone_gravity zone)),
       (''unknownB'', [32, 10, 10, 10, 10, 24, 6, 2, 10] @ replicate 8 0 @ replicate 32 255 @ [0]),
       (''skyType'', le16 (zone_sky_type zone)),
       (''unknownC'', [4, 0, 2, 0, 0, 0, 0, 0]),
       (''unknownD'', le32 0x3f400000),
       (''safeSpotX'', le32 (lh_x spot)),
       (''safeSpotY'', le32 (lh_y spot)),
       (''safeSpotZ'', le32 (lh_z spot)),
       (''safeSpotHeading'', le32 (lh_heading spot)),
       (''minZ'', le32 (zone_min_z zone)),
       (''minClippingDistance'', le32 (zone_min_clip_dist zone)),
       (''maxClippingDistance'', le32 (zone_max_clip_dist zone)),
       (''unknownE'', replicate 32 0)])"

definition appearance_layout :: "sheap \<Rightarrow> mob \<Rightarrow> u8 list \<Rightarrow> (string \<times> u8 list) list" where
  "appearance_layout h mob old =
     [(''name'', text_field 30 (mob_name_str_no_null h mob) (struct_get PS_AppearanceUpdate ''name'' old)),
      (''target'', text_field 16 (mob_name_str_no_null h mob) (struct_get PS_AppearanceUpdate ''target'' old)),
      (''unknownA'', [0, 0]),
      (''unknownAlways24'', [24, 0]),
      (''unknownB'', replicate 12 0),
      (''raceId'', le16 (mb_raceId mob)),
      (''genderId'', [mb_genderId mob, 0]),
      (''textureId'', [if mb_textureId mob = 0xff then 0 else mb_textureId mob, 0]),
      (''helmTextureId'', [if mb_helmTextureId mob = 0xff then 0 else mb_helmTextureId mob, 0]),
      (''faceId'', [mb_faceId mob, 0])]"

lemma struct_get_take: "take (sizeof_field s f) (struct_get s f bs) = struct_get s f bs"
  by (induction s f bs rule: struct_get.induct) simp_all

lemma le16_byte: "le16 (ucast (b :: u8)) = [b, 0]"
proof -
  have "le_byte (ucast b :: u16) 0 = b" "le_byte (ucast b :: u16) 8 = 0"
    by (rule bit_word_eqI, auto simp: bit_le_byte bit_simps dest: bit_imp_le_length)+
  then show ?thesis by (simp add: le_bytes)
qed

lemma text_written:
  assumes "sizeof_field s f = n" "n \<noteq> 0"
  shows "text_bytes n t @ drop (length (text_bytes n t)) (take n (struct_get s f old)) = text_field n t (struct_get s f old)"
  using text_field_bytes [OF assms(2), of t "struct_get s f old"] struct_get_take [of s f old] by (simp add: assms(1))

lemma zone_info_written: "written_layout PS_ZoneInfo (zone_info_fields zone) old = zone_info_layout zone old"
proof -
  have s: "sizeof_field PS_ZoneInfo ''zoneShortName'' = 20" "sizeof_field PS_ZoneInfo ''zoneLongName'' = 180"
    "sizeof_field PS_ZoneInfo ''characterName'' = 30" "sizeof_field PS_ZoneInfo ''unknownA'' = 1"
    "sizeof_field PS_ZoneInfo ''unknownE'' = 32"
    by (simp_all add: PS_ZoneInfo_def)
  note t = text_written [OF s(1)] text_written [OF s(2)]
  have r: "replicate (Suc 0) x = [x]" "replicate 4 x = [x, x, x, x]" "replicate 5 x = [x, x, x, x, x]" for x :: u8
    by (simp_all add: numeral_eq_Suc)
  show ?thesis
    unfolding written_layout_def zone_info_fields_def zone_info_layout_def Let_def list.map prod.case list.sel s
    by (simp add: r t)
qed

lemma appearance_written:
  "written_layout PS_AppearanceUpdate (appearance_update_fields h mob) old = appearance_layout h mob old"
proof -
  have s: "sizeof_field PS_AppearanceUpdate ''name'' = 30" "sizeof_field PS_AppearanceUpdate ''target'' = 16"
    "sizeof_field PS_AppearanceUpdate ''unknownB'' = 12"
    by (simp_all add: PS_AppearanceUpdate_def)
  note t = text_written [OF s(1)] text_written [OF s(2)]
  have z: "le16 0 = [0, 0]" "le16 24 = [24, 0]" by (simp_all add: le_bytes le_byte_def)
  have e: "le16 (if c then 0 else ucast b) = [if c then 0 else b, 0]" for c and b :: u8 using le16_byte z by simp
  show ?thesis
    unfolding written_layout_def appearance_update_fields_def appearance_layout_def Let_def list.map prod.case list.sel s
    by (simp add: z e le16_byte t)
qed

lemma struct_written:
  assumes "\<forall>n \<le> 4096 + 4. block_ok n block" "fits fw s" "struct_size s \<le> 4096"
  shows "packet_write_struct (Some block) opcode s fw =
      Some (filled_packet opcode (ops_bytes (field_ops fw) (block_data (struct_size s) block)) block)"
    "length (ops_bytes (field_ops fw) (block_data (struct_size s) block)) = struct_size s"
    "length (block_data (struct_size s) block) = struct_size s"
proof -
  have b: "block_ok (struct_size s) block" using assms(1,3) by simp
  show "packet_write_struct (Some block) opcode s fw =
      Some (filled_packet opcode (ops_bytes (field_ops fw) (block_data (struct_size s) block)) block)"
    using packet_write_struct_eq [OF b assms(2)] assms(3) by simp
  show l: "length (block_data (struct_size s) block) = struct_size s" by (rule block_data_length [OF b])
  show "length (ops_bytes (field_ops fw) (block_data (struct_size s) block)) = struct_size s"
    using ops_bytes_length [of "block_data (struct_size s) block" "field_ops fw"] l fits_size [OF assms(2)] by simp
qed

lemma struct_sizes_small:
  "struct_size PS_Weather \<le> 4096" "struct_size PS_SpawnAppearance \<le> 4096" "struct_size PS_Unspawn \<le> 4096"
  "struct_size PS_SpellCastBegin \<le> 4096" "struct_size PS_HpUpdate \<le> 4096" "struct_size PS_ManaUpdate \<le> 4096"
  "struct_size PS_Animation \<le> 4096" "struct_size PS_LevelUpdate \<le> 4096" "struct_size PS_ExpUpdate \<le> 4096"
  "struct_size PS_MaterialUpdate \<le> 4096" "struct_size PS_ZoneInfo \<le> 4096" "struct_size PS_AppearanceUpdate \<le> 4096"
  by (simp_all add: struct_sizes)

lemma long_structs_read:
  assumes "length old = struct_size PS_ZoneInfo" "length old' = struct_size PS_AppearanceUpdate"
  shows "reads_as PS_ZoneInfo (ops_bytes (field_ops (zone_info_fields zone)) old) (zone_info_layout zone old)"
    "reads_as PS_AppearanceUpdate (ops_bytes (field_ops (appearance_update_fields h mob)) old') (appearance_layout h mob old')"
proof -
  have d: "distinct (map fst PS_ZoneInfo)" "distinct (map fst PS_AppearanceUpdate)"
    by (simp_all add: PS_ZoneInfo_def PS_AppearanceUpdate_def)
  have f: "single_fields (zone_info_fields zone)" "single_fields (appearance_update_fields h mob)"
    by (simp_all add: single_fields_def zone_info_fields_def appearance_update_fields_def Let_def)
  show "reads_as PS_ZoneInfo (ops_bytes (field_ops (zone_info_fields zone)) old) (zone_info_layout zone old)"
    by (rule written_reads [OF fits_zone_info d(1) f(1) assms(1), unfolded zone_info_written])
  show "reads_as PS_AppearanceUpdate (ops_bytes (field_ops (appearance_update_fields h mob)) old') (appearance_layout h mob old')"
    by (rule written_reads [OF fits_fields_simps(10) d(2) f(2) assms(2), unfolded appearance_written])
qed

lemma custom_message_written:
  assumes "\<forall>n \<le> 4096 + 4. block_ok n block" "out \<noteq> []"
  shows "packet_create_custom_message_format (Some block) chatChannel False out =
    Some (filled_packet OP_CustomMessage (le32 chatChannel @ take 4095 out @ [0]) block)"
proof -
  let ?n = "min 4095 (length out)"
  let ?ops = "[W32 chatChannel, WBuf (take 4095 out @ [0])]"
  have u: "unat (of_nat ?n + 1 :: u32) = ?n + 1"
  proof -
    have "?n + 1 < 2 ^ 32" by (simp add: min_def)
    then have "unat (of_nat (?n + 1) :: u32) = ?n + 1" by (intro unat_of_nat_small) simp
    moreover have "of_nat ?n + 1 = (of_nat (?n + 1) :: u32)" by (simp only: of_nat_add of_nat_1)
    ultimately show ?thesis by (simp only:)
  qed
  have l: "(if 4096 \<le> length out then 4095 else of_nat (length out)) = (of_nat ?n :: u32)"
    by (cases "length out = 4095") (auto simp: min_def)
  have tk: "take (?n + 1) (take 4095 out @ [0]) = take 4095 out @ [0]"
    by (intro take_all) (simp add: min.commute)
  have "packet_create_custom_message_format (Some block) chatChannel False out =
      packet_write (Some block) OP_CustomMessage (of_nat (4 + (?n + 1))) ?ops"
    using assms(2) u tk by (simp add: packet_create_custom_message_format_def packet_create_custom_message_def Let_def l struct_sizes ac_simps)
  moreover have sz: "ops_size ?ops = 4 + (?n + 1)" and b: "block_ok (4 + (?n + 1)) block" using assms(1) by auto
  ultimately show ?thesis using packet_write_eq [OF b sz] by simp
qed

text \<open>C33. What these builders return, byte by byte, whatever was in the memory of the packet before: the
  weather, an appearance change, a despawn, the start of a spell, the two updates of hit points, the updates
  of mana, animation, level, experience and materials are exactly the values of their fields in the order of
  the protocol's structs, little-endian; every field of a zone's description and of an appearance is the
  one of the zone and of the mob at its offset; a message is its channel, at most 4095 of its
  characters and a \<open>NUL\<close>. The spawns are C34's, the items of an inventory are not modelled.\<close>

theorem packets_fill_structs:
  assumes "\<forall>n \<le> 4096 + 4. block_ok n block"
  shows "packet_create_weather (Some block) type intensity = Some (filled_packet OP_Weather (le32 type @ le32 intensity) block)
    \<and> packet_create_spawn_appearance (Some block) entityId typeId val =
        Some (filled_packet OP_SpawnAppearance (le32 (scast entityId) @ le16 typeId @ [0, 0] @ le32 val) block)
    \<and> packet_create_unspawn (Some block) entityId = Some (filled_packet OP_Unspawn (le16 entityId @ [0, 0, 0, 0]) block)
    \<and> packet_create_spell_cast_begin (Some block) mob spellId castTimeMs =
        Some (filled_packet OP_SpellCastBegin (le32 (scast (mb_entityId mob)) @ le32 spellId @ le32 castTimeMs) block)
    \<and> packet_create_hp_update_percentage (Some block) id32 hpRatio =
        Some (filled_packet OP_HpUpdate (le32 id32 @ le32 (word_of_int hpRatio) @ le32 100) block)
    \<and> packet_create_hp_update_self (Some block) client =
        Some (filled_packet OP_HpUpdate (le32 (scast (mb_entityId (client_mob client)))
          @ le32 (word_of_int (min 30000 (to_int32 (mb_currentHp (client_mob client) - client_hp_from_items client))))
          @ le32 (word_of_int (min 30000 (to_int32 (st_maxHp (mb_cappedStats (client_mob client)) - client_hp_from_items client))))) block)
    \<and> packet_create_mana_update (Some block) mana lastSpellId = Some (filled_packet OP_ManaUpdate (le16 mana @ le16 lastSpellId) block)
    \<and> packet_create_animation (Some block) id32 animId =
        Some (filled_packet OP_Animation (le32 id32 @ le32 animId @ le32 0x3f800000) block)
    \<and> packet_create_level_update (Some block) level = Some (filled_packet OP_LevelUpdate [level, 1] block)
    \<and> packet_create_exp_update (Some block) currentExp = Some (filled_packet OP_ExpUpdate (le32 currentExp) block)
    \<and> packet_create_material_update (Some block) entityId slotId materialId color =
        Some (filled_packet OP_MaterialUpdate (le32 (scast entityId) @ [slotId, materialId, if slotId < 7 then 0x4d else 0, 0]
          @ le32 color @ [0, 0, 0, 0]) block)
    \<and> (\<exists>data. packet_create_zone_info (Some block) zone = Some (filled_packet OP_ZoneInfo data block) \<and> length data = 404
        \<and> reads_as PS_ZoneInfo data (zone_info_layout zone (block_data 404 block)))
    \<and> (\<exists>data. packet_create_appearance_update (Some block) h mob = Some (filled_packet OP_AppearanceUpdate data block)
        \<and> length data = 72 \<and> reads_as PS_AppearanceUpdate data (appearance_layout h mob (block_data 72 block)))
    \<and> (out \<noteq> [] \<longrightarrow> packet_create_custom_message_format (Some block) chatChannel False out =
        Some (filled_packet OP_CustomMessage (le32 chatChannel @ take 4095 out @ [0]) block))"
proof -
  note eq = struct_written(1) [OF assms] and len = struct_written(2,3) [OF assms] and s = struct_sizes_small
  have z: "le16 0 = [0, 0]" "le32 0 = [0, 0, 0, 0]" "le16 0x4d = [0x4d, 0]" by (simp_all add: le_bytes le_byte_def)
  have c: "cap_max v 30000 = min 30000 v" for v by (simp add: cap_max_def)
  show ?thesis
  proof (intro conjI impI, goal_cases)
    case 1 show ?case unfolding packet_create_weather_def eq [OF fits_fields_simps(1) s(1)]
      by (simp add: weather_fields_def)
  next
    case 2 show ?case unfolding packet_create_spawn_appearance_def eq [OF fits_fields_simps(2) s(2)]
      by (simp add: spawn_appearance_fields_def z)
  next
    case 3 show ?case unfolding packet_create_unspawn_def eq [OF fits_fields_simps(3) s(3)]
      by (simp add: unspawn_fields_def z)
  next
    case 4 show ?case unfolding packet_create_spell_cast_begin_def eq [OF fits_fields_simps(4) s(4)]
      by (simp add: spell_cast_begin_fields_def)
  next
    case 5 show ?case unfolding packet_create_hp_update_percentage_def eq [OF fits_fields_simps(5) s(5)]
      by (simp add: hp_update_fields_def)
  next
    case 6 show ?case unfolding packet_create_hp_update_self_def Let_def eq [OF fits_fields_simps(5) s(5)] c
      by (simp add: hp_update_fields_def)
  next
    case 7 show ?case unfolding packet_create_mana_update_def eq [OF fits_fields_simps(6) s(6)]
      by (simp add: mana_update_fields_def)
  next
    case 8 show ?case unfolding packet_create_animation_def eq [OF fits_fields_simps(7) s(7)]
      by (simp add: animation_fields_def)
  next
    case 9 show ?case unfolding packet_create_level_update_def eq [OF fits_fields_simps(8) s(8)]
      by (simp add: level_update_fields_def)
  next
    case 10 show ?case unfolding packet_create_exp_update_def eq [OF fits_fields_simps(9) s(9)]
      by (simp add: exp_update_fields_def)
  next
    case 11 show ?case unfolding packet_create_material_update_def eq [OF fits_fields_simps(11) s(10)]
      by (simp add: material_update_fields_def z)
  next
    case 12 show ?case unfolding packet_create_zone_info_def eq [OF fits_zone_info s(11)]
      using long_structs_read(1) [OF len(2) len(2), OF fits_zone_info s(11) fits_fields_simps(10) s(12)]
        len(1) [OF fits_zone_info s(11)] by (auto simp: struct_sizes)
  next
    case 13 show ?case unfolding packet_create_appearance_update_def eq [OF fits_fields_simps(10) s(12)]
      using long_structs_read(2) [OF len(2) len(2), OF fits_zone_info s(11) fits_fields_simps(10) s(12)]
        len(1) [OF fits_fields_simps(10) s(12)] by (auto simp: struct_sizes)
  next
    case 14 then show ?case by (rule custom_message_written [OF assms])
  qed
qed

theorem packets_fill_structs_witness:
  "packet_create_weather (Some (replicate 4300 0)) 1 2 = Some (filled_packet OP_Weather [1, 0, 0, 0, 2, 0, 0, 0] (replicate 4300 0))
   \<and> packet_create_unspawn (Some (replicate 4300 0)) 7 = Some (filled_packet OP_Unspawn [7, 0, 0, 0, 0, 0] (replicate 4300 0))
   \<and> packet_create_custom_message_format (Some (replicate 4300 0)) 1 False (replicate 5000 65) =
       Some (filled_packet OP_CustomMessage ([1, 0, 0, 0] @ replicate 4095 65 @ [0]) (replicate 4300 0))"
proof -
  have z: "le32 1 = [1, 0, 0, 0]" "le32 2 = [2, 0, 0, 0]" "le16 7 = [7, 0]" by (simp_all add: le_bytes le_byte_def)
  show ?thesis
    using packets_fill_structs [OF block_ok_4096 [of "replicate 4300 0"], where entityId = 7 and chatChannel = 1
        and out = "replicate 5000 65" and type = 1 and intensity = 2]
    by (simp add: z)
qed

lemma packet_map_filled:
  assumes "block_ok (length payload) block" "length payload < 2 ^ 25" "length (f payload) = length payload"
  shows "map_option (packet_map_data f) (filled_packet opcode payload block) = filled_packet opcode (f payload) block"
proof -
  let ?L = "length payload"
  have L: "unat (of_nat ?L :: u32) = ?L" using assms(2) by (intro unat_of_nat_small) simp
  have b: "?L + 22 * (frag_count ?L + 1) \<le> length block" using assms(1) by (simp add: block_ok_def packet_calc_eq)
  show ?thesis using b assms(3)
    by (simp add: filled_packet_def packet_create_def packet_calc_eq L packet_fill_def packet_map_data_def packet_length_def packet_sizes)
qed

lemma PS_Spawn_distinct: "distinct (map fst PS_Spawn)"
  by (simp add: PS_Spawn_def)

section \<open>The spawn of a mob as the client reads it\<close>

text \<open>A group that zeroes several fields at once writes what the fields one by one would.\<close>

definition split_group :: "pstruct \<Rightarrow> string list \<times> wop list \<Rightarrow> field_writes" where
  "split_group s g = (if length (fst g) = 1 then [g] else map (\<lambda>f. ([f], [WZeroes (sizeof_field s f)])) (fst g))"

definition zero_groups :: "pstruct \<Rightarrow> field_writes \<Rightarrow> bool" where
  "zero_groups s fw \<longleftrightarrow> list_all (\<lambda>(fs, ws). length fs = 1 \<or> ws = [WZeroes (sum_list (map (sizeof_field s) fs))]) fw"

lemma zeroes_bytes:
  "ops_bytes (map (\<lambda>f. WZeroes (g f)) fs) old = replicate (sum_list (map g fs)) 0"
  "ops_size (map (\<lambda>f. WZeroes (g f)) fs) = sum_list (map g fs)"
  by (induction fs arbitrary: old) (simp_all add: replicate_add)

lemma split_groups_bytes:
  "zero_groups s fw \<Longrightarrow> ops_bytes (field_ops (concat (map (split_group s) fw))) old = ops_bytes (field_ops fw) old"
proof (induction fw arbitrary: old)
  case (Cons g fw)
  obtain fs ws where g: "g = (fs, ws)" by (cases g)
  have IH: "ops_bytes (field_ops (concat (map (split_group s) fw))) x = ops_bytes (field_ops fw) x" for x
    using Cons by (simp add: zero_groups_def)
  show ?case
  proof (cases "length fs = 1")
    case True
    then have "split_group s g = [(fs, ws)]" by (simp add: g split_group_def)
    then show ?thesis using IH by (simp add: g ops_bytes_append)
  next
    case False
    then have "ws = [WZeroes (sum_list (map (sizeof_field s) fs))]" using Cons.prems by (simp add: g zero_groups_def)
    moreover have "field_ops (split_group s g) = map (\<lambda>f. WZeroes (sizeof_field s f)) fs"
      using False by (simp add: g split_group_def field_ops_def o_def)
    ultimately show ?thesis using IH by (simp add: g ops_bytes_append zeroes_bytes)
  qed
qed simp

definition spawn_layout :: "sheap \<Rightarrow> mob \<Rightarrow> client option \<Rightarrow> u16 \<times> u16 \<times> u16 \<Rightarrow> int \<Rightarrow> u8 list \<Rightarrow> (string \<times> u8 list) list" where
  "spawn_layout h mob client pos hpRatio old =
     (let of_client = (\<lambda>f. case client of Some c \<Rightarrow> f c | None \<Rightarrow> 0) in
      [(''unknownA'', [0, 0, 0, 0]),
       (''size'', le32 (mb_currentSize mob)),
       (''walkingSpeed'', le32 (mb_currentWalkingSpeed mob)),
       (''runningSpeed'', le32 (mb_currentRunningSpeed mob)),
       (''tints'', concat (map (\<lambda>n. le32 (mb_tint mob ! n)) [0..<7])),
       (''unknownB'', replicate 9 0),
       (''heading'', [ucast (mb_headingRaw mob)]),
       (''headingDelta'', [0]),
       (''y'', le16 (fst pos)),
       (''x'', le16 (fst (snd pos))),
       (''z'', le16 (snd (snd pos))),
       (''deltas'', [0, 0, 0, 0]),
       (''unknownC'', [0]),
       (''entityId'', le16 (mb_entityId mob)),
       (''bodyType'', [mb_bodyType mob, 0]),
       (''ownerEntityId'', le16 (mb_ownerEntityId mob)),
       (''hpPercent'', le16 (word_of_int hpRatio)),
       (''guildId'', case client of Some c \<Rightarrow> le16 (ucast (client_guild_id_or_ffff c)) | None \<Rightarrow> [0xff, 0xff]),
       (''raceId'', [if mb_raceId mob > 0xff then 1 else ucast (mb_raceId mob)]),
       (''mobType'', [spawn_mob_type (mb_parentType mob) (mb_raceId mob)]),
       (''classId'', [mb_classId mob]),
       (''genderId'', [mb_genderId mob]),
       (''level'', [mb_level mob]),
       (''isInvisible'', [0]),
       (''unknownD'', [0]),
       (''isPvP'', [of_client (\<lambda>c. of_bool (client_is_pvp c))]),
       (''uprightState'', [mb_uprightState mob]),
       (''lightLevel'', [mb_lightLevel mob]),
       (''anon'', [of_client client_anon_setting]),
       (''isAfk'', [of_client (\<lambda>c. of_bool (client_is_afk c))]),
       (''unknownE'', [0]),
       (''isLinkdead'', [of_client (\<lambda>c. of_bool (client_is_linkdead c))]),
       (''isGM'', [of_client (\<lambda>c. of_bool (client_is_gm c))]),
       (''unknownF'', [0]),
       (''textureId'', [mb_textureId mob]),
       (''helmTextureId'', [mb_helmTextureId mob]),
       (''unknownG'', [0]),
       (''materialIds'', map (mob_material_id mob) [0, 1, 2, 3, 4, 5, 6, 7, 8]),
       (''name'', text_field 30 (mob_name_str h mob) (struct_get PS_Spawn ''name'' old)),
       (''surname'', case client of
          Some c \<Rightarrow> text_field 20 (client_surname_str_no_null h c) (struct_get PS_Spawn ''surname'' old)
        | None \<Rightarrow> replicate 20 0),
       (''guildRank'', [of_client client_guild_rank_or_ff]),
       (''unknownH'', [0]),
       (''deityId'', le16 (mb_deityId mob)),
       (''unknownI'', replicate 10 0)])"

abbreviation spawn_single :: "sheap \<Rightarrow> mob \<Rightarrow> client option \<Rightarrow> u16 \<times> u16 \<times> u16 \<Rightarrow> int \<Rightarrow> field_writes" where
  "spawn_single h mob client pos hpRatio \<equiv> concat (map (split_group PS_Spawn) (spawn_fields h mob client pos hpRatio))"

lemma spawn_sizes:
  "sizeof_field PS_Spawn ''name'' = 30" "sizeof_field PS_Spawn ''surname'' = 20" "sizeof_field PS_Spawn ''guildRank'' = 1"
  "sizeof_field PS_Spawn ''anon'' = 1" "sizeof_field PS_Spawn ''isAfk'' = 1" "sizeof_field PS_Spawn ''unknownE'' = 1"
  "sizeof_field PS_Spawn ''isLinkdead'' = 1" "sizeof_field PS_Spawn ''isGM'' = 1"
  "sizeof_field PS_Spawn ''unknownB'' = 9" "sizeof_field PS_Spawn ''unknownI'' = 10"
  by (simp_all add: PS_Spawn_def)

lemma spawn_zero_groups: "zero_groups PS_Spawn (spawn_fields h mob client pos hpRatio)"
  by (cases client; cases pos) (simp_all add: zero_groups_def spawn_fields_def Let_def spawn_sizes)

lemma spawn_single_fields: "single_fields (spawn_single h mob client pos hpRatio)"
  by (cases client; cases pos) (simp_all add: single_fields_def spawn_fields_def split_group_def Let_def)

lemma spawn_single_fits: "fits (spawn_single h mob client pos hpRatio) PS_Spawn"
proof -
  have e: "split_group PS_Spawn (fs, ws) = (if length fs = 1 then [(fs, ws)] else map (\<lambda>f. ([f], [WZeroes (sizeof_field PS_Spawn f)])) fs)"
    for fs ws by (simp add: split_group_def)
  show ?thesis
    by (cases client; cases pos) (simp_all add: spawn_fields_def e Let_def spawn_sizes client_flag_def, simp_all add: PS_Spawn_def)
qed

lemma spawn_written:
  "written_layout PS_Spawn (spawn_single h mob client pos hpRatio) old = spawn_layout h mob client pos hpRatio old"
proof -
  note t = text_written [OF spawn_sizes(1)] text_written [OF spawn_sizes(2)]
  have z: "le16 0 = [0, 0]" "le32 0 = [0, 0, 0, 0]" "le16 0xffff = [0xff, 0xff]" by (simp_all add: le_bytes le_byte_def)
  have r: "replicate (Suc 0) x = [x]" for x :: u8 by simp
  have m: "mob_material_id mob 7 = mb_primaryWeaponModelId mob" "mob_material_id mob 8 = mb_secondaryWeaponModelId mob"
    by (simp_all add: mob_material_id_def)
  have u: "[0..<7] = [0, 1, 2, 3, 4, 5, 6 :: nat]" by (simp add: upt_rec numeral_eq_Suc)
  show ?thesis
    by (cases client; cases pos)
      (simp_all add: written_layout_def spawn_fields_def spawn_layout_def split_group_def Let_def spawn_sizes t z r m u le16_byte
        client_flag_def)
qed

text \<open>C34. What the client reads out of a spawn, once it has undone the obfuscation: every field of the
  struct, at its offset, for every mob, player or not. The position is the mob's, truncated to whole numbers
  (the height in tenths); the name is a field of 30 bytes that starts with the mob's name, cut off after 29
  characters and closed by a \<open>NUL\<close>; for a player the guild, the surname, the rank and the flags are
  those of the client, and for all others they are zero, and the guild 0xffff.\<close>

theorem packet_create_spawn_layout:
  assumes "block_ok (struct_size PS_Spawn) block"
    and "client = (if mb_parentType (creature_mob c) = MOB_PARENT_TYPE_Client then mob_as_client c else None)"
    and "mb_parentType (creature_mob c) = MOB_PARENT_TYPE_Client \<Longrightarrow> mob_as_client c \<noteq> None"
    and "float_to_int16 (lh_y (mb_loc (creature_mob c))) = Some y" "float_to_int16 (lh_x (mb_loc (creature_mob c))) = Some x"
    and "float_scaled_to_int16 (lh_z (mb_loc (creature_mob c))) 10 = Some z" "mob_hp_ratio (creature_mob c) = Some hpRatio"
  shows "\<exists>data. packet_create_spawn (Some block) h c = Some (filled_packet OP_Spawn data block)
    \<and> length data = 168
    \<and> reads_as PS_Spawn (deobfuscate_spawn data)
        (spawn_layout h (creature_mob c) client (y, x, z) hpRatio (block_data 168 block))"
proof -
  let ?old = "block_data (struct_size PS_Spawn) block" and ?mob = "creature_mob c"
  let ?fw = "spawn_fields h ?mob client (y, x, z) hpRatio"
  let ?bytes = "ops_bytes (field_ops ?fw) ?old"
  have fw: "packet_fill_spawn h c = Some ?fw"
    using assms(2-7) by (cases "mob_as_client c") (auto simp: packet_fill_spawn_def Let_def)
  have fit: "fits ?fw PS_Spawn" by (rule fits_spawn)
  have lo: "length ?old = struct_size PS_Spawn" by (rule block_data_length [OF assms(1)])
  have lb: "length ?bytes = struct_size PS_Spawn" using ops_bytes_length [of ?old "field_ops ?fw"] fits_size [OF fit] lo by simp
  have lp: "length (packet_obfuscate_spawn ?bytes) = length ?bytes"
    unfolding packet_obfuscate_spawn_def by (rule on_words_length) simp
  have p: "packet_create_spawn (Some block) h c = Some (filled_packet OP_Spawn (packet_obfuscate_spawn ?bytes) block)"
    using packet_write_struct_eq [OF assms(1) fit] packet_map_filled [of ?bytes block packet_obfuscate_spawn OP_Spawn] assms(1) fw lb lp
    by (simp add: packet_create_spawn_def struct_sizes)
  have "reads_as PS_Spawn ?bytes (spawn_layout h ?mob client (y, x, z) hpRatio ?old)"
    using written_reads [OF spawn_single_fits PS_Spawn_distinct spawn_single_fields lo]
    unfolding split_groups_bytes [OF spawn_zero_groups] spawn_written .
  then show ?thesis using p lb lp struct_sizes(4) by (auto simp: deobfuscate_obfuscate)
qed

lemma float_to_int16_100: "float_to_int16 0x42c80000 = Some 100" "float_to_int16 0 = Some 0" "float_scaled_to_int16 0 10 = Some 0"
  "float_to_int16 0xc0600000 = Some (- 3)" "float_scaled_to_int16 0x40200000 10 = Some 25"
  by (simp_all add: float_to_int16_def float_scaled_to_int16_def float_finite_def float_mant_def float_exp_def float_sign_def
      scale_trunc_def round_even_def mant_excess.simps Let_def)

text \<open>A player called \<open>Bo\<close> at (y, x, z) = (100, -3.5, 2.5), and a creature that is not a player.\<close>

theorem packet_create_spawn_layout_witness:
  "\<exists>data data'. packet_create_spawn (Some (replicate 4300 0)) [8 \<mapsto> \<lparr>sb_refCount = 1, sb_len = 2, sb_bytes = [66, 111]\<rparr>]
       (Player (zero_client\<lparr>cn_isGM := True, cn_mob := zero_mob\<lparr>mb_level := 9, mb_name := 8, mb_parentType := MOB_PARENT_TYPE_Client,
          mb_loc := zero_loc\<lparr>lh_y := 0x42c80000, lh_x := 0xc0600000, lh_z := 0x40200000\<rparr>,
          mb_cappedStats := zero_stats\<lparr>st_maxHp := 100\<rparr>\<rparr>\<rparr>)) = Some (filled_packet OP_Spawn data (replicate 4300 0))
     \<and> struct_get PS_Spawn ''level'' (deobfuscate_spawn data) = [9] \<and> struct_get PS_Spawn ''isGM'' (deobfuscate_spawn data) = [1]
     \<and> struct_get PS_Spawn ''y'' (deobfuscate_spawn data) = [100, 0] \<and> struct_get PS_Spawn ''x'' (deobfuscate_spawn data) = [253, 255]
     \<and> struct_get PS_Spawn ''z'' (deobfuscate_spawn data) = [25, 0]
     \<and> take 3 (struct_get PS_Spawn ''name'' (deobfuscate_spawn data)) = [66, 111, 0]
     \<and> packet_create_spawn (Some (replicate 4300 1)) (\<lambda>_. None) (Creature (zero_mob\<lparr>mb_cappedStats := zero_stats\<lparr>st_maxHp := 100\<rparr>\<rparr>)) =
         Some (filled_packet OP_Spawn data' (replicate 4300 1))
     \<and> struct_get PS_Spawn ''isGM'' (deobfuscate_spawn data') = [0] \<and> struct_get PS_Spawn ''guildId'' (deobfuscate_spawn data') = [255, 255]"
proof -
  let ?m = "zero_mob\<lparr>mb_level := 9, mb_name := 8, mb_parentType := MOB_PARENT_TYPE_Client,
    mb_loc := zero_loc\<lparr>lh_y := 0x42c80000, lh_x := 0xc0600000, lh_z := 0x40200000\<rparr>, mb_cappedStats := zero_stats\<lparr>st_maxHp := 100\<rparr>\<rparr>"
  let ?n = "zero_mob\<lparr>mb_cappedStats := zero_stats\<lparr>st_maxHp := 100\<rparr>\<rparr>"
  let ?cl = "zero_client\<lparr>cn_isGM := True, cn_mob := ?m\<rparr>" and ?h = "[8 \<mapsto> \<lparr>sb_refCount = 1, sb_len = 2, sb_bytes = [66, 111]\<rparr>]"
  have b: "block_ok (struct_size PS_Spawn) (replicate 4300 v)" for v using block_ok_4096 [of "replicate 4300 v"] by (simp add: struct_sizes)
  have hp: "mob_hp_ratio ?m = Some 0" "mob_hp_ratio ?n = Some 0" "mb_parentType ?n \<noteq> MOB_PARENT_TYPE_Client"
    by (simp_all add: mob_hp_ratio_def zero_mob_def zero_stats_def to_int8_def MOB_PARENT_TYPE_Client_def)
  have z: "lh_x zero_loc = 0" "lh_y zero_loc = 0" "lh_z zero_loc = 0" "mb_loc ?n = zero_loc" by (simp_all add: zero_loc_def zero_mob_def)
  obtain data where d: "packet_create_spawn (Some (replicate 4300 0)) ?h (Player ?cl) = Some (filled_packet OP_Spawn data (replicate 4300 0))"
    "reads_as PS_Spawn (deobfuscate_spawn data) (spawn_layout ?h ?m (Some ?cl) (100, - 3, 25) 0 (block_data 168 (replicate 4300 0)))"
    using packet_create_spawn_layout [OF b, of "Some ?cl" "Player ?cl" 100 "- 3" 25 0 0 ?h] hp by (auto simp: float_to_int16_100)
  obtain data' where d': "packet_create_spawn (Some (replicate 4300 1)) (\<lambda>_. None) (Creature ?n) = Some (filled_packet OP_Spawn data' (replicate 4300 1))"
    "reads_as PS_Spawn (deobfuscate_spawn data') (spawn_layout (\<lambda>_. None) ?n None (0, 0, 0) 0 (block_data 168 (replicate 4300 1)))"
    using packet_create_spawn_layout [OF b, of None "Creature ?n" 0 0 0 0 1 "\<lambda>_. None"] hp z by (auto simp: float_to_int16_100)
  have f: "struct_get PS_Spawn ''level'' (deobfuscate_spawn data) = [9]" "struct_get PS_Spawn ''isGM'' (deobfuscate_spawn data) = [1]"
    "struct_get PS_Spawn ''y'' (deobfuscate_spawn data) = le16 100" "struct_get PS_Spawn ''x'' (deobfuscate_spawn data) = le16 (- 3)"
    "struct_get PS_Spawn ''z'' (deobfuscate_spawn data) = le16 25"
    "struct_get PS_Spawn ''name'' (deobfuscate_spawn data) =
       text_field 30 (mob_name_str ?h ?m) (struct_get PS_Spawn ''name'' (block_data 168 (replicate 4300 0)))"
    using d(2) by (simp_all add: reads_as_def spawn_layout_def client_is_gm_def)
  have g: "struct_get PS_Spawn ''isGM'' (deobfuscate_spawn data') = [0]" "struct_get PS_Spawn ''guildId'' (deobfuscate_spawn data') = [255, 255]"
    using d'(2) by (simp_all add: reads_as_def spawn_layout_def)
  have "mob_name_str ?h ?m = [66, 111]" by (simp add: mob_name_str_def sbuf_str_def)
  then have "take 3 (struct_get PS_Spawn ''name'' (deobfuscate_spawn data)) = [66, 111, 0]" by (simp add: f(6) text_field_def)
  moreover have "le16 100 = [100, 0]" "le16 (- 3) = [253, 255]" "le16 25 = [25, 0]" by (simp_all add: le_bytes le_byte_def)
  ultimately show ?thesis using d(1) d'(1) f(1-5) g by (intro exI [of _ data] exI [of _ data']) simp
qed

end
