(* ===== verification/Zeq_Net.thy ===== *)
theory Zeq_Net
  imports Zeq_UdpProps Zeq_Buffer Zeq_Grow
begin

text \<open>
  What the threads above the UDP thread share: the queue of commands to it and the heap of packets
  (\<open>Zeq_UdpThread\<close>), the heap of strings, and the ways a packet is made and scheduled. The functions
  here are the common parts of their handlers, and \<open>wd_\<close>, \<open>cs_\<close> and \<open>lt_\<close> functions apply them.
\<close>

section \<open>State\<close>

text \<open>
  Objects are found by their addresses; 0 is \<open>NULL\<close>. \<open>nt_malloc\<close> lists what the next calls of \<open>malloc\<close>
  and \<open>realloc\<close> answer: \<open>None\<close>, or an address and the contents of the block. \<open>nt_junk\<close> is what a command
  on the stack holds before its fields are assigned.
\<close>

record net =
  nt_udp :: udp_thread
  nt_junk :: udp_command
  nt_malloc :: "(u64 \<times> u8 list) option list"
  nt_strings :: sheap
  nt_now :: u64

definition net_alloc :: "net \<Rightarrow> (u64 \<times> u8 list) option \<times> net" where
  "net_alloc w = (case nt_malloc w of [] \<Rightarrow> (None, w) | r # rs \<Rightarrow> (r, w\<lparr>nt_malloc := rs\<rparr>))"

text \<open>\<open>sbuf_create\<close> and \<open>sbuf_grab\<close>.\<close>

definition net_new_string :: "u8 list \<Rightarrow> u32 \<Rightarrow> net \<Rightarrow> u64 \<times> net" where
  "net_new_string bytes len w =
     (let (r, w) = net_alloc w;
          (addr, block) = (case r of Some (addr, block) \<Rightarrow> (addr, block) | None \<Rightarrow> (0, []));
          (h, s) = sbuf_create (nt_strings w) addr block (Some bytes) len
      in (s, w\<lparr>nt_strings := sbuf_grab h s\<rparr>))"

definition net_drop_string :: "u64 \<Rightarrow> net \<Rightarrow> net" where
  "net_drop_string s w = w\<lparr>nt_strings := sbuf_drop (nt_strings w) s\<rparr>"

section \<open>Arrays\<close>

text \<open>Room for the element at \<open>index\<close> in an array that doubles, with what \<open>realloc\<close> answers.\<close>

definition net_grow :: "'a \<Rightarrow> 'a list \<Rightarrow> u32 \<Rightarrow> net \<Rightarrow> 'a list option \<times> net" where
  "net_grow garbage xs index w =
     (if bit_is_pow2_or_zero index
      then let cap = (if index = 0 then 1 else index * 2); (r, w) = net_alloc w
           in (if r = None then None else Some (realloc_array garbage xs (unat cap)), w)
      else (Some xs, w))"

text \<open>A store, which is undefined behind the array, and the removal by moving the last element.\<close>

definition arr_set :: "'a list \<Rightarrow> u32 \<Rightarrow> 'a \<Rightarrow> 'a list option" where
  "arr_set xs i x = (if unat i < length xs then Some (xs[unat i := x]) else None)"

definition swap_pop :: "'a list \<Rightarrow> nat \<Rightarrow> u32 \<Rightarrow> 'a list" where
  "swap_pop xs i n = xs[i := xs ! unat n]"

fun first_index :: "('a \<Rightarrow> bool) \<Rightarrow> 'a list \<Rightarrow> nat option" where
  "first_index P [] = None"
| "first_index P (x # xs) = (if P x then Some 0 else map_option Suc (first_index P xs))"

lemma first_index_Some: "first_index P xs = Some i \<Longrightarrow> i < length xs \<and> P (xs ! i)"
  by (induction xs arbitrary: i) (auto split: if_splits)

lemma first_index_None: "first_index P xs = None \<longleftrightarrow> (\<forall>x \<in> set xs. \<not> P x)"
  by (induction xs) auto

section \<open>Packets\<close>

definition net_packet :: "net \<Rightarrow> u64 \<Rightarrow> tlg_packet option" where
  "net_packet w = ut_heap (nt_udp w)"

definition net_set_packet :: "net \<Rightarrow> u64 \<Rightarrow> tlg_packet option \<Rightarrow> net" where
  "net_set_packet w p packet = w\<lparr>nt_udp := (nt_udp w)\<lparr>ut_heap := (ut_heap (nt_udp w))(p := packet)\<rparr>\<rparr>"

text \<open>A builder, a function of the block that \<open>malloc\<close> answers, makes a packet; the result is its address.\<close>

definition new_packet :: "(u8 list option \<Rightarrow> tlg_packet option option) \<Rightarrow> net \<Rightarrow> (u64 \<times> net) option" where
  "new_packet build w =
     (let (r, w) = net_alloc w
      in Option.bind (build (map_option snd r)) (\<lambda>packet.
           Some (case (r, packet) of
             (Some (p, _), Some packet) \<Rightarrow> (p, net_set_packet w p (Some packet))
           | _ \<Rightarrow> (0, w))))"

definition net_grab :: "net \<Rightarrow> u64 \<Rightarrow> net" where
  "net_grab w p = net_set_packet w p (map_option packet_grab (net_packet w p))"

definition net_drop :: "net \<Rightarrow> u64 \<Rightarrow> net" where
  "net_drop w p = net_set_packet w p (Option.bind (net_packet w p) packet_drop)"

section \<open>Commands to the UDP thread\<close>

definition net_schedule :: "u32 \<times> u16 \<Rightarrow> u64 \<Rightarrow> net \<Rightarrow> (zerr \<times> net) option" where
  "net_schedule ipAddr packet w =
     map_option (\<lambda>(rc, udp). (rc, w\<lparr>nt_udp := udp\<rparr>))
       (udp_schedule_packet (nt_junk w) (nt_udp w) (fst ipAddr) (snd ipAddr) (if packet = 0 then None else Some packet))"

text \<open>A command that names an address and no packet.\<close>

definition net_address_command :: "int \<Rightarrow> u32 \<times> u16 \<Rightarrow> net \<Rightarrow> (zerr \<times> net) option" where
  "net_address_command zop ipAddr w =
     map_option (\<lambda>(rc, rb). (rc, w\<lparr>nt_udp := (nt_udp w)\<lparr>ut_udpQueue := rb\<rparr>\<rparr>))
       (ringbuf_push (ut_udpQueue (nt_udp w)) zop
          (Some ((nt_junk w)\<lparr>cmd_ip := fst ipAddr, cmd_port := snd ipAddr, cmd_packet := 0\<rparr>)))"

section \<open>Queries to the database\<close>

record 'q db_query =
  dq_dbId :: u32
  dq_queryId :: u32
  dq_zop :: int
  dq_query :: 'q

definition db_queue_query ::
    "'q db_query ringbuf \<Rightarrow> u32 \<Rightarrow> u32 \<Rightarrow> int \<Rightarrow> 'q \<Rightarrow> (zerr \<times> 'q db_query ringbuf) option" where
  "db_queue_query dbQueue dbId queryId zop q =
     ringbuf_push dbQueue zop (Some \<lparr>dq_dbId = dbId, dq_queryId = queryId, dq_zop = zop, dq_query = q\<rparr>)"

section \<open>What they do\<close>

definition net_queue :: "net \<Rightarrow> (int \<times> udp_command) list" where
  "net_queue w = rb_contents (ut_udpQueue (nt_udp w))"

definition net_room :: "net \<Rightarrow> nat" where
  "net_room w = rb_capacity (ut_udpQueue (nt_udp w)) - rb_count (ut_udpQueue (nt_udp w))"

definition queue_ok :: "net \<Rightarrow> bool" where
  "queue_ok w \<longleftrightarrow> rb_inv (ut_udpQueue (nt_udp w))"

definition send_command :: "net \<Rightarrow> u64 \<Rightarrow> u32 \<times> u16 \<Rightarrow> int \<times> udp_command" where
  "send_command w p ipAddr =
     (ZOP_UDP_ToClientPacketScheduled, (nt_junk w)\<lparr>cmd_ip := fst ipAddr, cmd_port := snd ipAddr, cmd_packet := p\<rparr>)"

text \<open>The packet with its fragments spread, and with \<open>n\<close> more references; with none at all it is freed.\<close>

definition spread :: "tlg_packet \<Rightarrow> tlg_packet" where
  "spread p = (if packet_already_fragmentized p then p else packet_fragmentize p)"

definition add_refs :: "nat \<Rightarrow> tlg_packet \<Rightarrow> tlg_packet" where
  "add_refs n p = p\<lparr>pk_refCount := pk_refCount p + of_nat n\<rparr>"

lemma spread_simps [simp]:
  "packet_already_fragmentized (spread p)" "spread (spread p) = spread p" "pk_refCount (spread p) = pk_refCount p"
  by (simp_all add: spread_def packet_already_fragmentized_def packet_fragmentize_def Let_def)

lemma fragmentize_refs:
  "packet_fragmentize (p\<lparr>pk_refCount := r\<rparr>) = (packet_fragmentize p)\<lparr>pk_refCount := r\<rparr>"
  "pk_refCount (packet_fragmentize p) = pk_refCount p"
  by (simp_all add: packet_fragmentize_def packet_buffer_raw_length_def Let_def)

lemma add_refs_simps [simp]:
  "add_refs 0 p = p" "add_refs m (add_refs n p) = add_refs (m + n) p" "spread (add_refs n p) = add_refs n (spread p)"
  "packet_grab p = add_refs 1 p" "pk_refCount (add_refs n p) = pk_refCount p + of_nat n"
  by (simp_all add: add_refs_def spread_def packet_already_fragmentized_def fragmentize_refs packet_grab_def algebra_simps)

lemma sint_of_refs:
  assumes "n < 2 ^ 31"
  shows "sint (of_nat n :: u32) = int n"
  using assms by (simp add: signed_of_nat signed_take_bit_int_eq_self)

lemma drop_add_ref:
  assumes "pk_refCount p = of_nat n" "n + 1 < 2 ^ 31"
  shows "packet_drop (add_refs 1 p) = (if n = 0 then None else Some p)"
proof -
  have "pk_refCount (add_refs 1 p) = of_nat (n + 1)" using assms(1) by simp
  then have "sint (pk_refCount (add_refs 1 p)) = int (n + 1)" using sint_of_refs [OF assms(2)] by (simp only:)
  then show ?thesis by (simp add: packet_drop_def add_refs_def)
qed

text \<open>Only the queue and the heap of packets change.\<close>

definition same_net :: "net \<Rightarrow> net \<Rightarrow> bool" where
  "same_net w w' \<longleftrightarrow> nt_junk w' = nt_junk w \<and> nt_malloc w' = nt_malloc w \<and> nt_strings w' = nt_strings w \<and> nt_now w' = nt_now w
     \<and> rb_capacity (ut_udpQueue (nt_udp w')) = rb_capacity (ut_udpQueue (nt_udp w))"

lemma same_net_refl [simp]: "same_net w w"
  by (simp add: same_net_def)

lemma same_net_trans: "same_net w v \<Longrightarrow> same_net v u \<Longrightarrow> same_net w u"
  by (simp add: same_net_def)

lemma send_command_same: "same_net w w' \<Longrightarrow> send_command w' p ip = send_command w p ip"
  by (simp add: same_net_def send_command_def)

lemma net_set_packet_simps [simp]:
  "net_packet (net_set_packet w p x) = (net_packet w)(p := x)" "queue_ok (net_set_packet w p x) = queue_ok w"
  "net_queue (net_set_packet w p x) = net_queue w" "net_room (net_set_packet w p x) = net_room w"
  "send_command (net_set_packet w p x) q ip = send_command w q ip"
  "same_net w (net_set_packet w p x)"
  by (auto simp: net_packet_def net_set_packet_def queue_ok_def net_queue_def net_room_def same_net_def send_command_def)

lemma net_schedule_ok:
  assumes "queue_ok w" "p \<noteq> 0" "net_packet w p = Some packet" "pk_refCount packet = of_nat n" "n + 1 < 2 ^ 31"
  shows "\<exists>w'. net_schedule ipAddr p w = Some (if net_room w > 0 then ERR_None else ERR_OutOfSpace, w') \<and> queue_ok w' \<and> same_net w w'
    \<and> net_room w' = net_room w - 1
    \<and> (if net_room w > 0
       then net_queue w' = net_queue w @ [send_command w p ipAddr]
         \<and> net_packet w' = (net_packet w)(p \<mapsto> add_refs 1 (spread packet))
       else net_queue w' = net_queue w
         \<and> net_packet w' = (net_packet w)(p := if n = 0 then None else Some (spread packet)))"
proof -
  let ?rb = "ut_udpQueue (nt_udp w)" and ?cmd = "snd (send_command w p ipAddr)"
  have rb: "rb_inv ?rb" and h: "ut_heap (nt_udp w) p = Some packet" using assms(1,3) by (simp_all add: queue_ok_def net_packet_def)
  have d: "packet_drop (add_refs (Suc 0) (spread packet)) = (if n = 0 then None else Some (spread packet))"
    using drop_add_ref [of "spread packet" n] assms(4,5) by (simp only: spread_simps One_nat_def)
  have push: "net_schedule ipAddr p w =
      map_option (\<lambda>(rc, rb). (rc, w\<lparr>nt_udp := (nt_udp w)\<lparr>ut_udpQueue := rb, ut_heap := (ut_heap (nt_udp w))(p :=
          if rc \<noteq> ERR_None then packet_drop (add_refs 1 (spread packet)) else Some (add_refs 1 (spread packet)))\<rparr>\<rparr>))
        (ringbuf_push ?rb ZOP_UDP_ToClientPacketScheduled (Some ?cmd))"
    unfolding net_schedule_def udp_schedule_packet_def using assms(2) h
    by (simp add: send_command_def Let_def map_option_case flip: spread_def split: option.split)
  show ?thesis
  proof (rule ringbuf_push_ok [OF rb, of ZOP_UDP_ToClientPacketScheduled ?cmd])
    assume "rb_count ?rb = rb_capacity ?rb" "ringbuf_push ?rb ZOP_UDP_ToClientPacketScheduled (Some ?cmd) = Some (ERR_OutOfSpace, ?rb)"
    then show ?thesis using rb unfolding push
      by (simp add: queue_ok_def net_room_def net_queue_def net_packet_def same_net_def d)
  next
    fix rb' assume "rb_count ?rb < rb_capacity ?rb" "ringbuf_push ?rb ZOP_UDP_ToClientPacketScheduled (Some ?cmd) = Some (ERR_None, rb')"
      "rb_inv rb'" "rb_capacity rb' = rb_capacity ?rb" "rb_contents rb' = rb_contents ?rb @ [(ZOP_UDP_ToClientPacketScheduled, ?cmd)]"
    moreover from this have "rb_count rb' = Suc (rb_count ?rb)" by (metis length_append_singleton rb_contents_length)
    ultimately show ?thesis unfolding push
      by (simp add: queue_ok_def net_room_def net_queue_def net_packet_def same_net_def send_command_def)
  qed
qed

section \<open>A thread with nothing to do\<close>

text \<open>The state after \<open>udp_create\<close>, with a list of answers of \<open>malloc\<close> and a heap of packets.\<close>

definition demo_net :: "(u64 \<times> u8 list) option list \<Rightarrow> pheap \<Rightarrow> net" where
  "demo_net answers h =
     \<lparr>nt_udp = (the (udp_create True True True True demo_command demo_queue 1 (\<lambda>_. None)))\<lparr>ut_heap := h\<rparr>,
      nt_junk = demo_command, nt_malloc = answers, nt_strings = (\<lambda>_. None), nt_now = 0\<rparr>"

lemma demo_net_ok [simp]:
  "queue_ok (demo_net answers h)" "net_room (demo_net answers h) = 1023" "net_queue (demo_net answers h) = []"
  "net_packet (demo_net answers h) = h" "nt_malloc (demo_net answers h) = answers" "nt_strings (demo_net answers h) = (\<lambda>_. None)"
proof -
  have n: "2 \<le> (1024 :: nat)" "1024 \<le> RINGBUF_MAX_PACKETS" by (simp_all add: RINGBUF_MAX_PACKETS_def)
  note i = ringbuf_init_inv [OF n, of demo_command]
  have q: "ut_udpQueue (nt_udp (demo_net answers h)) = ringbuf_init demo_command 1024"
    by (simp add: demo_net_def udp_create_def)
  have "rb_count (ringbuf_init demo_command 1024) = 0" using i(2) by (metis list.size(3) rb_contents_length)
  then show "queue_ok (demo_net answers h)" "net_room (demo_net answers h) = 1023" "net_queue (demo_net answers h) = []"
    using i by (simp_all add: queue_ok_def net_room_def net_queue_def q)
qed (simp_all add: demo_net_def net_packet_def)

end
