(* ===== verification/Zeq_World.thy ===== *)
theory Zeq_World
  imports Zeq_Net Zeq_PacketCreate Zeq_Timer Zeq_Grow
begin

text \<open>
  The memory that a zone thread works on, and the ways packets leave it: \<open>client_schedule_packet\<close> of
  \<open>src/client_packet_send.c\<close>, the broadcasts of \<open>src/zone.c\<close> and \<open>src/packet_static.c\<close>.
\<close>

section \<open>State\<close>

record static_packets =
  sp_packetEnterZone :: u64
  sp_packetEnteredZoneUnknown :: u64

record world =
  wd_net :: net
  wd_creatures :: creatures
  wd_zones :: "u64 \<Rightarrow> zone option"
  wd_static :: "u64 \<Rightarrow> static_packets option"
  wd_timers :: theap
  wd_pool :: timer_pool

definition wd_strings :: "world \<Rightarrow> sheap" where "wd_strings w = nt_strings (wd_net w)"

definition wd_client :: "world \<Rightarrow> u64 \<Rightarrow> client option" where
  "wd_client w c = Option.bind (wd_creatures w c) mob_as_client"

definition wd_set_client :: "world \<Rightarrow> u64 \<Rightarrow> client \<Rightarrow> world" where
  "wd_set_client w c client = w\<lparr>wd_creatures := (wd_creatures w)(c \<mapsto> Player client)\<rparr>"

definition wd_mob :: "world \<Rightarrow> u64 \<Rightarrow> mob option" where
  "wd_mob w m = map_option creature_mob (wd_creatures w m)"

definition wd_upd_mob :: "u64 \<Rightarrow> (mob \<Rightarrow> mob) \<Rightarrow> world \<Rightarrow> world option" where
  "wd_upd_mob m f w =
     map_option (\<lambda>c. w\<lparr>wd_creatures := (wd_creatures w)(m \<mapsto> creature_upd_mob f c)\<rparr>) (wd_creatures w m)"

definition wd_set_zone :: "world \<Rightarrow> u64 \<Rightarrow> zone \<Rightarrow> world" where
  "wd_set_zone w z zone = w\<lparr>wd_zones := (wd_zones w)(z \<mapsto> zone)\<rparr>"

definition wd_new_packet :: "(u8 list option \<Rightarrow> tlg_packet option option) \<Rightarrow> world \<Rightarrow> (u64 \<times> world) option" where
  "wd_new_packet build w = map_option (\<lambda>(p, net). (p, w\<lparr>wd_net := net\<rparr>)) (new_packet build (wd_net w))"

section \<open>The packets that are made once\<close>

definition OP_EnterZone :: u16 where "OP_EnterZone = 0x20d8"
definition OP_EnteredZoneUnknown :: u16 where "OP_EnteredZoneUnknown = 0x21c3"

definition static_packets_init :: "static_packets \<Rightarrow> net \<Rightarrow> (zerr \<times> static_packets \<times> net) option" where
  "static_packets_init sp w =
     do {
       (p, w) \<leftarrow> new_packet (\<lambda>block. Some (packet_create block OP_EnterZone 0)) w;
       let sp = sp\<lparr>sp_packetEnterZone := p\<rparr>;
       if p = 0 then Some (ERR_OutOfMemory, sp, w)
       else do {
         let w = net_grab w p;
         (p, w) \<leftarrow> new_packet (\<lambda>block. Some (packet_create_zero_filled block OP_EnteredZoneUnknown 8)) w;
         let sp = sp\<lparr>sp_packetEnteredZoneUnknown := p\<rparr>;
         if p = 0 then Some (ERR_OutOfMemory, sp, w)
         else Some (ERR_None, sp, net_grab w p)
       }
     }"

definition static_packets_deinit :: "static_packets \<Rightarrow> net \<Rightarrow> static_packets \<times> net" where
  "static_packets_deinit sp w =
     (sp\<lparr>sp_packetEnterZone := 0, sp_packetEnteredZoneUnknown := 0\<rparr>,
      net_drop (net_drop w (sp_packetEnterZone sp)) (sp_packetEnteredZoneUnknown sp))"

section \<open>Scheduling\<close>

text \<open>All zones of the process share the queue of the UDP thread; what pushing to it answers is ignored.\<close>

definition client_schedule_packet_with_udp_queue :: "u64 \<Rightarrow> u64 \<Rightarrow> world \<Rightarrow> world option" where
  "client_schedule_packet_with_udp_queue c packet w =
     Option.bind (wd_client w c) (\<lambda>client.
       map_option (\<lambda>(rc, net). w\<lparr>wd_net := net\<rparr>) (net_schedule (client_ip_addr client) packet (wd_net w)))"

definition client_schedule_packet_with_zone :: "u64 \<Rightarrow> u64 \<Rightarrow> u64 \<Rightarrow> world \<Rightarrow> world option" where
  "client_schedule_packet_with_zone c z packet w =
     (if wd_zones w z = None then None else client_schedule_packet_with_udp_queue c packet w)"

definition client_schedule_packet :: "u64 \<Rightarrow> u64 \<Rightarrow> world \<Rightarrow> world option" where
  "client_schedule_packet c packet w =
     Option.bind (wd_client w c) (\<lambda>client. client_schedule_packet_with_zone c (client_get_zone client) packet w)"

section \<open>Broadcasts\<close>

fun broadcast_except :: "u64 \<Rightarrow> u64 \<Rightarrow> u64 list \<Rightarrow> world \<Rightarrow> world option" where
  "broadcast_except packet except [] w = Some w"
| "broadcast_except packet except (c # cs) w =
     Option.bind (if c \<noteq> except then client_schedule_packet_with_udp_queue c packet w else Some w)
       (broadcast_except packet except cs)"

definition zone_broadcast_to_all_clients_except :: "u64 \<Rightarrow> u64 \<Rightarrow> u64 \<Rightarrow> world \<Rightarrow> world option" where
  "zone_broadcast_to_all_clients_except z packet except w =
     Option.bind (wd_zones w z) (\<lambda>zone.
       let n = unat (zn_clientBroadcastAllCount zone)
       in if n > length (zn_clientsBroadcastAll zone) then None
          else map_option (\<lambda>w. w\<lparr>wd_net := net_drop (wd_net w) packet\<rparr>)
                 (broadcast_except packet except (take n (zn_clientsBroadcastAll zone))
                    (w\<lparr>wd_net := net_grab (wd_net w) packet\<rparr>)))"

definition zone_broadcast_to_all_clients :: "u64 \<Rightarrow> u64 \<Rightarrow> world \<Rightarrow> world option" where
  "zone_broadcast_to_all_clients z packet w = zone_broadcast_to_all_clients_except z packet 0 w"

section \<open>What a broadcast does\<close>

definition send_to :: "world \<Rightarrow> u64 \<Rightarrow> u64 \<Rightarrow> int \<times> udp_command" where
  "send_to w packet c = send_command (wd_net w) packet (client_ip_addr (the (wd_client w c)))"

lemma wd_net_simps [simp]:
  "wd_client (w\<lparr>wd_net := n\<rparr>) c = wd_client w c"
  by (simp add: wd_client_def)

lemma broadcast_ok:
  assumes "queue_ok (wd_net w)" "p \<noteq> 0" "net_packet (wd_net w) p = Some packet" "pk_refCount packet = of_nat m" "0 < m"
    and "m + length cs + 1 < 2 ^ 31" "\<forall>c \<in> set cs. c \<noteq> except \<longrightarrow> wd_client w c \<noteq> None"
  shows "\<exists>net. broadcast_except p except cs w = Some (w\<lparr>wd_net := net\<rparr>) \<and> queue_ok net \<and> same_net (wd_net w) net
    \<and> (let targets = filter (\<lambda>c. c \<noteq> except) cs in
       net_queue net = net_queue (wd_net w) @ take (net_room (wd_net w)) (map (send_to w p) targets)
       \<and> net_packet net = (net_packet (wd_net w))(p \<mapsto> add_refs (min (net_room (wd_net w)) (length targets))
            (if targets = [] then packet else spread packet)))"
  using assms
proof (induction cs arbitrary: w packet m)
  case Nil
  then show ?case by (intro exI [of _ "wd_net w"]) (auto simp: fun_eq_iff)
next
  case (Cons c cs)
  show ?case
  proof (cases "c = except")
    case True
    then show ?thesis using Cons.IH [of w packet m] Cons.prems by simp
  next
    case False
    then obtain client where client: "wd_client w c = Some client" using Cons.prems(7) by auto
    let ?room = "net_room (wd_net w)"
    let ?m = "if ?room > 0 then m + 1 else m"
    let ?packet = "if ?room > 0 then add_refs 1 (spread packet) else spread packet"
    have "m + 1 < 2 ^ 31" using Cons.prems(6) by simp
    then obtain net where net: "net_schedule (client_ip_addr client) p (wd_net w) =
          Some (if ?room > 0 then ERR_None else ERR_OutOfSpace, net)" "queue_ok net" "same_net (wd_net w) net"
        "net_room net = ?room - 1"
        "net_queue net = net_queue (wd_net w) @ (if ?room > 0 then [send_to w p c] else [])"
        "net_packet net = (net_packet (wd_net w))(p \<mapsto> ?packet)"
      using net_schedule_ok [OF Cons.prems(1-4)] Cons.prems(5) client
      by (fastforce simp: send_to_def split: if_splits)
    have step: "client_schedule_packet_with_udp_queue c p w = Some (w\<lparr>wd_net := net\<rparr>)"
      by (simp add: client_schedule_packet_with_udp_queue_def client net(1))
    have st: "send_to (w\<lparr>wd_net := net\<rparr>) p = send_to w p"
      by (simp add: send_to_def fun_eq_iff send_command_same [OF net(3)])
    let ?w = "w\<lparr>wd_net := net\<rparr>" and ?targets = "filter (\<lambda>c. c \<noteq> except) cs"
    have "queue_ok (wd_net ?w)" "net_packet (wd_net ?w) p = Some ?packet" "pk_refCount ?packet = of_nat ?m" "0 < ?m"
      "?m + length cs + 1 < 2 ^ 31" "\<forall>c \<in> set cs. c \<noteq> except \<longrightarrow> wd_client ?w c \<noteq> None"
      using net(2,6) Cons.prems(4-7) by (simp_all add: algebra_simps)
    from Cons.IH [OF this(1) Cons.prems(2) this(2-6)]
    obtain net' where IH: "broadcast_except p except cs ?w = Some (?w\<lparr>wd_net := net'\<rparr>)" "queue_ok net'" "same_net net net'"
        "net_queue net' = net_queue net @ take (net_room net) (map (send_to w p) ?targets)"
        "net_packet net' = (net_packet net)(p \<mapsto> add_refs (min (net_room net) (length ?targets))
            (if ?targets = [] then ?packet else spread ?packet))"
      unfolding Let_def st world.select_convs(1) world.update_convs(1) by auto
    have "net_queue net' = net_queue (wd_net w) @ take ?room (map (send_to w p) (filter (\<lambda>c. c \<noteq> except) (c # cs)))"
      using IH(4) net(4,5) False by (cases ?room) auto
    moreover have "net_packet net' = (net_packet (wd_net w))(p \<mapsto> add_refs (min ?room (length (filter (\<lambda>c. c \<noteq> except) (c # cs))))
        (if filter (\<lambda>c. c \<noteq> except) (c # cs) = [] then packet else spread packet))"
      unfolding IH(5) net(6) using net(4) False by (cases ?room) (auto simp: fun_eq_iff)
    ultimately show ?thesis using step IH(1,2) same_net_trans [OF net(3) IH(3)] False
      by (intro exI [of _ net']) (simp add: Let_def cong: if_cong)
  qed
qed

text \<open>C37. A broadcast pushes the packet once for every client of the zone but the excepted one, in the order of
  the list and addressed to that client, as far as the queue has room. Afterwards the packet has
  exactly as many new references as commands were pushed, each of which the UDP thread will drop:
  a packet that nobody was to get, or that found no room, is freed, and no other packet is touched.\<close>

theorem zone_broadcast_exact:
  assumes "queue_ok (wd_net w)" "p \<noteq> 0" "net_packet (wd_net w) p = Some packet" "pk_refCount packet = of_nat r"
    and "wd_zones w z = Some zone" "unat (zn_clientBroadcastAllCount zone) = length cs"
    and "take (length cs) (zn_clientsBroadcastAll zone) = cs"
    and "\<forall>c \<in> set cs. c \<noteq> except \<longrightarrow> wd_client w c \<noteq> None" "r + length cs + 2 < 2 ^ 31"
  shows "\<exists>net. zone_broadcast_to_all_clients_except z p except w = Some (w\<lparr>wd_net := net\<rparr>) \<and> queue_ok net
    \<and> (let targets = filter (\<lambda>c. c \<noteq> except) cs; n = min (net_room (wd_net w)) (length targets) in
       net_queue net = net_queue (wd_net w) @ map (send_to w p) (take n targets)
       \<and> net_packet net = (net_packet (wd_net w))(p := if r + n = 0 then None
            else Some (add_refs n (if targets = [] then packet else spread packet))))"
proof -
  let ?targets = "filter (\<lambda>c. c \<noteq> except) cs" and ?net = "net_grab (wd_net w) p"
  let ?n = "min (net_room (wd_net w)) (length ?targets)"
  have g: "?net = net_set_packet (wd_net w) p (Some (add_refs 1 packet))" using assms(3) by (simp add: net_grab_def)
  have len: "\<not> unat (zn_clientBroadcastAllCount zone) > length (zn_clientsBroadcastAll zone)"
    using assms(6,7) by (metis length_take min.cobounded1 not_le)
  have st: "send_to (w\<lparr>wd_net := ?net\<rparr>) p = send_to w p" by (simp add: send_to_def fun_eq_iff g)
  have "queue_ok (wd_net (w\<lparr>wd_net := ?net\<rparr>))" "net_packet (wd_net (w\<lparr>wd_net := ?net\<rparr>)) p = Some (add_refs 1 packet)"
    "pk_refCount (add_refs 1 packet) = of_nat (r + 1)" "0 < r + 1" "(r + 1) + length cs + 1 < 2 ^ 31"
    "\<forall>c \<in> set cs. c \<noteq> except \<longrightarrow> wd_client (w\<lparr>wd_net := ?net\<rparr>) c \<noteq> None"
    using assms by (simp_all add: g)
  from broadcast_ok [OF this(1) assms(2) this(2-6)]
  obtain net where net: "broadcast_except p except cs (w\<lparr>wd_net := ?net\<rparr>) = Some (w\<lparr>wd_net := net\<rparr>)" "queue_ok net"
      "net_queue net = net_queue (wd_net w) @ take (net_room (wd_net w)) (map (send_to w p) ?targets)"
      "net_packet net p = Some (add_refs ?n (if ?targets = [] then add_refs 1 packet else spread (add_refs 1 packet)))"
      "\<And>q. q \<noteq> p \<Longrightarrow> net_packet net q = net_packet (wd_net w) q"
    unfolding Let_def st by (auto simp: g)
  let ?last = "add_refs ?n (if ?targets = [] then packet else spread packet)"
  have "net_packet net p = Some (add_refs 1 ?last)" using net(4) by (simp add: add.commute)
  moreover have "pk_refCount ?last = of_nat (r + ?n)" using assms(4) by simp
  moreover have "r + ?n + 1 < 2 ^ 31" using assms(9) length_filter_le [of "\<lambda>c. c \<noteq> except" cs] by linarith
  ultimately have d: "Option.bind (net_packet net p) packet_drop = (if r + ?n = 0 then None else Some ?last)"
    using drop_add_ref [of ?last "r + ?n"] by simp
  have "zone_broadcast_to_all_clients_except z p except w = Some (w\<lparr>wd_net := net_drop net p\<rparr>)"
    using assms(5) len net(1) by (simp add: zone_broadcast_to_all_clients_except_def Let_def assms(6,7))
  moreover have "net_packet (net_drop net p) = (net_packet (wd_net w))(p := if r + ?n = 0 then None else Some ?last)"
    unfolding net_drop_def d using net(5) by (simp add: fun_eq_iff)
  moreover have "net_queue (net_drop net p) = net_queue (wd_net w) @ map (send_to w p) (take ?n ?targets)"
    using net(3) by (simp add: net_drop_def take_map min_def)
  ultimately show ?thesis using net(2) unfolding Let_def by (intro exI [of _ "net_drop net p"]) (simp add: net_drop_def)
qed

text \<open>A zone with the clients 10, 11 and 12; the packet at 99 goes to all but the second.\<close>

definition demo_packet :: tlg_packet where
  "demo_packet = \<lparr>pk_opcode = 1, pk_fragCount = 0, pk_isFragmentized = False, pk_dataLength = 2, pk_refCount = 0,
     pk_data = replicate 24 0\<rparr>"

definition demo_zone :: zone where
  "demo_zone = (zone_new 0 0 0 0 1 0 0 0 0)\<lparr>zn_clientsBroadcastAll := [10, 11, 12, 0], zn_clientBroadcastAllCount := 3\<rparr>"

definition demo_world :: world where
  "demo_world = \<lparr>wd_net = demo_net [] [99 \<mapsto> demo_packet],
     wd_creatures = [10 \<mapsto> Player (zero_client\<lparr>cn_ipAddr := (1, 7)\<rparr>), 11 \<mapsto> Player (zero_client\<lparr>cn_ipAddr := (2, 7)\<rparr>),
       12 \<mapsto> Player (zero_client\<lparr>cn_ipAddr := (3, 7)\<rparr>)],
     wd_zones = [5 \<mapsto> demo_zone], wd_static = (\<lambda>_. None), wd_timers = (\<lambda>_. None),
     wd_pool = \<lparr>tp_timerCount = 0, tp_triggeredCount = 0, tp_triggeredCap = 0, tp_triggerTimes = [], tp_timerObjects = [],
       tp_triggeredIndices = []\<rparr>\<rparr>"

theorem zone_broadcast_exact_witness:
  "\<exists>net. zone_broadcast_to_all_clients_except 5 99 11 demo_world = Some (demo_world\<lparr>wd_net := net\<rparr>)
     \<and> net_queue net = [send_to demo_world 99 10, send_to demo_world 99 12]
     \<and> map_option pk_refCount (net_packet net 99) = Some 2"
proof -
  have "queue_ok (wd_net demo_world)" "net_packet (wd_net demo_world) 99 = Some demo_packet" "wd_zones demo_world 5 = Some demo_zone"
    "unat (zn_clientBroadcastAllCount demo_zone) = length [10, 11, 12 :: u64]"
    "take (length [10, 11, 12 :: u64]) (zn_clientsBroadcastAll demo_zone) = [10, 11, 12]"
    "\<forall>c \<in> set [10, 11, 12 :: u64]. c \<noteq> 11 \<longrightarrow> wd_client demo_world c \<noteq> None" "pk_refCount demo_packet = of_nat 0"
    by (simp_all add: demo_world_def demo_zone_def wd_client_def demo_packet_def)
  from zone_broadcast_exact [OF this(1) _ this(2,7,3-6)]
  show ?thesis by (auto simp: Let_def demo_world_def demo_packet_def spread_def packet_already_fragmentized_def fragmentize_refs)
qed

end
