(* ===== verification/Zeq_Clock.thy ===== *)
theory Zeq_Clock
  imports Zeq_Prelude
begin

text \<open>
  \<open>src/util_clock_common.c\<close>: the time of day of the game, which runs twenty times as fast as the
  clock of the machine and started on 16 March 1999.
\<close>

record norrath_time =
  no_hour :: u8
  no_minute :: u8
  no_day :: u8
  no_month :: u8
  no_year :: u16

definition BASE_UNIX_TIME :: u64 where "BASE_UNIX_TIME = 921542400"
definition REAL_SECONDS_PER_MINUTE :: u64 where "REAL_SECONDS_PER_MINUTE = 3"
definition MINUTES_PER_HOUR :: u64 where "MINUTES_PER_HOUR = 60"
definition MINUTES_PER_DAY :: u64 where "MINUTES_PER_DAY = MINUTES_PER_HOUR * 24"
definition MINUTES_PER_YEAR :: u64 where "MINUTES_PER_YEAR = MINUTES_PER_DAY * 365"

definition daysInMonth :: "u8 list" where
  "daysInMonth = [31, 28, 31, 30, 31, 30, 31, 31, 30, 31, 30, 31]"

text \<open>The loop over the months; the month keeps its old value if the day is in none of them.\<close>

fun find_month :: "u8 list \<Rightarrow> u8 \<Rightarrow> u8 \<Rightarrow> u32 \<Rightarrow> u8 \<times> u32" where
  "find_month [] i month day = (month, day)"
| "find_month (inMonth # months) i month day =
     (if day \<le> ucast inMonth then (i + 1, day) else find_month months (i + 1) month (day - ucast inMonth))"

definition clock_calc_norrath_time_at :: "norrath_time \<Rightarrow> u64 \<Rightarrow> norrath_time" where
  "clock_calc_norrath_time_at out unixTime =
     (let eq = (unixTime - BASE_UNIX_TIME) div REAL_SECONDS_PER_MINUTE;
          out = out\<lparr>no_year := ucast (eq div MINUTES_PER_YEAR)\<rparr>;
          eq = eq mod MINUTES_PER_YEAR;
          day = ucast (eq div MINUTES_PER_DAY + 1);
          (month, day) = find_month daysInMonth 0 (no_month out) day;
          out = out\<lparr>no_month := month\<rparr>;
          out = out\<lparr>no_day := ucast day\<rparr>;
          eq = eq mod MINUTES_PER_DAY;
          out = out\<lparr>no_hour := ucast (eq div MINUTES_PER_HOUR)\<rparr>;
          eq = eq mod MINUTES_PER_HOUR
      in out\<lparr>no_minute := ucast eq\<rparr>)"

section \<open>The calendar\<close>

lemmas clock_consts = BASE_UNIX_TIME_def REAL_SECONDS_PER_MINUTE_def MINUTES_PER_HOUR_def MINUTES_PER_DAY_def MINUTES_PER_YEAR_def

lemma unat_ucast_u8_u32 [simp]: "unat (ucast (x :: u8) :: u32) = unat x"
  by (simp add: unsigned_ucast_eq unsigned_less take_bit_nat_eq_self less_trans [OF unsigned_less])

lemma find_month_gen:
  assumes "find_month ms i m0 (of_nat d) = (month, day)" "1 \<le> d" "d \<le> (\<Sum>m\<leftarrow>ms. unat m)" "d < 2 ^ 32"
  shows "\<exists>k d'. k < length ms \<and> month = i + of_nat (k + 1) \<and> day = of_nat d' \<and> 1 \<le> d' \<and> d' \<le> unat (ms ! k)
    \<and> d = (\<Sum>m\<leftarrow>take k ms. unat m) + d'"
  using assms
proof (induction ms arbitrary: i d)
  case (Cons inMonth ms)
  have u: "unat (of_nat d :: u32) = d" using Cons.prems(4) by (intro unat_of_nat_small) simp
  have le: "(of_nat d :: u32) \<le> ucast inMonth \<longleftrightarrow> d \<le> unat inMonth" by (simp add: word_le_nat_alt u)
  show ?case
  proof (cases "d \<le> unat inMonth")
    case True
    then show ?thesis using Cons.prems le by (intro exI [of _ 0] exI [of _ d]) simp
  next
    case False
    have "(of_nat d :: u32) - ucast inMonth = of_nat (d - unat inMonth)"
      using False by (simp add: of_nat_diff unsigned_of_nat)
    then have "find_month ms (i + 1) m0 (of_nat (d - unat inMonth)) = (month, day)" using Cons.prems(1) le False by simp
    moreover have "1 \<le> d - unat inMonth" "d - unat inMonth \<le> (\<Sum>m\<leftarrow>ms. unat m)" "d - unat inMonth < 2 ^ 32"
      using Cons.prems(3,4) False by simp_all
    ultimately obtain k d' where "k < length ms" "month = i + 1 + of_nat (k + 1)" "day = of_nat d'" "1 \<le> d'"
      "d' \<le> unat (ms ! k)" "d - unat inMonth = (\<Sum>m\<leftarrow>take k ms. unat m) + d'"
      using Cons.IH by blast
    then show ?thesis using False by (intro exI [of _ "Suc k"] exI [of _ d']) (simp add: algebra_simps)
  qed
qed simp

text \<open>The day of the year, from 1 on, that a month and a day name.\<close>

definition day_of_year :: "u8 \<Rightarrow> u8 \<Rightarrow> nat" where
  "day_of_year month day = (\<Sum>m\<leftarrow>take (unat month - 1) daysInMonth. unat m) + unat day"

lemma find_month_ok:
  assumes "find_month daysInMonth 0 m0 (of_nat d) = (month, day)" "1 \<le> d" "d \<le> 365"
  shows "1 \<le> unat month \<and> unat month \<le> 12 \<and> 1 \<le> unat (ucast day :: u8)
    \<and> unat (ucast day :: u8) \<le> unat (daysInMonth ! (unat month - 1)) \<and> day_of_year month (ucast day) = d"
proof -
  have "d \<le> (\<Sum>m\<leftarrow>daysInMonth. unat m)" "length daysInMonth = 12" using assms(3) by (simp_all add: daysInMonth_def)
  then obtain k d' where k: "k < 12" "month = of_nat (k + 1)" "day = of_nat d'" "1 \<le> d'" "d' \<le> unat (daysInMonth ! k)"
      "d = (\<Sum>m\<leftarrow>take k daysInMonth. unat m) + d'"
    using find_month_gen [OF assms(1,2)] assms(3) by auto
  have "unat (daysInMonth ! k) < 2 ^ 8" using unsigned_less [of "daysInMonth ! k"] by simp
  then have "unat (ucast day :: u8) = d'" using k(3,5) by (simp add: unsigned_ucast_eq unsigned_of_nat take_bit_nat_eq_self)
  moreover have "unat month = k + 1" unfolding k(2) using k(1) by (intro unat_of_nat_small) simp
  ultimately show ?thesis using k by (simp add: day_of_year_def)
qed

text \<open>C38. The calendar of the game is exact: for every moment after the start of the game (and before the
  year 65536) the fields are a valid date and time, the day lies in its month, and together they
  give back the number of game minutes, three seconds each, since the start.\<close>

theorem clock_calc_norrath_time_exact:
  assumes "921542400 + 3 * 525600 * 65536 > unat unixTime" "unat unixTime \<ge> 921542400"
  shows "let t = clock_calc_norrath_time_at out unixTime in
    1 \<le> unat (no_month t) \<and> unat (no_month t) \<le> 12 \<and> 1 \<le> unat (no_day t)
    \<and> unat (no_day t) \<le> unat (daysInMonth ! (unat (no_month t) - 1)) \<and> unat (no_hour t) < 24 \<and> unat (no_minute t) < 60
    \<and> unat (no_year t) * 525600 + (day_of_year (no_month t) (no_day t) - 1) * 1440 + unat (no_hour t) * 60 + unat (no_minute t)
      = (unat unixTime - 921542400) div 3"
proof -
  define m where "m = (unat unixTime - 921542400) div 3"
  define n where "n = m mod 525600"
  define e where "e = (unixTime - BASE_UNIX_TIME) div REAL_SECONDS_PER_MINUTE"
  let ?d = "n div 1440 + 1"
  have "m < 525600 * 65536" using assms unfolding m_def by linarith
  then have y: "m div 525600 < 65536" by (simp add: div_less_iff_less_mult mult.commute)
  have eq: "unat e = m" using assms(2) by (simp add: e_def clock_consts m_def unat_div unat_sub_if')
  have rem: "unat (e mod MINUTES_PER_YEAR) = n" by (simp add: clock_consts unat_mod n_def eq)
  have n: "n < 525600" by (simp add: n_def)
  then have d: "n div 1440 < 365" by (simp add: div_less_iff_less_mult)
  have year: "unat (ucast (e div MINUTES_PER_YEAR) :: u16) = m div 525600"
    using y by (simp add: unsigned_ucast_eq clock_consts unat_div eq take_bit_nat_eq_self)
  have "unat (e mod MINUTES_PER_YEAR div MINUTES_PER_DAY) = n div 1440" 
    by (simp add: clock_consts unat_div unat_mod eq n_def)
  then have "e mod MINUTES_PER_YEAR div MINUTES_PER_DAY = of_nat (n div 1440)" by (simp add: word_unat_eq_iff unsigned_of_nat take_bit_nat_eq_self d [THEN less_trans])
  then have e1: "e mod MINUTES_PER_YEAR div MINUTES_PER_DAY + 1 = of_nat ?d" by simp
  have day: "(ucast (e mod MINUTES_PER_YEAR div MINUTES_PER_DAY + 1) :: u32) = of_nat ?d"
    unfolding e1 using d by (simp only: word_unat_eq_iff unsigned_ucast_eq unsigned_of_nat) (simp add: take_bit_nat_eq_self)
  have h: "unat (e mod MINUTES_PER_YEAR mod MINUTES_PER_DAY) = n mod 1440"
    by (simp add: clock_consts unat_mod eq n_def)
  have "n mod 1440 div 60 < 24" by (simp add: div_less_iff_less_mult)
  then have hour: "unat (ucast (e mod MINUTES_PER_YEAR mod MINUTES_PER_DAY div MINUTES_PER_HOUR) :: u8) = n mod 1440 div 60"
    using h by (simp add: unsigned_ucast_eq MINUTES_PER_HOUR_def unat_div take_bit_nat_eq_self)
  have "n mod 1440 mod 60 < 60" by simp
  then have minute: "unat (ucast (e mod MINUTES_PER_YEAR mod MINUTES_PER_DAY mod MINUTES_PER_HOUR) :: u8) = n mod 1440 mod 60"
    using h by (simp add: unsigned_ucast_eq MINUTES_PER_HOUR_def unat_mod take_bit_nat_eq_self)
  obtain month dd where md: "find_month daysInMonth 0 (no_month out) (of_nat ?d) = (month, dd)" by fastforce
  have total: "m = m div 525600 * 525600 + n div 1440 * 1440 + n mod 1440 div 60 * 60 + n mod 1440 mod 60"
    unfolding n_def by presburger
  have t: "clock_calc_norrath_time_at out unixTime =
      \<lparr>no_hour = ucast (e mod MINUTES_PER_YEAR mod MINUTES_PER_DAY div MINUTES_PER_HOUR),
       no_minute = ucast (e mod MINUTES_PER_YEAR mod MINUTES_PER_DAY mod MINUTES_PER_HOUR), no_day = ucast dd, no_month = month,
       no_year = ucast (e div MINUTES_PER_YEAR)\<rparr>"
    unfolding clock_calc_norrath_time_at_def Let_def e_def [symmetric] day by (simp add: md [simplified])
  show ?thesis
    unfolding t Let_def norrath_time.simps using find_month_ok [OF md] d hour minute year total
    by (simp flip: m_def)
qed

text \<open>The first second of the year 2024: it is 16:53 on 9 January of the year 496.\<close>

theorem clock_calc_norrath_time_exact_witness:
  "let t = clock_calc_norrath_time_at \<lparr>no_hour = 0, no_minute = 0, no_day = 0, no_month = 0, no_year = 0\<rparr> 1704067200 in
    unat (no_month t) \<le> 12 \<and> unat (no_year t) * 525600 + (day_of_year (no_month t) (no_day t) - 1) * 1440
      + unat (no_hour t) * 60 + unat (no_minute t) = 260841600"
  using clock_calc_norrath_time_exact [of 1704067200] by (simp add: Let_def)

end
