(* ===== verification/Zeq_CharSelectState.thy ===== *)
theory Zeq_CharSelectState
  imports Zeq_Net Zeq_PacketCreate Zeq_Clock
begin

text \<open>
  The state of \<open>src/char_select_thread.c\<close>, the functions of \<open>src/char_select_client.c\<close>, the packets of
  the character selection screen (\<open>src/char_select_packet_struct.h\<close>), and the check of a new character.
\<close>

section \<open>Clients\<close>

record csc =
  cc_authed :: bool
  cc_isNameApproved :: bool
  cc_isLocal :: bool
  cc_isZoning :: bool
  cc_ipAddress :: "u32 \<times> u16"
  cc_accountId :: u64
  cc_sessionKey :: "u8 list"

text \<open>The session key stays as the memory of the object was.\<close>

definition csc_init :: "u8 list \<Rightarrow> u32 \<times> u16 \<Rightarrow> csc" where
  "csc_init memory ipAddress =
     \<lparr>cc_authed = False, cc_isNameApproved = False, cc_isLocal = ip_is_local (fst ipAddress), cc_isZoning = False,
      cc_ipAddress = ipAddress, cc_accountId = - 1, cc_sessionKey = memory\<rparr>"

definition csc_get_ip_addr :: "csc \<Rightarrow> u32 \<times> u16" where "csc_get_ip_addr c = cc_ipAddress c"
definition csc_get_ip :: "csc \<Rightarrow> u32" where "csc_get_ip c = fst (cc_ipAddress c)"
definition csc_get_port :: "csc \<Rightarrow> u16" where "csc_get_port c = snd (cc_ipAddress c)"

definition csc_set_auth_data :: "csc \<Rightarrow> u64 \<Rightarrow> u8 list \<Rightarrow> csc" where
  "csc_set_auth_data c acctId sessionKey = c\<lparr>cc_authed := True, cc_accountId := acctId, cc_sessionKey := take 16 sessionKey\<rparr>"

definition csc_check_auth :: "csc \<Rightarrow> u64 \<Rightarrow> u32 \<Rightarrow> u8 list \<Rightarrow> bool" where
  "csc_check_auth c accountId ip sessionKey \<longleftrightarrow>
     cc_accountId c = accountId \<and> fst (cc_ipAddress c) = ip \<and> cc_sessionKey c = take 16 sessionKey"

definition csc_is_authed :: "csc \<Rightarrow> bool" where "csc_is_authed c = cc_authed c"
definition csc_set_name_approved :: "csc \<Rightarrow> bool \<Rightarrow> csc" where "csc_set_name_approved c value = c\<lparr>cc_isNameApproved := value\<rparr>"
definition csc_is_name_approved :: "csc \<Rightarrow> bool" where "csc_is_name_approved c = cc_isNameApproved c"
definition csc_get_account_id :: "csc \<Rightarrow> u64" where "csc_get_account_id c = cc_accountId c"
definition csc_is_local :: "csc \<Rightarrow> bool" where "csc_is_local c = cc_isLocal c"
definition csc_set_is_zoning :: "csc \<Rightarrow> bool \<Rightarrow> csc" where "csc_set_is_zoning c value = c\<lparr>cc_isZoning := value\<rparr>"
definition csc_is_zoning :: "csc \<Rightarrow> bool" where "csc_is_zoning c = cc_isZoning c"

section \<open>Data of characters and guilds\<close>

record guild =
  gd_guildId :: u32
  gd_guildName :: u64

record char_select_data =
  cd_name :: "u64 list"
  cd_zoneId :: "u32 list"
  cd_level :: "u8 list"
  cd_classId :: "u8 list"
  cd_raceId :: "u16 list"
  cd_genderId :: "u8 list"
  cd_faceId :: "u8 list"
  cd_materialIds :: "u8 list list"
  cd_materialTints :: "u32 list list"

record create_bind =
  cb_zoneId :: u32
  cb_x :: u32
  cb_y :: u32
  cb_z :: u32

text \<open>The statistics in the order of the union: strength, stamina, charisma, dexterity, intelligence,
  agility, wisdom.\<close>

record char_create_data =
  ce_name :: "u8 list"
  ce_genderId :: u8
  ce_classId :: u8
  ce_faceId :: u8
  ce_currentHp :: u8
  ce_raceId :: u16
  ce_stats :: "u8 list"
  ce_zoneId :: u32
  ce_deityId :: u16
  ce_x :: u32
  ce_y :: u32
  ce_z :: u32
  ce_heading :: u32
  ce_bindPoint :: "create_bind list"

section \<open>The check of a new character\<close>

definition classes_bitmap :: "bool list \<Rightarrow> u16" where
  "classes_bitmap bs = foldr (\<lambda>b w. 2 * w + (if b then 1 else 0)) bs 0"

definition classesByRace :: "u16 list" where
  "classesByRace = map classes_bitmap
     [[True, True, True, True, True, True, True, True, True, False, True, True, True, True],
      [True, False, False, False, False, False, False, False, True, True, False, False, False, False],
      [False, True, True, False, True, False, False, False, False, False, True, True, True, True],
      [True, False, False, True, False, True, False, True, True, False, False, False, False, False],
      [False, True, True, False, False, False, False, False, False, False, False, True, True, True],
      [True, True, False, False, True, False, False, False, True, False, True, True, True, True],
      [True, False, True, True, False, True, False, True, True, False, False, False, False, False],
      [True, True, True, False, False, False, False, False, True, False, False, False, False, False],
      [True, False, False, False, True, False, False, False, False, True, False, False, False, False],
      [True, False, False, False, True, False, False, False, False, True, False, False, False, False],
      [True, True, True, True, False, True, False, False, True, False, False, False, False, False],
      [True, True, False, False, False, False, False, False, True, False, True, True, True, True],
      [True, False, False, False, True, False, True, False, False, True, True, False, False, False]]"

definition baseStatsByRace :: "nat list list" where
  "baseStatsByRace =
     [[75, 75, 75, 75, 75, 75, 75],
      [103, 95, 55, 70, 60, 82, 70],
      [60, 70, 70, 70, 107, 70, 83],
      [65, 65, 75, 80, 75, 95, 80],
      [55, 65, 80, 70, 92, 85, 95],
      [60, 65, 60, 75, 99, 90, 83],
      [70, 70, 75, 85, 75, 90, 60],
      [90, 90, 45, 90, 60, 70, 83],
      [108, 109, 40, 75, 52, 83, 60],
      [130, 122, 37, 70, 60, 70, 67],
      [70, 75, 50, 90, 67, 95, 80],
      [60, 70, 60, 85, 98, 85, 67],
      [70, 70, 55, 85, 75, 90, 80]]"

definition statBonusesByClass :: "nat list list" where
  "statBonusesByClass =
     [[10, 10, 0, 0, 0, 5, 0],
      [5, 5, 0, 0, 0, 0, 10],
      [10, 5, 10, 0, 0, 0, 5],
      [5, 10, 0, 0, 0, 10, 5],
      [10, 5, 5, 0, 10, 0, 0],
      [0, 10, 0, 0, 0, 0, 10],
      [5, 5, 0, 10, 0, 10, 0],
      [5, 0, 10, 10, 0, 0, 0],
      [0, 0, 0, 10, 0, 10, 0],
      [0, 5, 5, 0, 0, 0, 10],
      [0, 0, 0, 10, 10, 0, 0],
      [0, 10, 0, 0, 10, 0, 0],
      [0, 10, 0, 0, 10, 0, 0],
      [0, 0, 10, 0, 10, 0, 0]]"

definition spendableStatPointsByClass :: "nat list" where
  "spendableStatPointsByClass = [25, 30, 20, 20, 20, 30, 20, 25, 30, 30, 30, 30, 30, 30]"

text \<open>The loop over the seven statistics.\<close>

fun stats_loop :: "nat \<Rightarrow> nat list \<Rightarrow> nat list \<Rightarrow> u8 list \<Rightarrow> nat \<Rightarrow> nat \<Rightarrow> (nat \<times> nat) option" where
  "stats_loop maxOne (b # bs) (c # cs) (v # vs) totalExpected stat =
     (if unat v > b + c + maxOne then None
      else stats_loop maxOne bs cs vs (totalExpected + (b + c)) (stat + unat v))"
| "stats_loop maxOne bs cs vs totalExpected stat = Some (totalExpected, stat)"

text \<open>The indices are unsigned, so class and race 0 become the largest number.\<close>

definition cs_thread_create_character_is_valid :: "char_create_data \<Rightarrow> bool" where
  "cs_thread_create_character_is_valid data =
     (let classIndex = ucast (ce_classId data) - 1 :: u32;
          raceIndex = scast (ce_raceId data) - 1 :: u32;
          raceIndex = (if raceIndex > 12 then 12 else raceIndex)
      in if classIndex > 14 \<or> (ucast (classesByRace ! unat raceIndex) :: u32) AND push_bit (unat classIndex) 1 = 0 then False
         else let totalExpected = spendableStatPointsByClass ! unat classIndex;
                  maxSpendableOneStat = (if totalExpected > 25 then 25 else totalExpected)
              in case stats_loop maxSpendableOneStat (baseStatsByRace ! unat raceIndex) (statBonusesByClass ! unat classIndex)
                        (ce_stats data) totalExpected 0 of
                   None \<Rightarrow> False
                 | Some (totalExpected, stat) \<Rightarrow> \<not> stat > totalExpected)"

section \<open>The thread\<close>

record cs_auth =
  ca_accountId :: u64
  ca_ip :: u32
  ca_sessionKey :: "u8 list"

text \<open>The queries to the database thread and the one request to the main thread. A query takes over the
  name it holds, or the data of the new character.\<close>

datatype cs_query =
    QCSCharacterInfo u64 u64
  | QCSCharacterNameAvailable u64 u64
  | QCSCharacterCreate u64 u64 char_create_data
  | QCSCharacterDelete u64 u64 u64

record zone_request =
  zr_client :: u64
  zr_name :: u64
  zr_accountId :: u64
  zr_ipAddr :: "u32 \<times> u16"
  zr_isLocal :: bool

text \<open>The struct, and behind it the memory it shares with other threads: the strings, packets and the UDP
  queue (\<open>cs_net\<close>), its client objects, the two other queues, and the table of zone names.\<close>

record char_select =
  cs_clientCount :: u32
  cs_authsAwaitingClientCount :: u32
  cs_clientsAwaitingAuthCount :: u32
  cs_guildCount :: u32
  cs_nextQueryId :: u32
  cs_dbId :: u32
  cs_clients :: "u64 list"
  cs_authsAwaitingClient :: "cs_auth list"
  cs_clientsAwaitingAuth :: "u64 list"
  cs_authAwaitingClientTimeouts :: "u64 list"
  cs_clientAwaitingAuthTimeouts :: "u64 list"
  cs_guildList :: "guild list"
  cs_packetLoginApproved :: u64
  cs_packetEnter :: u64
  cs_packetExpansionInfo :: u64
  cs_packetGuildList :: u64
  cs_packetZoneUnavailable :: u64
  cs_packetEcho1 :: u64
  cs_packetEcho2 :: u64
  cs_packetEcho3 :: u64
  cs_packetEcho4 :: u64
  cs_packetEcho5 :: u64
  cs_net :: net
  cs_objects :: "u64 \<Rightarrow> csc option"
  cs_mainQueue :: "zone_request ringbuf"
  cs_dbQueue :: "cs_query db_query ringbuf"
  cs_zoneIds :: "int hashtbl"

definition ZOP_DB_QueryCSCharacterInfo :: int where "ZOP_DB_QueryCSCharacterInfo = 21"
definition ZOP_DB_QueryCSCharacterNameAvailable :: int where "ZOP_DB_QueryCSCharacterNameAvailable = 22"
definition ZOP_DB_QueryCSCharacterCreate :: int where "ZOP_DB_QueryCSCharacterCreate = 23"
definition ZOP_DB_QueryCSCharacterDelete :: int where "ZOP_DB_QueryCSCharacterDelete = 24"
definition ZOP_MAIN_ZoneFromCharSelect :: int where "ZOP_MAIN_ZoneFromCharSelect = 43"
definition ZOP_CS_TerminateThread :: int where "ZOP_CS_TerminateThread = 36"
definition OP_CS_LoginInfo :: u16 where "OP_CS_LoginInfo = 0x1858"
definition OP_CS_LoginApproved :: u16 where "OP_CS_LoginApproved = 0x1007"
definition OP_CS_Enter :: u16 where "OP_CS_Enter = 0x8001"
definition OP_CS_ExpansionInfo :: u16 where "OP_CS_ExpansionInfo = 0x21d8"
definition OP_CS_CharacterInfo :: u16 where "OP_CS_CharacterInfo = 0x2047"
definition OP_CS_GuildList :: u16 where "OP_CS_GuildList = 0x2192"
definition OP_CS_NameApproval :: u16 where "OP_CS_NameApproval = 0x208b"
definition OP_CS_CreateCharacter :: u16 where "OP_CS_CreateCharacter = 0x2049"
definition OP_CS_DeleteCharacter :: u16 where "OP_CS_DeleteCharacter = 0x205a"
definition OP_CS_WearChange :: u16 where "OP_CS_WearChange = 0x2092"
definition OP_CS_ZoneUnavailable :: u16 where "OP_CS_ZoneUnavailable = 0x8005"
definition OP_CS_MessageOfTheDay :: u16 where "OP_CS_MessageOfTheDay = 0x21dd"
definition OP_CS_TimeOfDay :: u16 where "OP_CS_TimeOfDay = 0x20f2"
definition OP_CS_ZoneAddress :: u16 where "OP_CS_ZoneAddress = 0x8004"
definition OP_CS_Echo1 :: u16 where "OP_CS_Echo1 = 0x2023"
definition OP_CS_Echo2 :: u16 where "OP_CS_Echo2 = 0x80a9"
definition OP_CS_Echo3 :: u16 where "OP_CS_Echo3 = 0xab00"
definition OP_CS_Echo4 :: u16 where "OP_CS_Echo4 = 0xac00"
definition OP_CS_Echo5 :: u16 where "OP_CS_Echo5 = 0xad00"
definition OP_CS_Ignore1 :: u16 where "OP_CS_Ignore1 = 0x2135"
definition OP_CS_Ignore2 :: u16 where "OP_CS_Ignore2 = 0x2139"
definition CHAR_SELECT_THREAD_AUTH_TIMEOUT_MS :: u64 where "CHAR_SELECT_THREAD_AUTH_TIMEOUT_MS = 10000"
definition CHAR_SELECT_MAX_CHARS :: nat where "CHAR_SELECT_MAX_CHARS = 10"
definition CHAR_SELECT_MAX_NAME_LENGTH :: nat where "CHAR_SELECT_MAX_NAME_LENGTH = 30"
definition CHAR_SELECT_MAX_ZONE_SHORTNAME_LENGTH :: nat where "CHAR_SELECT_MAX_ZONE_SHORTNAME_LENGTH = 20"
definition CHAR_SELECT_MATERIAL_COUNT :: nat where "CHAR_SELECT_MATERIAL_COUNT = 9"
definition CHAR_SELECT_MAX_GUILD_NAME_LENGTH :: nat where "CHAR_SELECT_MAX_GUILD_NAME_LENGTH = 32"
definition CHAR_SELECT_MAX_GUILD_COUNT :: nat where "CHAR_SELECT_MAX_GUILD_COUNT = 512"
definition CHAR_SELECT_MAX_ZONE_IP_LENGTH :: nat where "CHAR_SELECT_MAX_ZONE_IP_LENGTH = 75"
definition CHAR_SELECT_MAX_ZONE_ADDRESS_SHORTNAME_LENGTH :: nat where "CHAR_SELECT_MAX_ZONE_ADDRESS_SHORTNAME_LENGTH = 53"

definition PSCS_CharacterInfo :: pstruct where
  "PSCS_CharacterInfo =
     [(''names'', 10 * 30), (''levels'', 10), (''classIds'', 10), (''raceIds'', 10 * 2), (''zoneShortNames'', 10 * 20),
      (''genderIds'', 10), (''faceIds'', 10), (''materialIds'', 10 * 9), (''unknownA'', 2), (''materialTints'', 10 * 9 * 4),
      (''unknownB'', 20), (''primaryWeaponIds'', 10 * 4), (''secondaryWeaponIds'', 10 * 4), (''unknownC'', 148)]"

definition PSCS_Guild :: pstruct where
  "PSCS_Guild = [(''guildId'', 4), (''name'', 32), (''unknownA'', 4), (''exists'', 4), (''unknownB'', 4), (''unknownC'', 4), (''unknownD'', 4)]"

definition PSCS_NameApproval :: pstruct where
  "PSCS_NameApproval = [(''name'', 32), (''raceId'', 4), (''classId'', 4)]"

definition PSCS_ZoneUnavailable :: pstruct where "PSCS_ZoneUnavailable = [(''shortName'', 20)]"

definition PSCS_ZoneAddress :: pstruct where
  "PSCS_ZoneAddress = [(''ipAddress'', 75), (''zoneShortName'', 53), (''port'', 2)]"

definition PSCS_TimeOfDay :: pstruct where
  "PSCS_TimeOfDay = [(''hour'', 1), (''minute'', 1), (''day'', 1), (''month'', 1), (''year'', 2)]"

section \<open>The packets\<close>

definition guild_ops :: "sheap \<Rightarrow> guild \<Rightarrow> wop list" where
  "guild_ops h g =
     [W32 (gd_guildId g), WText CHAR_SELECT_MAX_GUILD_NAME_LENGTH (sbuf_str h (gd_guildName g)), W32 0xffffffff, W32 1, W32 0,
      W32 0xffffffff, W32 0]"

definition no_guild_ops :: "wop list" where
  "no_guild_ops =
     [W32 0xffffffff, WZeroes CHAR_SELECT_MAX_GUILD_NAME_LENGTH, W32 0xffffffff, W32 0, W32 0, W32 0xffffffff, W32 0]"

definition guild_list_ops :: "sheap \<Rightarrow> guild list \<Rightarrow> wop list" where
  "guild_list_ops h guilds =
     W32 0 # concat (map (guild_ops h) guilds) @ concat (replicate (CHAR_SELECT_MAX_GUILD_COUNT - length guilds) no_guild_ops)"

definition cs_guild_list_packet :: "sheap \<Rightarrow> guild list \<Rightarrow> u8 list option \<Rightarrow> tlg_packet option option" where
  "cs_guild_list_packet h guilds block =
     packet_write block OP_CS_GuildList (of_nat (4 + CHAR_SELECT_MAX_GUILD_COUNT * struct_size PSCS_Guild)) (guild_list_ops h guilds)"

text \<open>One loop over the characters and one over the empty places, for each field.\<close>

definition each :: "nat \<Rightarrow> (nat \<Rightarrow> wop list) \<Rightarrow> wop list \<Rightarrow> wop list" where
  "each n f none = concat (map f [0..<n]) @ concat (replicate (CHAR_SELECT_MAX_CHARS - n) none)"

definition char_info_fields :: "sheap \<Rightarrow> char_select_data \<Rightarrow> nat \<Rightarrow> field_writes" where
  "char_info_fields h data n =
     [([''names''], each n (\<lambda>i. [WText CHAR_SELECT_MAX_NAME_LENGTH (sbuf_str h (cd_name data ! i))])
         [WText CHAR_SELECT_MAX_NAME_LENGTH (bytes_of ''<none>'')]),
      ([''levels''], each n (\<lambda>i. [W8 (cd_level data ! i)]) [W8 0]),
      ([''classIds''], each n (\<lambda>i. [W8 (cd_classId data ! i)]) [W8 0]),
      ([''raceIds''], each n (\<lambda>i. [W16 (cd_raceId data ! i)]) [W16 0]),
      ([''zoneShortNames''], each n (\<lambda>i. [WText CHAR_SELECT_MAX_ZONE_SHORTNAME_LENGTH
           (bytes_of (zone_short_name_by_id (sint (cd_zoneId data ! i))))])
         [WText CHAR_SELECT_MAX_ZONE_SHORTNAME_LENGTH (bytes_of ''qeynos'')]),
      ([''genderIds''], each n (\<lambda>i. [W8 (cd_genderId data ! i)]) [W8 0]),
      ([''faceIds''], each n (\<lambda>i. [W8 (cd_faceId data ! i)]) [W8 0]),
      ([''materialIds''], each n (\<lambda>i. map (\<lambda>j. W8 (cd_materialIds data ! i ! j)) [0..<9]) [WZeroes CHAR_SELECT_MATERIAL_COUNT]),
      ([''unknownA''], [WZeroes (sizeof_field PSCS_CharacterInfo ''unknownA'')]),
      ([''materialTints''], each n (\<lambda>i. map (\<lambda>j. W32 (cd_materialTints data ! i ! j)) [0..<7] @ [W32 0, W32 0])
         [WZeroes (4 * CHAR_SELECT_MATERIAL_COUNT)]),
      ([''unknownB''], [WZeroes (sizeof_field PSCS_CharacterInfo ''unknownB'')]),
      ([''primaryWeaponIds''], each n (\<lambda>i. [W32 (ucast (cd_materialIds data ! i ! 7))]) [W32 0]),
      ([''secondaryWeaponIds''], each n (\<lambda>i. [W32 (ucast (cd_materialIds data ! i ! 8))]) [W32 0]),
      ([''unknownC''], [WZeroes (sizeof_field PSCS_CharacterInfo ''unknownC'')])]"

definition cs_thread_write_char_info_packet ::
    "sheap \<Rightarrow> char_select_data \<Rightarrow> u32 \<Rightarrow> u8 list option \<Rightarrow> tlg_packet option option" where
  "cs_thread_write_char_info_packet h data n block =
     packet_write_struct block OP_CS_CharacterInfo PSCS_CharacterInfo (char_info_fields h data (unat n))"

definition time_of_day_fields :: "norrath_time \<Rightarrow> field_writes" where
  "time_of_day_fields t =
     [([''hour''], [W8 (no_hour t)]), ([''minute''], [W8 (no_minute t)]), ([''day''], [W8 (no_day t)]),
      ([''month''], [W8 (no_month t)]), ([''year''], [W16 (no_year t)])]"

definition zone_address_fields :: "u8 list \<Rightarrow> u32 \<Rightarrow> u16 \<Rightarrow> field_writes" where
  "zone_address_fields ipAddress zoneId port =
     [([''ipAddress''], [WText CHAR_SELECT_MAX_ZONE_IP_LENGTH ipAddress]),
      ([''zoneShortName''], [WText CHAR_SELECT_MAX_ZONE_ADDRESS_SHORTNAME_LENGTH (bytes_of (zone_short_name_by_id (sint zoneId)))]),
      ([''port''], [W16 port])]"

end
