(* ===== verification/Zeq_CharSelect.thy ===== *)
theory Zeq_CharSelect
  imports Zeq_CharSelectState
begin

text \<open>
  The handlers of \<open>src/char_select_thread.c\<close>. A result \<open>None\<close> is undefined behaviour: a failed assertion,
  or the use of a client object that has been freed. Log messages are left out.
\<close>

section \<open>Clients of the thread\<close>

definition cs_client :: "char_select \<Rightarrow> u64 \<Rightarrow> csc option" where
  "cs_client cs c = cs_objects cs c"

definition cs_upd_client :: "char_select \<Rightarrow> u64 \<Rightarrow> (csc \<Rightarrow> csc) \<Rightarrow> char_select option" where
  "cs_upd_client cs c f =
     map_option (\<lambda>client. cs\<lparr>cs_objects := (cs_objects cs)(c \<mapsto> f client)\<rparr>) (cs_objects cs c)"

definition csc_schedule_packet :: "u64 \<Rightarrow> u64 \<Rightarrow> char_select \<Rightarrow> (zerr \<times> char_select) option" where
  "csc_schedule_packet c packet cs =
     Option.bind (cs_client cs c) (\<lambda>client.
       map_option (\<lambda>(rc, net). (rc, cs\<lparr>cs_net := net\<rparr>)) (net_schedule (cc_ipAddress client) packet (cs_net cs)))"

definition cs_thread_drop_client :: "u64 \<Rightarrow> char_select \<Rightarrow> (bool \<times> char_select) option" where
  "cs_thread_drop_client c cs =
     Option.bind (cs_client cs c) (\<lambda>client.
       map_option (\<lambda>(rc, net). (rc = ERR_None, cs\<lparr>cs_net := net\<rparr>))
         (net_address_command ZOP_UDP_DropClient (csc_get_ip_addr client) (cs_net cs)))"

definition cs_drop :: "u64 \<Rightarrow> char_select \<Rightarrow> char_select option" where
  "cs_drop c cs = map_option snd (cs_thread_drop_client c cs)"

definition cs_thread_is_client_valid :: "char_select \<Rightarrow> u64 \<Rightarrow> bool" where
  "cs_thread_is_client_valid cs c \<longleftrightarrow> c \<noteq> 0 \<and> c \<in> set (take (unat (cs_clientCount cs)) (cs_clients cs))"

definition cs_new_packet ::
    "(u8 list option \<Rightarrow> tlg_packet option option) \<Rightarrow> char_select \<Rightarrow> (u64 \<times> char_select) option" where
  "cs_new_packet build cs = map_option (\<lambda>(p, net). (p, cs\<lparr>cs_net := net\<rparr>)) (new_packet build (cs_net cs))"

definition cs_strings :: "char_select \<Rightarrow> sheap" where "cs_strings cs = nt_strings (cs_net cs)"

definition cs_new_string :: "u8 list \<Rightarrow> u32 \<Rightarrow> char_select \<Rightarrow> u64 \<times> char_select" where
  "cs_new_string bytes len cs = (let (s, net) = net_new_string bytes len (cs_net cs) in (s, cs\<lparr>cs_net := net\<rparr>))"

definition cs_drop_string :: "u64 \<Rightarrow> char_select \<Rightarrow> char_select" where
  "cs_drop_string s cs = cs\<lparr>cs_net := net_drop_string s (cs_net cs)\<rparr>"

definition cs_query_db :: "int \<Rightarrow> cs_query \<Rightarrow> char_select \<Rightarrow> (zerr \<times> char_select) option" where
  "cs_query_db zop q cs =
     map_option (\<lambda>(rc, rb). (rc, cs\<lparr>cs_nextQueryId := cs_nextQueryId cs + 1, cs_dbQueue := rb\<rparr>))
       (db_queue_query (cs_dbQueue cs) (cs_dbId cs) (cs_nextQueryId cs) zop q)"

section \<open>Guilds\<close>

definition cs_add_guild :: "guild \<Rightarrow> char_select \<Rightarrow> char_select option" where
  "cs_add_guild guild cs =
     (if gd_guildName guild = 0 then Some cs
      else let index = cs_guildCount cs;
               (array, net) = net_grow \<lparr>gd_guildId = 0, gd_guildName = 0\<rparr> (cs_guildList cs) index (cs_net cs);
               cs = cs\<lparr>cs_net := net\<rparr>
           in case array of
                None \<Rightarrow> Some (cs_drop_string (gd_guildName guild) cs)
              | Some array \<Rightarrow>
                  map_option (\<lambda>array. cs\<lparr>cs_guildList := array, cs_guildCount := index + 1\<rparr>) (arr_set array index guild))"

definition cs_thread_handle_add_guild :: "guild \<Rightarrow> bool \<Rightarrow> char_select \<Rightarrow> char_select option" where
  "cs_thread_handle_add_guild guild isLast cs =
     do {
       cs \<leftarrow> cs_add_guild guild cs;
       if \<not> isLast then Some cs
       else do {
         (packet, cs) \<leftarrow> cs_new_packet
             (cs_guild_list_packet (cs_strings cs) (take (unat (cs_guildCount cs)) (cs_guildList cs))) cs;
         if packet = 0 then Some cs
         else Some (cs\<lparr>cs_net := net_grab (net_drop (cs_net cs) (cs_packetGuildList cs)) packet, cs_packetGuildList := packet\<rparr>)
       }
     }"

section \<open>Results of the database\<close>

definition cs_thread_check_db_error :: "char_select \<Rightarrow> u64 \<Rightarrow> bool \<Rightarrow> bool \<Rightarrow> zerr" where
  "cs_thread_check_db_error cs c hadErrorUnprocessed hadError =
     (if hadErrorUnprocessed then ERR_Invalid
      else if \<not> cs_thread_is_client_valid cs c then ERR_NotFound
      else if hadError then ERR_Generic
      else ERR_None)"

definition cs_thread_trigger_send_char_info :: "u64 \<Rightarrow> u64 \<Rightarrow> char_select \<Rightarrow> (zerr \<times> char_select) option" where
  "cs_thread_trigger_send_char_info c accountId cs =
     cs_query_db ZOP_DB_QueryCSCharacterInfo (QCSCharacterInfo c accountId) cs"

section \<open>Authentication\<close>

definition cs_thread_add_authed_client :: "u64 \<Rightarrow> u64 \<Rightarrow> u8 list \<Rightarrow> char_select \<Rightarrow> (zerr \<times> char_select) option" where
  "cs_thread_add_authed_client c accountId sessionKey cs =
     (let index = cs_clientCount cs;
          fail = (\<lambda>rc cs. map_option (Pair rc) (cs_drop c cs));
          (clients, net) = net_grow 0 (cs_clients cs) index (cs_net cs);
          cs = cs\<lparr>cs_net := net\<rparr>
      in case clients of
           None \<Rightarrow> fail ERR_OutOfMemory cs
         | Some clients \<Rightarrow>
             do {
               clients \<leftarrow> arr_set clients index c;
               let cs = cs\<lparr>cs_clients := clients, cs_clientCount := index + 1\<rparr>;
               (rc, cs) \<leftarrow> csc_schedule_packet c (cs_packetLoginApproved cs) cs;
               if rc \<noteq> ERR_None then fail rc cs
               else do {
                 (rc, cs) \<leftarrow> csc_schedule_packet c (cs_packetEnter cs) cs;
                 if rc \<noteq> ERR_None then fail rc cs
                 else do {
                   (rc, cs) \<leftarrow> csc_schedule_packet c (cs_packetExpansionInfo cs) cs;
                   if rc \<noteq> ERR_None then fail rc cs
                   else do {
                     (rc, cs) \<leftarrow> cs_thread_trigger_send_char_info c accountId cs;
                     if rc \<noteq> ERR_None then fail rc cs
                     else map_option (Pair ERR_None) (cs_upd_client cs c (\<lambda>client. csc_set_auth_data client accountId sessionKey))
                   }
                 }
               }
             })"

definition cs_thread_is_auth_awaiting_client :: "u64 \<Rightarrow> u32 \<Rightarrow> u8 list \<Rightarrow> char_select \<Rightarrow> bool \<times> char_select" where
  "cs_thread_is_auth_awaiting_client accountId ip sessionKey cs =
     (let n = cs_authsAwaitingClientCount cs
      in case first_index (\<lambda>auth. ca_accountId auth = accountId \<and> ca_ip auth = ip \<and> ca_sessionKey auth = take 16 sessionKey)
                (take (unat n) (cs_authsAwaitingClient cs)) of
           None \<Rightarrow> (False, cs)
         | Some i \<Rightarrow>
             let n = n - 1
             in (True, cs\<lparr>cs_authsAwaitingClientCount := n, cs_authsAwaitingClient := swap_pop (cs_authsAwaitingClient cs) i n,
                       cs_authAwaitingClientTimeouts := swap_pop (cs_authAwaitingClientTimeouts cs) i n\<rparr>))"

definition cs_thread_add_client_awaiting_auth :: "u64 \<Rightarrow> char_select \<Rightarrow> (zerr \<times> char_select) option" where
  "cs_thread_add_client_awaiting_auth c cs =
     (let index = cs_clientsAwaitingAuthCount cs;
          (clients, net) = net_grow 0 (cs_clientsAwaitingAuth cs) index (cs_net cs);
          cs = cs\<lparr>cs_net := net\<rparr>
      in case clients of
           None \<Rightarrow> Some (ERR_OutOfMemory, cs)
         | Some clients \<Rightarrow>
             let cs = cs\<lparr>cs_clientsAwaitingAuth := clients\<rparr>;
                 (timeouts, net) = net_grow 0 (cs_clientAwaitingAuthTimeouts cs) index (cs_net cs);
                 cs = cs\<lparr>cs_net := net\<rparr>
             in case timeouts of
                  None \<Rightarrow> Some (ERR_OutOfMemory, cs)
                | Some timeouts \<Rightarrow>
                    do {
                      clients \<leftarrow> arr_set clients index c;
                      timeouts \<leftarrow> arr_set timeouts index (nt_now (cs_net cs) + CHAR_SELECT_THREAD_AUTH_TIMEOUT_MS);
                      Some (ERR_None, cs\<lparr>cs_clientsAwaitingAuthCount := index + 1, cs_clientsAwaitingAuth := clients,
                                         cs_clientAwaitingAuthTimeouts := timeouts\<rparr>)
                    })"

text \<open>\<open>strtol\<close> in base 10: blanks, a sign and digits; the result is saturated.\<close>

definition is_space :: "u8 \<Rightarrow> bool" where "is_space c \<longleftrightarrow> c = 32 \<or> (9 \<le> c \<and> c \<le> 13)"
definition is_digit :: "u8 \<Rightarrow> bool" where "is_digit c \<longleftrightarrow> 48 \<le> c \<and> c \<le> 57"

definition digits_value :: "u8 list \<Rightarrow> int" where
  "digits_value ds = foldl (\<lambda>v d. 10 * v + (uint d - 48)) 0 ds"

definition strtol10 :: "u8 list \<Rightarrow> u64" where
  "strtol10 s =
     (let s = dropWhile is_space s;
          (neg, s) = (case s of c # cs \<Rightarrow> if c = 45 then (True, cs) else if c = 43 then (False, cs) else (False, s) | [] \<Rightarrow> (False, []));
          v = digits_value (takeWhile is_digit s);
          v = (if neg then - v else v)
      in word_of_int (max (- (2 ^ 63)) (min (2 ^ 63 - 1) v)))"

text \<open>The packet is its payload. The first string is an account name whose digits start at its fourth
  character, the next 16 bytes are the session key.\<close>

definition cs_thread_handle_op_login_info :: "u64 \<Rightarrow> u8 list \<Rightarrow> char_select \<Rightarrow> (zerr \<times> char_select) option" where
  "cs_thread_handle_op_login_info c packet cs =
     (let a = aligned_init packet (of_nat (length packet))
      in if aligned_remaining_space a < 2 then Some (ERR_Invalid, cs)
         else let acct = drop (unat (al_cursor a)) (al_buffer a);
                  (len, a) = aligned_advance_past_null_terminator a
              in if len < 4 \<or> aligned_remaining_space a < 16 then Some (ERR_Invalid, cs)
                 else do {
                   let accountId = strtol10 (drop 3 acct);
                   let sessionKey = drop (unat (al_cursor a)) (al_buffer a);
                   client \<leftarrow> cs_client cs c;
                   let ip = csc_get_ip client;
                   let (found, cs) = cs_thread_is_auth_awaiting_client accountId ip sessionKey cs;
                   if found then cs_thread_add_authed_client c accountId sessionKey cs
                   else cs_thread_add_client_awaiting_auth c cs
                 })"

definition cs_add_auth :: "u64 \<Rightarrow> u32 \<Rightarrow> u8 list \<Rightarrow> char_select \<Rightarrow> char_select option" where
  "cs_add_auth accountId ip sessionKey cs =
     (let n = cs_authsAwaitingClientCount cs;
          (auths, net) = net_grow \<lparr>ca_accountId = 0, ca_ip = 0, ca_sessionKey = []\<rparr> (cs_authsAwaitingClient cs) n (cs_net cs);
          cs = cs\<lparr>cs_net := net\<rparr>
      in case auths of
           None \<Rightarrow> Some cs
         | Some auths \<Rightarrow>
             let cs = cs\<lparr>cs_authsAwaitingClient := auths\<rparr>;
                 (timeouts, net) = net_grow 0 (cs_authAwaitingClientTimeouts cs) n (cs_net cs);
                 cs = cs\<lparr>cs_net := net\<rparr>
             in case timeouts of
                  None \<Rightarrow> Some cs
                | Some timeouts \<Rightarrow>
                    do {
                      auths \<leftarrow> arr_set auths n \<lparr>ca_accountId = accountId, ca_ip = ip, ca_sessionKey = take 16 sessionKey\<rparr>;
                      timeouts \<leftarrow> arr_set timeouts n (nt_now (cs_net cs) + CHAR_SELECT_THREAD_AUTH_TIMEOUT_MS);
                      Some (cs\<lparr>cs_authsAwaitingClientCount := n + 1, cs_authsAwaitingClient := auths,
                               cs_authAwaitingClientTimeouts := timeouts\<rparr>)
                    })"

text \<open>The first waiting client that the authentication is for; all clients before it are read.\<close>

fun find_waiting :: "char_select \<Rightarrow> u64 \<Rightarrow> u32 \<Rightarrow> u8 list \<Rightarrow> u64 list \<Rightarrow> nat \<Rightarrow> (nat \<times> u64) option option" where
  "find_waiting cs accountId ip sessionKey [] i = Some None"
| "find_waiting cs accountId ip sessionKey (c # cls) i =
     Option.bind (cs_client cs c) (\<lambda>client.
       if csc_check_auth client accountId ip sessionKey then Some (Some (i, c))
       else find_waiting cs accountId ip sessionKey cls (i + 1))"

definition cs_thread_handle_login_auth :: "u64 \<Rightarrow> u32 \<Rightarrow> u8 list \<Rightarrow> char_select \<Rightarrow> char_select option" where
  "cs_thread_handle_login_auth accountId ip sessionKey cs =
     do {
       let n = cs_clientsAwaitingAuthCount cs;
       found \<leftarrow> find_waiting cs accountId ip sessionKey (take (unat n) (cs_clientsAwaitingAuth cs)) 0;
       case found of
         Some (i, c) \<Rightarrow>
           do {
             (_, cs) \<leftarrow> cs_thread_add_authed_client c accountId sessionKey cs;
             let n = n - 1;
             Some (cs\<lparr>cs_clientsAwaitingAuthCount := n, cs_clientsAwaitingAuth := swap_pop (cs_clientsAwaitingAuth cs) i n,
                      cs_clientAwaitingAuthTimeouts := swap_pop (cs_clientAwaitingAuthTimeouts cs) i n\<rparr>)
           }
       | None \<Rightarrow> cs_add_auth accountId ip sessionKey cs
     }"

section \<open>Timeouts\<close>

function expire_auths :: "u64 \<Rightarrow> nat \<Rightarrow> nat \<Rightarrow> u64 list \<Rightarrow> cs_auth list \<Rightarrow> u64 list \<times> cs_auth list \<times> nat" where
  "expire_auths now i n timeouts auths =
     (if i < n then
        if timeouts ! i < now then expire_auths now i (n - 1) (timeouts[i := timeouts ! (n - 1)]) (auths[i := auths ! (n - 1)])
        else expire_auths now (i + 1) n timeouts auths
      else (timeouts, auths, n))"
  by pat_completeness auto

termination
  by (relation "measure (\<lambda>(now, i, n, timeouts, auths). n - i)") auto

declare expire_auths.simps [simp del]

function expire_clients :: "u64 \<Rightarrow> nat \<Rightarrow> nat \<Rightarrow> char_select \<Rightarrow> char_select option" where
  "expire_clients now i n cs =
     (if i < n then
        if cs_clientAwaitingAuthTimeouts cs ! i < now then
          Option.bind (cs_drop (cs_clientsAwaitingAuth cs ! i) cs) (\<lambda>cs.
            expire_clients now i (n - 1)
              (cs\<lparr>cs_clientsAwaitingAuth := (cs_clientsAwaitingAuth cs)[i := cs_clientsAwaitingAuth cs ! (n - 1)],
                 cs_clientAwaitingAuthTimeouts := (cs_clientAwaitingAuthTimeouts cs)[i := cs_clientAwaitingAuthTimeouts cs ! (n - 1)]\<rparr>))
        else expire_clients now (i + 1) n cs
      else Some (cs\<lparr>cs_clientsAwaitingAuthCount := of_nat n\<rparr>))"
  by pat_completeness auto

termination
  by (relation "measure (\<lambda>(now, i, n, cs). n - i)") auto

declare expire_clients.simps [simp del]

definition cs_thread_check_auth_timeouts :: "char_select \<Rightarrow> char_select option" where
  "cs_thread_check_auth_timeouts cs =
     (let now = nt_now (cs_net cs);
          (timeouts, auths, n) =
            expire_auths now 0 (unat (cs_authsAwaitingClientCount cs)) (cs_authAwaitingClientTimeouts cs) (cs_authsAwaitingClient cs)
      in expire_clients now 0 (unat (cs_clientsAwaitingAuthCount cs))
           (cs\<lparr>cs_authsAwaitingClientCount := of_nat n, cs_authsAwaitingClient := auths, cs_authAwaitingClientTimeouts := timeouts\<rparr>))"

definition cs_thread_remove_client_object :: "u64 \<Rightarrow> char_select \<Rightarrow> char_select" where
  "cs_thread_remove_client_object c cs =
     (if c = 0 then cs
      else let n = cs_clientCount cs;
               cs = (case first_index (\<lambda>d. d = c) (take (unat n) (cs_clients cs)) of
                       Some i \<Rightarrow> cs\<lparr>cs_clientCount := n - 1, cs_clients := swap_pop (cs_clients cs) i (n - 1)\<rparr>
                     | None \<Rightarrow>
                         let n = cs_clientsAwaitingAuthCount cs
                         in case first_index (\<lambda>d. d = c) (take (unat n) (cs_clientsAwaitingAuth cs)) of
                              None \<Rightarrow> cs
                            | Some i \<Rightarrow> cs\<lparr>cs_clientsAwaitingAuthCount := n - 1,
                                cs_clientsAwaitingAuth := swap_pop (cs_clientsAwaitingAuth cs) i (n - 1),
                                cs_clientAwaitingAuthTimeouts := swap_pop (cs_clientAwaitingAuthTimeouts cs) i (n - 1)\<rparr>)
           in cs\<lparr>cs_objects := (cs_objects cs)(c := None)\<rparr>)"

section \<open>Requests of a client\<close>

definition cs_thread_handle_db_character_info ::
    "u64 \<Rightarrow> char_select_data option \<Rightarrow> u32 \<Rightarrow> bool \<Rightarrow> bool \<Rightarrow> char_select \<Rightarrow> char_select option" where
  "cs_thread_handle_db_character_info c data n hadErrorUnprocessed hadError cs =
     (let free_data = (\<lambda>cs. case data of
            None \<Rightarrow> cs
          | Some data \<Rightarrow> fold cs_drop_string (take (unat n) (cd_name data)) cs);
          drop_client = (\<lambda>cs. map_option free_data (cs_drop c cs));
          rc = cs_thread_check_db_error cs c hadErrorUnprocessed hadError
      in if rc = ERR_Invalid then Some cs
         else if rc = ERR_NotFound then Some (free_data cs)
         else if rc = ERR_Generic then drop_client cs
         else do {
           client \<leftarrow> cs_client cs c;
           if \<not> csc_is_authed client then drop_client cs
           else do {
             data \<leftarrow> data;
             (packet, cs) \<leftarrow> cs_new_packet (cs_thread_write_char_info_packet (cs_strings cs) data n) cs;
             if packet = 0 then drop_client cs
             else do {
               (rc, cs) \<leftarrow> csc_schedule_packet c packet cs;
               if rc \<noteq> ERR_None then drop_client cs else Some (free_data cs)
             }
           }
         })"

definition cs_thread_handle_op_guild_list :: "u64 \<Rightarrow> char_select \<Rightarrow> (zerr \<times> char_select) option" where
  "cs_thread_handle_op_guild_list c cs =
     do {
       client \<leftarrow> cs_client cs c;
       if \<not> csc_is_authed client then Some (ERR_Invalid, cs) else csc_schedule_packet c (cs_packetGuildList cs) cs
     }"

text \<open>A query that takes over a name, which is dropped if the query is not queued.\<close>

definition cs_query_with_name :: "int \<Rightarrow> (u64 \<Rightarrow> cs_query) \<Rightarrow> u64 \<Rightarrow> char_select \<Rightarrow> (zerr \<times> char_select) option" where
  "cs_query_with_name zop q name cs =
     map_option (\<lambda>(rc, cs). (rc, if rc \<noteq> ERR_None then cs_drop_string name cs else cs)) (cs_query_db zop (q name) cs)"

definition cs_thread_handle_op_name_approval :: "u64 \<Rightarrow> u8 list \<Rightarrow> char_select \<Rightarrow> (zerr \<times> char_select) option" where
  "cs_thread_handle_op_name_approval c packet cs =
     do {
       let a = aligned_init packet (of_nat (length packet));
       client \<leftarrow> cs_client cs c;
       if \<not> csc_is_authed client \<or> unat (aligned_remaining_space a) < struct_size PSCS_NameApproval then Some (ERR_Invalid, cs)
       else do {
         let name = drop (unat (al_cursor a)) (al_buffer a);
         let len = str_len_bounded name (int (sizeof_field PSCS_NameApproval ''name''));
         if len = 0 then Some (ERR_Invalid, cs)
         else do {
           let (s, cs) = cs_new_string name (word_of_int len) cs;
           cs_query_with_name ZOP_DB_QueryCSCharacterNameAvailable (QCSCharacterNameAvailable c) s cs
         }
       }
     }"

definition cs_thread_send_name_approval :: "u64 \<Rightarrow> bool \<Rightarrow> char_select \<Rightarrow> (zerr \<times> char_select) option" where
  "cs_thread_send_name_approval c isAvailable cs =
     do {
       (packet, cs) \<leftarrow> cs_new_packet (\<lambda>block. packet_write block OP_CS_NameApproval 1 [W8 (if isAvailable then 1 else 0)]) cs;
       if packet = 0 then Some (ERR_OutOfMemory, cs) else csc_schedule_packet c packet cs
     }"

definition cs_thread_handle_db_name_approval :: "u64 \<Rightarrow> bool \<Rightarrow> bool \<Rightarrow> bool \<Rightarrow> char_select \<Rightarrow> char_select option" where
  "cs_thread_handle_db_name_approval c isAvailable hadErrorUnprocessed hadError cs =
     (let rc = cs_thread_check_db_error cs c hadErrorUnprocessed hadError
      in if rc = ERR_Invalid \<or> rc = ERR_NotFound then Some cs
         else if rc = ERR_Generic then cs_drop c cs
         else do {
           client \<leftarrow> cs_client cs c;
           if \<not> csc_is_authed client then cs_drop c cs
           else do {
             (rc, cs) \<leftarrow> cs_thread_send_name_approval c isAvailable cs;
             if rc \<noteq> ERR_None then cs_drop c cs
             else cs_upd_client cs c (\<lambda>client. csc_set_name_approved client isAvailable)
           }
         })"

text \<open>The fields of the player profile that the client sends, read one after another. A zone is named by
  at most \<open>n\<close> characters.\<close>

definition skip_fields :: "string list \<Rightarrow> aligned \<Rightarrow> aligned option" where
  "skip_fields fs a = map_option snd (aligned_advance_by a (of_nat (\<Sum>f\<leftarrow>fs. sizeof_field PP_FIELDS f)))"

definition read_zone :: "char_select \<Rightarrow> nat \<Rightarrow> aligned \<Rightarrow> (u32 \<times> aligned) option" where
  "read_zone cs n a =
     do {
       let shortName = drop (unat (al_cursor a)) (al_buffer a);
       zoneId \<leftarrow> zone_id_by_short_name (cs_strings cs) (cs_zoneIds cs) shortName (word_of_int (str_len_bounded shortName (int n)));
       (_, a) \<leftarrow> aligned_advance_by a (of_nat n);
       Some (word_of_int zoneId, a)
     }"

fun read_times :: "nat \<Rightarrow> (aligned \<Rightarrow> ('a \<times> aligned) option) \<Rightarrow> aligned \<Rightarrow> ('a list \<times> aligned) option" where
  "read_times 0 f a = Some ([], a)"
| "read_times (Suc n) f a =
     Option.bind (f a) (\<lambda>(x, a). map_option (\<lambda>(xs, a). (x # xs, a)) (read_times n f a))"

definition read_create_data :: "char_select \<Rightarrow> aligned \<Rightarrow> (char_create_data \<times> aligned) option" where
  "read_create_data cs a =
     do {
       (name, a) \<leftarrow> aligned_read_buffer a 30;
       a \<leftarrow> skip_fields [''surname''] a;
       (genderId, a) \<leftarrow> aligned_read_uint16 a;
       (raceId, a) \<leftarrow> aligned_read_uint16 a;
       (classId, a) \<leftarrow> aligned_read_uint16 a;
       a \<leftarrow> skip_fields [''level'', ''experience'', ''trainingPoints'', ''currentMana''] a;
       (faceId, a) \<leftarrow> aligned_read_uint8 a;
       a \<leftarrow> skip_fields [''unknownA''] a;
       (currentHp, a) \<leftarrow> aligned_read_uint16 a;
       a \<leftarrow> skip_fields [''unknownB''] a;
       (stats, a) \<leftarrow> read_times 7 aligned_read_uint8 a;
       a \<leftarrow> skip_fields [''languages'', ''unknownC'', ''mainInventoryItemIds'', ''mainInventoryInternalUnused'',
              ''mainInventoryItemProperties'', ''buffs'', ''baggedItemIds'', ''baggedItemProperties'', ''spellbook'',
              ''memmedSpellIds'', ''unknownD''] a;
       (y, a) \<leftarrow> aligned_read_float a;
       (x, a) \<leftarrow> aligned_read_float a;
       (z, a) \<leftarrow> aligned_read_float a;
       (heading, a) \<leftarrow> aligned_read_float a;
       (zoneId, a) \<leftarrow> read_zone cs 32 a;
       a \<leftarrow> skip_fields [''unknownEDefault100'', ''coins'', ''coinsBank'', ''coinsCursor'', ''skills'', ''unknownF'', ''autoSplit'',
              ''pvpEnabled'', ''unknownG'', ''isGM'', ''unknownH'', ''disciplinesReady'', ''unknownI'', ''hunger'', ''thirst'',
              ''unknownJ''] a;
       (zones, a) \<leftarrow> read_times 5 (read_zone cs 20) a;
       a \<leftarrow> skip_fields [''bankInventoryItemProperties'', ''bankBaggedItemProperties'', ''unknownK'', ''unknownL''] a;
       (ys, a) \<leftarrow> read_times 5 aligned_read_float a;
       (xs, a) \<leftarrow> read_times 5 aligned_read_float a;
       (zs, a) \<leftarrow> read_times 5 aligned_read_float a;
       a \<leftarrow> skip_fields [''bindLocHeading'', ''bankInventoryInternalUnused'', ''unknownM'', ''unixTimeA'', ''unknownN'',
              ''unknownODefault1'', ''unknownP'', ''bankInventoryItemIds'', ''bankBaggedItemIds''] a;
       (deityId, a) \<leftarrow> aligned_read_uint16 a;
       Some (\<lparr>ce_name = name, ce_genderId = ucast genderId, ce_classId = ucast classId, ce_faceId = faceId,
              ce_currentHp = ucast currentHp, ce_raceId = raceId, ce_stats = stats, ce_zoneId = zoneId, ce_deityId = deityId,
              ce_x = x, ce_y = y, ce_z = z, ce_heading = heading,
              ce_bindPoint = map (\<lambda>i. \<lparr>cb_zoneId = zones ! i, cb_x = xs ! i, cb_y = ys ! i, cb_z = zs ! i\<rparr>) [0..<5]\<rparr>, a)
     }"

definition cs_thread_handle_op_create_character :: "u64 \<Rightarrow> u8 list \<Rightarrow> char_select \<Rightarrow> (zerr \<times> char_select) option" where
  "cs_thread_handle_op_create_character c packet cs =
     do {
       let a = aligned_init packet (of_nat (length packet));
       client \<leftarrow> cs_client cs c;
       if \<not> csc_is_authed client \<or> \<not> csc_is_name_approved client \<or> unat (aligned_remaining_space a) < struct_size PP_FIELDS
       then Some (ERR_Invalid, cs)
       else do {
         (data, a) \<leftarrow> read_create_data cs a;
         if cs_thread_create_character_is_valid data
         then let (r, net) = net_alloc (cs_net cs); cs = cs\<lparr>cs_net := net\<rparr>
              in if r = None then Some (ERR_OutOfMemory, cs)
                 else cs_query_db ZOP_DB_QueryCSCharacterCreate (QCSCharacterCreate c (csc_get_account_id client) data) cs
         else Some (ERR_Invalid, cs)
       }
     }"

definition cs_thread_handle_db_character_create :: "u64 \<Rightarrow> bool \<Rightarrow> bool \<Rightarrow> char_select \<Rightarrow> char_select option" where
  "cs_thread_handle_db_character_create c hadErrorUnprocessed hadError cs =
     (if hadErrorUnprocessed then Some cs
      else if \<not> cs_thread_is_client_valid cs c then Some cs
      else do {
        cs \<leftarrow> cs_upd_client cs c (\<lambda>client. csc_set_name_approved client False);
        client \<leftarrow> cs_client cs c;
        (rc, cs) \<leftarrow> (if hadError then cs_thread_send_name_approval c False cs
                    else cs_thread_trigger_send_char_info c (csc_get_account_id client) cs);
        if rc \<noteq> ERR_None then cs_drop c cs else Some cs
      })"

text \<open>The name in the payload of a request, \<open>None\<close> if the request is not valid.\<close>

definition request_name :: "csc \<Rightarrow> u8 list \<Rightarrow> (u8 list \<times> u32) option" where
  "request_name client packet =
     (let a = aligned_init packet (of_nat (length packet)); len = aligned_remaining_space a
      in if \<not> csc_is_authed client \<or> len < 2 then None
         else let name = drop (unat (al_cursor a)) (al_buffer a); len = word_of_int (str_len_bounded name (sint len))
              in if len = 0 then None else Some (name, len))"

definition cs_thread_handle_op_delete_character :: "u64 \<Rightarrow> u8 list \<Rightarrow> char_select \<Rightarrow> (zerr \<times> char_select) option" where
  "cs_thread_handle_op_delete_character c packet cs =
     do {
       client \<leftarrow> cs_client cs c;
       case request_name client packet of
         None \<Rightarrow> Some (ERR_Invalid, cs)
       | Some (name, len) \<Rightarrow>
           let (s, cs) = cs_new_string name len cs
           in if s = 0 then Some (ERR_OutOfMemory, cs)
              else cs_query_with_name ZOP_DB_QueryCSCharacterDelete (QCSCharacterDelete c (csc_get_account_id client)) s cs
     }"

definition cs_thread_handle_db_character_delete :: "u64 \<Rightarrow> bool \<Rightarrow> bool \<Rightarrow> char_select \<Rightarrow> char_select option" where
  "cs_thread_handle_db_character_delete c hadErrorUnprocessed hadError cs =
     (let rc = cs_thread_check_db_error cs c hadErrorUnprocessed hadError
      in if rc = ERR_Invalid \<or> rc = ERR_NotFound then Some cs
         else if rc = ERR_Generic then cs_drop c cs
         else do {
           client \<leftarrow> cs_client cs c;
           (rc, cs) \<leftarrow> cs_thread_trigger_send_char_info c (csc_get_account_id client) cs;
           if rc \<noteq> ERR_None then cs_drop c cs else Some cs
         })"

definition cs_thread_handle_op_enter :: "u64 \<Rightarrow> u8 list \<Rightarrow> char_select \<Rightarrow> (zerr \<times> char_select) option" where
  "cs_thread_handle_op_enter c packet cs =
     do {
       client \<leftarrow> cs_client cs c;
       if csc_is_zoning client then Some (ERR_Again, cs)
       else case request_name client packet of
         None \<Rightarrow> Some (ERR_Invalid, cs)
       | Some (name, len) \<Rightarrow>
           let (s, cs) = cs_new_string name len cs
           in if s = 0 then Some (ERR_OutOfMemory, cs)
              else do {
                (rc, rb) \<leftarrow> ringbuf_push (cs_mainQueue cs) ZOP_MAIN_ZoneFromCharSelect
                  (Some \<lparr>zr_client = c, zr_name = s, zr_accountId = csc_get_account_id client,
                         zr_ipAddr = csc_get_ip_addr client, zr_isLocal = csc_is_local client\<rparr>);
                let cs = cs\<lparr>cs_mainQueue := rb\<rparr>;
                if rc = ERR_None then map_option (Pair rc) (cs_upd_client cs c (\<lambda>client. csc_set_is_zoning client True))
                else Some (rc, cs_drop_string s cs)
              }
     }"

definition cs_thread_handle_op_echo :: "u64 \<Rightarrow> u16 \<Rightarrow> char_select \<Rightarrow> (zerr \<times> char_select) option" where
  "cs_thread_handle_op_echo c opcode cs =
     csc_schedule_packet c
       (if opcode = OP_CS_Echo1 then cs_packetEcho1 cs
        else if opcode = OP_CS_Echo2 then cs_packetEcho2 cs
        else if opcode = OP_CS_Echo3 then cs_packetEcho3 cs
        else if opcode = OP_CS_Echo4 then cs_packetEcho4 cs
        else if opcode = OP_CS_Echo5 then cs_packetEcho5 cs
        else 0) cs"

definition cs_handle_opcode :: "u64 \<Rightarrow> u16 \<Rightarrow> u8 list \<Rightarrow> char_select \<Rightarrow> (zerr \<times> char_select) option" where
  "cs_handle_opcode c opcode packet cs =
     (if opcode = OP_CS_LoginInfo then cs_thread_handle_op_login_info c packet cs
      else if opcode = OP_CS_GuildList then cs_thread_handle_op_guild_list c cs
      else if opcode = OP_CS_NameApproval then cs_thread_handle_op_name_approval c packet cs
      else if opcode = OP_CS_CreateCharacter then cs_thread_handle_op_create_character c packet cs
      else if opcode = OP_CS_DeleteCharacter then cs_thread_handle_op_delete_character c packet cs
      else if opcode = OP_CS_Enter then cs_thread_handle_op_enter c packet cs
      else if opcode \<in> {OP_CS_Echo1, OP_CS_Echo2, OP_CS_Echo3, OP_CS_Echo4, OP_CS_Echo5} then cs_thread_handle_op_echo c opcode cs
      else Some (ERR_None, cs))"

definition cs_thread_handle_packet :: "u64 \<Rightarrow> u16 \<Rightarrow> u8 list \<Rightarrow> char_select \<Rightarrow> char_select option" where
  "cs_thread_handle_packet c opcode packet cs =
     Option.bind (cs_handle_opcode c opcode packet cs) (\<lambda>(rc, cs). if rc \<noteq> ERR_None then cs_drop c cs else Some cs)"

section \<open>The answer of the main thread to a request to enter a zone\<close>

text \<open>\<open>unixTime\<close> is the clock.\<close>

definition cs_zone_success_packets ::
    "u64 \<Rightarrow> u32 \<Rightarrow> u16 \<Rightarrow> u64 \<Rightarrow> u64 \<Rightarrow> norrath_time \<Rightarrow> u64 \<Rightarrow> char_select \<Rightarrow> char_select option" where
  "cs_zone_success_packets c zoneId port ipAddress motd nTime unixTime cs =
     do {
       let n = unat (sbuf_length (cs_strings cs) motd + 1);
       (packet, cs) \<leftarrow> cs_new_packet (\<lambda>block. packet_write block OP_CS_MessageOfTheDay (of_nat n)
           [WText n (sbuf_str (cs_strings cs) motd)]) cs;
       if packet = 0 then cs_drop c cs
       else do {
         (rc, cs) \<leftarrow> csc_schedule_packet c packet cs;
         if rc \<noteq> ERR_None then cs_drop c cs
         else do {
           let nTime = clock_calc_norrath_time_at nTime unixTime;
           (packet, cs) \<leftarrow> cs_new_packet (\<lambda>block. packet_write_struct block OP_CS_TimeOfDay PSCS_TimeOfDay (time_of_day_fields nTime)) cs;
           if packet = 0 then cs_drop c cs
           else do {
             (rc, cs) \<leftarrow> csc_schedule_packet c packet cs;
             if rc \<noteq> ERR_None then cs_drop c cs
             else do {
               (packet, cs) \<leftarrow> cs_new_packet (\<lambda>block. packet_write_struct block OP_CS_ZoneAddress PSCS_ZoneAddress
                   (zone_address_fields (sbuf_str (cs_strings cs) ipAddress) zoneId port)) cs;
               if packet = 0 then cs_drop c cs
               else do {
                 (rc, cs) \<leftarrow> csc_schedule_packet c packet cs;
                 if rc \<noteq> ERR_None then cs_drop c cs else Some cs
               }
             }
           }
         }
       }
     }"

definition cs_thread_handle_zone_success ::
    "u64 \<Rightarrow> u32 \<Rightarrow> u16 \<Rightarrow> u64 \<Rightarrow> u64 \<Rightarrow> norrath_time \<Rightarrow> u64 \<Rightarrow> char_select \<Rightarrow> char_select option" where
  "cs_thread_handle_zone_success c zoneId port ipAddress motd nTime unixTime cs =
     (if \<not> cs_thread_is_client_valid cs c then Some cs
      else map_option (\<lambda>cs. cs_drop_string motd (cs_drop_string ipAddress cs))
             (cs_zone_success_packets c zoneId port ipAddress motd nTime unixTime cs))"

definition cs_thread_handle_zone_failure :: "u64 \<Rightarrow> char_select \<Rightarrow> char_select option" where
  "cs_thread_handle_zone_failure c cs =
     (if \<not> cs_thread_is_client_valid cs c then Some cs
      else do {
        (rc, cs) \<leftarrow> csc_schedule_packet c (cs_packetZoneUnavailable cs) cs;
        if rc \<noteq> ERR_None then cs_drop c cs else Some cs
      })"

section \<open>The thread\<close>

text \<open>The messages in the queue of the thread. The data of packets and results are theirs.\<close>

datatype cs_message =
    CsToServerPacket u64 u16 "u8 list"
  | CsNewClient u64 "u32 \<times> u16" "u8 list"
  | CsClientLinkdead u64
  | CsClientDisconnect u64
  | CsTerminateThread
  | CsAddGuild guild bool
  | CsLoginAuth u64 u32 "u8 list"
  | CsCheckAuthTimeouts
  | CsZoneSuccess u64 u32 u16 u64 u64 norrath_time u64
  | CsZoneFailure u64
  | DbCharacterInfo u64 "char_select_data option" u32 bool bool
  | DbCharacterNameAvailable u64 bool bool bool
  | DbCharacterCreate u64 bool bool
  | DbCharacterDelete u64 bool bool
  | CsUnexpected int

fun cs_handle_message :: "cs_message \<Rightarrow> char_select \<Rightarrow> char_select option" where
  "cs_handle_message (CsToServerPacket c opcode packet) cs = cs_thread_handle_packet c opcode packet cs"
| "cs_handle_message (CsNewClient c ipAddr memory) cs = Some (cs\<lparr>cs_objects := (cs_objects cs)(c \<mapsto> csc_init memory ipAddr)\<rparr>)"
| "cs_handle_message (CsClientLinkdead c) cs = Some cs"
| "cs_handle_message (CsClientDisconnect c) cs = Some (cs_thread_remove_client_object c cs)"
| "cs_handle_message (CsAddGuild guild isLast) cs = cs_thread_handle_add_guild guild isLast cs"
| "cs_handle_message (CsLoginAuth accountId ip sessionKey) cs = cs_thread_handle_login_auth accountId ip sessionKey cs"
| "cs_handle_message CsCheckAuthTimeouts cs = cs_thread_check_auth_timeouts cs"
| "cs_handle_message (CsZoneSuccess c zoneId port ipAddress motd nTime unixTime) cs =
     cs_thread_handle_zone_success c zoneId port ipAddress motd nTime unixTime cs"
| "cs_handle_message (CsZoneFailure c) cs = cs_thread_handle_zone_failure c cs"
| "cs_handle_message (DbCharacterInfo c data n unprocessed err) cs = cs_thread_handle_db_character_info c data n unprocessed err cs"
| "cs_handle_message (DbCharacterNameAvailable c isAvailable unprocessed err) cs =
     cs_thread_handle_db_name_approval c isAvailable unprocessed err cs"
| "cs_handle_message (DbCharacterCreate c unprocessed err) cs = cs_thread_handle_db_character_create c unprocessed err cs"
| "cs_handle_message (DbCharacterDelete c unprocessed err) cs = cs_thread_handle_db_character_delete c unprocessed err cs"
| "cs_handle_message CsTerminateThread cs = Some cs"
| "cs_handle_message (CsUnexpected zop) cs = Some cs"

definition cs_thread_on_terminate :: "char_select \<Rightarrow> char_select option" where
  "cs_thread_on_terminate cs =
     map_option (\<lambda>(rc, rb). cs\<lparr>cs_mainQueue := rb\<rparr>) (ringbuf_push (cs_mainQueue cs) ZOP_CS_TerminateThread None)"

text \<open>The loop on the messages as they arrive; it ends with the message that terminates the thread.\<close>

fun cs_thread_proc :: "cs_message list \<Rightarrow> char_select \<Rightarrow> char_select option" where
  "cs_thread_proc [] cs = Some cs"
| "cs_thread_proc (m # ms) cs =
     (if m = CsTerminateThread then cs_thread_on_terminate cs
      else Option.bind (cs_handle_message m cs) (cs_thread_proc ms))"

section \<open>Creation and destruction\<close>

definition cs_cached :: "u16 \<Rightarrow> u32 \<Rightarrow> wop list \<Rightarrow> char_select \<Rightarrow> (u64 \<times> char_select) option" where
  "cs_cached opcode n ws cs =
     map_option (\<lambda>(p, cs). (p, if p = 0 then cs else cs\<lparr>cs_net := net_grab (cs_net cs) p\<rparr>))
       (cs_new_packet (\<lambda>block. packet_write block opcode n ws) cs)"

definition cs_create_cached_packets :: "char_select \<Rightarrow> (zerr \<times> char_select) option" where
  "cs_create_cached_packets cs =
     do {
       (p, cs) \<leftarrow> cs_cached OP_CS_LoginApproved 1 [W8 0] cs;
       let cs = cs\<lparr>cs_packetLoginApproved := p\<rparr>;
       if p = 0 then Some (ERR_OutOfMemory, cs) else do {
       (p, cs) \<leftarrow> cs_cached OP_CS_Enter 1 [W8 0] cs;
       let cs = cs\<lparr>cs_packetEnter := p\<rparr>;
       if p = 0 then Some (ERR_OutOfMemory, cs) else do {
       (p, cs) \<leftarrow> cs_cached OP_CS_ExpansionInfo 4 [W32 (1 OR 2)] cs;
       let cs = cs\<lparr>cs_packetExpansionInfo := p\<rparr>;
       if p = 0 then Some (ERR_OutOfMemory, cs) else do {
       (p, cs) \<leftarrow> cs_cached OP_CS_ZoneUnavailable (of_nat (struct_size PSCS_ZoneUnavailable))
           [WText CHAR_SELECT_MAX_ZONE_SHORTNAME_LENGTH (bytes_of ''qeynos'')] cs;
       let cs = cs\<lparr>cs_packetZoneUnavailable := p\<rparr>;
       if p = 0 then Some (ERR_OutOfMemory, cs) else do {
       (p, cs) \<leftarrow> cs_cached OP_CS_Echo1 0 [] cs;
       let cs = cs\<lparr>cs_packetEcho1 := p\<rparr>;
       if p = 0 then Some (ERR_OutOfMemory, cs) else do {
       (p, cs) \<leftarrow> cs_cached OP_CS_Echo2 0 [] cs;
       let cs = cs\<lparr>cs_packetEcho2 := p\<rparr>;
       if p = 0 then Some (ERR_OutOfMemory, cs) else do {
       (p, cs) \<leftarrow> cs_cached OP_CS_Echo3 0 [] cs;
       let cs = cs\<lparr>cs_packetEcho3 := p\<rparr>;
       if p = 0 then Some (ERR_OutOfMemory, cs) else do {
       (p, cs) \<leftarrow> cs_cached OP_CS_Echo4 0 [] cs;
       let cs = cs\<lparr>cs_packetEcho4 := p\<rparr>;
       if p = 0 then Some (ERR_OutOfMemory, cs) else do {
       (p, cs) \<leftarrow> cs_cached OP_CS_Echo5 0 [] cs;
       let cs = cs\<lparr>cs_packetEcho5 := p\<rparr>;
       if p = 0 then Some (ERR_OutOfMemory, cs) else Some (ERR_None, cs) }}}}}}}}
     }"

text \<open>The struct as \<open>cs_create\<close> clears it and sets what does not come from other calls.\<close>

definition cs_new :: "u32 \<Rightarrow> net \<Rightarrow> zone_request ringbuf \<Rightarrow> cs_query db_query ringbuf \<Rightarrow> int hashtbl \<Rightarrow> char_select" where
  "cs_new dbId net mainQueue dbQueue zoneIds =
     \<lparr>cs_clientCount = 0, cs_authsAwaitingClientCount = 0, cs_clientsAwaitingAuthCount = 0, cs_guildCount = 0,
      cs_nextQueryId = 1, cs_dbId = dbId, cs_clients = [], cs_authsAwaitingClient = [], cs_clientsAwaitingAuth = [],
      cs_authAwaitingClientTimeouts = [], cs_clientAwaitingAuthTimeouts = [], cs_guildList = [], cs_packetLoginApproved = 0,
      cs_packetEnter = 0, cs_packetExpansionInfo = 0, cs_packetGuildList = 0, cs_packetZoneUnavailable = 0, cs_packetEcho1 = 0,
      cs_packetEcho2 = 0, cs_packetEcho3 = 0, cs_packetEcho4 = 0, cs_packetEcho5 = 0, cs_net = net, cs_objects = (\<lambda>_. None),
      cs_mainQueue = mainQueue, cs_dbQueue = dbQueue, cs_zoneIds = zoneIds\<rparr>"

definition cs_destroy :: "char_select \<Rightarrow> net" where
  "cs_destroy cs =
     fold (\<lambda>p net. net_drop net p)
       [cs_packetLoginApproved cs, cs_packetEnter cs, cs_packetExpansionInfo cs, cs_packetGuildList cs, cs_packetZoneUnavailable cs,
        cs_packetEcho1 cs, cs_packetEcho2 cs, cs_packetEcho3 cs, cs_packetEcho4 cs, cs_packetEcho5 cs] (cs_net cs)"

text \<open>\<open>IpAddr\<close> is an address and a port padded to eight bytes, the number of the account is aligned to eight.\<close>

definition csc_sizeof :: u32 where "csc_sizeof = 40"

definition CHAR_SELECT_THREAD_UDP_PORT :: u16 where "CHAR_SELECT_THREAD_UDP_PORT = 9000"

text \<open>The creation, with what opening the log and starting the thread answer, and whether the two allocations
  succeed. \<open>queue\<close> names the queue of the thread; the first message in it makes the empty guild list. A
  failure leaves what \<open>cs_destroy\<close> leaves.\<close>

definition cs_create ::
    "bool \<Rightarrow> zerr \<Rightarrow> bool \<Rightarrow> zerr \<Rightarrow> nat \<Rightarrow> u32 \<Rightarrow> net \<Rightarrow> zone_request ringbuf \<Rightarrow> cs_query db_query ringbuf \<Rightarrow> int hashtbl \<Rightarrow>
      (net + char_select \<times> cs_message list) option" where
  "cs_create alloc logged queueAlloc started queue dbId net mainQueue dbQueue zoneIds =
     (if \<not> alloc then Some (Inl net)
      else let cs = cs_new dbId net mainQueue dbQueue zoneIds; fail = (\<lambda>cs. Some (Inl (cs_destroy cs)))
           in if logged \<noteq> ERR_None \<or> \<not> queueAlloc then fail cs
              else do {
                (rc, cs) \<leftarrow> cs_create_cached_packets cs;
                if rc \<noteq> ERR_None then fail cs
                else do {
                  (rc, udp) \<leftarrow> udp_open_port (nt_junk (cs_net cs)) (nt_udp (cs_net cs)) CHAR_SELECT_THREAD_UDP_PORT csc_sizeof queue;
                  let cs = cs\<lparr>cs_net := (cs_net cs)\<lparr>nt_udp := udp\<rparr>\<rparr>;
                  if rc \<noteq> ERR_None \<or> started \<noteq> ERR_None then fail cs
                  else Some (Inr (cs, [CsAddGuild \<lparr>gd_guildId = 0, gd_guildName = 0\<rparr> True]))
                }
              })"

end
