(* ===== verification/Zeq_CharSelectProps.thy ===== *)
theory Zeq_CharSelectProps
  imports Zeq_CharSelect Zeq_SwapPop
begin

text \<open>
  Who the thread of the character selection lets in: the invariant of its credentials, over all messages.
\<close>

section \<open>Who is let in\<close>

text \<open>The credentials a client was let in with, and those that still wait for their client.\<close>

definition credentials :: "csc \<Rightarrow> cs_auth" where
  "credentials client =
     \<lparr>ca_accountId = cc_accountId client, ca_ip = fst (cc_ipAddress client), ca_sessionKey = cc_sessionKey client\<rparr>"

definition credential_of :: "csc \<Rightarrow> cs_auth option" where
  "credential_of client = (if cc_authed client then Some (credentials client) else None)"

definition admitted :: "char_select \<Rightarrow> u64 \<Rightarrow> cs_auth option" where
  "admitted cs c = Option.bind (cs_objects cs c) credential_of"

definition pending :: "char_select \<Rightarrow> cs_auth multiset" where
  "pending cs = mset (take (unat (cs_authsAwaitingClientCount cs)) (cs_authsAwaitingClient cs))"

text \<open>The authentications that the login server has granted.\<close>

fun granted :: "cs_message \<Rightarrow> cs_auth multiset" where
  "granted (CsLoginAuth accountId ip sessionKey) =
     {#\<lparr>ca_accountId = accountId, ca_ip = ip, ca_sessionKey = take 16 sessionKey\<rparr>#}"
| "granted _ = {#}"

definition grants :: "cs_message list \<Rightarrow> cs_auth multiset" where
  "grants ms = sum_list (map granted ms)"

text \<open>Every authentication admits one client at most, counting those that still wait.\<close>

definition admits_once :: "cs_auth multiset \<Rightarrow> (u64 \<Rightarrow> cs_auth option) \<Rightarrow> cs_auth multiset \<Rightarrow> bool" where
  "admits_once G A P \<longleftrightarrow> (\<forall>a. finite {c. A c = Some a} \<and> card {c. A c = Some a} + count P a \<le> count G a)"

lemma admits_once_less:
  assumes "admits_once G A P" "\<And>c a. A' c = Some a \<Longrightarrow> A c = Some a" "P' \<subseteq># P" "G \<subseteq># G'"
  shows "admits_once G' A' P'"
  unfolding admits_once_def
proof
  fix a
  let ?S = "{c. A c = Some a}"
  have S: "finite ?S" "card ?S + count P a \<le> count G a" using assms(1) by (auto simp: admits_once_def)
  have sub: "{c. A' c = Some a} \<subseteq> ?S" using assms(2) by auto
  have "card {c. A' c = Some a} \<le> card ?S" "count P' a \<le> count P a" "count G a \<le> count G' a"
    using card_mono [OF S(1) sub] assms(3,4) by (simp_all add: mset_subset_eq_count)
  then show "finite {c. A' c = Some a} \<and> card {c. A' c = Some a} + count P' a \<le> count G' a"
    using S finite_subset [OF sub] by linarith
qed

lemma admits_once_admit:
  assumes "admits_once G A (add_mset a P)"
  shows "admits_once G (A(c \<mapsto> a)) P"
  unfolding admits_once_def
proof
  fix b
  have S: "finite {d. A d = Some b}" "card {d. A d = Some b} + count (add_mset a P) b \<le> count G b"
    using assms by (auto simp: admits_once_def)
  let ?S = "{d. A d = Some b}" and ?T = "{d. (A(c \<mapsto> a)) d = Some b}"
  have sub: "?T \<subseteq> (if a = b then insert c ?S else ?S)" by (auto split: if_splits)
  have "card ?T \<le> card (if a = b then insert c ?S else ?S)" using S(1) by (intro card_mono sub) simp
  also have "\<dots> \<le> (if a = b then Suc (card ?S) else card ?S)" using S(1) by (simp add: card_insert_if)
  finally have "card ?T + count P b \<le> count G b" using S(2) by (simp del: fun_upd_apply split: if_splits)
  moreover have "finite ?T" by (rule finite_subset [OF sub]) (use S(1) in simp)
  ultimately show "finite ?T \<and> card ?T + count P b \<le> count G b" by blast
qed

text \<open>The invariant, with the room that the array has.\<close>

definition auth_inv :: "cs_message list \<Rightarrow> char_select \<Rightarrow> bool" where
  "auth_inv ms cs \<longleftrightarrow> admits_once (grants ms) (admitted cs) (pending cs)
     \<and> unat (cs_authsAwaitingClientCount cs) \<le> length (cs_authsAwaitingClient cs)
     \<and> unat (cs_authsAwaitingClientCount cs) \<le> length ms"

section \<open>What the handlers leave alone\<close>

definition same_clients :: "char_select \<Rightarrow> char_select \<Rightarrow> bool" where
  "same_clients cs cs' \<longleftrightarrow> cs_objects cs' = cs_objects cs \<and> cs_authsAwaitingClient cs' = cs_authsAwaitingClient cs
     \<and> cs_authsAwaitingClientCount cs' = cs_authsAwaitingClientCount cs"

definition same_auths :: "char_select \<Rightarrow> char_select \<Rightarrow> bool" where
  "same_auths cs cs' \<longleftrightarrow> admitted cs' = admitted cs \<and> cs_authsAwaitingClient cs' = cs_authsAwaitingClient cs
     \<and> cs_authsAwaitingClientCount cs' = cs_authsAwaitingClientCount cs"

named_theorems frame

lemma same_clients_refl [simp]: "same_clients cs cs" by (simp add: same_clients_def)
lemma same_clients_trans: "same_clients a b \<Longrightarrow> same_clients b c \<Longrightarrow> same_clients a c" by (simp add: same_clients_def)
lemma same_auths_refl [simp]: "same_auths cs cs" by (simp add: same_auths_def)
lemma same_auths_trans: "same_auths a b \<Longrightarrow> same_auths b c \<Longrightarrow> same_auths a c" by (simp add: same_auths_def)

lemma same_clients_auths: "same_clients cs cs' \<Longrightarrow> same_auths cs cs'"
  by (auto simp: same_clients_def same_auths_def admitted_def fun_eq_iff)

text \<open>The same for what a handler returns, and the rules to walk through it.\<close>

definition keeps :: "char_select \<Rightarrow> char_select option \<Rightarrow> bool" where
  "keeps a r \<longleftrightarrow> (\<forall>cs. r = Some cs \<longrightarrow> same_auths a cs)"

definition keeps_with :: "char_select \<Rightarrow> ('x \<times> char_select) option \<Rightarrow> bool" where
  "keeps_with a r \<longleftrightarrow> (\<forall>x cs. r = Some (x, cs) \<longrightarrow> same_auths a cs)"

lemma keeps_Some [simp]:
  "keeps a (Some cs) = same_auths a cs" "keeps_with a (Some (x, cs)) = same_auths a cs" "keeps a None" "keeps_with a None"
  by (auto simp: keeps_def keeps_with_def)

lemma keeps_bind:
  "keeps_with a m \<Longrightarrow> (\<And>x cs. same_auths a cs \<Longrightarrow> keeps a (f (x, cs))) \<Longrightarrow> keeps a (Option.bind m f)"
  "keeps_with a m \<Longrightarrow> (\<And>x cs. same_auths a cs \<Longrightarrow> keeps_with a (g (x, cs))) \<Longrightarrow> keeps_with a (Option.bind m g)"
  "keeps a k \<Longrightarrow> (\<And>cs. same_auths a cs \<Longrightarrow> keeps a (h cs)) \<Longrightarrow> keeps a (Option.bind k h)"
  "keeps a k \<Longrightarrow> (\<And>cs. same_auths a cs \<Longrightarrow> keeps_with a (j cs)) \<Longrightarrow> keeps_with a (Option.bind k j)"
  by (auto simp: keeps_def keeps_with_def bind_eq_Some_conv)

lemma keeps_read:
  "(\<And>x. keeps a (f x)) \<Longrightarrow> keeps a (Option.bind r f)"
  "(\<And>x. keeps_with a (g x)) \<Longrightarrow> keeps_with a (Option.bind r g)"
  "(\<And>x. same_auths a (h x)) \<Longrightarrow> keeps a (map_option h r)"
  by (auto simp: keeps_def keeps_with_def bind_eq_Some_conv)

lemmas keeps_reads =
  keeps_read [where r = "r :: csc option" for r] keeps_read [where r = "r :: 'x list option" for r]
  keeps_read [where r = "r :: char_select_data option" for r] keeps_read [where r = "r :: (zerr \<times> zone_request ringbuf) option" for r]
  keeps_read [where r = "r :: (char_create_data \<times> aligned) option" for r]

lemma keeps_map:
  "keeps a k \<Longrightarrow> keeps_with a (map_option (Pair x) k)"
  "keeps a k \<Longrightarrow> (\<And>cs. same_auths a (f cs) = same_auths a cs) \<Longrightarrow> keeps a (map_option f k)"
  "keeps_with a m \<Longrightarrow> (\<And>x cs. same_auths a (snd (g (x, cs))) = same_auths a cs) \<Longrightarrow> keeps_with a (map_option g m)"
  "keeps_with a m \<Longrightarrow> keeps a (map_option snd m)"
  by (auto simp: keeps_def keeps_with_def, metis snd_conv)

lemma same_auths_upd [simp]:
  "same_auths a (cs\<lparr>cs_net := n\<rparr>) = same_auths a cs" "same_auths a (cs\<lparr>cs_dbQueue := q\<rparr>) = same_auths a cs"
  "same_auths a (cs\<lparr>cs_mainQueue := mq\<rparr>) = same_auths a cs" "same_auths a (cs\<lparr>cs_nextQueryId := i\<rparr>) = same_auths a cs"
  "same_auths a (cs\<lparr>cs_guildList := g\<rparr>) = same_auths a cs" "same_auths a (cs\<lparr>cs_guildCount := k\<rparr>) = same_auths a cs"
  "same_auths a (cs\<lparr>cs_packetGuildList := p\<rparr>) = same_auths a cs" "same_auths a (cs\<lparr>cs_clients := cl\<rparr>) = same_auths a cs"
  "same_auths a (cs\<lparr>cs_clientCount := k\<rparr>) = same_auths a cs" "same_auths a (cs\<lparr>cs_clientsAwaitingAuth := cl\<rparr>) = same_auths a cs"
  "same_auths a (cs\<lparr>cs_clientsAwaitingAuthCount := k\<rparr>) = same_auths a cs"
  "same_auths a (cs\<lparr>cs_clientAwaitingAuthTimeouts := ts\<rparr>) = same_auths a cs"
  by (simp_all add: same_auths_def admitted_def [abs_def])

lemma same_auths_drop_string [simp]: "same_auths a (cs_drop_string s cs) = same_auths a cs"
  by (simp add: cs_drop_string_def)

lemma same_auths_drop_strings [simp]: "same_auths a (fold cs_drop_string ss cs) = same_auths a cs"
  by (induction ss arbitrary: cs) simp_all

lemma same_auths_new_string [simp]: "same_auths a (snd (cs_new_string bs len cs)) = same_auths a cs"
  by (simp add: cs_new_string_def Let_def split: prod.split option.split)

lemma keeps_calls [frame]:
  assumes "same_auths a cs"
  shows "keeps_with a (csc_schedule_packet c p cs)" "keeps a (cs_drop c cs)" "keeps_with a (cs_new_packet b cs)"
    "keeps_with a (cs_query_db zop q cs)" "keeps_with a (cs_query_with_name zop qn s cs)"
    "keeps_with a (cs_thread_trigger_send_char_info c acct cs)"
  using assms
  by (auto simp: csc_schedule_packet_def cs_drop_def cs_thread_drop_client_def cs_new_packet_def cs_query_db_def keeps_def keeps_with_def
      cs_query_with_name_def cs_thread_trigger_send_char_info_def Let_def bind_eq_Some_conv
      split: prod.splits option.splits if_splits)

lemma keeps_upd_client:
  assumes "same_auths a cs" "\<And>client. credential_of (f client) = credential_of client"
  shows "keeps a (cs_upd_client cs c f)"
  using assms by (auto simp: keeps_def cs_upd_client_def same_auths_def admitted_def fun_eq_iff) (metis bind.bind_lunit)

lemma keeps_flags [frame]:
  assumes "same_auths a cs"
  shows "keeps a (cs_upd_client cs c (\<lambda>client. csc_set_name_approved client v))"
    "keeps a (cs_upd_client cs c (\<lambda>client. csc_set_is_zoning client v))"
  by (rule keeps_upd_client [OF assms],
      simp add: credential_of_def credentials_def csc_set_name_approved_def csc_set_is_zoning_def)+

lemmas keeps_rules = keeps_bind keeps_reads keeps_map

lemma keeps_if:
  "(b \<Longrightarrow> keeps a x) \<Longrightarrow> (\<not> b \<Longrightarrow> keeps a y) \<Longrightarrow> keeps a (if b then x else y)"
  "(b \<Longrightarrow> keeps_with a u) \<Longrightarrow> (\<not> b \<Longrightarrow> keeps_with a v) \<Longrightarrow> keeps_with a (if b then u else v)"
  by simp_all

lemma keeps_guild [frame]: "keeps a (cs_thread_handle_add_guild guild isLast a)"
proof -
  have "keeps a (cs_add_guild guild a)"
    by (auto simp: cs_add_guild_def Let_def split: prod.split option.split intro!: keeps_reads)
  then show ?thesis unfolding cs_thread_handle_add_guild_def
    by (auto intro!: keeps_rules keeps_if frame)
qed

lemma keeps_db_results [frame]:
  "keeps a (cs_thread_handle_db_character_info c data n u e a)"
  "keeps a (cs_thread_handle_db_name_approval c isAvailable u e a)"
  "keeps a (cs_thread_handle_db_character_create c u e a)"
  "keeps a (cs_thread_handle_db_character_delete c u e a)"
  unfolding cs_thread_handle_db_character_info_def cs_thread_handle_db_name_approval_def cs_thread_handle_db_character_create_def
    cs_thread_handle_db_character_delete_def cs_thread_send_name_approval_def Let_def
  by (auto intro!: keeps_rules keeps_if frame split: option.split)

lemma keeps_zone [frame]:
  "keeps a (cs_thread_handle_zone_success c zoneId port ipAddress motd nTime unixTime a)"
  "keeps a (cs_thread_handle_zone_failure c a)"
  unfolding cs_thread_handle_zone_success_def cs_thread_handle_zone_failure_def cs_zone_success_packets_def Let_def
  by (auto intro!: keeps_rules keeps_if frame)

lemma keeps_requests [frame]:
  "keeps_with a (cs_thread_handle_op_guild_list c a)"
  "keeps_with a (cs_thread_handle_op_name_approval c packet a)"
  "keeps_with a (cs_thread_handle_op_create_character c packet a)"
  "keeps_with a (cs_thread_handle_op_delete_character c packet a)"
  "keeps_with a (cs_thread_handle_op_echo c opcode a)"
  unfolding cs_thread_handle_op_guild_list_def cs_thread_handle_op_name_approval_def cs_thread_handle_op_create_character_def
    cs_thread_handle_op_delete_character_def cs_thread_handle_op_echo_def Let_def
  by (auto intro!: keeps_rules keeps_if frame split: option.split simp: split_beta)

lemma keeps_enter [frame]: "keeps_with a (cs_thread_handle_op_enter c packet a)"
  unfolding cs_thread_handle_op_enter_def Let_def
  by (auto intro!: keeps_rules keeps_if frame split: option.split simp: split_beta)

section \<open>Letting in a client\<close>

text \<open>A client that is added is let in with the credentials, or nothing happens to it.\<close>

definition joins :: "u64 \<Rightarrow> u64 \<Rightarrow> u8 list \<Rightarrow> char_select \<Rightarrow> char_select \<Rightarrow> bool" where
  "joins c accountId sessionKey cs cs' \<longleftrightarrow> same_auths cs cs' \<or>
    (\<exists>client. cs_objects cs c = Some client \<and> cs_authsAwaitingClient cs' = cs_authsAwaitingClient cs
      \<and> cs_authsAwaitingClientCount cs' = cs_authsAwaitingClientCount cs
      \<and> admitted cs' = (admitted cs)(c \<mapsto>
          \<lparr>ca_accountId = accountId, ca_ip = fst (cc_ipAddress client), ca_sessionKey = take 16 sessionKey\<rparr>))"

definition joins_with :: "u64 \<Rightarrow> u64 \<Rightarrow> u8 list \<Rightarrow> char_select \<Rightarrow> ('x \<times> char_select) option \<Rightarrow> bool" where
  "joins_with c accountId sessionKey cs r \<longleftrightarrow> (\<forall>x cs'. r = Some (x, cs') \<longrightarrow> joins c accountId sessionKey cs cs')"

lemma joins_call:
  assumes "same_clients a cs"
    and "\<And>rc cs. same_clients a cs \<Longrightarrow> joins_with c accountId sessionKey a (f (rc, cs))"
  shows "joins_with c accountId sessionKey a (Option.bind (csc_schedule_packet d p cs) f)"
    "joins_with c accountId sessionKey a (Option.bind (cs_thread_trigger_send_char_info d acct cs) f)"
proof -
  have bind: "joins_with c accountId sessionKey a (Option.bind m f)" if "\<And>rc cs'. m = Some (rc, cs') \<Longrightarrow> same_clients cs cs'" for m
    using that assms by (auto simp: joins_with_def bind_eq_Some_conv dest: same_clients_trans)
  show "joins_with c accountId sessionKey a (Option.bind (csc_schedule_packet d p cs) f)"
    "joins_with c accountId sessionKey a (Option.bind (cs_thread_trigger_send_char_info d acct cs) f)"
    by (rule bind; auto simp: csc_schedule_packet_def cs_thread_trigger_send_char_info_def cs_query_db_def bind_eq_Some_conv
        same_clients_def)+
qed

lemma joins_fail:
  assumes "same_clients a cs"
  shows "joins_with c accountId sessionKey a (map_option (Pair rc) (cs_drop d cs))"
  using keeps_calls(2) [OF same_clients_auths [OF assms], of d] by (auto simp: joins_with_def joins_def keeps_def)

lemma joins_admit:
  assumes "same_clients a cs"
  shows "joins_with c accountId sessionKey a
    (map_option (Pair rc) (cs_upd_client cs c (\<lambda>client. csc_set_auth_data client accountId sessionKey)))"
  using assms by (auto simp: joins_with_def joins_def cs_upd_client_def same_clients_def admitted_def fun_eq_iff csc_set_auth_data_def
      credential_of_def credentials_def)

lemma joins_add_authed_client:
  "joins_with c accountId sessionKey cs (cs_thread_add_authed_client c accountId sessionKey cs)"
proof -
  have set: "joins_with c accountId sessionKey cs (Option.bind (arr_set xs i (x :: u64)) f)"
    if "\<And>ys. joins_with c accountId sessionKey cs (f ys)" for xs i x f
    using that by (auto simp: joins_with_def bind_eq_Some_conv)
  show ?thesis unfolding cs_thread_add_authed_client_def Let_def
    by (auto intro!: set joins_call joins_fail joins_admit simp: same_clients_def split: prod.split option.split if_splits)
qed

section \<open>Credentials that wait\<close>

abbreviation auth_count :: "char_select \<Rightarrow> nat" where
  "auth_count cs \<equiv> unat (cs_authsAwaitingClientCount cs)"

lemma auth_inv_less:
  assumes "auth_inv ms cs" "\<And>c a. admitted cs' c = Some a \<Longrightarrow> admitted cs c = Some a" "pending cs' \<subseteq># pending cs"
    "auth_count cs' \<le> length (cs_authsAwaitingClient cs')" "auth_count cs' \<le> auth_count cs"
  shows "auth_inv (ms @ ns) cs'"
proof -
  have "admits_once (grants (ms @ ns)) (admitted cs') (pending cs')"
    using assms(1,2,3) admits_once_less [of "grants ms" "admitted cs" "pending cs"] by (simp add: auth_inv_def grants_def)
  then show ?thesis using assms by (auto simp: auth_inv_def)
qed

lemma auth_inv_same:
  assumes "auth_inv ms cs" "same_auths cs cs'"
  shows "auth_inv (ms @ ns) cs'"
  by (rule auth_inv_less [OF assms(1)]) (use assms in \<open>auto simp: same_auths_def pending_def auth_inv_def\<close>)

lemma swap_pop_pending:
  assumes "i < unat n" "unat n \<le> length xs"
  shows "mset (take (unat n) xs) = add_mset (xs ! i) (mset (take (unat (n - 1)) (swap_pop xs i (n - 1))))"
proof -
  have n: "unat (n - 1) = unat n - 1" using assms(1) by (intro unat_minus_one) auto
  show ?thesis using mset_swap_pop [of i "take (unat n) xs"] take_swap_pop [OF assms] assms by (simp add: swap_pop_def n)
qed

lemma is_auth_awaiting_client_True:
  assumes "cs_thread_is_auth_awaiting_client accountId ip sessionKey cs = (True, cs')"
    "auth_count cs \<le> length (cs_authsAwaitingClient cs)"
  shows "cs_objects cs' = cs_objects cs"
    "pending cs = add_mset \<lparr>ca_accountId = accountId, ca_ip = ip, ca_sessionKey = take 16 sessionKey\<rparr> (pending cs')"
    "auth_count cs' \<le> length (cs_authsAwaitingClient cs')" "auth_count cs' \<le> auth_count cs"
proof -
  let ?n = "cs_authsAwaitingClientCount cs" and ?auths = "cs_authsAwaitingClient cs"
  obtain i where i: "first_index (\<lambda>auth. ca_accountId auth = accountId \<and> ca_ip auth = ip \<and> ca_sessionKey auth = take 16 sessionKey)
      (take (unat ?n) ?auths) = Some i"
    and cs': "cs' = cs\<lparr>cs_authsAwaitingClientCount := ?n - 1, cs_authsAwaitingClient := swap_pop ?auths i (?n - 1),
      cs_authAwaitingClientTimeouts := swap_pop (cs_authAwaitingClientTimeouts cs) i (?n - 1)\<rparr>"
    using assms(1) by (auto simp: cs_thread_is_auth_awaiting_client_def Let_def split: option.splits)
  have lt: "i < unat ?n" and el: "?auths ! i = \<lparr>ca_accountId = accountId, ca_ip = ip, ca_sessionKey = take 16 sessionKey\<rparr>"
    using first_index_Some [OF i] assms(2) by (auto intro: cs_auth.equality)
  have "unat (?n - 1) = unat ?n - 1" using lt by (intro unat_minus_one) auto
  then show "cs_objects cs' = cs_objects cs" "auth_count cs' \<le> length (cs_authsAwaitingClient cs')" "auth_count cs' \<le> auth_count cs"
    using assms(2) by (simp_all add: cs' swap_pop_def)
  show "pending cs = add_mset \<lparr>ca_accountId = accountId, ca_ip = ip, ca_sessionKey = take 16 sessionKey\<rparr> (pending cs')"
    using swap_pop_pending [OF lt assms(2)] el by (simp add: pending_def cs')
qed

lemma net_grow_take:
  assumes "net_grow g xs index w = (Some ys, w')" "unat index \<le> length xs" "unat index < 2 ^ 31"
  shows "take (unat index) ys = take (unat index) xs" "unat index \<le> length ys"
proof -
  have cap: "unat (if index = 0 then 1 else index * 2) = (if index = 0 then 1 else 2 * unat index)"
    using assms(3) by (simp add: unat_word_ariths mult.commute)
  show "take (unat index) ys = take (unat index) xs" "unat index \<le> length ys"
    using assms cap by (auto simp: net_grow_def Let_def realloc_array_def min_def split: if_splits prod.splits)
qed

lemma add_auth_pending:
  assumes "cs_add_auth accountId ip sessionKey cs = Some cs'"
    "auth_count cs \<le> length (cs_authsAwaitingClient cs)" "auth_count cs < 2 ^ 31"
  shows "admitted cs' = admitted cs"
    "pending cs' \<subseteq># add_mset \<lparr>ca_accountId = accountId, ca_ip = ip, ca_sessionKey = take 16 sessionKey\<rparr> (pending cs)"
    "auth_count cs' \<le> length (cs_authsAwaitingClient cs')" "auth_count cs' \<le> Suc (auth_count cs)"
proof -
  let ?n = "cs_authsAwaitingClientCount cs"
  have n1: "unat (?n + 1) = Suc (unat ?n)" using assms(3) by (simp add: unat_word_ariths)
  show "admitted cs' = admitted cs"
    using assms(1) by (auto simp: cs_add_auth_def Let_def admitted_def [abs_def] bind_eq_Some_conv split: prod.splits option.splits)
  show "pending cs' \<subseteq># add_mset \<lparr>ca_accountId = accountId, ca_ip = ip, ca_sessionKey = take 16 sessionKey\<rparr> (pending cs)"
    "auth_count cs' \<le> length (cs_authsAwaitingClient cs')" "auth_count cs' \<le> Suc (auth_count cs)"
    using assms
    by (auto simp: cs_add_auth_def Let_def pending_def bind_eq_Some_conv arr_set_def n1 take_Suc_update net_grow_take
        split: prod.splits option.splits if_splits)
qed

text \<open>The timeouts take credentials away.\<close>

lemma expire_auths_less:
  "expire_auths now i n timeouts auths = (timeouts', auths', n') \<Longrightarrow> n \<le> length auths \<Longrightarrow>
    n' \<le> n \<and> length auths' = length auths \<and> mset (take n' auths') \<subseteq># mset (take n auths)"
proof (induction now i n timeouts auths rule: expire_auths.induct)
  case (1 now i n timeouts auths)
  show ?case
  proof (cases "i < n \<and> timeouts ! i < now")
    case True
    have "mset (take n auths) = add_mset (auths ! i) (mset (take (n - 1) (auths[i := auths ! (n - 1)])))"
      using mset_swap_pop [of i "take n auths"] take_swap_pop [of i n auths] True "1.prems"(2) by simp
    then have "mset (take (n - 1) (auths[i := auths ! (n - 1)])) \<subseteq># mset (take n auths)"
      by (metis add_mset_add_single mset_subset_eq_add_left)
    moreover have "n' \<le> n - 1 \<and> length auths' = length (auths[i := auths ! (n - 1)])
        \<and> mset (take n' auths') \<subseteq># mset (take (n - 1) (auths[i := auths ! (n - 1)]))"
      using "1.prems" True by (intro "1.IH"(1)) (simp_all add: expire_auths.simps [of now i n timeouts auths])
    ultimately show ?thesis by (auto intro: subset_mset.order_trans)
  next
    case False
    then show ?thesis using "1.IH"(2) "1.prems" expire_auths.simps [of now i n timeouts auths] by (auto split: if_splits)
  qed
qed

lemma keeps_expire_clients: "same_auths a cs \<Longrightarrow> keeps a (expire_clients now i n cs)"
proof (induction now i n cs rule: expire_clients.induct)
  case (1 now i n cs)
  have "keeps a (Option.bind (cs_drop (cs_clientsAwaitingAuth cs ! i) cs) f)"
    if "\<And>cs'. cs_drop (cs_clientsAwaitingAuth cs ! i) cs = Some cs' \<Longrightarrow> same_auths a cs' \<Longrightarrow> keeps a (f cs')" for f
    using that keeps_calls(2) [OF "1.prems"] by (auto simp: keeps_def bind_eq_Some_conv)
  then show ?case by (subst expire_clients.simps) (intro keeps_if; use "1.IH" "1.prems" in simp)
qed

section \<open>The loop\<close>

lemma auth_inv_admit:
  assumes "admits_once (grants ms) (admitted cs) (add_mset a (pending cs))"
    "auth_count cs \<le> length (cs_authsAwaitingClient cs)" "auth_count cs \<le> length ms"
    "joins c accountId sessionKey cs cs'"
    "\<And>client. cs_objects cs c = Some client \<Longrightarrow>
      a = \<lparr>ca_accountId = accountId, ca_ip = fst (cc_ipAddress client), ca_sessionKey = take 16 sessionKey\<rparr>"
  shows "auth_inv ms cs'"
proof (cases "same_auths cs cs'")
  case True
  have "admits_once (grants ms) (admitted cs) (pending cs)" using admits_once_less [OF assms(1)] by auto
  then have "auth_inv ms cs" using assms(2,3) by (simp add: auth_inv_def)
  then show ?thesis using auth_inv_same [OF _ True, of ms "[]"] by simp
next
  case False
  then have "admitted cs' = (admitted cs)(c \<mapsto> a)" "pending cs' = pending cs" "auth_count cs' = auth_count cs"
      "cs_authsAwaitingClient cs' = cs_authsAwaitingClient cs"
    using assms(4,5) by (auto simp: joins_def pending_def)
  then show ?thesis using assms(2,3) admits_once_admit [OF assms(1), of c] by (simp add: auth_inv_def)
qed

lemma keeps_add_awaiting [frame]: "keeps_with a (cs_thread_add_client_awaiting_auth c a)"
  unfolding cs_thread_add_client_awaiting_auth_def Let_def
  by (auto intro!: keeps_rules split: prod.split option.split)

lemma login_info_cases:
  assumes "cs_thread_handle_op_login_info c packet cs = Some (rc, cs')"
  shows "cs' = cs \<or> (\<exists>client accountId sessionKey found cs1. cs_objects cs c = Some client
    \<and> cs_thread_is_auth_awaiting_client accountId (fst (cc_ipAddress client)) sessionKey cs = (found, cs1)
    \<and> (if found then cs_thread_add_authed_client c accountId sessionKey cs1 else cs_thread_add_client_awaiting_auth c cs1)
      = Some (rc, cs'))"
proof (cases "cs' = cs")
  case False
  define a where "a = aligned_init packet (of_nat (length packet))"
  define r where "r = aligned_advance_past_null_terminator a"
  define accountId where "accountId = strtol10 (drop 3 (drop (unat (al_cursor a)) (al_buffer a)))"
  define sessionKey where "sessionKey = drop (unat (al_cursor (snd r))) (al_buffer (snd r))"
  obtain client where "cs_objects cs c = Some client"
      "(let (found, cs) = cs_thread_is_auth_awaiting_client accountId (fst (cc_ipAddress client)) sessionKey cs
       in if found then cs_thread_add_authed_client c accountId sessionKey cs else cs_thread_add_client_awaiting_auth c cs)
       = Some (rc, cs')"
    using assms False unfolding cs_thread_handle_op_login_info_def Let_def cs_client_def csc_get_ip_def
    by (auto simp: bind_eq_Some_conv split_beta accountId_def sessionKey_def r_def a_def split: if_splits)
  then show ?thesis
    by (cases "cs_thread_is_auth_awaiting_client accountId (fst (cc_ipAddress client)) sessionKey cs") (simp only: Let_def prod.case, blast)
qed simp

lemma login_info_inv:
  assumes "auth_inv ms cs" "cs_thread_handle_op_login_info c packet cs = Some (rc, cs')"
  shows "auth_inv (ms @ ns) cs'"
proof -
  have inv: "auth_inv (ms @ ns) cs'" if "keeps_with cs (Some (rc, cs'))"
    using auth_inv_same [OF assms(1)] that by simp
  have n: "auth_count cs \<le> length (cs_authsAwaitingClient cs)" using assms(1) by (simp add: auth_inv_def)
  {
    fix accountId sessionKey client cs1
    assume found: "cs_thread_is_auth_awaiting_client accountId (fst (cc_ipAddress client)) sessionKey cs = (True, cs1)"
      and client: "cs_objects cs c = Some client"
      and add: "cs_thread_add_authed_client c accountId sessionKey cs1 = Some (rc, cs')"
    note t = is_auth_awaiting_client_True [OF found n]
    have "admitted cs1 = admitted cs" using t(1) by (simp add: admitted_def [abs_def])
    then have "admits_once (grants ms) (admitted cs1)
        (add_mset \<lparr>ca_accountId = accountId, ca_ip = fst (cc_ipAddress client), ca_sessionKey = take 16 sessionKey\<rparr> (pending cs1))"
      using assms(1) t(2) by (simp add: auth_inv_def)
    then have "auth_inv ms cs'"
      by (rule auth_inv_admit [where c = c]) (use t client assms(1) add joins_add_authed_client [of c accountId sessionKey cs1]
          in \<open>auto simp: auth_inv_def joins_with_def\<close>)
    then have "auth_inv (ms @ ns) cs'" using auth_inv_same [of ms cs' cs' ns] by simp
  }
  note found = this
  have not_found: "cs1 = cs" if "cs_thread_is_auth_awaiting_client accountId ip sessionKey cs = (False, cs1)" for accountId ip sessionKey cs1
    using that by (auto simp: cs_thread_is_auth_awaiting_client_def Let_def split: option.splits)
  show ?thesis using login_info_cases [OF assms(2)]
    by (elim disjE exE conjE) (use inv found keeps_add_awaiting [of cs c] in \<open>auto split: if_splits dest!: not_found\<close>)
qed

lemma find_waiting_Some:
  "find_waiting cs accountId ip sessionKey cls i = Some (Some (j, c)) \<Longrightarrow>
    \<exists>client. cs_objects cs c = Some client \<and> csc_check_auth client accountId ip sessionKey"
  by (induction cls arbitrary: i) (auto simp: bind_eq_Some_conv cs_client_def split: if_splits)

lemma login_auth_inv:
  assumes "auth_inv ms cs" "cs_thread_handle_login_auth accountId ip sessionKey cs = Some cs'" "length ms < 2 ^ 31"
  shows "auth_inv (ms @ [CsLoginAuth accountId ip sessionKey]) cs'"
proof -
  let ?a = "\<lparr>ca_accountId = accountId, ca_ip = ip, ca_sessionKey = take 16 sessionKey\<rparr>" and ?m = "CsLoginAuth accountId ip sessionKey"
  have n: "auth_count cs \<le> length (cs_authsAwaitingClient cs)" "auth_count cs \<le> length ms" using assms(1) by (simp_all add: auth_inv_def)
  have new: "admits_once (grants (ms @ [?m])) (admitted cs) (add_mset ?a (pending cs))"
    using assms(1) by (auto simp: auth_inv_def admits_once_def grants_def)
  obtain found where found: "find_waiting cs accountId ip sessionKey
      (take (unat (cs_clientsAwaitingAuthCount cs)) (cs_clientsAwaitingAuth cs)) 0 = Some found"
    using assms(2) by (auto simp: cs_thread_handle_login_auth_def Let_def bind_eq_Some_conv)
  show ?thesis
  proof (cases found)
    case None
    then have "cs_add_auth accountId ip sessionKey cs = Some cs'"
      using assms(2) found by (simp add: cs_thread_handle_login_auth_def Let_def)
    note a = add_auth_pending [OF this n(1)]
    show ?thesis using a n assms(3) admits_once_less [OF new _ a(2)] by (auto simp: auth_inv_def)
  next
    case (Some f)
    then obtain i c where f: "found = Some (i, c)" by (cases f) auto
    then obtain rc cs1 where add: "cs_thread_add_authed_client c accountId sessionKey cs = Some (rc, cs1)" and s: "same_auths cs1 cs'"
      using assms(2) found by (auto simp: cs_thread_handle_login_auth_def Let_def bind_eq_Some_conv)
    have "auth_inv (ms @ [?m]) cs1"
      by (rule auth_inv_admit [OF new, where c = c]) (use n add joins_add_authed_client [of c accountId sessionKey cs]
          find_waiting_Some found f in \<open>fastforce simp: joins_with_def csc_check_auth_def\<close>)+
    then show ?thesis using auth_inv_same [OF _ s, of _ "[]"] by simp
  qed
qed

lemma handle_packet_inv:
  assumes "auth_inv ms cs" "cs_thread_handle_packet c opcode packet cs = Some cs'"
  shows "auth_inv (ms @ ns) cs'"
proof -
  obtain rc cs1 where op: "cs_handle_opcode c opcode packet cs = Some (rc, cs1)"
    and d: "(if rc \<noteq> ERR_None then cs_drop c cs1 else Some cs1) = Some cs'"
    using assms(2) by (auto simp: cs_thread_handle_packet_def bind_eq_Some_conv)
  have "auth_inv (ms @ ns) cs1"
  proof (cases "opcode = OP_CS_LoginInfo")
    case True
    then show ?thesis using op login_info_inv [OF assms(1)] by (simp add: cs_handle_opcode_def)
  next
    case False
    then have "keeps_with cs (cs_handle_opcode c opcode packet cs)"
      by (auto simp: cs_handle_opcode_def intro!: frame)
    then show ?thesis using op auth_inv_same [OF assms(1)] by simp
  qed
  moreover have "same_auths cs1 cs'" using d frame(2) [of cs1 cs1 c] by (auto simp: keeps_def split: if_splits)
  ultimately show ?thesis using auth_inv_same [of "ms @ ns" cs1 cs' "[]"] by simp
qed

lemma handle_message_inv:
  assumes "auth_inv ms cs" "cs_handle_message m cs = Some cs'" "length ms < 2 ^ 31"
  shows "auth_inv (ms @ [m]) cs'"
proof (cases "\<exists>c. m = CsClientDisconnect c \<or> (\<exists>ip memory. m = CsNewClient c ip memory)")
  case True
  then have "\<And>d a. admitted cs' d = Some a \<Longrightarrow> admitted cs d = Some a" and "pending cs' = pending cs"
    "auth_count cs' = auth_count cs" "cs_authsAwaitingClient cs' = cs_authsAwaitingClient cs"
    using assms(2) by (auto simp: cs_thread_remove_client_object_def Let_def admitted_def pending_def credential_of_def csc_init_def
        split: if_splits option.splits)
  then show ?thesis using assms(1) by (intro auth_inv_less [OF assms(1)]) (auto simp: auth_inv_def)
next
  case False
  have keep: "auth_inv (ms @ [m]) cs'" if "keeps cs (cs_handle_message m cs)"
    using auth_inv_same [OF assms(1)] assms(2) that by simp
  show ?thesis
  proof (cases m)
    case (CsToServerPacket c opcode packet)
    then show ?thesis using handle_packet_inv [OF assms(1)] assms(2) by simp
  next
    case (CsLoginAuth accountId ip sessionKey)
    then show ?thesis using login_auth_inv [OF assms(1)] assms(2,3) by simp
  next
    case CsCheckAuthTimeouts
    obtain timeouts auths n where e: "expire_auths (nt_now (cs_net cs)) 0 (auth_count cs) (cs_authAwaitingClientTimeouts cs)
        (cs_authsAwaitingClient cs) = (timeouts, auths, n)" by (metis prod.exhaust)
    let ?cs = "cs\<lparr>cs_authsAwaitingClientCount := of_nat n, cs_authsAwaitingClient := auths, cs_authAwaitingClientTimeouts := timeouts\<rparr>"
    have l: "n \<le> auth_count cs" "length auths = length (cs_authsAwaitingClient cs)" "mset (take n auths) \<subseteq># pending cs"
      using expire_auths_less [OF e] assms(1) by (simp_all add: auth_inv_def pending_def)
    have "n < 2 ^ 32" by (rule le_less_trans [OF l(1)]) (rule order_less_le_trans [OF unsigned_less], simp)
    then have "unat (of_nat n :: u32) = n" by (intro unat_of_nat_small) simp
    then have "auth_inv (ms @ [m]) ?cs"
      using l assms(1) by (intro auth_inv_less [OF assms(1)]) (auto simp: admitted_def pending_def auth_inv_def)
    moreover have "same_auths ?cs cs'"
      using assms(2) CsCheckAuthTimeouts keeps_expire_clients [OF same_auths_refl, of ?cs]
      by (auto simp: cs_thread_check_auth_timeouts_def e keeps_def)
    ultimately show ?thesis using auth_inv_same [of "ms @ [m]" ?cs cs' "[]"] by simp
  qed (rule keep, use False in \<open>simp add: frame\<close>)+
qed


lemma proc_inv:
  "cs_thread_proc ms cs = Some cs' \<Longrightarrow> auth_inv past cs \<Longrightarrow> length past + length ms < 2 ^ 31 \<Longrightarrow> auth_inv (past @ ms) cs'"
proof (induction ms arbitrary: cs past)
  case (Cons m ms)
  show ?case
  proof (cases "m = CsTerminateThread")
    case True
    then have "same_auths cs cs'" using Cons.prems(1) by (auto simp: cs_thread_on_terminate_def)
    then show ?thesis by (rule auth_inv_same [OF Cons.prems(2)])
  next
    case False
    then obtain cs1 where cs1: "cs_handle_message m cs = Some cs1" "cs_thread_proc ms cs1 = Some cs'"
      using Cons.prems(1) by (auto simp: bind_eq_Some_conv)
    have "auth_inv (past @ [m]) cs1" using handle_message_inv [OF Cons.prems(2) cs1(1)] Cons.prems(3) by simp
    then show ?thesis using Cons.IH [OF cs1(2), of "past @ [m]"] Cons.prems(3) by simp
  qed
qed (use auth_inv_same [of past cs cs "[]"] in simp)

text \<open>
  C35. Of all the messages a thread without clients receives, whatever they are and in which order, every
  authentication by the login server (account, IP address and session key) lets in one client at most,
  counting those that still wait for their client. So no client is let in without one, none is let in
  for another account, address or key, and no authentication is used twice, even if clients repeat
  their login packet, disconnect, or time out.
\<close>

theorem cs_authentication_admits_once:
  assumes "cs_thread_proc ms cs = Some cs'" "length ms < 2 ^ 31"
    and "cs_objects cs = (\<lambda>_. None)" "cs_authsAwaitingClientCount cs = 0"
  shows "finite {c. admitted cs' c = Some a}
    \<and> card {c. admitted cs' c = Some a} + count (pending cs') a \<le> count (grants ms) a"
proof -
  have "auth_inv [] cs" using assms(3,4) by (simp add: auth_inv_def admits_once_def grants_def admitted_def pending_def)
  then show ?thesis using proc_inv [OF assms(1), of "[]"] assms(2) by (simp add: auth_inv_def admits_once_def)
qed


text \<open>A thread with small queues and three packets, a granted authentication and the client it is for.\<close>

definition demo_packet :: tlg_packet where
  "demo_packet = the (packet_create (Some (replicate 40 0)) 1 1)"

definition demo_cs :: char_select where
  "demo_cs =
     (cs_new 1
        \<lparr>nt_udp = demo_thread\<lparr>ut_udpQueue := ringbuf_init demo_command 8, ut_heap := [1 \<mapsto> demo_packet, 2 \<mapsto> demo_packet, 3 \<mapsto> demo_packet]\<rparr>,
         nt_junk = demo_command, nt_malloc = [Some (1000, []), Some (1001, []), Some (1002, [])], nt_strings = (\<lambda>_. None), nt_now = 0\<rparr>
        (ringbuf_init \<lparr>zr_client = 0, zr_name = 0, zr_accountId = 0, zr_ipAddr = (0, 0), zr_isLocal = False\<rparr> 4)
        (ringbuf_init \<lparr>dq_dbId = 0, dq_queryId = 0, dq_zop = 0, dq_query = QCSCharacterInfo 0 0\<rparr> 4)
        (tbl_init_size 4))
     \<lparr>cs_packetLoginApproved := 1, cs_packetEnter := 2, cs_packetExpansionInfo := 3\<rparr>"

definition demo_login :: "cs_message list" where
  "demo_login =
     [CsLoginAuth 7 1 (replicate 16 9), CsNewClient 100 (1, 2) (replicate 16 0),
      CsToServerPacket 100 OP_CS_LoginInfo ([76, 83, 35, 55, 0] @ replicate 16 9)]"

definition demo_auth :: cs_auth where
  "demo_auth = \<lparr>ca_accountId = 7, ca_ip = 1, ca_sessionKey = replicate 16 9\<rparr>"

lemma demo_login_run:
  "case cs_thread_proc demo_login demo_cs of Some cs' \<Rightarrow> admitted cs' 100 = Some demo_auth | None \<Rightarrow> False"
  by code_simp

theorem cs_authentication_admits_once_witness:
  "\<exists>cs'. cs_thread_proc demo_login demo_cs = Some cs' \<and> admitted cs' 100 = Some demo_auth
    \<and> card {c. admitted cs' c = Some demo_auth} + count (pending cs') demo_auth \<le> 1"
proof -
  obtain cs' where run: "cs_thread_proc demo_login demo_cs = Some cs'" "admitted cs' 100 = Some demo_auth"
    using demo_login_run by (auto split: option.splits)
  have "count (grants demo_login) demo_auth = 1" by (simp add: grants_def demo_login_def demo_auth_def)
  then show ?thesis using cs_authentication_admits_once [OF run(1), of demo_auth] run
    by (simp add: demo_login_def demo_cs_def cs_new_def)
qed

end
