(* ===== verification/Zeq_CharSelectCreate.thy ===== *)
theory Zeq_CharSelectCreate
  imports Zeq_CharSelectState
begin

text \<open>
  Which new characters the thread of the character selection accepts (\<open>src/char_select_thread.c\<close>).
\<close>

section \<open>Which characters are created\<close>

text \<open>The classes of each race, and the rows of the tables a race and a class have.\<close>

definition race_classes :: "nat list list" where
  "race_classes =
     [[1, 2, 3, 4, 5, 6, 7, 8, 9, 11, 12, 13, 14], [1, 9, 10], [2, 3, 5, 11, 12, 13, 14], [1, 4, 6, 8, 9], [2, 3, 12, 13, 14],
      [1, 2, 5, 9, 11, 12, 13, 14], [1, 3, 4, 6, 8, 9], [1, 2, 3, 9], [1, 5, 10], [1, 5, 10], [1, 2, 3, 4, 6, 9],
      [1, 2, 9, 11, 12, 13, 14], [1, 5, 7, 10, 11]]"

definition character_row :: "u16 \<Rightarrow> nat" where
  "character_row raceId = (if 1 \<le> sint raceId \<and> sint raceId \<le> 12 then nat (sint raceId) - 1 else 12)"

definition character_allowed :: "char_create_data \<Rightarrow> bool" where
  "character_allowed data \<longleftrightarrow>
     (let race = character_row (ce_raceId data); classId = unat (ce_classId data); points = spendableStatPointsByClass ! (classId - 1);
          limits = map2 (+) (baseStatsByRace ! race) (statBonusesByClass ! (classId - 1)); stats = map unat (ce_stats data)
      in classId \<in> set (race_classes ! race) \<and> (\<forall>i < 7. stats ! i \<le> limits ! i + min 25 points)
         \<and> sum_list stats \<le> sum_list limits + points)"

lemma stats_loop_eq:
  "length bs = length vs \<Longrightarrow> length cs = length vs \<Longrightarrow>
    stats_loop m bs cs vs te st =
      (if \<forall>i < length vs. unat (vs ! i) \<le> map2 (+) bs cs ! i + m
       then Some (te + sum_list (map2 (+) bs cs), st + sum_list (map unat vs)) else None)"
proof (induction m bs cs vs te st rule: stats_loop.induct)
  case (1 m b bs c cs v vs te st)
  then show ?case by (auto simp: All_less_Suc2)
qed auto

text \<open>The bitmaps say what the list of classes says.\<close>

definition race_flags :: "bool list list" where
  "race_flags = map (\<lambda>classes. map (\<lambda>c. Suc c \<in> set classes) [0..<14]) race_classes"

lemma classesByRace_flags: "classesByRace = map classes_bitmap race_flags"
  by (simp add: classesByRace_def race_flags_def race_classes_def upt_conv_Cons)

lemma classes_bitmap_bit: "bit (classes_bitmap bs) n \<longleftrightarrow> n < 16 \<and> n < length bs \<and> bs ! n"
proof -
  have "classes_bitmap bs = horner_sum of_bool 2 bs"
    by (induction bs) (auto simp: classes_bitmap_def)
  then show ?thesis by (simp add: bit_horner_sum_bit_word_iff)
qed

lemma race_classes_range:
  assumes "r < 13" "c \<in> set (race_classes ! r)"
  shows "1 \<le> c \<and> c \<le> 14"
proof -
  have "list_all (\<lambda>classes. list_all (\<lambda>c. 1 \<le> c \<and> c \<le> 14) classes) race_classes" by (simp add: race_classes_def)
  moreover have "race_classes ! r \<in> set race_classes" using assms(1) by (intro nth_mem) (simp add: race_classes_def)
  ultimately show ?thesis using assms(2) by (auto simp: list_all_iff)
qed

lemma stat_rows:
  "length baseStatsByRace = 13" "length statBonusesByClass = 14"
  "list_all (\<lambda>row. length row = 7) baseStatsByRace" "list_all (\<lambda>row. length row = 7) statBonusesByClass"
  by (simp_all add: baseStatsByRace_def statBonusesByClass_def)

lemma class_bit:
  assumes "r < 13" "c < 15"
  shows "((ucast (classesByRace ! r) :: u32) AND push_bit c 1 = 0) \<longleftrightarrow> Suc c \<notin> set (race_classes ! r)"
proof -
  have len: "length race_classes = 13" by (simp add: race_classes_def)
  have c14: "15 \<notin> set (race_classes ! r)" using race_classes_range [OF assms(1)] by fastforce
  have "(ucast (classesByRace ! r) :: u32) AND push_bit c 1 = 0 \<longleftrightarrow> \<not> bit (ucast (classesByRace ! r) :: u32) c"
    by (simp add: push_bit_of_1 and_exp_eq_0_iff_not_bit)
  also have "bit (ucast (classesByRace ! r) :: u32) c \<longleftrightarrow> bit (classesByRace ! r) c"
    using assms(2) by (simp add: bit_ucast_iff)
  also have "\<dots> \<longleftrightarrow> c < 14 \<and> Suc c \<in> set (race_classes ! r)"
    using assms len by (auto simp: classesByRace_flags race_flags_def classes_bitmap_bit)
  also have "\<dots> \<longleftrightarrow> Suc c \<in> set (race_classes ! r)" using c14 assms(2) by (cases "c = 14") auto
  finally show ?thesis by simp
qed

lemma character_row_index:
  assumes "raceIndex = scast (raceId :: u16) - (1 :: u32)"
  shows "unat (if raceIndex > 12 then 12 else raceIndex) = character_row raceId"
proof -
  have s: "- 32768 \<le> sint raceId" "sint raceId < 32768" using sint_ge [of raceId] sint_lt [of raceId] by simp_all
  have r: "raceIndex = word_of_int (sint raceId - 1)" by (simp only: assms scast_eq of_int_diff of_int_1)
  have "uint raceIndex = (sint raceId - 1) mod 2 ^ 32" unfolding r by (simp add: uint_word_of_int del: of_int_diff)
  also have "\<dots> = (if sint raceId < 1 then sint raceId - 1 + 2 ^ 32 else sint raceId - 1)"
    using s mod_add_self2 [of "sint raceId - 1" "2 ^ 32 :: int"] by (auto simp del: mod_add_self2)
  finally have u: "uint raceIndex = (if sint raceId < 1 then sint raceId - 1 + 2 ^ 32 else sint raceId - 1)" .
  have "raceIndex > 12 \<longleftrightarrow> uint (12 :: u32) < uint raceIndex" by (rule word_less_def)
  then have gt: "raceIndex > 12 \<longleftrightarrow> uint raceIndex > 12" by simp
  show ?thesis
  proof (cases "1 \<le> sint raceId \<and> sint raceId \<le> 12")
    case True
    then have "uint raceIndex = sint raceId - 1" using u by simp
    then show ?thesis using True by (simp add: gt character_row_def flip: nat_uint_eq)
  next
    case False
    then have "raceIndex > 12 \<or> uint raceIndex = 12" using u s gt by (auto split: if_splits)
    moreover have "unat raceIndex = 12" if "uint raceIndex = 12" using that by (simp flip: nat_uint_eq)
    ultimately show ?thesis using False by (auto simp: character_row_def)
  qed
qed

text \<open>
  C36. A new character passes the check exactly if its race may have its class, no statistic exceeds what
  race and class give plus 25 or all the points of the class, whichever is less, and the statistics
  together do not exceed what race and class give plus the points of the class. Every race number
  outside 1 to 12 counts as Iksar.
\<close>

theorem create_character_check_exact:
  assumes "length (ce_stats data) = 7"
  shows "cs_thread_create_character_is_valid data \<longleftrightarrow> character_allowed data"
proof -
  let ?r = "character_row (ce_raceId data)" and ?c = "unat (ce_classId data)"
  define classIndex where "classIndex = (ucast (ce_classId data) - 1 :: u32)"
  let ?points = "spendableStatPointsByClass ! unat classIndex"
  have index: "unat classIndex = ?c - 1" if "?c \<noteq> 0"
  proof -
    have "(ucast (ce_classId data) :: u32) \<noteq> 0" using that by (simp flip: unat_eq_0)
    then show ?thesis unfolding classIndex_def by (subst unat_minus_one) simp_all
  qed
  have r: "?r < 13" by (auto simp: character_row_def)
  have valid: "cs_thread_create_character_is_valid data \<longleftrightarrow>
      (if classIndex > 14 \<or> (ucast (classesByRace ! ?r) :: u32) AND push_bit (unat classIndex) 1 = 0 then False
       else case stats_loop (if ?points > 25 then 25 else ?points) (baseStatsByRace ! ?r) (statBonusesByClass ! unat classIndex)
              (ce_stats data) ?points 0 of
            None \<Rightarrow> False | Some (totalExpected, stat) \<Rightarrow> \<not> stat > totalExpected)"
    unfolding cs_thread_create_character_is_valid_def Let_def
    by (simp only: character_row_index [OF refl] flip: classIndex_def)
  show ?thesis
  proof (cases "1 \<le> ?c \<and> ?c \<le> 15")
    case False
    then have "classIndex > 14"
    proof (cases "?c = 0")
      case True
      then have "ce_classId data = 0" by (simp only: unat_eq_0)
      then show ?thesis by (simp add: classIndex_def)
    next
      case nz: False
      then have "unat classIndex = ?c - 1" by (rule index)
      then show ?thesis using False nz by (simp add: word_less_nat_alt)
    qed
    moreover have "?c \<notin> set (race_classes ! ?r)" using False race_classes_range [OF r] by fastforce
    ultimately show ?thesis by (simp add: valid character_allowed_def Let_def)
  next
    case True
    define k where "k = ?c - 1"
    have k: "?c = Suc k" "k < 15" using True unfolding k_def by linarith+
    have c: "unat classIndex = k" "\<not> classIndex > 14"
      using index k by (simp_all add: word_less_nat_alt)
    note bit = class_bit [OF r k(2)]
    show ?thesis
    proof (cases "?c \<in> set (race_classes ! ?r)")
      case False
      then show ?thesis using bit k unfolding valid c character_allowed_def Let_def by (simp only: simp_thms if_True)
    next
      case in_race: True
      then have "k < 14" using race_classes_range [OF r] k(1) by fastforce
      then have len: "length (baseStatsByRace ! ?r) = 7" "length (statBonusesByClass ! k) = 7"
        using stat_rows r by (simp_all add: list_all_length)
      have m: "(if p > 25 then 25 else p) = min 25 p" for p :: nat by (simp add: min_def)
      have "cs_thread_create_character_is_valid data \<longleftrightarrow>
          (case stats_loop (min 25 (spendableStatPointsByClass ! k)) (baseStatsByRace ! ?r) (statBonusesByClass ! k)
              (ce_stats data) (spendableStatPointsByClass ! k) 0 of
            None \<Rightarrow> False | Some (totalExpected, stat) \<Rightarrow> \<not> stat > totalExpected)"
        unfolding valid c m using in_race bit k c(2) by (simp only: simp_thms if_False)
      then show ?thesis using in_race assms unfolding character_allowed_def Let_def k
        by (simp add: stats_loop_eq len not_less add.commute)
    qed
  qed
qed

text \<open>A human warrior with five points more in five statistics, and one point too many.\<close>

definition demo_character :: "nat \<Rightarrow> char_create_data" where
  "demo_character wis =
     \<lparr>ce_name = [], ce_genderId = 0, ce_classId = 1, ce_faceId = 0, ce_currentHp = 0, ce_raceId = 1,
      ce_stats = map of_nat [90, 90, 80, 80, 75, 80, wis], ce_zoneId = 0, ce_deityId = 0, ce_x = 0, ce_y = 0, ce_z = 0,
      ce_heading = 0, ce_bindPoint = []\<rparr>"

theorem create_character_check_exact_witness:
  "cs_thread_create_character_is_valid (demo_character 75) \<and> \<not> cs_thread_create_character_is_valid (demo_character 81)"
proof -
  have "character_allowed (demo_character 75)" "\<not> character_allowed (demo_character 81)" by code_simp+
  then show ?thesis using create_character_check_exact [of "demo_character 75"] create_character_check_exact [of "demo_character 81"]
    by (simp add: demo_character_def)
qed

end
