(* ===== verification/Zeq_LoginState.thy ===== *)
theory Zeq_LoginState
  imports Zeq_Net Zeq_PacketCreate
begin

text \<open>
  The state of \<open>src/login_thread.c\<close>, the clients of \<open>src/login_client.c\<close> and the packets of the login
  protocol (\<open>src/login_packet_struct.h\<close>). The cipher and the hash of \<open>src/login_crypto.c\<close> are calls of
  OpenSSL; the functions they compute are fields of the state.
\<close>

section \<open>Constants\<close>

definition LOGIN_AUTH_Initial :: u8 where "LOGIN_AUTH_Initial = 0"
definition LOGIN_AUTH_VersionSent :: u8 where "LOGIN_AUTH_VersionSent = 1"
definition LOGIN_AUTH_ProcessingCredentials :: u8 where "LOGIN_AUTH_ProcessingCredentials = 2"
definition LOGIN_AUTH_Authorized :: u8 where "LOGIN_AUTH_Authorized = 3"

lemmas login_auth_states =
  LOGIN_AUTH_Initial_def LOGIN_AUTH_VersionSent_def LOGIN_AUTH_ProcessingCredentials_def LOGIN_AUTH_Authorized_def

definition ACCT_STATUS_Banned :: u32 where "ACCT_STATUS_Banned = - 2"
definition ACCT_STATUS_Suspended :: u32 where "ACCT_STATUS_Suspended = - 1"
definition ACCT_STATUS_Normal :: u32 where "ACCT_STATUS_Normal = 0"
definition LOGIN_SERVER_RANK_Standard :: u8 where "LOGIN_SERVER_RANK_Standard = 0"
definition LOGIN_SERVER_STATUS_Down :: u8 where "LOGIN_SERVER_STATUS_Down = 1"
definition LOGIN_SERVER_STATUS_Locked :: u8 where "LOGIN_SERVER_STATUS_Locked = 2"
definition LOGIN_THREAD_UDP_PORT :: u16 where "LOGIN_THREAD_UDP_PORT = 5998"
definition LOGIN_THREAD_SERVER_DOWN :: u32 where "LOGIN_THREAD_SERVER_DOWN = - 1"
definition LOGIN_THREAD_SERVER_LOCKED :: u32 where "LOGIN_THREAD_SERVER_LOCKED = - 2"
definition LOGIN_THREAD_VERSION_STRING :: string where "LOGIN_THREAD_VERSION_STRING = ''8-09-2001 14:25''"
definition LOGIN_THREAD_BAD_CREDENTIAL_STRING :: string where
  "LOGIN_THREAD_BAD_CREDENTIAL_STRING = ''Error: Invalid username or password''"
definition LOGIN_THREAD_SUSPENDED_STRING :: string where
  "LOGIN_THREAD_SUSPENDED_STRING = ''Error: Your account has been suspended from the selected server''"
definition LOGIN_THREAD_BANNED_STRING :: string where
  "LOGIN_THREAD_BANNED_STRING = ''Error: Your account has been banned from the selected server''"
definition LOGIN_THREAD_DEFAULT_BANNER_MESSAGE :: string where "LOGIN_THREAD_DEFAULT_BANNER_MESSAGE = ''Welcome to ZEQ!''"
definition LOGIN_CRYPTO_HASH_SIZE :: nat where "LOGIN_CRYPTO_HASH_SIZE = 16"
definition LOGIN_CRYPTO_SALT_SIZE :: nat where "LOGIN_CRYPTO_SALT_SIZE = 4"
definition ZOP_DB_QueryLoginCredentials :: int where "ZOP_DB_QueryLoginCredentials = 19"
definition ZOP_DB_QueryLoginNewAccount :: int where "ZOP_DB_QueryLoginNewAccount = 20"
definition ZOP_LOGIN_TerminateThread :: int where "ZOP_LOGIN_TerminateThread = 31"
definition ZOP_LOGIN_NewServer :: int where "ZOP_LOGIN_NewServer = 32"
definition ZOP_CS_LoginAuth :: int where "ZOP_CS_LoginAuth = 38"
definition OP_LOGIN_Credentials :: u16 where "OP_LOGIN_Credentials = 0x0001"
definition OP_LOGIN_Error :: u16 where "OP_LOGIN_Error = 0x0002"
definition OP_LOGIN_Session :: u16 where "OP_LOGIN_Session = 0x0004"
definition OP_LOGIN_Exit :: u16 where "OP_LOGIN_Exit = 0x0005"
definition OP_LOGIN_ServerList :: u16 where "OP_LOGIN_ServerList = 0x0046"
definition OP_LOGIN_SessionKey :: u16 where "OP_LOGIN_SessionKey = 0x0047"
definition OP_LOGIN_ServerStatusRequest :: u16 where "OP_LOGIN_ServerStatusRequest = 0x0048"
definition OP_LOGIN_ServerStatusAccept :: u16 where "OP_LOGIN_ServerStatusAccept = 0x004a"
definition OP_LOGIN_Banner :: u16 where "OP_LOGIN_Banner = 0x0052"
definition OP_LOGIN_Version :: u16 where "OP_LOGIN_Version = 0x0059"

definition PSLogin_Credentials :: pstruct where "PSLogin_Credentials = [(''username'', 20), (''password'', 20)]"
definition PSLogin_Session :: pstruct where "PSLogin_Session = [(''sessionId'', 10), (''unused'', 7), (''unknown'', 4)]"
definition PSLogin_ServerListHeader :: pstruct where
  "PSLogin_ServerListHeader = [(''serverCount'', 1), (''unknown'', 2), (''showNumPlayers'', 1)]"
definition PSLogin_ServerFooter :: pstruct where "PSLogin_ServerFooter = [(''isGreenName'', 1), (''playerCount'', 4)]"
definition PSLogin_ServerListFooter :: pstruct where
  "PSLogin_ServerListFooter = [(''admin'', 4), (''zeroesA'', 8), (''kunark'', 1), (''velious'', 1), (''zeroesB'', 12)]"
definition PSLogin_SessionKey :: pstruct where "PSLogin_SessionKey = [(''unknown'', 1), (''sessionKey'', 16)]"

section \<open>State\<close>

record loginc =
  lc_authState :: u8
  lc_isLocal :: bool
  lc_ipAddress :: "u32 \<times> u16"
  lc_accountStatus :: u32
  lc_accountId :: u64
  lc_suspendedUntil :: u64
  lc_accountName :: u64
  lc_passwordTemp :: u64
  lc_sessionKey :: "u8 list"

record login_server =
  ls_serverId :: u32
  ls_status :: u8
  ls_rank :: u8
  ls_isLocal :: bool
  ls_playerCount :: u32
  ls_name :: u64
  ls_remoteIpAddr :: u64
  ls_localIpAddr :: u64

record login_server_lengths =
  ll_isLocal :: bool
  ll_nameLength :: u8
  ll_remoteLength :: u8
  ll_localLength :: u8

datatype login_query =
    QLoginCredentials u64 u64
  | QLoginNewAccount u64 u64 "u8 list" "u8 list"

record login_auth =
  la_accountId :: u64
  la_ip :: u32
  la_sessionKey :: "u8 list"

record new_server =
  ns_initialStatus :: u8
  ns_rank :: u8
  ns_isLocal :: bool
  ns_serverId :: u32
  ns_serverName :: u64
  ns_remoteIpAddr :: u64
  ns_localIpAddr :: u64

text \<open>Behind the fields of the struct are the memory it shares with other threads, the queues it writes to, the
  next random bytes, the clock in seconds, and the two functions of OpenSSL.\<close>

record login =
  lt_clientCount :: u32
  lt_serverCount :: u32
  lt_nextQueryId :: u32
  lt_nextServerId :: u32
  lt_dbId :: u32
  lt_clients :: "u64 list"
  lt_servers :: "login_server list"
  lt_serverLengths :: "login_server_lengths list"
  lt_bannerMsg :: u64
  lt_loopbackAddr :: u64
  lt_packetVersion :: u64
  lt_packetBanner :: u64
  lt_packetErrBadCredentials :: u64
  lt_packetErrSuspended :: u64
  lt_packetErrBanned :: u64
  lt_packetLoginAccepted :: u64
  lt_net :: net
  lt_objects :: "u64 \<Rightarrow> loginc option"
  lt_loginQueue :: "new_server ringbuf"
  lt_mainQueue :: "unit ringbuf"
  lt_csQueue :: "login_auth ringbuf"
  lt_dbQueue :: "login_query db_query ringbuf"
  lt_random :: "u8 list"
  lt_unixTime :: u64
  lt_des :: "u8 list \<Rightarrow> u8 list"
  lt_pbkdf2 :: "u8 list \<Rightarrow> u8 list \<Rightarrow> u8 list"

definition random_bytes :: "nat \<Rightarrow> login \<Rightarrow> u8 list \<times> login" where
  "random_bytes n lt = (take n (lt_random lt @ replicate n 0), lt\<lparr>lt_random := drop n (lt_random lt)\<rparr>)"

text \<open>The cipher works on blocks of 8 bytes, so the length is rounded up; reading behind the input or writing
  behind the output is undefined.\<close>

definition login_crypto_process :: "(u8 list \<Rightarrow> u8 list) \<Rightarrow> u8 list \<Rightarrow> nat \<Rightarrow> u8 list option" where
  "login_crypto_process des input outSize =
     (let length = length input; rem = length mod 8; length = (if rem \<noteq> 0 then length + (8 - rem) else length)
      in if length > List.length input \<or> length > outSize then None else Some (des input))"

definition login_crypto_hash :: "(u8 list \<Rightarrow> u8 list \<Rightarrow> u8 list) \<Rightarrow> u8 list \<Rightarrow> u8 list \<Rightarrow> u8 list" where
  "login_crypto_hash pbkdf2 password salt = pbkdf2 password salt"

end
