(* ===== verification/Zeq_Login.thy ===== *)
theory Zeq_Login
  imports Zeq_LoginState
begin

text \<open>
  The functions of \<open>src/login_client.c\<close> and the handlers of \<open>src/login_thread.c\<close>. A result \<open>None\<close> is
  undefined behaviour. Log messages are left out.
\<close>

section \<open>Shared parts\<close>

definition lt_upd_client :: "login \<Rightarrow> u64 \<Rightarrow> (loginc \<Rightarrow> loginc) \<Rightarrow> login option" where
  "lt_upd_client lt c f = map_option (\<lambda>client. lt\<lparr>lt_objects := (lt_objects lt)(c \<mapsto> f client)\<rparr>) (lt_objects lt c)"

definition lt_new_packet :: "(u8 list option \<Rightarrow> tlg_packet option option) \<Rightarrow> login \<Rightarrow> (u64 \<times> login) option" where
  "lt_new_packet build lt = map_option (\<lambda>(p, net). (p, lt\<lparr>lt_net := net\<rparr>)) (new_packet build (lt_net lt))"

definition lt_new_string :: "u8 list \<Rightarrow> u32 \<Rightarrow> login \<Rightarrow> u64 \<times> login" where
  "lt_new_string bytes len lt = (let (s, net) = net_new_string bytes len (lt_net lt) in (s, lt\<lparr>lt_net := net\<rparr>))"

definition lt_strings :: "login \<Rightarrow> sheap" where "lt_strings lt = nt_strings (lt_net lt)"

text \<open>The string that a pointer refers to; reading through \<open>NULL\<close> is undefined.\<close>

definition lt_read_string :: "login \<Rightarrow> u64 \<Rightarrow> sbuf option" where
  "lt_read_string lt s = (if s = 0 then None else lt_strings lt s)"

definition lt_set_strings :: "sheap \<Rightarrow> login \<Rightarrow> login" where
  "lt_set_strings h lt = lt\<lparr>lt_net := (lt_net lt)\<lparr>nt_strings := h\<rparr>\<rparr>"

definition lt_drop_string :: "u64 \<Rightarrow> login \<Rightarrow> login" where
  "lt_drop_string s lt = lt_set_strings (sbuf_drop (lt_strings lt) s) lt"

definition lt_query_db :: "int \<Rightarrow> login_query \<Rightarrow> login \<Rightarrow> (zerr \<times> login) option" where
  "lt_query_db zop q lt =
     map_option (\<lambda>(rc, rb). (rc, lt\<lparr>lt_nextQueryId := lt_nextQueryId lt + 1, lt_dbQueue := rb\<rparr>))
       (db_queue_query (lt_dbQueue lt) (lt_dbId lt) (lt_nextQueryId lt) zop q)"

section \<open>Clients\<close>

definition loginc_init :: "u8 list \<Rightarrow> u32 \<times> u16 \<Rightarrow> loginc" where
  "loginc_init memory ipAddress =
     \<lparr>lc_authState = LOGIN_AUTH_Initial, lc_isLocal = ip_is_local (fst ipAddress), lc_ipAddress = ipAddress,
      lc_accountStatus = ACCT_STATUS_Normal, lc_accountId = 0, lc_suspendedUntil = 0, lc_accountName = 0, lc_passwordTemp = 0,
      lc_sessionKey = memory\<rparr>"

definition loginc_sizeof :: u32 where "loginc_sizeof = 64"
definition loginc_get_ip_addr :: "loginc \<Rightarrow> u32 \<times> u16" where "loginc_get_ip_addr c = lc_ipAddress c"
definition loginc_get_ip :: "loginc \<Rightarrow> u32" where "loginc_get_ip c = fst (lc_ipAddress c)"
definition loginc_get_port :: "loginc \<Rightarrow> u16" where "loginc_get_port c = snd (lc_ipAddress c)"
definition loginc_get_account_id :: "loginc \<Rightarrow> u64" where "loginc_get_account_id c = lc_accountId c"
definition loginc_is_authorized :: "loginc \<Rightarrow> bool" where "loginc_is_authorized c \<longleftrightarrow> lc_authState c = LOGIN_AUTH_Authorized"
definition loginc_is_local :: "loginc \<Rightarrow> bool" where "loginc_is_local c = lc_isLocal c"
definition loginc_get_account_name :: "loginc \<Rightarrow> u64" where "loginc_get_account_name c = lc_accountName c"
definition loginc_get_password :: "loginc \<Rightarrow> u64" where "loginc_get_password c = lc_passwordTemp c"
definition loginc_get_session_key :: "loginc \<Rightarrow> u8 list" where "loginc_get_session_key c = lc_sessionKey c"

definition loginc_account_status :: "loginc \<Rightarrow> u64 \<Rightarrow> u32" where
  "loginc_account_status c unixTime = (if unixTime <s lc_suspendedUntil c then ACCT_STATUS_Suspended else lc_accountStatus c)"

definition loginc_schedule_packet :: "u64 \<Rightarrow> u64 \<Rightarrow> login \<Rightarrow> (zerr \<times> login) option" where
  "loginc_schedule_packet c packet lt =
     Option.bind (lt_objects lt c) (\<lambda>client.
       map_option (\<lambda>(rc, net). (rc, lt\<lparr>lt_net := net\<rparr>)) (net_schedule (lc_ipAddress client) packet (lt_net lt)))"

definition loginc_clear_password :: "u64 \<Rightarrow> login \<Rightarrow> login option" where
  "loginc_clear_password c lt =
     Option.bind (lt_objects lt c) (\<lambda>client.
       lt_upd_client (lt_drop_string (lc_passwordTemp client) (lt_set_strings (sbuf_zero_fill (lt_strings lt) (lc_passwordTemp client)) lt))
         c (\<lambda>client. client\<lparr>lc_passwordTemp := 0\<rparr>))"

definition loginc_destroy :: "u64 \<Rightarrow> login \<Rightarrow> login option" where
  "loginc_destroy c lt =
     (if c = 0 then Some lt
      else do {
        client \<leftarrow> lt_objects lt c;
        lt \<leftarrow> loginc_clear_password c (lt_drop_string (lc_accountName client) lt);
        Some (lt\<lparr>lt_objects := (lt_objects lt)(c := None)\<rparr>)
      })"

definition loginc_handle_op_version :: "u64 \<Rightarrow> u64 \<Rightarrow> login \<Rightarrow> (zerr \<times> login) option" where
  "loginc_handle_op_version c packet lt =
     do {
       (rc, lt) \<leftarrow> loginc_schedule_packet c packet lt;
       if rc = ERR_None
       then map_option (Pair rc) (lt_upd_client lt c (\<lambda>client.
              if lc_authState client <s LOGIN_AUTH_VersionSent then client\<lparr>lc_authState := LOGIN_AUTH_VersionSent\<rparr> else client))
       else Some (rc, lt)
     }"

text \<open>The username and the password are strings of at most 19 characters each, at the offsets of the struct.\<close>

definition loginc_handle_op_credentials :: "u64 \<Rightarrow> u8 list \<Rightarrow> login \<Rightarrow> (zerr \<times> login) option" where
  "loginc_handle_op_credentials c packet lt =
     do {
       client \<leftarrow> lt_objects lt c;
       if lc_authState client <s LOGIN_AUTH_VersionSent \<or> length packet < struct_size PSLogin_Credentials then Some (ERR_Invalid, lt)
       else if lc_authState client = LOGIN_AUTH_ProcessingCredentials then Some (ERR_Again, lt)
       else do {
         decrypt \<leftarrow> login_crypto_process (lt_des lt) packet 64;
         let username = decrypt;
         let password = drop (sizeof_field PSLogin_Credentials ''username'') decrypt;
         let namelen = str_len_overflow username (int (sizeof_field PSLogin_Credentials ''username'') - 1);
         let passlen = str_len_overflow password (int (sizeof_field PSLogin_Credentials ''password'') - 1);
         if namelen \<le> 0 \<or> passlen \<le> 0 then Some (ERR_Invalid, lt)
         else do {
           let lt = lt_drop_string (lc_accountName client) lt;
           let (s, lt) = lt_new_string username (word_of_int namelen) lt;
           lt \<leftarrow> lt_upd_client lt c (\<lambda>client. client\<lparr>lc_accountName := s\<rparr>);
           if s = 0 then Some (ERR_OutOfMemory, lt)
           else do {
             lt \<leftarrow> loginc_clear_password c lt;
             let (s, lt) = lt_new_string password (word_of_int passlen) lt;
             lt \<leftarrow> lt_upd_client lt c (\<lambda>client. client\<lparr>lc_passwordTemp := s\<rparr>);
             if s = 0 then Some (ERR_OutOfMemory, lt)
             else map_option (Pair ERR_None) (lt_upd_client lt c (\<lambda>client. client\<lparr>lc_authState := LOGIN_AUTH_ProcessingCredentials\<rparr>))
           }
         }
       }
     }"

text \<open>\<open>%i\<close> takes the low 32 bits of the account number.\<close>

function decimal :: "nat \<Rightarrow> u8 list" where
  "decimal n = (if n < 10 then [48 + of_nat n] else decimal (n div 10) @ [48 + of_nat (n mod 10)])"
  by pat_completeness auto
termination
  by (relation "measure id") auto

declare decimal.simps [simp del]

definition format_int :: "u32 \<Rightarrow> u8 list" where
  "format_int v = (if v <s 0 then 45 # decimal (nat (- sint v)) else decimal (nat (sint v)))"

definition session_fields :: "u64 \<Rightarrow> field_writes" where
  "session_fields acctId =
     [([''sessionId''], [WText (sizeof_field PSLogin_Session ''sessionId'') (bytes_of ''LS#'' @ format_int (ucast acctId))]),
      ([''unused''], [WBuf (bytes_of ''unused'' @ [0])]), ([''unknown''], [W32 4])]"

definition loginc_send_session_packet :: "u64 \<Rightarrow> u64 \<Rightarrow> login \<Rightarrow> (zerr \<times> login) option" where
  "loginc_send_session_packet c acctId lt =
     do {
       (packet, lt) \<leftarrow> lt_new_packet (\<lambda>block. packet_write_struct block OP_LOGIN_Session PSLogin_Session (session_fields acctId)) lt;
       if packet = 0 then Some (ERR_OutOfMemory, lt)
       else do {
         lt \<leftarrow> lt_upd_client lt c (\<lambda>client. client\<lparr>lc_accountId := acctId, lc_authState := LOGIN_AUTH_Authorized\<rparr>);
         loginc_schedule_packet c packet lt
       }
     }"

text \<open>The result of the database: the account, its hash and salt, its status and until when it is suspended.\<close>

record db_credentials =
  dc_acctId :: u64
  dc_passwordHash :: "u8 list"
  dc_salt :: "u8 list"
  dc_status :: u32
  dc_suspendedUntil :: u64

definition loginc_handle_db_credentials :: "u64 \<Rightarrow> db_credentials \<Rightarrow> u64 \<Rightarrow> login \<Rightarrow> (zerr \<times> login) option" where
  "loginc_handle_db_credentials c r errPacket lt =
     do {
       client \<leftarrow> lt_objects lt c;
       let cred_err = map_option (\<lambda>(rc, lt). (ERR_Mismatch, lt)) (loginc_schedule_packet c errPacket lt);
       if lc_authState client \<noteq> LOGIN_AUTH_ProcessingCredentials then cred_err
       else do {
         password \<leftarrow> lt_read_string lt (lc_passwordTemp client);
         if login_crypto_hash (lt_pbkdf2 lt) (sb_bytes password) (dc_salt r) \<noteq> dc_passwordHash r then cred_err
         else do {
           lt \<leftarrow> lt_upd_client lt c (\<lambda>client. client\<lparr>lc_accountStatus := dc_status r, lc_suspendedUntil := dc_suspendedUntil r\<rparr>);
           lt \<leftarrow> loginc_clear_password c lt;
           loginc_send_session_packet c (dc_acctId r) lt
         }
       }
     }"

definition loginc_handle_op_banner :: "u64 \<Rightarrow> u64 \<Rightarrow> login \<Rightarrow> (zerr \<times> login) option" where
  "loginc_handle_op_banner c packet lt =
     Option.bind (lt_objects lt c) (\<lambda>client.
       if lc_authState client <s LOGIN_AUTH_Authorized then Some (ERR_Invalid, lt) else loginc_schedule_packet c packet lt)"

text \<open>The character at the remainder of each of 15 random bytes.\<close>

definition session_key_chars :: "u8 list" where
  "session_key_chars = bytes_of ''ABCDEFGHIJKLMNOPQRSTUVWXYZ0123456789''"

definition session_key_of :: "u8 list \<Rightarrow> u8 list" where
  "session_key_of r = map (\<lambda>b. session_key_chars ! (unat b mod length session_key_chars)) r @ [0]"

definition loginc_generate_session_key :: "u64 \<Rightarrow> login \<Rightarrow> login option" where
  "loginc_generate_session_key c lt =
     (let (r, lt) = random_bytes 15 lt
      in lt_upd_client lt c (\<lambda>client. client\<lparr>lc_sessionKey := session_key_of r\<rparr>))"

end
