(* ===== verification/Zeq_LoginThread.thy ===== *)
theory Zeq_LoginThread
  imports Zeq_Login
begin

text \<open>
  The handlers of \<open>src/login_thread.c\<close> and the loop over the messages of the thread. A result \<open>None\<close> is
  undefined behaviour. Log messages are left out.
\<close>

section \<open>Servers\<close>

definition lt_drop_server_strings :: "new_server \<Rightarrow> login \<Rightarrow> login" where
  "lt_drop_server_strings s lt =
     lt_drop_string (ns_localIpAddr s) (lt_drop_string (ns_remoteIpAddr s) (lt_drop_string (ns_serverName s) lt))"

text \<open>The lengths are stored in one byte each.\<close>

definition login_thread_handle_new_server :: "new_server \<Rightarrow> login \<Rightarrow> login option" where
  "login_thread_handle_new_server s lt =
     (let index = lt_serverCount lt;
          (servers, net) = net_grow \<lparr>ls_serverId = 0, ls_status = 0, ls_rank = 0, ls_isLocal = False, ls_playerCount = 0,
              ls_name = 0, ls_remoteIpAddr = 0, ls_localIpAddr = 0\<rparr> (lt_servers lt) index (lt_net lt);
          lt = lt\<lparr>lt_net := net\<rparr>
      in case servers of
           None \<Rightarrow> Some (lt_drop_server_strings s lt)
         | Some servers \<Rightarrow>
             let lt = lt\<lparr>lt_servers := servers\<rparr>;
                 (lengths, net) = net_grow \<lparr>ll_isLocal = False, ll_nameLength = 0, ll_remoteLength = 0, ll_localLength = 0\<rparr>
                     (lt_serverLengths lt) index (lt_net lt);
                 lt = lt\<lparr>lt_net := net\<rparr>
             in case lengths of
                  None \<Rightarrow> Some (lt_drop_server_strings s lt)
                | Some lengths \<Rightarrow>
                    do {
                      lengths \<leftarrow> arr_set lengths index
                        \<lparr>ll_isLocal = ns_isLocal s, ll_nameLength = ucast (sbuf_length (lt_strings lt) (ns_serverName s)),
                         ll_remoteLength = ucast (sbuf_length (lt_strings lt) (ns_remoteIpAddr s)),
                         ll_localLength = ucast (sbuf_length (lt_strings lt) (ns_localIpAddr s))\<rparr>;
                      servers \<leftarrow> arr_set servers index
                        \<lparr>ls_serverId = ns_serverId s, ls_status = ns_initialStatus s, ls_rank = ns_rank s, ls_isLocal = ns_isLocal s,
                         ls_playerCount = 0, ls_name = ns_serverName s, ls_remoteIpAddr = ns_remoteIpAddr s,
                         ls_localIpAddr = ns_localIpAddr s\<rparr>;
                      Some (lt\<lparr>lt_serverLengths := lengths, lt_servers := servers, lt_serverCount := index + 1\<rparr>)
                    })"

definition lt_server_list :: "login \<Rightarrow> login_server list" where
  "lt_server_list lt = take (unat (lt_serverCount lt)) (lt_servers lt)"

definition login_thread_calc_server_list_length :: "login \<Rightarrow> bool \<Rightarrow> u32" where
  "login_thread_calc_server_list_length lt isLocal =
     fold (\<lambda>l length. length + ucast (if isLocal \<and> ll_isLocal l then ll_localLength l else ll_remoteLength l)
              + ucast (ll_nameLength l) + of_nat (struct_size PSLogin_ServerFooter))
       (take (unat (lt_serverCount lt)) (lt_serverLengths lt))
       (of_nat (struct_size PSLogin_ServerListHeader + struct_size PSLogin_ServerListFooter))"

definition server_ops :: "sheap \<Rightarrow> bool \<Rightarrow> login_server \<Rightarrow> wop list" where
  "server_ops h isLocal s =
     [WBuf (sbuf_str h (ls_name s) @ [0]),
      WBuf (sbuf_str h (if isLocal \<and> ls_isLocal s then ls_localIpAddr s else ls_remoteIpAddr s) @ [0]),
      W8 (if ls_rank s \<noteq> LOGIN_SERVER_RANK_Standard then 1 else 0),
      W32 (if ls_status s = LOGIN_SERVER_STATUS_Down then LOGIN_THREAD_SERVER_DOWN
           else if ls_status s = LOGIN_SERVER_STATUS_Locked then LOGIN_THREAD_SERVER_LOCKED
           else ls_playerCount s)]"

definition login_thread_write_server_list :: "login \<Rightarrow> bool \<Rightarrow> wop list" where
  "login_thread_write_server_list lt isLocal =
     [W8 (ucast (lt_serverCount lt)), WZeroes 2, W8 0xff]
     @ concat (map (server_ops (lt_strings lt) isLocal) (lt_server_list lt))
     @ [W8 0, WZeroes 8, W8 1, W8 1, WZeroes 12]"

section \<open>Clients\<close>

definition login_thread_is_client_valid :: "login \<Rightarrow> u64 \<Rightarrow> bool" where
  "login_thread_is_client_valid lt c \<longleftrightarrow> c \<noteq> 0 \<and> c \<in> set (take (unat (lt_clientCount lt)) (lt_clients lt))"

definition login_thread_remove_client_object :: "u64 \<Rightarrow> login \<Rightarrow> login option" where
  "login_thread_remove_client_object c lt =
     (if c = 0 then Some lt
      else let n = lt_clientCount lt
           in loginc_destroy c
                (case first_index (\<lambda>d. d = c) (take (unat n) (lt_clients lt)) of
                   None \<Rightarrow> lt
                 | Some i \<Rightarrow> lt\<lparr>lt_clientCount := n - 1, lt_clients := swap_pop (lt_clients lt) i (n - 1)\<rparr>))"

definition login_thread_drop_client :: "u64 \<Rightarrow> login \<Rightarrow> (bool \<times> login) option" where
  "login_thread_drop_client c lt =
     Option.bind (lt_objects lt c) (\<lambda>client.
       map_option (\<lambda>(rc, net). (rc = ERR_None, lt\<lparr>lt_net := net\<rparr>))
         (net_address_command ZOP_UDP_DropClient (loginc_get_ip_addr client) (lt_net lt)))"

definition lt_drop :: "u64 \<Rightarrow> login \<Rightarrow> login option" where
  "lt_drop c lt = map_option snd (login_thread_drop_client c lt)"

definition login_thread_handle_new_client :: "u64 \<Rightarrow> u32 \<times> u16 \<Rightarrow> u8 list \<Rightarrow> login \<Rightarrow> login option" where
  "login_thread_handle_new_client c ipAddress memory lt =
     (let lt = lt\<lparr>lt_objects := (lt_objects lt)(c \<mapsto> loginc_init memory ipAddress)\<rparr>;
          index = lt_clientCount lt;
          (clients, net) = net_grow 0 (lt_clients lt) index (lt_net lt);
          lt = lt\<lparr>lt_net := net\<rparr>
      in case clients of
           None \<Rightarrow> do {
             (dropped, lt) \<leftarrow> login_thread_drop_client c lt;
             if \<not> dropped then loginc_destroy c lt else Some lt
           }
         | Some clients \<Rightarrow>
             map_option (\<lambda>clients. lt\<lparr>lt_clients := clients, lt_clientCount := index + 1\<rparr>) (arr_set clients index c))"

definition login_thread_handle_op_credentials :: "u64 \<Rightarrow> u8 list \<Rightarrow> login \<Rightarrow> (zerr \<times> login) option" where
  "login_thread_handle_op_credentials c packet lt =
     do {
       (rc, lt) \<leftarrow> loginc_handle_op_credentials c packet lt;
       if rc = ERR_Again then Some (ERR_None, lt)
       else if rc \<noteq> ERR_None
       then map_option (\<lambda>(rc', lt). (rc, lt)) (loginc_schedule_packet c (lt_packetErrBadCredentials lt) lt)
       else do {
         client \<leftarrow> lt_objects lt c;
         let acctName = loginc_get_account_name client;
         let lt = lt_set_strings (sbuf_grab (lt_strings lt) acctName) lt;
         (rc, lt) \<leftarrow> lt_query_db ZOP_DB_QueryLoginCredentials (QLoginCredentials c acctName) lt;
         Some (rc, if rc \<noteq> ERR_None then lt_drop_string acctName lt else lt)
       }
     }"

definition login_thread_account_auto_create :: "u64 \<Rightarrow> login \<Rightarrow> (bool \<times> login) option" where
  "login_thread_account_auto_create c lt =
     do {
       client \<leftarrow> lt_objects lt c;
       password \<leftarrow> lt_read_string lt (loginc_get_password client);
       let (salt, lt) = random_bytes LOGIN_CRYPTO_SALT_SIZE lt;
       let passwordHash = login_crypto_hash (lt_pbkdf2 lt) (sb_bytes password) salt;
       lt \<leftarrow> loginc_clear_password c lt;
       let accountName = loginc_get_account_name client;
       let lt = lt_set_strings (sbuf_grab (lt_strings lt) accountName) lt;
       (rc, lt) \<leftarrow> lt_query_db ZOP_DB_QueryLoginNewAccount (QLoginNewAccount c accountName passwordHash salt) lt;
       Some (rc = ERR_None, if rc \<noteq> ERR_None then lt_drop_string accountName lt else lt)
     }"

section \<open>Results of the database\<close>

definition login_thread_check_db_error :: "login \<Rightarrow> u64 \<Rightarrow> bool \<Rightarrow> bool \<Rightarrow> zerr" where
  "login_thread_check_db_error lt c hadErrorUnprocessed hadError =
     (if hadErrorUnprocessed then ERR_Invalid
      else if \<not> login_thread_is_client_valid lt c then ERR_Invalid
      else if hadError then ERR_Generic
      else ERR_None)"

definition login_thread_handle_db_login_credentials :: "u64 \<Rightarrow> db_credentials \<Rightarrow> bool \<Rightarrow> bool \<Rightarrow> login \<Rightarrow> login option" where
  "login_thread_handle_db_login_credentials c r hadErrorUnprocessed hadError lt =
     (let rc = login_thread_check_db_error lt c hadErrorUnprocessed hadError
      in if rc = ERR_Invalid then Some lt
         else if rc = ERR_Generic then lt_drop c lt
         else if dc_acctId r <s 0
         then do {
           (created, lt) \<leftarrow> login_thread_account_auto_create c lt;
           if created then Some lt
           else do {
             (rc, lt) \<leftarrow> loginc_schedule_packet c (lt_packetErrBadCredentials lt) lt;
             lt_drop c lt
           }
         }
         else do {
           (rc, lt) \<leftarrow> loginc_handle_db_credentials c r (lt_packetErrBadCredentials lt) lt;
           if rc \<noteq> ERR_None then lt_drop c lt else Some lt
         })"

definition login_thread_handle_db_new_account :: "u64 \<Rightarrow> u64 \<Rightarrow> bool \<Rightarrow> bool \<Rightarrow> login \<Rightarrow> login option" where
  "login_thread_handle_db_new_account c acctId hadErrorUnprocessed hadError lt =
     (let rc = login_thread_check_db_error lt c hadErrorUnprocessed hadError
      in if rc = ERR_Invalid then Some lt
         else if rc = ERR_Generic then lt_drop c lt
         else do {
           (rc, lt) \<leftarrow> loginc_send_session_packet c acctId lt;
           if rc \<noteq> ERR_None then lt_drop c lt else Some lt
         })"

section \<open>Requests of an authorized client\<close>

definition login_thread_handle_op_server_list :: "u64 \<Rightarrow> login \<Rightarrow> (zerr \<times> login) option" where
  "login_thread_handle_op_server_list c lt =
     do {
       client \<leftarrow> lt_objects lt c;
       if \<not> loginc_is_authorized client then Some (ERR_Invalid, lt)
       else do {
         let isLocal = loginc_is_local client;
         (packet, lt) \<leftarrow> lt_new_packet (\<lambda>block. packet_write block OP_LOGIN_ServerList (login_thread_calc_server_list_length lt isLocal)
             (login_thread_write_server_list lt isLocal)) lt;
         if packet = 0 then Some (ERR_OutOfMemory, lt) else loginc_schedule_packet c packet lt
       }
     }"

text \<open>An empty packet has no data.\<close>

definition login_thread_handle_op_server_status_request :: "u64 \<Rightarrow> u8 list \<Rightarrow> login \<Rightarrow> (zerr \<times> login) option" where
  "login_thread_handle_op_server_status_request c packet lt =
     do {
       client \<leftarrow> lt_objects lt c;
       if packet = [] \<or> \<not> loginc_is_authorized client then Some (ERR_Invalid, lt)
       else let status = loginc_account_status client (lt_unixTime lt)
            in loginc_schedule_packet c
                 (if status = ACCT_STATUS_Banned then lt_packetErrBanned lt
                  else if status = ACCT_STATUS_Suspended then lt_packetErrSuspended lt
                  else lt_packetLoginAccepted lt) lt
     }"

definition session_key_fields :: "u8 list \<Rightarrow> field_writes" where
  "session_key_fields key = [([''unknown''], [W8 0]), ([''sessionKey''], [WBuf key])]"

definition login_thread_handle_op_session_key :: "u64 \<Rightarrow> login \<Rightarrow> (zerr \<times> login) option" where
  "login_thread_handle_op_session_key c lt =
     do {
       client \<leftarrow> lt_objects lt c;
       if \<not> loginc_is_authorized client then Some (ERR_Invalid, lt)
       else do {
         let key = fst (random_bytes 15 lt);
         (packet, lt) \<leftarrow> lt_new_packet (\<lambda>block. packet_write_struct block OP_LOGIN_SessionKey PSLogin_SessionKey
             (session_key_fields (session_key_of key))) lt;
         if packet = 0 then Some (ERR_OutOfMemory, lt)
         else do {
           lt \<leftarrow> loginc_generate_session_key c lt;
           client \<leftarrow> lt_objects lt c;
           (rc, rb) \<leftarrow> ringbuf_push (lt_csQueue lt) ZOP_CS_LoginAuth
               (Some \<lparr>la_accountId = loginc_get_account_id client, la_ip = loginc_get_ip client,
                      la_sessionKey = loginc_get_session_key client\<rparr>);
           let lt = lt\<lparr>lt_csQueue := rb\<rparr>;
           if rc \<noteq> ERR_None then Some (rc, lt) else loginc_schedule_packet c packet lt
         }
       }
     }"

section \<open>The thread\<close>

definition lt_handle_opcode :: "u64 \<Rightarrow> u16 \<Rightarrow> u8 list \<Rightarrow> login \<Rightarrow> (zerr \<times> login) option" where
  "lt_handle_opcode c opcode packet lt =
     (if opcode = OP_LOGIN_Version then loginc_handle_op_version c (lt_packetVersion lt) lt
      else if opcode = OP_LOGIN_Credentials then login_thread_handle_op_credentials c packet lt
      else if opcode = OP_LOGIN_Banner then loginc_handle_op_banner c (lt_packetBanner lt) lt
      else if opcode = OP_LOGIN_ServerList then login_thread_handle_op_server_list c lt
      else if opcode = OP_LOGIN_ServerStatusRequest then login_thread_handle_op_server_status_request c packet lt
      else if opcode = OP_LOGIN_SessionKey then login_thread_handle_op_session_key c lt
      else if opcode = OP_LOGIN_Exit then map_option (Pair ERR_None) (lt_drop c lt)
      else Some (ERR_None, lt))"

definition login_thread_handle_packet :: "u64 \<Rightarrow> u16 \<Rightarrow> u8 list \<Rightarrow> login \<Rightarrow> login option" where
  "login_thread_handle_packet c opcode packet lt =
     Option.bind (lt_handle_opcode c opcode packet lt) (\<lambda>(rc, lt). if rc \<noteq> ERR_None then lt_drop c lt else Some lt)"

datatype lt_message =
    LtToServerPacket u64 u16 "u8 list"
  | LtNewClient u64 "u32 \<times> u16" "u8 list"
  | LtClientLinkdead u64
  | LtClientDisconnect u64
  | LtDbCredentials u64 db_credentials bool bool
  | LtDbNewAccount u64 u64 bool bool
  | LtTerminateThread
  | LtNewServer new_server
  | LtUnexpected int

fun lt_handle_message :: "lt_message \<Rightarrow> login \<Rightarrow> login option" where
  "lt_handle_message (LtToServerPacket c opcode packet) lt = login_thread_handle_packet c opcode packet lt"
| "lt_handle_message (LtNewClient c ipAddress memory) lt = login_thread_handle_new_client c ipAddress memory lt"
| "lt_handle_message (LtClientLinkdead c) lt = Some lt"
| "lt_handle_message (LtClientDisconnect c) lt = login_thread_remove_client_object c lt"
| "lt_handle_message (LtDbCredentials c r unprocessed err) lt = login_thread_handle_db_login_credentials c r unprocessed err lt"
| "lt_handle_message (LtDbNewAccount c acctId unprocessed err) lt = login_thread_handle_db_new_account c acctId unprocessed err lt"
| "lt_handle_message (LtNewServer s) lt = login_thread_handle_new_server s lt"
| "lt_handle_message LtTerminateThread lt = Some lt"
| "lt_handle_message (LtUnexpected zop) lt = Some lt"

definition login_thread_on_terminate :: "login \<Rightarrow> login option" where
  "login_thread_on_terminate lt =
     map_option (\<lambda>(rc, rb). lt\<lparr>lt_mainQueue := rb\<rparr>) (ringbuf_push (lt_mainQueue lt) ZOP_LOGIN_TerminateThread None)"

fun login_thread_proc :: "lt_message list \<Rightarrow> login \<Rightarrow> login option" where
  "login_thread_proc [] lt = Some lt"
| "login_thread_proc (m # ms) lt =
     (if m = LtTerminateThread then login_thread_on_terminate lt
      else Option.bind (lt_handle_message m lt) (login_thread_proc ms))"

section \<open>Creation and destruction\<close>

text \<open>\<open>sizeof\<close> of a literal counts its terminating \<open>NUL\<close>.\<close>

definition login_create_cached_packet_string :: "u16 \<Rightarrow> string \<Rightarrow> login \<Rightarrow> (u64 \<times> login) option" where
  "login_create_cached_packet_string opcode str lt =
     map_option (\<lambda>(p, lt). (p, if p = 0 then lt else lt\<lparr>lt_net := net_grab (lt_net lt) p\<rparr>))
       (lt_new_packet (\<lambda>block. packet_write block opcode (of_nat (length str + 1)) [WBuf (bytes_of str @ [0])]) lt)"

definition login_create_cached_packets :: "login \<Rightarrow> (zerr \<times> login) option" where
  "login_create_cached_packets lt =
     do {
       (p, lt) \<leftarrow> login_create_cached_packet_string OP_LOGIN_Version LOGIN_THREAD_VERSION_STRING lt;
       let lt = lt\<lparr>lt_packetVersion := p\<rparr>;
       if p = 0 then Some (ERR_OutOfMemory, lt) else do {
       (p, lt) \<leftarrow> login_create_cached_packet_string OP_LOGIN_Error LOGIN_THREAD_BAD_CREDENTIAL_STRING lt;
       let lt = lt\<lparr>lt_packetErrBadCredentials := p\<rparr>;
       if p = 0 then Some (ERR_OutOfMemory, lt) else do {
       (p, lt) \<leftarrow> login_create_cached_packet_string OP_LOGIN_Error LOGIN_THREAD_SUSPENDED_STRING lt;
       let lt = lt\<lparr>lt_packetErrSuspended := p\<rparr>;
       if p = 0 then Some (ERR_OutOfMemory, lt) else do {
       (p, lt) \<leftarrow> login_create_cached_packet_string OP_LOGIN_Error LOGIN_THREAD_BANNED_STRING lt;
       let lt = lt\<lparr>lt_packetErrBanned := p\<rparr>;
       if p = 0 then Some (ERR_OutOfMemory, lt) else do {
       (p, lt) \<leftarrow> lt_new_packet (\<lambda>block. packet_write block OP_LOGIN_Banner (of_nat (4 + length LOGIN_THREAD_DEFAULT_BANNER_MESSAGE + 1))
           [W32 1, WBuf (bytes_of LOGIN_THREAD_DEFAULT_BANNER_MESSAGE @ [0])]) lt;
       let lt = lt\<lparr>lt_packetBanner := p\<rparr>;
       if p = 0 then Some (ERR_OutOfMemory, lt) else do {
       let lt = lt\<lparr>lt_net := net_grab (lt_net lt) p\<rparr>;
       (p, lt) \<leftarrow> lt_new_packet (\<lambda>block. packet_write block OP_LOGIN_ServerStatusAccept 0 []) lt;
       let lt = lt\<lparr>lt_packetLoginAccepted := p\<rparr>;
       if p = 0 then Some (ERR_OutOfMemory, lt)
       else Some (ERR_None, lt\<lparr>lt_net := net_grab (lt_net lt) p\<rparr>) }}}}}
     }"

fun login_free_clients :: "u64 list \<Rightarrow> login \<Rightarrow> login option" where
  "login_free_clients [] lt = Some lt"
| "login_free_clients (c # cs) lt = Option.bind (loginc_destroy c lt) (login_free_clients cs)"

definition login_free_servers :: "login \<Rightarrow> login" where
  "login_free_servers lt =
     fold (\<lambda>s lt. lt_drop_string (ls_localIpAddr s) (lt_drop_string (ls_remoteIpAddr s) (lt_drop_string (ls_name s) lt)))
       (lt_server_list lt) lt"

definition login_destroy :: "login \<Rightarrow> net option" where
  "login_destroy lt =
     do {
       lt \<leftarrow> login_free_clients (take (unat (lt_clientCount lt)) (lt_clients lt)) lt;
       let lt = login_free_servers lt;
       let lt = lt_drop_string (lt_loopbackAddr lt) (lt_drop_string (lt_bannerMsg lt) lt);
       Some (fold (\<lambda>p net. net_drop net p)
         [lt_packetVersion lt, lt_packetBanner lt, lt_packetErrBadCredentials lt, lt_packetErrSuspended lt, lt_packetErrBanned lt,
          lt_packetLoginAccepted lt] (lt_net lt))
     }"

text \<open>The struct as \<open>login_create\<close> clears it and sets what does not come from other calls.\<close>

definition login_new ::
    "u32 \<Rightarrow> net \<Rightarrow> new_server ringbuf \<Rightarrow> unit ringbuf \<Rightarrow> login_auth ringbuf \<Rightarrow> login_query db_query ringbuf \<Rightarrow>
      (u8 list \<Rightarrow> u8 list) \<Rightarrow> (u8 list \<Rightarrow> u8 list \<Rightarrow> u8 list) \<Rightarrow> login" where
  "login_new dbId net loginQueue mainQueue csQueue dbQueue des pbkdf2 =
     \<lparr>lt_clientCount = 0, lt_serverCount = 0, lt_nextQueryId = 1, lt_nextServerId = 1, lt_dbId = dbId, lt_clients = [],
      lt_servers = [], lt_serverLengths = [], lt_bannerMsg = 0, lt_loopbackAddr = 0, lt_packetVersion = 0, lt_packetBanner = 0,
      lt_packetErrBadCredentials = 0, lt_packetErrSuspended = 0, lt_packetErrBanned = 0, lt_packetLoginAccepted = 0, lt_net = net,
      lt_objects = (\<lambda>_. None), lt_loginQueue = loginQueue, lt_mainQueue = mainQueue, lt_csQueue = csQueue, lt_dbQueue = dbQueue,
      lt_random = [], lt_unixTime = 0, lt_des = des, lt_pbkdf2 = pbkdf2\<rparr>"

text \<open>The creation from \<open>login_new\<close>, with whether the two allocations succeed, and what opening the log and
  starting the thread answer.\<close>

definition login_create :: "bool \<Rightarrow> zerr \<Rightarrow> bool \<Rightarrow> zerr \<Rightarrow> nat \<Rightarrow> login \<Rightarrow> (net + login) option" where
  "login_create alloc logged queueAlloc started queue lt =
     (let fail = (\<lambda>lt. map_option Inl (login_destroy lt))
      in if \<not> alloc then Some (Inl (lt_net lt))
         else if logged \<noteq> ERR_None \<or> \<not> queueAlloc then fail lt
         else do {
           (rc, udp) \<leftarrow> udp_open_port (nt_junk (lt_net lt)) (nt_udp (lt_net lt)) LOGIN_THREAD_UDP_PORT loginc_sizeof queue;
           let lt = lt\<lparr>lt_net := (lt_net lt)\<lparr>nt_udp := udp\<rparr>\<rparr>;
           if rc \<noteq> ERR_None then fail lt
           else do {
             let (s, lt) = lt_new_string (bytes_of ''127.0.0.1'') 9 lt;
             let lt = lt\<lparr>lt_loopbackAddr := s\<rparr>;
             if s = 0 then fail lt
             else do {
               (rc, lt) \<leftarrow> login_create_cached_packets lt;
               if rc \<noteq> ERR_None \<or> started \<noteq> ERR_None then fail lt else Some (Inr lt)
             }
           }
         })"

text \<open>Called by other threads: a server is announced to the thread. \<open>name\<close> is a C string, \<open>None\<close> for \<open>NULL\<close>.\<close>

definition login_add_server ::
    "u8 list option \<Rightarrow> u64 \<Rightarrow> u64 \<Rightarrow> u8 \<Rightarrow> u8 \<Rightarrow> bool \<Rightarrow> login \<Rightarrow> (zerr \<times> u32 option \<times> login) option" where
  "login_add_server name remoteIp localIp rank status isLocal lt =
     (case name of
        None \<Rightarrow> Some (ERR_Invalid, None, lt)
      | Some name \<Rightarrow>
          do {
            let serverId = lt_nextServerId lt;
            let lt = lt\<lparr>lt_nextServerId := serverId + 1\<rparr>;
            let (s, lt) = lt_new_string (cstr name) (of_nat (length (cstr name))) lt;
            let remote = (if remoteIp \<noteq> 0 then remoteIp else lt_loopbackAddr lt);
            let local = (if localIp \<noteq> 0 then localIp else lt_loopbackAddr lt);
            let lt = lt_set_strings (sbuf_grab (sbuf_grab (lt_strings lt) remote) local) lt;
            let server = \<lparr>ns_initialStatus = status, ns_rank = rank, ns_isLocal = isLocal, ns_serverId = serverId, ns_serverName = s,
                 ns_remoteIpAddr = remote, ns_localIpAddr = local\<rparr>;
            let fail = (\<lambda>rc lt. Some (rc, Some serverId, lt_drop_server_strings server lt));
            let tooLong = (\<lambda>s. sbuf_length (lt_strings lt) s > 255);
            if s = 0 \<or> remote = 0 \<or> local = 0 then fail ERR_OutOfMemory lt
            else if tooLong s \<or> tooLong remote \<or> tooLong local then fail ERR_OutOfBounds lt
            else do {
              (rc, rb) \<leftarrow> ringbuf_push (lt_loginQueue lt) ZOP_LOGIN_NewServer (Some server);
              let lt = lt\<lparr>lt_loginQueue := rb\<rparr>;
              if rc \<noteq> ERR_None then fail rc lt else Some (rc, Some serverId, lt)
            }
          })"

end
