(* ===== verification/Zeq_LoginProps.thy ===== *)
theory Zeq_LoginProps
  imports Zeq_LoginThread
begin

text \<open>
  Whom the login thread authorizes and whom it announces to the thread of the character selection. What
  each handler may bring about is a relation between the states before and after it; over the messages
  of a run these add up to the evidence that a client has since it connected. The queues are not drained
  by their other ends during a run.
\<close>

section \<open>What the handlers do\<close>

text \<open>What a handler may bring about: an account for a client, a password stored for it, a query to create an account.\<close>

datatype lt_grant = Account u64 u64 | Password u64 | Creation login_query

fun creates :: "login_query \<Rightarrow> bool" where
  "creates (QLoginNewAccount c name hash salt) = True"
| "creates (QLoginCredentials c name) = False"

text \<open>The queries that wait for the database, in the order they were put on its queue.\<close>

definition lt_queries :: "login \<Rightarrow> login_query list" where
  "lt_queries lt = map (\<lambda>(zop, q). dq_query q) (rb_contents (lt_dbQueue lt))"

text \<open>From \<open>lt\<close> to \<open>lt'\<close> no client appears or changes its address, nothing is announced, no client becomes
  authorized, no password is stored and no creation of an account is asked for, but for what is in \<open>G\<close>.\<close>

definition client_rel :: "lt_grant set \<Rightarrow> u64 \<Rightarrow> loginc \<Rightarrow> loginc \<Rightarrow> bool" where
  "client_rel G c client client' \<longleftrightarrow> lc_ipAddress client' = lc_ipAddress client
     \<and> (loginc_is_authorized client' \<longrightarrow>
          loginc_is_authorized client \<and> lc_accountId client' = lc_accountId client \<or> Account c (lc_accountId client') \<in> G)
     \<and> (lc_passwordTemp client' \<noteq> 0 \<longrightarrow> lc_passwordTemp client \<noteq> 0 \<or> Password c \<in> G)"

definition queue_rel :: "lt_grant set \<Rightarrow> login \<Rightarrow> login \<Rightarrow> bool" where
  "queue_rel G lt lt' \<longleftrightarrow> (rb_inv (lt_dbQueue lt) \<longrightarrow> rb_inv (lt_dbQueue lt')
     \<and> (\<exists>qs. lt_queries lt' = lt_queries lt @ qs \<and> (\<forall>q \<in> set qs. creates q \<longrightarrow> Creation q \<in> G)))"

definition lt_rel :: "lt_grant set \<Rightarrow> login \<Rightarrow> login \<Rightarrow> bool" where
  "lt_rel G lt lt' \<longleftrightarrow> lt_csQueue lt' = lt_csQueue lt \<and> queue_rel G lt lt'
     \<and> (\<forall>c client'. lt_objects lt' c = Some client' \<longrightarrow> (\<exists>client. lt_objects lt c = Some client \<and> client_rel G c client client'))"

lemma client_rel_refl [simp]: "client_rel G c client client" by (simp add: client_rel_def)

lemma client_rel_trans: "client_rel G c x y \<Longrightarrow> client_rel G c y z \<Longrightarrow> client_rel G c x z"
  unfolding client_rel_def by metis

lemma queue_rel_same: "lt_dbQueue lt' = lt_dbQueue lt \<Longrightarrow> queue_rel G lt lt'"
  by (auto simp: queue_rel_def lt_queries_def)

lemma queue_rel_trans:
  assumes "queue_rel G a b" "queue_rel G b c"
  shows "queue_rel G a c"
  unfolding queue_rel_def
proof
  assume "rb_inv (lt_dbQueue a)"
  then obtain qs rs where "rb_inv (lt_dbQueue c)" "lt_queries b = lt_queries a @ qs" "\<forall>q \<in> set qs. creates q \<longrightarrow> Creation q \<in> G"
    "lt_queries c = lt_queries b @ rs" "\<forall>q \<in> set rs. creates q \<longrightarrow> Creation q \<in> G"
    using assms unfolding queue_rel_def by blast
  then show "rb_inv (lt_dbQueue c) \<and> (\<exists>qs. lt_queries c = lt_queries a @ qs \<and> (\<forall>q \<in> set qs. creates q \<longrightarrow> Creation q \<in> G))"
    by (auto intro!: exI [of _ "qs @ rs"])
qed

lemma lt_rel_refl [simp]: "lt_rel G lt lt" by (auto simp: lt_rel_def queue_rel_same)

lemma lt_rel_trans: "lt_rel G a b \<Longrightarrow> lt_rel G b c \<Longrightarrow> lt_rel G a c"
  unfolding lt_rel_def by (metis queue_rel_trans client_rel_trans)

lemma lt_rel_mono: "lt_rel {} a b \<Longrightarrow> lt_rel G a b"
  unfolding lt_rel_def queue_rel_def client_rel_def by fastforce

definition guards :: "lt_grant set \<Rightarrow> login \<Rightarrow> login option \<Rightarrow> bool" where
  "guards G a r \<longleftrightarrow> (\<forall>lt. r = Some lt \<longrightarrow> lt_rel G a lt)"

definition guards_with :: "lt_grant set \<Rightarrow> login \<Rightarrow> ('x \<times> login) option \<Rightarrow> bool" where
  "guards_with G a r \<longleftrightarrow> (\<forall>x lt. r = Some (x, lt) \<longrightarrow> lt_rel G a lt)"

lemma guards_Some [simp]:
  "guards G a (Some lt) = lt_rel G a lt" "guards_with G a (Some (x, lt)) = lt_rel G a lt" "guards G a None" "guards_with G a None"
  by (auto simp: guards_def guards_with_def)

lemma guards_bind:
  "guards_with G a m \<Longrightarrow> (\<And>x lt. lt_rel G a lt \<Longrightarrow> guards G a (f (x, lt))) \<Longrightarrow> guards G a (Option.bind m f)"
  "guards_with G a m \<Longrightarrow> (\<And>x lt. lt_rel G a lt \<Longrightarrow> guards_with G a (g (x, lt))) \<Longrightarrow> guards_with G a (Option.bind m g)"
  "guards G a k \<Longrightarrow> (\<And>lt. lt_rel G a lt \<Longrightarrow> guards G a (h lt)) \<Longrightarrow> guards G a (Option.bind k h)"
  "guards G a k \<Longrightarrow> (\<And>lt. lt_rel G a lt \<Longrightarrow> guards_with G a (j lt)) \<Longrightarrow> guards_with G a (Option.bind k j)"
  by (auto simp: guards_def guards_with_def bind_eq_Some_conv)

lemma guards_read:
  "(\<And>x. guards G a (f x)) \<Longrightarrow> guards G a (Option.bind r f)"
  "(\<And>x. guards_with G a (g x)) \<Longrightarrow> guards_with G a (Option.bind r g)"
  "(\<And>x. lt_rel G a (h x)) \<Longrightarrow> guards G a (map_option h r)"
  by (auto simp: guards_def guards_with_def bind_eq_Some_conv)

lemmas guards_reads =
  guards_read [where r = "r :: loginc option" for r] guards_read [where r = "r :: 'x list option" for r]
  guards_read [where r = "r :: sbuf option" for r]

lemma guards_map:
  "guards G a k \<Longrightarrow> guards_with G a (map_option (Pair x) k)"
  "guards_with G a m \<Longrightarrow> (\<And>x lt. lt_rel G a (snd (g (x, lt))) = lt_rel G a lt) \<Longrightarrow> guards_with G a (map_option g m)"
  "guards_with G a m \<Longrightarrow> guards G a (map_option snd m)"
  by (auto simp: guards_def guards_with_def, metis snd_conv)

lemma guards_if:
  "(b \<Longrightarrow> guards G a x) \<Longrightarrow> (\<not> b \<Longrightarrow> guards G a y) \<Longrightarrow> guards G a (if b then x else y)"
  "(b \<Longrightarrow> guards_with G a u) \<Longrightarrow> (\<not> b \<Longrightarrow> guards_with G a v) \<Longrightarrow> guards_with G a (if b then u else v)"
  by simp_all

lemmas guards_rules = guards_bind guards_reads guards_map guards_if

lemma lt_rel_upd [simp]:
  "lt_rel G a (lt\<lparr>lt_net := n\<rparr>) = lt_rel G a lt"
  "lt_rel G a (lt\<lparr>lt_mainQueue := mq\<rparr>) = lt_rel G a lt" "lt_rel G a (lt\<lparr>lt_nextQueryId := i\<rparr>) = lt_rel G a lt"
  "lt_rel G a (lt\<lparr>lt_clients := cl\<rparr>) = lt_rel G a lt" "lt_rel G a (lt\<lparr>lt_clientCount := k\<rparr>) = lt_rel G a lt"
  "lt_rel G a (lt\<lparr>lt_servers := sv\<rparr>) = lt_rel G a lt" "lt_rel G a (lt\<lparr>lt_serverLengths := sl\<rparr>) = lt_rel G a lt"
  "lt_rel G a (lt\<lparr>lt_serverCount := k\<rparr>) = lt_rel G a lt" "lt_rel G a (lt\<lparr>lt_random := rd\<rparr>) = lt_rel G a lt"
  "lt_rel G a (lt_set_strings h lt) = lt_rel G a lt" "lt_rel G a (lt_drop_string s lt) = lt_rel G a lt"
  "lt_rel G a (snd (lt_new_string bs sz lt)) = lt_rel G a lt" "lt_rel G a (snd (random_bytes len lt)) = lt_rel G a lt"
  by (simp_all add: lt_rel_def queue_rel_def lt_queries_def lt_set_strings_def lt_drop_string_def lt_new_string_def random_bytes_def split: prod.split)

named_theorems guard

lemma guards_upd_client:
  assumes "lt_rel G a lt" "\<And>client. client_rel G c client (f client)"
  shows "guards G a (lt_upd_client lt c f)"
proof -
  have "lt_rel G lt lt'" if "lt_upd_client lt c f = Some lt'" for lt'
  proof -
    obtain z where "lt_objects lt c = Some z" "lt' = lt\<lparr>lt_objects := (lt_objects lt)(c \<mapsto> f z)\<rparr>"
      using \<open>lt_upd_client lt c f = Some lt'\<close> by (auto simp: lt_upd_client_def)
    then show ?thesis using assms(2) [of z] by (auto simp: lt_rel_def queue_rel_same)
  qed
  then show ?thesis using lt_rel_trans [OF assms(1)] by (simp add: guards_def)
qed

lemma guards_updates [guard]:
  assumes "lt_rel G a lt"
  shows "guards G a (lt_upd_client lt c (\<lambda>client. client\<lparr>lc_accountName := s\<rparr>))"
    "guards G a (lt_upd_client lt c (\<lambda>client. client\<lparr>lc_passwordTemp := 0\<rparr>))"
    "Password c \<in> G \<Longrightarrow> guards G a (lt_upd_client lt c (\<lambda>client. client\<lparr>lc_passwordTemp := s\<rparr>))"
    "guards G a (lt_upd_client lt c (\<lambda>client. client\<lparr>lc_sessionKey := key\<rparr>))"
    "guards G a (lt_upd_client lt c (\<lambda>client. client\<lparr>lc_accountStatus := st, lc_suspendedUntil := until\<rparr>))"
    "guards G a (lt_upd_client lt c (\<lambda>client. client\<lparr>lc_authState := LOGIN_AUTH_ProcessingCredentials\<rparr>))"
    "guards G a (lt_upd_client lt c (\<lambda>client.
       if lc_authState client <s LOGIN_AUTH_VersionSent then client\<lparr>lc_authState := LOGIN_AUTH_VersionSent\<rparr> else client))"
    "Account c acct \<in> G \<Longrightarrow> guards G a (lt_upd_client lt c (\<lambda>client. client\<lparr>lc_accountId := acct, lc_authState := LOGIN_AUTH_Authorized\<rparr>))"
  by (rule guards_upd_client [OF assms]; simp add: client_rel_def loginc_is_authorized_def login_auth_states)+

lemma guards_query [guard]:
  assumes "lt_rel G a lt" "creates q \<Longrightarrow> Creation q \<in> G"
  shows "guards_with G a (lt_query_db zop q lt)"
proof -
  have "lt_rel G lt (lt\<lparr>lt_nextQueryId := i, lt_dbQueue := rb\<rparr>)"
    if "db_queue_query (lt_dbQueue lt) d j zop q = Some (rc, rb)" for i d j rc rb
  proof -
    have "rb_inv rb \<and> (\<exists>qs. map (\<lambda>(zop, q). dq_query q) (rb_contents rb) = lt_queries lt @ qs \<and> (\<forall>r \<in> set qs. r = q))"
      if inv: "rb_inv (lt_dbQueue lt)"
      by (rule ringbuf_push_ok [OF inv, of zop "\<lparr>dq_dbId = d, dq_queryId = j, dq_zop = zop, dq_query = q\<rparr>"])
        (use \<open>db_queue_query _ _ _ _ _ = _\<close> inv in \<open>auto simp: db_queue_query_def lt_queries_def\<close>)
    then show ?thesis using assms(2) by (auto simp: lt_rel_def queue_rel_def lt_queries_def)
  qed
  then show ?thesis using lt_rel_trans [OF assms(1)] by (auto simp: lt_query_db_def guards_with_def)
qed

lemma guards_calls [guard]:
  assumes "lt_rel G a lt"
  shows "guards_with G a (loginc_schedule_packet c p lt)" "guards G a (lt_drop c lt)" "guards_with G a (lt_new_packet b lt)"
    "guards_with G a (login_thread_drop_client c lt)"
  using assms
  by (auto simp: loginc_schedule_packet_def lt_drop_def login_thread_drop_client_def lt_new_packet_def guards_def
      guards_with_def bind_eq_Some_conv)

lemma guards_clear_password [guard]:
  assumes "lt_rel G a lt"
  shows "guards G a (loginc_clear_password c lt)"
  unfolding loginc_clear_password_def by (intro guards_reads guard) (simp add: assms)

lemma guards_destroy [guard]:
  assumes "lt_rel G a lt"
  shows "guards G a (loginc_destroy c lt)"
proof -
  have "lt_rel G a (lt'\<lparr>lt_objects := (lt_objects lt')(c := None)\<rparr>)" if "lt_rel G a lt'" for lt'
    using that by (auto simp: lt_rel_def queue_rel_def lt_queries_def)
  then show ?thesis using assms unfolding loginc_destroy_def by (auto intro!: guards_rules guard)
qed

lemma guards_send_session [guard]:
  assumes "lt_rel G a lt" "Account c acct \<in> G"
  shows "guards_with G a (loginc_send_session_packet c acct lt)"
  unfolding loginc_send_session_packet_def using assms by (auto intro!: guards_rules guard)

section \<open>Handlers that authorize nobody\<close>

lemma guards_op_credentials [guard]: "guards_with {Password c} a (loginc_handle_op_credentials c packet a)"
proof -
  have bytes: "guards_with {Password c} a (Option.bind (login_crypto_process des packet n) g)"
    if "\<And>x. guards_with {Password c} a (g x)" for des n g
    using that by (auto simp: guards_with_def bind_eq_Some_conv)
  show ?thesis unfolding loginc_handle_op_credentials_def Let_def split_beta
    by (auto intro!: bytes guards_rules guard)
qed

lemma guards_requests [guard]:
  "guards_with {} a (loginc_handle_op_version c p a)" "guards_with {} a (loginc_handle_op_banner c p a)"
  "guards_with {Password c} a (login_thread_handle_op_credentials c packet a)" "guards_with {} a (login_thread_handle_op_server_list c a)"
  "guards_with {} a (login_thread_handle_op_server_status_request c packet a)"
  unfolding loginc_handle_op_version_def loginc_handle_op_banner_def login_thread_handle_op_credentials_def
    login_thread_handle_op_server_list_def login_thread_handle_op_server_status_request_def Let_def
  by (auto intro!: guards_rules guard)

lemma guards_new_server [guard]: "guards {} a (login_thread_handle_new_server s a)"
  unfolding login_thread_handle_new_server_def Let_def lt_drop_server_strings_def
  by (auto intro!: guards_rules guard split: prod.split option.split)

lemma guards_remove [guard]: "guards {} a (login_thread_remove_client_object c a)"
  unfolding login_thread_remove_client_object_def Let_def
  by (auto intro!: guard split: option.split)

text \<open>The creation that the client may have asked for with its name and the hash of its password.\<close>

definition asks :: "u64 \<Rightarrow> login \<Rightarrow> login_query set" where
  "asks c lt = {QLoginNewAccount c (lc_accountName client) (login_crypto_hash (lt_pbkdf2 lt) (sb_bytes password) salt) salt | client password salt.
     lt_objects lt c = Some client \<and> lt_read_string lt (lc_passwordTemp client) = Some password}"

lemma guards_auto_create [guard]: "guards_with (Creation ` asks c a) a (login_thread_account_auto_create c a)"
proof (cases "lt_objects a c")
  case (Some client)
  show ?thesis
  proof (cases "lt_read_string a (lc_passwordTemp client)")
    case s: (Some password)
    have q: "QLoginNewAccount c (lc_accountName client) (login_crypto_hash (lt_pbkdf2 (snd (random_bytes n a))) (sb_bytes password) salt) salt \<in> asks c a"
      for n salt using Some s by (auto simp: asks_def random_bytes_def)
    show ?thesis unfolding login_thread_account_auto_create_def Let_def split_beta loginc_get_account_name_def loginc_get_password_def
      by (simp only: Some s bind.bind_lunit) (auto intro!: guards_rules guard q)
  qed (simp add: login_thread_account_auto_create_def loginc_get_password_def Some)
qed (simp add: login_thread_account_auto_create_def)

section \<open>Sessions\<close>

text \<open>
  An address names a client only from one connection to the next: the memory of a client that has gone may be
  given to another. What a client did is therefore what happened since the last message that a client
  connected at its address.
\<close>

fun connects :: "u64 \<Rightarrow> lt_message \<Rightarrow> bool" where
  "connects c (LtNewClient d ipAddress memory) \<longleftrightarrow> d = c"
| "connects c _ \<longleftrightarrow> False"

definition stays :: "u64 \<Rightarrow> lt_message list \<Rightarrow> bool" where
  "stays c ms \<longleftrightarrow> list_all (\<lambda>m. \<not> connects c m) ms"

text \<open>The messages since the client at \<open>c\<close> connected, and where it connected from.\<close>

definition since :: "u64 \<Rightarrow> lt_message list \<Rightarrow> lt_message list" where
  "since c ms = rev (takeWhile (\<lambda>m. \<not> connects c m) (rev ms))"

definition connected_from :: "u64 \<Rightarrow> lt_message list \<Rightarrow> (u32 \<times> u16) option" where
  "connected_from c ms = (case dropWhile (\<lambda>m. \<not> connects c m) (rev ms) of
     LtNewClient d ipAddress memory # _ \<Rightarrow> Some ipAddress | _ \<Rightarrow> None)"

lemma since_snoc: "since c (ms @ [m]) = (if connects c m then [] else since c ms @ [m])"
  by (simp add: since_def)

lemma connected_from_snoc:
  "connected_from c (ms @ [m]) = (case m of LtNewClient d ipAddress memory \<Rightarrow> if d = c then Some ipAddress else connected_from c ms
     | _ \<Rightarrow> connected_from c ms)"
  by (cases m) (simp_all add: connected_from_def)

text \<open>The client has sent credentials.\<close>

definition sent :: "u64 \<Rightarrow> lt_message list \<Rightarrow> bool" where
  "sent c ms \<longleftrightarrow> (\<exists>packet. LtToServerPacket c OP_LOGIN_Credentials packet \<in> set (since c ms))"

section \<open>Who is authorized\<close>

text \<open>The last of the messages is the answer of the database about credentials; the client had sent credentials,
  and the password stored for it then has the hash that the database has for the account.\<close>

definition password_checked :: "login \<Rightarrow> lt_message list \<Rightarrow> u64 \<Rightarrow> u64 \<Rightarrow> bool" where
  "password_checked lt0 ms c acct \<longleftrightarrow>
     (\<exists>before r lt client password. ms = before @ [LtDbCredentials c r False False] \<and> sent c before \<and> dc_acctId r = acct
       \<and> login_thread_proc before lt0 = Some lt \<and> lt_objects lt c = Some client
       \<and> lc_authState client = LOGIN_AUTH_ProcessingCredentials \<and> lt_read_string lt (lc_passwordTemp client) = Some password
       \<and> login_crypto_hash (lt_pbkdf2 lt) (sb_bytes password) (dc_salt r) = dc_passwordHash r)"

text \<open>The queries that the last of the messages made the thread put on the queue of the database.\<close>

definition new_queries :: "login \<Rightarrow> lt_message list \<Rightarrow> login_query set" where
  "new_queries lt0 ms = (case (login_thread_proc (butlast ms) lt0, login_thread_proc ms lt0) of
     (Some lt, Some lt') \<Rightarrow> set (drop (length (lt_queries lt)) (lt_queries lt')) | _ \<Rightarrow> {})"

text \<open>The last of the messages is the answer that there is no such account; the client had sent credentials, and
  the thread asked for the account with the name and the password stored for it then.\<close>

definition creation_asked :: "login \<Rightarrow> lt_message list \<Rightarrow> u64 \<Rightarrow> bool" where
  "creation_asked lt0 ms c \<longleftrightarrow>
     (\<exists>before r lt client password salt. ms = before @ [LtDbCredentials c r False False] \<and> sent c before \<and> dc_acctId r <s 0
       \<and> login_thread_proc before lt0 = Some lt \<and> lt_objects lt c = Some client
       \<and> lt_read_string lt (lc_passwordTemp client) = Some password
       \<and> QLoginNewAccount c (lc_accountName client) (login_crypto_hash (lt_pbkdf2 lt) (sb_bytes password) salt) salt \<in> new_queries lt0 ms)"

text \<open>The evidence, among the messages \<open>ms\<close> to a thread that started in \<open>lt0\<close>, that the client at \<open>c\<close> may have
  the account: all of it belongs to the client that is connected at \<open>c\<close> now.\<close>

definition evidence :: "login \<Rightarrow> lt_message list \<Rightarrow> u64 \<Rightarrow> u64 \<Rightarrow> bool" where
  "evidence lt0 ms c acct \<longleftrightarrow> (\<exists>ms1 ms2. ms = ms1 @ ms2 \<and> stays c ms2 \<and>
     (password_checked lt0 ms1 c acct
      \<or> (\<exists>asked pending. ms1 = asked @ pending @ [LtDbNewAccount c acct False False] \<and> stays c pending \<and> creation_asked lt0 asked c)))"

text \<open>
  What the thread relies on. The database answers a creation only when it was asked for it, and while the answer
  is on its way the address of the client is not given to another. Nothing in the code ensures the second.
\<close>

definition creations_answered :: "login \<Rightarrow> lt_message list \<Rightarrow> bool" where
  "creations_answered lt0 ms \<longleftrightarrow> (\<forall>ms1 ms2 c acct. ms = ms1 @ LtDbNewAccount c acct False False # ms2 \<longrightarrow>
     (\<exists>asked pending name hash salt. ms1 = asked @ pending \<and> stays c pending \<and> QLoginNewAccount c name hash salt \<in> new_queries lt0 asked))"

text \<open>The authentications that were announced to the thread of the character selection.\<close>

definition announced :: "login \<Rightarrow> login_auth set" where
  "announced lt = snd ` set (rb_contents (lt_csQueue lt))"

definition clients_ok :: "login \<Rightarrow> lt_message list \<Rightarrow> login \<Rightarrow> bool" where
  "clients_ok lt0 ms lt \<longleftrightarrow> (\<forall>c client. lt_objects lt c = Some client \<longrightarrow> connected_from c ms = Some (lc_ipAddress client)
     \<and> (lc_passwordTemp client \<noteq> 0 \<longrightarrow> sent c ms)
     \<and> (loginc_is_authorized client \<longrightarrow> evidence lt0 ms c (lc_accountId client)))"

definition entitled :: "login \<Rightarrow> lt_message list \<Rightarrow> login_auth \<Rightarrow> bool" where
  "entitled lt0 ms a \<longleftrightarrow> (\<exists>ms1 ms2 c port. ms = ms1 @ ms2 \<and> connected_from c ms1 = Some (la_ip a, port) \<and> evidence lt0 ms1 c (la_accountId a))"

definition lt_good :: "login \<Rightarrow> lt_message list \<Rightarrow> login \<Rightarrow> bool" where
  "lt_good lt0 ms lt \<longleftrightarrow> clients_ok lt0 ms lt \<and> rb_inv (lt_csQueue lt) \<and> rb_inv (lt_dbQueue lt) \<and> (\<forall>a \<in> announced lt. entitled lt0 ms a)"

lemma sent_snoc: "sent c ms \<Longrightarrow> \<not> connects c m \<Longrightarrow> sent c (ms @ [m])"
  by (auto simp: sent_def since_snoc)

lemma evidence_snoc:
  assumes "evidence lt0 ms c acct" "\<not> connects c m"
  shows "evidence lt0 (ms @ [m]) c acct"
proof -
  obtain ms1 ms2 where e: "ms = ms1 @ ms2" "stays c ms2" "password_checked lt0 ms1 c acct
      \<or> (\<exists>asked pending. ms1 = asked @ pending @ [LtDbNewAccount c acct False False] \<and> stays c pending \<and> creation_asked lt0 asked c)"
    using assms(1) unfolding evidence_def by blast
  have "stays c (ms2 @ [m])" using e(2) assms(2) by (simp add: stays_def)
  then show ?thesis unfolding evidence_def using e by (intro exI [of _ ms1] exI [of _ "ms2 @ [m]"]) simp
qed

lemma entitled_snoc: "entitled lt0 ms a \<Longrightarrow> entitled lt0 (ms @ [m]) a"
  unfolding entitled_def by (metis append.assoc)

lemma connected_snoc: "\<not> connects c m \<Longrightarrow> connected_from c (ms @ [m]) = connected_from c ms"
  by (cases m) (auto simp: connected_from_snoc)

lemma good_snoc:
  assumes "lt_good lt0 ms lt" "\<And>c. \<not> connects c m"
  shows "lt_good lt0 (ms @ [m]) lt"
  using assms sent_snoc [OF _ assms(2)] evidence_snoc [OF _ assms(2)] entitled_snoc
  by (auto simp: lt_good_def clients_ok_def connected_snoc [OF assms(2)])

text \<open>A handler keeps the invariant if what it may bring about is covered.\<close>

definition covered :: "login \<Rightarrow> lt_message list \<Rightarrow> lt_grant set \<Rightarrow> bool" where
  "covered lt0 ms G \<longleftrightarrow> (\<forall>c acct. Account c acct \<in> G \<longrightarrow> evidence lt0 ms c acct) \<and> (\<forall>c. Password c \<in> G \<longrightarrow> sent c ms)"

lemma good_rel:
  assumes "lt_good lt0 ms lt" "lt_rel G lt lt'" "covered lt0 ms G"
  shows "lt_good lt0 ms lt'"
proof -
  have "connected_from c ms = Some (lc_ipAddress client') \<and> (lc_passwordTemp client' \<noteq> 0 \<longrightarrow> sent c ms)
     \<and> (loginc_is_authorized client' \<longrightarrow> evidence lt0 ms c (lc_accountId client'))"
    if client': "lt_objects lt' c = Some client'" for c client'
  proof -
    obtain client where c: "lt_objects lt c = Some client" and r: "client_rel G c client client'"
      using assms(2) client' unfolding lt_rel_def by blast
    have "connected_from c ms = Some (lc_ipAddress client) \<and> (lc_passwordTemp client \<noteq> 0 \<longrightarrow> sent c ms)
       \<and> (loginc_is_authorized client \<longrightarrow> evidence lt0 ms c (lc_accountId client))"
      using assms(1) c by (simp add: lt_good_def clients_ok_def)
    then show ?thesis using r assms(3) unfolding client_rel_def covered_def by metis
  qed
  then show ?thesis using assms(1,2) by (auto simp: lt_good_def clients_ok_def announced_def lt_rel_def queue_rel_def)
qed

section \<open>Results of the database\<close>

text \<open>The result of a check of credentials authorizes only if the hash of the stored password is the one of the database.\<close>

definition granted_by :: "u64 \<Rightarrow> db_credentials \<Rightarrow> login \<Rightarrow> lt_grant set" where
  "granted_by c r lt =
     (if \<exists>client password. lt_objects lt c = Some client \<and> lc_authState client = LOGIN_AUTH_ProcessingCredentials
        \<and> lt_read_string lt (lc_passwordTemp client) = Some password
        \<and> login_crypto_hash (lt_pbkdf2 lt) (sb_bytes password) (dc_salt r) = dc_passwordHash r
      then {Account c (dc_acctId r)} else {})"

lemma guards_db_credentials [guard]:
  "guards_with (granted_by c r a) a (loginc_handle_db_credentials c r errPacket a)"
proof (cases "granted_by c r a = {}")
  case True
  then have no: "login_crypto_hash (lt_pbkdf2 a) (sb_bytes password) (dc_salt r) \<noteq> dc_passwordHash r"
    if "lt_objects a c = Some client" "lc_authState client = LOGIN_AUTH_ProcessingCredentials"
      "lt_read_string a (lc_passwordTemp client) = Some password" for client password
    using that by (auto simp: granted_by_def split: if_splits)
  have "guards_with {} a (map_option (\<lambda>(rc, lt). (ERR_Mismatch, lt)) (loginc_schedule_packet c errPacket a))"
    by (auto intro!: guards_map guard)
  then show ?thesis unfolding True loginc_handle_db_credentials_def Let_def
    by (auto simp: guards_with_def bind_eq_Some_conv no split: if_splits)
next
  case False
  then have "Account c (dc_acctId r) \<in> granted_by c r a" by (auto simp: granted_by_def split: if_splits)
  then show ?thesis unfolding loginc_handle_db_credentials_def Let_def
    by (auto intro!: guards_rules guard)
qed

text \<open>What the answer about credentials may bring about: an authorization if there is an account, a creation if not.\<close>

definition brought_by :: "u64 \<Rightarrow> db_credentials \<Rightarrow> bool \<Rightarrow> bool \<Rightarrow> login \<Rightarrow> lt_grant set" where
  "brought_by c r unprocessed err lt =
     (if unprocessed \<or> err then {} else if dc_acctId r <s 0 then Creation ` asks c lt else granted_by c r lt)"

lemma guards_db_login:
  "guards (brought_by c r unprocessed err a) a (login_thread_handle_db_login_credentials c r unprocessed err a)"
  unfolding login_thread_handle_db_login_credentials_def Let_def login_thread_check_db_error_def brought_by_def
  by (auto intro!: guards_rules guard)

lemma guards_db_new_account:
  "guards (if \<not> unprocessed \<and> \<not> err then {Account c acct} else {}) a (login_thread_handle_db_new_account c acct unprocessed err a)"
  unfolding login_thread_handle_db_new_account_def Let_def login_thread_check_db_error_def
  by (auto intro!: guards_rules guard)

section \<open>Session keys\<close>

text \<open>Either nothing happens, or the key of an authorized client is put on the queue in the middle.\<close>

lemma session_key_steps:
  assumes "login_thread_handle_op_session_key c lt = Some (rc, lt')"
  obtains (nothing) "lt_rel {} lt lt'"
  | (announces) lt2 client a rc1 rb where "lt_rel {} lt lt2" "lt_objects lt2 c = Some client" "loginc_is_authorized client"
      "la_accountId a = lc_accountId client" "la_ip a = fst (lc_ipAddress client)"
      "ringbuf_push (lt_csQueue lt2) ZOP_CS_LoginAuth (Some a) = Some (rc1, rb)" "lt_rel {} (lt2\<lparr>lt_csQueue := rb\<rparr>) lt'"
proof -
  obtain client where client: "lt_objects lt c = Some client" using assms
    by (auto simp: login_thread_handle_op_session_key_def bind_eq_Some_conv)
  show ?thesis
  proof (cases "loginc_is_authorized client")
    case False
    then have "lt' = lt" using assms client by (simp add: login_thread_handle_op_session_key_def)
    show ?thesis by (rule nothing) (simp add: \<open>lt' = lt\<close>)
  next
    case True
    define key where "key = session_key_of (fst (random_bytes 15 lt))"
    obtain p lt1 where p: "lt_new_packet (\<lambda>block. packet_write_struct block OP_LOGIN_SessionKey PSLogin_SessionKey
        (session_key_fields key)) lt = Some (p, lt1)"
      and more: "p = 0 \<and> lt' = lt1 \<or> p \<noteq> 0 \<and> (\<exists>lt2 client2 rc1 rb. loginc_generate_session_key c lt1 = Some lt2
        \<and> lt_objects lt2 c = Some client2
        \<and> ringbuf_push (lt_csQueue lt2) ZOP_CS_LoginAuth (Some \<lparr>la_accountId = loginc_get_account_id client2,
            la_ip = loginc_get_ip client2, la_sessionKey = loginc_get_session_key client2\<rparr>) = Some (rc1, rb)
        \<and> guards_with {} (lt2\<lparr>lt_csQueue := rb\<rparr>) (Some (rc, lt')))"
      using assms client True guards_calls(1) [OF lt_rel_refl]
      by (fastforce simp: login_thread_handle_op_session_key_def Let_def key_def bind_eq_Some_conv guards_with_def split: if_splits)
    have lt1: "lt_rel {} lt lt1" "lt_objects lt1 = lt_objects lt"
      using p guards_calls(3) [OF lt_rel_refl, of "{}" lt] by (auto simp: guards_with_def lt_new_packet_def)
    show ?thesis
    proof (cases "p = 0")
      case True
      then have "lt' = lt1" using more by simp
      show ?thesis by (rule nothing) (simp add: \<open>lt' = lt1\<close> lt1(1))
    next
      case False
      then obtain lt2 client2 rc1 rb where lt2: "loginc_generate_session_key c lt1 = Some lt2" "lt_objects lt2 c = Some client2"
        "ringbuf_push (lt_csQueue lt2) ZOP_CS_LoginAuth (Some \<lparr>la_accountId = loginc_get_account_id client2,
            la_ip = loginc_get_ip client2, la_sessionKey = loginc_get_session_key client2\<rparr>) = Some (rc1, rb)"
        "lt_rel {} (lt2\<lparr>lt_csQueue := rb\<rparr>) lt'"
        using more by auto
      have "guards {} lt1 (loginc_generate_session_key c lt1)"
        unfolding loginc_generate_session_key_def Let_def split_beta by (auto intro!: guard)
      then have "lt_rel {} lt lt2" using lt2(1) lt_rel_trans [OF lt1(1)] by simp
      moreover have "loginc_is_authorized client2" using lt2(1,2) lt1(2) client True
        by (auto simp: loginc_generate_session_key_def lt_upd_client_def random_bytes_def Let_def loginc_is_authorized_def)
      ultimately show ?thesis using announces [OF _ lt2(2) _ _ _ lt2(3,4)]
        by (simp add: loginc_get_account_id_def loginc_get_ip_def)
    qed
  qed
qed

lemma session_key_good:
  assumes "lt_good lt0 ms lt" "login_thread_handle_op_session_key c lt = Some (rc, lt')"
  shows "lt_good lt0 ms lt'"
proof (rule session_key_steps [OF assms(2)])
  have none: "covered lt0 ms {}" by (simp add: covered_def)
  assume "lt_rel {} lt lt'"
  then show ?thesis by (rule good_rel [OF assms(1) _ none])
next
  have none: "covered lt0 ms {}" by (simp add: covered_def)
  fix lt2 client a rc1 rb
  assume s: "lt_rel {} lt lt2" "lt_objects lt2 c = Some client" "loginc_is_authorized client"
      "la_accountId a = lc_accountId client" "la_ip a = fst (lc_ipAddress client)"
      "ringbuf_push (lt_csQueue lt2) ZOP_CS_LoginAuth (Some a) = Some (rc1, rb)" "lt_rel {} (lt2\<lparr>lt_csQueue := rb\<rparr>) lt'"
  have g: "lt_good lt0 ms lt2" by (rule good_rel [OF assms(1) s(1) none])
  then have "connected_from c ms = Some (la_ip a, snd (lc_ipAddress client))" "evidence lt0 ms c (la_accountId a)"
    using s(2-5) by (simp_all add: lt_good_def clients_ok_def)
  then have a: "entitled lt0 ms a" unfolding entitled_def by (intro exI [of _ ms] exI [of _ "[]"] exI [of _ c]) auto
  have "rb_inv (lt_csQueue lt2)" using g by (simp add: lt_good_def)
  then have "lt_good lt0 ms (lt2\<lparr>lt_csQueue := rb\<rparr>)"
    by (rule ringbuf_push_ok [of _ ZOP_CS_LoginAuth a]) (use g a s(6) in \<open>auto simp: lt_good_def clients_ok_def announced_def\<close>)
  then show ?thesis by (rule good_rel [OF _ s(7) none])
qed

section \<open>The loop\<close>

text \<open>What a message may bring about in the state \<open>lt\<close>.\<close>

fun message_grants :: "lt_message \<Rightarrow> login \<Rightarrow> lt_grant set" where
  "message_grants (LtToServerPacket c opcode packet) lt = (if opcode = OP_LOGIN_Credentials then {Password c} else {})"
| "message_grants (LtDbCredentials c r unprocessed err) lt = brought_by c r unprocessed err lt"
| "message_grants (LtDbNewAccount c acct unprocessed err) lt = (if \<not> unprocessed \<and> \<not> err then {Account c acct} else {})"
| "message_grants _ lt = {}"

lemma opcode_steps:
  assumes "lt_handle_opcode c opcode packet lt = Some (rc, lt')"
  shows "opcode = OP_LOGIN_SessionKey \<and> login_thread_handle_op_session_key c lt = Some (rc, lt')
    \<or> lt_rel (message_grants (LtToServerPacket c opcode packet) lt) lt lt'"
proof -
  have "guards_with (message_grants (LtToServerPacket c opcode packet) lt) lt (lt_handle_opcode c opcode packet lt)"
    if "opcode \<noteq> OP_LOGIN_SessionKey"
    using that
    by (auto simp: lt_handle_opcode_def OP_LOGIN_Version_def OP_LOGIN_Credentials_def OP_LOGIN_Banner_def OP_LOGIN_ServerList_def
        OP_LOGIN_ServerStatusRequest_def OP_LOGIN_SessionKey_def OP_LOGIN_Exit_def intro!: guards_map guard)
  moreover have "login_thread_handle_op_session_key c lt = Some (rc, lt')" if "opcode = OP_LOGIN_SessionKey"
    using that assms by (simp add: lt_handle_opcode_def OP_LOGIN_SessionKey_def OP_LOGIN_Version_def OP_LOGIN_Credentials_def
        OP_LOGIN_Banner_def OP_LOGIN_ServerList_def OP_LOGIN_ServerStatusRequest_def)
  ultimately show ?thesis unfolding assms guards_Some by blast
qed

lemma packet_steps:
  assumes "login_thread_handle_packet c opcode packet lt = Some lt'"
  obtains rc lt1 where "lt_handle_opcode c opcode packet lt = Some (rc, lt1)" "lt_rel {} lt1 lt'"
proof -
  obtain rc lt1 where op: "lt_handle_opcode c opcode packet lt = Some (rc, lt1)"
    and d: "(if rc \<noteq> ERR_None then lt_drop c lt1 else Some lt1) = Some lt'"
    using assms by (auto simp: login_thread_handle_packet_def bind_eq_Some_conv)
  have "lt_rel {} lt1 lt'" using d guards_calls(2) [OF lt_rel_refl, of "{}" lt1 c] by (auto simp: guards_def split: if_splits)
  then show ?thesis using that op by blast
qed

lemma new_client_steps:
  assumes "login_thread_handle_new_client c ip memory lt = Some lt'"
  shows "lt_rel {} (lt\<lparr>lt_objects := (lt_objects lt)(c \<mapsto> loginc_init memory ip)\<rparr>) lt'"
proof -
  have "guards {} (lt\<lparr>lt_objects := (lt_objects lt)(c \<mapsto> loginc_init memory ip)\<rparr>) (login_thread_handle_new_client c ip memory lt)"
    unfolding login_thread_handle_new_client_def Let_def
    by (auto intro!: guards_rules guard split: prod.split option.split)
  then show ?thesis using assms by simp
qed

lemma message_guards:
  assumes "\<And>c opcode packet. m \<noteq> LtToServerPacket c opcode packet" "\<And>c ip memory. m \<noteq> LtNewClient c ip memory"
  shows "guards (message_grants m lt) lt (lt_handle_message m lt)"
  using assms guards_db_login guards_db_new_account by (cases m) (auto intro: guard)

text \<open>The queue of the database only grows, and by creations only when the answer about credentials was negative.\<close>

lemma message_queue:
  assumes "lt_handle_message m lt = Some lt'"
  shows "queue_rel (message_grants m lt) lt lt'"
proof (cases m)
  case (LtToServerPacket c opcode packet)
  then obtain rc lt1 where s: "lt_handle_opcode c opcode packet lt = Some (rc, lt1)" "lt_rel {} lt1 lt'"
    using assms packet_steps by (metis lt_handle_message.simps(1))
  have "queue_rel G lt lt1" if "login_thread_handle_op_session_key c lt = Some (rc, lt1)" for G
  proof (rule session_key_steps [OF that])
    show "queue_rel G lt lt1" if "lt_rel {} lt lt1" using lt_rel_mono [OF that] by (simp add: lt_rel_def)
  next
    fix lt2 rb assume r: "lt_rel {} lt lt2" "lt_rel {} (lt2\<lparr>lt_csQueue := rb\<rparr>) lt1"
    have "queue_rel G lt lt2" "queue_rel G (lt2\<lparr>lt_csQueue := rb\<rparr>) lt1"
      using lt_rel_mono [OF r(1)] lt_rel_mono [OF r(2)] by (simp_all add: lt_rel_def)
    then show "queue_rel G lt lt1" using queue_rel_trans [of G lt lt2 lt1] by (simp add: queue_rel_def lt_queries_def)
  qed
  then have "queue_rel (message_grants m lt) lt lt1" using opcode_steps [OF s(1)] unfolding LtToServerPacket by (auto simp only: lt_rel_def)
  moreover have "queue_rel (message_grants m lt) lt1 lt'" using lt_rel_mono [OF s(2)] by (simp add: lt_rel_def)
  ultimately show ?thesis by (rule queue_rel_trans)
next
  case (LtNewClient c ip memory)
  then show ?thesis using assms new_client_steps [of c ip memory lt lt'] by (simp add: lt_rel_def queue_rel_def lt_queries_def)
qed (use assms message_guards [of m lt] queue_rel_same in \<open>auto simp: lt_rel_def\<close>)

lemma proc_append:
  "LtTerminateThread \<notin> set xs \<Longrightarrow> login_thread_proc (xs @ ys) lt0 = Option.bind (login_thread_proc xs lt0) (login_thread_proc ys)"
proof (induction xs arbitrary: lt0)
  case (Cons x xs)
  then show ?case by (cases "lt_handle_message x lt0") auto
qed simp

lemma proc_snoc:
  assumes "LtTerminateThread \<notin> set (ms @ [m])"
  shows "login_thread_proc (ms @ [m]) lt0 = Option.bind (login_thread_proc ms lt0) (lt_handle_message m)"
proof -
  have "login_thread_proc [m] lt = lt_handle_message m lt" for lt
    using assms by (cases "lt_handle_message m lt") auto
  then have "login_thread_proc [m] = lt_handle_message m" by (rule ext)
  then show ?thesis using assms by (simp add: proc_append)
qed

section \<open>Every message keeps the invariant\<close>

lemma none_covered: "covered lt0 ms {}" by (simp add: covered_def)

lemma packet_good:
  assumes "lt_good lt0 ms lt" "login_thread_handle_packet c opcode packet lt = Some lt'"
  shows "lt_good lt0 (ms @ [LtToServerPacket c opcode packet]) lt'" (is "lt_good lt0 ?ms lt'")
proof -
  obtain rc lt1 where s: "lt_handle_opcode c opcode packet lt = Some (rc, lt1)" "lt_rel {} lt1 lt'"
    using packet_steps [OF assms(2)] by blast
  have g: "lt_good lt0 ?ms lt" by (rule good_snoc [OF assms(1)]) simp
  have "covered lt0 ?ms (message_grants (LtToServerPacket c opcode packet) lt)"
    by (auto simp: covered_def sent_def since_snoc)
  then have "lt_good lt0 ?ms lt1" using opcode_steps [OF s(1)] session_key_good [OF g] good_rel [OF g] by blast
  then show ?thesis using good_rel [OF _ s(2) none_covered] by blast
qed

lemma new_client_good:
  assumes "lt_good lt0 ms lt" "login_thread_handle_new_client c ip memory lt = Some lt'"
  shows "lt_good lt0 (ms @ [LtNewClient c ip memory]) lt'" (is "lt_good lt0 ?ms lt'")
proof -
  let ?lt = "lt\<lparr>lt_objects := (lt_objects lt)(c \<mapsto> loginc_init memory ip)\<rparr>"
  have "clients_ok lt0 ?ms ?lt" unfolding clients_ok_def
  proof (intro allI impI)
    fix d client assume d: "lt_objects ?lt d = Some client"
    show "connected_from d ?ms = Some (lc_ipAddress client) \<and> (lc_passwordTemp client \<noteq> 0 \<longrightarrow> sent d ?ms)
       \<and> (loginc_is_authorized client \<longrightarrow> evidence lt0 ?ms d (lc_accountId client))"
    proof (cases "d = c")
      case True
      then show ?thesis using d by (auto simp: connected_from_snoc loginc_init_def loginc_is_authorized_def login_auth_states)
    next
      case False
      then have "\<not> connects d (LtNewClient c ip memory)" by simp
      then show ?thesis using d False assms(1) sent_snoc [of d] evidence_snoc [of lt0 ms d]
        by (auto simp: connected_snoc lt_good_def clients_ok_def)
    qed
  qed
  then have "lt_good lt0 ?ms ?lt" using assms(1) entitled_snoc by (auto simp: lt_good_def announced_def)
  then show ?thesis by (rule good_rel [OF _ new_client_steps [OF assms(2)] none_covered])
qed

lemma message_good:
  assumes "lt_good lt0 ms lt" "lt_handle_message m lt = Some lt'" "covered lt0 (ms @ [m]) (message_grants m lt)"
  shows "lt_good lt0 (ms @ [m]) lt'"
proof -
  have "lt_good lt0 (ms @ [m]) lt'"
    if "\<And>c opcode packet. m \<noteq> LtToServerPacket c opcode packet" and new: "\<And>c ip memory. m \<noteq> LtNewClient c ip memory"
  proof -
    have "lt_rel (message_grants m lt) lt lt'" using message_guards [OF that, of lt] assms(2) by simp
    moreover have "\<not> connects c m" for c
    proof (cases m)
      case (LtNewClient d ip memory)
      then show ?thesis using new by blast
    qed simp_all
    ultimately show ?thesis using good_rel [OF good_snoc [OF assms(1)] _ assms(3)] by blast
  qed
  then show ?thesis using packet_good [OF assms(1)] new_client_good [OF assms(1)] assms(2)
    by (metis lt_handle_message.simps(1,2))
qed

lemma good_password: "lt_good lt0 ms lt \<Longrightarrow> lt_objects lt c = Some client \<Longrightarrow> lt_read_string lt (lc_passwordTemp client) = Some s \<Longrightarrow> sent c ms"
  by (cases "lc_passwordTemp client = 0") (auto simp: lt_good_def clients_ok_def lt_read_string_def)

text \<open>A creation is asked for only when the answer about credentials says that there is no such account.\<close>

lemma creation_was_asked:
  assumes "LtTerminateThread \<notin> set (before @ [m])" "login_thread_proc before lt0 = Some lt" "lt_good lt0 before lt"
    "QLoginNewAccount c name hash salt \<in> new_queries lt0 (before @ [m])"
  shows "creation_asked lt0 (before @ [m]) c"
proof -
  let ?q = "QLoginNewAccount c name hash salt"
  obtain lt' where lt': "lt_handle_message m lt = Some lt'" "?q \<in> set (drop (length (lt_queries lt)) (lt_queries lt'))"
    using assms(2,4) proc_snoc [OF assms(1), of lt0] by (auto simp: new_queries_def split: option.splits)
  have "rb_inv (lt_dbQueue lt)" using assms(3) by (simp add: lt_good_def)
  then obtain qs where "lt_queries lt' = lt_queries lt @ qs" "\<forall>q \<in> set qs. creates q \<longrightarrow> Creation q \<in> message_grants m lt"
    using message_queue [OF lt'(1)] unfolding queue_rel_def by blast
  then have "Creation ?q \<in> message_grants m lt" using lt'(2) by auto
  then obtain r client password where m: "m = LtDbCredentials c r False False" "dc_acctId r <s 0" "lt_objects lt c = Some client"
      "lt_read_string lt (lc_passwordTemp client) = Some password" "name = lc_accountName client"
      "hash = login_crypto_hash (lt_pbkdf2 lt) (sb_bytes password) salt"
    by (cases m) (auto simp: brought_by_def asks_def granted_by_def split: if_splits)
  then show ?thesis unfolding creation_asked_def using assms(2,4) good_password [OF assms(3) m(3,4)] by blast
qed

lemma no_new_queries [simp]: "new_queries lt0 [] = {}" by (simp add: new_queries_def)

lemma answers_before: "creations_answered lt0 (before @ after) \<Longrightarrow> creations_answered lt0 before"
  unfolding creations_answered_def by (metis append.assoc append_Cons)

lemma runs_before:
  assumes "LtTerminateThread \<notin> set (before @ after)" "login_thread_proc (before @ after) lt0 = Some lt"
  obtains lt1 where "login_thread_proc before lt0 = Some lt1"
  using assms by (auto simp: proc_append bind_eq_Some_conv)

text \<open>What the answers of the database bring about is covered by what the clients did.\<close>

lemma grants_covered:
  assumes "LtTerminateThread \<notin> set (ms @ [m])" "login_thread_proc ms lt0 = Some lt" "creations_answered lt0 (ms @ [m])"
    and good: "\<And>before after lt1. ms = before @ after \<Longrightarrow> login_thread_proc before lt0 = Some lt1 \<Longrightarrow> lt_good lt0 before lt1"
  shows "covered lt0 (ms @ [m]) (message_grants m lt)"
proof -
  have now: "evidence lt0 (ms @ [m]) c acct" if "password_checked lt0 (ms @ [m]) c acct
      \<or> (\<exists>asked pending. ms @ [m] = asked @ pending @ [LtDbNewAccount c acct False False] \<and> stays c pending \<and> creation_asked lt0 asked c)" for c acct
    unfolding evidence_def using that by (intro exI [of _ "ms @ [m]"] exI [of _ "[]"]) (simp add: stays_def)
  have "evidence lt0 (ms @ [m]) c acct" if a: "Account c acct \<in> message_grants m lt" for c acct
  proof (cases m)
    case (LtDbCredentials d r unprocessed err)
    then have "m = LtDbCredentials c r False False" "Account c acct \<in> granted_by c r lt"
      using a by (auto simp: brought_by_def granted_by_def split: if_splits)
    then have "password_checked lt0 (ms @ [m]) c acct" using assms(2) good_password [OF good [of ms "[]" lt]]
      by (auto simp: password_checked_def granted_by_def split: if_splits)
    then show ?thesis using now by blast
  next
    case (LtDbNewAccount d acctId unprocessed err)
    then have m: "m = LtDbNewAccount c acct False False" using a by (simp split: if_splits)
    then obtain asked pending name hash salt where asked: "ms = asked @ pending" "stays c pending"
        "QLoginNewAccount c name hash salt \<in> new_queries lt0 asked"
      using assms(3) unfolding creations_answered_def by blast
    then obtain before m' where b: "asked = before @ [m']" by (cases asked rule: rev_cases) auto
    obtain lt1 where "login_thread_proc before lt0 = Some lt1"
      by (rule runs_before [of before "[m'] @ pending" lt0 lt]) (use assms(1,2) asked(1) b in auto)
    then have "creation_asked lt0 asked c" unfolding b
      by (intro creation_was_asked [OF _ _ good]) (use assms(1) asked b in auto)
    then show ?thesis using asked(1,2) m now [of c acct] by auto
  qed (use a in \<open>auto split: if_splits\<close>)
  moreover have "sent c (ms @ [m])" if "Password c \<in> message_grants m lt" for c
    using that by (cases m) (auto simp: sent_def since_snoc brought_by_def granted_by_def split: if_splits)
  ultimately show ?thesis by (simp add: covered_def)
qed

lemma proc_good:
  assumes "lt_good lt0 [] lt0" "LtTerminateThread \<notin> set ms" "creations_answered lt0 ms" "login_thread_proc ms lt0 = Some lt"
  shows "lt_good lt0 ms lt"
  using assms(2-)
proof (induction "length ms" arbitrary: ms lt rule: less_induct)
  case less
  show ?case
  proof (cases ms rule: rev_cases)
    case Nil
    then show ?thesis using assms(1) less.prems(3) by simp
  next
    case (snoc before m)
    obtain lt1 where lt1: "login_thread_proc before lt0 = Some lt1" "lt_handle_message m lt1 = Some lt"
      using less.prems proc_snoc [of before m lt0] unfolding snoc by (auto simp: bind_eq_Some_conv)
    have good: "lt_good lt0 b lt2" if "before = b @ after" "login_thread_proc b lt0 = Some lt2" for b after lt2
      using less.hyps [OF _ _ _ that(2)] less.prems(1,2) that(1) answers_before [of lt0 b "after @ [m]"] unfolding snoc by auto
    show ?thesis unfolding snoc
      by (rule message_good [OF good [of before "[]", OF _ lt1(1)] lt1(2) grants_covered [OF _ lt1(1) _ good]])
        (use less.prems snoc in auto)
  qed
qed

text \<open>The messages that the loop takes before it ends.\<close>

definition handled :: "lt_message list \<Rightarrow> lt_message list" where
  "handled ms = takeWhile (\<lambda>m. m \<noteq> LtTerminateThread) ms"

lemma proc_handled:
  "login_thread_proc ms lt0 = Some lt \<Longrightarrow>
     \<exists>lt1. login_thread_proc (handled ms) lt0 = Some lt1 \<and> lt_objects lt1 = lt_objects lt \<and> lt_csQueue lt1 = lt_csQueue lt"
proof (induction ms arbitrary: lt0)
  case (Cons m ms)
  show ?case
  proof (cases "m = LtTerminateThread")
    case True
    then show ?thesis using Cons.prems by (auto simp: handled_def login_thread_on_terminate_def)
  next
    case False
    then obtain lt2 where "lt_handle_message m lt0 = Some lt2" "login_thread_proc ms lt2 = Some lt"
      using Cons.prems by (auto simp: bind_eq_Some_conv)
    then show ?thesis using Cons.IH False by (simp add: handled_def)
  qed
qed (simp add: handled_def)

text \<open>
  C39. Whatever messages the login thread takes, a client is authorized only by evidence of its own, that is from
  the time since it connected at its address: it sent credentials, and either the database answered for them with
  the hash of the password that the client had sent then, or it answered that there is no such account, the thread
  asked for an account with the name and the password of the client, and the answer to that carries the account.
  What is announced to the thread of the character selection is the account of a client that was authorized this
  way, with the address it connected from. The thread starts without clients and with nothing announced, and the
  database answers a creation of an account only after it was asked for, and before the address of the client that
  asked is given to another client: the code does not check the second, see \<open>login_reused_address_authorizes\<close>.
\<close>

theorem login_authorizes_only_checked:
  assumes "login_thread_proc ms lt0 = Some lt" "lt_objects lt0 = (\<lambda>_. None)" "rb_inv (lt_csQueue lt0)" "announced lt0 = {}"
    "rb_inv (lt_dbQueue lt0)" "creations_answered lt0 (handled ms)"
  shows "(\<forall>c client. lt_objects lt c = Some client \<longrightarrow> connected_from c (handled ms) = Some (lc_ipAddress client)
        \<and> (loginc_is_authorized client \<longrightarrow> evidence lt0 (handled ms) c (lc_accountId client)))
    \<and> (\<forall>a \<in> announced lt. entitled lt0 (handled ms) a)"
proof -
  obtain lt1 where lt1: "login_thread_proc (handled ms) lt0 = Some lt1" "lt_objects lt1 = lt_objects lt" "lt_csQueue lt1 = lt_csQueue lt"
    using proc_handled [OF assms(1)] by blast
  have "lt_good lt0 [] lt0" using assms(2-5) by (simp add: lt_good_def clients_ok_def)
  moreover have "LtTerminateThread \<notin> set (handled ms)" by (auto simp: handled_def dest: set_takeWhileD)
  ultimately have "lt_good lt0 (handled ms) lt1" using proc_good assms(6) lt1(1) by blast
  then show ?thesis
    using lt1(2,3) by (simp_all add: lt_good_def clients_ok_def announced_def)
qed

text \<open>A client that sends its version and its credentials. The cipher and the hash are stand-ins.\<close>

definition demo_login_packet :: tlg_packet where
  "demo_login_packet = the (packet_create (Some (replicate 40 0)) 1 1)"

definition demo_lt :: login where
  "demo_lt =
     (login_new 1
        \<lparr>nt_udp = demo_thread\<lparr>ut_udpQueue := ringbuf_init demo_command 8, ut_heap := [1 \<mapsto> demo_login_packet]\<rparr>,
         nt_junk = demo_command,
         nt_malloc = [Some (1000, []), Some (1001, []), Some (1002, []), Some (1003, replicate 64 0), Some (1004, replicate 64 0)],
         nt_strings = (\<lambda>_. None), nt_now = 0\<rparr>
        (ringbuf_init \<lparr>ns_initialStatus = 0, ns_rank = 0, ns_isLocal = False, ns_serverId = 0, ns_serverName = 0,
          ns_remoteIpAddr = 0, ns_localIpAddr = 0\<rparr> 4)
        (ringbuf_init () 4) (ringbuf_init \<lparr>la_accountId = 0, la_ip = 0, la_sessionKey = []\<rparr> 4)
        (ringbuf_init \<lparr>dq_dbId = 0, dq_queryId = 0, dq_zop = 0, dq_query = QLoginCredentials 0 0\<rparr> 4) id (\<lambda>password salt. password @ salt))
     \<lparr>lt_packetVersion := 1\<rparr>"

definition demo_session :: "lt_message list" where
  "demo_session =
     [LtNewClient 100 (1, 2) [], LtToServerPacket 100 OP_LOGIN_Version [],
      LtToServerPacket 100 OP_LOGIN_Credentials ([65] @ replicate 19 0 @ [66] @ replicate 19 0)]"

definition demo_result :: "u64 \<Rightarrow> lt_message" where
  "demo_result acctId = LtDbCredentials 100
     \<lparr>dc_acctId = acctId, dc_passwordHash = [66, 1, 2, 3, 4], dc_salt = [1, 2, 3, 4], dc_status = 0, dc_suspendedUntil = 0\<rparr> False False"

text \<open>There is no such account, so the thread asks for one, and the client is authorized for it.\<close>

definition demo_asked :: "lt_message list" where
  "demo_asked = demo_session @ [demo_result (- 1)]"

definition demo_created :: "lt_message list" where
  "demo_created = demo_asked @ [LtDbNewAccount 100 7 False False, LtToServerPacket 100 OP_LOGIN_SessionKey []]"

lemma demo_password_run:
  "case login_thread_proc (demo_session @ [demo_result 7]) demo_lt of
     Some lt \<Rightarrow> map_option (\<lambda>client. (lc_authState client, lc_accountId client)) (lt_objects lt 100) = Some (LOGIN_AUTH_Authorized, 7)
   | None \<Rightarrow> False"
  by code_simp

lemma demo_created_run:
  "case login_thread_proc demo_created demo_lt of
     Some lt \<Rightarrow> map_option (\<lambda>client. (lc_authState client, lc_accountId client)) (lt_objects lt 100) = Some (LOGIN_AUTH_Authorized, 7)
        \<and> map (\<lambda>(zop, a). (la_accountId a, la_ip a)) (rb_contents (lt_csQueue lt)) = [(7, 1)]
   | None \<Rightarrow> False"
  by code_simp

lemma demo_asked_queries:
  "map_option lt_queries (login_thread_proc demo_session demo_lt) = Some [QLoginCredentials 100 1001]"
  "map_option lt_queries (login_thread_proc demo_asked demo_lt) =
     Some [QLoginCredentials 100 1001, QLoginNewAccount 100 1001 [66, 0, 0, 0, 0] [0, 0, 0, 0]]"
  by code_simp+

lemma demo_creation_asked: "QLoginNewAccount 100 1001 [66, 0, 0, 0, 0] [0, 0, 0, 0] \<in> new_queries demo_lt demo_asked"
proof -
  have "butlast demo_asked = demo_session" by (simp add: demo_asked_def)
  then show ?thesis using demo_asked_queries by (auto simp: new_queries_def)
qed

lemma demo_start_ok:
  "lt_objects demo_lt = (\<lambda>_. None)" "rb_inv (lt_csQueue demo_lt)" "announced demo_lt = {}" "rb_inv (lt_dbQueue demo_lt)"
proof -
  have n: "2 \<le> (4 :: nat)" "4 \<le> RINGBUF_MAX_PACKETS" by (simp_all add: RINGBUF_MAX_PACKETS_def)
  show "lt_objects demo_lt = (\<lambda>_. None)" "rb_inv (lt_csQueue demo_lt)" "announced demo_lt = {}" "rb_inv (lt_dbQueue demo_lt)"
    using ringbuf_init_inv [OF n] by (simp_all add: demo_lt_def login_new_def announced_def)
qed

lemma demo_handled [simp]: "handled demo_created = demo_created"
  by (simp add: handled_def demo_created_def demo_asked_def demo_session_def demo_result_def)

lemma demo_answered: "creations_answered demo_lt demo_created"
proof -
  have "ms1 = demo_asked \<and> c = 100" if "demo_created = ms1 @ LtDbNewAccount c acct False False # ms2" for ms1 c acct ms2
    using that by (auto simp: demo_created_def demo_asked_def demo_session_def demo_result_def Cons_eq_append_conv)
  then show ?thesis unfolding creations_answered_def using demo_creation_asked
    by (intro allI impI exI [of _ demo_asked] exI [of _ "[]"]) (auto simp: stays_def)
qed

theorem login_authorizes_only_checked_witness:
  "\<exists>lt client a. login_thread_proc demo_created demo_lt = Some lt \<and> lt_objects lt 100 = Some client \<and> loginc_is_authorized client
    \<and> connected_from 100 demo_created = Some (1, 2) \<and> evidence demo_lt demo_created 100 7
    \<and> a \<in> announced lt \<and> la_accountId a = 7 \<and> la_ip a = 1 \<and> entitled demo_lt demo_created a"
proof -
  obtain lt client a where run: "login_thread_proc demo_created demo_lt = Some lt" "lt_objects lt 100 = Some client"
    "loginc_is_authorized client" "lc_accountId client = 7" "a \<in> announced lt" "la_accountId a = 7" "la_ip a = 1"
    using demo_created_run by (auto simp: loginc_is_authorized_def announced_def split: option.splits)
  have "creations_answered demo_lt (handled demo_created)" by (simp add: demo_answered)
  note claim = login_authorizes_only_checked [OF run(1) demo_start_ok this]
  have "evidence demo_lt demo_created 100 (lc_accountId client)" using claim run(2,3) by simp
  moreover have "connected_from 100 demo_created = Some (1, 2)"
    by (simp add: connected_from_def demo_created_def demo_asked_def demo_session_def demo_result_def)
  moreover have "entitled demo_lt demo_created a" using claim run(5) by simp
  ultimately show ?thesis using run by auto
qed

text \<open>
  Without the hypothesis on the answers of the database: the client at address 100 has gone, another is connected
  there from elsewhere, and the answer to the query of the first authorizes the second, which has sent nothing.
\<close>

definition demo_reused :: "lt_message list" where
  "demo_reused = demo_asked @ [LtClientDisconnect 100, LtNewClient 100 (9, 9) [], LtDbNewAccount 100 7 False False]"

lemma login_reused_address_authorizes:
  "case login_thread_proc demo_reused demo_lt of
     Some lt \<Rightarrow> map_option (\<lambda>client. (lc_ipAddress client, lc_authState client, lc_accountId client)) (lt_objects lt 100)
        = Some ((9, 9), LOGIN_AUTH_Authorized, 7)
   | None \<Rightarrow> False"
  by code_simp

end
