(* ===== verification/Zeq_LoginServers.thy ===== *)
theory Zeq_LoginServers
  imports Zeq_LoginThread
begin

text \<open>
  The list of servers that \<open>src/login_thread.c\<close> sends: its length is calculated from a table of lengths
  and leaves out the \<open>NUL\<close> characters behind the strings.
\<close>

section \<open>Writes that do not fit\<close>

lemma write_op_fails:
  assumes "al_no_wrap a (op_size w)" "\<not> al_room a (op_size w)"
  shows "write_op w a = None"
proof -
  note adv = advance_by [OF assms(1)]
  show ?thesis
    using assms(2) adv
    by (cases w) (simp_all add: aligned_write_zeroes_def aligned_write_memset_def aligned_write_buffer_def
        aligned_write_snprintf_and_advance_by_def write_defs)
qed

lemma write_ops_fails:
  "al_ok a \<Longrightarrow> al_no_wrap a (ops_size ws) \<Longrightarrow> \<not> al_room a (ops_size ws) \<Longrightarrow> write_ops ws a = None"
proof (induction ws arbitrary: a)
  case (Cons w ws)
  have nw: "al_no_wrap a (op_size w)" using Cons.prems(2) by (simp add: al_no_wrap_def)
  show ?case
  proof (cases "al_room a (op_size w)")
    case False
    then show ?thesis using write_op_fails [OF nw] by simp
  next
    case True
    let ?b = "op_bytes w (al_get a (unat (al_cursor a)) (op_size w))"
    have lb: "length ?b = op_size w"
      using room_bytes [OF Cons.prems(1) True] by (intro op_bytes_length) (simp add: al_get_def)
    have r': "al_room a (length ?b)" using True lb by simp
    note s = al_written_simps [OF Cons.prems(1) r']
    have "write_ops ws (al_written a ?b) = None"
      using Cons.prems(2,3) s lb by (intro Cons.IH [OF s(1)]) (simp_all add: al_no_wrap_def al_room_def add.assoc)
    then show ?thesis using write_op_eq [OF Cons.prems(1) True] by simp
  qed
qed (simp add: al_ok_def al_room_def word_le_nat_alt)

lemma packet_write_fits:
  assumes "block_ok sz block" "sz < 2 ^ 25" "ops_size ws < 2 ^ 31"
  shows "packet_write (Some block) opcode (of_nat sz) ws = None \<longleftrightarrow> sz < ops_size ws"
proof -
  let ?d = "block_data sz block" and ?a = "aligned_init (block_data sz block) (of_nat sz)" and ?n = "frag_count sz"
  have L: "unat (of_nat sz :: u32) = sz" using assms(2) by (intro unat_of_nat_small) simp
  let ?p = "\<lparr>pk_opcode = opcode, pk_fragCount = of_nat ?n, pk_isFragmentized = False, pk_dataLength = of_nat sz,
    pk_refCount = 0, pk_data = take (22 * (?n + 1) + sz) block\<rparr>"
  have p: "packet_create (Some block) opcode (of_nat sz) = Some ?p"
    by (simp add: packet_create_def packet_calc_eq L add.assoc)
  have d: "take sz (drop TLG_PACKET_DATA_OFFSET (pk_data ?p)) = ?d" and ld: "length ?d = sz"
    using assms(1) by (auto simp: block_data_def block_ok_def packet_calc_eq packet_sizes drop_take)
  have w: "packet_write (Some block) opcode (of_nat sz) ws = None \<longleftrightarrow> write_ops ws ?a = None"
    unfolding packet_write_def p option.case Let_def L d by (simp add: packet_length_def)
  have a: "al_ok ?a" "al_room ?a k \<longleftrightarrow> k \<le> sz" "al_no_wrap ?a (ops_size ws)" for k
    using ld L assms(3) by (simp_all add: al_ok_def al_room_def al_no_wrap_def aligned_init_def)
  show ?thesis using write_ops_fails [OF a(1,3)] write_ops_eq [OF a(1)] a(2) by (cases "ops_size ws \<le> sz") (simp_all add: w)
qed

section \<open>The list of servers\<close>

text \<open>The table of lengths describes the servers.\<close>

definition describes :: "sheap \<Rightarrow> login_server_lengths \<Rightarrow> login_server \<Rightarrow> bool" where
  "describes h l s \<longleftrightarrow> ll_isLocal l = ls_isLocal s \<and> unat (ll_nameLength l) = length (sbuf_str h (ls_name s))
     \<and> unat (ll_remoteLength l) = length (sbuf_str h (ls_remoteIpAddr s))
     \<and> unat (ll_localLength l) = length (sbuf_str h (ls_localIpAddr s))"

definition servers_ok :: "login \<Rightarrow> bool" where
  "servers_ok lt \<longleftrightarrow> unat (lt_serverCount lt) \<le> length (lt_servers lt)
     \<and> list_all2 (describes (lt_strings lt)) (take (unat (lt_serverCount lt)) (lt_serverLengths lt)) (lt_server_list lt)"

definition entry_size :: "sheap \<Rightarrow> bool \<Rightarrow> login_server \<Rightarrow> nat" where
  "entry_size h isLocal s =
     length (sbuf_str h (ls_name s)) + length (sbuf_str h (if isLocal \<and> ls_isLocal s then ls_localIpAddr s else ls_remoteIpAddr s)) + 5"

lemma calc_entries:
  assumes "list_all2 (describes h) ls ss" "unat x + (\<Sum>s\<leftarrow>ss. entry_size h isLocal s) < 2 ^ 32"
  shows "unat (fold (\<lambda>l length. length + ucast (if isLocal \<and> ll_isLocal l then ll_localLength l else ll_remoteLength l)
              + ucast (ll_nameLength l) + of_nat (struct_size PSLogin_ServerFooter)) ls (x :: u32))
    = unat x + (\<Sum>s\<leftarrow>ss. entry_size h isLocal s)"
  using assms
proof (induction ls ss arbitrary: x rule: list_all2_induct)
  case (Cons l ls s ss)
  let ?y = "x + ucast (if isLocal \<and> ll_isLocal l then ll_localLength l else ll_remoteLength l)
              + ucast (ll_nameLength l) + of_nat (struct_size PSLogin_ServerFooter) :: u32"
  have u8: "unat (ucast (v :: u8) :: u32) = unat v" for v
    by (simp add: unsigned_ucast_eq unsigned_less take_bit_nat_eq_self less_trans [OF unsigned_less])
  have "unat x + entry_size h isLocal s < 2 ^ 32" using Cons.prems by simp
  then have y: "unat ?y = unat x + entry_size h isLocal s"
    using Cons.hyps(1) by (auto simp: describes_def entry_size_def unat_word_ariths u8 PSLogin_ServerFooter_def struct_size_def)
  show ?case using Cons.IH [of ?y] Cons.prems y by simp
qed simp

lemma server_ops_size: "ops_size (concat (map (server_ops h isLocal) ss)) = (\<Sum>s\<leftarrow>ss. entry_size h isLocal s) + 2 * length ss"
  by (induction ss) (simp_all add: server_ops_def entry_size_def)

text \<open>
  C40. The packet with the list of servers holds the list exactly as long as there is at most one server:
  with two or more, writing it fails an assertion of the cursor, because the calculated length counts
  neither the two \<open>NUL\<close> characters of each server nor more than the three bytes it has to spare.
\<close>

theorem login_server_list_fits:
  assumes "servers_ok lt" "sz = 30 + (\<Sum>s\<leftarrow>lt_server_list lt. entry_size (lt_strings lt) isLocal s)" "sz < 2 ^ 25"
    and "block_ok sz block"
  shows "packet_write (Some block) OP_LOGIN_ServerList (login_thread_calc_server_list_length lt isLocal)
      (login_thread_write_server_list lt isLocal) = None \<longleftrightarrow> 1 < lt_serverCount lt"
proof -
  have "unat (login_thread_calc_server_list_length lt isLocal) = sz"
    using calc_entries [of "lt_strings lt" _ "lt_server_list lt" 30 isLocal] assms(1-3)
    by (simp add: login_thread_calc_server_list_length_def servers_ok_def PSLogin_ServerListHeader_def PSLogin_ServerListFooter_def
        struct_size_def)
  then have len: "login_thread_calc_server_list_length lt isLocal = of_nat sz" using assms(3)
    by (simp add: word_unat_eq_iff unsigned_of_nat take_bit_nat_eq_self)
  have n: "length (lt_server_list lt) = unat (lt_serverCount lt)" using assms(1) by (simp add: servers_ok_def lt_server_list_def)
  have "length (lt_server_list lt) \<le> (\<Sum>s\<leftarrow>lt_server_list lt. entry_size (lt_strings lt) isLocal s)"
    using sum_list_mono [of "lt_server_list lt" "\<lambda>_. 1" "entry_size (lt_strings lt) isLocal"]
    by (simp add: entry_size_def sum_list_triv)
  moreover have ws: "ops_size (login_thread_write_server_list lt isLocal) + 3 = sz + 2 * unat (lt_serverCount lt)"
    using assms(2) n by (simp add: login_thread_write_server_list_def server_ops_size)
  ultimately have "ops_size (login_thread_write_server_list lt isLocal) < 2 ^ 31" using assms(2,3) n by simp
  then have "packet_write (Some block) OP_LOGIN_ServerList (of_nat sz) (login_thread_write_server_list lt isLocal) = None
      \<longleftrightarrow> sz < ops_size (login_thread_write_server_list lt isLocal)"
    by (rule packet_write_fits [OF assms(4,3)])
  also have "\<dots> \<longleftrightarrow> 1 < unat (lt_serverCount lt)" using ws by linarith
  finally show ?thesis by (simp add: len word_less_nat_alt)
qed

text \<open>Two servers with the name \<open>A\<close> and the address \<open>B\<close>.\<close>

definition demo_servers :: login where
  "demo_servers =
     (login_new 1
        (demo_net [] (\<lambda>_. None)\<lparr>nt_strings := [1 \<mapsto> \<lparr>sb_refCount = 1, sb_len = 1, sb_bytes = [65]\<rparr>,
          2 \<mapsto> \<lparr>sb_refCount = 2, sb_len = 1, sb_bytes = [66]\<rparr>]\<rparr>)
        (ringbuf_init \<lparr>ns_initialStatus = 0, ns_rank = 0, ns_isLocal = False, ns_serverId = 0, ns_serverName = 0,
          ns_remoteIpAddr = 0, ns_localIpAddr = 0\<rparr> 4)
        (ringbuf_init () 4) (ringbuf_init \<lparr>la_accountId = 0, la_ip = 0, la_sessionKey = []\<rparr> 4)
        (ringbuf_init \<lparr>dq_dbId = 0, dq_queryId = 0, dq_zop = 0, dq_query = QLoginCredentials 0 0\<rparr> 4) id (\<lambda>password salt. password))
     \<lparr>lt_serverCount := 2,
      lt_servers := (\<lambda>s. [s, s]) \<lparr>ls_serverId = 1, ls_status = 0, ls_rank = 0, ls_isLocal = False, ls_playerCount = 0, ls_name = 1,
        ls_remoteIpAddr = 2, ls_localIpAddr = 2\<rparr>,
      lt_serverLengths := (\<lambda>l. [l, l]) \<lparr>ll_isLocal = False, ll_nameLength = 1, ll_remoteLength = 1, ll_localLength = 1\<rparr>\<rparr>"

theorem login_server_list_fits_witness:
  "packet_write (Some (replicate 4300 0)) OP_LOGIN_ServerList (login_thread_calc_server_list_length demo_servers False)
     (login_thread_write_server_list demo_servers False) = None"
proof -
  have s: "servers_ok demo_servers" "44 = 30 + (\<Sum>s\<leftarrow>lt_server_list demo_servers. entry_size (lt_strings demo_servers) False s)"
    "1 < lt_serverCount demo_servers"
    by (simp_all add: servers_ok_def demo_servers_def login_new_def lt_server_list_def lt_strings_def describes_def sbuf_str_def
        entry_size_def)
  have "block_ok 44 (replicate 4300 0)" using block_ok_4096 [of "replicate 4300 0"] by simp
  then show ?thesis using login_server_list_fits [OF s(1,2)] s(3) by simp
qed

end
