(* ===== verification/Spec2Isabelle.thy ===== *)
theory Spec2Isabelle
  imports Zeq_HashTbl_Keys Zeq_Crc Zeq_Util Zeq_Aligned Zeq_RingBuf Zeq_Timer Zeq_EndToEnd Zeq_UdpProps Zeq_Skills
    Zeq_Inventory Zeq_Mob Zeq_PacketLayout Zeq_World Zeq_CharSelectProps Zeq_CharSelectCreate
    Zeq_LoginProps Zeq_LoginServers
begin

text \<open>
  A verification development of the EverQuest Trilogy server, the C program under \<open>src/src\<close>.

  \<^bold>\<open>The program.\<close> One process runs a thread per concern: the UDP thread talks to the game clients,
  the main thread authenticates them and manages zones, each zone thread simulates its zones, and
  further threads serve the login protocol, character selection, the database and the log. The
  threads exchange messages through bounded queues (\<open>ringbuf.c\<close>), keep their objects in hash tables
  (\<open>util_hash_tbl.c\<close>) with shared strings (\<open>buffer.c\<close>), schedule work through timer pools
  (\<open>timer.c\<close>) and read and write packets through a byte cursor (\<open>aligned.c\<close>). Packets are split
  into fragments (\<open>tlg_packet.c\<close>), made reliable by sequence numbers (\<open>ack_mgr.c\<close>), framed with a
  checksum (\<open>udp_client.c\<close>, \<open>crc.c\<close>) and sent from the table of connections (\<open>udp_thread.c\<close>).

  \<^bold>\<open>The theories.\<close> A function of the source keeps its name; a loop inside a function is a recursive
  function beside it, named after what it does.

  \<^item> \<open>Zeq_Prelude\<close>: the integer types as words, the error codes of \<open>enum_err.h\<close>, shared facts.
  \<^item> \<open>Zeq_Bits\<close>: \<open>bit.h\<close>, \<open>bit.c\<close>, \<open>hash.c\<close>. The power of two above a number is the least one.
  \<^item> \<open>Zeq_Buffer\<close>: \<open>buffer.c\<close>, an explicit heap of reference-counted strings.
  \<^item> \<open>Zeq_HashTbl\<close>, \<open>Zeq_Chains\<close>, \<open>Zeq_HashTbl_Struct\<close>, \<open>Zeq_HashTbl_Remove\<close>, \<open>Zeq_HashTbl_Map\<close>,
    \<open>Zeq_HashTbl_Keys\<close>: \<open>util_hash_tbl.c\<close>. Collisions are chained through free slots of the same
    array; the model keeps the array, the link words and the free index. The chain theories show
    which entries a walk visits, the structural ones that every operation keeps the chains, and the
    last two that the table refines a finite map, once for the locale \<open>table_keys\<close> of what a kind of
    key must provide, and then for its two interpretations, integers and strings.
  \<^item> \<open>Zeq_Crc\<close>: \<open>crc.c\<close>. The table-driven checksum equals bitwise polynomial division.
  \<^item> \<open>Zeq_Util\<close>: \<open>util_str.c\<close>, \<open>util_ipv4.c\<close>, \<open>util_cap.c\<close>.
  \<^item> \<open>Zeq_Aligned\<close>: \<open>aligned.c\<close>. A failed assertion is \<open>None\<close>; each pair of a reader and a writer
    interprets the locale \<open>codec\<close>, and a message of any fields is read back as it was written.
  \<^item> \<open>Zeq_RingBuf\<close>: \<open>ringbuf.c\<close> refines a bounded list.
  \<^item> \<open>Zeq_SwapPop\<close>, \<open>Zeq_Timer\<close>: removal by moving the last entry, and the timer pools of \<open>timer.c\<close>.
  \<^item> \<open>Zeq_Packet\<close>: \<open>tlg_packet.c\<close>, allocation and the splitting into fragments in place.
  \<^item> \<open>Zeq_AckMgr\<close>, \<open>Zeq_UdpClient\<close>: \<open>ack_mgr.c\<close> and \<open>udp_client.c\<close>, both directions.
  \<^item> \<open>Zeq_AckRecv\<close>, \<open>Zeq_Wire\<close>, \<open>Zeq_EndToEnd\<close>: what they promise: reassembly in order, the format
    of a datagram, and delivery of a packet from its creation to the message received.
  \<^item> \<open>Zeq_UdpThread\<close>, \<open>Zeq_UdpTable\<close>, \<open>Zeq_UdpProps\<close>: \<open>udp_thread.c\<close>, the invariant of the table of
    connections, and what the loop guarantees. The loop is a step relation over its phases, between which the
    other threads push commands, exchange messages and write packets.
  \<^item> \<open>Zeq_Skills\<close>: \<open>skills.c\<close>.
  \<^item> \<open>Zeq_ItemProto\<close>: \<open>item_proto.c\<close>. A prototype is one block of memory, written to the database as it
    is; the list of all prototypes has a table by number and one by script.
  \<^item> \<open>Zeq_Grow\<close>, \<open>Zeq_Inventory\<close>: the arrays that double when their length is a power of two;
    \<open>inventory.c\<close> and \<open>spellbook.c\<close>, loading, saving and their parts of the player profile.
  \<^item> \<open>Zeq_Mob\<close>, \<open>Zeq_Client\<close>: \<open>mob.c\<close> with the names of classes, races and deities, and \<open>client.c\<close>. A
    player is a record that holds the mob, as the struct does.
  \<^item> \<open>Zeq_ZoneId\<close>, \<open>Zeq_ZoneState\<close>: \<open>zone_id.c\<close>, and the state of a zone in \<open>zone.c\<close>.
  \<^item> \<open>Zeq_PacketWrite\<close>, \<open>Zeq_PacketStruct\<close>, \<open>Zeq_PacketCreate\<close>, \<open>Zeq_PacketLayout\<close>: \<open>packet_create.c\<close>. A packet
    is a list of writes through the cursor, grouped by the fields of \<open>packet_struct.h\<close>. Groups that \<open>fit\<close> a
    struct fill it exactly; the last theory states what the client reads, byte by byte or field by field,
    against layouts written down independently of the builders.
  \<^item> \<open>Zeq_Net\<close>, \<open>Zeq_World\<close>: what the threads above the UDP thread share, the packets and the queue to
    it; \<open>packet_static.c\<close>, and what a broadcast in a zone sends.
  \<^item> \<open>Zeq_Clock\<close>: \<open>util_clock_common.c\<close>, the calendar of the game.
  \<^item> \<open>Zeq_CharSelectState\<close>, \<open>Zeq_CharSelect\<close>: \<open>char_select_thread.c\<close> and \<open>char_select_client.c\<close>, all
    handlers and the loop over the messages of the thread.
  \<^item> \<open>Zeq_CharSelectProps\<close>, \<open>Zeq_CharSelectCreate\<close>: who is let in, an invariant over any sequence of
    messages, and which new characters are accepted.
  \<^item> \<open>Zeq_LoginState\<close>, \<open>Zeq_Login\<close>, \<open>Zeq_LoginThread\<close>: \<open>login_client.c\<close> and \<open>login_thread.c\<close>, all handlers and
    the loop. \<open>Zeq_LoginProps\<close> shows whom the thread authorizes and announces, by what happened since the client
    connected at its address, and what goes wrong when an address is given to another client while the database
    creates an account; \<open>Zeq_LoginServers\<close> shows when the list of servers fits its packet.

  \<^bold>\<open>Conventions.\<close> Integers are words of their C width, so arithmetic wraps as in C; \<open>sint\<close> reads a
  signed one. Pointers to shared objects are addresses into an explicit heap, 0 is \<open>NULL\<close>; an object
  with one owner is stored in its owner. What \<open>malloc\<close> answers, the clock, the socket and random
  bytes are arguments. A failed assertion, and an access outside an array, is \<open>None\<close>. Loops are
  structural or come with a termination proof; the chain walks of the hash table and the waiting
  loop of the queue may run for ever and are partial functions into \<open>option\<close>, whose results on
  well-formed states are proved to exist. The loop of the commands of the UDP thread takes its
  number of iterations as fuel; one more than the queue is long is proved to be enough.

  \<^bold>\<open>Not modelled.\<close> Interleavings of the atomic operations inside two calls on a queue, log messages,
  the database, the Lua interface, compression, encryption and the wrappers of system calls. Not yet
  modelled are the main thread and the zone threads, the packet of an item and the
  handlers of the packets that clients send in a zone. Floating-point numbers are their 32 bits: they are copied, compared with
  constants and truncated to integers, for which \<open>Zeq_PacketCreate\<close> reads the parts of the format.
\<close>

end
